(* ===== verification/ART_Prelude.thy ===== *)
theory ART_Prelude
  imports Main "HOL-Library.Word"
begin

text \<open>
  Shared vocabulary of the development: the machine integer types of the C++ sources, the
  compiler builtins they use on them (\<^verbatim>\<open>CLZ\<close>, \<^verbatim>\<open>CTZ\<close>, \<^verbatim>\<open>POPCOUNT\<close> and the rounding
  helpers of \<^verbatim>\<open>runtime/utils.h\<close>), and generic facts on words, lists and options that the
  component theories share.
\<close>

unbundle bit_operations_syntax

section \<open>Machine integers\<close>

type_synonym u8 = "8 word"
type_synonym u16 = "16 word"
type_synonym u32 = "32 word"
type_synonym u64 = "64 word"

text \<open>
  A signed C++ integer is the same word read through \<^const>\<open>sint\<close>. \<open>sshr\<close> is the arithmetic
  right shift that the supported compilers emit for \<^verbatim>\<open>>>\<close> on a signed operand.
\<close>

abbreviation shl :: "'a::len word \<Rightarrow> nat \<Rightarrow> 'a word" where
  "shl x n \<equiv> push_bit n x"

abbreviation shr :: "'a::len word \<Rightarrow> nat \<Rightarrow> 'a word" where
  "shr x n \<equiv> drop_bit n x"

abbreviation sshr :: "'a::len word \<Rightarrow> nat \<Rightarrow> 'a word" where
  "sshr x n \<equiv> signed_drop_bit n x"

section \<open>Builtins of runtime/utils.h\<close>

text \<open>Number of leading zero bits, trailing zero bits and one bits of a word.\<close>

definition CLZ :: "'a::len word \<Rightarrow> nat" where
  "CLZ x = length (takeWhile (\<lambda>i. \<not> bit x i) (rev [0..<LENGTH('a)]))"

definition CTZ :: "'a::len word \<Rightarrow> nat" where
  "CTZ x = length (takeWhile (\<lambda>i. \<not> bit x i) [0..<LENGTH('a)])"

definition POPCOUNT :: "'a::len word \<Rightarrow> nat" where
  "POPCOUNT x = length (filter (bit x) [0..<LENGTH('a)])"

definition RoundDown :: "'a::len word \<Rightarrow> 'a word \<Rightarrow> 'a word" where
  "RoundDown x n = x AND (- n)"

definition RoundUp :: "'a::len word \<Rightarrow> 'a word \<Rightarrow> 'a word" where
  "RoundUp x n = RoundDown (x + n - 1) n"

section \<open>Generic facts\<close>

named_theorems word_bits \<open>bit-level descriptions of masks and shifts\<close>

text \<open>
  \<^theory_text>\<open>bit_simps\<close> reduces the bits of a word literal to the bits of the integer literal; these
  are the literals used as masks in the sources.
\<close>

lemma bit_int_mask_iff: "bit (2 ^ k - 1 :: int) i \<longleftrightarrow> i < k"
  using bit_mask_iff [of k i, where ?'a = int] by (simp add: mask_eq_exp_minus_1)

lemma bit_int_exp_iff: "bit (2 ^ k :: int) i \<longleftrightarrow> i = k"
  using bit_exp_iff [of k i, where ?'a = int] by auto

lemma bit_mask_2 [word_bits]: "bit (0x3 :: int) i \<longleftrightarrow> i < 2"
  using bit_int_mask_iff [of 2 i] by simp

lemma bit_mask_3 [word_bits]: "bit (0x7 :: int) i \<longleftrightarrow> i < 3"
  using bit_int_mask_iff [of 3 i] by simp

lemma bit_mask_4 [word_bits]: "bit (0xf :: int) i \<longleftrightarrow> i < 4"
  using bit_int_mask_iff [of 4 i] by simp

lemma bit_mask_5 [word_bits]: "bit (0x1f :: int) i \<longleftrightarrow> i < 5"
  using bit_int_mask_iff [of 5 i] by simp

lemma bit_mask_6 [word_bits]: "bit (0x3f :: int) i \<longleftrightarrow> i < 6"
  using bit_int_mask_iff [of 6 i] by simp

lemma bit_mask_7 [word_bits]: "bit (0x7f :: int) i \<longleftrightarrow> i < 7"
  using bit_int_mask_iff [of 7 i] by simp

lemma bit_mask_8 [word_bits]: "bit (0xff :: int) i \<longleftrightarrow> i < 8"
  using bit_int_mask_iff [of 8 i] by simp

lemma bit_mask_14 [word_bits]: "bit (0x3fff :: int) i \<longleftrightarrow> i < 14"
  using bit_int_mask_iff [of 14 i] by simp

lemma bit_mask_16 [word_bits]: "bit (0xffff :: int) i \<longleftrightarrow> i < 16"
  using bit_int_mask_iff [of 16 i] by simp

lemma bit_mask_20 [word_bits]: "bit (0xfffff :: int) i \<longleftrightarrow> i < 20"
  using bit_int_mask_iff [of 20 i] by simp

lemma bit_mask_28 [word_bits]: "bit (0xfffffff :: int) i \<longleftrightarrow> i < 28"
  using bit_int_mask_iff [of 28 i] by simp

lemma bit_mask_30 [word_bits]: "bit (0x3fffffff :: int) i \<longleftrightarrow> i < 30"
  using bit_int_mask_iff [of 30 i] by simp

lemma bit_mask_high_8 [word_bits]: "bit (0xff00 :: int) i \<longleftrightarrow> 8 \<le> i \<and> i < 16"
proof -
  have "bit (push_bit 8 (0xff :: int)) i \<longleftrightarrow> 8 \<le> i \<and> i < 16"
    by (simp only: bit_push_bit_iff bit_mask_8) auto
  then show ?thesis by (simp add: push_bit_eq_mult)
qed

lemma bit_exp_5 [word_bits]: "bit (0x20 :: int) i \<longleftrightarrow> i = 5"
  using bit_int_exp_iff [of 5 i] by simp

lemma bit_exp_6 [word_bits]: "bit (0x40 :: int) i \<longleftrightarrow> i = 6"
  using bit_int_exp_iff [of 6 i] by simp

lemma bit_exp_7 [word_bits]: "bit (0x80 :: int) i \<longleftrightarrow> i = 7"
  using bit_int_exp_iff [of 7 i] by simp

lemma bit_exp_30 [word_bits]: "bit (0x40000000 :: int) i \<longleftrightarrow> i = 30"
  using bit_int_exp_iff [of 30 i] by simp

lemma bit_exp_31 [word_bits]: "bit (0x80000000 :: int) i \<longleftrightarrow> i = 31"
  using bit_int_exp_iff [of 31 i] by simp

lemma unat_shr: "unat (shr x n) = unat x div 2 ^ n"
  by (simp add: drop_bit_eq_div flip: unat_drop_bit_eq) (simp add: unat_drop_bit_eq flip: drop_bit_eq_div)

lemma div_exp_less_self: "0 < (m::nat) \<Longrightarrow> 0 < n \<Longrightarrow> m div 2 ^ n < m"
  using one_less_power [of "2::nat" n] by simp

lemma shr_less [intro]: "x \<noteq> 0 \<Longrightarrow> 0 < n \<Longrightarrow> unat (shr x n) < unat x"
  by (simp only: unat_shr) (simp add: div_exp_less_self unat_gt_0)

text \<open>Numbers that fit into a word.\<close>

lemma unat_of_nat_small: "n < 2 ^ LENGTH('a) \<Longrightarrow> unat (of_nat n :: 'a::len word) = n"
  by (simp add: unsigned_of_nat take_bit_nat_eq_self)

lemma sint_of_nat_small: "n < 2 ^ (LENGTH('a) - 1) \<Longrightarrow> sint (of_nat n :: 'a::len word) = int n"
proof -
  assume "n < 2 ^ (LENGTH('a) - 1)"
  then have "int n < int (2 ^ (LENGTH('a) - 1))" by (simp only: of_nat_less_iff)
  then have "int n < 2 ^ (LENGTH('a) - 1)" by simp
  moreover have "- (2 ^ (LENGTH('a) - 1)) \<le> (0 :: int)" by simp
  then have "- (2 ^ (LENGTH('a) - 1)) \<le> int n" by linarith
  ultimately show ?thesis
    by (simp add: signed_of_nat signed_take_bit_int_eq_self)
qed

lemma word_neq_0_bit: "x \<noteq> (0 :: 'a::len word) \<longleftrightarrow> (\<exists>i < LENGTH('a). bit x i)"
  by (metis bit_0_eq bot_apply bot_bool_def bit_word_eqI)

text \<open>A word with no bit at or above position \<open>n\<close> is below \<open>2 ^ n\<close>, and conversely.\<close>

lemma less_exp_iff_bits:
  "unat (x :: 'a::len word) < 2 ^ n \<longleftrightarrow> (\<forall>i\<ge>n. \<not> bit x i)"
proof -
  have "unat x < 2 ^ n \<longleftrightarrow> take_bit n x = x"
    by (metis take_bit_nat_eq_self_iff unsigned_take_bit_eq unsigned_word_eqI)
  also have "\<dots> \<longleftrightarrow> (\<forall>i\<ge>n. \<not> bit x i)"
    by (metis bit_take_bit_iff bit_word_eqI not_less)
  finally show ?thesis .
qed

lemma shr_eq_0_iff: "shr x n = 0 \<longleftrightarrow> unat x < 2 ^ n"
proof -
  have "shr x n = 0 \<longleftrightarrow> unat (shr x n) = 0" by (simp only: unat_eq_zero)
  then show ?thesis by (simp only: unat_shr div_eq_0_iff) simp
qed

text \<open>Shifts, truncation and sign extension.\<close>

lemma take_bit_small: "unat x < 2 ^ n \<Longrightarrow> take_bit n x = (x :: 'a::len word)"
  by (metis take_bit_nat_eq_self_iff unsigned_take_bit_eq unsigned_word_eqI)

lemma take_bit_extend:
  "take_bit a x OR shl (take_bit b (shr x a)) a = take_bit (a + b) (x :: 'a::len word)"
  by (rule bit_word_eqI) (auto simp: bit_simps)

lemma take_bit_extend_signed:
  "take_bit a x OR shl (take_bit b (sshr x a)) a = take_bit (a + b) (x :: 'a::len word)"
  by (rule bit_word_eqI) (auto simp: bit_simps)

lemma unat_ucast_u8_u32: "unat (ucast (b::u8) :: u32) = unat b"
  using unsigned_less [of b, where ?'a = nat]
  by (simp add: unsigned_ucast_eq take_bit_nat_eq_self_iff)

text \<open>\<^const>\<open>CLZ\<close> measures the number of significant bits.\<close>

lemma le_length_takeWhile:
  "m \<le> length xs \<Longrightarrow> m \<le> length (takeWhile P xs) \<longleftrightarrow> (\<forall>j<m. P (xs ! j))"
proof (induction xs arbitrary: m)
  case Nil
  then show ?case by simp
next
  case (Cons x xs)
  then show ?case by (cases m) (auto simp: less_Suc_eq_0_disj)
qed

lemma CLZ_le_iff: "LENGTH('a) - CLZ (x :: 'a::len word) \<le> k \<longleftrightarrow> unat x < 2 ^ k"
proof (cases "k \<le> LENGTH('a)")
  case True
  let ?L = "LENGTH('a)"
  have "?L - CLZ x \<le> k \<longleftrightarrow> ?L - k \<le> CLZ x" using True by linarith
  also have "\<dots> \<longleftrightarrow> (\<forall>j < ?L - k. \<not> bit x (?L - Suc j))"
    unfolding CLZ_def by (subst le_length_takeWhile) (auto simp: rev_nth)
  also have "\<dots> \<longleftrightarrow> (\<forall>i\<ge>k. \<not> bit x i)"
  proof (intro iffI allI impI)
    fix i assume *: "\<forall>j < ?L - k. \<not> bit x (?L - Suc j)" "k \<le> i"
    show "\<not> bit x i"
    proof
      assume "bit x i"
      then have "i < ?L" by (rule bit_imp_le_length)
      moreover from this *(2) have "?L - Suc i < ?L - k" by linarith
      ultimately have "\<not> bit x (?L - Suc (?L - Suc i))" using *(1) by blast
      with \<open>i < ?L\<close> \<open>bit x i\<close> show False by (simp add: Suc_diff_Suc)
    qed
  qed auto
  finally show ?thesis by (simp add: less_exp_iff_bits)
next
  case False
  then have "unat x < 2 ^ k"
    using unsigned_less [of x, where ?'a = nat] power_strict_increasing [of "LENGTH('a)" k "2::nat"]
    by linarith
  with False show ?thesis by simp
qed

lemma CLZ_le_length: "CLZ (x :: 'a::len word) \<le> LENGTH('a)"
  unfolding CLZ_def using length_takeWhile_le [of _ "rev [0..<LENGTH('a)]"] by simp

section \<open>Self-delimiting codes\<close>

text \<open>
  The contract of the byte level encoders: decoding what was encoded returns the value and
  leaves the cursor just behind it. Whatever satisfies it is prefix free, and a sequence of
  encoded values is read back by as many decoding steps.
\<close>

primrec decode_many :: "('b list \<Rightarrow> ('v \<times> 'b list) option) \<Rightarrow> nat \<Rightarrow> 'b list \<Rightarrow> ('v list \<times> 'b list) option"
where
  "decode_many dec 0 bs = Some ([], bs)"
| "decode_many dec (Suc n) bs =
     (case dec bs of
        None \<Rightarrow> None
      | Some (v, bs') \<Rightarrow> map_option (\<lambda>(vs, r). (v # vs, r)) (decode_many dec n bs'))"

locale self_delimiting =
  fixes enc :: "'v \<Rightarrow> 'b list"
    and dec :: "'b list \<Rightarrow> ('v \<times> 'b list) option"
    and valid :: "'v \<Rightarrow> bool"
  assumes dec_enc: "valid v \<Longrightarrow> dec (enc v @ rest) = Some (v, rest)"
begin

lemma enc_prefix_free:
  "valid v \<Longrightarrow> valid w \<Longrightarrow> enc v @ r = enc w @ s \<Longrightarrow> v = w \<and> r = s"
  by (metis dec_enc option.inject prod.inject)

lemma decode_many_enc:
  "list_all valid vs \<Longrightarrow>
     decode_many dec (length vs) (concat (map enc vs) @ rest) = Some (vs, rest)"
  by (induction vs) (simp_all add: dec_enc)

end

end
