(* ===== verification/Leb128.thy ===== *)
theory Leb128
  imports ART_Prelude
begin

text \<open>
  \<^verbatim>\<open>runtime/leb128.h\<close>: the variable length integer encoding of dex files, of the mapping and
  vmap tables and of the oat data. A cursor into the encoded bytes is the list of the bytes
  from the cursor on; reading past the end of the buffer (undefined in the C++) is \<^term>\<open>None\<close>.
  An output cursor is the list of the bytes written so far.
\<close>

section \<open>Decoders\<close>

definition DecodeUnsignedLeb128 :: "u8 list \<Rightarrow> (u32 \<times> u8 list) option" where
  "DecodeUnsignedLeb128 ptr = (case ptr of
     [] \<Rightarrow> None
   | b0 # ptr \<Rightarrow>
     let result = (ucast b0 :: u32) in
     if \<not> result > 0x7f then Some (result, ptr) else (case ptr of
     [] \<Rightarrow> None
   | b1 # ptr \<Rightarrow>
     let cur = (ucast b1 :: u32); result = (result AND 0x7f) OR shl (cur AND 0x7f) 7 in
     if \<not> cur > 0x7f then Some (result, ptr) else (case ptr of
     [] \<Rightarrow> None
   | b2 # ptr \<Rightarrow>
     let cur = (ucast b2 :: u32); result = result OR shl (cur AND 0x7f) 14 in
     if \<not> cur > 0x7f then Some (result, ptr) else (case ptr of
     [] \<Rightarrow> None
   | b3 # ptr \<Rightarrow>
     let cur = (ucast b3 :: u32); result = result OR shl (cur AND 0x7f) 21 in
     if \<not> cur > 0x7f then Some (result, ptr) else (case ptr of
     [] \<Rightarrow> None
   | b4 # ptr \<Rightarrow>
     let cur = (ucast b4 :: u32); result = result OR shl cur 28 in
     Some (result, ptr))))))"

definition DecodeUnsignedLeb128P1 :: "u8 list \<Rightarrow> (u32 \<times> u8 list) option" where
  "DecodeUnsignedLeb128P1 ptr = map_option (\<lambda>(v, rest). (v - 1, rest)) (DecodeUnsignedLeb128 ptr)"

definition DecodeSignedLeb128 :: "u8 list \<Rightarrow> (u32 \<times> u8 list) option" where
  "DecodeSignedLeb128 ptr = (case ptr of
     [] \<Rightarrow> None
   | b0 # ptr \<Rightarrow>
     let result = (ucast b0 :: u32) in
     if result \<le> 0x7f then Some (sshr (shl result 25) 25, ptr) else (case ptr of
     [] \<Rightarrow> None
   | b1 # ptr \<Rightarrow>
     let cur = (ucast b1 :: u32); result = (result AND 0x7f) OR shl (cur AND 0x7f) 7 in
     if cur \<le> 0x7f then Some (sshr (shl result 18) 18, ptr) else (case ptr of
     [] \<Rightarrow> None
   | b2 # ptr \<Rightarrow>
     let cur = (ucast b2 :: u32); result = result OR shl (cur AND 0x7f) 14 in
     if cur \<le> 0x7f then Some (sshr (shl result 11) 11, ptr) else (case ptr of
     [] \<Rightarrow> None
   | b3 # ptr \<Rightarrow>
     let cur = (ucast b3 :: u32); result = result OR shl (cur AND 0x7f) 21 in
     if cur \<le> 0x7f then Some (sshr (shl result 4) 4, ptr) else (case ptr of
     [] \<Rightarrow> None
   | b4 # ptr \<Rightarrow>
     let cur = (ucast b4 :: u32); result = result OR shl cur 28 in
     Some (result, ptr))))))"

section \<open>Sizes\<close>

definition UnsignedLeb128Size :: "u32 \<Rightarrow> u32" where
  "UnsignedLeb128Size data =
     (let x = 6 + 32 - of_nat (CLZ (data OR 1)) in shr (x * 37) 8)"

definition SignedLeb128Size :: "u32 \<Rightarrow> u32" where
  "SignedLeb128Size data =
     (let data = data XOR sshr data 31;
          x = 1 + 6 + 32 - of_nat (CLZ (data OR 1)) in shr (x * 37) 8)"

section \<open>Encoders\<close>

function encode_unsigned_loop :: "u8 list \<Rightarrow> u8 \<Rightarrow> u32 \<Rightarrow> u8 list" where
  "encode_unsigned_loop dest out value =
     (if value \<noteq> 0
      then encode_unsigned_loop (dest @ [out OR 0x80]) (ucast (value AND 0x7f)) (shr value 7)
      else dest @ [out])"
  by pat_completeness auto
termination
  by (relation "measure (\<lambda>(dest, out, value). unat value)") (auto intro: shr_less)

definition EncodeUnsignedLeb128 :: "u8 list \<Rightarrow> u32 \<Rightarrow> u8 list" where
  "EncodeUnsignedLeb128 dest value =
     encode_unsigned_loop dest (ucast (value AND 0x7f)) (shr value 7)"

function encode_signed_loop :: "u8 list \<Rightarrow> u8 \<Rightarrow> u32 \<Rightarrow> u32 \<Rightarrow> u8 list" where
  "encode_signed_loop dest out value extra_bits =
     (if extra_bits \<noteq> 0
      then let value = sshr value 7 in
           encode_signed_loop (dest @ [out OR 0x80]) (ucast (value AND 0x7f)) value
             (shr extra_bits 7)
      else dest @ [out])"
  by pat_completeness auto
termination
  by (relation "measure (\<lambda>(dest, out, value, extra_bits). unat extra_bits)") (auto intro: shr_less)

definition EncodeSignedLeb128 :: "u8 list \<Rightarrow> u32 \<Rightarrow> u8 list" where
  "EncodeSignedLeb128 dest value =
     encode_signed_loop dest (ucast (value AND 0x7f)) value
       (shr (value XOR sshr value 31) 6)"

declare encode_unsigned_loop.simps [simp del] encode_signed_loop.simps [simp del]

text \<open>
  \<^verbatim>\<open>Leb128Encoder\<close> keeps the bytes in a vector; its loops are those of the two functions above
  with \<^verbatim>\<open>push_back\<close> in the place of the store through the cursor.
\<close>

definition PushBackUnsigned :: "u8 list \<Rightarrow> u32 \<Rightarrow> u8 list" where
  "PushBackUnsigned data value =
     encode_unsigned_loop data (ucast (value AND 0x7f)) (shr value 7)"

primrec InsertBackUnsigned :: "u8 list \<Rightarrow> u32 list \<Rightarrow> u8 list" where
  "InsertBackUnsigned data [] = data"
| "InsertBackUnsigned data (v # vs) = InsertBackUnsigned (PushBackUnsigned data v) vs"

definition PushBackSigned :: "u8 list \<Rightarrow> u32 \<Rightarrow> u8 list" where
  "PushBackSigned data value =
     encode_signed_loop data (ucast (value AND 0x7f)) value
       (shr (value XOR sshr value 31) 6)"

primrec InsertBackSigned :: "u8 list \<Rightarrow> u32 list \<Rightarrow> u8 list" where
  "InsertBackSigned data [] = data"
| "InsertBackSigned data (v # vs) = InsertBackSigned (PushBackSigned data v) vs"

section \<open>Byte groups\<close>

lemma byte_gt_7f: "(0x7f < (ucast (b :: u8) :: u32)) \<longleftrightarrow> bit b 7"
proof -
  have "i = 7" if "7 \<le> i" "bit b i" for i
    using bit_imp_le_length [OF that(2)] that(1) by simp
  then have "unat b < 2 ^ 7 \<longleftrightarrow> \<not> bit b 7"
    unfolding less_exp_iff_bits by auto
  then show ?thesis
    by (auto simp: word_less_nat_alt unat_ucast_u8_u32)
qed

lemma byte_le_7f: "((ucast (b :: u8) :: u32) \<le> 0x7f) \<longleftrightarrow> \<not> bit b 7"
  by (simp add: byte_gt_7f flip: not_less)

lemma cont_bit: "bit ((x::u8) OR 0x80) 7"
  by (simp add: bit_simps)

lemma and_7f: "x AND 0x7f = take_bit 7 (x :: 'a::len word)"
  by (rule bit_word_eqI) (auto simp: bit_simps word_bits)

lemma low7_no_cont: "\<not> bit (ucast (take_bit 7 x :: u32) :: u8) 7"
  by (simp add: bit_simps)

lemma low7: "(ucast (ucast (take_bit 7 x :: u32) :: u8) :: u32) = take_bit 7 x"
  by (rule bit_word_eqI) (auto simp: bit_simps)

lemma low7_cont: "take_bit 7 (ucast (ucast (take_bit 7 x :: u32) OR 0x80 :: u8) :: u32) = take_bit 7 x"
  by (rule bit_word_eqI) (auto simp: bit_simps word_bits)

lemmas leb_bytes = and_7f byte_gt_7f byte_le_7f cont_bit low7_no_cont low7 low7_cont

lemmas leb_groups = 
  take_bit_extend [of 7 _ 7, simplified] take_bit_extend [of 14 _ 7, simplified]
  take_bit_extend [of 21 _ 7, simplified] take_bit_extend [of 28 _ 7, simplified]
  take_bit_extend_signed [of 7 _ 7, simplified] take_bit_extend_signed [of 14 _ 7, simplified]
  take_bit_extend_signed [of 21 _ 7, simplified] take_bit_extend_signed [of 28 _ 7, simplified]

lemma take_bit_7_le: "take_bit 7 (x :: u32) \<le> 0x7f" "\<not> 0x7f < take_bit 7 (x :: u32)"
proof -
  have "unat (take_bit 7 x) < 2 ^ 7"
    using take_bit_nat_less_exp [of 7 "unat x"] by (simp only: unsigned_take_bit_eq)
  then show "take_bit 7 (x :: u32) \<le> 0x7f" "\<not> 0x7f < take_bit 7 (x :: u32)"
    by (auto simp: word_le_nat_alt word_less_nat_alt)
qed

lemma take_bit_35: "take_bit 35 x = (x :: u32)"
  by (simp add: take_bit_word_eq_self)

lemmas take_bit_smalls = take_bit_small [of _ 7, simplified] take_bit_small [of _ 14, simplified]
  take_bit_small [of _ 21, simplified] take_bit_small [of _ 28, simplified]

lemma encode_unsigned_bytes:
  "EncodeUnsignedLeb128 dest v =
     (let g = (\<lambda>k. ucast (take_bit 7 (shr v (7 * k))) :: u8) in dest @
     (if unat v < 2 ^ 7 then [g 0]
      else if unat v < 2 ^ 14 then [g 0 OR 0x80, g 1]
      else if unat v < 2 ^ 21 then [g 0 OR 0x80, g 1 OR 0x80, g 2]
      else if unat v < 2 ^ 28 then [g 0 OR 0x80, g 1 OR 0x80, g 2 OR 0x80, g 3]
      else [g 0 OR 0x80, g 1 OR 0x80, g 2 OR 0x80, g 3 OR 0x80, g 4]))"
  by (simp add: EncodeUnsignedLeb128_def Let_def shr_eq_0_iff and_7f
        encode_unsigned_loop.simps [of _ _ "shr v n" for n] encode_unsigned_loop.simps [of _ _ 0])

lemma uleb_roundtrip:
  "DecodeUnsignedLeb128 (EncodeUnsignedLeb128 [] v @ rest) = Some (v, rest)"
  by (simp add: encode_unsigned_bytes DecodeUnsignedLeb128_def Let_def leb_bytes leb_groups
        take_bit_7_le take_bit_35) (simp add: take_bit_smalls)

lemma encode_signed_loop_bytes:
  "encode_signed_loop dest (ucast (take_bit 7 v)) v (shr e 6) =
     (let g = (\<lambda>k. ucast (take_bit 7 (sshr v (7 * k))) :: u8) in dest @
     (if unat e < 2 ^ 6 then [g 0]
      else if unat e < 2 ^ 13 then [g 0 OR 0x80, g 1]
      else if unat e < 2 ^ 20 then [g 0 OR 0x80, g 1 OR 0x80, g 2]
      else if unat e < 2 ^ 27 then [g 0 OR 0x80, g 1 OR 0x80, g 2 OR 0x80, g 3]
      else [g 0 OR 0x80, g 1 OR 0x80, g 2 OR 0x80, g 3 OR 0x80, g 4]))"
  by (simp add: Let_def shr_eq_0_iff and_7f
        encode_signed_loop.simps [of _ _ _ "shr e n" for n] encode_signed_loop.simps [of _ _ _ 0])

lemma encode_signed_bytes:
  "EncodeSignedLeb128 dest v =
     (let g = (\<lambda>k. ucast (take_bit 7 (sshr v (7 * k))) :: u8); e = v XOR sshr v 31 in dest @
     (if unat e < 2 ^ 6 then [g 0]
      else if unat e < 2 ^ 13 then [g 0 OR 0x80, g 1]
      else if unat e < 2 ^ 20 then [g 0 OR 0x80, g 1 OR 0x80, g 2]
      else if unat e < 2 ^ 27 then [g 0 OR 0x80, g 1 OR 0x80, g 2 OR 0x80, g 3]
      else [g 0 OR 0x80, g 1 OR 0x80, g 2 OR 0x80, g 3 OR 0x80, g 4]))"
  by (simp only: EncodeSignedLeb128_def Let_def encode_signed_loop_bytes and_7f)

lemma sign_bits_small:
  assumes "unat (v XOR sshr v 31) < 2 ^ n" "n \<le> i" "i < 32"
  shows "bit (v :: u32) i = bit v 31"
proof -
  have "\<not> bit (v XOR sshr v 31) i"
    using assms(1,2) unfolding less_exp_iff_bits by blast
  moreover have "bit (sshr v 31) i = bit v 31"
    using assms(3) by (cases i) (simp_all add: bit_signed_drop_bit_iff)
  ultimately show ?thesis by (simp add: bit_xor_iff)
qed

lemma sign_extend_small:
  assumes "unat (v XOR sshr v 31) < 2 ^ n" "n + k = 31"
  shows "sshr (shl (take_bit (Suc n) v) k) k = (v :: u32)"
proof (rule bit_word_eqI)
  fix i assume i: "i < LENGTH(32)"
  show "bit (sshr (shl (take_bit (Suc n) v) k) k) i = bit v i"
  proof (cases "n \<le> i")
    case True
    have nk: "31 - k = n" "32 - k = Suc n" using assms(2) by simp_all
    from True i assms(2) have "bit (sshr (shl (take_bit (Suc n) v) k) k) i = bit v n"
      by (auto simp: bit_signed_drop_bit_iff bit_push_bit_iff bit_take_bit_iff nk le_eq_less_or_eq)
    then show ?thesis
      using sign_bits_small [OF assms(1), of n] sign_bits_small [OF assms(1) True] assms(2) i by simp
  next
    case False
    with i assms(2) show ?thesis
      by (auto simp: bit_signed_drop_bit_iff bit_push_bit_iff bit_take_bit_iff)
  qed
qed

lemmas sign_extend_smalls = sign_extend_small [of _ 6 25, simplified]
  sign_extend_small [of _ 13 18, simplified] sign_extend_small [of _ 20 11, simplified]
  sign_extend_small [of _ 27 4, simplified]

lemma decode_signed_bytes:
  "\<not> bit b0 7 \<Longrightarrow> DecodeSignedLeb128 (b0 # r) = Some (sshr (shl (ucast b0) 25) 25, r)"
  "bit b0 7 \<Longrightarrow> \<not> bit b1 7 \<Longrightarrow> DecodeSignedLeb128 (b0 # b1 # r) =
     Some (sshr (shl (take_bit 7 (ucast b0) OR shl (take_bit 7 (ucast b1)) 7) 18) 18, r)"
  "bit b0 7 \<Longrightarrow> bit b1 7 \<Longrightarrow> \<not> bit b2 7 \<Longrightarrow> DecodeSignedLeb128 (b0 # b1 # b2 # r) =
     Some (sshr (shl ((take_bit 7 (ucast b0) OR shl (take_bit 7 (ucast b1)) 7)
       OR shl (take_bit 7 (ucast b2)) 14) 11) 11, r)"
  "bit b0 7 \<Longrightarrow> bit b1 7 \<Longrightarrow> bit b2 7 \<Longrightarrow> \<not> bit b3 7 \<Longrightarrow> DecodeSignedLeb128 (b0 # b1 # b2 # b3 # r) =
     Some (sshr (shl (((take_bit 7 (ucast b0) OR shl (take_bit 7 (ucast b1)) 7)
       OR shl (take_bit 7 (ucast b2)) 14) OR shl (take_bit 7 (ucast b3)) 21) 4) 4, r)"
  "bit b0 7 \<Longrightarrow> bit b1 7 \<Longrightarrow> bit b2 7 \<Longrightarrow> bit b3 7 \<Longrightarrow> DecodeSignedLeb128 (b0 # b1 # b2 # b3 # b4 # r) =
     Some ((((take_bit 7 (ucast b0) OR shl (take_bit 7 (ucast b1)) 7)
       OR shl (take_bit 7 (ucast b2)) 14) OR shl (take_bit 7 (ucast b3)) 21) OR shl (ucast b4) 28, r)"
  by (simp_all add: DecodeSignedLeb128_def Let_def byte_le_7f and_7f)

lemma sleb_roundtrip:
  "DecodeSignedLeb128 (EncodeSignedLeb128 [] v @ rest) = Some (v, rest)"
  by (simp add: encode_signed_bytes decode_signed_bytes Let_def leb_bytes leb_groups take_bit_35 
       sign_extend_smalls del: bit_or_iff)
section \<open>Size prediction\<close>

lemma unat_or_1_less: "0 < k \<Longrightarrow> unat (x OR 1) < 2 ^ k \<longleftrightarrow> unat (x :: 'a::len word) < 2 ^ k"
  unfolding less_exp_iff_bits by (auto simp: bit_simps)

lemma div_7_by_37: "m < 40 \<Longrightarrow> m * 37 div 256 = m div (7::nat)"
proof -
  have "\<forall>m\<in>set [0..<40]. m * 37 div 256 = m div (7::nat)" by code_simp
  then show "m < 40 \<Longrightarrow> m * 37 div 256 = m div (7::nat)" by simp
qed

lemma unat_times_37_shr_8: "m < 40 \<Longrightarrow> unat (shr ((of_nat m :: u32) * 37) 8) = m div 7"
proof -
  assume "m < 40"
  then have "unat ((of_nat m :: u32) * 37) = m * 37"
    by (simp add: unat_word_ariths unsigned_of_nat take_bit_eq_mod)
  then show ?thesis using div_7_by_37 [OF \<open>m < 40\<close>] by (simp only: unat_shr) simp
qed

lemma leb_size_arith:
  assumes "CLZ (x :: u32) \<le> 32" "c \<le> 7"
  shows "unat (shr ((of_nat c + 32 - of_nat (CLZ x) :: u32) * 37) 8) = (32 - CLZ x + c) div 7"
proof -
  have "(of_nat c + 32 - of_nat (CLZ x) :: u32) = of_nat (32 - CLZ x + c)"
    using assms(1) by (simp add: of_nat_diff)
  then show ?thesis
    using unat_times_37_shr_8 [of "32 - CLZ x + c"] assms(2) by (simp only:)
qed

lemma significant_bits: 
  "0 < k \<Longrightarrow> unat (v :: u32) < 2 ^ k \<longleftrightarrow> 32 - CLZ (v OR 1) \<le> k"
  using CLZ_le_iff [of "v OR 1" k] unat_or_1_less [of k v] by simp

lemma significant_bits_pos: "0 < 32 - CLZ ((v :: u32) OR 1)"
proof -
  have "bit (v OR 1) 0" by (simp add: bit_simps)
  then have "\<not> unat (v OR 1) < 2 ^ 0" unfolding less_exp_iff_bits by blast
  then show ?thesis using CLZ_le_iff [of "v OR 1" 0] by simp
qed

lemma div_7_ranges:
  assumes "m < 40"
  shows "m div (7::nat) = (if m < 7 then 0 else if m < 14 then 1 else if m < 21 then 2
    else if m < 28 then 3 else if m < 35 then 4 else 5)"
proof -
  have "\<forall>m\<in>set [0..<40]. m div (7::nat) = (if m < 7 then 0 else if m < 14 then 1
    else if m < 21 then 2 else if m < 28 then 3 else if m < 35 then 4 else 5)" by code_simp
  with assms show ?thesis by simp
qed

lemma UnsignedLeb128Size_encode:
  "unat (UnsignedLeb128Size v) = length (EncodeUnsignedLeb128 [] v)"
proof -
  define n where "n = 32 - CLZ (v OR 1)"
  have "unat (UnsignedLeb128Size v) = (n + 6) div 7"
    using leb_size_arith [of "v OR 1" 6] CLZ_le_length [of "v OR 1"]
    by (simp add: UnsignedLeb128Size_def Let_def n_def)
  moreover have "n \<le> 32" by (simp add: n_def)
  ultimately show ?thesis
    using significant_bits_pos [of v]
    by (simp add: encode_unsigned_bytes Let_def div_7_ranges significant_bits [of 7, simplified]
        significant_bits [of 14, simplified] significant_bits [of 21, simplified]
        significant_bits [of 28, simplified] flip: n_def)
qed

lemma sign_folded_small: "unat (v XOR sshr v 31) < 2 ^ 31" for v :: u32
  unfolding less_exp_iff_bits
proof (intro allI impI)
  fix i :: nat assume "31 \<le> i"
  then consider "i = 31" | "32 \<le> i" by linarith
  then show "\<not> bit (v XOR sshr v 31) i"
    by cases (auto simp: bit_simps dest: bit_imp_le_length)
qed

lemma SignedLeb128Size_encode:
  "unat (SignedLeb128Size v) = length (EncodeSignedLeb128 [] v)"
proof -
  define e where "e = v XOR sshr v 31"
  define n where "n = 32 - CLZ (e OR 1)"
  have "unat (SignedLeb128Size v) = (n + 7) div 7"
    using leb_size_arith [of "e OR 1" 7] CLZ_le_length [of "e OR 1"]
    by (simp add: SignedLeb128Size_def Let_def n_def e_def)
  moreover have "n \<le> 31"
    using significant_bits [of 31 e] sign_folded_small [of v] by (simp add: n_def e_def)
  ultimately show ?thesis
    using significant_bits_pos [of e]
    by (simp add: encode_signed_bytes Let_def div_7_ranges significant_bits [of 6, simplified]
        significant_bits [of 13, simplified] significant_bits [of 20, simplified]
        significant_bits [of 27, simplified] flip: n_def e_def)
qed

section \<open>Properties\<close>

lemma encode_unsigned_append:
  "EncodeUnsignedLeb128 dest v = dest @ EncodeUnsignedLeb128 [] v"
  by (simp add: encode_unsigned_bytes Let_def)

lemma encode_signed_append:
  "EncodeSignedLeb128 dest v = dest @ EncodeSignedLeb128 [] v"
  by (simp add: encode_signed_bytes Let_def)

interpretation uleb: self_delimiting "EncodeUnsignedLeb128 []" DecodeUnsignedLeb128 "\<lambda>_. True"
  by unfold_locales (rule uleb_roundtrip)

interpretation sleb: self_delimiting "EncodeSignedLeb128 []" DecodeSignedLeb128 "\<lambda>_. True"
  by unfold_locales (rule sleb_roundtrip)

lemma InsertBackUnsigned_concat:
  "InsertBackUnsigned data vs = data @ concat (map (EncodeUnsignedLeb128 []) vs)"
proof (induction vs arbitrary: data)
  case (Cons v vs)
  have "PushBackUnsigned data v = data @ EncodeUnsignedLeb128 [] v"
    using encode_unsigned_append [of data v]
    by (simp add: PushBackUnsigned_def EncodeUnsignedLeb128_def)
  with Cons show ?case by simp
qed simp

lemma InsertBackSigned_concat:
  "InsertBackSigned data vs = data @ concat (map (EncodeSignedLeb128 []) vs)"
proof (induction vs arbitrary: data)
  case (Cons v vs)
  have "PushBackSigned data v = data @ EncodeSignedLeb128 [] v"
    using encode_signed_append [of data v]
    by (simp add: PushBackSigned_def EncodeSignedLeb128_def)
  with Cons show ?case by simp
qed simp

text \<open>C12: A sequence of values pushed with the vector encoder is read back, value by value, by the
  unsigned decoder, which stops exactly behind the last encoded byte, whatever follows.\<close>
theorem leb128_unsigned_stream:
  "decode_many DecodeUnsignedLeb128 (length vs) (InsertBackUnsigned [] vs @ rest) = Some (vs, rest)"
  by (simp add: InsertBackUnsigned_concat uleb.decode_many_enc list_all_iff)

text \<open>C13: A sequence of signed values pushed with the vector encoder is read back by the signed
  decoder, sign included, and the decoder stops exactly behind the last encoded byte.\<close>
theorem leb128_signed_stream:
  "decode_many DecodeSignedLeb128 (length vs) (InsertBackSigned [] vs @ rest) = Some (vs, rest)"
  by (simp add: InsertBackSigned_concat sleb.decode_many_enc list_all_iff)

text \<open>C30: The size functions, which use a multiplication by 37 instead of a division by 7, return
  the exact number of bytes that the encoders write, for every 32 bit value.\<close>
theorem leb128_size_exact:
  "unat (UnsignedLeb128Size v) = length (EncodeUnsignedLeb128 [] v) \<and>
   unat (SignedLeb128Size v) = length (EncodeSignedLeb128 [] v)"
  by (simp add: UnsignedLeb128Size_encode SignedLeb128Size_encode)

end
