(* ===== verification/ModifiedUtf8.thy ===== *)
theory ModifiedUtf8
  imports Leb128
begin

text \<open>
  Modified UTF-8 (\<^verbatim>\<open>runtime/utf.cc\<close>, \<^verbatim>\<open>runtime/utf-inl.h\<close>) and the two validators in front of it:
  \<^verbatim>\<open>CheckUtfBytes\<close> of \<^verbatim>\<open>runtime/check_jni.cc\<close> for strings that come from native code and
  \<^verbatim>\<open>CheckIntraStringDataItem\<close> of \<^verbatim>\<open>runtime/dex_file_verifier.cc\<close> for the strings of a dex file.

  A pointer into a buffer is the list of the bytes from there to the end of the buffer, and a read
  past the end is \<^const>\<open>None\<close>. Whether \<^verbatim>\<open>char\<close> is signed depends on the platform; where the sources
  read a plain \<^verbatim>\<open>char\<close> into a wider integer, the signedness is the parameter \<open>signed_char\<close>.
\<close>

section \<open>Decoding and encoding\<close>

fun GetUtf16FromUtf8 :: "u8 list \<Rightarrow> (u16 \<times> u8 list) option" where
  "GetUtf16FromUtf8 [] = None"
| "GetUtf16FromUtf8 (one # p) =
     (if one AND 0x80 = 0 then Some (ucast one, p)
      else case p of
        [] \<Rightarrow> None
      | two # p \<Rightarrow>
          if one AND 0x20 = 0 then Some (shl (ucast one AND 0x1f) 6 OR (ucast two AND 0x3f), p)
          else case p of
            [] \<Rightarrow> None
          | three # p \<Rightarrow>
              Some (shl (ucast one AND 0x0f) 12 OR shl (ucast two AND 0x3f) 6 OR (ucast three AND 0x3f), p))"

lemma GetUtf16FromUtf8_shorter: "GetUtf16FromUtf8 p = Some (c, q) \<Longrightarrow> length q < length p"
  by (cases p) (auto split: if_splits list.splits)

function count_chars :: "nat \<Rightarrow> u8 list \<Rightarrow> nat option" where
  "count_chars len utf8 =
     (case utf8 of
        [] \<Rightarrow> None
      | ic # utf8 \<Rightarrow>
          if ic = 0 then Some len
          else if ic AND 0x80 = 0 then count_chars (len + 1) utf8
          else if ic AND 0x20 = 0 then count_chars (len + 1) (tl utf8)
          else count_chars (len + 1) (tl (tl utf8)))"
  by pat_completeness auto
termination
  by (relation "measure (length \<circ> snd)") auto

declare count_chars.simps [simp del]

definition CountModifiedUtf8Chars :: "u8 list \<Rightarrow> nat option" where
  "CountModifiedUtf8Chars utf8 = count_chars 0 utf8"

function ConvertModifiedUtf8ToUtf16 :: "u8 list \<Rightarrow> u16 list option" where
  "ConvertModifiedUtf8ToUtf16 utf8_data_in =
     (case utf8_data_in of
        [] \<Rightarrow> None
      | b # _ \<Rightarrow>
          if b = 0 then Some []
          else case GetUtf16FromUtf8 utf8_data_in of
            None \<Rightarrow> None
          | Some (c, p) \<Rightarrow> map_option ((#) c) (ConvertModifiedUtf8ToUtf16 p))"
  by pat_completeness auto
termination
  by (relation "measure length") (auto simp del: GetUtf16FromUtf8.simps dest!: GetUtf16FromUtf8_shorter)

declare ConvertModifiedUtf8ToUtf16.simps [simp del]

definition encode_utf16 :: "u16 \<Rightarrow> u8 list" where
  "encode_utf16 ch =
     (if ch > 0 \<and> ch \<le> 0x7f then [ucast ch]
      else if ch > 0x07ff then
        [ucast (shr ch 12 OR 0xe0), ucast ((shr ch 6 AND 0x3f) OR 0x80), ucast ((ch AND 0x3f) OR 0x80)]
      else [ucast (shr ch 6 OR 0xc0), ucast ((ch AND 0x3f) OR 0x80)])"

primrec ConvertUtf16ToModifiedUtf8 :: "nat \<Rightarrow> u16 list \<Rightarrow> u8 list option" where
  "ConvertUtf16ToModifiedUtf8 0 utf16_in = Some []"
| "ConvertUtf16ToModifiedUtf8 (Suc char_count) utf16_in =
     (case utf16_in of
        [] \<Rightarrow> None
      | ch # utf16_in \<Rightarrow> map_option ((@) (encode_utf16 ch)) (ConvertUtf16ToModifiedUtf8 char_count utf16_in))"

primrec CountUtf8Bytes :: "nat \<Rightarrow> u16 list \<Rightarrow> nat option" where
  "CountUtf8Bytes 0 chars = Some 0"
| "CountUtf8Bytes (Suc char_count) chars =
     (case chars of
        [] \<Rightarrow> None
      | ch # chars \<Rightarrow>
          map_option ((+) (if ch > 0 \<and> ch \<le> 0x7f then 1 else if ch > 0x7ff then 3 else 2))
            (CountUtf8Bytes char_count chars))"

section \<open>Hashes\<close>

primrec utf16_hash :: "nat \<Rightarrow> u16 list \<Rightarrow> u32 \<Rightarrow> u32 option" where
  "utf16_hash 0 chars hash = Some hash"
| "utf16_hash (Suc char_count) chars hash =
     (case chars of [] \<Rightarrow> None | c # chars \<Rightarrow> utf16_hash char_count chars (hash * 31 + ucast c))"

definition ComputeUtf16Hash :: "u16 list \<Rightarrow> nat \<Rightarrow> u32 option" where
  "ComputeUtf16Hash chars char_count = utf16_hash char_count chars 0"

text \<open>The overload on a managed array reads the elements one by one.\<close>

primrec array_hash :: "u16 list \<Rightarrow> nat \<Rightarrow> nat \<Rightarrow> nat \<Rightarrow> u32 \<Rightarrow> u32 option" where
  "array_hash chars offset i 0 hash = Some hash"
| "array_hash chars offset i (Suc n) hash =
     (if offset + i < length chars
      then array_hash chars offset (Suc i) n (hash * 31 + ucast (chars ! (offset + i)))
      else None)"

definition ComputeUtf16Hash_array :: "u16 list \<Rightarrow> nat \<Rightarrow> nat \<Rightarrow> u32 option" where
  "ComputeUtf16Hash_array chars offset char_count = array_hash chars offset 0 char_count 0"

definition char_value :: "bool \<Rightarrow> u8 \<Rightarrow> 'a::len word" where
  "char_value signed_char b = (if signed_char then scast b else ucast b)"

primrec utf8_hash :: "bool \<Rightarrow> u8 list \<Rightarrow> u64 \<Rightarrow> u64 option" where
  "utf8_hash signed_char [] hash = None"
| "utf8_hash signed_char (b # chars) hash =
     (if b = 0 then Some hash else utf8_hash signed_char chars (hash * 31 + char_value signed_char b))"

definition ComputeModifiedUtf8Hash :: "bool \<Rightarrow> u8 list \<Rightarrow> u64 option" where
  "ComputeModifiedUtf8Hash signed_char chars =
     map_option (\<lambda>hash. scast (ucast hash :: u32)) (utf8_hash signed_char chars 0)"

section \<open>Comparison\<close>

text \<open>
  The decoding of a value whose first byte \<open>c\<close> has already been read; the comparison below
  contains it three times.
\<close>

definition multi_byte :: "bool \<Rightarrow> u16 \<Rightarrow> u8 list \<Rightarrow> (u16 \<times> u8 list) option" where
  "multi_byte signed_char c p =
     (if c AND 0x20 = 0 then
        (case p of
           [] \<Rightarrow> None
         | b # p \<Rightarrow> Some (shl (c AND 0x1f) 6 OR (char_value signed_char b AND 0x3f), p))
      else
        (case p of
           b0 # b1 # p \<Rightarrow>
             Some (shl (c AND 0x0f) 12 OR shl (char_value signed_char b0 AND 0x3f) 6 OR
               (char_value signed_char b1 AND 0x3f), p)
         | _ \<Rightarrow> None))"

lemma multi_byte_length: "multi_byte sc c p = Some (v, q) \<Longrightarrow> length q \<le> length p"
  by (auto simp: multi_byte_def split: if_splits list.splits)

function CompareModifiedUtf8ToModifiedUtf8AsUtf16CodePointValues ::
  "bool \<Rightarrow> u8 list \<Rightarrow> u8 list \<Rightarrow> int option" where
  "CompareModifiedUtf8ToModifiedUtf8AsUtf16CodePointValues signed_char utf8_1 utf8_2 =
     (case (utf8_1, utf8_2) of
        (b1 # utf8_1, b2 # utf8_2) \<Rightarrow>
          let c1 = char_value signed_char b1 :: u16; c2 = char_value signed_char b2 :: u16 in
          if c1 = 0 then Some (if c2 = 0 then 0 else - 1)
          else if c2 = 0 then Some 1
          else if c1 AND 0x80 = 0 then
            if c1 = c2 then CompareModifiedUtf8ToModifiedUtf8AsUtf16CodePointValues signed_char utf8_1 utf8_2
            else if c2 AND 0x80 = 0 then Some (uint c1 - uint c2)
            else map_option (\<lambda>(c2, _). uint c1 - uint c2) (multi_byte signed_char c2 utf8_2)
          else
            (case multi_byte signed_char c1 utf8_1 of
               None \<Rightarrow> None
             | Some (c1, utf8_1) \<Rightarrow>
                 (case (if c2 AND 0x80 = 0 then Some (c2, utf8_2) else multi_byte signed_char c2 utf8_2) of
                    None \<Rightarrow> None
                  | Some (c2, utf8_2) \<Rightarrow>
                      if c1 = c2
                      then CompareModifiedUtf8ToModifiedUtf8AsUtf16CodePointValues signed_char utf8_1 utf8_2
                      else Some (uint c1 - uint c2)))
      | _ \<Rightarrow> None)"
  by pat_completeness auto
termination
  by (relation "measure (\<lambda>(_, p, _). length p)") (auto dest: multi_byte_length split: if_splits)

declare CompareModifiedUtf8ToModifiedUtf8AsUtf16CodePointValues.simps [simp del]

text \<open>
  The comparison with a UTF-16 string never advances its second pointer.
\<close>

function CompareModifiedUtf8ToUtf16AsCodePointValues :: "u8 list \<Rightarrow> u16 list \<Rightarrow> int option" where
  "CompareModifiedUtf8ToUtf16AsCodePointValues utf8_1 utf8_2 =
     (case (utf8_1, utf8_2) of
        (b # _, c2 # _) \<Rightarrow>
          if b = 0 then Some (if c2 = 0 then 0 else - 1)
          else if c2 = 0 then Some 1
          else (case GetUtf16FromUtf8 utf8_1 of
                  None \<Rightarrow> None
                | Some (c1, utf8_1) \<Rightarrow>
                    if c1 \<noteq> c2 then Some (if c1 > c2 then 1 else - 1)
                    else CompareModifiedUtf8ToUtf16AsCodePointValues utf8_1 utf8_2)
      | _ \<Rightarrow> None)"
  by pat_completeness auto
termination
  by (relation "measure (length \<circ> fst)")
    (auto simp del: GetUtf16FromUtf8.simps dest!: GetUtf16FromUtf8_shorter)

declare CompareModifiedUtf8ToUtf16AsCodePointValues.simps [simp del]

section \<open>Validation\<close>

datatype utf_error = Start u8 | Continuation u8

function CheckUtfBytes :: "u8 list \<Rightarrow> utf_error option option" where
  "CheckUtfBytes bytes =
     (case bytes of
        [] \<Rightarrow> None
      | utf8 # bytes \<Rightarrow>
          if utf8 = 0 then Some None
          else if shr utf8 4 \<le> 7 then CheckUtfBytes bytes
          else if shr utf8 4 \<le> 0xb \<or> shr utf8 4 = 0xf then Some (Some (Start utf8))
          else if shr utf8 4 = 0xe then
            (case bytes of
               [] \<Rightarrow> None
             | utf8 # bytes \<Rightarrow>
                 if utf8 AND 0xc0 \<noteq> 0x80 then Some (Some (Continuation utf8))
                 else (case bytes of
                         [] \<Rightarrow> None
                       | utf8 # bytes \<Rightarrow>
                           if utf8 AND 0xc0 \<noteq> 0x80 then Some (Some (Continuation utf8))
                           else CheckUtfBytes bytes))
          else
            (case bytes of
               [] \<Rightarrow> None
             | utf8 # bytes \<Rightarrow>
                 if utf8 AND 0xc0 \<noteq> 0x80 then Some (Some (Continuation utf8))
                 else CheckUtfBytes bytes))"
  by pat_completeness auto
termination
  by (relation "measure length") auto

declare CheckUtfBytes.simps [simp del]

datatype string_error =
    BeyondEndOfFile
  | ShorterThanIndicated u32
  | IllegalStartByte u8
  | IllegalContinuationByte u8
  | IllegalRepresentation u16
  | LongerThanIndicated u32

text \<open>
  One round of the loop of \<^verbatim>\<open>CheckIntraStringDataItem\<close>. Only the first byte of a character is
  compared with the end of the file; \<^const>\<open>None\<close> is a read behind it.
\<close>

definition check_string_char :: "u32 \<Rightarrow> u8 list \<Rightarrow> (string_error + u8 list) option" where
  "check_string_char sz ptr =
     (case ptr of
        [] \<Rightarrow> Some (Inl BeyondEndOfFile)
      | byte # ptr \<Rightarrow>
          if shr byte 4 = 0 then Some (if byte = 0 then Inl (ShorterThanIndicated sz) else Inr ptr)
          else if shr byte 4 \<le> 7 then Some (Inr ptr)
          else if shr byte 4 \<le> 0xb \<or> shr byte 4 = 0xf then Some (Inl (IllegalStartByte byte))
          else if shr byte 4 \<le> 0xd then
            (case ptr of
               [] \<Rightarrow> None
             | byte2 # ptr \<Rightarrow>
                 if byte2 AND 0xc0 \<noteq> 0x80 then Some (Inl (IllegalContinuationByte byte2))
                 else let v = shl (ucast byte AND 0x1f) 6 OR (ucast byte2 AND 0x3f) :: u16 in
                   Some (if v \<noteq> 0 \<and> v < 0x80 then Inl (IllegalRepresentation v) else Inr ptr))
          else
            (case ptr of
               [] \<Rightarrow> None
             | byte2 # ptr \<Rightarrow>
                 if byte2 AND 0xc0 \<noteq> 0x80 then Some (Inl (IllegalContinuationByte byte2))
                 else (case ptr of
                    [] \<Rightarrow> None
                  | byte3 # ptr \<Rightarrow>
                      if byte3 AND 0xc0 \<noteq> 0x80 then Some (Inl (IllegalContinuationByte byte3))
                      else let v = shl (ucast byte AND 0x0f) 12 OR shl (ucast byte2 AND 0x3f) 6 OR
                                   (ucast byte3 AND 0x3f) :: u16 in
                        Some (if v < 0x800 then Inl (IllegalRepresentation v) else Inr ptr))))"

primrec check_string_chars :: "u32 \<Rightarrow> nat \<Rightarrow> u8 list \<Rightarrow> (string_error + u8 list) option" where
  "check_string_chars sz 0 ptr = Some (Inr ptr)"
| "check_string_chars sz (Suc n) ptr =
     (case check_string_char sz ptr of
        Some (Inr ptr) \<Rightarrow> check_string_chars sz n ptr
      | r \<Rightarrow> r)"

definition CheckIntraStringDataItem :: "u8 list \<Rightarrow> (string_error + u8 list) option" where
  "CheckIntraStringDataItem ptr =
     (case DecodeUnsignedLeb128 ptr of
        None \<Rightarrow> None
      | Some (sz, ptr) \<Rightarrow>
          (case check_string_chars sz (unat sz) ptr of
             Some (Inr ptr) \<Rightarrow>
               (case ptr of
                  [] \<Rightarrow> None
                | b # ptr \<Rightarrow> Some (if b \<noteq> 0 then Inl (LongerThanIndicated sz) else Inr ptr))
           | r \<Rightarrow> r))"

section \<open>Bytes and code units as bits\<close>

lemma nibble_enumerate:
  fixes b :: u8
  assumes "\<forall>n\<in>set [0..<16]. P (of_nat n)"
  shows "P (shr b 4)"
proof -
  have "unat (shr b 4) < 16"
    using unsigned_less [of b, where ?'a = nat] by (simp add: unat_shr)
  then have "P (of_nat (unat (shr b 4)))"
    using assms by (metis atLeastLessThan_iff less_eq_nat.simps(1) set_upt)
  then show ?thesis by simp
qed

lemma nibble_bits:
  "shr (b :: u8) 4 = 0 \<longleftrightarrow> \<not> bit (shr b 4) 3 \<and> \<not> bit (shr b 4) 2 \<and> \<not> bit (shr b 4) 1 \<and> \<not> bit (shr b 4) 0"
  "shr b 4 \<le> 7 \<longleftrightarrow> \<not> bit (shr b 4) 3"
  "shr b 4 \<le> 0xb \<longleftrightarrow> bit (shr b 4) 3 \<longrightarrow> \<not> bit (shr b 4) 2"
  "shr b 4 \<le> 0xd \<longleftrightarrow> bit (shr b 4) 3 \<longrightarrow> bit (shr b 4) 2 \<longrightarrow> \<not> bit (shr b 4) 1"
  "shr b 4 = 0xe \<longleftrightarrow> bit (shr b 4) 3 \<and> bit (shr b 4) 2 \<and> bit (shr b 4) 1 \<and> \<not> bit (shr b 4) 0"
  "shr b 4 = 0xf \<longleftrightarrow> bit (shr b 4) 3 \<and> bit (shr b 4) 2 \<and> bit (shr b 4) 1 \<and> bit (shr b 4) 0"
  by (rule nibble_enumerate [where b = b], code_simp)+

lemma high_nibble:
  "shr (b :: u8) 4 = 0 \<longleftrightarrow> \<not> bit b 7 \<and> \<not> bit b 6 \<and> \<not> bit b 5 \<and> \<not> bit b 4"
  "shr b 4 \<le> 7 \<longleftrightarrow> \<not> bit b 7"
  "shr b 4 \<le> 0xb \<longleftrightarrow> bit b 7 \<longrightarrow> \<not> bit b 6"
  "shr b 4 \<le> 0xd \<longleftrightarrow> bit b 7 \<longrightarrow> bit b 6 \<longrightarrow> \<not> bit b 5"
  "shr b 4 = 0xe \<longleftrightarrow> bit b 7 \<and> bit b 6 \<and> bit b 5 \<and> \<not> bit b 4"
  "shr b 4 = 0xf \<longleftrightarrow> bit b 7 \<and> bit b 6 \<and> bit b 5 \<and> bit b 4"
  using nibble_bits [of b] by (simp_all only: bit_drop_bit_eq comp_def) simp_all

lemma bit_c0: "bit (0xc0 :: int) i \<longleftrightarrow> i = 6 \<or> i = 7"
proof -
  have "bit (push_bit 6 (0x3 :: int)) i \<longleftrightarrow> i = 6 \<or> i = 7"
    by (simp only: bit_push_bit_iff bit_mask_2) auto
  then show ?thesis by (simp add: push_bit_eq_mult)
qed

lemma bit_e0: "bit (0xe0 :: int) i \<longleftrightarrow> i = 5 \<or> i = 6 \<or> i = 7"
proof -
  have "bit (push_bit 5 (0x7 :: int)) i \<longleftrightarrow> i = 5 \<or> i = 6 \<or> i = 7"
    by (simp only: bit_push_bit_iff bit_mask_3) auto
  then show ?thesis by (simp add: push_bit_eq_mult)
qed

lemmas utf_bits = bit_c0 bit_e0 word_bits

lemma and_masks:
  "(x :: 'a::len word) AND 0xf = take_bit 4 x"
  "x AND 0x1f = take_bit 5 x"
  "x AND 0x3f = take_bit 6 x"
  by (simp_all add: take_bit_eq_mask mask_eq_exp_minus_1)

lemma byte_masks:
  "(b :: u8) AND 0x80 = 0 \<longleftrightarrow> \<not> bit b 7"
  "b AND 0x20 = 0 \<longleftrightarrow> \<not> bit b 5"
  "b AND 0xc0 = 0x80 \<longleftrightarrow> bit b 7 \<and> \<not> bit b 6"
proof -
  show "b AND 0x80 = 0 \<longleftrightarrow> \<not> bit b 7" using and_exp_eq_0_iff_not_bit [of b 7] by simp
  show "b AND 0x20 = 0 \<longleftrightarrow> \<not> bit b 5" using and_exp_eq_0_iff_not_bit [of b 5] by simp
  show "b AND 0xc0 = 0x80 \<longleftrightarrow> bit b 7 \<and> \<not> bit b 6"
  proof
    assume *: "b AND 0xc0 = 0x80"
    have "bit (b AND 0xc0) 7" "\<not> bit (b AND 0xc0) 6" unfolding * by (simp_all add: bit_simps utf_bits)
    then show "bit b 7 \<and> \<not> bit b 6" by (simp add: bit_simps utf_bits)
  next
    assume "bit b 7 \<and> \<not> bit b 6"
    then show "b AND 0xc0 = 0x80" by (intro bit_word_eqI) (auto simp: bit_simps utf_bits)
  qed
qed

lemma u16_bounds:
  "(c :: u16) \<le> 0x7f \<longleftrightarrow> (\<forall>i. bit c i \<longrightarrow> i < 7)"
  "c \<le> 0x7ff \<longleftrightarrow> (\<forall>i. bit c i \<longrightarrow> i < 11)"
proof -
  have *: "unat c < 2 ^ n \<longleftrightarrow> (\<forall>i. bit c i \<longrightarrow> i < n)" for n
    unfolding less_exp_iff_bits by (metis not_le)
  have "c \<le> 0x7f \<longleftrightarrow> unat c < 2 ^ 7" by (auto simp: word_le_nat_alt)
  then show "c \<le> 0x7f \<longleftrightarrow> (\<forall>i. bit c i \<longrightarrow> i < 7)" using * by blast
  have "c \<le> 0x7ff \<longleftrightarrow> unat c < 2 ^ 11" by (auto simp: word_le_nat_alt)
  then show "c \<le> 0x7ff \<longleftrightarrow> (\<forall>i. bit c i \<longrightarrow> i < 11)" using * by blast
qed

text \<open>The three shapes of an encoded code unit.\<close>

lemma encode_utf16_cases:
  obtains (one) "0 < c" "\<forall>i. bit c i \<longrightarrow> i < 7" "encode_utf16 c = [ucast c]"
  | (two) "c = 0 \<or> (\<exists>i\<ge>7. bit c i)" "\<forall>i. bit c i \<longrightarrow> i < 11"
      "encode_utf16 c = [ucast (shr c 6 OR 0xc0), ucast ((c AND 0x3f) OR 0x80)]"
  | (three) "\<exists>i\<ge>11. bit c i"
      "encode_utf16 c =
        [ucast (shr c 12 OR 0xe0), ucast ((shr c 6 AND 0x3f) OR 0x80), ucast ((c AND 0x3f) OR 0x80)]"
proof -
  consider "0 < c \<and> c \<le> 0x7f" | "\<not> (0 < c \<and> c \<le> 0x7f)" "c \<le> 0x7ff" | "\<not> (0 < c \<and> c \<le> 0x7f)" "\<not> c \<le> 0x7ff"
    by blast
  then show thesis
  proof cases
    case 1
    then show ?thesis using one u16_bounds(1) [of c] by (simp add: encode_utf16_def)
  next
    case 2
    then have "encode_utf16 c = [ucast (shr c 6 OR 0xc0), ucast ((c AND 0x3f) OR 0x80)]"
      by (auto simp: encode_utf16_def)
    moreover have "c = 0 \<or> (\<exists>i\<ge>7. bit c i)" using 2(1) u16_bounds(1) [of c] word_neq_0_conv [of c] not_less by blast
    ultimately show ?thesis using two 2(2) u16_bounds(2) [of c] by blast
  next
    case 3
    then have "\<exists>i\<ge>11. bit c i" using u16_bounds(2) [of c] not_less by blast
    moreover have "encode_utf16 c =
        [ucast (shr c 12 OR 0xe0), ucast ((shr c 6 AND 0x3f) OR 0x80), ucast ((c AND 0x3f) OR 0x80)]"
      using 3 unfolding encode_utf16_def by (auto simp: not_le)
    ultimately show ?thesis by (rule three)
  qed
qed

lemma GetUtf16FromUtf8_encode: "GetUtf16FromUtf8 (encode_utf16 c @ r) = Some (c, r)"
proof (cases c rule: encode_utf16_cases)
  case one
  from one(2) have "ucast (ucast c :: u8) = c" by (intro bit_word_eqI) (fastforce simp: bit_simps)
  moreover from one(2) have "\<not> bit c 7" by blast
  ultimately show ?thesis using one(3) by (simp add: byte_masks bit_simps)
next
  case two
  from two(2) have "shl (ucast (ucast (shr c 6 OR 0xc0) :: u8) AND 0x1f) 6 OR
      (ucast (ucast ((c AND 0x3f) OR 0x80) :: u8) AND 0x3f) = c"
    by (intro bit_word_eqI) (auto simp: and_masks bit_simps utf_bits)
  moreover from two(2) have "\<not> bit c 11" by blast
  ultimately show ?thesis using two(3) by (simp add: byte_masks bit_simps utf_bits)
next
  case three
  have "shl (ucast (ucast (shr c 12 OR 0xe0) :: u8) AND 0x0f) 12 OR
      shl (ucast (ucast ((shr c 6 AND 0x3f) OR 0x80) :: u8) AND 0x3f) 6 OR
      (ucast (ucast ((c AND 0x3f) OR 0x80) :: u8) AND 0x3f) = c" (is "?l = _")
  proof (rule bit_word_eqI)
    fix n assume "n < LENGTH(16)"
    then show "bit ?l n \<longleftrightarrow> bit c n"
      by (cases "n < 12") (auto simp: and_masks bit_simps utf_bits)
  qed
  with three(2) show ?thesis by (simp add: byte_masks bit_simps utf_bits)
qed

text \<open>What the loops see of an encoded code unit: lead byte, continuation bytes and no zero byte.\<close>

lemma encode_utf16_shape:
  obtains (one) b where "encode_utf16 c = [b]" "\<not> bit b 7" "b \<noteq> 0"
  | (two) b b' where "encode_utf16 c = [b, b']" "bit b 7" "bit b 6" "\<not> bit b 5" "bit b' 7" "\<not> bit b' 6"
  | (three) b b' b'' where "encode_utf16 c = [b, b', b'']"
      "bit b 7" "bit b 6" "bit b 5" "\<not> bit b 4" "bit b' 7" "\<not> bit b' 6" "bit b'' 7" "\<not> bit b'' 6"
proof (cases c rule: encode_utf16_cases)
  case one
  from one(1) obtain i where "i < 16" "bit c i" using word_neq_0_bit [of c] by auto
  moreover from this one(2) have "i < 7" by blast
  ultimately have "bit (ucast c :: u8) i" by (simp add: bit_simps)
  then have "(ucast c :: u8) \<noteq> 0" by (metis bit_0_eq bot_apply bot_bool_def)
  moreover from one(2) have "\<not> bit (ucast c :: u8) 7" by (auto simp: bit_simps)
  ultimately show ?thesis using that(1) one(3) by blast
next
  case two
  from two(2) have "\<not> bit c 11" by blast
  then show ?thesis using that(2) [OF two(3)] by (simp add: bit_simps utf_bits)
next
  case three
  show ?thesis using that(3) [OF three(2)] bit_imp_le_length [of c 16] by (auto simp: bit_simps utf_bits)
qed

lemma bit_not_zero: "bit b i \<Longrightarrow> b \<noteq> 0"
  by (metis bit_0_eq bot_apply bot_bool_def)

lemma encode_utf16_no_zero: "0 \<notin> set (encode_utf16 c)"
  by (cases c rule: encode_utf16_shape) (auto dest: bit_not_zero)

lemma encode_utf16_Cons: obtains b p where "encode_utf16 c = b # p" "b \<noteq> 0"
  by (cases c rule: encode_utf16_shape) (auto dest: bit_not_zero)

lemma length_encode_utf16:
  "length (encode_utf16 c) = (if c > 0 \<and> c \<le> 0x7f then 1 else if c > 0x7ff then 3 else 2)"
  by (simp add: encode_utf16_def)

lemma count_chars_encode: "count_chars n (encode_utf16 c @ r) = count_chars (n + 1) r"
  by (cases c rule: encode_utf16_shape) (auto simp: count_chars.simps [of n "_ # _"] byte_masks dest: bit_not_zero)

lemma Convert_encode:
  "ConvertModifiedUtf8ToUtf16 (encode_utf16 c @ r) = map_option ((#) c) (ConvertModifiedUtf8ToUtf16 r)"
  using GetUtf16FromUtf8_encode [of c r]
  by (cases c rule: encode_utf16_Cons) (simp add: ConvertModifiedUtf8ToUtf16.simps [of "_ # _"])

text \<open>Conversely, well formed bytes are the encoding of the value they decode to.\<close>

lemma u8_eqI:
  fixes a b :: u8
  assumes "bit a 0 \<longleftrightarrow> bit b 0" "bit a 1 \<longleftrightarrow> bit b 1" "bit a 2 \<longleftrightarrow> bit b 2" "bit a 3 \<longleftrightarrow> bit b 3"
    "bit a 4 \<longleftrightarrow> bit b 4" "bit a 5 \<longleftrightarrow> bit b 5" "bit a 6 \<longleftrightarrow> bit b 6" "bit a 7 \<longleftrightarrow> bit b 7"
  shows "a = b"
proof (rule bit_word_eqI)
  fix n assume "n < LENGTH(8)"
  then consider "n = 0" | "n = 1" | "n = 2" | "n = 3" | "n = 4" | "n = 5" | "n = 6" | "n = 7"
    by simp linarith
  then show "bit a n \<longleftrightarrow> bit b n" using assms by cases simp_all
qed

lemma low_byte_bits: "\<not> bit b 7 \<Longrightarrow> bit (b :: u8) i \<Longrightarrow> i < 7"
  using bit_imp_le_length [of b i] by (cases "i = 7") auto

lemma encode_one:
  assumes "\<not> bit b 7" "b \<noteq> (0 :: u8)"
  shows "encode_utf16 (ucast b) = [b]"
proof -
  have "(ucast b :: u16) \<le> 0x7f"
    unfolding u16_bounds using low_byte_bits [OF assms(1)] by (auto simp: bit_simps)
  moreover obtain i where "bit b i" using assms(2) word_neq_0_bit [of b] by blast
  then have "bit (ucast b :: u16) i" using bit_imp_le_length [of b i] by (simp add: bit_simps)
  then have "(ucast b :: u16) > 0" using bit_not_zero word_neq_0_conv by blast
  moreover have "ucast (ucast b :: u16) = b" by (intro bit_word_eqI) (simp add: bit_simps)
  ultimately show ?thesis by (simp add: encode_utf16_def)
qed

lemma encode_two:
  fixes b b' :: u8
  defines "v \<equiv> shl (ucast b AND 0x1f) 6 OR (ucast b' AND 0x3f) :: u16"
  assumes "bit b 7" "bit b 6" "\<not> bit b 5" "bit b' 7" "\<not> bit b' 6" and v: "\<not> (v \<noteq> 0 \<and> v < 0x80)"
  shows "encode_utf16 v = [b, b']"
proof -
  have "\<not> v > 0x7ff"
    unfolding not_less u16_bounds by (auto simp: v_def and_masks bit_simps)
  moreover have "\<not> (v > 0 \<and> v \<le> 0x7f)" using v by (auto simp: word_le_nat_alt word_less_nat_alt)
  moreover have "ucast (shr v 6 OR 0xc0) = b"
    using assms(2-4) by (intro u8_eqI) (simp_all add: v_def and_masks bit_simps utf_bits)
  moreover have "ucast ((v AND 0x3f) OR 0x80) = b'"
    using assms(5,6) by (intro u8_eqI) (simp_all add: v_def and_masks bit_simps utf_bits)
  ultimately show ?thesis by (simp add: encode_utf16_def)
qed

lemma encode_three:
  fixes b b' b'' :: u8
  defines "v \<equiv> shl (ucast b AND 0x0f) 12 OR shl (ucast b' AND 0x3f) 6 OR (ucast b'' AND 0x3f) :: u16"
  assumes "bit b 7" "bit b 6" "bit b 5" "\<not> bit b 4" "bit b' 7" "\<not> bit b' 6" "bit b'' 7" "\<not> bit b'' 6"
    and v: "\<not> v < 0x800"
  shows "encode_utf16 v = [b, b', b'']"
proof -
  have "v > 0x7ff" using v by (auto simp: word_le_nat_alt word_less_nat_alt)
  moreover from this have "\<not> v \<le> 0x7f" by (auto simp: word_le_nat_alt word_less_nat_alt)
  moreover have "ucast (shr v 12 OR 0xe0) = b"
    using assms(2-5) by (intro u8_eqI) (simp_all add: v_def and_masks bit_simps utf_bits)
  moreover have "ucast ((shr v 6 AND 0x3f) OR 0x80) = b'"
    using assms(6,7) by (intro u8_eqI) (simp_all add: v_def and_masks bit_simps utf_bits)
  moreover have "ucast ((v AND 0x3f) OR 0x80) = b''"
    using assms(8,9) by (intro u8_eqI) (simp_all add: v_def and_masks bit_simps utf_bits)
  ultimately show ?thesis by (simp add: encode_utf16_def)
qed

section \<open>The validators\<close>

lemma check_string_char_encode: "check_string_char sz (encode_utf16 c @ r) = Some (Inr r)"
proof (cases c rule: encode_utf16_shape)
  case (one b)
  then show ?thesis by (auto simp: check_string_char_def high_nibble)
next
  case (two b b')
  then have "shl (ucast b AND 0x1f) 6 OR (ucast b' AND 0x3f) = c"
    using GetUtf16FromUtf8_encode [of c r] by (simp add: byte_masks)
  moreover have "\<not> (c \<noteq> 0 \<and> c < 0x80)"
    using length_encode_utf16 [of c] two(1) by (auto simp: word_le_nat_alt word_less_nat_alt unat_eq_zero split: if_splits)
  ultimately show ?thesis using two by (simp add: check_string_char_def high_nibble byte_masks Let_def)
next
  case (three b b' b'')
  then have "shl (ucast b AND 0x0f) 12 OR shl (ucast b' AND 0x3f) 6 OR (ucast b'' AND 0x3f) = c"
    using GetUtf16FromUtf8_encode [of c r] by (simp add: byte_masks)
  moreover have "\<not> c < 0x800"
    using length_encode_utf16 [of c] three(1) by (auto simp: word_le_nat_alt word_less_nat_alt split: if_splits)
  ultimately show ?thesis using three by (simp add: check_string_char_def high_nibble byte_masks Let_def)
qed

lemma check_string_char_decode:
  assumes "check_string_char sz p = Some (Inr r)"
  obtains c where "p = encode_utf16 c @ r"
proof -
  obtain b q where p: "p = b # q" using assms by (cases p) (auto simp: check_string_char_def)
  consider "\<not> bit b 7" | "bit b 7" "bit b 6" "\<not> bit b 5" | "bit b 7" "bit b 6" "bit b 5" "\<not> bit b 4"
    using assms by (auto simp: p check_string_char_def high_nibble split: if_splits)
  then show thesis
  proof cases
    case 1
    then have "q = r" "b \<noteq> 0" using assms by (auto simp: p check_string_char_def high_nibble split: if_splits)
    then show ?thesis using that encode_one [OF 1] by (metis append.simps p)
  next
    case 2
    then obtain b' where q: "q = b' # r" and "bit b' 7" "\<not> bit b' 6"
      and "\<not> (shl (ucast b AND 0x1f) 6 OR (ucast b' AND 0x3f) \<noteq> (0 :: u16) \<and>
          shl (ucast b AND 0x1f) 6 OR (ucast b' AND 0x3f) < (0x80 :: u16))"
      using assms by (auto simp: p check_string_char_def high_nibble byte_masks Let_def split: if_splits list.splits)
    then show ?thesis using that encode_two [OF 2] by (metis append.simps p q)
  next
    case 3
    then obtain b' b'' where q: "q = b' # b'' # r" and "bit b' 7" "\<not> bit b' 6" "bit b'' 7" "\<not> bit b'' 6"
      and "\<not> shl (ucast b AND 0x0f) 12 OR shl (ucast b' AND 0x3f) 6 OR (ucast b'' AND 0x3f) < (0x800 :: u16)"
      using assms by (auto simp: p check_string_char_def high_nibble byte_masks Let_def split: if_splits list.splits)
    then show ?thesis using that encode_three [OF 3] by (metis append.simps p q)
  qed
qed

lemma check_string_chars_iff:
  "check_string_chars sz n p = Some (Inr r) \<longleftrightarrow>
     (\<exists>s. length s = n \<and> p = concat (map encode_utf16 s) @ r)"
proof (induction n arbitrary: p)
  case (Suc n)
  show ?case
  proof
    assume "check_string_chars sz (Suc n) p = Some (Inr r)"
    then obtain q where "check_string_char sz p = Some (Inr q)" "check_string_chars sz n q = Some (Inr r)"
      by (auto split: option.splits sum.splits)
    then obtain c s where "p = encode_utf16 c @ q" "length s = n" "q = concat (map encode_utf16 s) @ r"
      using Suc by (metis check_string_char_decode)
    then have "length (c # s) = Suc n \<and> p = concat (map encode_utf16 (c # s)) @ r" by simp
    then show "\<exists>s. length s = Suc n \<and> p = concat (map encode_utf16 s) @ r" by blast
  next
    assume "\<exists>s. length s = Suc n \<and> p = concat (map encode_utf16 s) @ r"
    then obtain c s where "length s = n" "p = encode_utf16 c @ concat (map encode_utf16 s) @ r"
      by (auto simp: length_Suc_conv)
    then show "check_string_chars sz (Suc n) p = Some (Inr r)"
      using Suc.IH [of "concat (map encode_utf16 s) @ r"] by (auto simp: check_string_char_encode)
  qed
qed auto

section \<open>Strings\<close>

interpretation mutf8: self_delimiting encode_utf16 GetUtf16FromUtf8 "\<lambda>_. True"
  by unfold_locales (rule GetUtf16FromUtf8_encode)

abbreviation modified_utf8 :: "u16 list \<Rightarrow> u8 list" where
  "modified_utf8 s \<equiv> concat (map encode_utf16 s)"

lemma ConvertUtf16ToModifiedUtf8_take:
  "n \<le> length s \<Longrightarrow> ConvertUtf16ToModifiedUtf8 n s = Some (modified_utf8 (take n s))"
  by (induction n arbitrary: s) (auto simp: Suc_le_length_iff)

lemma CountUtf8Bytes_take: "n \<le> length s \<Longrightarrow> CountUtf8Bytes n s = Some (length (modified_utf8 (take n s)))"
  by (induction n arbitrary: s) (auto simp: Suc_le_length_iff length_encode_utf16)

lemma Convert_terminated: "ConvertModifiedUtf8ToUtf16 (modified_utf8 s @ 0 # r) = Some s"
  by (induction s) (simp_all add: Convert_encode ConvertModifiedUtf8ToUtf16.simps [of "0 # r"])

lemma count_chars_terminated: "count_chars n (modified_utf8 s @ 0 # r) = Some (n + length s)"
  by (induction s arbitrary: n) (simp_all add: count_chars_encode count_chars.simps [of _ "0 # r"])

lemma modified_utf8_no_zero: "0 \<notin> set (modified_utf8 s)"
  by (induction s) (simp_all add: encode_utf16_no_zero)

lemma modified_utf8_terminated_inject:
  assumes "modified_utf8 s @ 0 # r = modified_utf8 t @ 0 # q"
  shows "s = t \<and> r = q"
proof -
  have "s = t" using Convert_terminated [of s r] Convert_terminated [of t q] assms by simp
  with assms show ?thesis by simp
qed

section \<open>The comparison\<close>

lemma bit_char_value: "i < 8 \<Longrightarrow> i < LENGTH('a) \<Longrightarrow> bit (char_value sc b :: 'a::len word) i \<longleftrightarrow> bit b i"
  by (auto simp: char_value_def bit_simps)

lemma char_value_masks:
  "(char_value sc b :: u16) AND 0x80 = 0 \<longleftrightarrow> \<not> bit b 7"
  "(char_value sc b :: u16) AND 0x20 = 0 \<longleftrightarrow> \<not> bit b 5"
  "(char_value sc b :: u16) AND 0x0f = ucast b AND 0x0f"
  "(char_value sc b :: u16) AND 0x1f = ucast b AND 0x1f"
  "(char_value sc b :: u16) AND 0x3f = ucast b AND 0x3f"
  using and_exp_eq_0_iff_not_bit [of "char_value sc b :: u16" 7]
    and_exp_eq_0_iff_not_bit [of "char_value sc b :: u16" 5]
  by (simp_all add: bit_char_value and_masks)
    (auto intro!: bit_word_eqI simp: bit_simps bit_char_value)

lemma char_value_inject: "char_value sc a = (char_value sc b :: u16) \<longleftrightarrow> a = b"
proof
  assume *: "char_value sc a = (char_value sc b :: u16)"
  show "a = b"
  proof (rule bit_word_eqI)
    fix i assume "i < LENGTH(8)"
    then show "bit a i \<longleftrightarrow> bit b i"
      using bit_char_value [of i sc a, where ?'a = 16] bit_char_value [of i sc b, where ?'a = 16] * by simp
  qed
qed simp

lemma char_value_0: "char_value sc b = (0 :: u16) \<longleftrightarrow> b = 0"
proof -
  have "char_value sc 0 = (0 :: u16)" by (simp add: char_value_def)
  then show ?thesis using char_value_inject [of sc b 0] by simp
qed

lemma char_value_low:
  assumes "\<not> bit b 7"
  shows "char_value sc b = (ucast b :: u16)"
proof (rule bit_word_eqI)
  fix i assume "i < LENGTH(16)"
  then show "bit (char_value sc b :: u16) i \<longleftrightarrow> bit (ucast b :: u16) i"
    using assms bit_imp_le_length [of b i]
    by (cases "i < 8") (auto simp: char_value_def bit_simps)
qed

lemma multi_byte_decode:
  "bit b 7 \<Longrightarrow> multi_byte sc (char_value sc b) p = GetUtf16FromUtf8 (b # p)"
  by (auto simp: multi_byte_def char_value_masks byte_masks split: list.splits)

lemma Compare_chars:
  assumes p: "GetUtf16FromUtf8 (b # p) = Some (c, p')" and q: "GetUtf16FromUtf8 (d # q) = Some (e, q')"
    and "b \<noteq> 0" "d \<noteq> 0" and one: "\<not> bit b 7 \<Longrightarrow> b = d \<longleftrightarrow> c = e"
  shows "CompareModifiedUtf8ToModifiedUtf8AsUtf16CodePointValues sc (b # p) (d # q) =
    (if c = e then CompareModifiedUtf8ToModifiedUtf8AsUtf16CodePointValues sc p' q'
     else Some (uint c - uint e))"
proof -
  have d: "(if bit d 7 then multi_byte sc (char_value sc d) q else Some (char_value sc d, q)) = Some (e, q')"
    using q by (auto simp: multi_byte_decode char_value_low byte_masks)
  show ?thesis
  proof (cases "bit b 7")
    case True
    then show ?thesis
      using p d assms(3,4) unfolding CompareModifiedUtf8ToModifiedUtf8AsUtf16CodePointValues.simps [of sc "b # p" "d # q"]
      by (auto simp: char_value_masks char_value_0 multi_byte_decode Let_def split: if_splits)
  next
    case False
    then have "c = char_value sc b" "p' = p" using p by (auto simp: byte_masks char_value_low)
    moreover have "q' = q" if "b = d" using q False that by (auto simp: byte_masks)
    ultimately show ?thesis
      using False d one assms(3,4)
      unfolding CompareModifiedUtf8ToModifiedUtf8AsUtf16CodePointValues.simps [of sc "b # p" "d # q"]
      by (cases "b = d"; cases "bit d 7")
        (auto simp: char_value_masks char_value_0 char_value_inject Let_def)
  qed
qed

lemma Compare_encode:
  "CompareModifiedUtf8ToModifiedUtf8AsUtf16CodePointValues sc (encode_utf16 x @ p) (encode_utf16 y @ q) =
    (if x = y then CompareModifiedUtf8ToModifiedUtf8AsUtf16CodePointValues sc p q
     else Some (uint x - uint y))"
proof -
  obtain b p' where x: "encode_utf16 x = b # p'" "b \<noteq> 0" by (rule encode_utf16_Cons)
  obtain d q' where y: "encode_utf16 y = d # q'" "d \<noteq> 0" by (rule encode_utf16_Cons)
  have "b = d \<longleftrightarrow> x = y" if "\<not> bit b 7"
  proof
    assume "b = d"
    then have "encode_utf16 x = encode_utf16 y"
      using x y that by (cases x rule: encode_utf16_shape; cases y rule: encode_utf16_shape) auto
    then show "x = y" using mutf8.enc_prefix_free [of x "[]" y "[]"] by simp
  qed (use x y in simp)
  then show ?thesis
    using Compare_chars [of b "p' @ p" x p d "q' @ q" y q sc] x y
      GetUtf16FromUtf8_encode [of x p] GetUtf16FromUtf8_encode [of y q]
    by (simp del: GetUtf16FromUtf8.simps)
qed

lemma Compare_strings:
  "\<exists>v. CompareModifiedUtf8ToModifiedUtf8AsUtf16CodePointValues sc
       (modified_utf8 s @ 0 # p) (modified_utf8 t @ 0 # q) = Some v \<and>
     (v = 0 \<longleftrightarrow> s = t) \<and> (v < 0 \<longleftrightarrow> ord_class.lexordp s t)"
proof (induction s t rule: list_induct2')
  case 1
  show ?case
    by (simp add: CompareModifiedUtf8ToModifiedUtf8AsUtf16CodePointValues.simps [of sc "0 # _"] char_value_0)
next
  case (2 x s)
  obtain b r where "encode_utf16 x = b # r" "b \<noteq> 0" by (rule encode_utf16_Cons)
  then show ?case
    by (simp add: CompareModifiedUtf8ToModifiedUtf8AsUtf16CodePointValues.simps [of sc "b # _"] char_value_0)
next
  case (3 y t)
  obtain b r where "encode_utf16 y = b # r" "b \<noteq> 0" by (rule encode_utf16_Cons)
  then show ?case
    by (simp add: CompareModifiedUtf8ToModifiedUtf8AsUtf16CodePointValues.simps [of sc "0 # _"] char_value_0)
next
  case (4 x s y t)
  show ?case
  proof (cases "x = y")
    case False
    then have "uint x \<noteq> uint y" by (metis unsigned_word_eqI)
    moreover have "ord_class.lexordp (x # s) (y # t) \<longleftrightarrow> uint x < uint y"
      using False calculation by (auto simp: word_less_def)
    ultimately show ?thesis using False by (auto simp: Compare_encode)
  qed (use 4 in \<open>simp add: Compare_encode\<close>)
qed

section \<open>Validated strings from native code\<close>

lemma CheckUtfBytes_encode: "CheckUtfBytes (encode_utf16 c @ r) = CheckUtfBytes r"
  by (cases c rule: encode_utf16_shape)
    (auto simp: CheckUtfBytes.simps [of "_ # _"] high_nibble byte_masks dest: bit_not_zero)

lemma CheckUtfBytes_terminated: "CheckUtfBytes (modified_utf8 s @ 0 # r) = Some None"
  by (induction s) (simp_all add: CheckUtfBytes_encode CheckUtfBytes.simps [of "0 # r"])


text \<open>A character that passes is read by every decoder within its own bytes.\<close>

lemma CheckUtfBytes_char:
  assumes "CheckUtfBytes (b # p) = Some None" "b \<noteq> 0"
  obtains u q c where "b # p = u @ q" "u \<noteq> []" "0 \<notin> set u" "CheckUtfBytes q = Some None"
    "\<And>r. GetUtf16FromUtf8 (u @ r) = Some (c, r)" "\<And>n r. count_chars n (u @ r) = count_chars (n + 1) r"
proof -
  note unfold = CheckUtfBytes.simps [of "_ # _"] count_chars.simps [of _ "_ # _"] high_nibble byte_masks
  consider "\<not> bit b 7" | "bit b 7" "bit b 6" "\<not> bit b 5" | "bit b 7" "bit b 6" "bit b 5" "\<not> bit b 4"
    using assms by (auto simp: unfold split: if_splits)
  then show thesis
  proof cases
    case 1
    with assms have "CheckUtfBytes p = Some None" by (simp add: unfold)
    with 1 assms(2) show ?thesis by (intro that [of "[b]" p]) (auto simp: unfold)
  next
    case 2
    with assms obtain b' q where p: "p = b' # q" "bit b' 7" and q: "CheckUtfBytes q = Some None"
      by (auto simp: unfold split: list.splits if_splits)
    with 2 assms(2) show ?thesis by (intro that [of "[b, b']" q]) (auto simp: unfold dest: bit_not_zero)
  next
    case 3
    with assms obtain b' b'' q where p: "p = b' # b'' # q" "bit b' 7" "bit b'' 7"
      and q: "CheckUtfBytes q = Some None"
      by (auto simp: unfold split: list.splits if_splits)
    with 3 assms(2) show ?thesis by (intro that [of "[b, b', b'']" q]) (auto simp: unfold dest: bit_not_zero)
  qed
qed

lemma CheckUtfBytes_safe:
  assumes "CheckUtfBytes p = Some None"
  shows "\<exists>body rest s. p = body @ 0 # rest \<and> 0 \<notin> set body \<and>
    (\<forall>r. ConvertModifiedUtf8ToUtf16 (body @ 0 # r) = Some s) \<and>
    (\<forall>n r. count_chars n (body @ 0 # r) = Some (n + length s))"
  using assms
proof (induction p rule: length_induct)
  case (1 p)
  then obtain b p' where p: "p = b # p'" by (cases p) (auto simp: CheckUtfBytes.simps [of "[]"])
  show ?case
  proof (cases "b = 0")
    case True
    have "ConvertModifiedUtf8ToUtf16 (0 # r) = Some []" "count_chars n (0 # r) = Some n" for n r
      by (simp_all add: ConvertModifiedUtf8ToUtf16.simps [of "0 # r"] count_chars.simps [of n "0 # r"])
    then show ?thesis using p True by (intro exI [of _ "[]"] exI [of _ p']) simp
  next
    case False
    then obtain u q c where u: "p = u @ q" "u \<noteq> []" "0 \<notin> set u" "CheckUtfBytes q = Some None"
      "\<And>r. GetUtf16FromUtf8 (u @ r) = Some (c, r)" "\<And>n r. count_chars n (u @ r) = count_chars (n + 1) r"
      using CheckUtfBytes_char [of b p'] 1(2) by (auto simp: p)
    have "length q < length p" using u(1,2) by simp
    then obtain body rest s where q: "q = body @ 0 # rest" "0 \<notin> set body"
      "\<And>r. ConvertModifiedUtf8ToUtf16 (body @ 0 # r) = Some s"
      "\<And>n r. count_chars n (body @ 0 # r) = Some (n + length s)"
      using 1(1) u(4) by blast
    obtain a u' where "u = a # u'" "a \<noteq> 0" using u(2,3) by (cases u) auto
    then have "ConvertModifiedUtf8ToUtf16 (u @ r) = map_option ((#) c) (ConvertModifiedUtf8ToUtf16 r)" for r
      using u(5) [of r] by (simp add: ConvertModifiedUtf8ToUtf16.simps [of "a # u' @ r"] del: GetUtf16FromUtf8.simps)
    then have "ConvertModifiedUtf8ToUtf16 ((u @ body) @ 0 # r) = Some (c # s)" for r by (simp add: q(3))
    moreover have "count_chars n ((u @ body) @ 0 # r) = Some (n + length (c # s))" for n r
      using u(6) [of n "body @ 0 # r"] q(4) by simp
    moreover have "p = (u @ body) @ 0 # rest" "0 \<notin> set (u @ body)" using u(1,3) q(1,2) by simp_all
    ultimately show ?thesis by blast
  qed
qed

section \<open>Hashes\<close>

lemma utf16_hash_sum:
  "utf16_hash (length s) s h = Some (h * 31 ^ length s +
     (\<Sum>i<length s. ucast (s ! i) * 31 ^ (length s - 1 - i)))"
proof (induction s arbitrary: h)
  case (Cons c s)
  have "(\<Sum>i<length (c # s). ucast ((c # s) ! i) * 31 ^ (length (c # s) - 1 - i)) =
      ucast c * 31 ^ length s + (\<Sum>i<length s. ucast (s ! i) * 31 ^ (length s - 1 - i) :: u32)"
    by (simp add: sum.lessThan_Suc_shift del: sum.lessThan_Suc)
  with Cons show ?case by (simp add: algebra_simps)
qed simp

lemma array_hash_drop:
  "array_hash chars offset i n h = utf16_hash n (drop (offset + i) chars) h"
proof (induction n arbitrary: i h)
  case (Suc n)
  then show ?case
    by (cases "offset + i < length chars") (auto simp: Cons_nth_drop_Suc [symmetric])
qed simp

section \<open>Properties\<close>

text \<open>C31: Every UTF-16 string, with zero code units and unpaired surrogates, survives the conversion to
  modified UTF-8 and back: the encoder writes exactly the number of bytes that
  \<^verbatim>\<open>CountUtf8Bytes\<close> promises and none of them is zero, so the terminator put behind them is found;
  the decoder then returns the string and \<^verbatim>\<open>CountModifiedUtf8Chars\<close> its length, whatever follows.\<close>
theorem modified_utf8_round_trip:
  "\<exists>bytes. ConvertUtf16ToModifiedUtf8 (length s) s = Some bytes \<and>
     CountUtf8Bytes (length s) s = Some (length bytes) \<and> 0 \<notin> set bytes \<and>
     ConvertModifiedUtf8ToUtf16 (bytes @ 0 # rest) = Some s \<and>
     CountModifiedUtf8Chars (bytes @ 0 # rest) = Some (length s)"
  using ConvertUtf16ToModifiedUtf8_take [of "length s" s] CountUtf8Bytes_take [of "length s" s]
    modified_utf8_no_zero [of s] Convert_terminated [of s rest] count_chars_terminated [of 0 s rest]
  by (auto simp: CountModifiedUtf8Chars_def)

text \<open>C32: The string check of the dex file verifier accepts exactly the canonical strings: it accepts
  an item and stops at \<open>rest\<close> if and only if the item is a LEB128 number followed by the encoding of a
  string with that many code units and a zero byte. So every accepted item is decoded by the runtime
  to a string of the indicated length without a read behind its end.\<close>
theorem string_data_item_exact:
  "CheckIntraStringDataItem ptr = Some (Inr rest) \<longleftrightarrow>
     (\<exists>sz body s. DecodeUnsignedLeb128 ptr = Some (sz, body) \<and> length s = unat sz \<and>
        body = concat (map encode_utf16 s) @ 0 # rest \<and>
        ConvertModifiedUtf8ToUtf16 body = Some s \<and> CountModifiedUtf8Chars body = Some (unat sz))"
    (is "?l \<longleftrightarrow> ?r")
proof
  assume ?l
  then obtain sz body q where
    "DecodeUnsignedLeb128 ptr = Some (sz, body)" "check_string_chars sz (unat sz) body = Some (Inr (0 # rest))"
    by (auto simp: CheckIntraStringDataItem_def split: option.splits sum.splits list.splits if_splits)
  then show ?r
    using Convert_terminated count_chars_terminated [of 0]
    by (auto simp: check_string_chars_iff CountModifiedUtf8Chars_def)
next
  assume ?r
  then obtain sz body s where *: "DecodeUnsignedLeb128 ptr = Some (sz, body)" "length s = unat sz"
    "body = modified_utf8 s @ 0 # rest" by blast
  then have "check_string_chars sz (unat sz) body = Some (Inr (0 # rest))"
    unfolding check_string_chars_iff by blast
  with *(1) show ?l by (simp add: CheckIntraStringDataItem_def)
qed

text \<open>C33: The comparison of two terminated modified UTF-8 strings is the lexicographic comparison of
  their UTF-16 code units, the order of \<^verbatim>\<open>String.compareTo\<close> and of the string table of a dex file: it
  returns zero for equal strings only and a negative number exactly when the first one is smaller. It
  does not depend on the signedness of \<^verbatim>\<open>char\<close>, nor on what follows the terminators.\<close>
theorem compare_is_utf16_order:
  "\<exists>v. CompareModifiedUtf8ToModifiedUtf8AsUtf16CodePointValues signed_char
       (concat (map encode_utf16 s) @ 0 # p) (concat (map encode_utf16 t) @ 0 # q) = Some v \<and>
     (v = 0 \<longleftrightarrow> s = t) \<and> (v < 0 \<longleftrightarrow> ord_class.lexordp s t)"
  by (rule Compare_strings)

text \<open>C34: A string from native code that passes \<^verbatim>\<open>CheckUtfBytes\<close> is safe to decode: the converter and
  the counter stop at its first zero byte, agree on the number of code units, and neither reads what
  follows.\<close>
theorem checked_bytes_are_safe:
  assumes "CheckUtfBytes bytes = Some None"
  shows "\<exists>body rest s. bytes = body @ 0 # rest \<and> 0 \<notin> set body \<and>
    (\<forall>other. ConvertModifiedUtf8ToUtf16 (body @ 0 # other) = Some s \<and>
      CountModifiedUtf8Chars (body @ 0 # other) = Some (length s))"
proof -
  obtain body rest s where *: "bytes = body @ 0 # rest" "0 \<notin> set body"
    "\<And>r. ConvertModifiedUtf8ToUtf16 (body @ 0 # r) = Some s"
    "\<And>n r. count_chars n (body @ 0 # r) = Some (n + length s)"
    using CheckUtfBytes_safe [OF assms] by blast
  then have "CountModifiedUtf8Chars (body @ 0 # r) = Some (length s)" for r
    by (simp add: CountModifiedUtf8Chars_def)
  with * show ?thesis by blast
qed

theorem checked_bytes_are_safe_witness:
  "CheckUtfBytes [0x61, 0xc3, 0xa9, 0xe2, 0x82, 0xac, 0] = Some None \<and>
   (\<exists>body s. [0x61, 0xc3, 0xa9, 0xe2, 0x82, 0xac, 0] = body @ [0] \<and>
      ConvertModifiedUtf8ToUtf16 (body @ [0]) = Some s)"
proof -
  have *: "CheckUtfBytes [0x61, 0xc3, 0xa9, 0xe2, 0x82, 0xac, 0] = Some None" by code_simp
  from checked_bytes_are_safe [OF *] obtain body rest s where
    b: "[0x61, 0xc3, 0xa9, 0xe2, 0x82, 0xac, 0 :: u8] = body @ 0 # rest" "0 \<notin> set body"
    "\<And>other. ConvertModifiedUtf8ToUtf16 (body @ 0 # other) = Some s" by blast
  have "rest = []"
  proof (rule ccontr)
    assume "rest \<noteq> []"
    then have "0 \<in> set (butlast [0x61, 0xc3, 0xa9, 0xe2, 0x82, 0xac, 0 :: u8])"
      unfolding b(1) by (simp add: butlast_append)
    then show False by simp
  qed
  with b * show ?thesis by blast
qed

text \<open>The hash of a UTF-16 string is the one of \<^verbatim>\<open>java.lang.String\<close>, the polynomial in 31 over all
  code units modulo two to the 32, and the overload for managed arrays computes it on the slice at the
  given offset.\<close>
theorem utf16_hash_is_java_hash:
  assumes "offset + length s \<le> length chars" "take (length s) (drop offset chars) = s"
  shows "ComputeUtf16Hash s (length s) = Some (\<Sum>i<length s. ucast (s ! i) * 31 ^ (length s - 1 - i)) \<and>
    ComputeUtf16Hash_array chars offset (length s) = ComputeUtf16Hash s (length s)"
proof -
  have "utf16_hash n (xs @ ys) h = utf16_hash n xs h" if "n \<le> length xs" for n xs ys h
    using that by (induction n arbitrary: xs h) (auto simp: Suc_le_length_iff)
  from this [of "length s" s "drop (length s) (drop offset chars)" 0] show ?thesis
    using utf16_hash_sum [of s 0] assms(2)
    by (simp add: ComputeUtf16Hash_def ComputeUtf16Hash_array_def array_hash_drop)
      (metis append_take_drop_id drop_drop)
qed

theorem utf16_hash_is_java_hash_witness:
  "ComputeUtf16Hash [0x61, 0x62] 2 = Some 3105 \<and>
   ComputeUtf16Hash_array [0x7a, 0x61, 0x62, 0x63] 1 2 = ComputeUtf16Hash [0x61, 0x62] 2"
proof -
  have "1 + length [0x61, 0x62 :: u16] \<le> length [0x7a, 0x61, 0x62, 0x63 :: u16]"
    "take (length [0x61, 0x62 :: u16]) (drop 1 [0x7a, 0x61, 0x62, 0x63]) = [0x61, 0x62 :: u16]" by simp_all
  from conjunct2 [OF utf16_hash_is_java_hash [OF this]]
  have "ComputeUtf16Hash_array [0x7a, 0x61, 0x62, 0x63] 1 2 = ComputeUtf16Hash [0x61, 0x62] 2" by (simp add: numeral_2_eq_2)
  moreover have "ComputeUtf16Hash [0x61, 0x62] 2 = Some 3105" by code_simp
  ultimately show ?thesis by blast
qed

text \<open>
  Two strings that are equal differ for the comparison with a UTF-16 string, and the string check
  reads behind the end of the file when it ends in the middle of a character or before the
  terminator.
\<close>

lemma compare_with_utf16_broken:
  "CompareModifiedUtf8ToUtf16AsCodePointValues [0x61, 0x62, 0] [0x61, 0x62, 0] = Some 1"
  by code_simp

lemma string_check_overruns:
  "CheckIntraStringDataItem [1, 0xc2] = None" "CheckIntraStringDataItem [1, 0x61] = None"
  by code_simp+

end
