(* ===== verification/Names.thy ===== *)
theory Names
  imports ModifiedUtf8
begin

text \<open>
  Names and type descriptors (\<^verbatim>\<open>runtime/utils.cc\<close>): the checks that the dex file verifier and the
  class loaders apply to member names, class names and descriptors, the conversions between dotted
  names and descriptors, and the mangling of names for native methods.

  A C string is the list of its bytes, terminator included; a \<^verbatim>\<open>std::string\<close> has no terminator.
\<close>

abbreviation ascii :: "char \<Rightarrow> 'a::len word" where
  "ascii c \<equiv> of_char c"

section \<open>Valid names\<close>

definition DEX_MEMBER_VALID_LOW_ASCII :: "u32 list" where
  "DEX_MEMBER_VALID_LOW_ASCII = [0x00000000, 0x03ff2010, 0x87fffffe, 0x07fffffe]"

definition IsValidPartOfMemberNameUtf8Slow :: "u8 list \<Rightarrow> (bool \<times> u8 list) option" where
  "IsValidPartOfMemberNameUtf8Slow p =
     (case GetUtf16FromUtf8 p of
        None \<Rightarrow> None
      | Some (utf16, p) \<Rightarrow>
          let hi = shr utf16 8 in
          if hi = 0x00 then Some (utf16 > 0x00a0, p)
          else if hi = 0xd8 \<or> hi = 0xd9 \<or> hi = 0xda \<or> hi = 0xdb then
            map_option (\<lambda>(utf16, p). (utf16 \<ge> 0xdc00 \<and> utf16 \<le> 0xdfff, p)) (GetUtf16FromUtf8 p)
          else if hi = 0xdc \<or> hi = 0xdd \<or> hi = 0xde \<or> hi = 0xdf then Some (False, p)
          else if hi = 0x20 \<or> hi = 0xff then
            let group = utf16 AND 0xfff8 in
            Some (\<not> (group = 0x2000 \<or> group = 0x2008 \<or> group = 0x2028 \<or> group = 0xfff0 \<or> group = 0xfff8), p)
          else Some (True, p))"

definition IsValidPartOfMemberNameUtf8 :: "u8 list \<Rightarrow> (bool \<times> u8 list) option" where
  "IsValidPartOfMemberNameUtf8 p =
     (case p of
        [] \<Rightarrow> None
      | c # q \<Rightarrow>
          if c \<le> 0x7f then
            let wordIdx = unat (shr c 5); bitIdx = unat (c AND 0x1f) in
            Some (DEX_MEMBER_VALID_LOW_ASCII ! wordIdx AND shl 1 bitIdx \<noteq> 0, q)
          else IsValidPartOfMemberNameUtf8Slow p)"

lemma IsValidPart_shorter: "IsValidPartOfMemberNameUtf8 p = Some (v, q) \<Longrightarrow> length q < length p"
  by (cases p)
    (auto simp: IsValidPartOfMemberNameUtf8_def IsValidPartOfMemberNameUtf8Slow_def Let_def
      simp del: GetUtf16FromUtf8.simps split: if_splits option.splits dest!: GetUtf16FromUtf8_shorter)

function member_name_loop :: "bool \<Rightarrow> u8 list \<Rightarrow> bool option" where
  "member_name_loop angle_name s =
     (case s of
        [] \<Rightarrow> None
      | c # s' \<Rightarrow>
          if c = 0 then Some (\<not> angle_name)
          else if c = ascii CHR ''>'' then
            if angle_name then (case s' of [] \<Rightarrow> None | d # _ \<Rightarrow> Some (d = 0)) else Some False
          else (case IsValidPartOfMemberNameUtf8 s of
                  None \<Rightarrow> None
                | Some (ok, s) \<Rightarrow> if ok then member_name_loop angle_name s else Some False))"
  by pat_completeness auto
termination
  by (relation "measure (length \<circ> snd)") (auto dest: IsValidPart_shorter)

declare member_name_loop.simps [simp del]

definition IsValidMemberName :: "u8 list \<Rightarrow> bool option" where
  "IsValidMemberName s =
     (case s of
        [] \<Rightarrow> None
      | c # s' \<Rightarrow>
          if c = 0 then Some False
          else if c = ascii CHR ''<'' then member_name_loop True s'
          else member_name_loop False s)"

datatype ClassNameType = kName | kDescriptor

function class_name_loop :: "ClassNameType \<Rightarrow> u8 \<Rightarrow> bool \<Rightarrow> u8 list \<Rightarrow> bool option" where
  "class_name_loop type kSeparator sepOrFirst s =
     (case s of
        [] \<Rightarrow> None
      | c # s' \<Rightarrow>
          if c = 0 then Some (type = kName \<and> \<not> sepOrFirst)
          else if c = ascii CHR '';'' then
            if type = kDescriptor \<and> \<not> sepOrFirst then (case s' of [] \<Rightarrow> None | d # _ \<Rightarrow> Some (d = 0))
            else Some False
          else if c = ascii CHR ''/'' \<or> c = ascii CHR ''.'' then
            if c \<noteq> kSeparator then Some False
            else if sepOrFirst then Some False
            else class_name_loop type kSeparator True s'
          else (case IsValidPartOfMemberNameUtf8 s of
                  None \<Rightarrow> None
                | Some (ok, s) \<Rightarrow> if ok then class_name_loop type kSeparator False s else Some False))"
  by pat_completeness auto
termination
  by (relation "measure (\<lambda>(_, _, _, s). length s)") (auto dest: IsValidPart_shorter)

declare class_name_loop.simps [simp del]

text \<open>The part of \<^verbatim>\<open>IsValidClassName\<close> behind the count of the array dimensions.\<close>

definition element_name :: "ClassNameType \<Rightarrow> u8 \<Rightarrow> nat \<Rightarrow> u8 list \<Rightarrow> bool option" where
  "element_name type kSeparator arrayCount s =
     (if type = kDescriptor then
        (case s of
           [] \<Rightarrow> None
         | c # s \<Rightarrow>
             if c \<in> {ascii CHR ''B'', ascii CHR ''C'', ascii CHR ''D'', ascii CHR ''F'', ascii CHR ''I'',
                     ascii CHR ''J'', ascii CHR ''S'', ascii CHR ''Z''}
             then (case s of [] \<Rightarrow> None | d # _ \<Rightarrow> Some (d = 0))
             else if c = ascii CHR ''V'' then
               if arrayCount = 0 then (case s of [] \<Rightarrow> None | d # _ \<Rightarrow> Some (d = 0)) else Some False
             else if c = ascii CHR ''L'' then class_name_loop type kSeparator True s
             else Some False)
      else class_name_loop type kSeparator True s)"

definition IsValidClassName :: "ClassNameType \<Rightarrow> u8 \<Rightarrow> u8 list \<Rightarrow> bool option" where
  "IsValidClassName kType kSeparator s =
     (let arrayCount = length (takeWhile (\<lambda>c. c = ascii CHR ''['') s);
          s = dropWhile (\<lambda>c. c = ascii CHR ''['') s in
      if s = [] then None
      else if arrayCount > 255 then Some False
      else element_name (if kType \<noteq> kDescriptor \<and> arrayCount \<noteq> 0 then kDescriptor else kType)
             kSeparator arrayCount s)"

definition IsValidBinaryClassName :: "u8 list \<Rightarrow> bool option" where
  "IsValidBinaryClassName s = IsValidClassName kName (ascii CHR ''.'') s"

definition IsValidJniClassName :: "u8 list \<Rightarrow> bool option" where
  "IsValidJniClassName s = IsValidClassName kName (ascii CHR ''/'') s"

definition IsValidDescriptor :: "u8 list \<Rightarrow> bool option" where
  "IsValidDescriptor s = IsValidClassName kDescriptor (ascii CHR ''/'') s"

section \<open>Conversions\<close>

definition replace_byte :: "u8 \<Rightarrow> u8 \<Rightarrow> u8 list \<Rightarrow> u8 list" where
  "replace_byte a b s = map (\<lambda>c. if c = a then b else c) s"

definition DotToDescriptor :: "u8 list \<Rightarrow> u8 list" where
  "DotToDescriptor class_name =
     (let descriptor = replace_byte (ascii CHR ''.'') (ascii CHR ''/'') class_name in
      if length descriptor > 0 \<and> hd descriptor \<noteq> ascii CHR ''[''
      then ascii CHR ''L'' # descriptor @ [ascii CHR '';''] else descriptor)"

definition DescriptorToDot :: "u8 list \<Rightarrow> u8 list" where
  "DescriptorToDot descriptor =
     (if length descriptor > 1 then
        if hd descriptor = ascii CHR ''L'' \<and> last descriptor = ascii CHR '';''
        then replace_byte (ascii CHR ''/'') (ascii CHR ''.'') (butlast (tl descriptor))
        else replace_byte (ascii CHR ''/'') (ascii CHR ''.'') descriptor
      else descriptor)"

section \<open>Mangling\<close>

definition hex_digit :: "nat \<Rightarrow> u8" where
  "hex_digit d = (if d < 10 then of_nat d + 0x30 else of_nat d + 0x57)"

text \<open>\<^verbatim>\<open>%04x\<close> of a 16 bit value.\<close>

definition hex4 :: "u16 \<Rightarrow> u8 list" where
  "hex4 ch = map (\<lambda>i. hex_digit (unat (shr ch (4 * i) AND 0xf))) [3, 2, 1, 0]"

definition mangle_char :: "u16 \<Rightarrow> u8 list" where
  "mangle_char ch =
     (if (ch \<ge> ascii CHR ''A'' \<and> ch \<le> ascii CHR ''Z'') \<or> (ch \<ge> ascii CHR ''a'' \<and> ch \<le> ascii CHR ''z'') \<or>
         (ch \<ge> ascii CHR ''0'' \<and> ch \<le> ascii CHR ''9'') then [ucast ch]
      else if ch = ascii CHR ''.'' \<or> ch = ascii CHR ''/'' then [ascii CHR ''_'']
      else if ch = ascii CHR ''_'' then [ascii CHR ''_'', ascii CHR ''1'']
      else if ch = ascii CHR '';'' then [ascii CHR ''_'', ascii CHR ''2'']
      else if ch = ascii CHR ''['' then [ascii CHR ''_'', ascii CHR ''3'']
      else [ascii CHR ''_'', ascii CHR ''0''] @ hex4 ch)"

primrec mangle_loop :: "nat \<Rightarrow> u8 list \<Rightarrow> u8 list option" where
  "mangle_loop 0 cp = Some []"
| "mangle_loop (Suc n) cp =
     (case GetUtf16FromUtf8 cp of
        None \<Rightarrow> None
      | Some (ch, cp) \<Rightarrow> map_option ((@) (mangle_char ch)) (mangle_loop n cp))"

definition MangleForJni :: "u8 list \<Rightarrow> u8 list option" where
  "MangleForJni s = Option.bind (CountModifiedUtf8Chars (s @ [0])) (\<lambda>n. mangle_loop n (s @ [0]))"

definition JniShortName :: "u8 list \<Rightarrow> u8 list \<Rightarrow> u8 list option" where
  "JniShortName class_name method_name =
     (if class_name \<noteq> [] \<and> hd class_name = ascii CHR ''L'' \<and> last class_name = ascii CHR '';''
      then Option.bind (MangleForJni (butlast (tl class_name))) (\<lambda>c.
           Option.bind (MangleForJni method_name) (\<lambda>m.
             Some (map ascii ''Java_'' @ c @ [ascii CHR ''_''] @ m)))
      else None)"

section \<open>The grammar of names\<close>

text \<open>
  The characters and names of the dex format, on UTF-16 code units. A character is a code unit or a
  surrogate pair.
\<close>

definition ascii_name_char :: "u16 \<Rightarrow> bool" where
  "ascii_name_char c \<longleftrightarrow> 0x30 \<le> c \<and> c \<le> 0x39 \<or> 0x41 \<le> c \<and> c \<le> 0x5a \<or> 0x61 \<le> c \<and> c \<le> 0x7a \<or>
     c = 0x24 \<or> c = 0x2d \<or> c = 0x5f"

definition high_name_char :: "u16 \<Rightarrow> bool" where
  "high_name_char c \<longleftrightarrow> 0xa0 < c \<and> \<not> (0x2000 \<le> c \<and> c \<le> 0x200f) \<and> \<not> (0x2028 \<le> c \<and> c \<le> 0x202f) \<and>
     \<not> (0xd800 \<le> c \<and> c \<le> 0xdfff) \<and> c < 0xfff0"

definition leading_surrogate :: "u16 \<Rightarrow> bool" where
  "leading_surrogate c \<longleftrightarrow> 0xd800 \<le> c \<and> c \<le> 0xdbff"

definition trailing_surrogate :: "u16 \<Rightarrow> bool" where
  "trailing_surrogate c \<longleftrightarrow> 0xdc00 \<le> c \<and> c \<le> 0xdfff"

inductive name_char :: "u16 list \<Rightarrow> bool" where
  ascii_char: "ascii_name_char c \<Longrightarrow> name_char [c]"
| high_char: "high_name_char c \<Longrightarrow> name_char [c]"
| pair: "leading_surrogate h \<Longrightarrow> trailing_surrogate l \<Longrightarrow> name_char [h, l]"

inductive simple_name :: "u16 list \<Rightarrow> bool" where
  single: "name_char m \<Longrightarrow> simple_name m"
| more: "name_char m \<Longrightarrow> simple_name n \<Longrightarrow> simple_name (m @ n)"

inductive class_name :: "u16 \<Rightarrow> u16 list \<Rightarrow> bool" for sep where
  simple: "simple_name n \<Longrightarrow> class_name sep n"
| package: "simple_name n \<Longrightarrow> class_name sep c \<Longrightarrow> class_name sep (n @ sep # c)"

definition primitive_letter :: "'a::len word \<Rightarrow> bool" where
  "primitive_letter c \<longleftrightarrow> c \<in> {0x42, 0x43, 0x44, 0x46, 0x49, 0x4a, 0x53, 0x5a}"

inductive element_descriptor :: "u16 \<Rightarrow> u16 list \<Rightarrow> bool" for sep where
  primitive: "primitive_letter c \<Longrightarrow> element_descriptor sep [c]"
| reference: "class_name sep c \<Longrightarrow> element_descriptor sep (0x4c # c @ [0x3b])"

inductive descriptor :: "u16 \<Rightarrow> u16 list \<Rightarrow> bool" for sep where
  void: "descriptor sep [0x56]"
| array: "k \<le> 255 \<Longrightarrow> element_descriptor sep e \<Longrightarrow> descriptor sep (replicate k 0x5b @ e)"

section \<open>One character\<close>

lemma div_eq_range: "0 < d \<Longrightarrow> (n :: nat) div d = k \<longleftrightarrow> k * d \<le> n \<and> n < k * d + d"
  by (auto simp: div_nat_eqI mult.commute) (metis mult.commute dividend_less_times_div add.commute)

lemma u8_table:
  fixes c :: u8
  assumes "c \<le> 0x7f"
  shows "DEX_MEMBER_VALID_LOW_ASCII ! unat (shr c 5) AND shl 1 (unat (c AND 0x1f)) \<noteq> 0 \<longleftrightarrow>
    ascii_name_char (ucast c)"
proof -
  have *: "\<forall>n\<in>set [0..<128]. DEX_MEMBER_VALID_LOW_ASCII ! unat (shr (of_nat n :: u8) 5) AND
      shl 1 (unat ((of_nat n :: u8) AND 0x1f)) \<noteq> 0 \<longleftrightarrow> ascii_name_char (ucast (of_nat n :: u8))"
    by code_simp
  have "unat c \<in> set [0..<128]" using assms by (simp add: word_le_nat_alt)
  from bspec [OF * this] show ?thesis by simp
qed

lemma unat_and_fff8: "unat ((u :: u16) AND 0xfff8) = unat u div 8 * 8"
proof -
  have "u AND 0xfff8 = shl (shr u 3) 3"
  proof (rule bit_word_eqI)
    have *: "bit (0xfff8 :: int) i \<longleftrightarrow> 3 \<le> i \<and> i < 16" for i
    proof -
      have "bit (push_bit 3 (2 ^ 13 - 1 :: int)) i \<longleftrightarrow> 3 \<le> i \<and> i < 16"
        by (simp only: bit_push_bit_iff bit_int_mask_iff) auto
      then show ?thesis by (simp add: push_bit_eq_mult)
    qed
    fix i assume "i < LENGTH(16)"
    then show "bit (u AND 0xfff8) i \<longleftrightarrow> bit (shl (shr u 3) 3) i" by (auto simp: bit_simps *)
  qed
  moreover have "unat (shr u 3) * 8 < 2 ^ 16"
    using unsigned_less [of u, where ?'a = nat] by (simp add: unat_shr)
  ultimately show ?thesis
    by (simp add: push_bit_eq_mult unat_word_ariths unat_shr mult.commute)
qed

lemma slow_char:
  assumes "c = 0 \<or> 0x7f < c"
  shows "IsValidPartOfMemberNameUtf8Slow (encode_utf16 c @ p) =
    (if leading_surrogate c then map_option (\<lambda>(d, q). (trailing_surrogate d, q)) (GetUtf16FromUtf8 p)
     else Some (high_name_char c, p))"
proof -
  let ?n = "unat c"
  have n: "?n < 65536" using unsigned_less [of c, where ?'a = nat] by simp
  have hi: "shr c 8 = k \<longleftrightarrow> unat k * 256 \<le> ?n \<and> ?n < unat k * 256 + 256" for k
    using div_eq_range [of 256 ?n "unat k"] by (simp add: word_unat_eq_iff unat_shr)
  have group: "c AND 0xfff8 = k \<longleftrightarrow> unat k \<le> ?n \<and> ?n < unat k + 8" if "8 dvd unat k" for k
  proof -
    have "c AND 0xfff8 = k \<longleftrightarrow> ?n div 8 = unat k div 8"
      using that by (auto simp: word_unat_eq_iff unat_and_fff8)
    also have "\<dots> \<longleftrightarrow> unat k \<le> ?n \<and> ?n < unat k + 8" using div_eq_range [of 8 ?n] that by simp
    finally show ?thesis .
  qed
  note ranges = word_le_nat_alt word_less_nat_alt
  have lead: "shr c 8 = 0xd8 \<or> shr c 8 = 0xd9 \<or> shr c 8 = 0xda \<or> shr c 8 = 0xdb \<longleftrightarrow> leading_surrogate c"
    unfolding hi leading_surrogate_def ranges by simp linarith
  have trail: "shr c 8 = 0xdc \<or> shr c 8 = 0xdd \<or> shr c 8 = 0xde \<or> shr c 8 = 0xdf \<longleftrightarrow> trailing_surrogate c"
    unfolding hi trailing_surrogate_def ranges by simp linarith
  have zero: "shr c 8 = 0 \<longleftrightarrow> ?n < 256" unfolding hi by simp
  have special: "(shr c 8 = 0x20 \<or> shr c 8 = 0xff) \<and>
      (c AND 0xfff8 = 0x2000 \<or> c AND 0xfff8 = 0x2008 \<or> c AND 0xfff8 = 0x2028 \<or> c AND 0xfff8 = 0xfff0 \<or>
       c AND 0xfff8 = 0xfff8) \<longleftrightarrow>
    0x2000 \<le> c \<and> c \<le> 0x200f \<or> 0x2028 \<le> c \<and> c \<le> 0x202f \<or> 0xfff0 \<le> c"
    using n unfolding hi ranges by (simp add: group) linarith
  have "high_name_char c \<longleftrightarrow> (if shr c 8 = 0 then 0xa0 < c else \<not> leading_surrogate c \<and> \<not> trailing_surrogate c \<and>
      \<not> (0x2000 \<le> c \<and> c \<le> 0x200f \<or> 0x2028 \<le> c \<and> c \<le> 0x202f \<or> 0xfff0 \<le> c))"
    unfolding zero high_name_char_def leading_surrogate_def trailing_surrogate_def ranges by simp linarith
  then show ?thesis
    unfolding IsValidPartOfMemberNameUtf8Slow_def GetUtf16FromUtf8_encode special [symmetric]
    using zero lead trail
    by (auto simp: Let_def leading_surrogate_def trailing_surrogate_def)
qed

lemma name_char_shape:
  "name_char m \<longleftrightarrow> (\<exists>c. m = [c] \<and> (ascii_name_char c \<or> high_name_char c)) \<or>
     (\<exists>h l. m = [h, l] \<and> leading_surrogate h \<and> trailing_surrogate l)"
  by (auto elim: name_char.cases intro: name_char.intros)

lemma ascii_name_char_small: "ascii_name_char c \<Longrightarrow> 0 < c \<and> c \<le> 0x7f"
  by (auto simp: ascii_name_char_def word_le_nat_alt word_less_nat_alt)

lemma high_name_char_large: "high_name_char c \<Longrightarrow> 0x7f < c"
  by (auto simp: high_name_char_def word_less_nat_alt)

lemma leading_surrogate_large: "leading_surrogate c \<Longrightarrow> 0x7f < c \<and> \<not> high_name_char c"
  by (auto simp: leading_surrogate_def high_name_char_def word_le_nat_alt word_less_nat_alt)

lemma name_char_prefix:
  "(\<exists>m t. name_char m \<and> c # s = m @ t \<and> P t) \<longleftrightarrow>
     (if leading_surrogate c then (\<exists>d t. s = d # t \<and> trailing_surrogate d \<and> P t)
      else (ascii_name_char c \<or> high_name_char c) \<and> P s)"
    (is "?l \<longleftrightarrow> ?r")
proof
  assume ?l
  then show ?r
    using ascii_name_char_small [of c] leading_surrogate_large [of c] by (auto simp: name_char_shape)
next
  assume r: ?r
  show ?l
  proof (cases "leading_surrogate c")
    case True
    with r obtain d t where "s = d # t" "trailing_surrogate d" "P t" by auto
    then show ?thesis using True by (intro exI [of _ "[c, d]"] exI [of _ t]) (simp add: name_char.pair)
  next
    case False
    with r show ?thesis by (intro exI [of _ "[c]"] exI [of _ s]) (auto intro: name_char.intros)
  qed
qed

lemma encode_ascii_byte:
  assumes "0 < c" "c \<le> 0x7f"
  shows "encode_utf16 c = [ucast c]" "(ucast c :: u8) \<le> 0x7f" "ucast (ucast c :: u8) = c"
proof -
  show "encode_utf16 c = [ucast c]" using assms by (simp add: encode_utf16_def)
  have "unat c \<le> 127" using assms(2) by (simp add: word_le_nat_alt)
  then have "take_bit 8 c = c" using take_bit_small [of c 8] by simp
  then show "ucast (ucast c :: u8) = c" "(ucast c :: u8) \<le> 0x7f"
    using \<open>unat c \<le> 127\<close> by (simp_all add: word_le_nat_alt word_unat_eq_iff unsigned_ucast_eq take_bit_nat_eq_self)
qed

lemma byte_gt_7f_bit: "(0x7f :: u8) < b \<longleftrightarrow> bit b 7"
proof -
  have "unat b < 2 ^ 7 \<longleftrightarrow> (\<forall>i\<ge>7. \<not> bit b i)" by (rule less_exp_iff_bits)
  moreover have "(\<forall>i\<ge>7. \<not> bit b i) \<longleftrightarrow> \<not> bit b 7"
    using low_byte_bits [of b] by (metis not_less order_refl)
  ultimately show ?thesis by (auto simp: word_less_nat_alt)
qed

lemma encode_high_byte:
  assumes "c = 0 \<or> 0x7f < c"
  obtains b p where "encode_utf16 c = b # p" "0x7f < b"
proof (cases c rule: encode_utf16_shape)
  case (one b)
  then show ?thesis using length_encode_utf16 [of c] assms by (auto split: if_splits)
qed (use that byte_gt_7f_bit in auto)

lemma part_encode:
  "IsValidPartOfMemberNameUtf8 (encode_utf16 c @ p) =
    (if leading_surrogate c then map_option (\<lambda>(d, q). (trailing_surrogate d, q)) (GetUtf16FromUtf8 p)
     else Some (ascii_name_char c \<or> high_name_char c, p))"
proof (cases "0 < c \<and> c \<le> 0x7f")
  case True
  then show ?thesis
    using encode_ascii_byte [of c] u8_table [of "ucast c"] high_name_char_large [of c] leading_surrogate_large [of c]
    by (auto simp: IsValidPartOfMemberNameUtf8_def Let_def)
next
  case False
  then have *: "c = 0 \<or> 0x7f < c" using word_neq_0_conv [of c] by auto
  then obtain b q where "encode_utf16 c = b # q" "0x7f < b" by (rule encode_high_byte)
  then have "IsValidPartOfMemberNameUtf8 (encode_utf16 c @ p) = IsValidPartOfMemberNameUtf8Slow (encode_utf16 c @ p)"
    by (auto simp: IsValidPartOfMemberNameUtf8_def)
  then show ?thesis using slow_char [OF *, of p] False ascii_name_char_small [of c] by auto
qed

lemma part_string:
  obtains (bad) q where "IsValidPartOfMemberNameUtf8 (modified_utf8 (c # s) @ 0 # r) = Some (False, q)"
      "\<And>m t. name_char m \<Longrightarrow> c # s \<noteq> m @ t"
  | (good) m t where "IsValidPartOfMemberNameUtf8 (modified_utf8 (c # s) @ 0 # r) = Some (True, modified_utf8 t @ 0 # r)"
      "name_char m" "c # s = m @ t"
proof -
  note prefix = name_char_prefix [of c s "\<lambda>_. True", simplified]
  show thesis
  proof (cases "leading_surrogate c")
    case False
    then have *: "IsValidPartOfMemberNameUtf8 (modified_utf8 (c # s) @ 0 # r) =
        Some (ascii_name_char c \<or> high_name_char c, modified_utf8 s @ 0 # r)"
      using part_encode [of c "modified_utf8 s @ 0 # r"] by simp
    show ?thesis
    proof (cases "ascii_name_char c \<or> high_name_char c")
      case True
      then have "name_char [c]" by (auto intro: name_char.intros)
      show ?thesis by (rule good [where m = "[c]" and t = s]) (use * True \<open>name_char [c]\<close> in simp_all)
    next
      case ok: False
      then have "\<And>m t. name_char m \<Longrightarrow> c # s \<noteq> m @ t" using prefix False by auto
      then show ?thesis by (rule bad [rotated]) (use * ok in simp_all)
    qed
  next
    case True
    show ?thesis
    proof (cases s)
      case Nil
      have "IsValidPartOfMemberNameUtf8 (modified_utf8 (c # s) @ 0 # r) = Some (False, r)"
        using True part_encode [of c "0 # r"] Nil by (simp add: trailing_surrogate_def byte_masks)
      moreover have "\<And>m t. name_char m \<Longrightarrow> c # s \<noteq> m @ t" using prefix True Nil by auto
      ultimately show ?thesis by (rule bad)
    next
      case (Cons d t)
      have *: "IsValidPartOfMemberNameUtf8 (modified_utf8 (c # s) @ 0 # r) =
          Some (trailing_surrogate d, modified_utf8 t @ 0 # r)"
        using True part_encode [of c "modified_utf8 s @ 0 # r"] GetUtf16FromUtf8_encode [of d "modified_utf8 t @ 0 # r"] Cons
        by (simp del: GetUtf16FromUtf8.simps)
      show ?thesis
      proof (cases "trailing_surrogate d")
        case True
        show ?thesis
          by (rule good [where m = "[c, d]" and t = t])
            (use * True \<open>leading_surrogate c\<close> Cons in \<open>simp_all add: name_char.pair\<close>)
      next
        case False
        then have "\<And>m t. name_char m \<Longrightarrow> c # s \<noteq> m @ t"
          using prefix \<open>leading_surrogate c\<close> Cons by auto
        then show ?thesis by (rule bad [rotated]) (use * False in simp_all)
      qed
    qed
  qed
qed

section \<open>Names and the loops that check them\<close>

lemma name_char_hd:
  assumes "name_char m"
  obtains c t where "m = c # t" "ascii_name_char c \<or> 0x7f < c"
  using assms high_name_char_large leading_surrogate_large by (auto simp: name_char_shape)

lemma not_name_chars:
  "\<not> ascii_name_char 0x2e" "\<not> ascii_name_char 0x2f" "\<not> ascii_name_char 0x3b" "\<not> ascii_name_char 0x3c"
  "\<not> ascii_name_char 0x3e" "\<not> ascii_name_char 0x5b"
  by (simp_all add: ascii_name_char_def)

lemma name_char_no_delimiter:
  assumes "name_char m" "d \<in> {0x2e, 0x2f, 0x3b, 0x3c, 0x3e, 0x5b}"
  shows "m @ t \<noteq> d # s"
proof
  assume "m @ t = d # s"
  then have "ascii_name_char d \<or> 0x7f < d" using assms(1) by (auto elim: name_char_hd)
  then show False using assms(2) not_name_chars by auto
qed

lemma name_char_unique:
  assumes "name_char m" "name_char m'" "m @ t = m' @ t'"
  shows "m = m' \<and> t = t'"
proof -
  obtain c s where s: "m @ t = c # s" using assms(1) by (auto simp: name_char_shape)
  have "\<exists>m t. name_char m \<and> c # s = m @ t \<and> t = t'" "\<exists>m u. name_char m \<and> c # s = m @ u \<and> u = t"
    using assms s by metis+
  then have "t = t'" unfolding name_char_prefix by (auto split: if_splits)
  with assms(3) show ?thesis by simp
qed

lemma class_name_iff:
  "class_name sep s \<longleftrightarrow> (\<exists>m r. name_char m \<and> s = m @ r \<and>
     (r = [] \<or> class_name sep r \<or> (\<exists>c. class_name sep c \<and> r = sep # c)))" (is "_ \<longleftrightarrow> ?r s")
proof
  assume "class_name sep s"
  then show "?r s"
  proof cases
    case simple
    then show ?thesis by cases (auto intro: class_name.intros)
  next
    case (package n c)
    from package(2) show ?thesis
    proof cases
      case single
      then show ?thesis using package by (intro exI [of _ n] exI [of _ "sep # c"]) auto
    next
      case (more m n')
      then have "class_name sep (n' @ sep # c)" using package(3) by (intro class_name.package)
      then show ?thesis using package(1) more by (intro exI [of _ m] exI [of _ "n' @ sep # c"]) auto
    qed
  qed
next
  assume "?r s"
  then obtain m r where mr: "name_char m" "s = m @ r"
    and cases: "r = [] \<or> class_name sep r \<or> (\<exists>c. class_name sep c \<and> r = sep # c)" by blast
  from cases consider "r = []" | "class_name sep r" | c where "class_name sep c" "r = sep # c" by blast
  then show "class_name sep s"
  proof cases
    case 1
    then show ?thesis using mr by (auto intro: class_name.intros simple_name.intros)
  next
    case 2
    then show ?thesis
    proof cases
      case simple
      then show ?thesis using mr by (auto intro: class_name.intros simple_name.intros)
    next
      case (package n c)
      then have "class_name sep ((m @ n) @ sep # c)"
        using mr(1) by (intro class_name.package simple_name.more)
      then show ?thesis using mr(2) package(1) by simp
    qed
  next
    case 3
    then show ?thesis using mr by (auto intro: class_name.package simple_name.single)
  qed
qed

lemma first_byte:
  obtains b p where "encode_utf16 c = b # p" "b \<noteq> 0"
    "\<And>x. 0 < x \<Longrightarrow> x \<le> 0x7f \<Longrightarrow> b = x \<longleftrightarrow> c = ucast x"
proof (cases "0 < c \<and> c \<le> 0x7f")
  case True
  show ?thesis
  proof (rule that [of "ucast c" "[]"])
    show "encode_utf16 c = [ucast c]" using True encode_ascii_byte by blast
    show "ucast c \<noteq> (0 :: u8)" using encode_utf16_no_zero [of c] True encode_ascii_byte(1) [of c] by auto
    fix x :: u8
    have "ucast (ucast x :: u16) = x" by (intro bit_word_eqI) (simp add: bit_simps)
    then show "ucast c = x \<longleftrightarrow> c = ucast x" using True encode_ascii_byte(3) [of c] by auto
  qed
next
  case False
  then have *: "c = 0 \<or> 0x7f < c" using word_neq_0_conv [of c] by auto
  then obtain b p where b: "encode_utf16 c = b # p" "0x7f < b" by (rule encode_high_byte)
  show ?thesis
  proof (rule that [of b p])
    show "b \<noteq> 0" using b(2) by auto
    fix x :: u8 assume x: "0 < x" "x \<le> 0x7f"
    have "unat (ucast x :: u16) = unat x"
      using unsigned_less [of x, where ?'a = nat] by (simp add: unsigned_ucast_eq take_bit_nat_eq_self)
    then have "0 < (ucast x :: u16)" "(ucast x :: u16) \<le> 0x7f"
      using x by (simp_all add: word_le_nat_alt word_less_nat_alt)
    then show "b = x \<longleftrightarrow> c = ucast x" using * b(2) x(2) by auto
  qed (rule b(1))
qed

text \<open>What the loop accepts from its current state; the flag says that a component must begin here.\<close>

definition loop_accepts :: "ClassNameType \<Rightarrow> u16 \<Rightarrow> bool \<Rightarrow> u16 list \<Rightarrow> bool" where
  "loop_accepts type sep sepOrFirst s \<longleftrightarrow>
     (let tail = (if type = kName then [] else [0x3b]) in
      \<not> sepOrFirst \<and> s = tail \<or> (\<exists>c. class_name sep c \<and> s = c @ tail) \<or>
      \<not> sepOrFirst \<and> (\<exists>c. class_name sep c \<and> s = sep # c @ tail))"

lemma class_name_delimiter:
  "class_name sep c \<Longrightarrow> d \<in> {0x2e, 0x2f, 0x3b, 0x3c, 0x3e, 0x5b} \<Longrightarrow> c @ t \<noteq> d # s"
  unfolding class_name_iff [of sep c] using name_char_no_delimiter by fastforce

lemma class_name_nonempty: "class_name sep c \<Longrightarrow> c \<noteq> []"
  unfolding class_name_iff [of sep c] by (auto elim: name_char_hd)

lemma loop_accepts_simps:
  "loop_accepts type sep sf [] \<longleftrightarrow> type = kName \<and> \<not> sf"
  "sep \<in> {0x2e, 0x2f} \<Longrightarrow> loop_accepts type sep sf (0x3b # s) \<longleftrightarrow> type = kDescriptor \<and> \<not> sf \<and> s = []"
  "sep \<in> {0x2e, 0x2f} \<Longrightarrow> d \<in> {0x2e, 0x2f} \<Longrightarrow>
     loop_accepts type sep sf (d # s) \<longleftrightarrow> d = sep \<and> \<not> sf \<and> loop_accepts type sep True s"
proof -
  show "loop_accepts type sep sf [] \<longleftrightarrow> type = kName \<and> \<not> sf"
    using class_name_nonempty by (cases type) (auto simp: loop_accepts_def)
  have none: "\<not> (\<exists>c. class_name sep c \<and> d # s = c @ tail)" if "d \<in> {0x2e, 0x2f, 0x3b}" for d s tail
    using class_name_delimiter [of sep _ d tail s] that by fastforce
  let ?tail = "if type = kName then [] else [0x3b :: u16]"
  show "loop_accepts type sep sf (0x3b # s) \<longleftrightarrow> type = kDescriptor \<and> \<not> sf \<and> s = []" if "sep \<in> {0x2e, 0x2f}"
  proof -
    have "loop_accepts type sep sf (0x3b # s) \<longleftrightarrow> \<not> sf \<and> 0x3b # s = ?tail"
      unfolding loop_accepts_def Let_def using none [of "0x3b" s ?tail] that by fastforce
    then show ?thesis by (cases type) auto
  qed
  show "loop_accepts type sep sf (d # s) \<longleftrightarrow> d = sep \<and> \<not> sf \<and> loop_accepts type sep True s"
    if "sep \<in> {0x2e, 0x2f}" "d \<in> {0x2e, 0x2f}"
  proof -
    have "d # s \<noteq> ?tail" using that(2) by auto
    then show ?thesis
      unfolding loop_accepts_def Let_def using none [of d s ?tail] that(2) by blast
  qed
qed

lemma loop_accepts_char:
  assumes "name_char m" "sep \<in> {0x2e, 0x2f}"
  shows "loop_accepts type sep sf (m @ t) \<longleftrightarrow> loop_accepts type sep False t"
proof -
  define tail where "tail = (if type = kName then [] else [0x3b :: u16])"
  note accepts = loop_accepts_def Let_def tail_def [symmetric]
  have "m @ t \<noteq> tail"
    using name_char_no_delimiter [OF assms(1), of "0x3b" t "[]"] assms(1) by (auto simp: tail_def elim: name_char_hd)
  moreover have "\<not> (\<exists>c. class_name sep c \<and> m @ t = sep # c @ tail)"
    using name_char_no_delimiter [OF assms(1), of sep t] assms(2) by blast
  moreover have "(\<exists>c. class_name sep c \<and> m @ t = c @ tail) \<longleftrightarrow> loop_accepts type sep False t"
  proof
    assume "\<exists>c. class_name sep c \<and> m @ t = c @ tail"
    then obtain c where c: "class_name sep c" "m @ t = c @ tail" by blast
    from c(1) obtain m' r where m': "name_char m'" "c = m' @ r"
      and r: "r = [] \<or> class_name sep r \<or> (\<exists>c. class_name sep c \<and> r = sep # c)"
      using class_name_iff [of sep c] by blast
    then have "t = r @ tail" using name_char_unique [OF assms(1) m'(1), of t "r @ tail"] c(2) by simp
    with r show "loop_accepts type sep False t" unfolding accepts by auto
  next
    assume "loop_accepts type sep False t"
    then obtain r where r: "t = r @ tail" "r = [] \<or> class_name sep r \<or> (\<exists>c. class_name sep c \<and> r = sep # c)"
      unfolding accepts by auto
    then have "class_name sep (m @ r)" using assms(1) class_name_iff [of sep "m @ r"] by blast
    then show "\<exists>c. class_name sep c \<and> m @ t = c @ tail" using r(1) by auto
  qed
  ultimately show ?thesis unfolding accepts by blast
qed

lemma loop_accepts_no_char:
  assumes "\<And>m t. name_char m \<Longrightarrow> s \<noteq> m @ t" "s \<noteq> []" "hd s \<notin> {0x2e, 0x2f, 0x3b}" "sep \<in> {0x2e, 0x2f}"
  shows "\<not> loop_accepts type sep sf s"
proof
  assume "loop_accepts type sep sf s"
  then consider "s = [0x3b]" | c t where "class_name sep c" "s = c @ t" | t where "s = sep # t"
    using assms(2) unfolding loop_accepts_def Let_def by (auto split: if_splits)
  then show False
  proof cases
    case 2
    then obtain m r where "name_char m" "c = m @ r" using class_name_iff [of sep c] by blast
    then show ?thesis using assms(1) [of m "r @ t"] 2(2) by simp
  qed (use assms(3,4) in auto)
qed

lemma terminated_zero:
  obtains d q where "modified_utf8 s @ 0 # r = d # q" "d = 0 \<longleftrightarrow> s = []"
proof (cases s)
  case (Cons c t)
  obtain b p where "encode_utf16 c = b # p" "b \<noteq> 0" by (rule encode_utf16_Cons)
  then show ?thesis using that Cons by simp
qed (use that in simp)

lemma class_name_loop_spec:
  assumes "sep \<in> {0x2e, 0x2f}"
  shows "class_name_loop type sep sf (modified_utf8 s @ 0 # r) = Some (loop_accepts type (ucast sep) sf s)"
proof (induction s arbitrary: sf rule: length_induct)
  case (1 s)
  have sep: "ucast sep \<in> {0x2e, 0x2f :: u16}" using assms by auto
  show ?case
  proof (cases s)
    case Nil
    then show ?thesis by (simp add: class_name_loop.simps [of type sep sf "0 # r"] loop_accepts_simps)
  next
    case (Cons c s')
    obtain b p where b: "encode_utf16 c = b # p" "b \<noteq> 0"
      "\<And>x. 0 < x \<Longrightarrow> x \<le> 0x7f \<Longrightarrow> b = x \<longleftrightarrow> c = ucast x" by (rule first_byte) blast
    have bytes: "b = 0x3b \<longleftrightarrow> c = 0x3b" "b = 0x2f \<longleftrightarrow> c = 0x2f" "b = 0x2e \<longleftrightarrow> c = 0x2e"
      using b(3) [of "0x3b"] b(3) [of "0x2f"] b(3) [of "0x2e"] by simp_all
    have s: "modified_utf8 s @ 0 # r = b # p @ modified_utf8 s' @ 0 # r" using b(1) Cons by simp
    note step = class_name_loop.simps [of type sep sf "b # p @ modified_utf8 s' @ 0 # r"]
    have one: "p = []" if "c \<in> {0x3b, 0x2f, 0x2e}"
      using that b(1) by (auto simp: encode_utf16_def)
    consider "c = 0x3b" | "c \<in> {0x2e, 0x2f}" | "c \<notin> {0x3b, 0x2f, 0x2e}" by auto
    then show ?thesis
    proof cases
      case 1
      obtain d q where "modified_utf8 s' @ 0 # r = d # q" "d = 0 \<longleftrightarrow> s' = []" by (rule terminated_zero)
      then show ?thesis
        using 1 b(2) bytes one loop_accepts_simps(2) [OF sep] unfolding s step by (auto simp: Cons)
    next
      case 2
      have "b = sep \<longleftrightarrow> c = ucast sep" using assms 2 bytes by auto
      then show ?thesis
        using 2 b(2) bytes one loop_accepts_simps(3) [OF sep 2] 1 [rule_format, of s' True]
        unfolding s step by (auto simp: Cons)
    next
      case 3
      then have other: "class_name_loop type sep sf (modified_utf8 s @ 0 # r) =
          (case IsValidPartOfMemberNameUtf8 (modified_utf8 s @ 0 # r) of None \<Rightarrow> None
           | Some (ok, s) \<Rightarrow> if ok then class_name_loop type sep False s else Some False)"
        using b(2) bytes unfolding s step by simp
      show ?thesis
      proof (cases rule: part_string [of c s' r])
        case (bad q)
        then show ?thesis using other loop_accepts_no_char [OF bad(2) _ _ sep] 3 by (simp add: Cons)
      next
        case (good m t)
        have "m \<noteq> []" using good(2) by (auto elim: name_char_hd)
        then have "length t < length s" using good(3) Cons by (metis length_append less_add_same_cancel2 length_greater_0_conv)
        then show ?thesis
          using other good 1 [rule_format, of t False] loop_accepts_char [OF good(2) sep, of type sf t]
          by (simp add: Cons)
      qed
    qed
  qed
qed

section \<open>Arrays, primitive types and whole names\<close>


lemma brackets:
  "length (takeWhile (\<lambda>c. c = 0x5b) (modified_utf8 s @ 0 # r)) = length (takeWhile (\<lambda>c. c = 0x5b) s)"
  "dropWhile (\<lambda>c. c = 0x5b) (modified_utf8 s @ 0 # r) = modified_utf8 (dropWhile (\<lambda>c. c = 0x5b) s) @ 0 # r"
proof (induction s)
  case (Cons c s)
  { case 1
    obtain b p where b: "encode_utf16 c = b # p" "b \<noteq> 0"
      "\<And>x. 0 < x \<Longrightarrow> x \<le> 0x7f \<Longrightarrow> b = x \<longleftrightarrow> c = ucast x" by (rule first_byte) blast
    have "p = []" if "c = 0x5b" using that b(1) by (auto simp: encode_utf16_def)
    with b Cons b(3) [of "0x5b"] show ?case by auto
  next
    case 2
    obtain b p where b: "encode_utf16 c = b # p" "b \<noteq> 0"
      "\<And>x. 0 < x \<Longrightarrow> x \<le> 0x7f \<Longrightarrow> b = x \<longleftrightarrow> c = ucast x" by (rule first_byte) blast
    have "p = []" if "c = 0x5b" using that b(1) by (auto simp: encode_utf16_def)
    with b Cons b(3) [of "0x5b"] show ?case by auto }
qed simp_all
lemma loop_accepts_first: "loop_accepts kDescriptor sep True s \<longleftrightarrow> (\<exists>c. class_name sep c \<and> s = c @ [0x3b])"
  "loop_accepts kName sep True s \<longleftrightarrow> class_name sep s"
  by (auto simp: loop_accepts_def)

lemma primitive_letters:
  "b \<in> {ascii CHR ''B'', ascii CHR ''C'', ascii CHR ''D'', ascii CHR ''F'', ascii CHR ''I'',
     ascii CHR ''J'', ascii CHR ''S'', ascii CHR ''Z''} \<longleftrightarrow> primitive_letter (b :: u8)"
  by (simp add: primitive_letter_def)

lemma not_primitive: "\<not> primitive_letter (0x4c :: u16)" "\<not> primitive_letter (0x56 :: u16)"
  "\<not> primitive_letter (0 :: u8)"
  by (simp_all add: primitive_letter_def)

lemma primitive_ascii: "primitive_letter c \<Longrightarrow> 0 < c \<and> c \<le> (0x7f :: u16)"
  by (auto simp: primitive_letter_def)

lemma element_name_cases:
  "element_name kDescriptor sep k (c # s) =
     (if primitive_letter c then (case s of [] \<Rightarrow> None | d # _ \<Rightarrow> Some (d = 0))
      else if c = 0x56 then if k = 0 then (case s of [] \<Rightarrow> None | d # _ \<Rightarrow> Some (d = 0)) else Some False
      else if c = 0x4c then class_name_loop kDescriptor sep True s else Some False)"
  unfolding element_name_def list.case primitive_letters by simp

lemma element_name_spec:
  assumes "sep \<in> {0x2e, 0x2f}"
  shows "element_name kDescriptor sep k (modified_utf8 s @ 0 # r) =
      Some (k = 0 \<and> s = [0x56] \<or> element_descriptor (ucast sep) s)" (is ?desc)
    and "element_name kName sep k (modified_utf8 s @ 0 # r) = Some (class_name (ucast sep) s)"
proof -
  show "element_name kName sep k (modified_utf8 s @ 0 # r) = Some (class_name (ucast sep) s)"
    by (simp add: element_name_def class_name_loop_spec [OF assms] loop_accepts_first)
  show ?desc
  proof (cases s)
    case Nil
    then show ?thesis by (auto simp: element_name_cases not_primitive elim: element_descriptor.cases)
  next
    case (Cons c t)
    obtain b p where b: "encode_utf16 c = b # p" "b \<noteq> 0"
      "\<And>x. 0 < x \<Longrightarrow> x \<le> 0x7f \<Longrightarrow> b = x \<longleftrightarrow> c = ucast x" by (rule first_byte) blast
    have one: "p = []" if "primitive_letter c \<or> c = 0x56 \<or> c = 0x4c"
      using that b(1) primitive_ascii [of c] encode_ascii_byte(1) [of c] by auto
    have prim: "primitive_letter b \<longleftrightarrow> primitive_letter c"
      by (simp add: primitive_letter_def b(3))
    have bytes: "b = 0x56 \<longleftrightarrow> c = 0x56" "b = 0x4c \<longleftrightarrow> c = 0x4c" by (simp_all add: b(3))
    have s: "modified_utf8 s @ 0 # r = b # p @ modified_utf8 t @ 0 # r" using b(1) Cons by simp
    obtain d q where dq: "modified_utf8 t @ 0 # r = d # q" "d = 0 \<longleftrightarrow> t = []" by (rule terminated_zero)
    have "element_descriptor (ucast sep) s \<longleftrightarrow>
        primitive_letter c \<and> t = [] \<or> c = 0x4c \<and> loop_accepts kDescriptor (ucast sep) True t"
      by (auto simp: Cons element_descriptor.simps loop_accepts_first)
    then show ?thesis
      using prim bytes one dq not_primitive class_name_loop_spec [OF assms, of kDescriptor True t r]
      unfolding s element_name_cases
      by (cases "primitive_letter c"; cases "c = 0x56"; cases "c = 0x4c") (simp_all add: Cons)
  qed
qed

section \<open>Properties of names\<close>

lemma descriptor_iff:
  "descriptor sep s \<longleftrightarrow> s = [0x56] \<or> length (takeWhile (\<lambda>c. c = 0x5b) s) \<le> 255 \<and>
     element_descriptor sep (dropWhile (\<lambda>c. c = 0x5b) s)"
proof
  assume "descriptor sep s"
  then show "s = [0x56] \<or> length (takeWhile (\<lambda>c. c = 0x5b) s) \<le> 255 \<and>
      element_descriptor sep (dropWhile (\<lambda>c. c = 0x5b) s)"
  proof cases
    case (array k e)
    from array(3) have "takeWhile (\<lambda>c. c = 0x5b) e = []" "dropWhile (\<lambda>c. c = 0x5b) e = e"
      by (auto elim!: element_descriptor.cases simp: primitive_letter_def)
    then show ?thesis using array by (simp add: takeWhile_append dropWhile_append)
  qed simp
next
  assume *: "s = [0x56] \<or> length (takeWhile (\<lambda>c. c = 0x5b) s) \<le> 255 \<and>
      element_descriptor sep (dropWhile (\<lambda>c. c = 0x5b) s)"
  have "s = replicate (length (takeWhile (\<lambda>c. c = 0x5b) s)) 0x5b @ dropWhile (\<lambda>c. c = 0x5b) s"
    by (induction s) auto
  with * show "descriptor sep s" using descriptor.array [of _ sep] descriptor.void [of sep] by fastforce
qed

definition member_accepts :: "bool \<Rightarrow> u16 list \<Rightarrow> bool" where
  "member_accepts angle s \<longleftrightarrow>
     (if angle then \<exists>n. s = n @ [0x3e] \<and> (n = [] \<or> simple_name n) else s = [] \<or> simple_name s)"

lemma simple_name_iff:
  "simple_name s \<longleftrightarrow> (\<exists>m t. name_char m \<and> s = m @ t \<and> (t = [] \<or> simple_name t))"
  by (auto elim: simple_name.cases intro: simple_name.intros)

lemma simple_name_char: "name_char m \<Longrightarrow> simple_name (m @ t) \<longleftrightarrow> t = [] \<or> simple_name t"
  using simple_name_iff [of "m @ t"] name_char_unique [of m] by metis

lemma simple_name_delimiter: "simple_name n \<Longrightarrow> n @ t \<noteq> 0x3e # s"
  unfolding simple_name_iff [of n] using name_char_no_delimiter [of _ "0x3e"] by fastforce

lemma member_accepts_char:
  assumes "name_char m"
  shows "member_accepts angle (m @ t) \<longleftrightarrow> member_accepts angle t"
proof -
  have "(\<exists>n. m @ t = n @ [0x3e] \<and> (n = [] \<or> simple_name n)) \<longleftrightarrow>
      (\<exists>n. t = n @ [0x3e] \<and> (n = [] \<or> simple_name n))"
  proof
    assume "\<exists>n. m @ t = n @ [0x3e] \<and> (n = [] \<or> simple_name n)"
    then obtain n where n: "m @ t = n @ [0x3e]" "n = [] \<or> simple_name n" by blast
    then have "simple_name n" using name_char_no_delimiter [OF assms, of "0x3e" t "[]"] by auto
    then obtain m' n' where n': "name_char m'" "n = m' @ n'" "n' = [] \<or> simple_name n'"
      using simple_name_iff [of n] by blast
    then have "t = n' @ [0x3e]" using n(1) name_char_unique [OF assms n'(1), of t "n' @ [0x3e]"] by simp
    with n'(3) show "\<exists>n. t = n @ [0x3e] \<and> (n = [] \<or> simple_name n)" by blast
  next
    assume "\<exists>n. t = n @ [0x3e] \<and> (n = [] \<or> simple_name n)"
    then obtain n where "t = n @ [0x3e]" "n = [] \<or> simple_name n" by blast
    then have "m @ t = (m @ n) @ [0x3e]" "simple_name (m @ n)" using simple_name_char [OF assms] by auto
    then show "\<exists>n. m @ t = n @ [0x3e] \<and> (n = [] \<or> simple_name n)" by blast
  qed
  moreover have "m \<noteq> []" using assms by (auto elim: name_char_hd)
  ultimately show ?thesis using simple_name_char [OF assms, of t] unfolding member_accepts_def by auto
qed

lemma member_accepts_close: "member_accepts angle (0x3e # t) \<longleftrightarrow> angle \<and> t = []"
proof -
  have "(\<exists>n. 0x3e # t = n @ [0x3e] \<and> (n = [] \<or> simple_name n)) \<longleftrightarrow> t = []"
    using simple_name_delimiter [of _ "[0x3e]" t] by fastforce
  moreover have "\<not> simple_name (0x3e # t)" using simple_name_delimiter [of "0x3e # t" "[]" t] by auto
  ultimately show ?thesis by (simp add: member_accepts_def)
qed

lemma member_accepts_no_char:
  assumes "\<And>m t. name_char m \<Longrightarrow> s \<noteq> m @ t" "s \<noteq> []" "hd s \<noteq> 0x3e"
  shows "\<not> member_accepts angle s"
proof
  assume "member_accepts angle s"
  then consider "s = [0x3e]" | n t where "simple_name n" "s = n @ t"
    using assms(2) by (auto simp: member_accepts_def split: if_splits)
  then show False
  proof cases
    case 2
    then obtain m r where "name_char m" "n = m @ r" using simple_name_iff [of n] by blast
    then show ?thesis using assms(1) [of m "r @ t"] 2(2) by simp
  qed (use assms(3) in auto)
qed

lemma member_name_loop_spec:
  "member_name_loop angle (modified_utf8 s @ 0 # r) = Some (member_accepts angle s)"
proof (induction s rule: length_induct)
  case (1 s)
  show ?case
  proof (cases s)
    case Nil
    then show ?thesis by (simp add: member_name_loop.simps [of angle "0 # r"] member_accepts_def)
  next
    case (Cons c t)
    obtain b p where b: "encode_utf16 c = b # p" "b \<noteq> 0"
      "\<And>x. 0 < x \<Longrightarrow> x \<le> 0x7f \<Longrightarrow> b = x \<longleftrightarrow> c = ucast x" by (rule first_byte) blast
    have byte: "b = 0x3e \<longleftrightarrow> c = 0x3e" by (simp add: b(3))
    have s: "modified_utf8 s @ 0 # r = b # p @ modified_utf8 t @ 0 # r" using b(1) Cons by simp
    note step = member_name_loop.simps [of angle "b # p @ modified_utf8 t @ 0 # r"]
    show ?thesis
    proof (cases "c = 0x3e")
      case True
      obtain d q where "modified_utf8 t @ 0 # r = d # q" "d = 0 \<longleftrightarrow> t = []" by (rule terminated_zero)
      moreover have "p = []" using True b(1) by (simp add: encode_utf16_def)
      ultimately show ?thesis
        using True b(2) byte unfolding s step by (auto simp: Cons member_accepts_close)
    next
      case False
      then have other: "member_name_loop angle (modified_utf8 s @ 0 # r) =
          (case IsValidPartOfMemberNameUtf8 (modified_utf8 s @ 0 # r) of None \<Rightarrow> None
           | Some (ok, s) \<Rightarrow> if ok then member_name_loop angle s else Some False)"
        using b(2) byte unfolding s step by simp
      show ?thesis
      proof (cases rule: part_string [of c t r])
        case (bad q)
        then show ?thesis using other member_accepts_no_char [OF bad(2)] False by (simp add: Cons)
      next
        case (good m u)
        have "m \<noteq> []" using good(2) by (auto elim: name_char_hd)
        then have "length u < length s" using good(3) Cons by (metis length_append less_add_same_cancel2 length_greater_0_conv)
        then show ?thesis
          using other good 1 [rule_format, of u] member_accepts_char [OF good(2), of angle u] by (simp add: Cons)
      qed
    qed
  qed
qed

text \<open>C35: The descriptor check, run on the encoding of any UTF-16 string, decides the grammar of type
  descriptors: up to 255 brackets in front of a primitive letter or of a class name between \<open>L\<close> and
  \<open>;\<close>, and void without brackets. The two class name checks decide class names with dots or slashes
  as separators, and accept an array only in its descriptor form.\<close>
theorem descriptor_check_exact:
  "IsValidDescriptor (concat (map encode_utf16 s) @ 0 # r) = Some (descriptor 0x2f s) \<and>
   IsValidJniClassName (concat (map encode_utf16 s) @ 0 # r) =
     Some (if s \<noteq> [] \<and> hd s = 0x5b then descriptor 0x2f s else class_name 0x2f s) \<and>
   IsValidBinaryClassName (concat (map encode_utf16 s) @ 0 # r) =
     Some (if s \<noteq> [] \<and> hd s = 0x5b then descriptor 0x2e s else class_name 0x2e s)"
proof -
  let ?k = "length (takeWhile (\<lambda>c. c = 0x5b) s)" and ?e = "dropWhile (\<lambda>c. c = 0x5b) s"
  have k: "0 < ?k \<longleftrightarrow> s \<noteq> [] \<and> hd s = 0x5b" by (cases s) auto
  have e: "?e = s" if "\<not> 0 < ?k" using that by (cases s) auto
  have void: "?k = 0 \<and> ?e = [0x56] \<longleftrightarrow> s = [0x56]" using e by (cases s) auto
  have check: "IsValidClassName type sep (modified_utf8 s @ 0 # r) =
      (if ?k > 255 then Some False
       else element_name (if 0 < ?k then kDescriptor else type) sep ?k (modified_utf8 ?e @ 0 # r))" for type sep
    unfolding IsValidClassName_def Let_def by (cases type) (simp_all add: brackets)
  have array: "(if ?k > 255 then Some False else element_name kDescriptor sep ?k (modified_utf8 ?e @ 0 # r)) =
      Some (descriptor (ucast sep) s)" if "sep \<in> {0x2e, 0x2f}" for sep
    using void by (auto simp: element_name_spec [OF that] descriptor_iff)
  have plain: "IsValidClassName kName sep (modified_utf8 s @ 0 # r) =
      Some (if s \<noteq> [] \<and> hd s = 0x5b then descriptor (ucast sep) s else class_name (ucast sep) s)"
    if "sep \<in> {0x2e, 0x2f}" for sep
    using array [OF that] k e element_name_spec(2) [OF that, of 0 s r] unfolding check by auto
  have "IsValidClassName kDescriptor 0x2f (modified_utf8 s @ 0 # r) = Some (descriptor 0x2f s)"
    using array [of "0x2f"] unfolding check by (simp split: if_splits)
  then show ?thesis
    using plain [of "0x2e"] plain [of "0x2f"]
    unfolding IsValidDescriptor_def IsValidJniClassName_def IsValidBinaryClassName_def by simp
qed

text \<open>C36: The member name check decides the grammar of member names on the encoding of any UTF-16
  string: a non-empty sequence of name characters, where a surrogate counts only in a pair, or a
  possibly empty one between angle brackets.\<close>
theorem member_name_check_exact:
  "IsValidMemberName (concat (map encode_utf16 s) @ 0 # r) =
     Some (simple_name s \<or> (\<exists>n. s = 0x3c # n @ [0x3e] \<and> (n = [] \<or> simple_name n)))"
proof (cases s)
  case Nil
  moreover have "\<not> simple_name []" using simple_name_iff [of "[]"] by (auto elim: name_char_hd)
  ultimately show ?thesis by (simp add: IsValidMemberName_def)
next
  case (Cons c t)
  obtain b p where b: "encode_utf16 c = b # p" "b \<noteq> 0"
    "\<And>x. 0 < x \<Longrightarrow> x \<le> 0x7f \<Longrightarrow> b = x \<longleftrightarrow> c = ucast x" by (rule first_byte) blast
  have byte: "b = 0x3c \<longleftrightarrow> c = 0x3c" by (simp add: b(3))
  have one: "p = []" if "c = 0x3c" using that b(1) by (simp add: encode_utf16_def)
  have s: "modified_utf8 s @ 0 # r = b # p @ modified_utf8 t @ 0 # r" using b(1) Cons by simp
  have no: "\<not> simple_name (0x3c # t)"
  proof
    assume "simple_name (0x3c # t)"
    then obtain m u where "name_char m" "0x3c # t = m @ u" using simple_name_iff [of "0x3c # t"] by blast
    then show False using name_char_no_delimiter [of m "0x3c" u t] by simp
  qed
  have "IsValidMemberName (modified_utf8 s @ 0 # r) =
      (if c = 0x3c then member_name_loop True (modified_utf8 t @ 0 # r)
       else member_name_loop False (modified_utf8 s @ 0 # r))"
    using b(2) byte one unfolding IsValidMemberName_def s by simp
  then have "IsValidMemberName (modified_utf8 s @ 0 # r) =
      Some (if c = 0x3c then member_accepts True t else member_accepts False s)"
    unfolding member_name_loop_spec by (cases "c = 0x3c") simp_all
  then show ?thesis using no by (auto simp: member_accepts_def Cons)
qed

section \<open>Dotted names and descriptors\<close>

lemma name_char_units: "name_char m \<Longrightarrow> c \<in> set m \<Longrightarrow> ascii_name_char c \<or> 0x7f < c"
  using high_name_char_large leading_surrogate_large
  by (auto simp: name_char_shape trailing_surrogate_def word_le_nat_alt word_less_nat_alt)

lemma simple_name_units: "simple_name n \<Longrightarrow> c \<in> set n \<Longrightarrow> ascii_name_char c \<or> 0x7f < c"
  by (induction rule: simple_name.induct) (auto dest: name_char_units)

lemma simple_name_no_separator: "simple_name n \<Longrightarrow> 0x2e \<notin> set n \<and> 0x2f \<notin> set n"
  using simple_name_units [of n "0x2e"] simple_name_units [of n "0x2f"] not_name_chars by auto

definition replace_unit :: "u16 \<Rightarrow> u16 \<Rightarrow> u16 list \<Rightarrow> u16 list" where
  "replace_unit a b s = map (\<lambda>c. if c = a then b else c) s"

lemma replace_unit_absent: "a \<notin> set s \<Longrightarrow> replace_unit a b s = s"
  by (induction s) (auto simp: replace_unit_def)

lemma byte_in_encode:
  assumes "a \<in> set (encode_utf16 c)" "0 < a" "a \<le> 0x7f"
  shows "c = ucast a"
proof -
  obtain b p where b: "encode_utf16 c = b # p" "\<And>x. 0 < x \<Longrightarrow> x \<le> 0x7f \<Longrightarrow> b = x \<longleftrightarrow> c = ucast x"
    by (rule first_byte) blast
  have a: "\<not> bit a 7" using assms(3) byte_gt_7f_bit [of a] by auto
  have "a = b" using assms(1) a b(1) by (cases c rule: encode_utf16_shape) auto
  then show ?thesis using b(2) [OF assms(2,3)] by simp
qed

lemma replace_byte_utf8:
  assumes "a \<in> {0x2e, 0x2f}" "b \<in> {0x2e, 0x2f}"
  shows "replace_byte a b (modified_utf8 s) = modified_utf8 (replace_unit (ucast a) (ucast b) s)"
proof (induction s)
  case (Cons c s)
  have "replace_byte a b (encode_utf16 c) = encode_utf16 (if c = ucast a then ucast b else c)"
  proof (cases "c = ucast a")
    case True
    have "encode_utf16 (ucast x) = [x]" if "x \<in> {0x2e, 0x2f}" for x
      using that encode_one [of x] byte_gt_7f_bit [of x] by auto
    then show ?thesis using True assms by (simp add: replace_byte_def)
  next
    case False
    then have "a \<notin> set (encode_utf16 c)" using byte_in_encode [of a c] assms(1) by auto
    then have "replace_byte a b (encode_utf16 c) = encode_utf16 c"
      unfolding replace_byte_def by (intro map_idI) auto
    then show ?thesis using False by simp
  qed
  with Cons show ?case by (simp add: replace_byte_def replace_unit_def)
qed (simp add: replace_byte_def replace_unit_def)

lemma replace_unit_simps [simp]:
  "replace_unit a b (s @ t) = replace_unit a b s @ replace_unit a b t"
  "replace_unit a b (c # s) = (if c = a then b else c) # replace_unit a b s"
  "replace_unit a b s = [] \<longleftrightarrow> s = []"
  by (simp_all add: replace_unit_def)

lemma class_name_replace: "class_name 0x2e s \<Longrightarrow> class_name 0x2f (replace_unit 0x2e 0x2f s)"
  by (induction rule: class_name.induct)
    (auto simp: replace_unit_absent simple_name_no_separator intro: class_name.intros)

lemma class_name_replace_back: "class_name 0x2e s \<Longrightarrow> replace_unit 0x2f 0x2e (replace_unit 0x2e 0x2f s) = s"
  by (induction rule: class_name.induct) (auto simp: replace_unit_absent simple_name_no_separator)

text \<open>C37: A dotted class name becomes a well formed descriptor of a class, and the way back returns the
  name.\<close>
theorem dotted_name_round_trip:
  assumes "class_name 0x2e s"
  shows "\<exists>d. DotToDescriptor (concat (map encode_utf16 s)) = concat (map encode_utf16 d) \<and>
    descriptor 0x2f d \<and> DescriptorToDot (concat (map encode_utf16 d)) = concat (map encode_utf16 s)"
proof -
  let ?c = "replace_unit 0x2e 0x2f s"
  have c: "class_name 0x2f ?c" using assms by (rule class_name_replace)
  obtain b p where b: "modified_utf8 ?c = b # p" "b \<noteq> 0x5b"
  proof -
    obtain x t where x: "?c = x # t" using class_name_nonempty [OF c] by (cases ?c) auto
    then have "x \<noteq> 0x5b" using class_name_delimiter [OF c, of "0x5b" "[]" t] by auto
    moreover obtain b p where "encode_utf16 x = b # p"
      "\<And>y. 0 < y \<Longrightarrow> y \<le> 0x7f \<Longrightarrow> b = y \<longleftrightarrow> x = ucast y" by (rule first_byte) blast
    moreover from this(2) [of "0x5b"] have "b = 0x5b \<longleftrightarrow> x = 0x5b" by simp
    ultimately show thesis using that x by simp
  qed
  have ends: "modified_utf8 (0x4c # ?c @ [0x3b]) = 0x4c # modified_utf8 ?c @ [0x3b]"
    by (simp add: encode_utf16_def)
  then have "DotToDescriptor (modified_utf8 s) = modified_utf8 (0x4c # ?c @ [0x3b])"
    using b replace_byte_utf8 [of "0x2e" "0x2f" s] by (simp add: DotToDescriptor_def Let_def)
  moreover have "descriptor 0x2f (0x4c # ?c @ [0x3b])"
    using descriptor.array [of 0 "0x2f", OF _ element_descriptor.reference [OF c]] by simp
  moreover have "DescriptorToDot (modified_utf8 (0x4c # ?c @ [0x3b])) = modified_utf8 s"
    unfolding ends using replace_byte_utf8 [of "0x2f" "0x2e" ?c] class_name_replace_back [OF assms]
    by (simp add: DescriptorToDot_def butlast_append)
  ultimately show ?thesis by blast
qed

lemma dotted_name_sample: "class_name 0x2e [0x61, 0x2e, 0x42]"
proof -
  have "simple_name [0x61]" "simple_name [0x42]"
    by (auto intro!: simple_name.single name_char.ascii_char simp: ascii_name_char_def)
  then show ?thesis using class_name.package [of "[0x61]" "0x2e" "[0x42]"] class_name.simple by simp
qed

theorem dotted_name_round_trip_witness:
  "\<exists>d. DotToDescriptor (concat (map encode_utf16 [0x61, 0x2e, 0x42])) = concat (map encode_utf16 d) \<and>
    descriptor 0x2f d \<and> DescriptorToDot (concat (map encode_utf16 d)) = [0x61, 0x2e, 0x42]"
  using dotted_name_round_trip [OF dotted_name_sample] by (simp add: encode_utf16_def)

section \<open>Mangled names\<close>

abbreviation mangle :: "u16 list \<Rightarrow> u8 list" where
  "mangle s \<equiv> concat (map mangle_char s)"

lemma MangleForJni_encode: "MangleForJni (modified_utf8 s) = Some (mangle s)"
proof -
  have "mangle_loop (length s) (modified_utf8 s @ r) = Some (mangle s)" for r
    by (induction s) (simp_all add: GetUtf16FromUtf8_encode del: GetUtf16FromUtf8.simps)
  then show ?thesis
    using count_chars_terminated [of 0 s "[]"] by (simp add: MangleForJni_def CountModifiedUtf8Chars_def)
qed

text \<open>The three kinds of code units for the mangling: copied, separators, and escaped.\<close>

definition alnum :: "'a::len word \<Rightarrow> bool" where
  "alnum c \<longleftrightarrow> 0x41 \<le> c \<and> c \<le> 0x5a \<or> 0x61 \<le> c \<and> c \<le> 0x7a \<or> 0x30 \<le> c \<and> c \<le> 0x39"

definition escape :: "u16 \<Rightarrow> u8 list" where
  "escape c = (if c = 0x5f then [0x31] else if c = 0x3b then [0x32] else if c = 0x5b then [0x33] else 0x30 # hex4 c)"

lemma mangle_char_kinds:
  "mangle_char c = (if alnum c then [ucast c] else if c = 0x2e \<or> c = 0x2f then [0x5f] else 0x5f # escape c)"
  by (auto simp: mangle_char_def alnum_def escape_def)

lemma alnum_byte: "alnum c \<Longrightarrow> alnum (ucast c :: u8) \<and> ucast (ucast c :: u8) = c \<and> (ucast c :: u8) \<noteq> 0x5f" for c :: u16
proof -
  assume c: "alnum c"
  then have "0 < c" "c \<le> 0x7f" by (auto simp: alnum_def word_le_nat_alt word_less_nat_alt)
  then have u: "ucast (ucast c :: u8) = c" by (rule encode_ascii_byte)
  have "unat (ucast c :: u8) = unat c"
    using \<open>c \<le> 0x7f\<close> take_bit_small [of c 8]
    by (simp add: unsigned_ucast_eq word_le_nat_alt take_bit_nat_eq_self)
  then have "alnum (ucast c :: u8)" using c by (simp add: alnum_def word_le_nat_alt)
  moreover have "\<not> alnum (0x5f :: u8)" by (simp add: alnum_def)
  ultimately show ?thesis using u by auto
qed

lemma hex_digit_inject: "a < 16 \<Longrightarrow> b < 16 \<Longrightarrow> hex_digit a = hex_digit b \<Longrightarrow> a = b"
proof -
  have "\<forall>a\<in>set [0..<16]. \<forall>b\<in>set [0..<16]. hex_digit a = hex_digit b \<longrightarrow> a = b" by code_simp
  then show "a < 16 \<Longrightarrow> b < 16 \<Longrightarrow> hex_digit a = hex_digit b \<Longrightarrow> a = b" by simp
qed

lemma hex4_inject:
  assumes "hex4 a = hex4 b"
  shows "a = b"
proof -
  have nib: "unat (x AND 0xf) < 16" for x :: u16 
    using less_exp_iff_bits [of "take_bit 4 x" 4] by (auto simp: and_masks bit_simps)
  have "shr a (4 * i) AND 0xf = shr b (4 * i) AND 0xf" if "i < 4" for i
  proof -
    have "i \<in> set [3, 2, 1, 0]" using that by auto
    then have "hex_digit (unat (shr a (4 * i) AND 0xf)) = hex_digit (unat (shr b (4 * i) AND 0xf))"
      using assms unfolding hex4_def map_eq_conv by blast
    then show ?thesis using hex_digit_inject nib by (simp add: word_unat_eq_iff)
  qed
  then have eq: "take_bit 4 (shr a (4 * i)) = take_bit 4 (shr b (4 * i))" if "i < 4" for i
    using that by (simp add: and_masks)
  show ?thesis
  proof (rule bit_word_eqI)
    fix n assume n: "n < LENGTH(16)"
    then have "n div 4 < 4" by simp
    from eq [OF this] have "bit (take_bit 4 (shr a (4 * (n div 4)))) (n mod 4) =
        bit (take_bit 4 (shr b (4 * (n div 4)))) (n mod 4)" by simp
    then show "bit a n \<longleftrightarrow> bit b n" by (simp add: bit_simps)
  qed
qed

lemma escape_inject:
  assumes "escape a @ p = escape b @ q"
  shows "a = b \<and> p = q"
proof -
  have "length (hex4 c) = 4" for c by (simp add: hex4_def)
  then show ?thesis
    using assms hex4_inject [of a b] by (auto simp: escape_def split: if_splits)
qed

lemma escape_hd: "\<exists>t. escape c = 0x30 # t \<or> escape c = 0x31 # t \<or> escape c = 0x32 # t \<or> escape c = 0x33 # t"
  by (simp add: escape_def)

text \<open>
  A name is safe to mangle if it has no dots and no digit from 0 to 3 right behind a slash: such a
  digit would turn the underscore of the slash into an escape.
\<close>

definition escape_digit :: "u16 \<Rightarrow> bool" where
  "escape_digit c \<longleftrightarrow> 0x30 \<le> c \<and> c \<le> 0x33"

fun mangle_safe :: "u16 list \<Rightarrow> bool" where
  "mangle_safe [] = True"
| "mangle_safe (c # s) \<longleftrightarrow> c \<noteq> 0x2e \<and> (c = 0x2f \<longrightarrow> s = [] \<or> \<not> escape_digit (hd s)) \<and> mangle_safe s"

lemma mangle_not_escape:
  assumes "s = [] \<or> \<not> escape_digit (hd s)"
  shows "mangle s \<noteq> escape c @ p"
proof
  assume *: "mangle s = escape c @ p"
  obtain b t where bt: "escape c = b # t" "b \<in> {0x30, 0x31, 0x32, 0x33}" using escape_hd [of c] by auto
  then obtain d s' where s: "s = d # s'" using * by (cases s) auto
  have "mangle_char d @ mangle s' = b # t @ p" using * s bt(1) by simp
  then have "alnum d" "ucast d = b" using bt(2) by (auto simp: mangle_char_kinds split: if_splits)
  then have "d = ucast b" using alnum_byte by auto
  then show False using assms s bt(2) by (auto simp: escape_digit_def)
qed

lemma mangle_inject: "mangle_safe s \<Longrightarrow> mangle_safe t \<Longrightarrow> mangle s = mangle t \<Longrightarrow> s = t"
proof (induction s arbitrary: t)
  case Nil
  then show ?case by (cases t) (auto simp: mangle_char_kinds split: if_splits)
next
  case (Cons a s)
  then obtain b t' where t: "t = b # t'"
    by (cases t) (auto simp: mangle_char_kinds split: if_splits)
  have eq: "mangle_char a @ mangle s = mangle_char b @ mangle t'" using Cons.prems(3) t by simp
  have safe: "a \<noteq> 0x2e" "b \<noteq> 0x2e" "mangle_safe s" "mangle_safe t'"
    "a = 0x2f \<longrightarrow> s = [] \<or> \<not> escape_digit (hd s)" "b = 0x2f \<longrightarrow> t' = [] \<or> \<not> escape_digit (hd t')"
    using Cons.prems(1,2) t by auto
  have "a = b \<and> mangle s = mangle t'"
  proof (cases "alnum a \<or> alnum b")
    case True
    have "mangle_char x = [ucast x]" "(ucast x :: u8) \<noteq> 0x5f" if "alnum x" for x
      using that alnum_byte [of x] by (simp_all add: mangle_char_kinds)
    moreover have "\<exists>r. mangle_char x = 0x5f # r" if "\<not> alnum x" for x
      using that by (simp add: mangle_char_kinds)
    ultimately have "alnum a" "alnum b" and *: "ucast a = (ucast b :: u8)" "mangle s = mangle t'"
      using eq True by (cases "alnum a"; cases "alnum b"; fastforce)+
    have "ucast (ucast a :: u8) = a" using alnum_byte [OF \<open>alnum a\<close>] by (elim conjE)
    moreover have "ucast (ucast b :: u8) = b" using alnum_byte [OF \<open>alnum b\<close>] by (elim conjE)
    ultimately have "a = b" using arg_cong [OF *(1), of ucast] by (metis (no_types))
    then show ?thesis using *(2) by (rule conjI)
  next
    case False
    then have "mangle_char x = (if x = 0x2f then [0x5f] else 0x5f # escape x)" if "x \<in> {a, b}" for x
      using safe(1,2) that by (auto simp: mangle_char_kinds)
    with eq have tail: "(if a = 0x2f then mangle s else escape a @ mangle s) =
        (if b = 0x2f then mangle t' else escape b @ mangle t')" by (simp split: if_splits)
    consider "a = 0x2f" "b = 0x2f" | "a = 0x2f" "b \<noteq> 0x2f" | "a \<noteq> 0x2f" "b = 0x2f" | "a \<noteq> 0x2f" "b \<noteq> 0x2f"
      by blast
    then show ?thesis
    proof cases
      case 2
      then have "mangle s = escape b @ mangle t'" using tail by simp
      then show ?thesis using mangle_not_escape safe(5) 2(1) by blast
    next
      case 3
      then have "mangle t' = escape a @ mangle s" using tail by simp
      then show ?thesis using mangle_not_escape safe(6) 3(2) by blast
    next
      case 4
      then show ?thesis using tail escape_inject by simp
    qed (use tail in simp)
  qed
  then show ?case using Cons.IH [of t'] safe t by simp
qed

text \<open>C38: The short native name of a method identifies it: two methods whose class names and method names
  are valid, with slashes as separators and no digit from 0 to 3 at the start of a component behind the
  first or of the method name, and whose mangled names agree, have the same class name and the same
  method name.\<close>
theorem jni_short_name_injective:
  assumes "mangle_safe (c @ 0x2f # m)" "mangle_safe (c' @ 0x2f # m')" "0x2f \<notin> set m" "0x2f \<notin> set m'"
    and "JniShortName (concat (map encode_utf16 (0x4c # c @ [0x3b]))) (concat (map encode_utf16 m)) = Some name"
    and "JniShortName (concat (map encode_utf16 (0x4c # c' @ [0x3b]))) (concat (map encode_utf16 m')) = Some name"
  shows "c = c' \<and> m = m'"
proof -
  have short: "JniShortName (modified_utf8 (0x4c # c @ [0x3b])) (modified_utf8 m) =
      Some (map ascii ''Java_'' @ mangle (c @ 0x2f # m))" for c m
    by (simp add: JniShortName_def encode_utf16_def MangleForJni_encode butlast_append mangle_char_kinds alnum_def)
  from assms(5,6) have "mangle (c @ 0x2f # m) = mangle (c' @ 0x2f # m')"
    unfolding short by (metis option.inject append_same_eq same_append_eq)
  then have "c @ 0x2f # m = c' @ 0x2f # m'" using mangle_inject assms(1,2) by blast
  then have *: "rev m @ 0x2f # rev c = rev m' @ 0x2f # rev c'"
    by (metis append.assoc append_Cons append_Nil rev.simps(2) rev_append)
  have "takeWhile (\<lambda>x. x \<noteq> 0x2f) (rev n @ 0x2f # d) = rev n" if "0x2f \<notin> set n" for n d
    using that by (subst takeWhile_append2) auto
  from this [OF assms(3), of "rev c"] this [OF assms(4), of "rev c'"] have "rev m = rev m'"
    unfolding * by simp
  with * show ?thesis by simp
qed

theorem jni_short_name_injective_witness:
  "mangle_safe ([0x61, 0x2f, 0x42] @ 0x2f # [0x66, 0x5f]) \<and>
   JniShortName (concat (map encode_utf16 (0x4c # [0x61, 0x2f, 0x42] @ [0x3b])))
      (concat (map encode_utf16 [0x66, 0x5f])) = Some (map ascii ''Java_a_B_f_1'') \<and>
   (\<exists>!p. mangle_safe (fst p @ 0x2f # snd p) \<and> 0x2f \<notin> set (snd p) \<and>
     JniShortName (concat (map encode_utf16 (0x4c # fst p @ [0x3b]))) (concat (map encode_utf16 (snd p))) =
       Some (map ascii ''Java_a_B_f_1''))"
proof -
  let ?c = "[0x61, 0x2f, 0x42] :: u16 list" and ?m = "[0x66, 0x5f] :: u16 list"
  have name: "JniShortName (concat (map encode_utf16 (0x4c # ?c @ [0x3b]))) (concat (map encode_utf16 ?m)) =
      Some (map ascii ''Java_a_B_f_1'')" by code_simp
  have safe: "mangle_safe (?c @ 0x2f # ?m)" "0x2f \<notin> set ?m" by (simp_all add: escape_digit_def)
  have only: "p = (?c, ?m)" if "mangle_safe (fst p @ 0x2f # snd p)" "0x2f \<notin> set (snd p)"
    "JniShortName (concat (map encode_utf16 (0x4c # fst p @ [0x3b]))) (concat (map encode_utf16 (snd p))) =
      Some (map ascii ''Java_a_B_f_1'')" for p
    using jni_short_name_injective [OF that(1) safe(1) that(2) safe(2) that(3) name] by (simp add: prod_eq_iff)
  show ?thesis
    by (intro conjI safe(1) name, rule ex1I [of _ "(?c, ?m)"], unfold fst_conv snd_conv,
        intro conjI safe name, elim conjE, rule only)
qed

end
