(* ===== verification/HashSet.thy ===== *)
theory HashSet
  imports ART_Prelude "HOL-Library.Multiset" "HOL-Library.Monad_Syntax"
begin

text \<open>
  The open addressing hash set of \<^verbatim>\<open>runtime/base/hash_set.h\<close>, which the intern table and the class
  tables are made of. A bucket is an option, \<^const>\<open>None\<close> the empty element of \<^verbatim>\<open>EmptyFn\<close>; the hash
  function and the predicate are parameters. The probe loops have no bound in the source and are
  partial functions here: a result \<^const>\<open>None\<close> means that the loop does not end, that the remainder
  by the number of buckets divides by zero, or that an index is out of range.

  The load factors are the constants 0.5 and 0.9. With fewer than two to the 50 buckets, the
  truncated double products and quotients are the integer expressions below.
\<close>

section \<open>The table\<close>

record 'a hash_set =
  num_elements :: nat
  elements_until_expand :: nat
  data :: "'a option list"

definition kMinBuckets :: nat where
  "kMinBuckets = 1000"

definition NumBuckets :: "'a hash_set \<Rightarrow> nat" where
  "NumBuckets s = length (data s)"

definition IndexForHash :: "'a option list \<Rightarrow> nat \<Rightarrow> nat option" where
  "IndexForHash d hash = (if length d = 0 then None else Some (hash mod length d))"

definition NextIndex :: "nat \<Rightarrow> nat \<Rightarrow> nat" where
  "NextIndex num_buckets index = (if index + 1 \<ge> num_buckets then 0 else index + 1)"

definition AllocateStorage :: "nat \<Rightarrow> 'a option list" where
  "AllocateStorage num_buckets = replicate num_buckets None"

definition Clear :: "'a hash_set" where
  "Clear = \<lparr>num_elements = 0, elements_until_expand = 0, data = AllocateStorage 1\<rparr>"

partial_function (option) FirstAvailableSlot :: "'a option list \<Rightarrow> nat \<Rightarrow> nat option" where
  [code]: "FirstAvailableSlot d index =
     (if index < length d then
        if d ! index \<noteq> None then FirstAvailableSlot d (NextIndex (length d) index) else Some index
      else None)"

section \<open>Growing and inserting\<close>

primrec reinsert :: "('a \<Rightarrow> nat) \<Rightarrow> 'a option list \<Rightarrow> 'a option list \<Rightarrow> 'a option list option" where
  "reinsert hashfn [] d = Some d"
| "reinsert hashfn (x # old) d =
     (case x of
        None \<Rightarrow> reinsert hashfn old d
      | Some element \<Rightarrow> do {
          ideal \<leftarrow> IndexForHash d (hashfn element);
          slot \<leftarrow> FirstAvailableSlot d ideal;
          reinsert hashfn old (d[slot := Some element])
        })"

definition Resize :: "('a \<Rightarrow> nat) \<Rightarrow> nat \<Rightarrow> 'a hash_set \<Rightarrow> 'a hash_set option" where
  "Resize hashfn new_size s = do {
     d \<leftarrow> reinsert hashfn (data s) (AllocateStorage new_size);
     Some (s\<lparr>data := d\<rparr>)
   }"

definition Expand :: "('a \<Rightarrow> nat) \<Rightarrow> 'a hash_set \<Rightarrow> 'a hash_set option" where
  "Expand hashfn s = do {
     let min_index = num_elements s * 2;
     let min_index = (if min_index < kMinBuckets then kMinBuckets else min_index);
     s \<leftarrow> Resize hashfn min_index s;
     Some (s\<lparr>elements_until_expand := NumBuckets s * 9 div 10\<rparr>)
   }"

definition ShrinkToMaximumLoad :: "('a \<Rightarrow> nat) \<Rightarrow> 'a hash_set \<Rightarrow> 'a hash_set option" where
  "ShrinkToMaximumLoad hashfn s = Resize hashfn (num_elements s * 10 div 9) s"

definition InsertWithHash :: "('a \<Rightarrow> nat) \<Rightarrow> 'a \<Rightarrow> nat \<Rightarrow> 'a hash_set \<Rightarrow> 'a hash_set option" where
  "InsertWithHash hashfn element hash s = do {
     s \<leftarrow> (if num_elements s \<ge> elements_until_expand s then Expand hashfn s else Some s);
     ideal \<leftarrow> IndexForHash (data s) hash;
     index \<leftarrow> FirstAvailableSlot (data s) ideal;
     Some (s\<lparr>data := (data s)[index := Some element], num_elements := num_elements s + 1\<rparr>)
   }"

definition Insert :: "('a \<Rightarrow> nat) \<Rightarrow> 'a \<Rightarrow> 'a hash_set \<Rightarrow> 'a hash_set option" where
  "Insert hashfn element s = InsertWithHash hashfn element (hashfn element) s"

section \<open>Finding and iterating\<close>

text \<open>An iterator is its index; \<^verbatim>\<open>end()\<close> is the number of buckets.\<close>

partial_function (option) find_loop :: "('a \<Rightarrow> 'k \<Rightarrow> bool) \<Rightarrow> 'a option list \<Rightarrow> 'k \<Rightarrow> nat \<Rightarrow> nat option" where
  [code]: "find_loop pred d element index =
     (if index < length d then
        case d ! index of
          None \<Rightarrow> Some (length d)
        | Some slot \<Rightarrow>
            if pred slot element then Some index
            else find_loop pred d element (NextIndex (length d) index)
      else None)"

definition FindWithHash :: "('a \<Rightarrow> 'k \<Rightarrow> bool) \<Rightarrow> 'a hash_set \<Rightarrow> 'k \<Rightarrow> nat \<Rightarrow> nat option" where
  "FindWithHash pred s element hash = do {
     index \<leftarrow> IndexForHash (data s) hash;
     find_loop pred (data s) element index
   }"

definition NextNonEmptySlot :: "'a option list \<Rightarrow> nat \<Rightarrow> nat" where
  "NextNonEmptySlot d index = index + 1 + length (takeWhile (\<lambda>x. x = None) (drop (index + 1) d))"

definition begin_index :: "'a hash_set \<Rightarrow> nat" where
  "begin_index s = (if NumBuckets s \<noteq> 0 \<and> data s ! 0 = None then NextNonEmptySlot (data s) 0 else 0)"

definition Empty :: "'a hash_set \<Rightarrow> bool" where
  "Empty s \<longleftrightarrow> begin_index s = NumBuckets s"

section \<open>Erasing\<close>

partial_function (option) erase_loop ::
  "('a \<Rightarrow> nat) \<Rightarrow> 'a option list \<Rightarrow> nat \<Rightarrow> nat \<Rightarrow> bool \<Rightarrow> ('a option list \<times> bool) option" where
  [code]: "erase_loop hashfn d empty_index next_index filled =
     (let next_index = NextIndex (length d) next_index in
      if next_index < length d then
        case d ! next_index of
          None \<Rightarrow> Some (d[empty_index := None], filled)
        | Some next_element \<Rightarrow>
            Option.bind (IndexForHash d (hashfn next_element)) (\<lambda>next_ideal_index.
              let unwrapped_next_index =
                    (if next_index < empty_index then next_index + length d else next_index);
                  unwrapped_next_ideal_index =
                    (if next_ideal_index < empty_index then next_ideal_index + length d else next_ideal_index) in
              if unwrapped_next_ideal_index \<le> empty_index \<or> unwrapped_next_ideal_index > unwrapped_next_index
              then erase_loop hashfn (d[empty_index := Some next_element]) next_index next_index True
              else erase_loop hashfn d empty_index next_index filled)
      else None)"

definition Erase :: "('a \<Rightarrow> nat) \<Rightarrow> nat \<Rightarrow> 'a hash_set \<Rightarrow> ('a hash_set \<times> nat) option" where
  "Erase hashfn it s = do {
     (d, filled) \<leftarrow> erase_loop hashfn (data s) it it False;
     Some (s\<lparr>data := d, num_elements := num_elements s - 1\<rparr>,
           if filled then it else NextNonEmptySlot d it)
   }"

section \<open>Checking\<close>

definition misplaced :: "('a \<Rightarrow> nat) \<Rightarrow> 'a option list \<Rightarrow> nat \<Rightarrow> bool option" where
  "misplaced hashfn d i =
     (case d ! i of
        None \<Rightarrow> Some False
      | Some temp \<Rightarrow> do {
          ideal \<leftarrow> IndexForHash d (hashfn temp);
          first_slot \<leftarrow> FirstAvailableSlot (d[i := None]) ideal;
          Some (i \<noteq> first_slot)
        })"

primrec count_misplaced :: "('a \<Rightarrow> nat) \<Rightarrow> 'a option list \<Rightarrow> nat list \<Rightarrow> nat option" where
  "count_misplaced hashfn d [] = Some 0"
| "count_misplaced hashfn d (i # is) = do {
     bad \<leftarrow> misplaced hashfn d i;
     errors \<leftarrow> count_misplaced hashfn d is;
     Some (if bad then errors + 1 else errors)
   }"

definition Verify :: "('a \<Rightarrow> nat) \<Rightarrow> 'a hash_set \<Rightarrow> nat option" where
  "Verify hashfn s = count_misplaced hashfn (data s) [0..<NumBuckets s]"

section \<open>Distances around the table\<close>

definition gap :: "nat \<Rightarrow> nat \<Rightarrow> nat \<Rightarrow> nat" where
  "gap n a b = (if a \<le> b then b - a else b + n - a)"

lemma gap_self [simp]: "gap n a a = 0"
  by (simp add: gap_def)

lemma gap_less: "a < n \<Longrightarrow> b < n \<Longrightarrow> gap n a b < n"
  by (auto simp: gap_def)

lemma gap_eq_0: "a < n \<Longrightarrow> b < n \<Longrightarrow> gap n a b = 0 \<longleftrightarrow> a = b"
  by (auto simp: gap_def)

lemma gap_inject: "a < n \<Longrightarrow> b < n \<Longrightarrow> c < n \<Longrightarrow> gap n a b = gap n a c \<longleftrightarrow> b = c"
  by (auto simp: gap_def split: if_splits)

lemma NextIndex_less: "i < n \<Longrightarrow> NextIndex n i < n"
  by (simp add: NextIndex_def)

lemma gap_NextIndex:
  "a < n \<Longrightarrow> i < n \<Longrightarrow> NextIndex n i \<noteq> a \<Longrightarrow> gap n a (NextIndex n i) = gap n a i + 1"
  by (auto simp: gap_def NextIndex_def)

lemma gap_from_NextIndex: "i < n \<Longrightarrow> z < n \<Longrightarrow> i \<noteq> z \<Longrightarrow> gap n i z = gap n (NextIndex n i) z + 1"
  by (auto simp: gap_def NextIndex_def)

text \<open>The slots strictly between two positions, walking forward.\<close>

lemma gap_between: "a < n \<Longrightarrow> b < n \<Longrightarrow> j < n \<Longrightarrow> gap n a j < gap n a b \<Longrightarrow> gap n j b < gap n a b \<or> j = a"
  by (auto simp: gap_def split: if_splits)

lemma gap_trans: "a < n \<Longrightarrow> b < n \<Longrightarrow> c < n \<Longrightarrow> gap n a b \<le> gap n a c \<Longrightarrow> gap n a c = gap n a b + gap n b c"
  by (auto simp: gap_def split: if_splits)

section \<open>Probing\<close>

definition probed :: "'a option list \<Rightarrow> nat \<Rightarrow> nat \<Rightarrow> bool" where
  "probed d a b \<longleftrightarrow> (\<forall>j < length d. gap (length d) a j < gap (length d) a b \<longrightarrow> d ! j \<noteq> None)"

lemma probed_self [simp]: "probed d a a"
  by (simp add: probed_def)

lemma probed_NextIndex:
  assumes "a < length d" "i < length d" "d ! i \<noteq> None" "probed d a i" "NextIndex (length d) i \<noteq> a"
  shows "probed d a (NextIndex (length d) i)"
  using assms gap_inject [of a "length d" _ i] unfolding probed_def gap_NextIndex [OF assms(1,2,5)]
  by (metis less_Suc_eq add.commute plus_1_eq_Suc)

lemma probe_goes_on:
  assumes "a < length d" "i < length d" "z < length d" "d ! z = None" "probed d a i" "d ! i \<noteq> None"
  shows "NextIndex (length d) i \<noteq> a" "gap (length d) i z = gap (length d) (NextIndex (length d) i) z + 1"
proof -
  let ?n = "length d"
  have "i \<noteq> z" using assms(4,6) by auto
  then show "gap ?n i z = gap ?n (NextIndex ?n i) z + 1" by (rule gap_from_NextIndex [OF assms(2,3)])
  show "NextIndex ?n i \<noteq> a"
  proof
    assume "NextIndex ?n i = a"
    then have "gap ?n a i = ?n - 1" using assms(2) by (auto simp: gap_def NextIndex_def split: if_splits)
    moreover have "gap ?n a z < ?n" "gap ?n a z \<noteq> gap ?n a i"
      using gap_less gap_inject assms(1-3) \<open>i \<noteq> z\<close> by auto
    ultimately have "gap ?n a z < gap ?n a i" by linarith
    then show False using assms(3,4,5) by (auto simp: probed_def)
  qed
qed

lemma FirstAvailableSlot_spec:
  assumes "a < length d" "z < length d" "d ! z = None"
  obtains slot where "FirstAvailableSlot d a = Some slot" "slot < length d" "d ! slot = None" "probed d a slot"
proof -
  let ?n = "length d"
  have "\<exists>slot. FirstAvailableSlot d i = Some slot \<and> slot < ?n \<and> d ! slot = None \<and> probed d a slot"
    if "i < ?n" "probed d a i" for i
    using that
  proof (induction "gap ?n i z" arbitrary: i rule: less_induct)
    case (less i)
    show ?case
    proof (cases "d ! i = None")
      case True
      with less.prems show ?thesis by (subst FirstAvailableSlot.simps) simp
    next
      case False
      note on = probe_goes_on [OF assms(1) less.prems(1) assms(2,3) less.prems(2) False]
      have "probed d a (NextIndex ?n i)"
        by (rule probed_NextIndex [OF assms(1) less.prems(1) False less.prems(2) on(1)])
      with less.hyps [of "NextIndex ?n i"] on(2) NextIndex_less [OF less.prems(1)] False less.prems(1)
      show ?thesis by (subst FirstAvailableSlot.simps) simp
    qed
  qed
  from this [OF assms(1)] that show thesis by auto
qed

section \<open>Contents and invariant\<close>

definition contents :: "'a option list \<Rightarrow> 'a multiset" where
  "contents d = image_mset the (filter_mset (\<lambda>x. x \<noteq> None) (mset d))"

definition placed :: "('a \<Rightarrow> nat) \<Rightarrow> 'a option list \<Rightarrow> bool" where
  "placed hashfn d \<longleftrightarrow>
     (\<forall>i < length d. \<forall>x. d ! i = Some x \<longrightarrow> probed d (hashfn x mod length d) i)"

definition has_room :: "'a option list \<Rightarrow> bool" where
  "has_room d \<longleftrightarrow> (\<exists>z < length d. d ! z = None)"

lemma contents_simps [simp]:
  "contents [] = {#}"
  "contents (None # d) = contents d"
  "contents (Some x # d) = add_mset x (contents d)"
  "contents (replicate n None) = {#}"
  by (simp_all add: contents_def)

lemma contents_add: "i < length d \<Longrightarrow> d ! i = None \<Longrightarrow> contents (d[i := Some x]) = add_mset x (contents d)"
  by (simp add: contents_def mset_update)

lemma contents_remove:
  "i < length d \<Longrightarrow> d ! i = Some x \<Longrightarrow> contents (d[i := None]) = contents d - {#x#}"
  using contents_add [of i "d[i := None]" x] list_update_id [of d i] by simp

lemma in_contents: "x \<in># contents d \<longleftrightarrow> (\<exists>i < length d. d ! i = Some x)"
  by (auto simp: contents_def in_set_conv_nth image_iff)

lemma size_contents: "size (contents d) = length (filter (\<lambda>x. x \<noteq> None) d)"
  unfolding contents_def by (simp flip: mset_filter)

lemma has_room_iff: "has_room d \<longleftrightarrow> size (contents d) < length d"
proof -
  have "has_room d \<longleftrightarrow> None \<in> set d" by (auto simp: has_room_def in_set_conv_nth)
  also have "\<dots> \<longleftrightarrow> length (filter (\<lambda>x. x \<noteq> None) d) < length d"
    using length_filter_less [of None d "\<lambda>x. x \<noteq> None"] filter_id_conv [of "\<lambda>x. x \<noteq> None" d]
      length_filter_le [of "\<lambda>x. x \<noteq> None" d]
    by (metis nat_neq_iff)
  finally show ?thesis by (simp add: size_contents)
qed

lemma probed_mono:
  "probed d a b \<Longrightarrow> length d' = length d \<Longrightarrow> (\<And>j. j < length d \<Longrightarrow> d ! j \<noteq> None \<Longrightarrow> d' ! j \<noteq> None) \<Longrightarrow> probed d' a b"
  by (auto simp: probed_def)

lemma placed_insert:
  assumes "placed hashfn d" "slot < length d" "probed d (hashfn x mod length d) slot"
  shows "placed hashfn (d[slot := Some x])"
  unfolding placed_def
proof (intro allI impI)
  fix i y assume i: "i < length (d[slot := Some x])" "d[slot := Some x] ! i = Some y"
  have "probed d (hashfn y mod length d) i"
    using i assms by (cases "i = slot") (auto simp: placed_def)
  then show "probed (d[slot := Some x]) (hashfn y mod length (d[slot := Some x])) i"
    by (simp, rule probed_mono) (use assms(2) in \<open>simp_all add: nth_list_update\<close>)
qed

lemma insert_one:
  assumes "placed hashfn d" "has_room d"
  obtains ideal slot where "IndexForHash d (hashfn x) = Some ideal" "FirstAvailableSlot d ideal = Some slot"
    "slot < length d" "placed hashfn (d[slot := Some x])" "contents (d[slot := Some x]) = add_mset x (contents d)"
proof -
  obtain z where z: "z < length d" "d ! z = None" using assms(2) by (auto simp: has_room_def)
  let ?i = "hashfn x mod length d"
  have i: "?i < length d" using z(1) by (intro mod_less_divisor) auto
  obtain slot where "FirstAvailableSlot d ?i = Some slot" "slot < length d" "d ! slot = None" "probed d ?i slot"
    using FirstAvailableSlot_spec [OF i z] by blast
  moreover have "IndexForHash d (hashfn x) = Some ?i" using z(1) by (auto simp: IndexForHash_def)
  ultimately show thesis
    using that [of ?i slot] placed_insert [OF assms(1), of slot x] contents_add [of slot d x] by simp
qed

lemma reinsert_spec:
  assumes "placed hashfn d" "size (contents old) + size (contents d) \<le> length d"
  shows "\<exists>d'. reinsert hashfn old d = Some d' \<and> placed hashfn d' \<and> length d' = length d \<and>
    contents d' = contents old + contents d"
  using assms
proof (induction old arbitrary: d)
  case (Cons x old)
  show ?case
  proof (cases x)
    case None
    then show ?thesis using Cons by simp
  next
    case (Some y)
    then have "has_room d" using Cons.prems(2) by (simp add: has_room_iff)
    with Cons.prems(1) obtain ideal slot where s: "IndexForHash d (hashfn y) = Some ideal"
      "FirstAvailableSlot d ideal = Some slot" "slot < length d" "placed hashfn (d[slot := Some y])"
      "contents (d[slot := Some y]) = add_mset y (contents d)" by (rule insert_one)
    then show ?thesis using Cons.IH [OF s(4)] Cons.prems(2) Some by simp
  qed
qed simp

section \<open>Finding\<close>

lemma find_loop_spec:
  assumes "z < length d" "d ! z = None" "a < length d"
  assumes "i < length d" "probed d a i"
    and "\<And>j x. j < length d \<Longrightarrow> gap (length d) a j < gap (length d) a i \<Longrightarrow> d ! j = Some x \<Longrightarrow> \<not> pred x k"
  shows "\<exists>it. find_loop pred d k i = Some it \<and>
    (it < length d \<and> (\<exists>x. d ! it = Some x \<and> pred x k) \<or>
     it = length d \<and> (\<forall>j < length d. \<forall>x. d ! j = Some x \<longrightarrow> probed d a j \<longrightarrow> \<not> pred x k))"
  using assms(4-6)
proof (induction "gap (length d) i z" arbitrary: i rule: less_induct)
  case (less i)
  let ?n = "length d"
  consider "d ! i = None" | x where "d ! i = Some x" "pred x k" | x where "d ! i = Some x" "\<not> pred x k" by fastforce
  then show ?case
  proof cases
    case 1
    have "\<not> pred x k" if "j < ?n" "d ! j = Some x" "probed d a j" for j x
    proof -
      have "\<not> gap ?n a i < gap ?n a j" using that(3) 1 less.prems(1) by (auto simp: probed_def)
      moreover have "gap ?n a i \<noteq> gap ?n a j"
        using gap_inject [OF assms(3) less.prems(1) that(1)] 1 that(2) by auto
      ultimately show ?thesis using less.prems(3) [of j x] that by linarith
    qed
    then show ?thesis using 1 less.prems(1) by (subst find_loop.simps) auto
  next
    case 2
    then show ?thesis using less.prems(1) by (subst find_loop.simps) auto
  next
    case 3
    let ?i = "NextIndex ?n i"
    have next_i: "?i \<noteq> a" "gap ?n i z = gap ?n ?i z + 1"
      using probe_goes_on [OF assms(3) less.prems(1) assms(1,2) less.prems(2)] 3(1) by auto
    have "\<not> pred y k" if "j < ?n" "gap ?n a j < gap ?n a ?i" "d ! j = Some y" for j y
    proof (cases "j = i")
      case False
      then have "gap ?n a j \<noteq> gap ?n a i" using gap_inject [OF assms(3) that(1) less.prems(1)] by simp
      then have "gap ?n a j < gap ?n a i"
        using that(2) gap_NextIndex [OF assms(3) less.prems(1) next_i(1)] by simp
      then show ?thesis using less.prems(3) that by blast
    qed (use that 3 in simp)
    moreover have "probed d a ?i"
      using probed_NextIndex [OF assms(3) less.prems(1) _ less.prems(2) next_i(1)] 3(1) by simp
    ultimately show ?thesis
      using less.hyps [of ?i] next_i(2) NextIndex_less [OF less.prems(1)] 3 less.prems(1)
      by (subst find_loop.simps) simp
  qed
qed

section \<open>Erasing\<close>

text \<open>
  The state of the erase loop: \<open>e\<close> is the slot that will become empty, everything strictly behind it up
  to \<open>t\<close> is filled and reachable without it, and every other element is reachable as long as \<open>e\<close>
  counts as filled.
\<close>

definition erase_inv :: "('a \<Rightarrow> nat) \<Rightarrow> 'a option list \<Rightarrow> nat \<Rightarrow> nat \<Rightarrow> bool" where
  "erase_inv hashfn d e t \<longleftrightarrow>
     (let n = length d in e < n \<and> t < n \<and> d ! e \<noteq> None \<and>
      (\<forall>j < n. 0 < gap n e j \<longrightarrow> gap n e j \<le> gap n e t \<longrightarrow>
         (\<exists>x. d ! j = Some x \<and> probed (d[e := None]) (hashfn x mod n) j)) \<and>
      (\<forall>j < n. j \<noteq> e \<longrightarrow> (\<forall>x. d ! j = Some x \<longrightarrow> probed d (hashfn x mod n) j)))"

lemma probed_hole:
  assumes "probed d a i" "e < length d" "i < length d" "\<not> gap (length d) a e < gap (length d) a i"
  shows "probed (d[e := None]) a i"
  using assms unfolding probed_def by (auto simp: nth_list_update)

lemma gap_behind: 
  "a < n \<Longrightarrow> e < n \<Longrightarrow> i < n \<Longrightarrow> t < n \<Longrightarrow> gap n a e < gap n a i \<Longrightarrow> gap n e t < gap n e i \<Longrightarrow> gap n a t < gap n a i"
  by (auto simp: gap_def split: if_splits)

lemma gap_outside:
  "a < n \<Longrightarrow> e < n \<Longrightarrow> t < n \<Longrightarrow> gap n e a = 0 \<or> gap n e t < gap n e a \<Longrightarrow> gap n a e \<le> gap n a t"
  by (auto simp: gap_def split: if_splits)

lemma gap_inside:
  "a < n \<Longrightarrow> e < n \<Longrightarrow> t < n \<Longrightarrow> 0 < gap n e a \<Longrightarrow> gap n e a \<le> gap n e t \<Longrightarrow> \<not> gap n a e < gap n a t"
  by (auto simp: gap_def split: if_splits)

lemma erase_next:
  assumes "erase_inv hashfn d e t" "z < length d" "d ! z = None"
  shows "NextIndex (length d) t \<noteq> e" "gap (length d) t z = gap (length d) (NextIndex (length d) t) z + 1"
    "gap (length d) e (NextIndex (length d) t) = gap (length d) e t + 1"
proof -
  let ?n = "length d"
  from assms(1) have b: "e < ?n" "t < ?n" "d ! e \<noteq> None"
    and run: "\<And>j. j < ?n \<Longrightarrow> 0 < gap ?n e j \<Longrightarrow> gap ?n e j \<le> gap ?n e t \<Longrightarrow> d ! j \<noteq> None"
    by (auto simp: erase_inv_def Let_def)
  have "d ! t \<noteq> None" using b run [of t] gap_eq_0 [of e ?n t] by (cases "t = e") auto
  moreover have "probed d e t" unfolding probed_def using run b gap_eq_0 [of e ?n] by (metis less_imp_le neq0_conv)
  ultimately have on: "NextIndex ?n t \<noteq> e" "gap ?n t z = gap ?n (NextIndex ?n t) z + 1"
    using probe_goes_on [OF b(1,2) assms(2,3)] by blast+
  then show "NextIndex ?n t \<noteq> e" "gap ?n t z = gap ?n (NextIndex ?n t) z + 1" by blast+
  show "gap ?n e (NextIndex ?n t) = gap ?n e t + 1" by (rule gap_NextIndex [OF b(1,2) on(1)])
qed

lemma erase_done:
  assumes inv: "erase_inv hashfn d e t" and z: "z < length d" "d ! z = None"
    and free: "d ! NextIndex (length d) t = None"
  shows "placed hashfn (d[e := None])"
  unfolding placed_def
proof (intro allI impI)
  let ?n = "length d" and ?t = "NextIndex (length d) t"
  note next_t = erase_next [OF inv z]
  fix i x assume i': "i < length (d[e := None])" "d[e := None] ! i = Some x"
  from inv have b: "e < ?n" "t < ?n" by (auto simp: erase_inv_def Let_def)
  from i' b have i: "i < ?n" "i \<noteq> e" "d ! i = Some x" by (auto simp: nth_list_update split: if_splits)
  let ?a = "hashfn x mod ?n"
  have a: "?a < ?n" using b(1) by (intro mod_less_divisor) auto
  have t: "?t < ?n" by (rule NextIndex_less [OF b(2)])
  show "probed (d[e := None]) (hashfn x mod length (d[e := None])) i"
  proof (cases "gap ?n e i \<le> gap ?n e t")
    case True
    then show ?thesis using inv i gap_eq_0 [of e ?n i] b(1) by (auto simp: erase_inv_def Let_def)
  next
    case False
    have p: "probed d ?a i" using inv i by (auto simp: erase_inv_def Let_def)
    have "i \<noteq> ?t" using i(3) free by auto
    then have "gap ?n e ?t < gap ?n e i"
      using False next_t(3) gap_inject [OF b(1) i(1) t] by linarith
    then have "\<not> gap ?n ?a e < gap ?n ?a i"
      using gap_behind [OF a b(1) i(1) t] p free t by (auto simp: probed_def)
    then show ?thesis using probed_hole [OF p b(1) i(1)] by simp
  qed
qed

lemma erase_move:
  assumes inv: "erase_inv hashfn d e t" and z: "z < length d" "d ! z = None"
    and y: "d ! NextIndex (length d) t = Some y"
    and out: "gap (length d) e (hashfn y mod length d) = 0 \<or>
      gap (length d) e (NextIndex (length d) t) < gap (length d) e (hashfn y mod length d)"
  shows "erase_inv hashfn (d[e := Some y]) (NextIndex (length d) t) (NextIndex (length d) t)"
    and "contents (d[e := Some y, NextIndex (length d) t := None]) = contents (d[e := None])"
proof -
  let ?n = "length d" and ?t = "NextIndex (length d) t" and ?a = "hashfn y mod length d"
  note next_t = erase_next [OF inv z]
  from inv have b: "e < ?n" "t < ?n" by (auto simp: erase_inv_def Let_def)
  have a: "?a < ?n" using b(1) by (intro mod_less_divisor) auto
  have t: "?t < ?n" by (rule NextIndex_less [OF b(2)])
  have B: "probed d (hashfn x mod ?n) j" if "j < ?n" "j \<noteq> e" "d ! j = Some x" for j x
    using inv that by (auto simp: erase_inv_def Let_def)
  have "probed (d[e := Some y]) (hashfn x mod ?n) j"
    if j: "j < ?n" "j \<noteq> ?t" "d[e := Some y] ! j = Some x" for j x
  proof -
    have "probed d (hashfn x mod ?n) j"
    proof (cases "j = e")
      case True
      have "gap ?n ?a e \<le> gap ?n ?a ?t" by (rule gap_outside [OF a b(1) t out])
      then have "probed d ?a e" using B [OF t next_t(1) y] unfolding probed_def by auto
      then show ?thesis using True j b(1) by simp
    qed (use B j in auto)
    then show ?thesis by (rule probed_mono) (use b(1) in \<open>auto simp: nth_list_update\<close>)
  qed
  then show "erase_inv hashfn (d[e := Some y]) ?t ?t"
    using t y next_t(1) b(1) by (auto simp: erase_inv_def Let_def nth_list_update)
  have "contents (d[e := None, ?t := None]) = contents (d[e := None]) - {#y#}"
    using contents_remove [of ?t "d[e := None]" y] t y next_t(1) b(1) by simp
  moreover have "y \<in># contents (d[e := None])"
    using t y next_t(1) by (auto simp: in_contents intro!: exI [of _ ?t])
  moreover have "d[e := Some y, ?t := None] = d[e := None, ?t := None, e := Some y]"
    using next_t(1) by (simp add: list_update_swap)
  ultimately show "contents (d[e := Some y, ?t := None]) = contents (d[e := None])"
    using contents_add [of e "d[e := None, ?t := None]" y] b(1) next_t(1) by simp
qed

lemma erase_advance:
  assumes inv: "erase_inv hashfn d e t" and z: "z < length d" "d ! z = None"
    and y: "d ! NextIndex (length d) t = Some y"
    and inside: "0 < gap (length d) e (hashfn y mod length d)"
      "gap (length d) e (hashfn y mod length d) \<le> gap (length d) e (NextIndex (length d) t)"
  shows "erase_inv hashfn d e (NextIndex (length d) t)"
proof -
  let ?n = "length d" and ?t = "NextIndex (length d) t" and ?a = "hashfn y mod length d"
  note next_t = erase_next [OF inv z]
  from inv have b: "e < ?n" "t < ?n" by (auto simp: erase_inv_def Let_def)
  have a: "?a < ?n" using b(1) by (intro mod_less_divisor) auto
  have t: "?t < ?n" by (rule NextIndex_less [OF b(2)])
  have "probed d ?a ?t" using inv t y next_t(1) by (auto simp: erase_inv_def Let_def)
  then have "probed (d[e := None]) ?a ?t"
    by (rule probed_hole [OF _ b(1) t gap_inside [OF a b(1) t inside]])
  moreover have "gap ?n e j \<le> gap ?n e t \<or> j = ?t" if "j < ?n" "gap ?n e j \<le> gap ?n e ?t" for j
    using that next_t(3) gap_inject [OF b(1) that(1) t] by linarith
  ultimately show ?thesis
    using inv t y unfolding erase_inv_def Let_def by auto
qed

lemma erase_loop_spec:
  assumes "erase_inv hashfn d e t" "z < length d" "d ! z = None"
  shows "\<exists>d' f'. erase_loop hashfn d e t f = Some (d', f') \<and> placed hashfn d' \<and> length d' = length d \<and>
    contents d' = contents (d[e := None])"
  using assms
proof (induction "gap (length d) t z" arbitrary: d e t f rule: less_induct)
  case (less d t e f)
  let ?n = "length d" and ?t = "NextIndex (length d) t"
  note next_t = erase_next [OF less.prems]
  from less.prems(1) have b: "e < ?n" "t < ?n" by (auto simp: erase_inv_def Let_def)
  have t: "?t < ?n" by (rule NextIndex_less [OF b(2)])
  have smaller: "gap ?n ?t z < gap ?n t z" using next_t(2) by simp
  show ?case
  proof (cases "d ! ?t")
    case None
    then show ?thesis
      using erase_done [OF less.prems None] t by (subst erase_loop.simps) (simp add: Let_def)
  next
    case (Some y)
    let ?a = "hashfn y mod ?n"
    have a: "?a < ?n" using b(1) by (intro mod_less_divisor) auto
    have ideal: "IndexForHash d (hashfn y) = Some ?a" using b(1) by (auto simp: IndexForHash_def)
    define out where "out \<longleftrightarrow> gap ?n e ?a = 0 \<or> gap ?n e ?t < gap ?n e ?a"
    have cond: "(if ?a < e then ?a + ?n else ?a) \<le> e \<or>
        (if ?a < e then ?a + ?n else ?a) > (if ?t < e then ?t + ?n else ?t) \<longleftrightarrow> out"
      using a b(1) t by (auto simp: out_def gap_def)
    have unfold: "erase_loop hashfn d e t f = (if out
        then erase_loop hashfn (d[e := Some y]) ?t ?t True else erase_loop hashfn d e ?t f)"
      using t Some by (subst erase_loop.simps) (simp add: Let_def ideal cond)
    show ?thesis
    proof (cases out)
      case True
      note move = erase_move [OF less.prems Some True [unfolded out_def]]
      have "z \<noteq> e" using less.prems(1,3) by (auto simp: erase_inv_def Let_def)
      then show ?thesis
        using less.hyps [of "d[e := Some y]" ?t ?t True] smaller move less.prems(2,3) unfold True by simp
    next
      case False
      then have "erase_inv hashfn d e ?t"
        by (intro erase_advance [OF less.prems Some]) (auto simp: out_def)
      then show ?thesis using less.hyps [of d ?t e f] smaller less.prems(2,3) unfold False by simp
    qed
  qed
qed

section \<open>The operations keep the table in order\<close>

definition table_ok :: "('a \<Rightarrow> nat) \<Rightarrow> 'a hash_set \<Rightarrow> bool" where
  "table_ok hashfn s \<longleftrightarrow> placed hashfn (data s) \<and> num_elements s = size (contents (data s)) \<and>
     num_elements s \<le> elements_until_expand s \<and> elements_until_expand s < NumBuckets s"

lemma table_ok_room: "table_ok hashfn s \<Longrightarrow> has_room (data s)"
  by (simp add: table_ok_def has_room_iff NumBuckets_def)

lemma placed_replicate [simp]: "placed hashfn (replicate n None)"
  by (simp add: placed_def)

lemma Clear_ok: "table_ok hashfn Clear" "contents (data Clear) = {#}"
  by (simp_all add: table_ok_def Clear_def AllocateStorage_def NumBuckets_def placed_def)

lemma Expand_spec:
  assumes "placed hashfn (data s)" "num_elements s = size (contents (data s))"
  obtains s' where "Expand hashfn s = Some s'" "placed hashfn (data s')" "contents (data s') = contents (data s)"
    "num_elements s' = num_elements s" "num_elements s' < elements_until_expand s'"
    "elements_until_expand s' < NumBuckets s'"
proof -
  define n where "n = (if num_elements s * 2 < kMinBuckets then kMinBuckets else num_elements s * 2)"
  have n: "num_elements s * 2 \<le> n" "1000 \<le> n" by (auto simp: n_def kMinBuckets_def)
  obtain d where d: "reinsert hashfn (data s) (AllocateStorage n) = Some d" "placed hashfn d" "length d = n"
    "contents d = contents (data s)"
    using reinsert_spec [of hashfn "AllocateStorage n" "data s"] assms(2) n(1) by (auto simp: AllocateStorage_def)
  let ?s = "s\<lparr>data := d, elements_until_expand := n * 9 div 10\<rparr>"
  have "Expand hashfn s = Some ?s"
    using d by (simp add: Expand_def Resize_def NumBuckets_def Let_def flip: n_def)
  moreover have "num_elements s < n * 9 div 10" "n * 9 div 10 < n" using n by linarith+
  ultimately show thesis using that d by (simp add: NumBuckets_def)
qed

lemma Insert_spec:
  assumes "table_ok hashfn s"
  shows "\<exists>s'. Insert hashfn x s = Some s' \<and> table_ok hashfn s' \<and>
    contents (data s') = add_mset x (contents (data s))"
proof -
  obtain s1 where s1: "(if num_elements s \<ge> elements_until_expand s then Expand hashfn s else Some s) = Some s1"
    "placed hashfn (data s1)" "contents (data s1) = contents (data s)" "num_elements s1 = num_elements s"
    "num_elements s1 < elements_until_expand s1" "elements_until_expand s1 < NumBuckets s1"
    using assms Expand_spec [of hashfn s] unfolding table_ok_def by (cases "num_elements s \<ge> elements_until_expand s") auto
  have n: "num_elements s1 = size (contents (data s1))" using s1(3,4) assms by (simp add: table_ok_def)
  then have "has_room (data s1)" using s1(5,6) by (simp add: has_room_iff NumBuckets_def)
  with s1(2) obtain ideal slot where i: "IndexForHash (data s1) (hashfn x) = Some ideal"
    "FirstAvailableSlot (data s1) ideal = Some slot" "slot < length (data s1)"
    "placed hashfn ((data s1)[slot := Some x])"
    "contents ((data s1)[slot := Some x]) = add_mset x (contents (data s1))" by (rule insert_one)
  then show ?thesis
    using s1 n by (simp add: Insert_def InsertWithHash_def table_ok_def NumBuckets_def)
qed

lemma Erase_spec:
  assumes "table_ok hashfn s" "it < NumBuckets s" "data s ! it = Some x"
  shows "\<exists>s' it'. Erase hashfn it s = Some (s', it') \<and> table_ok hashfn s' \<and>
    contents (data s') = contents (data s) - {#x#}"
proof -
  obtain z where z: "z < length (data s)" "data s ! z = None"
    using table_ok_room [OF assms(1)] by (auto simp: has_room_def)
  have "erase_inv hashfn (data s) it it"
    using assms gap_eq_0 [of it "length (data s)"] by (auto simp: erase_inv_def Let_def table_ok_def placed_def NumBuckets_def)
  then obtain d f where d: "erase_loop hashfn (data s) it it False = Some (d, f)" "placed hashfn d"
    "length d = length (data s)" "contents d = contents ((data s)[it := None])"
    using erase_loop_spec [OF _ z, of hashfn it it False] by blast
  have c: "contents d = contents (data s) - {#x#}" "x \<in># contents (data s)"
    using d(4) contents_remove [of it "data s" x] assms(2,3) by (auto simp: NumBuckets_def in_contents)
  then have "size (contents d) = size (contents (data s)) - 1" by (simp add: size_Diff_singleton)
  then show ?thesis
    using d c assms(1) by (auto simp: Erase_def table_ok_def NumBuckets_def)
qed

lemma Find_spec:
  assumes "table_ok hashfn s" "\<And>x. pred x k \<Longrightarrow> hashfn x = hash"
  shows "\<exists>it. FindWithHash pred s k hash = Some it \<and>
    (if \<exists>x \<in># contents (data s). pred x k
     then it < NumBuckets s \<and> (\<exists>x. data s ! it = Some x \<and> pred x k) else it = NumBuckets s)"
proof -
  let ?d = "data s" and ?a = "hash mod length (data s)"
  obtain z where z: "z < length ?d" "?d ! z = None"
    using table_ok_room [OF assms(1)] by (auto simp: has_room_def)
  have a: "?a < length ?d" using z(1) by (intro mod_less_divisor) auto
  obtain it where it: "find_loop pred ?d k ?a = Some it"
    "it < length ?d \<and> (\<exists>x. ?d ! it = Some x \<and> pred x k) \<or>
     it = length ?d \<and> (\<forall>j < length ?d. \<forall>x. ?d ! j = Some x \<longrightarrow> probed ?d ?a j \<longrightarrow> \<not> pred x k)"
    using find_loop_spec [OF z a a, of pred k] by auto
  have "probed ?d ?a j" if "j < length ?d" "?d ! j = Some x" "pred x k" for j x
    using assms that by (auto simp: table_ok_def placed_def)
  with it(2) have "it < length ?d \<and> (\<exists>x. ?d ! it = Some x \<and> pred x k) \<or>
     it = length ?d \<and> (\<forall>j < length ?d. \<forall>x. ?d ! j = Some x \<longrightarrow> \<not> pred x k)" by blast
  then have "if \<exists>x \<in># contents ?d. pred x k then it < length ?d \<and> (\<exists>x. ?d ! it = Some x \<and> pred x k)
      else it = length ?d"
    by (auto simp: in_contents)
  moreover have "IndexForHash ?d hash = Some ?a" using z(1) by (auto simp: IndexForHash_def)
  ultimately show ?thesis using it(1) by (simp add: FindWithHash_def NumBuckets_def)
qed

section \<open>Verification and iteration\<close>

lemma misplaced_spec:
  assumes "i < length d"
  shows "misplaced hashfn d i =
    Some (\<not> (\<forall>x. d ! i = Some x \<longrightarrow> probed d (hashfn x mod length d) i))"
proof (cases "d ! i")
  case (Some x)
  let ?n = "length d" and ?a = "hashfn x mod length d" and ?d = "d[i := None]"
  have a: "?a < ?n" using assms by (intro mod_less_divisor) auto
  obtain slot where slot: "FirstAvailableSlot ?d ?a = Some slot" "slot < ?n" "?d ! slot = None" "probed ?d ?a slot"
    using FirstAvailableSlot_spec [of ?a ?d i] a assms by auto
  have "i = slot \<longleftrightarrow> probed d ?a i"
  proof
    assume "i = slot"
    then have "probed ?d ?a i" using slot(4) by simp
    then show "probed d ?a i"
      by (rule probed_mono) (use assms in \<open>auto simp: nth_list_update split: if_splits\<close>)
  next
    assume p: "probed d ?a i"
    show "i = slot"
    proof (rule ccontr)
      assume "i \<noteq> slot"
      then have "gap ?n ?a slot < gap ?n ?a i \<or> gap ?n ?a i < gap ?n ?a slot"
        using gap_inject [OF a slot(2) assms] by linarith
      then show False
        using p slot \<open>i \<noteq> slot\<close> assms by (auto simp: probed_def nth_list_update split: if_splits)
    qed
  qed
  moreover have "IndexForHash d (hashfn x) = Some ?a" using assms by (auto simp: IndexForHash_def)
  ultimately show ?thesis using Some slot(1) by (simp add: misplaced_def)
qed (simp add: misplaced_def)

lemma count_misplaced_spec:
  "set is \<subseteq> {..<length d} \<Longrightarrow> count_misplaced hashfn d is =
    Some (length (filter (\<lambda>i. \<not> (\<forall>x. d ! i = Some x \<longrightarrow> probed d (hashfn x mod length d) i)) is))"
  by (induction "is") (auto simp: misplaced_spec)

lemma Verify_spec: "\<exists>errors. Verify hashfn s = Some errors \<and> (errors = 0 \<longleftrightarrow> placed hashfn (data s))"
proof -
  have "set [0..<length (data s)] \<subseteq> {..<length (data s)}" by auto
  then show ?thesis
    by (auto simp: count_misplaced_spec Verify_def NumBuckets_def placed_def filter_empty_conv)
qed

text \<open>What a loop from \<^verbatim>\<open>begin()\<close> to \<^verbatim>\<open>end()\<close> visits.\<close>

function visited :: "'a option list \<Rightarrow> nat \<Rightarrow> 'a option list" where
  "visited d i = (if i < length d then d ! i # visited d (NextNonEmptySlot d i) else [])"
  by pat_completeness auto
termination
  by (relation "measure (\<lambda>(d, i). length d - i)") (auto simp: NextNonEmptySlot_def)

declare visited.simps [simp del]

lemma visited_from:
  "i < length d \<Longrightarrow> visited d i = d ! i # filter (\<lambda>x. x \<noteq> None) (drop (i + 1) d)"
proof (induction d i rule: visited.induct)
  case (1 d i)
  let ?skip = "length (takeWhile (\<lambda>x. x = None) (drop (i + 1) d))"
  let ?j = "NextNonEmptySlot d i"
  have j: "?j = i + 1 + ?skip" by (simp add: NextNonEmptySlot_def)
  have rest: "filter (\<lambda>x. x \<noteq> None) (drop (i + 1) d) = filter (\<lambda>x. x \<noteq> None) (drop ?j d)"
  proof -
    have "drop ?j d = dropWhile (\<lambda>x. x = None) (drop (i + 1) d)"
      unfolding j by (metis dropWhile_eq_drop drop_drop add.commute)
    moreover have "filter (\<lambda>x. x \<noteq> None) xs = filter (\<lambda>x. x \<noteq> None) (dropWhile (\<lambda>x. x = None) xs)" for xs :: "'a option list"
      by (induction xs) auto
    ultimately show ?thesis by metis
  qed
  show ?case
  proof (cases "?j < length d")
    case True
    then have "d ! ?j \<noteq> None"
      using nth_length_takeWhile [of "\<lambda>x. x = None" "drop (i + 1) d"] 1(2) by (simp add: j)
    then have "filter (\<lambda>x. x \<noteq> None) (drop ?j d) = d ! ?j # filter (\<lambda>x. x \<noteq> None) (drop (?j + 1) d)"
      using True by (simp add: Cons_nth_drop_Suc [symmetric])
    then show ?thesis using 1 True rest by (subst visited.simps) simp
  next
    case False
    then show ?thesis using 1(2) rest by (subst visited.simps) (simp add: visited.simps [of d ?j])
  qed
qed

lemma visited_all: "visited (data s) (begin_index s) = filter (\<lambda>x. x \<noteq> None) (data s)"
proof (cases "data s")
  case Nil
  then show ?thesis by (simp add: visited.simps [of "[]"])
next
  case (Cons x d)
  let ?j = "NextNonEmptySlot (data s) 0"
  have "visited (data s) 0 = x # visited (data s) ?j" using Cons by (subst visited.simps) simp
  then show ?thesis using visited_from [of 0 "data s"] Cons by (cases x) (auto simp: begin_index_def NumBuckets_def)
qed

section \<open>The contract of a bag\<close>

text \<open>
  What the clients of the set rely on: every insertion and every removal through a valid iterator
  returns, keeps the representation in order and changes the contents by one element. Then so does
  every history of such operations.
\<close>

datatype 'a bag_op = Add 'a | Remove nat

primrec run_ops :: "('a \<Rightarrow> 's \<Rightarrow> 's option) \<Rightarrow> (nat \<Rightarrow> 's \<Rightarrow> ('s \<times> nat) option) \<Rightarrow> ('s \<Rightarrow> nat \<Rightarrow> 'a option) \<Rightarrow>
    'a bag_op list \<Rightarrow> 's \<Rightarrow> ('s \<times> 'a list) option" where
  "run_ops ins del slot [] s = Some (s, [])"
| "run_ops ins del slot (op # ops) s =
     (case op of
        Add x \<Rightarrow> Option.bind (ins x s) (run_ops ins del slot ops)
      | Remove i \<Rightarrow>
          (case slot s i of
             None \<Rightarrow> run_ops ins del slot ops s
           | Some x \<Rightarrow> Option.bind (del i s) (\<lambda>(s, _).
               map_option (\<lambda>(s, removed). (s, x # removed)) (run_ops ins del slot ops s))))"

primrec added :: "'a bag_op list \<Rightarrow> 'a list" where
  "added [] = []"
| "added (op # ops) = (case op of Add x \<Rightarrow> x # added ops | Remove _ \<Rightarrow> added ops)"

locale bag =
  fixes ok :: "'s \<Rightarrow> bool"
    and elems :: "'s \<Rightarrow> 'a multiset"
    and ins :: "'a \<Rightarrow> 's \<Rightarrow> 's option"
    and del :: "nat \<Rightarrow> 's \<Rightarrow> ('s \<times> nat) option"
    and slot :: "'s \<Rightarrow> nat \<Rightarrow> 'a option"
  assumes ins_ok: "ok s \<Longrightarrow> \<exists>s'. ins x s = Some s' \<and> ok s' \<and> elems s' = add_mset x (elems s)"
    and del_ok: "ok s \<Longrightarrow> slot s i = Some x \<Longrightarrow>
      \<exists>s' j. del i s = Some (s', j) \<and> ok s' \<and> elems s' = elems s - {#x#}"
    and slot_in: "ok s \<Longrightarrow> slot s i = Some x \<Longrightarrow> x \<in># elems s"
begin

lemma history:
  "ok s \<Longrightarrow> \<exists>s' removed. run_ops ins del slot ops s = Some (s', removed) \<and> ok s' \<and>
     elems s' + mset removed = elems s + mset (added ops)"
proof (induction ops arbitrary: s)
  case (Cons op ops)
  show ?case
  proof (cases op)
    case (Add x)
    obtain s1 where "ins x s = Some s1" "ok s1" "elems s1 = add_mset x (elems s)"
      using ins_ok [OF Cons.prems] by blast
    then show ?thesis using Cons.IH [of s1] Add by auto
  next
    case (Remove i)
    show ?thesis
    proof (cases "slot s i")
      case None
      then show ?thesis using Cons Remove by simp
    next
      case (Some x)
      obtain s1 j where s1: "del i s = Some (s1, j)" "ok s1" "elems s1 = elems s - {#x#}"
        using del_ok [OF Cons.prems Some] by blast
      obtain s2 removed where "run_ops ins del slot ops s1 = Some (s2, removed)" "ok s2"
        "elems s2 + mset removed = elems s1 + mset (added ops)" using Cons.IH [OF s1(2)] by blast
      then show ?thesis using s1 slot_in [OF Cons.prems Some] Remove Some by auto
    qed
  qed
qed simp

end

definition slot_value :: "'a hash_set \<Rightarrow> nat \<Rightarrow> 'a option" where
  "slot_value s i = (if i < NumBuckets s then data s ! i else None)"

interpretation hash_bag: bag "table_ok hashfn" "\<lambda>s. contents (data s)" "Insert hashfn" "Erase hashfn" slot_value
  for hashfn :: "'a \<Rightarrow> nat"
proof
  show "\<exists>s'. Insert hashfn x s = Some s' \<and> table_ok hashfn s' \<and> contents (data s') = add_mset x (contents (data s))"
    if "table_ok hashfn s" for s x using that by (rule Insert_spec)
  show "\<exists>s' j. Erase hashfn i s = Some (s', j) \<and> table_ok hashfn s' \<and> contents (data s') = contents (data s) - {#x#}"
    if "table_ok hashfn s" "slot_value s i = Some x" for s i x
    using that Erase_spec [of hashfn s i x] by (auto simp: slot_value_def split: if_splits)
  show "x \<in># contents (data s)" if "table_ok hashfn s" "slot_value s i = Some x" for s i x
    using that by (auto simp: slot_value_def in_contents NumBuckets_def split: if_splits)
qed

section \<open>Properties\<close>

text \<open>C39: Every history of insertions and of removals through valid iterators, from the empty set and
  under any hash function, runs to its end: no probe loop runs forever, expansions included. At the end
  the set holds exactly the multiset of what was inserted and not removed, a walk over the buckets
  visits each of these elements once, and the self check reports no misplaced element.\<close>
theorem hash_set_history:
  "\<exists>s removed. run_ops (Insert hashfn) (Erase hashfn) slot_value ops Clear = Some (s, removed) \<and>
     table_ok hashfn s \<and> contents (data s) + mset removed = mset (added ops) \<and>
     image_mset the (mset (visited (data s) (begin_index s))) = contents (data s) \<and>
     Verify hashfn s = Some 0"
proof -
  obtain s removed where s: "run_ops (Insert hashfn) (Erase hashfn) slot_value ops Clear = Some (s, removed)"
    "table_ok hashfn s" "contents (data s) + mset removed = mset (added ops)"
    using hash_bag.history [OF Clear_ok(1), of hashfn ops] by (auto simp: Clear_ok(2))
  moreover have "Verify hashfn s = Some 0" using Verify_spec [of hashfn s] s(2) by (auto simp: table_ok_def)
  moreover have "image_mset the (mset (visited (data s) (begin_index s))) = contents (data s)"
    by (simp add: visited_all contents_def)
  ultimately show ?thesis by blast
qed

text \<open>C40: In a table in order a lookup always returns. If some element satisfies the predicate, it
  returns the position of such an element, otherwise the end of the table, as long as elements that
  satisfy the predicate have the hash of the key.\<close>
theorem hash_set_find:
  assumes "table_ok hashfn s" "\<And>x. pred x k \<Longrightarrow> hashfn x = hash"
  shows "\<exists>it. FindWithHash pred s k hash = Some it \<and>
    (if \<exists>x \<in># contents (data s). pred x k
     then it < NumBuckets s \<and> (\<exists>x. data s ! it = Some x \<and> pred x k) else it = NumBuckets s)"
  using assms by (rule Find_spec)

theorem hash_set_find_witness:
  "\<exists>s it. Insert id (7 :: nat) Clear = Some s \<and> FindWithHash (=) s 7 7 = Some it \<and>
     it < NumBuckets s \<and> data s ! it = Some 7"
proof -
  obtain s where s: "Insert id (7 :: nat) Clear = Some s" "table_ok id s" "contents (data s) = {#7#}"
    using Insert_spec [OF Clear_ok(1), of id 7] by (auto simp: Clear_ok(2))
  then show ?thesis using hash_set_find [OF s(2), of "(=)" 7 7] by auto
qed

text \<open>
  Shrinking keeps the elements but neither leaves a free bucket nor updates the expansion limit. A set
  with one element shrinks to one bucket, and then no lookup of another element ever returns; an empty
  set shrinks to no bucket at all, and the next lookup divides by zero.
\<close>

lemma find_loop_result:
  assumes "find_loop pred d k i = Some it"
  shows "it < length d \<and> (\<exists>x. d ! it = Some x \<and> pred x k) \<or> has_room d"
proof (rule find_loop.raw_induct [OF _ assms])
  fix find :: "('a \<Rightarrow> 'b \<Rightarrow> bool) \<Rightarrow> 'a option list \<Rightarrow> 'b \<Rightarrow> nat \<Rightarrow> nat option" and pred d k i it
  assume IH: "\<And>pred d k i it. find pred d k i = Some it \<Longrightarrow>
      it < length d \<and> (\<exists>x. d ! it = Some x \<and> pred x k) \<or> has_room d"
    and step: "(if i < length d then
        case d ! i of None \<Rightarrow> Some (length d)
        | Some slot \<Rightarrow> if pred slot k then Some i else find pred d k (NextIndex (length d) i)
      else None) = Some it"
  show "it < length d \<and> (\<exists>x. d ! it = Some x \<and> pred x k) \<or> has_room d"
  proof (cases "d ! i")
    case None
    then show ?thesis using step by (auto simp: has_room_def split: if_splits)
  next
    case (Some x)
    then show ?thesis using step IH by (auto split: if_splits)
  qed
qed

lemma shrink_leaves_no_room:
  assumes "table_ok hashfn s" "contents (data s) = {#x#}" "\<not> pred x k"
  shows "\<exists>s'. ShrinkToMaximumLoad hashfn s = Some s' \<and> NumBuckets s' = 1 \<and> FindWithHash pred s' k hash = None"
proof -
  have n: "num_elements s = 1" using assms(1,2) by (simp add: table_ok_def)
  obtain d where d: "reinsert hashfn (data s) (AllocateStorage 1) = Some d" "length d = 1" "contents d = {#x#}"
    using reinsert_spec [of hashfn "AllocateStorage 1" "data s"] assms(2)
      placed_replicate [of hashfn 1] by (auto simp: AllocateStorage_def)
  then obtain y where "d = [y]" by (auto simp: length_Suc_conv)
  with d(3) have "d = [Some x]" by (cases y) auto
  moreover from this have "find_loop pred d k 0 = None"
    using find_loop_result [of pred d k 0] assms(3) by (cases "find_loop pred d k 0") (auto simp: has_room_def)
  ultimately show ?thesis
    using d n by (simp add: ShrinkToMaximumLoad_def Resize_def NumBuckets_def FindWithHash_def IndexForHash_def)
qed

lemma shrink_empty_set:
  "\<exists>s'. ShrinkToMaximumLoad hashfn Clear = Some s' \<and> NumBuckets s' = 0 \<and> FindWithHash pred s' k hash = None"
  by (simp add: ShrinkToMaximumLoad_def Resize_def Clear_def AllocateStorage_def NumBuckets_def
      FindWithHash_def IndexForHash_def)

end
