(* ===== verification/LockWord.thy ===== *)
theory LockWord
  imports ART_Prelude
begin

text \<open>
  The lock word of an object (\<^verbatim>\<open>runtime/lock_word.h\<close>): 32 bits that hold a thin lock with owner and
  recursion count, the identifier of a monitor, an identity hash code or a forwarding address. A failed
  \<^verbatim>\<open>CHECK\<close> is \<^const>\<open>None\<close>.
\<close>

section \<open>Layout\<close>

definition kThinLockMaxOwner :: u32 where "kThinLockMaxOwner = 0xffff"
definition kThinLockMaxCount :: u32 where "kThinLockMaxCount = 0x3fff"
definition kMaxHash :: u32 where "kMaxHash = 0x3fffffff"
definition kMaxMonitorId :: u32 where "kMaxMonitorId = kMaxHash"

abbreviation kThinLockCountShift :: nat where "kThinLockCountShift \<equiv> 16"
abbreviation kStateShift :: nat where "kStateShift \<equiv> 30"
abbreviation kStateSize :: nat where "kStateSize \<equiv> 2"
abbreviation kStateMask :: u32 where "kStateMask \<equiv> 3"
abbreviation kStateThinOrUnlocked :: u32 where "kStateThinOrUnlocked \<equiv> 0"
abbreviation kStateFat :: u32 where "kStateFat \<equiv> 1"
abbreviation kStateHash :: u32 where "kStateHash \<equiv> 2"
abbreviation kStateForwardingAddress :: u32 where "kStateForwardingAddress \<equiv> 3"

definition FromThinLockId :: "u32 \<Rightarrow> u32 \<Rightarrow> u32 option" where
  "FromThinLockId thread_id count =
     (if thread_id \<le> kThinLockMaxOwner \<and> count \<le> kThinLockMaxCount
      then Some (shl thread_id 0 OR shl count kThinLockCountShift OR shl kStateThinOrUnlocked kStateShift)
      else None)"

text \<open>A \<^verbatim>\<open>size_t\<close> address is truncated to the 32 bits of the lock word.\<close>

definition FromForwardingAddress :: "u64 \<Rightarrow> u32" where
  "FromForwardingAddress target =
     ucast (shr target kStateSize OR ucast (shl kStateForwardingAddress kStateShift))"

definition FromHashCode :: "u32 \<Rightarrow> u32 option" where
  "FromHashCode hash_code =
     (if hash_code \<le> kMaxHash then Some (shl hash_code 0 OR shl kStateHash kStateShift) else None)"

definition FromMonitorId :: "u32 \<Rightarrow> u32" where
  "FromMonitorId mon_id = mon_id OR shl kStateFat kStateShift"

datatype LockState = kUnlocked | kThinLocked | kFatLocked | kHashCode | kForwardingAddress

definition GetState :: "u32 \<Rightarrow> LockState" where
  "GetState lw =
     (if lw = 0 then kUnlocked
      else let internal_state = shr lw kStateShift AND kStateMask in
        if internal_state = kStateThinOrUnlocked then kThinLocked
        else if internal_state = kStateHash then kHashCode
        else if internal_state = kStateForwardingAddress then kForwardingAddress
        else kFatLocked)"

definition ThinLockOwner :: "u32 \<Rightarrow> u32" where
  "ThinLockOwner lw = shr lw 0 AND 0xffff"

definition ThinLockCount :: "u32 \<Rightarrow> u32" where
  "ThinLockCount lw = shr lw kThinLockCountShift AND 0x3fff"

definition FatLockMonitorId :: "u32 \<Rightarrow> u32" where
  "FatLockMonitorId lw = lw AND NOT (shl kStateMask kStateShift)"

definition ForwardingAddress :: "u32 \<Rightarrow> u64" where
  "ForwardingAddress lw = ucast (shl lw kStateSize)"

definition LockWord_GetHashCode :: "u32 \<Rightarrow> u32" where
  "LockWord_GetHashCode lw = shr lw 0 AND 0x3fffffff"

section \<open>Bits\<close>

lemma bit_u32_less: "bit (x :: u32) i \<Longrightarrow> i < 32"
  using bit_imp_le_length [of x i] by simp

lemma less_mask_bits:
  "(x :: u32) \<le> 0xffff \<longleftrightarrow> (\<forall>i. bit x i \<longrightarrow> i < 16)"
  "x \<le> 0x3fff \<longleftrightarrow> (\<forall>i. bit x i \<longrightarrow> i < 14)"
  "x \<le> 0x3fffffff \<longleftrightarrow> (\<forall>i. bit x i \<longrightarrow> i < 30)"
proof -
  have *: "unat x < 2 ^ n \<longleftrightarrow> (\<forall>i. bit x i \<longrightarrow> i < n)" for n
    unfolding less_exp_iff_bits by (metis not_le)
  have "x \<le> 0xffff \<longleftrightarrow> unat x < 2 ^ 16" by (auto simp: word_le_nat_alt)
  then show "x \<le> 0xffff \<longleftrightarrow> (\<forall>i. bit x i \<longrightarrow> i < 16)" using * by blast
  have "x \<le> 0x3fff \<longleftrightarrow> unat x < 2 ^ 14" by (auto simp: word_le_nat_alt)
  then show "x \<le> 0x3fff \<longleftrightarrow> (\<forall>i. bit x i \<longrightarrow> i < 14)" using * by blast
  have "x \<le> 0x3fffffff \<longleftrightarrow> unat x < 2 ^ 30" by (auto simp: word_le_nat_alt)
  then show "x \<le> 0x3fffffff \<longleftrightarrow> (\<forall>i. bit x i \<longrightarrow> i < 30)" using * by blast
qed

text \<open>The state is decided by the two highest bits.\<close>

lemma state_bits:
  "shr lw 30 AND 3 = (0 :: u32) \<longleftrightarrow> \<not> bit lw 31 \<and> \<not> bit lw 30"
  "shr lw 30 AND 3 = (2 :: u32) \<longleftrightarrow> bit lw 31 \<and> \<not> bit lw 30"
  "shr lw 30 AND 3 = (3 :: u32) \<longleftrightarrow> bit lw 31 \<and> bit lw 30"
proof -
  have t: "shr lw 30 AND 3 = take_bit 2 (shr lw 30)" by (simp add: take_bit_eq_mask mask_eq_exp_minus_1)
  have eq: "take_bit 2 (shr lw 30) = v \<longleftrightarrow> (bit lw 30 \<longleftrightarrow> bit v 0) \<and> (bit lw 31 \<longleftrightarrow> bit v 1)"
    if "\<And>i. bit v i \<Longrightarrow> i < 2" for v :: u32
  proof
    assume "take_bit 2 (shr lw 30) = v"
    then have "bit (take_bit 2 (shr lw 30)) 0 = bit v 0" "bit (take_bit 2 (shr lw 30)) 1 = bit v 1" by simp_all
    then show "(bit lw 30 \<longleftrightarrow> bit v 0) \<and> (bit lw 31 \<longleftrightarrow> bit v 1)" by (simp add: bit_simps)
  next
    assume *: "(bit lw 30 \<longleftrightarrow> bit v 0) \<and> (bit lw 31 \<longleftrightarrow> bit v 1)"
    show "take_bit 2 (shr lw 30) = v"
    proof (rule bit_word_eqI)
      fix n :: nat
      consider "n = 0" | "n = 1" | "2 \<le> n" by linarith
      then show "bit (take_bit 2 (shr lw 30)) n \<longleftrightarrow> bit v n"
        by cases (use * that [of n] in \<open>auto simp: bit_simps\<close>)
    qed
  qed
  have b2: "bit (2 :: u32) i \<longleftrightarrow> i = 1" for i using bit_int_exp_iff [of 1 i] by (simp add: bit_simps) linarith
  have b3: "bit (3 :: u32) i \<longleftrightarrow> i < 2" for i by (auto simp: bit_simps word_bits)
  show "shr lw 30 AND 3 = (0 :: u32) \<longleftrightarrow> \<not> bit lw 31 \<and> \<not> bit lw 30" unfolding t using eq [of 0] by auto
  show "shr lw 30 AND 3 = (2 :: u32) \<longleftrightarrow> bit lw 31 \<and> \<not> bit lw 30" unfolding t using eq [of 2, unfolded b2] by simp blast
  show "shr lw 30 AND 3 = (3 :: u32) \<longleftrightarrow> bit lw 31 \<and> bit lw 30" unfolding t using eq [of 3, unfolded b3] by simp blast
qed

lemma GetState_bits:
  "GetState lw = (if lw = 0 then kUnlocked else if \<not> bit lw 31 then if bit lw 30 then kFatLocked else kThinLocked
     else if bit lw 30 then kForwardingAddress else kHashCode)"
  by (simp add: GetState_def Let_def state_bits)

section \<open>Round trips\<close>

lemma thin_bits:
  assumes "FromThinLockId t c = Some lw"
  shows "bit lw i \<longleftrightarrow> (if i < 16 then bit t i else bit c (i - 16)) \<and> i < 32"
    "t \<le> kThinLockMaxOwner" "c \<le> kThinLockMaxCount"
proof -
  have lw: "lw = t OR shl c 16" and b: "t \<le> kThinLockMaxOwner" "c \<le> kThinLockMaxCount"
    using assms by (simp_all add: FromThinLockId_def split: if_splits)
  show "t \<le> kThinLockMaxOwner" "c \<le> kThinLockMaxCount" by (fact b)+
  have "bit t i \<Longrightarrow> i < 16" using b(1) less_mask_bits(1) [of t] by (simp add: kThinLockMaxOwner_def)
  then show "bit lw i \<longleftrightarrow> (if i < 16 then bit t i else bit c (i - 16)) \<and> i < 32"
    unfolding lw by (auto simp: bit_simps dest: bit_u32_less)
qed

lemma thin_lock_facts:
  assumes lw: "FromThinLockId t c = Some lw"
  shows "ThinLockOwner lw = t" "ThinLockCount lw = c" "\<not> bit lw 30" "\<not> bit lw 31"
    "GetState lw = (if t = 0 \<and> c = 0 then kUnlocked else kThinLocked)"
proof -
  note b = thin_bits [OF lw]
  have t: "bit t i \<Longrightarrow> i < 16" for i using b(2) less_mask_bits(1) [of t] by (simp add: kThinLockMaxOwner_def)
  have c: "bit c i \<Longrightarrow> i < 14" for i using b(3) less_mask_bits(2) [of c] by (simp add: kThinLockMaxCount_def)
  show owner: "ThinLockOwner lw = t"
    unfolding ThinLockOwner_def by (rule bit_word_eqI) (auto simp: bit_simps word_bits b(1) dest: t)
  show count: "ThinLockCount lw = c"
    unfolding ThinLockCount_def by (rule bit_word_eqI) (auto simp: bit_simps word_bits b(1) dest: c)
  show s: "\<not> bit lw 30" "\<not> bit lw 31" using b(1) c [of 14] c [of 15] by auto
  have "lw = 0 \<longleftrightarrow> t = 0 \<and> c = 0"
  proof
    assume "lw = 0"
    then have "ThinLockOwner lw = 0" "ThinLockCount lw = 0" by (simp_all add: ThinLockOwner_def ThinLockCount_def)
    with owner count show "t = 0 \<and> c = 0" by simp
  next
    assume "t = 0 \<and> c = 0"
    then show "lw = 0" using lw by (simp add: FromThinLockId_def kThinLockMaxOwner_def kThinLockMaxCount_def)
  qed
  then show "GetState lw = (if t = 0 \<and> c = 0 then kUnlocked else kThinLocked)"
    using s by (simp add: GetState_bits)
qed

lemma hash_code_facts:
  assumes "FromHashCode h = Some lw"
  shows "LockWord_GetHashCode lw = h" "GetState lw = kHashCode" "h \<le> kMaxHash"
proof -
  have lw: "lw = h OR shl 2 30" and h: "h \<le> kMaxHash"
    using assms by (simp_all add: FromHashCode_def split: if_splits)
  show "h \<le> kMaxHash" by (fact h)
  have b: "bit h i \<Longrightarrow> i < 30" for i using h less_mask_bits(3) [of h] by (simp add: kMaxHash_def)
  have bits: "bit lw i \<longleftrightarrow> bit h i \<or> i = 31" for i
    using bit_int_exp_iff [of 31 i] b [of i] unfolding lw by (auto simp: bit_simps push_bit_eq_mult)
  show "LockWord_GetHashCode lw = h"
    unfolding LockWord_GetHashCode_def by (rule bit_word_eqI) (auto simp: bit_simps word_bits bits dest: b)
  have "lw \<noteq> 0" using bits [of 31] by auto
  then show "GetState lw = kHashCode" using bits [of 30] bits [of 31] b [of 30] by (auto simp: GetState_bits)
qed

lemma fat_lock_facts:
  assumes "m \<le> kMaxMonitorId"
  shows "FatLockMonitorId (FromMonitorId m) = m" "GetState (FromMonitorId m) = kFatLocked"
proof -
  have b: "bit m i \<Longrightarrow> i < 30" for i
    using assms less_mask_bits(3) [of m] by (simp add: kMaxMonitorId_def kMaxHash_def)
  have bits: "bit (FromMonitorId m) i \<longleftrightarrow> bit m i \<or> i = 30" for i
    using bit_int_exp_iff [of 30 i] b [of i] unfolding FromMonitorId_def by (auto simp: bit_simps push_bit_eq_mult)
  have mask: "bit (NOT (shl 3 30) :: u32) i \<longleftrightarrow> i < 30" for i
  proof -
    have three: "bit (3 :: u32) j \<longleftrightarrow> j < 2" for j by (auto simp: bit_simps word_bits)
    show ?thesis unfolding bit_not_iff bit_push_bit_iff three by auto
  qed
  show "FatLockMonitorId (FromMonitorId m) = m"
  proof (rule bit_word_eqI)
    fix i
    show "bit (FatLockMonitorId (FromMonitorId m)) i \<longleftrightarrow> bit m i"
      unfolding FatLockMonitorId_def bit_and_iff mask bits using b [of i] by auto
  qed
  have "FromMonitorId m \<noteq> 0" using bits [of 30] by auto
  then show "GetState (FromMonitorId m) = kFatLocked" using bits [of 30] bits [of 31] b [of 31] by (auto simp: GetState_bits)
qed

lemma forwarding_facts:
  assumes "unat target < 2 ^ 32" "target AND 3 = 0"
  shows "ForwardingAddress (FromForwardingAddress target) = target"
    "GetState (FromForwardingAddress target) = kForwardingAddress"
proof -
  have b: "bit target i \<Longrightarrow> 2 \<le> i \<and> i < 32" for i
  proof -
    assume *: "bit target i"
    then have "i < 32" using assms(1) less_exp_iff_bits [of target 32] by (metis not_less)
    moreover have "\<not> bit (target AND 3) i" unfolding assms(2) by simp
    then have "2 \<le> i" using * by (auto simp: bit_simps word_bits)
    ultimately show ?thesis by simp
  qed
  have three: "bit (3 :: u32) j \<longleftrightarrow> j < 2" for j by (auto simp: bit_simps word_bits)
  have bits: "bit (FromForwardingAddress target) i \<longleftrightarrow> i < 32 \<and> (bit target (i + 2) \<or> 30 \<le> i)" for i
    unfolding FromForwardingAddress_def bit_unsigned_iff bit_or_iff bit_drop_bit_eq bit_push_bit_iff three comp_def
    by (auto simp: add.commute)
  show "ForwardingAddress (FromForwardingAddress target) = target"
    unfolding ForwardingAddress_def
  proof (rule bit_word_eqI)
    fix i assume "i < LENGTH(64)"
    then show "bit (ucast (shl (FromForwardingAddress target) 2) :: u64) i \<longleftrightarrow> bit target i"
    proof (cases "2 \<le> i")
      case True
      then have "bit target (i - 2 + 2) = bit target i" by (simp only: le_add_diff_inverse2)
      then show ?thesis
        unfolding bit_unsigned_iff bit_push_bit_iff bits using True b [of i] \<open>i < LENGTH(64)\<close> by auto
    next
      case False
      then show ?thesis unfolding bit_unsigned_iff bit_push_bit_iff using b [of i] by auto
    qed
  qed
  have "FromForwardingAddress target \<noteq> 0" using bits [of 30] by auto
  then show "GetState (FromForwardingAddress target) = kForwardingAddress"
    using bits [of 30] bits [of 31] by (simp add: GetState_bits)
qed

text \<open>C11: The four encodings of a lock word never overlap and lose nothing: within the checked ranges a thin
  lock keeps owner and recursion count, a fat lock its monitor, a hash lock its hash code and a
  forwarding word its aligned 32 bit address, and each is recognised by its own state. The all-zero
  word is the unlocked state and no thin lock of a real thread encodes to it.\<close>
theorem lock_word_round_trip:
  assumes "0 < t" "t \<le> kThinLockMaxOwner" "c \<le> kThinLockMaxCount" "h \<le> kMaxHash" "m \<le> kMaxMonitorId"
    "unat target < 2 ^ 32" "target AND 3 = 0"
  shows "(\<exists>lw. FromThinLockId t c = Some lw \<and> GetState lw = kThinLocked \<and> ThinLockOwner lw = t \<and> ThinLockCount lw = c) \<and>
    (\<exists>lw. FromHashCode h = Some lw \<and> GetState lw = kHashCode \<and> LockWord_GetHashCode lw = h) \<and>
    GetState (FromMonitorId m) = kFatLocked \<and> FatLockMonitorId (FromMonitorId m) = m \<and>
    GetState (FromForwardingAddress target) = kForwardingAddress \<and>
    ForwardingAddress (FromForwardingAddress target) = target \<and> GetState 0 = kUnlocked"
proof -
  obtain lw where lw: "FromThinLockId t c = Some lw" using assms(2,3) by (simp add: FromThinLockId_def)
  obtain lh where lh: "FromHashCode h = Some lh" using assms(4) by (simp add: FromHashCode_def)
  show ?thesis
    using lw lh assms(1) thin_lock_facts [OF lw] hash_code_facts [OF lh] fat_lock_facts [OF assms(5)]
      forwarding_facts [OF assms(6,7)] by (auto simp: GetState_def)
qed

theorem lock_word_round_trip_witness:
  "(\<exists>lw. FromThinLockId 0xffff 0x3fff = Some lw \<and> GetState lw = kThinLocked \<and> ThinLockOwner lw = 0xffff) \<and>
   GetState (FromMonitorId 0x3fffffff) = kFatLocked \<and> ForwardingAddress (FromForwardingAddress 0xfffffffc) = 0xfffffffc"
  using lock_word_round_trip [of "0xffff" "0x3fff" 5 "0x3fffffff" "0xfffffffc"]
  by (auto simp: kThinLockMaxOwner_def kThinLockMaxCount_def kMaxHash_def kMaxMonitorId_def)

end
