(* ===== verification/MonitorModel.thy ===== *)
theory MonitorModel
  imports LockWord
begin

text \<open>
  Object locks (\<^verbatim>\<open>runtime/monitor.cc\<close>) and identity hash codes (\<^verbatim>\<open>runtime/mirror/object.cc\<close>): entering,
  leaving, waiting on and notifying the monitor of one object by any number of threads, with thin
  locks, inflation by the owner or by a contender that suspends the owner, and deflation by the
  collector.

  The state is the lock word of the object, the monitors by identifier, and for each thread the point
  of its operation it has reached. A step is what a thread does between two accesses to shared memory:
  a load, store or compare-and-swap of the lock word, or a section under \<^verbatim>\<open>monitor_lock_\<close>. The operations on a
  monitor are functions; their interleaving is the relation \<open>tstep\<close>. A compare-and-swap may fail for no
  reason. A thread that finds the monitor owned sleeps on the condition variable
  \<^verbatim>\<open>monitor_contenders_\<close> until it is signalled or wakes up for no reason; a thread in \<^verbatim>\<open>Object.wait\<close> may
  wake up at any time.

  The recursion count of a monitor is an \<^verbatim>\<open>int\<close>: incrementing it beyond \<open>2 ^ 31 - 1\<close> is undefined, and a
  thread that does it stops at the point \<open>Overflow\<close>.

  A moving collection may move the object while all threads are at points where they can be suspended.
  \<^verbatim>\<open>IdentityHashCode\<close> reads the lock word through a handle that follows the object, but swaps it in through
  \<^verbatim>\<open>this\<close>, which then points to the old copy; the flag of the points of that operation tells whether
  \<^verbatim>\<open>this\<close> is stale.

  What the code relies on from the thread list is built into the relation. A thread identifier is
  positive and at most 0xffff (0 is the invalid one). Suspending a thread succeeds only while it is at a point where it can
  be suspended, and it stays there until it is resumed. Deflation happens only while all threads are
  at such points. A new monitor has an unused identifier of at most 30 bits.
\<close>

section \<open>Monitors\<close>

record monitor =
  mon_owner :: "u32 option"
  lock_count :: nat
  num_waiters :: nat
  wait_set :: "u32 list"
  hash_code :: u32

definition new_monitor :: "u32 option \<Rightarrow> u32 \<Rightarrow> monitor" where
  "new_monitor own h =
     \<lparr>mon_owner = own, lock_count = 0, num_waiters = 0, wait_set = [], hash_code = h\<rparr>"

text \<open>One round of the loop in \<^verbatim>\<open>Monitor::Lock\<close>.\<close>

datatype attempt = Locked monitor | Contended monitor | LockCheckFailed | LockCountOverflow

definition Monitor_Lock :: "u32 \<Rightarrow> monitor \<Rightarrow> attempt" where
  "Monitor_Lock self mon =
     (case mon_owner mon of
        None \<Rightarrow>
          if lock_count mon = 0 then Locked (mon\<lparr>mon_owner := Some self\<rparr>) else LockCheckFailed
      | Some t \<Rightarrow>
          if t = self then
            if lock_count mon < 2 ^ 31 - 1 then Locked (mon\<lparr>lock_count := lock_count mon + 1\<rparr>)
            else LockCountOverflow
          else Contended (mon\<lparr>num_waiters := num_waiters mon + 1\<rparr>))"

text \<open>The flag says that a contender is signalled.\<close>

definition Monitor_Unlock :: "u32 \<Rightarrow> monitor \<Rightarrow> (monitor \<times> bool) option" where
  "Monitor_Unlock self mon =
     (if mon_owner mon = Some self then
        if lock_count mon = 0 then Some (mon\<lparr>mon_owner := None\<rparr>, True)
        else Some (mon\<lparr>lock_count := lock_count mon - 1\<rparr>, False)
      else None)"

text \<open>The two halves of \<^verbatim>\<open>Monitor::Wait\<close>: giving the monitor up, and taking it back.\<close>

definition Monitor_Wait_begin :: "u32 \<Rightarrow> int \<Rightarrow> int \<Rightarrow> monitor \<Rightarrow> (monitor \<times> nat) option" where
  "Monitor_Wait_begin self ms ns mon =
     (if mon_owner mon \<noteq> Some self then None
      else if ms < 0 \<or> ns < 0 \<or> ns > 999999 then None
      else Some (mon\<lparr>wait_set := wait_set mon @ [self], num_waiters := num_waiters mon + 1,
                     lock_count := 0, mon_owner := None\<rparr>, lock_count mon))"

definition Monitor_Wait_end :: "u32 \<Rightarrow> nat \<Rightarrow> monitor \<Rightarrow> monitor" where
  "Monitor_Wait_end self prev_lock_count mon =
     mon\<lparr>mon_owner := Some self, lock_count := prev_lock_count, num_waiters := num_waiters mon - 1,
         wait_set := remove1 self (wait_set mon)\<rparr>"

text \<open>The argument \<open>waiting\<close> tells for a thread whether its wait monitor is set.\<close>

definition Monitor_Notify :: "(u32 \<Rightarrow> bool) \<Rightarrow> u32 \<Rightarrow> monitor \<Rightarrow> monitor option" where
  "Monitor_Notify waiting self mon =
     (if mon_owner mon \<noteq> Some self then None
      else Some (mon\<lparr>wait_set := tl (dropWhile (\<lambda>t. \<not> waiting t) (wait_set mon))\<rparr>))"

definition Monitor_NotifyAll :: "u32 \<Rightarrow> monitor \<Rightarrow> monitor option" where
  "Monitor_NotifyAll self mon =
     (if mon_owner mon \<noteq> Some self then None else Some (mon\<lparr>wait_set := []\<rparr>))"

text \<open>The part of \<^verbatim>\<open>Monitor::Install\<close> in front of the compare-and-swap.\<close>

datatype install = InstallTry monitor | InstallLost | InstallCheckFailed

definition Monitor_Install :: "u32 \<Rightarrow> monitor \<Rightarrow> install" where
  "Monitor_Install lw mon =
     (case GetState lw of
        kThinLocked \<Rightarrow>
          if mon_owner mon = Some (ThinLockOwner lw)
          then InstallTry (mon\<lparr>lock_count := unat (ThinLockCount lw)\<rparr>) else InstallCheckFailed
      | kHashCode \<Rightarrow>
          if hash_code mon = LockWord_GetHashCode lw then InstallTry mon else InstallCheckFailed
      | kFatLocked \<Rightarrow> InstallLost
      | kUnlocked \<Rightarrow> InstallCheckFailed
      | kForwardingAddress \<Rightarrow> InstallCheckFailed)"

text \<open>\<^const>\<open>None\<close> if the monitor cannot be deflated, else the new lock word or a failed check.\<close>

definition Monitor_Deflate :: "monitor \<Rightarrow> u32 option option" where
  "Monitor_Deflate mon =
     (if num_waiters mon > 0 then None
      else case mon_owner mon of
        Some t \<Rightarrow>
          if hash_code mon \<noteq> 0 then None
          else if lock_count mon > unat kThinLockMaxCount then None
          else Some (FromThinLockId t (of_nat (lock_count mon)))
      | None \<Rightarrow>
          if hash_code mon \<noteq> 0 then Some (FromHashCode (hash_code mon)) else Some (Some 0))"

section \<open>Identity hash codes\<close>

definition kHashMask :: u32 where "kHashMask = 0x3fffffff"

definition next_seed :: "u32 \<Rightarrow> u32" where
  "next_seed expected_value = expected_value * 1103515245 + 12345"

text \<open>
  The loop of \<^verbatim>\<open>GenerateIdentityHashCode\<close> for a thread that is alone on the seed. The weak
  compare-and-swap of round \<open>n\<close> succeeds if \<open>cas n\<close>; the result is the hash code and the new seed.
\<close>

partial_function (option) GenerateIdentityHashCode :: "(nat \<Rightarrow> bool) \<Rightarrow> nat \<Rightarrow> u32 \<Rightarrow> (u32 \<times> u32) option" where
  "GenerateIdentityHashCode cas n seed =
     (if seed AND kHashMask = 0 \<or> \<not> cas n then GenerateIdentityHashCode cas (Suc n) seed
      else Some (seed AND kHashMask, next_seed seed))"

section \<open>Threads\<close>

text \<open>Where \<^verbatim>\<open>Inflate\<close> returns to.\<close>

datatype after = ToEnter nat | ToWait int int | ToHash bool

datatype pc =
    Idle
  | Fatal
  | Overflow
  | EnterLoop nat
  | EnterCas u32 nat
  | EnterThin u32 nat
  | EnterFat u32
  | LockBlocked u32
  | LockAsleep u32
  | LockWoken u32
  | Suspending u32 u32 after
  | Recheck u32 u32 after
  | Install u32 "u32 option" after
  | InstallCas u32 u32 "u32 option" after
  | Installed "u32 option" after
  | ExitRead
  | ExitThin u32
  | ExitFat u32
  | WaitRead int int
  | WaitFat u32 int int
  | Waiting u32 nat
  | WaitLock u32 nat
  | WaitBlocked u32 nat
  | WaitAsleep u32 nat
  | WaitWoken u32 nat
  | WaitRestore u32 nat
  | NotifyRead bool
  | NotifyFat u32 bool
  | HashRead bool
  | HashCas u32 u32 bool
  | HashFat u32

fun return_to :: "after \<Rightarrow> pc" where
  "return_to (ToEnter contention_count) = EnterLoop contention_count"
| "return_to (ToWait ms ns) = WaitRead ms ns"
| "return_to (ToHash stale) = HashRead stale"

text \<open>The points at which a thread is or can be suspended, and whom a thread keeps suspended.\<close>

fun suspend_point :: "pc \<Rightarrow> bool" where
  "suspend_point Idle = True"
| "suspend_point (LockBlocked _) = True"
| "suspend_point (LockAsleep _) = True"
| "suspend_point (LockWoken _) = True"
| "suspend_point (Suspending _ _ _) = True"
| "suspend_point (Waiting _ _) = True"
| "suspend_point (WaitBlocked _ _) = True"
| "suspend_point (WaitAsleep _ _) = True"
| "suspend_point (WaitWoken _ _) = True"
| "suspend_point _ = False"

fun suspends :: "pc \<Rightarrow> u32 option" where
  "suspends (Recheck t _ _) = Some t"
| "suspends (Install _ t _) = t"
| "suspends (InstallCas _ _ t _) = t"
| "suspends (Installed t _) = t"
| "suspends _ = None"

record lock_world =
  lock_word :: u32
  monitors :: "u32 \<Rightarrow> monitor option"
  pcs :: "u32 \<Rightarrow> pc"

definition suspended :: "lock_world \<Rightarrow> u32 \<Rightarrow> bool" where
  "suspended s t \<longleftrightarrow> (\<exists>u. suspends (pcs s u) = Some t)"

text \<open>The check of \<^verbatim>\<open>Install\<close> that the owner cannot run fails.\<close>

definition unsuspended_owner :: "u32 \<Rightarrow> lock_world \<Rightarrow> monitor \<Rightarrow> bool" where
  "unsuspended_owner self s mon \<longleftrightarrow>
     (case mon_owner mon of None \<Rightarrow> False | Some t \<Rightarrow> t \<noteq> self \<and> \<not> suspended s t)"

text \<open>A value that \<^verbatim>\<open>GenerateIdentityHashCode\<close> can return.\<close>

definition generated :: "u32 \<Rightarrow> bool" where
  "generated h \<longleftrightarrow> (\<exists>cas n seed seed'. GenerateIdentityHashCode cas n seed = Some (h, seed'))"

definition goto :: "u32 \<Rightarrow> pc \<Rightarrow> lock_world \<Rightarrow> lock_world" where
  "goto t p s = s\<lparr>pcs := (pcs s)(t := p)\<rparr>"

definition set_monitor :: "u32 \<Rightarrow> monitor option \<Rightarrow> lock_world \<Rightarrow> lock_world" where
  "set_monitor m mon s = s\<lparr>monitors := (monitors s)(m := mon)\<rparr>"

definition set_word :: "u32 \<Rightarrow> lock_world \<Rightarrow> lock_world" where
  "set_word w s = s\<lparr>lock_word := w\<rparr>"

definition valid_thread :: "u32 \<Rightarrow> bool" where
  "valid_thread t \<longleftrightarrow> 0 < t \<and> t \<le> kThinLockMaxOwner"

text \<open>\<^verbatim>\<open>monitor_contenders_\<close>: the threads that sleep on it, and what a signal does.\<close>

fun asleep_on :: "pc \<Rightarrow> u32 option" where
  "asleep_on (LockAsleep m) = Some m"
| "asleep_on (WaitAsleep m prev) = Some m"
| "asleep_on _ = None"

fun woken_on :: "pc \<Rightarrow> u32 option" where
  "woken_on (LockWoken m) = Some m"
| "woken_on (WaitWoken m prev) = Some m"
| "woken_on _ = None"

fun wake_up :: "pc \<Rightarrow> pc" where
  "wake_up (LockAsleep m) = LockWoken m"
| "wake_up (WaitAsleep m prev) = WaitWoken m prev"
| "wake_up p = p"

inductive signal :: "u32 \<Rightarrow> lock_world \<Rightarrow> lock_world \<Rightarrow> bool" for m s where
  signal_none: "(\<And>u. asleep_on (pcs s u) \<noteq> Some m) \<Longrightarrow> signal m s s"
| signal_one: "asleep_on (pcs s u) = Some m \<Longrightarrow> signal m s (goto u (wake_up (pcs s u)) s)"

text \<open>
  What a step means for the program: a lock taken or given back, a wait, or a hash code returned,
  with the hash codes that \<^verbatim>\<open>IdentityHashCode\<close> has swapped in through a stale \<^verbatim>\<open>this\<close> told apart.
\<close>

datatype mon_event = Tau | Entered u32 | Exited u32 | ExitFailed u32 | Released u32 | Returned u32 | Hashed u32
  | StaleHashed u32

text \<open>\<^verbatim>\<open>Monitor::MonitorEnter\<close>.\<close>

inductive enter_step :: "nat \<Rightarrow> u32 \<Rightarrow> lock_world \<Rightarrow> mon_event \<Rightarrow> lock_world \<Rightarrow> bool" for max_spins t s where
  enter: "pcs s t = Idle \<Longrightarrow> enter_step max_spins t s Tau (goto t (EnterLoop 0) s)"
| enter_unlocked: "pcs s t = EnterLoop c \<Longrightarrow> GetState (lock_word s) = kUnlocked \<Longrightarrow>
    enter_step max_spins t s Tau (goto t (EnterCas (lock_word s) c) s)"
| enter_cas: "pcs s t = EnterCas w c \<Longrightarrow> lock_word s = w \<Longrightarrow> FromThinLockId t 0 = Some w' \<Longrightarrow>
    enter_step max_spins t s (Entered t) (goto t Idle (set_word w' s))"
| enter_cas_check: "pcs s t = EnterCas w c \<Longrightarrow> FromThinLockId t 0 = None \<Longrightarrow>
    enter_step max_spins t s Tau (goto t Fatal s)"
| enter_cas_failed: "pcs s t = EnterCas w c \<Longrightarrow> enter_step max_spins t s Tau (goto t (EnterLoop c) s)"
| enter_thin: "pcs s t = EnterLoop c \<Longrightarrow> GetState (lock_word s) = kThinLocked \<Longrightarrow>
    enter_step max_spins t s Tau (goto t (EnterThin (lock_word s) c) s)"
| enter_recursive: "pcs s t = EnterThin w c \<Longrightarrow> ThinLockOwner w = t \<Longrightarrow>
    ThinLockCount w + 1 \<le> kThinLockMaxCount \<Longrightarrow> FromThinLockId t (ThinLockCount w + 1) = Some w' \<Longrightarrow>
    enter_step max_spins t s (Entered t) (goto t Idle (set_word w' s))"
| enter_recursive_check: "pcs s t = EnterThin w c \<Longrightarrow> ThinLockOwner w = t \<Longrightarrow>
    ThinLockCount w + 1 \<le> kThinLockMaxCount \<Longrightarrow> FromThinLockId t (ThinLockCount w + 1) = None \<Longrightarrow>
    enter_step max_spins t s Tau (goto t Fatal s)"
| enter_overflow: "pcs s t = EnterThin w c \<Longrightarrow> ThinLockOwner w = t \<Longrightarrow>
    \<not> ThinLockCount w + 1 \<le> kThinLockMaxCount \<Longrightarrow> monitors s m = None \<Longrightarrow> m \<le> kMaxMonitorId \<Longrightarrow>
    enter_step max_spins t s Tau
      (goto t (Install m None (ToEnter c)) (set_monitor m (Some (new_monitor (Some t) 0)) s))"
| enter_spin: "pcs s t = EnterThin w c \<Longrightarrow> ThinLockOwner w \<noteq> t \<Longrightarrow> c + 1 \<le> max_spins \<Longrightarrow>
    enter_step max_spins t s Tau (goto t (EnterLoop (c + 1)) s)"
| enter_contended: "pcs s t = EnterThin w c \<Longrightarrow> ThinLockOwner w \<noteq> t \<Longrightarrow> c + 1 > max_spins \<Longrightarrow>
    enter_step max_spins t s Tau (goto t (Suspending (ThinLockOwner w) 0 (ToEnter 0)) s)"
| enter_fat: "pcs s t = EnterLoop c \<Longrightarrow> GetState (lock_word s) = kFatLocked \<Longrightarrow>
    enter_step max_spins t s Tau (goto t (EnterFat (FatLockMonitorId (lock_word s))) s)"
| enter_hash: "pcs s t = EnterLoop c \<Longrightarrow> GetState (lock_word s) = kHashCode \<Longrightarrow>
    monitors s m = None \<Longrightarrow> m \<le> kMaxMonitorId \<Longrightarrow>
    enter_step max_spins t s Tau (goto t (Install m None (ToEnter c))
      (set_monitor m (Some (new_monitor None (LockWord_GetHashCode (lock_word s)))) s))"
| enter_invalid: "pcs s t = EnterLoop c \<Longrightarrow> GetState (lock_word s) = kForwardingAddress \<Longrightarrow>
    enter_step max_spins t s Tau (goto t Fatal s)"

text \<open>\<^verbatim>\<open>Monitor::InflateThinLocked\<close>, \<^verbatim>\<open>Inflate\<close> and \<^verbatim>\<open>Install\<close>.\<close>

inductive inflate_step :: "u32 \<Rightarrow> lock_world \<Rightarrow> mon_event \<Rightarrow> lock_world \<Rightarrow> bool" for t s where
  suspend: "pcs s t = Suspending u h k \<Longrightarrow> u \<noteq> t \<Longrightarrow> suspend_point (pcs s u) \<Longrightarrow>
    inflate_step t s Tau (goto t (Recheck u h k) s)"
| suspend_failed: "pcs s t = Suspending u h k \<Longrightarrow> inflate_step t s Tau (goto t (return_to k) s)"
| recheck: "pcs s t = Recheck u h k \<Longrightarrow> GetState (lock_word s) = kThinLocked \<Longrightarrow>
    ThinLockOwner (lock_word s) = u \<Longrightarrow> monitors s m = None \<Longrightarrow> m \<le> kMaxMonitorId \<Longrightarrow>
    inflate_step t s Tau
      (goto t (Install m (Some u) k) (set_monitor m (Some (new_monitor (Some u) h)) s))"
| recheck_changed: "pcs s t = Recheck u h k \<Longrightarrow>
    \<not> (GetState (lock_word s) = kThinLocked \<and> ThinLockOwner (lock_word s) = u) \<Longrightarrow>
    inflate_step t s Tau (goto t (return_to k) s)"
| install: "pcs s t = Install m u k \<Longrightarrow> monitors s m = Some mon \<Longrightarrow>
    \<not> unsuspended_owner t s mon \<Longrightarrow> Monitor_Install (lock_word s) mon = InstallTry mon' \<Longrightarrow>
    inflate_step t s Tau (goto t (InstallCas m (lock_word s) u k) (set_monitor m (Some mon') s))"
| install_lost: "pcs s t = Install m u k \<Longrightarrow> monitors s m = Some mon \<Longrightarrow>
    \<not> unsuspended_owner t s mon \<Longrightarrow> Monitor_Install (lock_word s) mon = InstallLost \<Longrightarrow>
    inflate_step t s Tau (goto t (return_to k) (set_monitor m None s))"
| install_check: "pcs s t = Install m u k \<Longrightarrow> monitors s m = Some mon \<Longrightarrow>
    unsuspended_owner t s mon \<or> Monitor_Install (lock_word s) mon = InstallCheckFailed \<Longrightarrow>
    inflate_step t s Tau (goto t Fatal s)"
| install_cas: "pcs s t = InstallCas m w u k \<Longrightarrow> lock_word s = w \<Longrightarrow>
    inflate_step t s Tau (goto t (Installed u k) (set_word (FromMonitorId m) s))"
| install_cas_failed: "pcs s t = InstallCas m w u k \<Longrightarrow>
    inflate_step t s Tau (goto t (return_to k) (set_monitor m None s))"
| installed: "pcs s t = Installed u k \<Longrightarrow> GetState (lock_word s) = kFatLocked \<Longrightarrow>
    inflate_step t s Tau (goto t (return_to k) s)"
| installed_check: "pcs s t = Installed u k \<Longrightarrow> GetState (lock_word s) \<noteq> kFatLocked \<Longrightarrow>
    inflate_step t s Tau (goto t Fatal s)"

text \<open>\<^verbatim>\<open>Monitor::Lock\<close> of the monitor that \<^verbatim>\<open>MonitorEnter\<close> found.\<close>

inductive lock_step :: "u32 \<Rightarrow> lock_world \<Rightarrow> mon_event \<Rightarrow> lock_world \<Rightarrow> bool" for t s where
  lock: "pcs s t = EnterFat m \<Longrightarrow> monitors s m = Some mon \<Longrightarrow> Monitor_Lock t mon = Locked mon' \<Longrightarrow>
    lock_step t s (Entered t) (goto t Idle (set_monitor m (Some mon') s))"
| lock_contended: "pcs s t = EnterFat m \<Longrightarrow> monitors s m = Some mon \<Longrightarrow> Monitor_Lock t mon = Contended mon' \<Longrightarrow>
    lock_step t s Tau (goto t (LockBlocked m) (set_monitor m (Some mon') s))"
| lock_check: "pcs s t = EnterFat m \<Longrightarrow> monitors s m = Some mon \<Longrightarrow> Monitor_Lock t mon = LockCheckFailed \<Longrightarrow>
    lock_step t s Tau (goto t Fatal s)"
| lock_overflow: "pcs s t = EnterFat m \<Longrightarrow> monitors s m = Some mon \<Longrightarrow> Monitor_Lock t mon = LockCountOverflow \<Longrightarrow>
    lock_step t s Tau (goto t Overflow s)"
| lock_again: "pcs s t = LockWoken m \<Longrightarrow> monitors s m = Some mon \<Longrightarrow>
    Monitor_Lock t (mon\<lparr>num_waiters := num_waiters mon - 1\<rparr>) = Locked mon' \<Longrightarrow>
    lock_step t s (Entered t) (goto t Idle (set_monitor m (Some mon') s))"
| lock_again_contended: "pcs s t = LockWoken m \<Longrightarrow> monitors s m = Some mon \<Longrightarrow>
    Monitor_Lock t (mon\<lparr>num_waiters := num_waiters mon - 1\<rparr>) = Contended mon' \<Longrightarrow>
    lock_step t s Tau (goto t (LockBlocked m) (set_monitor m (Some mon') s))"
| lock_again_check: "pcs s t = LockWoken m \<Longrightarrow> monitors s m = Some mon \<Longrightarrow>
    Monitor_Lock t (mon\<lparr>num_waiters := num_waiters mon - 1\<rparr>) = LockCheckFailed \<Longrightarrow>
    lock_step t s Tau (goto t Fatal s)"
| lock_again_overflow: "pcs s t = LockWoken m \<Longrightarrow> monitors s m = Some mon \<Longrightarrow>
    Monitor_Lock t (mon\<lparr>num_waiters := num_waiters mon - 1\<rparr>) = LockCountOverflow \<Longrightarrow>
    lock_step t s Tau (goto t Overflow s)"

text \<open>
  A contender in the state \<^verbatim>\<open>kBlocked\<close>, in \<^verbatim>\<open>Lock\<close> or in the call of \<^verbatim>\<open>Lock\<close> from \<^verbatim>\<open>Wait\<close>: it looks again
  whether the monitor is owned, and sleeps or goes on. It does so even while another thread wants it
  suspended. A sleeping thread may wake up without a signal.
\<close>

inductive contend_step :: "u32 \<Rightarrow> lock_world \<Rightarrow> lock_world \<Rightarrow> bool" for t s where
  lock_free: "pcs s t = LockBlocked m \<Longrightarrow> monitors s m = Some mon \<Longrightarrow> mon_owner mon = None \<Longrightarrow>
    contend_step t s (goto t (LockWoken m) s)"
| lock_sleep: "pcs s t = LockBlocked m \<Longrightarrow> monitors s m = Some mon \<Longrightarrow> mon_owner mon \<noteq> None \<Longrightarrow>
    contend_step t s (goto t (LockAsleep m) s)"
| wait_lock_free: "pcs s t = WaitBlocked m prev \<Longrightarrow> monitors s m = Some mon \<Longrightarrow> mon_owner mon = None \<Longrightarrow>
    contend_step t s (goto t (WaitWoken m prev) s)"
| wait_lock_sleep: "pcs s t = WaitBlocked m prev \<Longrightarrow> monitors s m = Some mon \<Longrightarrow> mon_owner mon \<noteq> None \<Longrightarrow>
    contend_step t s (goto t (WaitAsleep m prev) s)"
| spurious: "asleep_on (pcs s t) = Some m \<Longrightarrow> contend_step t s (goto t (wake_up (pcs s t)) s)"

text \<open>\<^verbatim>\<open>Monitor::MonitorExit\<close> and \<^verbatim>\<open>Monitor::Unlock\<close>.\<close>

inductive exit_step :: "u32 \<Rightarrow> lock_world \<Rightarrow> mon_event \<Rightarrow> lock_world \<Rightarrow> bool" for t s where
  exit: "pcs s t = Idle \<Longrightarrow> exit_step t s Tau (goto t ExitRead s)"
| exit_unowned: "pcs s t = ExitRead \<Longrightarrow> GetState (lock_word s) \<in> {kUnlocked, kHashCode} \<Longrightarrow>
    exit_step t s (ExitFailed t) (goto t Idle s)"
| exit_thin: "pcs s t = ExitRead \<Longrightarrow> GetState (lock_word s) = kThinLocked \<Longrightarrow>
    exit_step t s Tau (goto t (ExitThin (lock_word s)) s)"
| exit_thin_failed: "pcs s t = ExitThin w \<Longrightarrow> ThinLockOwner w \<noteq> t \<Longrightarrow>
    exit_step t s (ExitFailed t) (goto t Idle s)"
| exit_thin_count: "pcs s t = ExitThin w \<Longrightarrow> ThinLockOwner w = t \<Longrightarrow> ThinLockCount w \<noteq> 0 \<Longrightarrow>
    FromThinLockId t (ThinLockCount w - 1) = Some w' \<Longrightarrow>
    exit_step t s (Exited t) (goto t Idle (set_word w' s))"
| exit_thin_check: "pcs s t = ExitThin w \<Longrightarrow> ThinLockOwner w = t \<Longrightarrow> ThinLockCount w \<noteq> 0 \<Longrightarrow>
    FromThinLockId t (ThinLockCount w - 1) = None \<Longrightarrow> exit_step t s Tau (goto t Fatal s)"
| exit_thin_last: "pcs s t = ExitThin w \<Longrightarrow> ThinLockOwner w = t \<Longrightarrow> ThinLockCount w = 0 \<Longrightarrow>
    exit_step t s (Exited t) (goto t Idle (set_word 0 s))"
| exit_fat: "pcs s t = ExitRead \<Longrightarrow> GetState (lock_word s) = kFatLocked \<Longrightarrow>
    exit_step t s Tau (goto t (ExitFat (FatLockMonitorId (lock_word s))) s)"
| exit_invalid: "pcs s t = ExitRead \<Longrightarrow> GetState (lock_word s) = kForwardingAddress \<Longrightarrow>
    exit_step t s Tau (goto t Fatal s)"
| unlock: "pcs s t = ExitFat m \<Longrightarrow> monitors s m = Some mon \<Longrightarrow> Monitor_Unlock t mon = Some (mon', False) \<Longrightarrow>
    exit_step t s (Exited t) (goto t Idle (set_monitor m (Some mon') s))"
| unlock_signal: "pcs s t = ExitFat m \<Longrightarrow> monitors s m = Some mon \<Longrightarrow> Monitor_Unlock t mon = Some (mon', True) \<Longrightarrow>
    signal m s s1 \<Longrightarrow> exit_step t s (Exited t) (goto t Idle (set_monitor m (Some mon') s1))"
| unlock_failed: "pcs s t = ExitFat m \<Longrightarrow> monitors s m = Some mon \<Longrightarrow> Monitor_Unlock t mon = None \<Longrightarrow>
    exit_step t s (ExitFailed t) (goto t Idle s)"

text \<open>\<^verbatim>\<open>Monitor::Wait\<close>.\<close>

inductive wait_step :: "u32 \<Rightarrow> lock_world \<Rightarrow> mon_event \<Rightarrow> lock_world \<Rightarrow> bool" for t s where
  wait: "pcs s t = Idle \<Longrightarrow> wait_step t s Tau (goto t (WaitRead ms ns) s)"
| wait_unowned: "pcs s t = WaitRead ms ns \<Longrightarrow> GetState (lock_word s) \<in> {kUnlocked, kHashCode} \<Longrightarrow>
    wait_step t s Tau (goto t Idle s)"
| wait_thin_failed: "pcs s t = WaitRead ms ns \<Longrightarrow> GetState (lock_word s) = kThinLocked \<Longrightarrow>
    ThinLockOwner (lock_word s) \<noteq> t \<Longrightarrow> wait_step t s Tau (goto t Idle s)"
| wait_thin: "pcs s t = WaitRead ms ns \<Longrightarrow> GetState (lock_word s) = kThinLocked \<Longrightarrow>
    ThinLockOwner (lock_word s) = t \<Longrightarrow> monitors s m = None \<Longrightarrow> m \<le> kMaxMonitorId \<Longrightarrow>
    wait_step t s Tau
      (goto t (Install m None (ToWait ms ns)) (set_monitor m (Some (new_monitor (Some t) 0)) s))"
| wait_fat: "pcs s t = WaitRead ms ns \<Longrightarrow> GetState (lock_word s) = kFatLocked \<Longrightarrow>
    wait_step t s Tau (goto t (WaitFat (FatLockMonitorId (lock_word s)) ms ns) s)"
| wait_invalid: "pcs s t = WaitRead ms ns \<Longrightarrow> GetState (lock_word s) = kForwardingAddress \<Longrightarrow>
    wait_step t s Tau (goto t Fatal s)"
| wait_failed: "pcs s t = WaitFat m ms ns \<Longrightarrow> monitors s m = Some mon \<Longrightarrow>
    Monitor_Wait_begin t ms ns mon = None \<Longrightarrow> wait_step t s Tau (goto t Idle s)"
| wait_begin: "pcs s t = WaitFat m ms ns \<Longrightarrow> monitors s m = Some mon \<Longrightarrow>
    Monitor_Wait_begin t ms ns mon = Some (mon', prev) \<Longrightarrow> signal m s s1 \<Longrightarrow>
    wait_step t s (Released t) (goto t (Waiting m prev) (set_monitor m (Some mon') s1))"
| wake: "pcs s t = Waiting m prev \<Longrightarrow> wait_step t s Tau (goto t (WaitLock m prev) s)"
| wait_lock: "pcs s t = WaitLock m prev \<Longrightarrow> monitors s m = Some mon \<Longrightarrow> Monitor_Lock t mon = Locked mon' \<Longrightarrow>
    wait_step t s Tau (goto t (WaitRestore m prev) (set_monitor m (Some mon') s))"
| wait_lock_contended: "pcs s t = WaitLock m prev \<Longrightarrow> monitors s m = Some mon \<Longrightarrow>
    Monitor_Lock t mon = Contended mon' \<Longrightarrow>
    wait_step t s Tau (goto t (WaitBlocked m prev) (set_monitor m (Some mon') s))"
| wait_lock_check: "pcs s t = WaitLock m prev \<Longrightarrow> monitors s m = Some mon \<Longrightarrow>
    Monitor_Lock t mon = LockCheckFailed \<Longrightarrow> wait_step t s Tau (goto t Fatal s)"
| wait_lock_overflow: "pcs s t = WaitLock m prev \<Longrightarrow> monitors s m = Some mon \<Longrightarrow>
    Monitor_Lock t mon = LockCountOverflow \<Longrightarrow> wait_step t s Tau (goto t Overflow s)"
| wait_lock_again: "pcs s t = WaitWoken m prev \<Longrightarrow> monitors s m = Some mon \<Longrightarrow>
    Monitor_Lock t (mon\<lparr>num_waiters := num_waiters mon - 1\<rparr>) = Locked mon' \<Longrightarrow>
    wait_step t s Tau (goto t (WaitRestore m prev) (set_monitor m (Some mon') s))"
| wait_lock_again_contended: "pcs s t = WaitWoken m prev \<Longrightarrow> monitors s m = Some mon \<Longrightarrow>
    Monitor_Lock t (mon\<lparr>num_waiters := num_waiters mon - 1\<rparr>) = Contended mon' \<Longrightarrow>
    wait_step t s Tau (goto t (WaitBlocked m prev) (set_monitor m (Some mon') s))"
| wait_lock_again_check: "pcs s t = WaitWoken m prev \<Longrightarrow> monitors s m = Some mon \<Longrightarrow>
    Monitor_Lock t (mon\<lparr>num_waiters := num_waiters mon - 1\<rparr>) = LockCheckFailed \<Longrightarrow>
    wait_step t s Tau (goto t Fatal s)"
| wait_lock_again_overflow: "pcs s t = WaitWoken m prev \<Longrightarrow> monitors s m = Some mon \<Longrightarrow>
    Monitor_Lock t (mon\<lparr>num_waiters := num_waiters mon - 1\<rparr>) = LockCountOverflow \<Longrightarrow>
    wait_step t s Tau (goto t Overflow s)"
| wait_end: "pcs s t = WaitRestore m prev \<Longrightarrow> monitors s m = Some mon \<Longrightarrow>
    wait_step t s (Returned t) (goto t Idle (set_monitor m (Some (Monitor_Wait_end t prev mon)) s))"

text \<open>\<^verbatim>\<open>Monitor::DoNotify\<close>.\<close>

inductive notify_step :: "u32 \<Rightarrow> lock_world \<Rightarrow> mon_event \<Rightarrow> lock_world \<Rightarrow> bool" for t s where
  notify: "pcs s t = Idle \<Longrightarrow> notify_step t s Tau (goto t (NotifyRead notify_all) s)"
| notify_thin: "pcs s t = NotifyRead notify_all \<Longrightarrow>
    GetState (lock_word s) \<in> {kUnlocked, kHashCode, kThinLocked} \<Longrightarrow> notify_step t s Tau (goto t Idle s)"
| notify_fat: "pcs s t = NotifyRead notify_all \<Longrightarrow> GetState (lock_word s) = kFatLocked \<Longrightarrow>
    notify_step t s Tau (goto t (NotifyFat (FatLockMonitorId (lock_word s)) notify_all) s)"
| notify_invalid: "pcs s t = NotifyRead notify_all \<Longrightarrow> GetState (lock_word s) = kForwardingAddress \<Longrightarrow>
    notify_step t s Tau (goto t Fatal s)"
| notify_failed: "pcs s t = NotifyFat m notify_all \<Longrightarrow> monitors s m = Some mon \<Longrightarrow> mon_owner mon \<noteq> Some t \<Longrightarrow>
    notify_step t s Tau (goto t Idle s)"
| notify_done: "pcs s t = NotifyFat m notify_all \<Longrightarrow> monitors s m = Some mon \<Longrightarrow>
    (if notify_all then Monitor_NotifyAll t mon
     else Monitor_Notify (\<lambda>u. \<exists>prev. pcs s u = Waiting m prev) t mon) = Some mon' \<Longrightarrow>
    notify_step t s Tau (goto t Idle (set_monitor m (Some mon') s))"

text \<open>\<^verbatim>\<open>Object::IdentityHashCode\<close> and \<^verbatim>\<open>Monitor::GetHashCode\<close>.\<close>

inductive hash_step :: "u32 \<Rightarrow> lock_world \<Rightarrow> mon_event \<Rightarrow> lock_world \<Rightarrow> bool" for t s where
  hash: "pcs s t = Idle \<Longrightarrow> hash_step t s Tau (goto t (HashRead False) s)"
| hash_unlocked: "pcs s t = HashRead stale \<Longrightarrow> GetState (lock_word s) = kUnlocked \<Longrightarrow> generated h \<Longrightarrow>
    hash_step t s Tau (goto t (HashCas (lock_word s) h stale) s)"
| hash_cas: "pcs s t = HashCas w h False \<Longrightarrow> lock_word s = w \<Longrightarrow> FromHashCode h = Some w' \<Longrightarrow>
    hash_step t s (Hashed h) (goto t Idle (set_word w' s))"
| hash_cas_stale: "pcs s t = HashCas w h True \<Longrightarrow> FromHashCode h = Some w' \<Longrightarrow>
    hash_step t s (StaleHashed h) (goto t Idle s)"
| hash_cas_check: "pcs s t = HashCas w h stale \<Longrightarrow> FromHashCode h = None \<Longrightarrow>
    hash_step t s Tau (goto t Fatal s)"
| hash_cas_failed: "pcs s t = HashCas w h stale \<Longrightarrow> hash_step t s Tau (goto t (HashRead stale) s)"
| hash_thin: "pcs s t = HashRead stale \<Longrightarrow> GetState (lock_word s) = kThinLocked \<Longrightarrow> ThinLockOwner (lock_word s) = t \<Longrightarrow>
    generated h \<Longrightarrow> monitors s m = None \<Longrightarrow> m \<le> kMaxMonitorId \<Longrightarrow>
    hash_step t s Tau
      (goto t (Install m None (ToHash stale)) (set_monitor m (Some (new_monitor (Some t) h)) s))"
| hash_contended: "pcs s t = HashRead stale \<Longrightarrow> GetState (lock_word s) = kThinLocked \<Longrightarrow>
    ThinLockOwner (lock_word s) \<noteq> t \<Longrightarrow> generated h \<Longrightarrow>
    hash_step t s Tau (goto t (Suspending (ThinLockOwner (lock_word s)) h (ToHash stale)) s)"
| hash_fat: "pcs s t = HashRead stale \<Longrightarrow> GetState (lock_word s) = kFatLocked \<Longrightarrow>
    hash_step t s Tau (goto t (HashFat (FatLockMonitorId (lock_word s))) s)"
| hash_word: "pcs s t = HashRead stale \<Longrightarrow> GetState (lock_word s) = kHashCode \<Longrightarrow>
    hash_step t s (Hashed (LockWord_GetHashCode (lock_word s))) (goto t Idle s)"
| hash_invalid: "pcs s t = HashRead stale \<Longrightarrow> GetState (lock_word s) = kForwardingAddress \<Longrightarrow>
    hash_step t s Tau (goto t Fatal s)"
| hash_monitor: "pcs s t = HashFat m \<Longrightarrow> monitors s m = Some mon \<Longrightarrow> hash_code mon \<noteq> 0 \<Longrightarrow>
    hash_step t s (Hashed (hash_code mon)) (goto t Idle s)"
| hash_monitor_new: "pcs s t = HashFat m \<Longrightarrow> monitors s m = Some mon \<Longrightarrow> hash_code mon = 0 \<Longrightarrow>
    generated h \<Longrightarrow>
    hash_step t s Tau (set_monitor m (Some (mon\<lparr>hash_code := h\<rparr>)) s)"

text \<open>One step of one thread, whatever operation it is in.\<close>

definition tstep :: "nat \<Rightarrow> u32 \<Rightarrow> lock_world \<Rightarrow> mon_event \<Rightarrow> lock_world \<Rightarrow> bool" where
  "tstep max_spins t s e s' \<longleftrightarrow>
     enter_step max_spins t s e s' \<or> inflate_step t s e s' \<or> lock_step t s e s' \<or> exit_step t s e s' \<or>
     wait_step t s e s' \<or> notify_step t s e s' \<or> hash_step t s e s'"

text \<open>A moved object leaves \<^verbatim>\<open>this\<close> of a call of \<^verbatim>\<open>IdentityHashCode\<close> behind.\<close>

fun after_move :: "pc \<Rightarrow> pc" where
  "after_move (Suspending u h (ToHash stale)) = Suspending u h (ToHash True)"
| "after_move p = p"

definition move_object :: "lock_world \<Rightarrow> lock_world" where
  "move_object s = s\<lparr>pcs := after_move \<circ> pcs s\<rparr>"

text \<open>
  A step of some thread that is not suspended or is blocked anyway, or of the collector, which moves
  the object or deflates its monitor and stops as thread 0 when one of its checks fails.
\<close>

inductive mon_step :: "nat \<Rightarrow> lock_world \<Rightarrow> mon_event \<Rightarrow> lock_world \<Rightarrow> bool" for max_spins s where
  thread: "valid_thread t \<Longrightarrow> \<not> suspended s t \<Longrightarrow> tstep max_spins t s e s' \<Longrightarrow> mon_step max_spins s e s'"
| contend: "valid_thread t \<Longrightarrow> contend_step t s s' \<Longrightarrow> mon_step max_spins s Tau s'"
| move: "(\<And>t. suspend_point (pcs s t)) \<Longrightarrow> mon_step max_spins s Tau (move_object s)"
| deflate: "(\<And>t. suspend_point (pcs s t)) \<Longrightarrow> GetState (lock_word s) = kFatLocked \<Longrightarrow>
    monitors s (FatLockMonitorId (lock_word s)) = Some mon \<Longrightarrow> Monitor_Deflate mon = Some (Some w) \<Longrightarrow>
    mon_step max_spins s Tau (set_monitor (FatLockMonitorId (lock_word s)) None (set_word w s))"
| deflate_check: "(\<And>t. suspend_point (pcs s t)) \<Longrightarrow> GetState (lock_word s) = kFatLocked \<Longrightarrow>
    monitors s (FatLockMonitorId (lock_word s)) = Some mon \<Longrightarrow> Monitor_Deflate mon = Some None \<Longrightarrow>
    mon_step max_spins s Tau (goto 0 Fatal s)"

definition initial_world :: lock_world where
  "initial_world = \<lparr>lock_word = 0, monitors = \<lambda>_. None, pcs = \<lambda>_. Idle\<rparr>"

text \<open>The events of a run, the last one first.\<close>

inductive trace :: "('s \<Rightarrow> 'e \<Rightarrow> 's \<Rightarrow> bool) \<Rightarrow> 's \<Rightarrow> 'e list \<Rightarrow> 's \<Rightarrow> bool" for st s0 where
  trace_start: "trace st s0 [] s0"
| trace_step: "trace st s0 es s \<Longrightarrow> st s e s' \<Longrightarrow> trace st s0 (e # es) s'"

definition mon_run :: "nat \<Rightarrow> mon_event list \<Rightarrow> lock_world \<Rightarrow> bool" where
  "mon_run max_spins es s \<longleftrightarrow> trace (mon_step max_spins) initial_world es s"

section \<open>Queries\<close>

text \<open>The thread identifier 0 is \<^verbatim>\<open>kInvalidThreadId\<close>; \<^const>\<open>None\<close> is the fatal error.\<close>

definition GetLockOwnerThreadId :: "lock_world \<Rightarrow> u32 option" where
  "GetLockOwnerThreadId s =
     (case GetState (lock_word s) of
        kHashCode \<Rightarrow> Some 0
      | kUnlocked \<Rightarrow> Some 0
      | kThinLocked \<Rightarrow> Some (ThinLockOwner (lock_word s))
      | kFatLocked \<Rightarrow>
          (case monitors s (FatLockMonitorId (lock_word s)) of
             None \<Rightarrow> None
           | Some mon \<Rightarrow> Some (case mon_owner mon of None \<Rightarrow> 0 | Some t \<Rightarrow> t))
      | kForwardingAddress \<Rightarrow> None)"

end
