(* ===== verification/MonitorSafety.thy ===== *)
theory MonitorSafety
  imports MonitorModel
begin

text \<open>
  The invariant of an object lock. It has one condition on the lock word, one on every thread that
  depends on the point the thread has reached, and the count of waiters that keeps a monitor from being
  deflated under a thread. What a step of one thread does to the others is summed up in \<open>guarantee\<close>, so
  that the stability of the conditions on the other threads is proved once.
\<close>

section \<open>Owner, recursion and hash code of an object\<close>

definition current_monitor :: "lock_world \<Rightarrow> monitor option" where
  "current_monitor s =
     (if GetState (lock_word s) = kFatLocked then monitors s (FatLockMonitorId (lock_word s)) else None)"

definition lock_owner :: "lock_world \<Rightarrow> u32 option" where
  "lock_owner s =
     (if GetState (lock_word s) = kThinLocked then Some (ThinLockOwner (lock_word s))
      else case current_monitor s of None \<Rightarrow> None | Some mon \<Rightarrow> mon_owner mon)"

definition lock_depth :: "lock_world \<Rightarrow> nat" where
  "lock_depth s =
     (if GetState (lock_word s) = kThinLocked then unat (ThinLockCount (lock_word s)) + 1
      else case current_monitor s of None \<Rightarrow> 0 | Some mon \<Rightarrow> lock_count mon + 1)"

definition lock_hash :: "lock_world \<Rightarrow> u32" where
  "lock_hash s =
     (if GetState (lock_word s) = kHashCode then LockWord_GetHashCode (lock_word s)
      else case current_monitor s of None \<Rightarrow> 0 | Some mon \<Rightarrow> hash_code mon)"

section \<open>The invariant\<close>

definition fat :: "lock_world \<Rightarrow> u32 \<Rightarrow> bool" where
  "fat s m \<longleftrightarrow> GetState (lock_word s) = kFatLocked \<and> FatLockMonitorId (lock_word s) = m"

definition mon_ok :: "monitor \<Rightarrow> bool" where
  "mon_ok mon \<longleftrightarrow> (mon_owner mon = None \<longrightarrow> lock_count mon = 0) \<and>
     (\<forall>t. mon_owner mon = Some t \<longrightarrow> valid_thread t) \<and> hash_code mon \<le> kMaxHash"

definition word_ok :: "lock_world \<Rightarrow> bool" where
  "word_ok s \<longleftrightarrow> GetState (lock_word s) \<noteq> kForwardingAddress \<and>
     (GetState (lock_word s) = kThinLocked \<longrightarrow> valid_thread (ThinLockOwner (lock_word s))) \<and>
     (GetState (lock_word s) = kHashCode \<longrightarrow> LockWord_GetHashCode (lock_word s) \<noteq> 0) \<and>
     (GetState (lock_word s) = kFatLocked \<longrightarrow> (\<exists>mon. current_monitor s = Some mon \<and> mon_ok mon))"

definition owner_ok :: "lock_world \<Rightarrow> u32 \<Rightarrow> u32 option \<Rightarrow> monitor \<Rightarrow> bool" where
  "owner_ok s t so mon \<longleftrightarrow>
     (case so of
        None \<Rightarrow> mon_owner mon = None \<or> mon_owner mon = Some t
      | Some u \<Rightarrow> mon_owner mon = Some u \<and> u \<noteq> t \<and> suspend_point (pcs s u))"

text \<open>The monitor agrees with a thin lock or hash code word.\<close>

definition describes :: "monitor \<Rightarrow> u32 \<Rightarrow> bool" where
  "describes mon w \<longleftrightarrow>
     GetState w = kThinLocked \<and> mon_owner mon = Some (ThinLockOwner w) \<or>
     GetState w = kHashCode \<and> mon_owner mon = None \<and> hash_code mon = LockWord_GetHashCode w"

definition private_monitor :: "lock_world \<Rightarrow> u32 \<Rightarrow> u32 \<Rightarrow> u32 option \<Rightarrow> monitor \<Rightarrow> bool" where
  "private_monitor s t m so mon \<longleftrightarrow>
     monitors s m = Some mon \<and> m \<le> kMaxMonitorId \<and> mon_ok mon \<and> num_waiters mon = 0 \<and>
     \<not> fat s m \<and> owner_ok s t so mon"

fun pc_ok :: "lock_world \<Rightarrow> u32 \<Rightarrow> pc \<Rightarrow> bool" where
  "pc_ok s t Fatal = False"
| "pc_ok s t (EnterCas w c) = (w = 0)"
| "pc_ok s t (EnterThin w c) = (ThinLockOwner w = t \<longrightarrow> lock_word s = w \<and> GetState w = kThinLocked)"
| "pc_ok s t (EnterFat m) = fat s m"
| "pc_ok s t Overflow = (lock_owner s = Some t \<and> 2 ^ 31 \<le> lock_depth s)"
| "pc_ok s t (LockBlocked m) = (fat s m \<and> lock_owner s \<noteq> Some t)"
| "pc_ok s t (LockAsleep m) = (fat s m \<and> lock_owner s \<noteq> Some t)"
| "pc_ok s t (LockWoken m) = (fat s m \<and> lock_owner s \<noteq> Some t)"
| "pc_ok s t (Suspending u h k) = (h \<le> kMaxHash \<and> u \<noteq> t)"
| "pc_ok s t (Recheck u h k) = (h \<le> kMaxHash \<and> u \<noteq> t \<and> suspend_point (pcs s u))"
| "pc_ok s t (Install m so k) =
     (\<exists>mon. private_monitor s t m so mon \<and> lock_count mon = 0 \<and>
        (GetState (lock_word s) = kFatLocked \<or> describes mon (lock_word s)))"
| "pc_ok s t (InstallCas m w so k) =
     (\<exists>mon. private_monitor s t m so mon \<and> describes mon w \<and>
        (GetState w = kThinLocked \<longrightarrow> lock_count mon = unat (ThinLockCount w)))"
| "pc_ok s t (Installed so k) =
     (GetState (lock_word s) = kFatLocked \<and> (\<forall>u. so = Some u \<longrightarrow> u \<noteq> t \<and> suspend_point (pcs s u)))"
| "pc_ok s t (ExitThin w) =
     (if ThinLockOwner w = t then lock_word s = w \<and> GetState w = kThinLocked else lock_owner s \<noteq> Some t)"
| "pc_ok s t (ExitFat m) = fat s m"
| "pc_ok s t (WaitFat m ms ns) = fat s m"
| "pc_ok s t (Waiting m prev) = (fat s m \<and> lock_owner s \<noteq> Some t)"
| "pc_ok s t (WaitLock m prev) = (fat s m \<and> lock_owner s \<noteq> Some t)"
| "pc_ok s t (WaitBlocked m prev) = (fat s m \<and> lock_owner s \<noteq> Some t)"
| "pc_ok s t (WaitAsleep m prev) = (fat s m \<and> lock_owner s \<noteq> Some t)"
| "pc_ok s t (WaitWoken m prev) = (fat s m \<and> lock_owner s \<noteq> Some t)"
| "pc_ok s t (WaitRestore m prev) = (fat s m \<and> lock_owner s = Some t \<and> lock_depth s = 1)"
| "pc_ok s t (NotifyFat m n) = fat s m"
| "pc_ok s t (HashCas w h stale) = (w = 0 \<and> h \<noteq> 0 \<and> h \<le> kMaxHash)"
| "pc_ok s t (HashFat m) = fat s m"
| "pc_ok s t _ = True"

fun installing :: "pc \<Rightarrow> u32 option" where
  "installing (Install m _ _) = Some m"
| "installing (InstallCas m _ _ _) = Some m"
| "installing _ = None"

text \<open>What a thread at this point has added to \<^verbatim>\<open>num_waiters_\<close>.\<close>

fun weight :: "pc \<Rightarrow> nat" where
  "weight (LockBlocked _) = 1"
| "weight (LockAsleep _) = 1"
| "weight (LockWoken _) = 1"
| "weight (Waiting _ _) = 1"
| "weight (WaitLock _ _) = 1"
| "weight (WaitBlocked _ _) = 2"
| "weight (WaitAsleep _ _) = 2"
| "weight (WaitWoken _ _) = 2"
| "weight (WaitRestore _ _) = 1"
| "weight _ = 0"

definition waiting_total :: "lock_world \<Rightarrow> nat" where
  "waiting_total s = (\<Sum>t\<in>UNIV. weight (pcs s t))"

definition lock_inv :: "lock_world \<Rightarrow> bool" where
  "lock_inv s \<longleftrightarrow> word_ok s \<and> (\<forall>t. pc_ok s t (pcs s t)) \<and>
     (\<forall>t u m. installing (pcs s t) = Some m \<and> installing (pcs s u) = Some m \<longrightarrow> t = u) \<and>
     (\<forall>mon. current_monitor s = Some mon \<longrightarrow> num_waiters mon = waiting_total s)"

section \<open>Basic facts\<close>

lemma world_simps [simp]:
  "lock_word (goto t p s) = lock_word s" "monitors (goto t p s) = monitors s"
  "pcs (goto t p s) = (pcs s)(t := p)"
  "lock_word (set_monitor m x s) = lock_word s" "pcs (set_monitor m x s) = pcs s"
  "monitors (set_monitor m x s) = (monitors s)(m := x)"
  "lock_word (set_word w s) = w" "monitors (set_word w s) = monitors s" "pcs (set_word w s) = pcs s"
  by (simp_all add: goto_def set_monitor_def set_word_def)

lemma goto_views [simp]:
  "current_monitor (goto t p s) = current_monitor s" "lock_owner (goto t p s) = lock_owner s"
  "lock_depth (goto t p s) = lock_depth s" "lock_hash (goto t p s) = lock_hash s"
  "fat (goto t p s) m = fat s m" "word_ok (goto t p s) = word_ok s"
  by (simp_all add: current_monitor_def lock_owner_def lock_depth_def lock_hash_def fat_def word_ok_def)

lemma state_unlocked [simp]: "GetState w = kUnlocked \<longleftrightarrow> w = 0"
  by (simp add: GetState_bits)

lemma waiting_total_goto:
  "waiting_total (goto t p s) + weight (pcs s t) = waiting_total s + weight p"
proof -
  have "waiting_total s = weight (pcs s t) + (\<Sum>u\<in>UNIV - {t}. weight (pcs s u))"
    unfolding waiting_total_def by (rule sum.remove) auto
  moreover have "waiting_total (goto t p s) = weight p + (\<Sum>u\<in>UNIV - {t}. weight (pcs (goto t p s) u))"
    unfolding waiting_total_def by (subst sum.remove [of UNIV t]) auto
  moreover have "(\<Sum>u\<in>UNIV - {t}. weight (pcs (goto t p s) u)) = (\<Sum>u\<in>UNIV - {t}. weight (pcs s u))"
    by (rule sum.cong) auto
  ultimately show ?thesis by simp
qed

lemma waiting_total_cong [simp]:
  "waiting_total (set_monitor m x s) = waiting_total s" "waiting_total (set_word w s) = waiting_total s"
  by (simp_all add: waiting_total_def)

lemma waiting_total_zero: "waiting_total s = 0 \<longleftrightarrow> (\<forall>t. weight (pcs s t) = 0)"
  by (simp add: waiting_total_def)

lemma weight_fat: "pc_ok s t p \<Longrightarrow> 0 < weight p \<Longrightarrow> GetState (lock_word s) = kFatLocked"
  by (cases p) (auto simp: fat_def)

lemma no_waiters: "lock_inv s \<Longrightarrow> GetState (lock_word s) \<noteq> kFatLocked \<Longrightarrow> waiting_total s = 0"
  unfolding waiting_total_zero by (metis lock_inv_def weight_fat gr0I)

lemma fat_current: "fat s m \<Longrightarrow> current_monitor s = monitors s m"
  by (simp add: fat_def current_monitor_def)

lemma lock_invD:
  assumes "lock_inv s"
  shows "word_ok s" "pc_ok s t (pcs s t)"
    "installing (pcs s t) = Some m \<Longrightarrow> installing (pcs s u) = Some m \<Longrightarrow> t = u"
    "current_monitor s = Some mon \<Longrightarrow> num_waiters mon = waiting_total s"
  using assms unfolding lock_inv_def by blast+

lemma generated_facts: "generated h \<Longrightarrow> h \<noteq> 0 \<and> h \<le> kMaxHash"
proof -
  have *: "fst r \<noteq> 0 \<and> fst r \<le> kMaxHash" if "GenerateIdentityHashCode cas n seed = Some r" for cas n seed r
    using that
  proof (induction rule: GenerateIdentityHashCode.raw_induct [rotated 1, consumes 1])
    case (1 f cas n seed r)
    have "seed AND kHashMask \<le> kMaxHash"
      by (simp add: kHashMask_def kMaxHash_def word_and_le1)
    then show ?case using 1 by (auto split: if_splits)
  qed
  assume "generated h"
  then show ?thesis using * unfolding generated_def by fastforce
qed

section \<open>What a step does to the other threads\<close>

definition guarantee :: "u32 \<Rightarrow> lock_world \<Rightarrow> lock_world \<Rightarrow> bool" where
  "guarantee t s s' \<longleftrightarrow>
     (\<forall>u. u \<noteq> t \<longrightarrow> pcs s' u = pcs s u) \<and>
     (\<forall>m. fat s m \<longrightarrow> fat s' m) \<and>
     (\<forall>u. u \<noteq> t \<and> GetState (lock_word s) = kThinLocked \<and> ThinLockOwner (lock_word s) = u \<longrightarrow>
        lock_word s' = lock_word s \<or>
        GetState (lock_word s') = kFatLocked \<and> suspend_point (pcs s u)) \<and>
     (GetState (lock_word s) = kHashCode \<longrightarrow>
        lock_word s' = lock_word s \<or> GetState (lock_word s') = kFatLocked) \<and>
     (\<forall>u m. u \<noteq> t \<and> installing (pcs s u) = Some m \<and> \<not> fat s m \<longrightarrow>
        monitors s' m = monitors s m \<and> \<not> fat s' m) \<and>
     (\<forall>u. u \<noteq> t \<longrightarrow> (lock_owner s' = Some u \<longleftrightarrow> lock_owner s = Some u)) \<and>
     (\<forall>u. u \<noteq> t \<and> lock_owner s = Some u \<longrightarrow> lock_depth s' = lock_depth s)"

lemma guaranteeD:
  assumes "guarantee t s s'" "u \<noteq> t"
  shows "pcs s' u = pcs s u" "fat s m \<Longrightarrow> fat s' m"
    "GetState (lock_word s) = kThinLocked \<Longrightarrow> ThinLockOwner (lock_word s) = u \<Longrightarrow>
       lock_word s' = lock_word s \<or> GetState (lock_word s') = kFatLocked \<and> suspend_point (pcs s u)"
    "GetState (lock_word s) = kHashCode \<Longrightarrow>
       lock_word s' = lock_word s \<or> GetState (lock_word s') = kFatLocked"
    "installing (pcs s u) = Some m \<Longrightarrow> \<not> fat s m \<Longrightarrow> monitors s' m = monitors s m \<and> \<not> fat s' m"
    "lock_owner s' = Some u \<longleftrightarrow> lock_owner s = Some u"
    "lock_owner s = Some u \<Longrightarrow> lock_depth s' = lock_depth s"
  using assms unfolding guarantee_def by blast+

lemma fat_state: "GetState (lock_word s) = kFatLocked \<longleftrightarrow> (\<exists>m. fat s m)"
  by (simp add: fat_def)

lemma guarantee_fat:
  assumes "guarantee t s s'" "GetState (lock_word s) = kFatLocked"
  shows "GetState (lock_word s') = kFatLocked"
  using assms unfolding guarantee_def fat_state by blast

text \<open>The owner of a monitor under construction stays where it is.\<close>

lemma owner_ok_stable:
  assumes "guarantee t s s'" "u \<noteq> t" "owner_ok s u so mon" "so \<noteq> Some t"
  shows "owner_ok s' u so mon"
  using assms guaranteeD(1) [OF assms(1)] by (cases so) (auto simp: owner_ok_def)

lemma private_monitor_stable:
  assumes "guarantee t s s'" "u \<noteq> t" "private_monitor s u m so mon" "installing (pcs s u) = Some m" "so \<noteq> Some t"
  shows "private_monitor s' u m so mon"
  using assms(3) guaranteeD(5) [OF assms(1,2,4)] owner_ok_stable [OF assms(1,2) _ assms(5)]
  unfolding private_monitor_def by auto

lemma describes_stable:
  assumes g: "guarantee t s s'" and u: "u \<noteq> t" and d: "describes mon (lock_word s)"
    and o: "owner_ok s u so mon" and so: "so \<noteq> Some t"
  shows "GetState (lock_word s') = kFatLocked \<or> describes mon (lock_word s')"
proof (cases "GetState (lock_word s) = kThinLocked")
  case True
  then have own: "mon_owner mon = Some (ThinLockOwner (lock_word s))" using d by (simp add: describes_def)
  then have "ThinLockOwner (lock_word s) \<noteq> t" using o so u by (cases so) (auto simp: owner_ok_def)
  then show ?thesis using guaranteeD(3) [OF g _ True refl] d by auto
next
  case False
  then have "GetState (lock_word s) = kHashCode" using d by (simp add: describes_def)
  then show ?thesis using guaranteeD(4) [OF g u] d by auto
qed

lemma pc_ok_stable:
  assumes g: "guarantee t s s'" and u: "u \<noteq> t" and ok: "pc_ok s u (pcs s u)" and ns: "suspends (pcs s u) \<noteq> Some t"
  shows "pc_ok s' u (pcs s' u)"
proof -
  note G = guaranteeD [OF g u]
  have pcs: "pcs s' v = pcs s v" if "v \<noteq> t" for v using guaranteeD(1) [OF g that] .
  show ?thesis unfolding G(1)
  proof (cases "pcs s u")
    case (EnterThin w c)
    then show "pc_ok s' u (pcs s u)" using ok G(3) by auto
  next
    case (ExitThin w)
    then show "pc_ok s' u (pcs s u)" using ok G(3,6) by (auto split: if_splits)
  next
    case (Recheck v h k)
    then show "pc_ok s' u (pcs s u)" using ok ns pcs [of v] by auto
  next
    case (Install m so k)
    then obtain mon where m: "private_monitor s u m so mon" "lock_count mon = 0"
        "GetState (lock_word s) = kFatLocked \<or> describes mon (lock_word s)" using ok by auto
    have so: "so \<noteq> Some t" using Install ns by auto
    have "private_monitor s' u m so mon" using private_monitor_stable [OF g u m(1) _ so] Install by simp
    moreover have "GetState (lock_word s') = kFatLocked \<or> describes mon (lock_word s')"
      using m(3) guarantee_fat [OF g] describes_stable [OF g u _ _ so] m(1) by (auto simp: private_monitor_def)
    ultimately show "pc_ok s' u (pcs s u)" using Install m(2) by auto
  next
    case (InstallCas m w so k)
    then obtain mon where m: "private_monitor s u m so mon" and rest: "describes mon w"
        "GetState w = kThinLocked \<longrightarrow> lock_count mon = unat (ThinLockCount w)" using ok by auto
    have so: "so \<noteq> Some t" using InstallCas ns by auto
    have "private_monitor s' u m so mon" using private_monitor_stable [OF g u m _ so] InstallCas by simp
    then show "pc_ok s' u (pcs s u)" using InstallCas rest by auto
  next
    case (Installed so k)
    have "suspend_point (pcs s' v)" if "so = Some v" for v using that ok ns Installed pcs [of v] by auto
    then show "pc_ok s' u (pcs s u)" using ok Installed guarantee_fat [OF g] by auto
  next
    case (WaitRestore m prev)
    then show "pc_ok s' u (pcs s u)" using ok G(2,6,7) by auto
  next
    case Overflow
    then show "pc_ok s' u (pcs s u)" using ok G(6,7) by auto
  qed (use ok G(2,6) in auto)
qed

lemma not_suspended: "\<not> suspended s t \<Longrightarrow> suspends (pcs s u) \<noteq> Some t"
  by (auto simp: suspended_def)

text \<open>The parts of the invariant a step has to establish.\<close>

lemma inv_stepI:
  assumes i: "lock_inv s" and g: "guarantee t s s'" and ns: "\<not> suspended s t"
    and pc: "pc_ok s' t (pcs s' t)" and w: "word_ok s'"
    and inst: "installing (pcs s' t) = None \<or> installing (pcs s' t) = installing (pcs s t) \<or>
      (\<exists>m. installing (pcs s' t) = Some m \<and> monitors s m = None)"
    and wait: "\<And>mon. current_monitor s' = Some mon \<Longrightarrow> num_waiters mon = waiting_total s'"
  shows "lock_inv s'"
proof -
  have pcs: "pcs s' u = pcs s u" if "u \<noteq> t" for u using guaranteeD(1) [OF g that] .
  have mon: "monitors s m \<noteq> None" if "installing (pcs s u) = Some m" for u m
    using that lock_invD(2) [OF i, of u] by (cases "pcs s u") (auto simp: private_monitor_def)
  have "pc_ok s' u (pcs s' u)" for u
  proof (cases "u = t")
    case True
    then show ?thesis using pc by simp
  next
    case False
    then show ?thesis using pc_ok_stable [OF g False lock_invD(2) [OF i]] not_suspended [OF ns] by blast
  qed
  moreover have "u = v" if "installing (pcs s' u) = Some m" "installing (pcs s' v) = Some m" for u v m
  proof (rule ccontr)
    assume "u \<noteq> v"
    have *: False if "x \<noteq> t" "installing (pcs s' t) = Some m" "installing (pcs s' x) = Some m" for x
      using that inst pcs [of x] mon [of x m] lock_invD(3) [OF i, of t m x] by auto
    show False
    proof (cases "u = t \<or> v = t")
      case True
      then show ?thesis using * [of u] * [of v] \<open>u \<noteq> v\<close> that by auto
    next
      case False
      then show ?thesis using that pcs lock_invD(3) [OF i, of u m v] \<open>u \<noteq> v\<close> by auto
    qed
  qed
  ultimately show ?thesis using w wait unfolding lock_inv_def by blast
qed
section \<open>Kinds of steps\<close>

lemma GetState_0 [simp]: "GetState 0 = kUnlocked"
  by simp

text \<open>A thread moves on without touching shared state.\<close>

lemma pc_ok_goto: "pc_ok (goto t p s) t q \<longleftrightarrow> pc_ok s t q"
proof -
  have "owner_ok (goto t p s) t so mon = owner_ok s t so mon" for so mon
    by (cases so) (auto simp: owner_ok_def)
  then have "private_monitor (goto t p s) t m so mon = private_monitor s t m so mon" for m so mon
    by (simp add: private_monitor_def)
  then show ?thesis by (cases q) auto
qed

lemma guarantee_goto: "guarantee t s (goto t p s)"
  by (simp add: guarantee_def)

lemma inv_goto:
  assumes "lock_inv s" "\<not> suspended s t" "pc_ok s t p" "weight p = weight (pcs s t)" "installing p = None"
  shows "lock_inv (goto t p s)"
proof (rule inv_stepI [OF assms(1) guarantee_goto assms(2)])
  show "num_waiters mon = waiting_total (goto t p s)" if "current_monitor (goto t p s) = Some mon" for mon
    using that lock_invD(4) [OF assms(1)] waiting_total_goto [of t p s] assms(4) by simp
qed (use assms lock_invD(1) in \<open>auto simp: pc_ok_goto\<close>)

text \<open>Threads move between points at which they can be suspended.\<close>

lemma pc_ok_points:
  assumes "lock_word s' = lock_word s" "monitors s' = monitors s"
    and sp: "\<And>u. suspend_point (pcs s' u) = suspend_point (pcs s u)"
  shows "pc_ok s' t q \<longleftrightarrow> pc_ok s t q"
proof -
  have V: "current_monitor s' = current_monitor s" "lock_owner s' = lock_owner s" "lock_depth s' = lock_depth s"
      "fat s' m = fat s m" for m
    using assms by (simp_all add: current_monitor_def lock_owner_def lock_depth_def fat_def)
  have "private_monitor s' t m so mon = private_monitor s t m so mon" for m so mon
    using assms V by (simp add: private_monitor_def owner_ok_def split: option.splits)
  then show ?thesis using assms V by (cases q) auto
qed

lemma inv_points:
  assumes i: "lock_inv s" and same: "lock_word s' = lock_word s" "monitors s' = monitors s"
    and sp: "\<And>u. suspend_point (pcs s' u) = suspend_point (pcs s u)"
    and wt: "\<And>u. weight (pcs s' u) = weight (pcs s u)"
    and inst: "\<And>u. installing (pcs s' u) = installing (pcs s u)"
    and pc: "\<And>u. pc_ok s u (pcs s' u)"
  shows "lock_inv s'"
proof -
  have V: "current_monitor s' = current_monitor s" "word_ok s' = word_ok s" "waiting_total s' = waiting_total s"
    using same wt by (simp_all add: current_monitor_def word_ok_def waiting_total_def)
  have "pc_ok s' u (pcs s' u)" for u using pc_ok_points [OF same sp] pc by simp
  then show ?thesis using i V inst unfolding lock_inv_def by simp
qed

lemma wake_up_facts:
  assumes "asleep_on p = Some m"
  shows "suspend_point p" "suspend_point (wake_up p)" "weight (wake_up p) = weight p"
    "installing (wake_up p) = None" "installing p = None" "pc_ok s t (wake_up p) = pc_ok s t p"
    "suspends (wake_up p) = None" "suspends p = None" "woken_on (wake_up p) = Some m" "asleep_on (wake_up p) = None"
  using assms by (cases p; simp)+

lemma wake_up_keeps_inv:
  assumes i: "lock_inv s" and a: "asleep_on (pcs s u) = Some m"
  shows "lock_inv (goto u (wake_up (pcs s u)) s)"
  by (rule inv_points [OF i]) (use lock_invD(2) [OF i] wake_up_facts [OF a] in auto)

lemma signal_keeps:
  assumes "signal m s s1"
  shows "lock_inv s \<Longrightarrow> lock_inv s1" "lock_word s1 = lock_word s" "monitors s1 = monitors s"
    "fat s1 m' = fat s m'" "asleep_on (pcs s t) = None \<Longrightarrow> pcs s1 t = pcs s t" "suspended s1 t = suspended s t"
proof -
  show "lock_inv s \<Longrightarrow> lock_inv s1" "lock_word s1 = lock_word s" "monitors s1 = monitors s" "fat s1 m' = fat s m'"
    "asleep_on (pcs s t) = None \<Longrightarrow> pcs s1 t = pcs s t"
    using assms by (auto elim!: signal.cases intro: wake_up_keeps_inv)
  have "suspends (pcs s1 u) = suspends (pcs s u)" for u
    using assms by (auto elim!: signal.cases simp: wake_up_facts)
  then show "suspended s1 t = suspended s t" by (simp add: suspended_def)
qed

lemma contend_step_keeps_inv:
  assumes i: "lock_inv s" and st: "contend_step t s s'"
  shows "lock_inv s'"
  using st
proof cases
  case (spurious m)
  then show ?thesis using wake_up_keeps_inv [OF i] by simp
qed (use lock_invD(2) [OF i] lock_invD(2) [OF i, of t] in \<open>auto intro!: inv_points [OF i] split: if_splits\<close>)

lemma after_move_facts:
  "suspend_point (after_move p) = suspend_point p" "weight (after_move p) = weight p"
  "installing (after_move p) = installing p" "pc_ok s t (after_move p) = pc_ok s t p"
  "suspends (after_move p) = suspends p" "asleep_on (after_move p) = asleep_on p" "woken_on (after_move p) = woken_on p"
  by (cases p rule: after_move.cases; simp)+

lemma move_keeps_inv:
  assumes i: "lock_inv s"
  shows "lock_inv (move_object s)"
  by (rule inv_points [OF i]) (use lock_invD(2) [OF i] in \<open>auto simp: move_object_def after_move_facts\<close>)

text \<open>The owner, or a thread that finds the object unlocked, changes the lock word.\<close>

lemma guarantee_word:
  assumes old: "lock_word s = 0 \<or> GetState (lock_word s) = kThinLocked \<and> ThinLockOwner (lock_word s) = t"
    and new: "w = 0 \<or> GetState w = kThinLocked \<and> ThinLockOwner w = t \<or> GetState w = kHashCode"
  shows "guarantee t s (goto t p (set_word w s))"
proof -
  have nf: "GetState (lock_word s) \<noteq> kFatLocked" "GetState (lock_word s) \<noteq> kHashCode"
      "GetState w \<noteq> kFatLocked"
    using old new by (auto simp: GetState_def)
  have own: "lock_owner s = None \<or> lock_owner s = Some t"
    using old nf by (auto simp: lock_owner_def current_monitor_def)
  have own': "lock_owner (set_word w s) = None \<or> lock_owner (set_word w s) = Some t"
    using new nf by (auto simp: lock_owner_def current_monitor_def)
  have thin: "ThinLockOwner (lock_word s) = t" if "GetState (lock_word s) = kThinLocked"
    using old that by (auto simp: GetState_def)
  show ?thesis unfolding guarantee_def using nf own own' thin by (auto simp: fat_def)
qed

lemma inv_word:
  assumes i: "lock_inv s" and ns: "\<not> suspended s t"
    and old: "lock_word s = 0 \<or> GetState (lock_word s) = kThinLocked \<and> ThinLockOwner (lock_word s) = t"
    and new: "w = 0 \<or> GetState w = kThinLocked \<and> ThinLockOwner w = t \<and> valid_thread t \<or>
      GetState w = kHashCode \<and> LockWord_GetHashCode w \<noteq> 0"
  shows "lock_inv (goto t Idle (set_word w s))"
proof (rule inv_stepI [OF i guarantee_word ns])
  show "word_ok (goto t Idle (set_word w s))" using new by (auto simp: word_ok_def GetState_def)
  have nf: "GetState w \<noteq> kFatLocked" using new by (auto simp: GetState_def)
  then show "num_waiters mon = waiting_total (goto t Idle (set_word w s))"
    if "current_monitor (goto t Idle (set_word w s)) = Some mon" for mon
    using that by (simp add: current_monitor_def)
qed (use old new in auto)

text \<open>A section under the mutex of the published monitor.\<close>

lemma set_monitor_views:
  assumes "fat s m"
  shows "current_monitor (set_monitor m (Some mon) s) = Some mon"
    "lock_owner (set_monitor m (Some mon) s) = mon_owner mon"
    "lock_depth (set_monitor m (Some mon) s) = lock_count mon + 1"
    "lock_hash (set_monitor m (Some mon) s) = hash_code mon"
    "fat (set_monitor m (Some mon) s) m' = fat s m'"
  using assms by (auto simp: fat_def current_monitor_def lock_owner_def lock_depth_def lock_hash_def)

lemma fat_views:
  assumes "fat s m" "monitors s m = Some mon"
  shows "current_monitor s = Some mon" "lock_owner s = mon_owner mon" "lock_depth s = lock_count mon + 1"
    "lock_hash s = hash_code mon"
  using assms by (auto simp: fat_def current_monitor_def lock_owner_def lock_depth_def lock_hash_def)

lemma guarantee_monitor:
  assumes f: "fat s m" and mon: "monitors s m = Some mon"
    and own: "\<And>u. u \<noteq> t \<Longrightarrow> mon_owner mon' = Some u \<longleftrightarrow> mon_owner mon = Some u"
    and count: "\<And>u. u \<noteq> t \<Longrightarrow> mon_owner mon = Some u \<Longrightarrow> lock_count mon' = lock_count mon"
  shows "guarantee t s (goto t p (set_monitor m (Some mon') s))"
  unfolding guarantee_def
  using f own count by (auto simp: set_monitor_views [OF f] fat_views [OF f mon])

lemma inv_monitor:
  assumes i: "lock_inv s" and ns: "\<not> suspended s t" and f: "fat s m" and mon: "monitors s m = Some mon"
    and own: "\<And>u. u \<noteq> t \<Longrightarrow> mon_owner mon' = Some u \<longleftrightarrow> mon_owner mon = Some u"
    and count: "\<And>u. u \<noteq> t \<Longrightarrow> mon_owner mon = Some u \<Longrightarrow> lock_count mon' = lock_count mon"
    and ok: "mon_ok mon'" and wt: "num_waiters mon' + weight (pcs s t) = num_waiters mon + weight p"
    and pc: "pc_ok (set_monitor m (Some mon') s) t p" and p: "installing p = None"
  shows "lock_inv (goto t p (set_monitor m (Some mon') s))"
proof (rule inv_stepI [OF i guarantee_monitor [OF f mon own count] ns])
  show "word_ok (goto t p (set_monitor m (Some mon') s))"
    using ok f set_monitor_views(1) [OF f] by (simp add: word_ok_def fat_def)
  show "num_waiters mn = waiting_total (goto t p (set_monitor m (Some mon') s))"
    if "current_monitor (goto t p (set_monitor m (Some mon') s)) = Some mn" for mn
    using that set_monitor_views(1) [OF f] lock_invD(4) [OF i fat_views(1) [OF f mon]] wt
      waiting_total_goto [of t p "set_monitor m (Some mon') s"] by simp
qed (use pc p in \<open>auto simp: pc_ok_goto\<close>)

text \<open>A monitor that is not published comes, changes or goes.\<close>

lemma private_views:
  assumes "\<not> fat s m"
  shows "current_monitor (set_monitor m x s) = current_monitor s" "lock_owner (set_monitor m x s) = lock_owner s"
    "lock_depth (set_monitor m x s) = lock_depth s" "lock_hash (set_monitor m x s) = lock_hash s"
    "fat (set_monitor m x s) m' = fat s m'" "word_ok (set_monitor m x s) = word_ok s"
  using assms by (auto simp: fat_def current_monitor_def lock_owner_def lock_depth_def lock_hash_def word_ok_def)

lemma guarantee_private:
  assumes nf: "\<not> fat s m" and other: "\<And>u. u \<noteq> t \<Longrightarrow> installing (pcs s u) \<noteq> Some m"
  shows "guarantee t s (goto t p (set_monitor m x s))"
  unfolding guarantee_def using other by (auto simp: private_views [OF nf])

lemma inv_private:
  assumes i: "lock_inv s" and ns: "\<not> suspended s t" and nf: "\<not> fat s m"
    and other: "\<And>u. u \<noteq> t \<Longrightarrow> installing (pcs s u) \<noteq> Some m"
    and pc: "pc_ok (set_monitor m x s) t p" and wt: "weight p = weight (pcs s t)"
    and inst: "installing p = None \<or> installing p = installing (pcs s t) \<or> installing p = Some m \<and> monitors s m = None"
  shows "lock_inv (goto t p (set_monitor m x s))"
proof (rule inv_stepI [OF i guarantee_private [OF nf other] ns])
  show "num_waiters mn = waiting_total (goto t p (set_monitor m x s))"
    if "current_monitor (goto t p (set_monitor m x s)) = Some mn" for mn
    using that lock_invD(4) [OF i] wt waiting_total_goto [of t p "set_monitor m x s"] by (simp add: private_views [OF nf])
qed (use pc inst lock_invD(1) [OF i] in \<open>auto simp: pc_ok_goto private_views [OF nf]\<close>)

lemma installing_monitor:
  assumes "lock_inv s" "installing (pcs s u) = Some m"
  shows "monitors s m \<noteq> None" "\<not> fat s m"
  using assms(2) lock_invD(2) [OF assms(1), of u] by (cases "pcs s u"; auto simp: private_monitor_def)+

lemma fresh_monitor:
  assumes i: "lock_inv s" and m: "monitors s m = None"
  shows "\<not> fat s m" "installing (pcs s u) \<noteq> Some m"
proof -
  show "\<not> fat s m" using lock_invD(1) [OF i] m by (auto simp: word_ok_def fat_def current_monitor_def)
  show "installing (pcs s u) \<noteq> Some m" using installing_monitor(1) [OF i] m by blast
qed

text \<open>A new monitor, on the way to being installed.\<close>

lemma inv_new:
  assumes i: "lock_inv s" and ns: "\<not> suspended s t" and m: "monitors s m = None" "m \<le> kMaxMonitorId"
    and own: "owner_ok s t so (new_monitor own h)" "\<And>u. own = Some u \<Longrightarrow> valid_thread u" and h: "h \<le> kMaxHash"
    and d: "describes (new_monitor own h) (lock_word s)" and wt: "weight (pcs s t) = 0"
  shows "lock_inv (goto t (Install m so k) (set_monitor m (Some (new_monitor own h)) s))"
proof (rule inv_private [OF i ns fresh_monitor(1) [OF i m(1)] fresh_monitor(2) [OF i m(1)]])
  have "owner_ok (set_monitor m (Some (new_monitor own h)) s) t so (new_monitor own h)"
    using own(1) by (simp add: owner_ok_def split: option.splits)
  then have "private_monitor (set_monitor m (Some (new_monitor own h)) s) t m so (new_monitor own h)"
    using m(2) own(2) h fresh_monitor(1) [OF i m(1)]
    by (auto simp: private_monitor_def mon_ok_def new_monitor_def private_views)
  then show "pc_ok (set_monitor m (Some (new_monitor own h)) s) t (Install m so k)"
    using d by (auto simp: new_monitor_def)
qed (use m wt in auto)

text \<open>A monitor that could not be installed.\<close>

lemma inv_drop:
  assumes i: "lock_inv s" and ns: "\<not> suspended s t" and m: "installing (pcs s t) = Some m"
  shows "lock_inv (goto t (return_to k) (set_monitor m None s))"
proof (rule inv_private [OF i ns installing_monitor(2) [OF i m]])
  show "installing (pcs s u) \<noteq> Some m" if "u \<noteq> t" for u using lock_invD(3) [OF i m] that by blast
  show "weight (return_to k) = weight (pcs s t)" using m by (cases "pcs s t"; cases k) auto
qed (cases k; simp)+

section \<open>Operations on a monitor\<close>

lemma Monitor_Lock_Locked:
  assumes "Monitor_Lock t mon = Locked mon'" "mon_ok mon" "valid_thread t"
  shows "mon_owner mon' = Some t" "mon_owner mon = None \<or> mon_owner mon = Some t" "mon_ok mon'"
    "num_waiters mon' = num_waiters mon" "hash_code mon' = hash_code mon"
    "lock_count mon' = (if mon_owner mon = Some t then lock_count mon + 1 else 0)"
  using assms by (auto simp: Monitor_Lock_def mon_ok_def split: option.splits if_splits)

lemma Monitor_Lock_Contended:
  assumes "Monitor_Lock t mon = Contended mon'"
  shows "mon' = mon\<lparr>num_waiters := num_waiters mon + 1\<rparr>" "mon_owner mon \<noteq> Some t" "mon_owner mon \<noteq> None"
  using assms by (auto simp: Monitor_Lock_def split: option.splits if_splits)

lemma Monitor_Lock_check: "mon_ok mon \<Longrightarrow> Monitor_Lock t mon \<noteq> LockCheckFailed"
  by (auto simp: Monitor_Lock_def mon_ok_def split: option.splits)

lemma Monitor_Lock_overflow:
  "Monitor_Lock t mon = LockCountOverflow \<Longrightarrow> mon_owner mon = Some t \<and> 2 ^ 31 \<le> lock_count mon + 1"
  by (auto simp: Monitor_Lock_def split: option.splits if_splits)

lemma mon_ok_num_waiters [simp]: "mon_ok (mon\<lparr>num_waiters := n\<rparr>) = mon_ok mon" "mon_ok (mon\<lparr>wait_set := ws\<rparr>) = mon_ok mon"
  by (simp_all add: mon_ok_def)

lemma Monitor_Unlock_Some:
  assumes "Monitor_Unlock t mon = Some (mon', sg)" "mon_ok mon"
  shows "mon_owner mon = Some t" "mon_ok mon'" "num_waiters mon' = num_waiters mon" "hash_code mon' = hash_code mon"
    "if lock_count mon = 0 then mon_owner mon' = None
     else mon_owner mon' = Some t \<and> lock_count mon = lock_count mon' + 1"
    "sg \<longleftrightarrow> lock_count mon = 0"
  using assms by (auto simp: Monitor_Unlock_def mon_ok_def split: if_splits)

lemma Monitor_Wait_begin_Some:
  assumes "Monitor_Wait_begin t ms ns mon = Some (mon', prev)" "mon_ok mon"
  shows "mon_owner mon = Some t" "mon_owner mon' = None" "mon_ok mon'" "num_waiters mon' = num_waiters mon + 1"
    "hash_code mon' = hash_code mon" "prev = lock_count mon"
  using assms by (auto simp: Monitor_Wait_begin_def mon_ok_def split: if_splits)

lemma Monitor_Notify_Some:
  assumes "(if al then Monitor_NotifyAll t mon else Monitor_Notify f t mon) = Some mon'"
  obtains ws where "mon' = mon\<lparr>wait_set := ws\<rparr>"
  using assms by (auto simp: Monitor_NotifyAll_def Monitor_Notify_def split: if_splits)

lemma Monitor_Install_Try:
  assumes "Monitor_Install w mon = InstallTry mon'"
  shows "mon_owner mon' = mon_owner mon" "num_waiters mon' = num_waiters mon"
    "hash_code mon' = hash_code mon" "GetState w = kThinLocked \<Longrightarrow> lock_count mon' = unat (ThinLockCount w)"
    "GetState w \<noteq> kThinLocked \<Longrightarrow> mon' = mon" "GetState w \<noteq> kFatLocked"
  using assms by (auto simp: Monitor_Install_def describes_def split: LockState.splits if_splits)

lemma Monitor_Install_check:
  assumes "GetState w = kFatLocked \<or> describes mon w"
  shows "Monitor_Install w mon \<noteq> InstallCheckFailed"
  using assms by (auto simp: Monitor_Install_def describes_def split: LockState.splits)

lemma thin_count_bound: "ThinLockCount w \<le> kThinLockMaxCount"
  by (simp add: ThinLockCount_def kThinLockMaxCount_def word_and_le1)

lemma thin_owner_bound: "ThinLockOwner w \<le> kThinLockMaxOwner"
  by (simp add: ThinLockOwner_def kThinLockMaxOwner_def word_and_le1)

lemma hash_bound: "LockWord_GetHashCode w \<le> kMaxHash"
  by (simp add: LockWord_GetHashCode_def kMaxHash_def word_and_le1)

lemma thin_count_less: "ThinLockCount w \<noteq> 0 \<Longrightarrow> ThinLockCount w - 1 \<le> kThinLockMaxCount"
  using thin_count_bound [of w] by (simp add: word_le_nat_alt unat_minus_one)

lemma FromThinLockId_valid:
  assumes "valid_thread t" "c \<le> kThinLockMaxCount"
  shows "FromThinLockId t c \<noteq> None"
  using assms by (simp add: FromThinLockId_def valid_thread_def)

lemma FromThinLockId_state:
  assumes "valid_thread t" "FromThinLockId t c = Some w"
  shows "GetState w = kThinLocked" "ThinLockOwner w = t" "ThinLockCount w = c"
  using thin_lock_facts [OF assms(2)] assms(1) by (auto simp: valid_thread_def)

lemma weight_le: "lock_inv s \<Longrightarrow> current_monitor s = Some mon \<Longrightarrow> weight (pcs s t) \<le> num_waiters mon"
  using lock_invD(4) member_le_sum [of t UNIV "\<lambda>t. weight (pcs s t)"] by (simp add: waiting_total_def)

lemma fat_monitor:
  assumes "lock_inv s" "fat s m"
  obtains mon where "monitors s m = Some mon" "mon_ok mon" "current_monitor s = Some mon"
  using lock_invD(1) [OF assms(1)] assms(2) by (auto simp: word_ok_def fat_def current_monitor_def)

section \<open>Every step keeps the invariant\<close>

lemma lock_keeps_inv:
  assumes i: "lock_inv s" and ns: "\<not> suspended s t" and v: "valid_thread t" and f: "fat s m"
    and mon: "monitors s m = Some mon" and k: "k \<le> num_waiters mon"
    and l: "Monitor_Lock t (mon\<lparr>num_waiters := num_waiters mon - k\<rparr>) = Locked mon'"
    and wt: "weight (pcs s t) = weight p + k" and pc: "pc_ok (set_monitor m (Some mon') s) t p"
    and p: "installing p = None"
  shows "lock_inv (goto t p (set_monitor m (Some mon') s))"
proof -
  have ok: "mon_ok mon" using fat_monitor [OF i f] mon by auto
  note L = Monitor_Lock_Locked [OF l _ v]
  show ?thesis
    by (rule inv_monitor [OF i ns f mon]) (use L ok k wt pc p in auto)
qed

lemma contended_keeps_inv:
  assumes i: "lock_inv s" and ns: "\<not> suspended s t" and f: "fat s m" and mon: "monitors s m = Some mon"
    and l: "Monitor_Lock t mon = Contended mon'"
    and wt: "weight p = weight (pcs s t) + 1" and pc: "pc_ok (set_monitor m (Some mon') s) t p"
    and p: "installing p = None"
  shows "lock_inv (goto t p (set_monitor m (Some mon') s))"
proof -
  have ok: "mon_ok mon" using fat_monitor [OF i f] mon by auto
  show ?thesis
    by (rule inv_monitor [OF i ns f mon]) (use Monitor_Lock_Contended [OF l] ok wt pc p in auto)
qed

lemma contended_again_keeps_inv:
  assumes i: "lock_inv s" and ns: "\<not> suspended s t" and f: "fat s m" and mon: "monitors s m = Some mon"
    and k: "1 \<le> num_waiters mon"
    and l: "Monitor_Lock t (mon\<lparr>num_waiters := num_waiters mon - 1\<rparr>) = Contended mon'"
    and wt: "weight p = weight (pcs s t)" and pc: "pc_ok (set_monitor m (Some mon') s) t p"
    and p: "installing p = None"
  shows "lock_inv (goto t p (set_monitor m (Some mon') s))"
proof -
  have ok: "mon_ok mon" using fat_monitor [OF i f] mon by auto
  show ?thesis
    by (rule inv_monitor [OF i ns f mon]) (use Monitor_Lock_Contended [OF l] ok k wt pc p in auto)
qed

lemma install_keeps_inv:
  assumes i: "lock_inv s" and ns: "\<not> suspended s t" and pc: "pcs s t = Install m so k"
    and mon: "monitors s m = Some mon" and tr: "Monitor_Install (lock_word s) mon = InstallTry mon'"
  shows "lock_inv (goto t (InstallCas m (lock_word s) so k) (set_monitor m (Some mon') s))"
proof -
  have inst: "installing (pcs s t) = Some m" using pc by simp
  note nf = installing_monitor(2) [OF i inst] and T = Monitor_Install_Try [OF tr]
  have P: "private_monitor s t m so mon" and D: "describes mon (lock_word s)"
    using lock_invD(2) [OF i, of t] mon T(6) unfolding pc by (auto simp: private_monitor_def)
  have "owner_ok (set_monitor m (Some mon') s) t so mon'"
    using P T(1) by (cases so) (auto simp: private_monitor_def owner_ok_def)
  moreover have "mon_ok mon'"
    using P T(1,3,5) D by (cases "GetState (lock_word s) = kThinLocked") (auto simp: private_monitor_def mon_ok_def describes_def)
  ultimately have "private_monitor (set_monitor m (Some mon') s) t m so mon'"
    using P T(2) by (simp add: private_monitor_def private_views)
  moreover have "describes mon' (lock_word s)" using D T(1,3) by (simp add: describes_def)
  ultimately show ?thesis
    using T(4)
    by (intro inv_private [OF i ns nf]) (use pc lock_invD(3) [OF i inst] in auto)
qed

lemma install_cas_views:
  assumes i: "lock_inv s" and pc: "pcs s t = InstallCas m (lock_word s) so k"
  obtains mon where "private_monitor s t m so mon" "describes mon (lock_word s)"
    "GetState (lock_word s) \<noteq> kFatLocked"
    "fat (set_word (FromMonitorId m) s) m" "current_monitor (set_word (FromMonitorId m) s) = Some mon"
    "lock_owner (set_word (FromMonitorId m) s) = lock_owner s"
    "lock_owner s \<noteq> None \<Longrightarrow> lock_depth (set_word (FromMonitorId m) s) = lock_depth s"
    "GetState (lock_word s) = kHashCode \<Longrightarrow> lock_hash (set_word (FromMonitorId m) s) = lock_hash s"
proof -
  obtain mon where P: "private_monitor s t m so mon" and D: "describes mon (lock_word s)"
      and C: "GetState (lock_word s) = kThinLocked \<longrightarrow> lock_count mon = unat (ThinLockCount (lock_word s))"
    using lock_invD(2) [OF i, of t] unfolding pc by auto
  have m: "monitors s m = Some mon" "m \<le> kMaxMonitorId" using P by (auto simp: private_monitor_def)
  have f: "fat (set_word (FromMonitorId m) s) m" using fat_lock_facts [OF m(2)] by (simp add: fat_def)
  have m': "monitors (set_word (FromMonitorId m) s) m = Some mon" using m(1) by simp
  note V = fat_views [OF f m']
  have nf: "GetState (lock_word s) \<noteq> kFatLocked" using D by (auto simp: describes_def)
  show thesis
    by (rule that [OF P D nf f V(1)])
      (use V D C in \<open>auto simp: describes_def lock_owner_def lock_depth_def lock_hash_def current_monitor_def\<close>)
qed

lemma install_cas_keeps_inv:
  assumes i: "lock_inv s" and ns: "\<not> suspended s t" and pc: "pcs s t = InstallCas m (lock_word s) so k"
  shows "lock_inv (goto t (Installed so k) (set_word (FromMonitorId m) s))"
proof -
  let ?s = "set_word (FromMonitorId m) s"
  from install_cas_views [OF i pc] obtain mon
    where P: "private_monitor s t m so mon" and D: "describes mon (lock_word s)"
      and nf: "GetState (lock_word s) \<noteq> kFatLocked" and f: "fat ?s m" and cur: "current_monitor ?s = Some mon"
      and own: "lock_owner ?s = lock_owner s" and dep: "lock_owner s \<noteq> None \<Longrightarrow> lock_depth ?s = lock_depth s"
    by blast
  have inst: "installing (pcs s t) = Some m" using pc by simp
  have fat: "GetState (FromMonitorId m) = kFatLocked" using f by (simp add: fat_def)
  have sp: "suspend_point (pcs s u)"
    if "u \<noteq> t" "GetState (lock_word s) = kThinLocked" "ThinLockOwner (lock_word s) = u" for u
    using that P D by (cases so) (auto simp: private_monitor_def owner_ok_def describes_def)
  have other: "\<not> fat ?s m'" if "u \<noteq> t" "installing (pcs s u) = Some m'" for u m'
    using that f lock_invD(3) [OF i inst, of u] by (auto simp: fat_def)
  have "guarantee t s (goto t (Installed so k) ?s)"
    unfolding guarantee_def using nf fat sp other own dep by (auto simp: fat_def)
  moreover have "pc_ok (goto t (Installed so k) ?s) t (Installed so k)"
    unfolding pc_ok_goto using P fat by (cases so) (auto simp: private_monitor_def owner_ok_def)
  moreover have "word_ok ?s" using cur fat P by (simp add: word_ok_def private_monitor_def)
  moreover have "num_waiters mon = waiting_total (goto t (Installed so k) ?s)"
    using P no_waiters [OF i nf] waiting_total_goto [of t "Installed so k" ?s] pc by (simp add: private_monitor_def)
  ultimately show ?thesis
    by (intro inv_stepI [OF i _ ns]) (use cur in auto)
qed

lemma wait_end_keeps_inv:
  assumes i: "lock_inv s" and ns: "\<not> suspended s t" and v: "valid_thread t" and pc: "pcs s t = WaitRestore m prev"
    and mon: "monitors s m = Some mon"
  shows "lock_inv (goto t Idle (set_monitor m (Some (Monitor_Wait_end t prev mon)) s))"
proof -
  have f: "fat s m" and own: "lock_owner s = Some t" using lock_invD(2) [OF i, of t] unfolding pc by auto
  have ok: "mon_ok mon" using fat_monitor [OF i f] mon by auto
  have le: "1 \<le> num_waiters mon" using weight_le [OF i, of mon t] fat_views(1) [OF f mon] pc by simp
  have own': "mon_owner mon = Some t" using own fat_views(2) [OF f mon] by simp
  show ?thesis
    by (rule inv_monitor [OF i ns f mon])
      (use le pc own' v ok in \<open>auto simp: Monitor_Wait_end_def mon_ok_def\<close>)
qed

lemma hash_keeps_inv:
  assumes i: "lock_inv s" and ns: "\<not> suspended s t" and pc: "pcs s t = HashFat m"
    and mon: "monitors s m = Some mon" and h: "generated h"
  shows "lock_inv (set_monitor m (Some (mon\<lparr>hash_code := h\<rparr>)) s)"
proof -
  have f: "fat s m" using lock_invD(2) [OF i, of t] unfolding pc by simp
  have ok: "mon_ok mon" using fat_monitor [OF i f] mon by auto
  let ?s = "set_monitor m (Some (mon\<lparr>hash_code := h\<rparr>)) s"
  have "lock_inv (goto t (HashFat m) ?s)"
    by (rule inv_monitor [OF i ns f mon])
      (use ok f pc generated_facts [OF h] in \<open>auto simp: mon_ok_def set_monitor_views [OF f]\<close>)
  moreover have "goto t (HashFat m) ?s = ?s" using pc by (simp add: goto_def set_monitor_def fun_upd_idem)
  ultimately show ?thesis by simp
qed

lemma return_to_simps [simp]: "weight (return_to k) = 0" "installing (return_to k) = None" "pc_ok s t (return_to k)"
  by (cases k; simp)+

lemma suspended_owner:
  assumes "owner_ok s t so mon" "suspends (pcs s t) = so"
  shows "\<not> unsuspended_owner t s mon"
  using assms by (cases so) (auto simp: owner_ok_def unsuspended_owner_def suspended_def split: option.splits)

text \<open>What the invariant gives to a step of a thread.\<close>

lemma thread_facts:
  assumes i: "lock_inv s"
  shows "pc_ok s t (pcs s t)" "word_ok s"
    "fat s m \<Longrightarrow> monitors s m = Some mon \<Longrightarrow> mon_ok mon"
    "fat s m \<Longrightarrow> monitors s m = Some mon \<Longrightarrow> weight (pcs s t) \<le> num_waiters mon"
proof -
  show "pc_ok s t (pcs s t)" "word_ok s" using lock_invD [OF i] by blast+
  assume f: "fat s m" and mon: "monitors s m = Some mon"
  show "mon_ok mon" using fat_monitor [OF i f] mon by auto
  show "weight (pcs s t) \<le> num_waiters mon" using weight_le [OF i] fat_views(1) [OF f mon] by blast
qed

lemma return_not_fatal [simp]: "return_to k \<noteq> Fatal"
  by (cases k) auto

text \<open>A step that fails a check does not happen.\<close>

lemma enter_no_fatal:
  assumes i: "lock_inv s" and v: "valid_thread t" and st: "enter_step ms t s e s'"
  shows "pcs s' t \<noteq> Fatal"
proof -
  note pc = thread_facts(1) [OF i, of t] and ok = thread_facts(3) [OF i]
  have w: "GetState (lock_word s) \<noteq> kForwardingAddress" using thread_facts(2) [OF i] by (simp add: word_ok_def)
  from st show ?thesis
  proof cases
    case (enter_cas_check w c)
    then show ?thesis using FromThinLockId_valid [OF v, of 0] by simp
  next
    case (enter_recursive_check w c)
    then show ?thesis using FromThinLockId_valid [OF v] by simp
  qed (use pc w in auto)
qed

lemma inflate_no_fatal:
  assumes i: "lock_inv s" and v: "valid_thread t" and st: "inflate_step t s e s'"
  shows "pcs s' t \<noteq> Fatal"
proof -
  note pc = thread_facts(1) [OF i, of t] and ok = thread_facts(3) [OF i]
  have w: "GetState (lock_word s) \<noteq> kForwardingAddress" using thread_facts(2) [OF i] by (simp add: word_ok_def)
  from st show ?thesis
  proof cases
    case (install_check m u k mon)
    then obtain mon' where "private_monitor s t m u mon'"
        "GetState (lock_word s) = kFatLocked \<or> describes mon' (lock_word s)" using pc by auto
    then show ?thesis
      using install_check suspended_owner [of s t u mon] Monitor_Install_check [of "lock_word s" mon]
      by (auto simp: private_monitor_def)
  qed (use pc w in auto)
qed

lemma lock_no_fatal:
  assumes i: "lock_inv s" and v: "valid_thread t" and st: "lock_step t s e s'"
  shows "pcs s' t \<noteq> Fatal"
proof -
  note pc = thread_facts(1) [OF i, of t] and ok = thread_facts(3) [OF i]
  have w: "GetState (lock_word s) \<noteq> kForwardingAddress" using thread_facts(2) [OF i] by (simp add: word_ok_def)
  from st show ?thesis
  proof cases
    case (lock_check m mon)
    then show ?thesis using ok [of m mon] Monitor_Lock_check [of mon t] pc by simp
  next
    case (lock_again_check m mon)
    then show ?thesis using ok [of m mon] Monitor_Lock_check pc by simp
  qed (use pc w in auto)
qed

lemma exit_no_fatal:
  assumes i: "lock_inv s" and v: "valid_thread t" and st: "exit_step t s e s'"
  shows "pcs s' t \<noteq> Fatal"
proof -
  note pc = thread_facts(1) [OF i, of t] and ok = thread_facts(3) [OF i]
  have w: "GetState (lock_word s) \<noteq> kForwardingAddress" using thread_facts(2) [OF i] by (simp add: word_ok_def)
  from st show ?thesis
  proof cases
    case (exit_thin_check w)
    then show ?thesis using FromThinLockId_valid [OF v thin_count_less] by simp
  qed (use pc w in auto)
qed

lemma wait_no_fatal:
  assumes i: "lock_inv s" and v: "valid_thread t" and st: "wait_step t s e s'"
  shows "pcs s' t \<noteq> Fatal"
proof -
  note pc = thread_facts(1) [OF i, of t] and ok = thread_facts(3) [OF i]
  have w: "GetState (lock_word s) \<noteq> kForwardingAddress" using thread_facts(2) [OF i] by (simp add: word_ok_def)
  from st show ?thesis
  proof cases
    case (wait_lock_check m prev mon)
    then show ?thesis using ok [of m mon] Monitor_Lock_check [of mon t] pc by simp
  next
    case (wait_lock_again_check m prev mon)
    then show ?thesis using ok [of m mon] Monitor_Lock_check pc by simp
  qed (use pc w in auto)
qed

lemma notify_no_fatal:
  assumes i: "lock_inv s" and v: "valid_thread t" and st: "notify_step t s e s'"
  shows "pcs s' t \<noteq> Fatal"
proof -
  note pc = thread_facts(1) [OF i, of t] and ok = thread_facts(3) [OF i]
  have w: "GetState (lock_word s) \<noteq> kForwardingAddress" using thread_facts(2) [OF i] by (simp add: word_ok_def)
  from st show ?thesis
    by cases (use pc w in auto)
qed

lemma hash_no_fatal:
  assumes i: "lock_inv s" and v: "valid_thread t" and st: "hash_step t s e s'"
  shows "pcs s' t \<noteq> Fatal"
proof -
  note pc = thread_facts(1) [OF i, of t] and ok = thread_facts(3) [OF i]
  have w: "GetState (lock_word s) \<noteq> kForwardingAddress" using thread_facts(2) [OF i] by (simp add: word_ok_def)
  from st show ?thesis
  proof cases
    case (hash_cas_check w h stale)
    then show ?thesis using pc by (simp add: FromHashCode_def)
  qed (use pc w in auto)
qed

lemma no_fatal:
  assumes "lock_inv s" "valid_thread t" "tstep ms t s e s'"
  shows "pcs s' t \<noteq> Fatal"
  using assms(3) unfolding tstep_def
  by (elim disjE) (use assms(1,2) in \<open>blast dest: enter_no_fatal inflate_no_fatal lock_no_fatal exit_no_fatal wait_no_fatal
      notify_no_fatal hash_no_fatal\<close>)+

lemma new_monitor_simps [simp]:
  "mon_owner (new_monitor own h) = own" "lock_count (new_monitor own h) = 0"
  "num_waiters (new_monitor own h) = 0" "hash_code (new_monitor own h) = h"
  by (simp_all add: new_monitor_def)

lemma zero_hash [simp]: "0 \<le> kMaxHash"
  by (simp add: kMaxHash_def)

lemma enter_step_keeps_inv:
  assumes i: "lock_inv s" and v: "valid_thread t" and ns: "\<not> suspended s t" and st: "enter_step ms t s e s'"
  shows "lock_inv s'"
proof -
  note pc = thread_facts(1) [OF i, of t] and W = thread_facts(2) [OF i] and ok = thread_facts(3) [OF i]
    and wt = thread_facts(4) [OF i, of _ _ t] and own = fat_views(2) [of s] and nfat = enter_no_fatal [OF i v st]
  from st show ?thesis
  proof cases
    case (enter_cas w c w')
    then show ?thesis using pc v FromThinLockId_state [OF v] inv_word [OF i ns, of w'] by simp
  next
    case (enter_recursive w c w')
    then show ?thesis using pc v FromThinLockId_state [OF v] inv_word [OF i ns, of w'] by simp
  next
    case (enter_overflow w c m)
    show ?thesis unfolding enter_overflow(2)
      by (rule inv_new [OF i ns]) (use enter_overflow pc v in \<open>auto simp: owner_ok_def describes_def word_ok_def\<close>)
  next
    case (enter_hash c m)
    show ?thesis unfolding enter_hash(2)
      by (rule inv_new [OF i ns]) (use enter_hash pc hash_bound in \<open>auto simp: owner_ok_def describes_def word_ok_def\<close>)
  qed (use pc nfat in \<open>auto intro!: inv_goto [OF i ns] simp: fat_def kMaxHash_def\<close>)
qed

lemma inflate_step_keeps_inv:
  assumes i: "lock_inv s" and v: "valid_thread t" and ns: "\<not> suspended s t" and st: "inflate_step t s e s'"
  shows "lock_inv s'"
proof -
  note pc = thread_facts(1) [OF i, of t] and W = thread_facts(2) [OF i] and ok = thread_facts(3) [OF i]
    and wt = thread_facts(4) [OF i, of _ _ t] and own = fat_views(2) [of s] and nfat = inflate_no_fatal [OF i v st]
  from st show ?thesis
  proof cases
    case (recheck u h k m)
    show ?thesis unfolding recheck(2)
      by (rule inv_new [OF i ns]) (use recheck pc W in \<open>auto simp: owner_ok_def describes_def word_ok_def\<close>)
  next
    case (install m u k mon mon')
    then show ?thesis using install_keeps_inv [OF i ns] by simp
  next
    case (install_lost m u k mon)
    then show ?thesis using inv_drop [OF i ns, of m k] by simp
  next
    case (install_cas m w u k)
    then show ?thesis using install_cas_keeps_inv [OF i ns] by simp
  next
    case (install_cas_failed m w u k)
    then show ?thesis using inv_drop [OF i ns, of m k] by simp
  qed (use pc nfat in \<open>auto intro!: inv_goto [OF i ns] simp: fat_def kMaxHash_def\<close>)
qed

lemma lock_step_keeps_inv:
  assumes i: "lock_inv s" and v: "valid_thread t" and ns: "\<not> suspended s t" and st: "lock_step t s e s'"
  shows "lock_inv s'"
proof -
  note pc = thread_facts(1) [OF i, of t] and W = thread_facts(2) [OF i] and ok = thread_facts(3) [OF i]
    and wt = thread_facts(4) [OF i, of _ _ t] and own = fat_views(2) [of s] and nfat = lock_no_fatal [OF i v st]
  from st show ?thesis
  proof cases
    case (lock m mon mon')
    then show ?thesis using pc lock_keeps_inv [OF i ns v, of m mon 0 mon' Idle] by simp
  next
    case (lock_contended m mon mon')
    then have "mon_owner mon' \<noteq> Some t" using Monitor_Lock_Contended [OF lock_contended(5)] by simp
    then show ?thesis
      using lock_contended pc by (auto intro!: contended_keeps_inv [OF i ns] simp: set_monitor_views)
  next
    case (lock_overflow m mon)
    then show ?thesis
      using pc Monitor_Lock_overflow [OF lock_overflow(5)] by (auto intro!: inv_goto [OF i ns] simp: fat_views)
  next
    case (lock_again m mon mon')
    then show ?thesis using pc wt [of m mon] lock_keeps_inv [OF i ns v, of m mon 1 mon' Idle] by simp
  next
    case (lock_again_contended m mon mon')
    then have "mon_owner mon' \<noteq> Some t" using Monitor_Lock_Contended [OF lock_again_contended(5)] by simp
    then show ?thesis
      using lock_again_contended pc wt [of m mon]
      by (auto intro!: contended_again_keeps_inv [OF i ns] simp: set_monitor_views)
  next
    case (lock_again_overflow m mon)
    then show ?thesis using pc own Monitor_Lock_overflow [OF lock_again_overflow(5)] by auto
  qed (use pc nfat in \<open>auto intro!: inv_goto [OF i ns] simp: fat_def kMaxHash_def\<close>)
qed

lemma unlock_keeps_inv:
  assumes i: "lock_inv s" and ns: "\<not> suspended s t" and pc: "pcs s t = ExitFat m" and f: "fat s m"
    and mon: "monitors s m = Some mon" and u: "Monitor_Unlock t mon = Some (mon', sg)"
  shows "lock_inv (goto t Idle (set_monitor m (Some mon') s))"
  by (rule inv_monitor [OF i ns f mon])
    (use pc Monitor_Unlock_Some [OF u thread_facts(3) [OF i f mon]] in \<open>auto split: if_splits\<close>)

lemma wait_begin_keeps_inv:
  assumes i: "lock_inv s" and ns: "\<not> suspended s t" and pc: "pcs s t = WaitFat m ms nanos" and f: "fat s m"
    and mon: "monitors s m = Some mon" and b: "Monitor_Wait_begin t ms nanos mon = Some (mon', prev)"
  shows "lock_inv (goto t (Waiting m prev) (set_monitor m (Some mon') s))"
  by (rule inv_monitor [OF i ns f mon])
    (use pc f Monitor_Wait_begin_Some [OF b thread_facts(3) [OF i f mon]] in \<open>auto simp: set_monitor_views\<close>)

lemma exit_step_keeps_inv:
  assumes i: "lock_inv s" and v: "valid_thread t" and ns: "\<not> suspended s t" and st: "exit_step t s e s'"
  shows "lock_inv s'"
proof -
  note pc = thread_facts(1) [OF i, of t] and W = thread_facts(2) [OF i] and ok = thread_facts(3) [OF i]
    and wt = thread_facts(4) [OF i, of _ _ t] and own = fat_views(2) [of s] and nfat = exit_no_fatal [OF i v st]
  from st show ?thesis
  proof cases
    case (exit_thin)
    then show ?thesis by (auto intro!: inv_goto [OF i ns] simp: lock_owner_def)
  next
    case (exit_thin_count w w')
    then show ?thesis using pc v FromThinLockId_state [OF v] inv_word [OF i ns, of w'] by simp
  next
    case (exit_thin_last w)
    then show ?thesis using pc inv_word [OF i ns, of 0] by simp
  next
    case (unlock m mon mon')
    then show ?thesis using pc unlock_keeps_inv [OF i ns, of m mon mon' False] by simp
  next
    case (unlock_signal m mon mon' s1)
    note S = signal_keeps [OF unlock_signal(6)]
    have "pcs s1 t = ExitFat m" "\<not> suspended s1 t" using S(5,6) [of t] unlock_signal(3) ns by auto
    then show ?thesis using unlock_signal pc S unlock_keeps_inv [OF S(1) [OF i], of t m mon mon' True] by simp
  qed (use pc nfat in \<open>auto intro!: inv_goto [OF i ns] simp: fat_def kMaxHash_def\<close>)
qed

lemma wait_step_keeps_inv:
  assumes i: "lock_inv s" and v: "valid_thread t" and ns: "\<not> suspended s t" and st: "wait_step t s e s'"
  shows "lock_inv s'"
proof -
  note pc = thread_facts(1) [OF i, of t] and W = thread_facts(2) [OF i] and ok = thread_facts(3) [OF i]
    and wt = thread_facts(4) [OF i, of _ _ t] and own = fat_views(2) [of s] and nfat = wait_no_fatal [OF i v st]
  from st show ?thesis
  proof cases
    case (wait_thin ms ns' m)
    show ?thesis unfolding wait_thin(2)
      by (rule inv_new [OF i ns]) (use wait_thin v in \<open>auto simp: owner_ok_def describes_def word_ok_def\<close>)
  next
    case (wait_begin m ms ns' mon mon' prev s1)
    note S = signal_keeps [OF wait_begin(6)]
    have "pcs s1 t = WaitFat m ms ns'" "\<not> suspended s1 t" using S(5,6) [of t] wait_begin(3) ns by auto
    then show ?thesis using wait_begin pc S wait_begin_keeps_inv [OF S(1) [OF i], of t m ms ns' mon mon' prev] by simp
  next
    case (wait_lock m prev mon mon')
    then have f: "fat s m" "mon_owner mon \<noteq> Some t" using pc own by auto
    then show ?thesis
      using wait_lock Monitor_Lock_Locked [OF wait_lock(5) ok [OF f(1) wait_lock(4)] v]
        lock_keeps_inv [OF i ns v f(1) wait_lock(4), of 0 mon' "WaitRestore m prev"]
      by (simp add: set_monitor_views)
  next
    case (wait_lock_contended m prev mon mon')
    then have f: "fat s m" "mon_owner mon \<noteq> Some t" using pc own by auto
    then show ?thesis
      using wait_lock_contended Monitor_Lock_Contended(1) [OF wait_lock_contended(5)]
      by (auto intro!: contended_keeps_inv [OF i ns] simp: set_monitor_views)
  next
    case (wait_lock_again m prev mon mon')
    then have f: "fat s m" "mon_owner mon \<noteq> Some t" using pc own by auto
    then show ?thesis
      using wait_lock_again Monitor_Lock_Locked [OF wait_lock_again(5) _ v] ok [OF f(1) wait_lock_again(4)]
        lock_keeps_inv [OF i ns v f(1) wait_lock_again(4), of 1 mon' "WaitRestore m prev"] wt [of m mon]
      by (simp add: set_monitor_views)
  next
    case (wait_lock_overflow m prev mon)
    then show ?thesis using pc own Monitor_Lock_overflow [OF wait_lock_overflow(5)] by auto
  next
    case (wait_lock_again_contended m prev mon mon')
    then have "mon_owner mon' \<noteq> Some t" using Monitor_Lock_Contended [OF wait_lock_again_contended(5)] by simp
    then show ?thesis
      using wait_lock_again_contended pc wt [of m mon]
      by (auto intro!: contended_again_keeps_inv [OF i ns] simp: set_monitor_views)
  next
    case (wait_lock_again_overflow m prev mon)
    then show ?thesis using pc own Monitor_Lock_overflow [OF wait_lock_again_overflow(5)] by auto
  next
    case (wait_end m prev mon)
    then show ?thesis using wait_end_keeps_inv [OF i ns v] by simp
  qed (use pc nfat in \<open>auto intro!: inv_goto [OF i ns] simp: fat_def kMaxHash_def\<close>)
qed

lemma notify_step_keeps_inv:
  assumes i: "lock_inv s" and v: "valid_thread t" and ns: "\<not> suspended s t" and st: "notify_step t s e s'"
  shows "lock_inv s'"
proof -
  note pc = thread_facts(1) [OF i, of t] and W = thread_facts(2) [OF i] and ok = thread_facts(3) [OF i]
    and wt = thread_facts(4) [OF i, of _ _ t] and own = fat_views(2) [of s] and nfat = notify_no_fatal [OF i v st]
  from st show ?thesis
  proof cases
    case (notify_done m al mon mon')
    then have f: "fat s m" using pc by simp
    obtain ws where "mon' = mon\<lparr>wait_set := ws\<rparr>" using Monitor_Notify_Some [OF notify_done(5)] .
    then show ?thesis
      using inv_monitor [OF i ns f notify_done(4), of mon' Idle] ok [OF f notify_done(4)] notify_done by simp
  qed (use pc nfat in \<open>auto intro!: inv_goto [OF i ns] simp: fat_def kMaxHash_def\<close>)
qed

lemma hash_step_keeps_inv:
  assumes i: "lock_inv s" and v: "valid_thread t" and ns: "\<not> suspended s t" and st: "hash_step t s e s'"
  shows "lock_inv s'"
proof -
  note pc = thread_facts(1) [OF i, of t] and W = thread_facts(2) [OF i] and ok = thread_facts(3) [OF i]
    and wt = thread_facts(4) [OF i, of _ _ t] and own = fat_views(2) [of s] and nfat = hash_no_fatal [OF i v st]
  from st show ?thesis
  proof cases
    case (hash_unlocked stale h)
    then show ?thesis using generated_facts by (auto intro!: inv_goto [OF i ns])
  next
    case (hash_cas w h w')
    then show ?thesis using pc hash_code_facts [of h w'] inv_word [OF i ns, of w'] by simp
  next
    case (hash_thin stale h m)
    show ?thesis unfolding hash_thin(2)
      by (rule inv_new [OF i ns]) (use hash_thin v generated_facts in \<open>auto simp: owner_ok_def describes_def word_ok_def\<close>)
  next
    case (hash_contended stale h)
    then show ?thesis using generated_facts by (auto intro!: inv_goto [OF i ns])
  next
    case (hash_monitor_new m mon h)
    then show ?thesis using hash_keeps_inv [OF i ns] by simp
  qed (use pc nfat in \<open>auto intro!: inv_goto [OF i ns] simp: fat_def kMaxHash_def\<close>)
qed

lemma tstep_keeps_inv:
  assumes "lock_inv s" "valid_thread t" "\<not> suspended s t" "tstep ms t s e s'"
  shows "lock_inv s'"
  using assms(4) unfolding tstep_def
  by (elim disjE) (use assms(1-3) in \<open>blast dest: enter_step_keeps_inv inflate_step_keeps_inv lock_step_keeps_inv
      exit_step_keeps_inv wait_step_keeps_inv notify_step_keeps_inv hash_step_keeps_inv\<close>)+

lemma deflate_quiet:
  assumes i: "lock_inv s" and sp: "\<And>t. suspend_point (pcs s t)" and fl: "GetState (lock_word s) = kFatLocked"
    and mon: "monitors s (FatLockMonitorId (lock_word s)) = Some mon" and d: "Monitor_Deflate mon = Some w"
  shows "w \<noteq> None" "pcs s t = Idle \<or> (\<exists>u h k. pcs s t = Suspending u h k)"
proof -
  have f: "fat s (FatLockMonitorId (lock_word s))" using fl by (simp add: fat_def)
  note cur = fat_views(1) [OF f mon]
  have ok: "mon_ok mon" using fat_monitor [OF i f] mon by auto
  have "of_nat (lock_count mon) \<le> kThinLockMaxCount" if "lock_count mon \<le> unat kThinLockMaxCount"
    using that by (simp add: kThinLockMaxCount_def word_le_nat_alt unat_of_nat)
  then show "w \<noteq> None"
    using d ok FromThinLockId_valid
    by (auto simp: Monitor_Deflate_def mon_ok_def FromHashCode_def split: option.splits if_splits)
  have "num_waiters mon = 0" using d by (auto simp: Monitor_Deflate_def split: if_splits)
  then have "weight (pcs s t) = 0" using weight_le [OF i cur, of t] by simp
  then show "pcs s t = Idle \<or> (\<exists>u h k. pcs s t = Suspending u h k)"
    using sp [of t] by (cases "pcs s t") auto
qed

lemma deflated_word:
  assumes "mon_ok mon" "Monitor_Deflate mon = Some (Some w)"
  shows "mon_owner mon = Some t \<Longrightarrow> GetState w = kThinLocked \<and> ThinLockOwner w = t \<and> unat (ThinLockCount w) = lock_count mon \<and> hash_code mon = 0"
    "mon_owner mon = None \<Longrightarrow> hash_code mon \<noteq> 0 \<Longrightarrow> GetState w = kHashCode \<and> LockWord_GetHashCode w = hash_code mon"
    "mon_owner mon = None \<Longrightarrow> hash_code mon = 0 \<Longrightarrow> w = 0"
proof -
  show "GetState w = kThinLocked \<and> ThinLockOwner w = t \<and> unat (ThinLockCount w) = lock_count mon \<and> hash_code mon = 0"
    if o: "mon_owner mon = Some t"
  proof -
    have v: "valid_thread t" using o assms(1) by (simp add: mon_ok_def)
    have w: "FromThinLockId t (of_nat (lock_count mon)) = Some w" and c: "lock_count mon \<le> unat kThinLockMaxCount"
      and h: "hash_code mon = 0"
      using assms(2) o by (auto simp: Monitor_Deflate_def split: if_splits)
    have "unat (of_nat (lock_count mon) :: u32) = lock_count mon"
      using c by (simp add: kThinLockMaxCount_def unat_of_nat)
    then show ?thesis using FromThinLockId_state [OF v w] h by simp
  qed
  show "GetState w = kHashCode \<and> LockWord_GetHashCode w = hash_code mon" if "mon_owner mon = None" "hash_code mon \<noteq> 0"
    using assms(2) that hash_code_facts by (auto simp: Monitor_Deflate_def split: if_splits)
  show "w = 0" if "mon_owner mon = None" "hash_code mon = 0"
    using assms(2) that by (auto simp: Monitor_Deflate_def split: if_splits)
qed

lemma deflate_keeps_inv:
  assumes i: "lock_inv s" and sp: "\<And>t. suspend_point (pcs s t)" and fl: "GetState (lock_word s) = kFatLocked"
    and mon: "monitors s (FatLockMonitorId (lock_word s)) = Some mon" and d: "Monitor_Deflate mon = Some (Some w)"
  shows "lock_inv (set_monitor (FatLockMonitorId (lock_word s)) None (set_word w s))"
proof -
  let ?s = "set_monitor (FatLockMonitorId (lock_word s)) None (set_word w s)"
  have f: "fat s (FatLockMonitorId (lock_word s))" using fl by (simp add: fat_def)
  have ok: "mon_ok mon" using fat_monitor [OF i f] mon by auto
  note D = deflated_word [OF ok d]
  have q: "pcs s t = Idle \<or> (\<exists>u h k. pcs s t = Suspending u h k)" for t
    using deflate_quiet(2) [OF i sp fl mon d] .
  have "pc_ok ?s t (pcs s t) \<and> installing (pcs s t) = None" for t
    using q [of t] lock_invD(2) [OF i, of t] by auto
  moreover have "word_ok ?s \<and> current_monitor ?s = None"
    using D ok by (cases "mon_owner mon"; cases "hash_code mon = 0")
      (auto simp: word_ok_def current_monitor_def mon_ok_def)
  ultimately show ?thesis unfolding lock_inv_def by simp
qed

lemma mon_step_keeps_inv:
  assumes "lock_inv s" "mon_step ms s e s'"
  shows "lock_inv s'"
  using assms(2)
proof cases
  case (thread t)
  then show ?thesis using tstep_keeps_inv [OF assms(1)] by blast
next
  case (contend t)
  then show ?thesis using contend_step_keeps_inv [OF assms(1)] by blast
next
  case move
  then show ?thesis using move_keeps_inv [OF assms(1)] by simp
next
  case (deflate mon w)
  then show ?thesis using deflate_keeps_inv [OF assms(1)] by blast
next
  case (deflate_check mon)
  then show ?thesis using deflate_quiet(1) [OF assms(1)] by blast
qed

lemma initial_world_inv: "lock_inv initial_world"
  by (simp add: lock_inv_def initial_world_def word_ok_def current_monitor_def)

end
