(* ===== verification/MonitorRefinement.thy ===== *)
theory MonitorRefinement
  imports MonitorSafety
begin

text \<open>
  What an object lock promises, as an abstract recursive lock with a wait set and an identity hash code,
  and that every interleaving of the model implements it.
\<close>

section \<open>The abstract lock\<close>

record lock_spec =
  holder :: "(u32 \<times> nat) option"
  sleeping :: "u32 \<Rightarrow> nat option"
  identity :: "u32 option"

definition free_lock :: lock_spec where
  "free_lock = \<lparr>holder = None, sleeping = \<lambda>_. None, identity = None\<rparr>"

inductive spec_step :: "lock_spec \<Rightarrow> mon_event \<Rightarrow> lock_spec \<Rightarrow> bool" for a where
  spec_tau: "spec_step a Tau a"
| spec_enter: "holder a = None \<Longrightarrow> spec_step a (Entered t) (a\<lparr>holder := Some (t, 1)\<rparr>)"
| spec_reenter: "holder a = Some (t, n) \<Longrightarrow> spec_step a (Entered t) (a\<lparr>holder := Some (t, n + 1)\<rparr>)"
| spec_exit: "holder a = Some (t, n + 1) \<Longrightarrow> 0 < n \<Longrightarrow> spec_step a (Exited t) (a\<lparr>holder := Some (t, n)\<rparr>)"
| spec_exit_last: "holder a = Some (t, 1) \<Longrightarrow> spec_step a (Exited t) (a\<lparr>holder := None\<rparr>)"
| spec_exit_failed: "(\<And>n. holder a \<noteq> Some (t, n)) \<Longrightarrow> spec_step a (ExitFailed t) a"
| spec_release: "holder a = Some (t, n) \<Longrightarrow>
    spec_step a (Released t) (a\<lparr>holder := None, sleeping := (sleeping a)(t := Some n)\<rparr>)"
| spec_return: "holder a = None \<Longrightarrow> sleeping a t = Some n \<Longrightarrow>
    spec_step a (Returned t) (a\<lparr>holder := Some (t, n), sleeping := (sleeping a)(t := None)\<rparr>)"
| spec_stale_hash: "spec_step a (StaleHashed h) a"
| spec_hash: "identity a = None \<or> identity a = Some h \<Longrightarrow> spec_step a (Hashed h) (a\<lparr>identity := Some h\<rparr>)"

section \<open>Simulation\<close>

locale forward_simulation =
  fixes conc :: "'s \<Rightarrow> 'e \<Rightarrow> 's \<Rightarrow> bool"
    and spec :: "'a \<Rightarrow> 'e \<Rightarrow> 'a \<Rightarrow> bool"
    and good :: "'s \<Rightarrow> bool"
    and rel :: "'s \<Rightarrow> 'a \<Rightarrow> bool"
    and s0 :: 's
    and a0 :: 'a
  assumes good_start: "good s0"
    and rel_start: "rel s0 a0"
    and good_step: "good s \<Longrightarrow> conc s e s' \<Longrightarrow> good s'"
    and rel_step: "good s \<Longrightarrow> rel s a \<Longrightarrow> conc s e s' \<Longrightarrow> \<exists>a'. spec a e a' \<and> rel s' a'"
begin

lemma good_trace: "trace conc s0 es s \<Longrightarrow> good s"
  by (induction rule: trace.induct) (auto intro: good_start good_step)

lemma simulated: "trace conc s0 es s \<Longrightarrow> \<exists>a. trace spec a0 es a \<and> rel s a"
proof (induction rule: trace.induct)
  case trace_start
  show ?case by (intro exI [of _ a0] conjI trace.trace_start rel_start)
next
  case (trace_step es s e s')
  then obtain a where a: "trace spec a0 es a" "rel s a" by blast
  obtain a' where "spec a e a'" "rel s' a'" using rel_step [OF good_trace [OF trace_step(1)] a(2) trace_step(2)] by blast
  then show ?case using trace.trace_step [of spec a0 es a e a'] a(1) by blast
qed

end

fun restoring :: "pc \<Rightarrow> bool" where
  "restoring (WaitRestore _ _) = True"
| "restoring _ = False"

fun slept :: "pc \<Rightarrow> nat option" where
  "slept (Waiting _ prev) = Some (prev + 1)"
| "slept (WaitLock _ prev) = Some (prev + 1)"
| "slept (WaitBlocked _ prev) = Some (prev + 1)"
| "slept (WaitAsleep _ prev) = Some (prev + 1)"
| "slept (WaitWoken _ prev) = Some (prev + 1)"
| "slept (WaitRestore _ prev) = Some (prev + 1)"
| "slept _ = None"

definition held :: "lock_world \<Rightarrow> (u32 \<times> nat) option" where
  "held s =
     (case lock_owner s of
        None \<Rightarrow> None
      | Some t \<Rightarrow> if restoring (pcs s t) then None else Some (t, lock_depth s))"

definition represents :: "lock_world \<Rightarrow> lock_spec \<Rightarrow> bool" where
  "represents s a \<longleftrightarrow> holder a = held s \<and> sleeping a = slept \<circ> pcs s \<and>
     (\<forall>h. identity a = Some h \<longrightarrow> lock_hash s = h \<and> h \<noteq> 0)"

text \<open>The abstract effect of a step in terms of owner, depth and hash code.\<close>

lemma tau_sim:
  assumes "represents s a" "held s' = held s" "\<And>u. slept (pcs s' u) = slept (pcs s u)"
    "lock_hash s = 0 \<or> lock_hash s' = lock_hash s"
  shows "\<exists>a'. spec_step a Tau a' \<and> represents s' a'"
  using assms spec_tau [of a] by (auto simp: represents_def comp_def)

lemma held_goto:
  assumes "lock_owner s = Some t \<Longrightarrow> restoring p = restoring (pcs s t)"
  shows "held (goto t p s) = held s"
  using assms by (auto simp: held_def split: option.splits)

lemma goto_sim:
  assumes "represents s a" "slept p = slept (pcs s t)" "restoring p = restoring (pcs s t)"
  shows "\<exists>a'. spec_step a Tau a' \<and> represents (goto t p s) a'"
  using assms by (intro tau_sim) (auto simp: held_goto)

lemma represents_step:
  assumes "represents s a" "lock_hash s' = lock_hash s"
  shows "represents s' (a\<lparr>holder := held s', sleeping := slept \<circ> pcs s'\<rparr>)"
  using assms by (simp add: represents_def)

text \<open>Taking, giving back and leaving the lock, without the bookkeeping of the wait set.\<close>

lemma lock_sim:
  assumes r: "represents s a" and h: "lock_hash s' = lock_hash s" and sl: "\<And>u. slept (pcs s' u) = slept (pcs s u)"
    and e: "e = Entered t \<and> held s = None \<and> held s' = Some (t, 1) \<or>
      e = Entered t \<and> (\<exists>n. held s = Some (t, n) \<and> held s' = Some (t, n + 1)) \<or>
      e = Exited t \<and> (\<exists>n. held s = Some (t, n + 1) \<and> held s' = (if n = 0 then None else Some (t, n)))"
  shows "\<exists>a'. spec_step a e a' \<and> represents s' a'"
proof -
  have eq: "slept \<circ> pcs s' = sleeping a" using sl r by (auto simp: represents_def comp_def)
  have "represents s' (a\<lparr>holder := held s'\<rparr>)" using represents_step [OF r h] unfolding eq by simp
  moreover have "spec_step a e (a\<lparr>holder := held s'\<rparr>)"
    using e r by (auto simp: represents_def intro: spec_step.intros [simplified])
  ultimately show ?thesis by blast
qed

lemma exit_failed_sim:
  assumes "represents s a" "lock_owner s \<noteq> Some t" "slept (pcs s t) = None" "\<not> restoring (pcs s t)"
  shows "\<exists>a'. spec_step a (ExitFailed t) a' \<and> represents (goto t Idle s) a'"
proof -
  have "holder a \<noteq> Some (t, n)" for n
    using assms(1,2) by (auto simp: represents_def held_def split: option.splits if_splits)
  then have "spec_step a (ExitFailed t) a" by (rule spec_exit_failed)
  moreover have "represents (goto t Idle s) a"
    using assms by (auto simp: represents_def held_goto comp_def)
  ultimately show ?thesis by blast
qed

lemma hash_sim:
  assumes r: "represents s a" and s': "held s' = held s" "\<And>u. slept (pcs s' u) = slept (pcs s u)"
    and h: "lock_hash s' = h" "h \<noteq> 0" "lock_hash s = 0 \<or> lock_hash s = h"
  shows "\<exists>a'. spec_step a (Hashed h) a' \<and> represents s' a'"
proof -
  have "identity a = None \<or> identity a = Some h" using r h(3) by (cases "identity a") (auto simp: represents_def)
  then have "spec_step a (Hashed h) (a\<lparr>identity := Some h\<rparr>)" by (rule spec_hash)
  moreover have "represents s' (a\<lparr>identity := Some h\<rparr>)"
    using r s' h(1,2) by (simp add: represents_def comp_def)
  ultimately show ?thesis by blast
qed

text \<open>Threads that move between points the lock does not see.\<close>

lemma wake_up_views: "slept (wake_up p) = slept p" "restoring (wake_up p) = restoring p"
  by (cases p; simp)+

lemma after_move_views: "slept (after_move p) = slept p" "restoring (after_move p) = restoring p"
  by (cases p rule: after_move.cases; simp)+

lemma represents_points:
  assumes "lock_word s' = lock_word s" "monitors s' = monitors s"
    and "\<And>u. slept (pcs s' u) = slept (pcs s u)" "\<And>u. restoring (pcs s' u) = restoring (pcs s u)"
  shows "represents s' a \<longleftrightarrow> represents s a"
proof -
  have "lock_owner s' = lock_owner s" "lock_depth s' = lock_depth s" "lock_hash s' = lock_hash s"
    using assms by (simp_all add: lock_owner_def lock_depth_def lock_hash_def current_monitor_def)
  moreover from this have "held s' = held s" using assms by (auto simp: held_def split: option.splits)
  moreover have "slept \<circ> pcs s' = slept \<circ> pcs s" using assms by auto
  ultimately show ?thesis by (simp add: represents_def)
qed

lemma signal_represents:
  assumes "signal m s s1"
  shows "represents s1 a \<longleftrightarrow> represents s a"
  by (rule represents_points) (use assms in \<open>auto elim!: signal.cases simp: wake_up_views split: if_splits\<close>)

text \<open>Views of a state in which a thread has just written the lock word or its monitor.\<close>

lemma word_views:
  "lock_owner (set_word 0 s) = None" "lock_hash (set_word 0 s) = 0"
  "GetState w = kThinLocked \<Longrightarrow> lock_owner (set_word w s) = Some (ThinLockOwner w)"
  "GetState w = kThinLocked \<Longrightarrow> lock_depth (set_word w s) = unat (ThinLockCount w) + 1"
  "GetState w = kThinLocked \<Longrightarrow> lock_hash (set_word w s) = 0"
  "GetState w = kHashCode \<Longrightarrow> lock_owner (set_word w s) = None"
  "GetState w = kHashCode \<Longrightarrow> lock_hash (set_word w s) = LockWord_GetHashCode w"
  by (simp_all add: lock_owner_def lock_depth_def lock_hash_def current_monitor_def)

lemma old_word_views:
  "lock_word s = 0 \<Longrightarrow> lock_owner s = None" "lock_word s = 0 \<Longrightarrow> lock_hash s = 0"
  "GetState (lock_word s) = kThinLocked \<Longrightarrow> lock_owner s = Some (ThinLockOwner (lock_word s))"
  "GetState (lock_word s) = kThinLocked \<Longrightarrow> lock_depth s = unat (ThinLockCount (lock_word s)) + 1"
  "GetState (lock_word s) = kThinLocked \<Longrightarrow> lock_hash s = 0"
  "GetState (lock_word s) = kHashCode \<Longrightarrow> lock_owner s = None"
  "GetState (lock_word s) = kHashCode \<Longrightarrow> lock_hash s = LockWord_GetHashCode (lock_word s)"
  by (simp_all add: lock_owner_def lock_depth_def lock_hash_def current_monitor_def)

lemma held_owner:
  "lock_owner s = None \<Longrightarrow> held s = None"
  "lock_owner s = Some t \<Longrightarrow> \<not> restoring (pcs s t) \<Longrightarrow> held s = Some (t, lock_depth s)"
  "lock_owner s = Some t \<Longrightarrow> restoring (pcs s t) \<Longrightarrow> held s = None"
  by (simp_all add: held_def)

lemma held_cong:
  assumes "lock_owner s' = lock_owner s" "lock_owner s \<noteq> None \<Longrightarrow> lock_depth s' = lock_depth s"
    "\<And>u. lock_owner s = Some u \<Longrightarrow> restoring (pcs s' u) = restoring (pcs s u)"
  shows "held s' = held s"
  using assms by (auto simp: held_def split: option.splits)

lemma unat_thin_count:
  assumes "ThinLockCount w + 1 \<le> kThinLockMaxCount"
  shows "unat (ThinLockCount w + 1) = unat (ThinLockCount w) + 1"
proof -
  have "unat (ThinLockCount w) \<le> 16383"
    using thin_count_bound [of w] by (simp add: kThinLockMaxCount_def word_le_nat_alt)
  then show ?thesis by (simp add: unat_word_ariths)
qed

lemma monitor_lock_sim:
  assumes i: "lock_inv s" and v: "valid_thread t" and r: "represents s a" and f: "fat s m"
    and mon: "monitors s m = Some mon" and l: "Monitor_Lock t (mon\<lparr>num_waiters := n\<rparr>) = Locked mon'"
    and pc: "slept (pcs s t) = None" "\<not> restoring (pcs s t)"
  shows "\<exists>a'. spec_step a (Entered t) a' \<and> represents (goto t Idle (set_monitor m (Some mon') s)) a'"
proof -
  let ?s = "goto t Idle (set_monitor m (Some mon') s)"
  have ok: "mon_ok mon" using fat_monitor [OF i f] mon by auto
  note L = Monitor_Lock_Locked [OF l _ v, simplified, OF ok] and V = fat_views [OF f mon] and V' = set_monitor_views [OF f]
  have held': "held ?s = Some (t, lock_count mon' + 1)"
    using L(1) V' held_owner(2) [of ?s t] by simp
  have "held s = (if mon_owner mon = Some t then Some (t, lock_count mon + 1) else None)"
    using L(2) V held_owner(1,2) [of s] pc(2) by auto
  then show ?thesis
    using L(5,6) V V' held' pc by (intro lock_sim [OF r, where t = t]) (auto split: if_splits)
qed

lemma monitor_unlock_sim:
  assumes i: "lock_inv s" and r: "represents s a" and f: "fat s m"
    and mon: "monitors s m = Some mon" and l: "Monitor_Unlock t mon = Some (mon', sg)"
    and pc: "slept (pcs s t) = None" "\<not> restoring (pcs s t)"
  shows "\<exists>a'. spec_step a (Exited t) a' \<and> represents (goto t Idle (set_monitor m (Some mon') s)) a'"
proof -
  let ?s = "goto t Idle (set_monitor m (Some mon') s)"
  have ok: "mon_ok mon" using fat_monitor [OF i f] mon by auto
  note L = Monitor_Unlock_Some [OF l ok] and V = fat_views [OF f mon] and V' = set_monitor_views [OF f]
  have held: "held s = Some (t, lock_count mon + 1)" using L(1) V held_owner(2) [of s t] pc(2) by simp
  have "held ?s = (if lock_count mon = 0 then None else Some (t, lock_count mon))"
    using L(5) V' held_owner(1) [of ?s] held_owner(2) [of ?s t] by (simp split: if_splits)
  then show ?thesis
    using L(4) V V' held pc by (intro lock_sim [OF r, where t = t]) auto
qed

text \<open>Stores of the lock word by its owner or by a thread that found the object unlocked.\<close>

lemma enter_word_sim:
  assumes v: "valid_thread t" and r: "represents s a" and w: "lock_word s = 0" "FromThinLockId t 0 = Some w'"
    and pc: "slept (pcs s t) = None"
  shows "\<exists>a'. spec_step a (Entered t) a' \<and> represents (goto t Idle (set_word w' s)) a'"
proof -
  note F = FromThinLockId_state [OF v w(2)]
  have "held s = None" using old_word_views(1) [OF w(1)] by (rule held_owner(1))
  moreover have "held (goto t Idle (set_word w' s)) = Some (t, 1)"
    using held_owner(2) [of "goto t Idle (set_word w' s)" t] F word_views(3,4) [of w'] by simp
  ultimately show ?thesis
    using old_word_views(2) [OF w(1)] word_views(5) [OF F(1)] pc by (intro lock_sim [OF r, where t = t]) auto
qed

lemma reenter_word_sim:
  assumes v: "valid_thread t" and r: "represents s a" and w: "GetState (lock_word s) = kThinLocked" "ThinLockOwner (lock_word s) = t"
    and c: "ThinLockCount (lock_word s) + 1 \<le> kThinLockMaxCount"
    and w': "FromThinLockId t (ThinLockCount (lock_word s) + 1) = Some w'"
    and pc: "slept (pcs s t) = None" "\<not> restoring (pcs s t)"
  shows "\<exists>a'. spec_step a (Entered t) a' \<and> represents (goto t Idle (set_word w' s)) a'"
proof -
  note F = FromThinLockId_state [OF v w'] and O = old_word_views(3-5) [OF w(1)]
  have "held s = Some (t, unat (ThinLockCount (lock_word s)) + 1)" using held_owner(2) [of s t] O w pc by simp
  moreover have "held (goto t Idle (set_word w' s)) = Some (t, unat (ThinLockCount (lock_word s)) + 2)"
    using held_owner(2) [of "goto t Idle (set_word w' s)" t] F word_views(3,4) [of w'] unat_thin_count [OF c] by simp
  ultimately show ?thesis
    using O(3) word_views(5) [OF F(1)] pc by (intro lock_sim [OF r, where t = t]) auto
qed

lemma exit_word_sim:
  assumes v: "valid_thread t" and r: "represents s a" and w: "GetState (lock_word s) = kThinLocked" "ThinLockOwner (lock_word s) = t"
    and w': "if ThinLockCount (lock_word s) = 0 then w' = 0
      else FromThinLockId t (ThinLockCount (lock_word s) - 1) = Some w'"
    and pc: "slept (pcs s t) = None" "\<not> restoring (pcs s t)"
  shows "\<exists>a'. spec_step a (Exited t) a' \<and> represents (goto t Idle (set_word w' s)) a'"
proof -
  let ?s = "goto t Idle (set_word w' s)"
  note O = old_word_views(3-5) [OF w(1)]
  have h: "held s = Some (t, unat (ThinLockCount (lock_word s)) + 1)" using held_owner(2) [of s t] O w pc by simp
  show ?thesis
  proof (cases "ThinLockCount (lock_word s) = 0")
    case True
    then have "w' = 0" using w' by simp
    then have "held ?s = None" "lock_hash ?s = 0" using word_views(1,2) held_owner(1) [of ?s] by simp_all
    then show ?thesis using O(3) h pc True by (intro lock_sim [OF r, where t = t]) auto
  next
    case False
    then have "FromThinLockId t (ThinLockCount (lock_word s) - 1) = Some w'" using w' by simp
    note F = FromThinLockId_state [OF v this]
    have "held ?s = Some (t, unat (ThinLockCount (lock_word s) - 1) + 1)" "lock_hash ?s = 0"
      using word_views(3-5) [OF F(1)] F held_owner(2) [of ?s t] by simp_all
    moreover have "unat (ThinLockCount (lock_word s) - 1) + 1 = unat (ThinLockCount (lock_word s))"
      using False by (simp add: unat_minus_one unat_gt_0)
    ultimately show ?thesis using O(3) h pc False by (intro lock_sim [OF r, where t = t]) (auto simp: unat_eq_0)
  qed
qed

text \<open>The two ends of a wait.\<close>

lemma release_sim:
  assumes i: "lock_inv s" and r: "represents s a" and pc: "pcs s t = WaitFat m ms ns"
    and mon: "monitors s m = Some mon" and b: "Monitor_Wait_begin t ms ns mon = Some (mon', prev)"
  shows "\<exists>a'. spec_step a (Released t) a' \<and> represents (goto t (Waiting m prev) (set_monitor m (Some mon') s)) a'"
proof -
  let ?s = "goto t (Waiting m prev) (set_monitor m (Some mon') s)"
  have f: "fat s m" using lock_invD(2) [OF i, of t] unfolding pc by simp
  have ok: "mon_ok mon" using fat_monitor [OF i f] mon by auto
  note B = Monitor_Wait_begin_Some [OF b ok] and V = fat_views [OF f mon] and V' = set_monitor_views [OF f]
  have "held s = Some (t, prev + 1)" using held_owner(2) [of s t] V B pc by simp
  then have "spec_step a (Released t) (a\<lparr>holder := None, sleeping := (sleeping a)(t := Some (prev + 1))\<rparr>)"
    using r by (intro spec_release) (simp add: represents_def)
  moreover have "represents ?s (a\<lparr>holder := held ?s, sleeping := slept \<circ> pcs ?s\<rparr>)"
    using represents_step [OF r, of ?s] V V' B by simp
  moreover have "held ?s = None" using held_owner(1) [of ?s] V' B by simp
  moreover have "slept \<circ> pcs ?s = (sleeping a)(t := Some (prev + 1))" using r by (auto simp: represents_def)
  ultimately show ?thesis by metis
qed

lemma return_sim:
  assumes i: "lock_inv s" and r: "represents s a" and pc: "pcs s t = WaitRestore m prev"
    and mon: "monitors s m = Some mon"
  shows "\<exists>a'. spec_step a (Returned t) a' \<and>
    represents (goto t Idle (set_monitor m (Some (Monitor_Wait_end t prev mon)) s)) a'"
proof -
  let ?s = "goto t Idle (set_monitor m (Some (Monitor_Wait_end t prev mon)) s)"
  have f: "fat s m" and own: "lock_owner s = Some t" using lock_invD(2) [OF i, of t] unfolding pc by auto
  note V = fat_views [OF f mon] and V' = set_monitor_views [OF f]
  have "held s = None" using held_owner(3) [OF own] pc by simp
  moreover have "slept (pcs s t) = Some (prev + 1)" using pc by simp
  ultimately have "spec_step a (Returned t) (a\<lparr>holder := Some (t, prev + 1), sleeping := (sleeping a)(t := None)\<rparr>)"
    using r by (intro spec_return) (simp_all add: represents_def)
  moreover have "represents ?s (a\<lparr>holder := held ?s, sleeping := slept \<circ> pcs ?s\<rparr>)"
    using represents_step [OF r, of ?s] V V' by (simp add: Monitor_Wait_end_def)
  moreover have "held ?s = Some (t, prev + 1)" using held_owner(2) [of ?s t] V' by (simp add: Monitor_Wait_end_def)
  moreover have "slept \<circ> pcs ?s = (sleeping a)(t := None)" using r by (auto simp: represents_def)
  ultimately show ?thesis by metis
qed

text \<open>A monitor taken back at the end of a wait is not yet held.\<close>

lemma wait_lock_sim:
  assumes i: "lock_inv s" and v: "valid_thread t" and r: "represents s a" and f: "fat s m"
    and mon: "monitors s m = Some mon" and l: "Monitor_Lock t (mon\<lparr>num_waiters := n\<rparr>) = Locked mon'"
    and own: "lock_owner s \<noteq> Some t" and pc: "slept (pcs s t) = Some (prev + 1)"
  shows "\<exists>a'. spec_step a Tau a' \<and> represents (goto t (WaitRestore m prev) (set_monitor m (Some mon') s)) a'"
proof -
  let ?s = "goto t (WaitRestore m prev) (set_monitor m (Some mon') s)"
  have ok: "mon_ok mon" using fat_monitor [OF i f] mon by auto
  note L = Monitor_Lock_Locked [OF l _ v, simplified, OF ok] and V = fat_views [OF f mon] and V' = set_monitor_views [OF f]
  have "held s = None" using held_owner(1) [of s] L(2) V own by auto
  moreover have "held ?s = None" using held_owner(3) [of ?s t] V' L by simp
  ultimately show ?thesis using V V' L pc by (intro tau_sim [OF r]) auto
qed

text \<open>Changes of the published monitor that the lock does not see.\<close>

lemma monitor_tau_sim:
  assumes r: "represents s a" and f: "fat s m" and mon: "monitors s m = Some mon"
    and eq: "mon_owner mon' = mon_owner mon" "lock_count mon' = lock_count mon"
      "hash_code mon = 0 \<or> hash_code mon' = hash_code mon"
    and p: "slept p = slept (pcs s t)" "\<not> restoring p" "\<not> restoring (pcs s t)"
  shows "\<exists>a'. spec_step a Tau a' \<and> represents (goto t p (set_monitor m (Some mon') s)) a'"
proof -
  note V = fat_views [OF f mon] and V' = set_monitor_views [OF f]
  have "held (goto t p (set_monitor m (Some mon') s)) = held s"
    using V V' eq p by (intro held_cong) auto
  then show ?thesis using V V' eq p by (intro tau_sim [OF r]) auto
qed

lemma private_tau_sim:
  assumes r: "represents s a" and nf: "\<not> fat s m"
    and p: "slept p = slept (pcs s t)" "\<not> restoring p" "\<not> restoring (pcs s t)"
  shows "\<exists>a'. spec_step a Tau a' \<and> represents (goto t p (set_monitor m x s)) a'"
proof -
  note V = private_views [OF nf]
  have "held (goto t p (set_monitor m x s)) = held s" using V p by (intro held_cong) auto
  then show ?thesis using V p by (intro tau_sim [OF r]) auto
qed

lemma install_cas_sim:
  assumes i: "lock_inv s" and r: "represents s a" and pc: "pcs s t = InstallCas m (lock_word s) so k"
  shows "\<exists>a'. spec_step a Tau a' \<and> represents (goto t (Installed so k) (set_word (FromMonitorId m) s)) a'"
proof -
  let ?s = "goto t (Installed so k) (set_word (FromMonitorId m) s)"
  from install_cas_views [OF i pc] obtain mon where d: "describes mon (lock_word s)"
      and own: "lock_owner (set_word (FromMonitorId m) s) = lock_owner s"
      and dep: "lock_owner s \<noteq> None \<Longrightarrow> lock_depth (set_word (FromMonitorId m) s) = lock_depth s"
      and h: "GetState (lock_word s) = kHashCode \<Longrightarrow> lock_hash (set_word (FromMonitorId m) s) = lock_hash s"
    by blast
  have "held ?s = held s" using own dep pc by (intro held_cong) auto
  moreover have "lock_hash s = 0 \<or> lock_hash ?s = lock_hash s"
    using d h old_word_views(5) [of s] by (auto simp: describes_def)
  ultimately show ?thesis using pc by (intro tau_sim [OF r]) auto
qed

lemma deflate_sim:
  assumes i: "lock_inv s" and r: "represents s a" and fl: "GetState (lock_word s) = kFatLocked"
    and mon: "monitors s (FatLockMonitorId (lock_word s)) = Some mon" and d: "Monitor_Deflate mon = Some (Some w)"
  shows "\<exists>a'. spec_step a Tau a' \<and> represents (set_monitor (FatLockMonitorId (lock_word s)) None (set_word w s)) a'"
proof -
  let ?s = "set_monitor (FatLockMonitorId (lock_word s)) None (set_word w s)"
  have f: "fat s (FatLockMonitorId (lock_word s))" using fl by (simp add: fat_def)
  have ok: "mon_ok mon" using fat_monitor [OF i f] mon by auto
  note D = deflated_word [OF ok d] and V = fat_views [OF f mon] and O = old_word_views [of ?s, simplified]
  have "lock_owner ?s = lock_owner s \<and> (lock_owner s \<noteq> None \<longrightarrow> lock_depth ?s = lock_depth s) \<and> lock_hash ?s = lock_hash s"
    using D V O by (cases "mon_owner mon"; cases "hash_code mon = 0") auto
  then show ?thesis by (intro tau_sim [OF r] held_cong) auto
qed

lemma return_to_views [simp]: "slept (return_to k) = None" "restoring (return_to k) = False"
  by (cases k; simp)+

lemma enter_step_sim:
  assumes i: "lock_inv s" and v: "valid_thread t" and r: "represents s a" and st: "enter_step ms t s e s'"
  shows "\<exists>a'. spec_step a e a' \<and> represents s' a'"
proof -
  note pc = thread_facts(1) [OF i, of t] and W = thread_facts(2) [OF i] and nfat = enter_no_fatal [OF i v st]
    and new = private_tau_sim [OF r fresh_monitor(1) [OF i]] and drop = private_tau_sim [OF r installing_monitor(2) [OF i]]
  from st show ?thesis
  proof cases
    case (enter_cas w c w')
    then show ?thesis using enter_word_sim [OF v r] pc by simp
  next
    case (enter_recursive w c w')
    then show ?thesis using reenter_word_sim [OF v r] pc by simp
  qed (use new nfat in \<open>auto intro!: goto_sim [OF r]\<close>)
qed

lemma inflate_step_sim:
  assumes i: "lock_inv s" and v: "valid_thread t" and r: "represents s a" and st: "inflate_step t s e s'"
  shows "\<exists>a'. spec_step a e a' \<and> represents s' a'"
proof -
  note pc = thread_facts(1) [OF i, of t] and W = thread_facts(2) [OF i] and nfat = inflate_no_fatal [OF i v st]
    and new = private_tau_sim [OF r fresh_monitor(1) [OF i]] and drop = private_tau_sim [OF r installing_monitor(2) [OF i]]
  from st show ?thesis
  proof cases
    case (install m u k mon mon')
    then show ?thesis using drop [of t] by simp
  next
    case (install_lost m u k mon)
    then show ?thesis using drop [of t] by simp
  next
    case (install_cas m w u k)
    then show ?thesis using install_cas_sim [OF i r] by simp
  next
    case (install_cas_failed m w u k)
    then show ?thesis using drop [of t] by simp
  qed (use new nfat in \<open>auto intro!: goto_sim [OF r]\<close>)
qed

lemma lock_step_sim:
  assumes i: "lock_inv s" and v: "valid_thread t" and r: "represents s a" and st: "lock_step t s e s'"
  shows "\<exists>a'. spec_step a e a' \<and> represents s' a'"
proof -
  note pc = thread_facts(1) [OF i, of t] and W = thread_facts(2) [OF i] and nfat = lock_no_fatal [OF i v st]
    and new = private_tau_sim [OF r fresh_monitor(1) [OF i]] and drop = private_tau_sim [OF r installing_monitor(2) [OF i]]
  from st show ?thesis
  proof cases
    case (lock m mon mon')
    then show ?thesis using monitor_lock_sim [OF i v r, of m mon "num_waiters mon"] pc by simp
  next
    case (lock_contended m mon mon')
    then show ?thesis
      using monitor_tau_sim [OF r, of m mon mon' _ t] Monitor_Lock_Contended(1) [of t mon mon'] pc by simp
  next
    case (lock_again m mon mon')
    then show ?thesis using monitor_lock_sim [OF i v r] pc by simp
  next
    case (lock_again_contended m mon mon')
    then show ?thesis
      using monitor_tau_sim [OF r, of m mon mon' _ t] Monitor_Lock_Contended(1) [OF lock_again_contended(5)] pc by simp
  qed (use new nfat in \<open>auto intro!: goto_sim [OF r]\<close>)
qed

lemma exit_step_sim:
  assumes i: "lock_inv s" and v: "valid_thread t" and r: "represents s a" and st: "exit_step t s e s'"
  shows "\<exists>a'. spec_step a e a' \<and> represents s' a'"
proof -
  note pc = thread_facts(1) [OF i, of t] and W = thread_facts(2) [OF i] and nfat = exit_no_fatal [OF i v st]
    and new = private_tau_sim [OF r fresh_monitor(1) [OF i]] and drop = private_tau_sim [OF r installing_monitor(2) [OF i]]
  from st show ?thesis
  proof cases
    case exit_unowned
    then show ?thesis using exit_failed_sim [OF r] old_word_views(1,6) [of s] by auto
  next
    case (exit_thin_failed w)
    then show ?thesis using exit_failed_sim [OF r] pc by simp
  next
    case (exit_thin_count w w')
    then show ?thesis using exit_word_sim [OF v r] pc by simp
  next
    case (exit_thin_last w)
    then show ?thesis using exit_word_sim [OF v r] pc by simp
  next
    case (unlock m mon mon')
    then show ?thesis using monitor_unlock_sim [OF i r, of m mon t mon' False] pc by simp
  next
    case (unlock_signal m mon mon' s1)
    note S = signal_keeps [OF unlock_signal(6)]
    have "represents s1 a" using signal_represents [OF unlock_signal(6)] r by simp
    moreover have "pcs s1 t = ExitFat m" using S(5) [of t] unlock_signal(3) by simp
    ultimately show ?thesis
      using unlock_signal monitor_unlock_sim [OF S(1) [OF i], of a m mon t mon' True] S pc by simp
  next
    case (unlock_failed m mon)
    then show ?thesis
      using exit_failed_sim [OF r, of t] fat_views(2) [of s m mon] pc by (auto simp: Monitor_Unlock_def split: if_splits)
  qed (use new nfat in \<open>auto intro!: goto_sim [OF r]\<close>)
qed

lemma wait_step_sim:
  assumes i: "lock_inv s" and v: "valid_thread t" and r: "represents s a" and st: "wait_step t s e s'"
  shows "\<exists>a'. spec_step a e a' \<and> represents s' a'"
proof -
  note pc = thread_facts(1) [OF i, of t] and W = thread_facts(2) [OF i] and nfat = wait_no_fatal [OF i v st]
    and new = private_tau_sim [OF r fresh_monitor(1) [OF i]] and drop = private_tau_sim [OF r installing_monitor(2) [OF i]]
  from st show ?thesis
  proof cases
    case (wait_begin m ms ns mon mon' prev s1)
    note S = signal_keeps [OF wait_begin(6)]
    have "represents s1 a" using signal_represents [OF wait_begin(6)] r by simp
    moreover have "pcs s1 t = WaitFat m ms ns" using S(5) [of t] wait_begin(3) by simp
    ultimately show ?thesis
      using wait_begin release_sim [OF S(1) [OF i], of a t m ms ns mon mon' prev] S by simp
  next
    case (wait_lock m prev mon mon')
    then show ?thesis using wait_lock_sim [OF i v r, of m mon "num_waiters mon"] pc by simp
  next
    case (wait_lock_contended m prev mon mon')
    then show ?thesis
      using monitor_tau_sim [OF r, of m mon mon' _ t] Monitor_Lock_Contended(1) [of t mon mon'] pc by simp
  next
    case (wait_lock_again m prev mon mon')
    then show ?thesis using wait_lock_sim [OF i v r] pc by simp
  next
    case (wait_lock_again_contended m prev mon mon')
    then show ?thesis
      using monitor_tau_sim [OF r, of m mon mon' _ t] Monitor_Lock_Contended(1) [OF wait_lock_again_contended(5)] pc by simp
  next
    case (wait_lock_overflow m prev mon)
    then show ?thesis using pc fat_views(2) [of s m mon] Monitor_Lock_overflow [OF wait_lock_overflow(5)] by auto
  next
    case (wait_lock_again_overflow m prev mon)
    then show ?thesis using pc fat_views(2) [of s m mon] Monitor_Lock_overflow [OF wait_lock_again_overflow(5)] by auto
  next
    case (wait_end m prev mon)
    then show ?thesis using return_sim [OF i r] by simp
  qed (use new nfat in \<open>auto intro!: goto_sim [OF r]\<close>)
qed

lemma notify_step_sim:
  assumes i: "lock_inv s" and v: "valid_thread t" and r: "represents s a" and st: "notify_step t s e s'"
  shows "\<exists>a'. spec_step a e a' \<and> represents s' a'"
proof -
  note pc = thread_facts(1) [OF i, of t] and W = thread_facts(2) [OF i] and nfat = notify_no_fatal [OF i v st]
    and new = private_tau_sim [OF r fresh_monitor(1) [OF i]] and drop = private_tau_sim [OF r installing_monitor(2) [OF i]]
  from st show ?thesis
  proof cases
    case (notify_done m al mon mon')
    obtain ws where "mon' = mon\<lparr>wait_set := ws\<rparr>" using Monitor_Notify_Some [OF notify_done(5)] .
    then show ?thesis using monitor_tau_sim [OF r, of m mon mon' _ t] notify_done pc by simp
  qed (use new nfat in \<open>auto intro!: goto_sim [OF r]\<close>)
qed

lemma hash_step_sim:
  assumes i: "lock_inv s" and v: "valid_thread t" and r: "represents s a" and st: "hash_step t s e s'"
  shows "\<exists>a'. spec_step a e a' \<and> represents s' a'"
proof -
  note pc = thread_facts(1) [OF i, of t] and W = thread_facts(2) [OF i] and nfat = hash_no_fatal [OF i v st]
    and new = private_tau_sim [OF r fresh_monitor(1) [OF i]] and drop = private_tau_sim [OF r installing_monitor(2) [OF i]]
  from st show ?thesis
  proof cases
    case (hash_cas w h w')
    then have w: "lock_word s = 0" "h \<noteq> 0" using pc by auto
    note F = hash_code_facts [OF hash_cas(5)]
    have "held s = None" "held (goto t Idle (set_word w' s)) = None"
      using held_owner(1) old_word_views(1) [OF w(1)] word_views(6) [OF F(2)] by simp_all
    then show ?thesis
      using hash_cas F word_views(7) [OF F(2)] old_word_views(2) [OF w(1)] w by (auto intro!: hash_sim [OF r])
  next
    case (hash_cas_stale w h w')
    have "represents (goto t Idle s) a"
      using r hash_cas_stale by (auto simp: represents_def held_goto comp_def)
    then show ?thesis using hash_cas_stale spec_stale_hash [of a h] by auto
  next
    case (hash_word stale)
    then show ?thesis
      using W old_word_views(7) [of s] held_goto [of s t Idle] by (auto intro!: hash_sim [OF r] simp: word_ok_def)
  next
    case (hash_monitor m mon)
    then show ?thesis
      using pc fat_views(4) [of s m mon] held_goto [of s t Idle] by (auto intro!: hash_sim [OF r])
  next
    case (hash_monitor_new m mon h)
    then have eq: "s' = goto t (HashFat m) (set_monitor m (Some (mon\<lparr>hash_code := h\<rparr>)) s)"
      by (simp add: goto_def set_monitor_def fun_upd_idem)
    show ?thesis unfolding eq hash_monitor_new(1)
      by (rule monitor_tau_sim [OF r]) (use hash_monitor_new pc in auto)
  qed (use new nfat in \<open>auto intro!: goto_sim [OF r]\<close>)
qed

lemma tstep_sim:
  assumes "lock_inv s" "valid_thread t" "represents s a" "tstep ms t s e s'"
  shows "\<exists>a'. spec_step a e a' \<and> represents s' a'"
  using assms(4) unfolding tstep_def
  by (elim disjE) (use assms(1-3) in \<open>blast intro: enter_step_sim inflate_step_sim lock_step_sim exit_step_sim wait_step_sim
      notify_step_sim hash_step_sim\<close>)+

lemma mon_step_sim:
  assumes i: "lock_inv s" and r: "represents s a" and st: "mon_step ms s e s'"
  shows "\<exists>a'. spec_step a e a' \<and> represents s' a'"
  using st
proof cases
  case (thread t)
  then show ?thesis using tstep_sim [OF i _ r] by blast
next
  case (contend t)
  have "represents s' a \<longleftrightarrow> represents s a"
    by (rule represents_points) (use contend(3) in \<open>auto elim!: contend_step.cases simp: wake_up_views split: if_splits\<close>)
  then show ?thesis using contend r spec_tau [of a] by auto
next
  case move
  have "represents s' a \<longleftrightarrow> represents s a"
    unfolding move(2) by (rule represents_points) (simp_all add: move_object_def after_move_views)
  then show ?thesis using move r spec_tau [of a] by auto
next
  case (deflate mon w)
  then show ?thesis using deflate_sim [OF i r] by blast
next
  case (deflate_check mon)
  then show ?thesis using deflate_quiet(1) [OF i] by blast
qed

lemma initial_represents: "represents initial_world free_lock"
  by (simp add: represents_def initial_world_def free_lock_def held_def lock_owner_def current_monitor_def comp_def)

interpretation object_lock: forward_simulation "mon_step ms" spec_step lock_inv represents initial_world free_lock
  for ms
  by unfold_locales (auto intro: initial_world_inv initial_represents mon_step_keeps_inv mon_step_sim)

lemma spec_identity:
  assumes "trace spec_step free_lock es a" "Hashed h \<in> set es"
  shows "identity a = Some h"
  using assms
proof (induction rule: trace.induct)
  case (trace_step es s e s')
  from trace_step(2) show ?case
  proof cases
    case (spec_hash h')
    then show ?thesis using trace_step by auto
  qed (use trace_step in auto)
qed simp

section \<open>Wake-ups of contenders\<close>

lemma tstepI [intro]:
  "enter_step ms t s e s' \<Longrightarrow> tstep ms t s e s'" "inflate_step t s e s' \<Longrightarrow> tstep ms t s e s'"
  "lock_step t s e s' \<Longrightarrow> tstep ms t s e s'" "exit_step t s e s' \<Longrightarrow> tstep ms t s e s'"
  "wait_step t s e s' \<Longrightarrow> tstep ms t s e s'" "notify_step t s e s' \<Longrightarrow> tstep ms t s e s'"
  "hash_step t s e s' \<Longrightarrow> tstep ms t s e s'"
  by (simp_all add: tstep_def)

text \<open>A contender sleeps on a monitor that nobody owns only while another one has been woken up for it.\<close>

definition wakeups_ok :: "lock_world \<Rightarrow> bool" where
  "wakeups_ok s \<longleftrightarrow>
     (\<forall>u m. lock_owner s = None \<and> asleep_on (pcs s u) = Some m \<longrightarrow> (\<exists>v. woken_on (pcs s v) = Some m))"

lemma contender_fat:
  assumes "lock_inv s" "asleep_on (pcs s u) = Some m \<or> woken_on (pcs s u) = Some m"
  shows "fat s m"
  using lock_invD(2) [OF assms(1), of u] assms(2) by (cases "pcs s u") auto

text \<open>The steps of a thread that need no signal.\<close>

definition calm :: "u32 \<Rightarrow> lock_world \<Rightarrow> lock_world \<Rightarrow> bool" where
  "calm t s s' \<longleftrightarrow>
     (\<forall>u. u \<noteq> t \<longrightarrow> pcs s' u = pcs s u) \<and> asleep_on (pcs s' t) = None \<and>
     (lock_owner s' = None \<and> GetState (lock_word s) = kFatLocked \<longrightarrow>
        lock_owner s = None \<and> woken_on (pcs s t) = None)"

lemma calm_keeps_wakeups:
  assumes i: "lock_inv s" and w: "wakeups_ok s" and c: "calm t s s'"
  shows "wakeups_ok s'"
  unfolding wakeups_ok_def
proof (intro allI impI)
  fix u m
  assume a: "lock_owner s' = None \<and> asleep_on (pcs s' u) = Some m"
  then have u: "asleep_on (pcs s u) = Some m" using c by (cases "u = t") (auto simp: calm_def)
  then have "GetState (lock_word s) = kFatLocked" using contender_fat [OF i] by (auto simp: fat_def)
  then have n: "lock_owner s = None" "woken_on (pcs s t) = None" using a c by (auto simp: calm_def)
  then obtain v where v: "woken_on (pcs s v) = Some m" using w u by (auto simp: wakeups_ok_def)
  then have "v \<noteq> t" using n(2) by auto
  then show "\<exists>v. woken_on (pcs s' v) = Some m" using v c by (intro exI [of _ v]) (simp add: calm_def)
qed

lemma signal_wakeups:
  assumes i: "lock_inv s" and f: "fat s m" and sg: "signal m s s1" and t: "asleep_on (pcs s t) = None"
    and p: "asleep_on p = None"
  shows "wakeups_ok (goto t p (set_monitor m x s1))"
  unfolding wakeups_ok_def
proof (intro allI impI)
  fix u m'
  assume "lock_owner (goto t p (set_monitor m x s1)) = None \<and> asleep_on (pcs (goto t p (set_monitor m x s1)) u) = Some m'"
  then have u: "asleep_on (pcs s1 u) = Some m'" using p by (auto split: if_splits)
  have m: "m' = m" using contender_fat [OF signal_keeps(1) [OF sg i], of u m'] u f signal_keeps(4) [OF sg] by (auto simp: fat_def)
  from sg show "\<exists>v. woken_on (pcs (goto t p (set_monitor m x s1)) v) = Some m'"
  proof cases
    case signal_none
    then show ?thesis using u m by simp
  next
    case (signal_one v)
    then show ?thesis using wake_up_facts(9) [OF signal_one(2)] t m by (intro exI [of _ v]) auto
  qed
qed

lemma enter_step_calm:
  assumes i: "lock_inv s" and v: "valid_thread t" and st: "enter_step ms t s e s'"
  shows "calm t s s'"
proof -
  note pc = thread_facts(1) [OF i, of t] and new = private_views(2) [OF fresh_monitor(1) [OF i]]
  from st show ?thesis
    by cases (use pc new in \<open>auto simp: calm_def\<close>)
qed

lemma inflate_step_calm:
  assumes i: "lock_inv s" and v: "valid_thread t" and st: "inflate_step t s e s'"
  shows "calm t s s'"
proof -
  note pc = thread_facts(1) [OF i, of t] and new = private_views(2) [OF fresh_monitor(1) [OF i]]
    and drop = private_views(2) [OF installing_monitor(2) [OF i, of t]]
  have k: "asleep_on (return_to k) = None" for k by (cases k) auto
  from st show ?thesis
  proof cases
    case (install_cas m w u k)
    then show ?thesis using install_cas_views [OF i, of t m u k] by (auto simp: calm_def)
  qed (use pc new drop k in \<open>auto simp: calm_def\<close>)
qed

lemma lock_step_calm:
  assumes i: "lock_inv s" and v: "valid_thread t" and st: "lock_step t s e s'"
  shows "calm t s s'"
proof -
  note pc = thread_facts(1) [OF i, of t] and nfat = lock_no_fatal [OF i v st] and ok = thread_facts(3) [OF i]
  from st show ?thesis
  proof cases
    case (lock m mon mon')
    then show ?thesis using pc Monitor_Lock_Locked(1) [OF lock(5) ok [OF _ lock(4)] v] by (auto simp: calm_def set_monitor_views)
  next
    case (lock_contended m mon mon')
    then show ?thesis using pc Monitor_Lock_Contended [OF lock_contended(5)] by (auto simp: calm_def set_monitor_views)
  next
    case (lock_again m mon mon')
    then show ?thesis using pc Monitor_Lock_Locked(1) [OF lock_again(5) _ v] ok by (auto simp: calm_def set_monitor_views)
  next
    case (lock_again_contended m mon mon')
    then show ?thesis using pc Monitor_Lock_Contended [OF lock_again_contended(5)] by (auto simp: calm_def set_monitor_views)
  next
    case (lock_again_overflow m mon)
    then show ?thesis using pc Monitor_Lock_overflow [OF lock_again_overflow(5)] fat_views(2) [of s m mon] by (auto simp: calm_def)
  qed (use pc nfat in \<open>auto simp: calm_def\<close>)
qed

lemma exit_step_wakeups:
  assumes i: "lock_inv s" and w: "wakeups_ok s" and v: "valid_thread t" and st: "exit_step t s e s'"
  shows "wakeups_ok s'"
proof -
  note pc = thread_facts(1) [OF i, of t] and keep = calm_keeps_wakeups [OF i w, of t]
  from st show ?thesis
  proof cases
    case (unlock m mon mon')
    then have f: "fat s m" using pc by simp
    show ?thesis
      using unlock f Monitor_Unlock_Some(1,5,6) [OF unlock(5) thread_facts(3) [OF i f unlock(4)]]
      by (intro keep) (simp add: calm_def set_monitor_views)
  next
    case (unlock_signal m mon mon' s1)
    then show ?thesis using pc signal_wakeups [OF i] by simp
  qed (use pc in \<open>auto intro!: keep simp: calm_def\<close>)
qed

lemma wait_step_wakeups:
  assumes i: "lock_inv s" and w: "wakeups_ok s" and v: "valid_thread t" and st: "wait_step t s e s'"
  shows "wakeups_ok s'"
proof -
  note pc = thread_facts(1) [OF i, of t] and nfat = wait_no_fatal [OF i v st] and ok = thread_facts(3) [OF i]
    and keep = calm_keeps_wakeups [OF i w, of t] and new = private_views(2) [OF fresh_monitor(1) [OF i]]
  from st show ?thesis
  proof cases
    case (wait_begin m ms ns mon mon' prev s1)
    then show ?thesis using pc signal_wakeups [OF i] by simp
  next
    case (wait_lock m prev mon mon')
    then show ?thesis
      using pc Monitor_Lock_Locked(1) [OF wait_lock(5) ok [OF _ wait_lock(4)] v] by (intro keep) (auto simp: calm_def set_monitor_views)
  next
    case (wait_lock_contended m prev mon mon')
    then show ?thesis
      using pc Monitor_Lock_Contended [OF wait_lock_contended(5)] by (intro keep) (auto simp: calm_def set_monitor_views)
  next
    case (wait_lock_again m prev mon mon')
    then show ?thesis
      using pc Monitor_Lock_Locked(1) [OF wait_lock_again(5) _ v] ok by (intro keep) (auto simp: calm_def set_monitor_views)
  next
    case (wait_lock_again_contended m prev mon mon')
    then show ?thesis
      using pc Monitor_Lock_Contended [OF wait_lock_again_contended(5)]
      by (intro keep) (auto simp: calm_def set_monitor_views)
  next
    case (wait_lock_again_overflow m prev mon)
    then show ?thesis
      using pc Monitor_Lock_overflow [OF wait_lock_again_overflow(5)] fat_views(2) [of s m mon]
      by (intro keep) (auto simp: calm_def)
  next
    case (wait_end m prev mon)
    then show ?thesis using pc by (intro keep) (auto simp: calm_def set_monitor_views Monitor_Wait_end_def)
  qed (use pc nfat new in \<open>auto intro!: keep simp: calm_def\<close>)
qed

lemma notify_step_calm:
  assumes i: "lock_inv s" and st: "notify_step t s e s'"
  shows "calm t s s'"
proof -
  note pc = thread_facts(1) [OF i, of t]
  from st show ?thesis
  proof cases
    case (notify_done m al mon mon')
    obtain ws where "mon' = mon\<lparr>wait_set := ws\<rparr>" using Monitor_Notify_Some [OF notify_done(5)] .
    then show ?thesis using notify_done pc fat_views(2) [of s m mon] by (auto simp: calm_def set_monitor_views)
  qed (use pc in \<open>auto simp: calm_def\<close>)
qed

lemma hash_step_calm:
  assumes i: "lock_inv s" and st: "hash_step t s e s'"
  shows "calm t s s'"
proof -
  note pc = thread_facts(1) [OF i, of t] and new = private_views(2) [OF fresh_monitor(1) [OF i]]
  from st show ?thesis
  proof cases
    case (hash_monitor_new m mon h)
    then show ?thesis using pc fat_views(2) [of s m mon] by (auto simp: calm_def set_monitor_views)
  qed (use pc new in \<open>auto simp: calm_def\<close>)
qed

lemma tstep_wakeups:
  assumes "lock_inv s" "wakeups_ok s" "valid_thread t" "tstep ms t s e s'"
  shows "wakeups_ok s'"
  using assms(4) unfolding tstep_def
  by (elim disjE) (use assms(1-3) in \<open>blast intro: calm_keeps_wakeups enter_step_calm inflate_step_calm lock_step_calm
      notify_step_calm hash_step_calm exit_step_wakeups wait_step_wakeups\<close>)+

lemma contend_wakeups:
  assumes i: "lock_inv s" and w: "wakeups_ok s" and st: "contend_step t s s'"
  shows "wakeups_ok s'"
proof -
  have *: "lock_owner s \<noteq> None" if "monitors s m = Some mon" "mon_owner mon \<noteq> None" "pcs s t = LockBlocked m \<or> pcs s t = WaitBlocked m prev" for m mon prev
    using that lock_invD(2) [OF i, of t] fat_views(2) [of s m mon] by auto
  have **: "wakeups_ok (goto t p s)" if "asleep_on p = None" "woken_on (pcs s t) = None" for p
    using calm_keeps_wakeups [OF i w, of t "goto t p s"] that by (simp add: calm_def)
  have owned_wakeups: "lock_owner x \<noteq> None \<Longrightarrow> wakeups_ok x" for x by (auto simp: wakeups_ok_def)
  from st show ?thesis
  proof cases
    case (lock_sleep m mon)
    then show ?thesis using owned_wakeups [of s'] * [of m mon] by simp
  next
    case (wait_lock_sleep m prev mon)
    then show ?thesis using owned_wakeups [of s'] * [of m mon] by simp
  next
    case (spurious m)
    then have "woken_on (pcs s t) = None" by (cases "pcs s t") auto
    then show ?thesis using spurious ** wake_up_facts(10) [OF spurious(2)] by simp
  qed (simp_all add: **)
qed

lemma mon_step_wakeups:
  assumes i: "lock_inv s" and w: "wakeups_ok s" and st: "mon_step ms s e s'"
  shows "wakeups_ok s'"
  using st
proof cases
  case (thread t)
  then show ?thesis using tstep_wakeups [OF i w] by blast
next
  case (contend t)
  then show ?thesis using contend_wakeups [OF i w] by blast
next
  case move
  then show ?thesis
    using w by (auto simp: wakeups_ok_def move_object_def after_move_facts lock_owner_def current_monitor_def)
next
  case (deflate mon d)
  then have "asleep_on (pcs s u) = None" for u using deflate_quiet(2) [OF i, of mon "Some d" u] by auto
  then show ?thesis using deflate by (simp add: wakeups_ok_def)
next
  case (deflate_check mon)
  then show ?thesis using deflate_quiet(1) [OF i] by blast
qed

lemma run_inv:
  assumes "mon_run ms es s"
  shows "lock_inv s \<and> wakeups_ok s"
  using assms unfolding mon_run_def
proof (induction rule: trace.induct)
  case trace_start
  show ?case by (simp add: initial_world_inv) (simp add: wakeups_ok_def initial_world_def)
qed (blast intro: mon_step_keeps_inv mon_step_wakeups)

text \<open>A thread that was woken up for a monitor without owner takes it when it runs next.\<close>

lemma woken_takes_lock:
  assumes i: "lock_inv s" and w: "woken_on (pcs s v) = Some m" and o: "lock_owner s = None"
  shows "\<exists>e s'. tstep ms v s e s' \<and> lock_owner s' = Some v"
proof -
  have f: "fat s m" using contender_fat [OF i] w by blast
  then obtain mon where mon: "monitors s m = Some mon" "mon_ok mon" by (rule fat_monitor [OF i])
  define mon' where "mon' = mon\<lparr>num_waiters := num_waiters mon - 1, mon_owner := Some v\<rparr>"
  have own: "mon_owner mon = None" using fat_views(2) [OF f mon(1)] o by simp
  then have l: "Monitor_Lock v (mon\<lparr>num_waiters := num_waiters mon - 1\<rparr>) = Locked mon'"
    using mon(2) by (simp add: Monitor_Lock_def mon_ok_def mon'_def)
  have o': "lock_owner (goto v p (set_monitor m (Some mon') s)) = Some v" for p
    using set_monitor_views(2) [OF f] by (simp add: mon'_def)
  consider "pcs s v = LockWoken m" | prev where "pcs s v = WaitWoken m prev"
    using w by (cases "pcs s v") auto
  then show ?thesis
  proof cases
    case 1
    show ?thesis using tstepI(3) [OF lock_again [OF 1 mon(1) l]] o' by blast
  next
    case 2
    show ?thesis using tstepI(5) [OF wait_lock_again [OF 2 mon(1) l]] o' by blast
  qed
qed

lemma some_generated: "generated 1"
  unfolding generated_def
  by (subst GenerateIdentityHashCode.simps) (auto simp: kHashMask_def intro!: exI [of _ "\<lambda>_. True"] exI [of _ 1])

section \<open>Runs\<close>

lemma reported_owner:
  assumes "lock_inv s"
  shows "GetLockOwnerThreadId s = Some (case lock_owner s of None \<Rightarrow> 0 | Some t \<Rightarrow> t)"
  using lock_invD(1) [OF assms]
  by (auto simp: GetLockOwnerThreadId_def word_ok_def lock_owner_def current_monitor_def split: LockState.splits option.splits)

text \<open>C7: Every interleaving of the threads and the collector refines the recursive lock. The events of a run
  are a run of the abstract lock, in which one thread holds the lock as often as it has entered it more
  than left it, only the holder can leave, an exit fails only for a thread that does not hold the lock,
  and a wait gives back the recursion count it took. Thin locks, inflation by the owner or against a
  suspended owner, and deflation by the collector are not seen. The owner that the runtime reports is the
  abstract holder, unless a waiting thread is just taking the lock back.\<close>
theorem monitor_refines_lock:
  assumes "mon_run max_spins es s"
  shows "\<exists>a. trace spec_step free_lock es a \<and> holder a = held s \<and> sleeping a = slept \<circ> pcs s \<and>
    ((\<nexists>t. restoring (pcs s t)) \<longrightarrow>
       GetLockOwnerThreadId s = Some (case holder a of None \<Rightarrow> 0 | Some (t, n) \<Rightarrow> t))"
proof -
  obtain a where a: "trace spec_step free_lock es a" "represents s a"
    using object_lock.simulated assms unfolding mon_run_def by blast
  have "GetLockOwnerThreadId s = Some (case lock_owner s of None \<Rightarrow> 0 | Some t \<Rightarrow> t)"
    using reported_owner run_inv assms by blast
  then show ?thesis using a by (intro exI [of _ a]) (auto simp: represents_def held_def split: option.splits)
qed



text \<open>Two short runs: a thread locks the object, and a thread asks twice for its hash code.\<close>

lemma mon_run_step:
  assumes "mon_run ms es s" "valid_thread t" "\<not> suspended s t" "tstep ms t s e s'"
  shows "mon_run ms (e # es) s'"
  using assms trace_step [of "mon_step ms" initial_world es s e s'] mon_step.thread [of t s ms e s']
  unfolding mon_run_def by blast

lemma mon_run_initial: "mon_run ms [] initial_world"
  unfolding mon_run_def by (rule trace_start)

lemma lone_thread:
  assumes "\<And>u. u \<noteq> t \<Longrightarrow> pcs s u = Idle" "suspends (pcs s t) = None"
  shows "\<not> suspended s u"
  using assms unfolding suspended_def by (metis suspends.simps(5) option.distinct(1))

lemma locking_run:
  "\<exists>s. mon_run 50 [Entered 1, Tau, Tau] s \<and> held s = Some (1, 1) \<and> (\<nexists>t. restoring (pcs s t)) \<and>
     monitors s 0 = None"
proof -
  let ?s1 = "goto 1 (EnterLoop 0) initial_world"
  let ?s2 = "goto 1 (EnterCas 0 0) ?s1"
  let ?s3 = "goto 1 Idle (set_word 1 ?s2)"
  have v: "valid_thread 1" by (simp add: valid_thread_def kThinLockMaxOwner_def)
  have w: "FromThinLockId 1 0 = Some 1" by (simp add: FromThinLockId_def kThinLockMaxOwner_def kThinLockMaxCount_def)
  have idle: "lock_word initial_world = 0" "pcs initial_world u = Idle" for u by (simp_all add: initial_world_def)
  have "tstep 50 1 initial_world Tau ?s1" by (rule tstepI(1), rule enter) (simp add: idle)
  then have 1: "mon_run 50 [Tau] ?s1"
    by (rule mon_run_step [OF mon_run_initial v lone_thread [of 1], rotated -1]) (simp_all add: idle)
  have "tstep 50 1 ?s1 Tau ?s2" using enter_unlocked [of ?s1 1 0 50, THEN tstepI(1)] by (simp add: idle)
  then have 2: "mon_run 50 [Tau, Tau] ?s2"
    by (rule mon_run_step [OF 1 v lone_thread [of 1], rotated -1]) (simp_all add: idle)
  have "tstep 50 1 ?s2 (Entered 1) ?s3" using enter_cas [of ?s2 1 0 0 1 50, THEN tstepI(1)] w by (simp add: idle)
  then have 3: "mon_run 50 [Entered 1, Tau, Tau] ?s3"
    by (rule mon_run_step [OF 2 v lone_thread [of 1], rotated -1]) (simp_all add: idle)
  note F = FromThinLockId_state [OF v w]
  have "held ?s3 = Some (1, 1)" using held_owner(2) [of ?s3 1] word_views(3,4) [OF F(1)] F by simp
  moreover have "\<not> restoring (pcs ?s3 t)" for t by (simp add: idle)
  moreover have "monitors ?s3 0 = None" by (simp add: initial_world_def)
  ultimately show ?thesis using 3 by blast
qed

theorem monitor_refines_lock_witness:
  "\<exists>s a. mon_run 50 [Entered 1, Tau, Tau] s \<and> trace spec_step free_lock [Entered 1, Tau, Tau] a \<and>
     holder a = Some (1, 1) \<and> GetLockOwnerThreadId s = Some 1"
proof -
  obtain s where s: "mon_run 50 [Entered 1, Tau, Tau] s" "held s = Some (1, 1)" "\<nexists>t. restoring (pcs s t)"
    using locking_run by blast
  then show ?thesis using monitor_refines_lock [OF s(1)] by (intro exI [of _ s]) auto
qed


lemma hashing_run: "\<exists>s. mon_run 50 [Hashed 1, Tau, Hashed 1, Tau, Tau] s"
proof -
  let ?s1 = "goto 1 (HashRead False) initial_world"
  let ?s2 = "goto 1 (HashCas 0 1 False) ?s1"
  let ?w = "0x80000001 :: u32"
  let ?s3 = "goto 1 Idle (set_word ?w ?s2)"
  let ?s4 = "goto 1 (HashRead False) ?s3"
  have v: "valid_thread 1" by (simp add: valid_thread_def kThinLockMaxOwner_def)
  have w: "FromHashCode 1 = Some ?w" by (simp add: FromHashCode_def kMaxHash_def)
  have idle: "lock_word initial_world = 0" "pcs initial_world u = Idle" for u by (simp_all add: initial_world_def)
  have "tstep 50 1 initial_world Tau ?s1" by (rule tstepI(7), rule hash) (simp add: idle)
  then have 1: "mon_run 50 [Tau] ?s1"
    by (rule mon_run_step [OF mon_run_initial v lone_thread [of 1], rotated -1]) (simp_all add: idle)
  have "tstep 50 1 ?s1 Tau ?s2" using hash_unlocked [of ?s1 1 False 1, THEN tstepI(7)] some_generated by (simp add: idle)
  then have 2: "mon_run 50 [Tau, Tau] ?s2"
    by (rule mon_run_step [OF 1 v lone_thread [of 1], rotated -1]) (simp_all add: idle)
  have "tstep 50 1 ?s2 (Hashed 1) ?s3" using hash_cas [of ?s2 1 0 1 ?w, THEN tstepI(7)] w by (simp add: idle)
  then have 3: "mon_run 50 [Hashed 1, Tau, Tau] ?s3"
    by (rule mon_run_step [OF 2 v lone_thread [of 1], rotated -1]) (simp_all add: idle)
  have "tstep 50 1 ?s3 Tau ?s4" by (rule tstepI(7), rule hash) simp
  then have 4: "mon_run 50 [Tau, Hashed 1, Tau, Tau] ?s4"
    by (rule mon_run_step [OF 3 v lone_thread [of 1], rotated -1]) (simp_all add: idle)
  note F = hash_code_facts [OF w]
  have "tstep 50 1 ?s4 (Hashed 1) (goto 1 Idle ?s4)" using hash_word [of ?s4 1 False, THEN tstepI(7)] F by simp
  then show ?thesis
    using mon_run_step [OF 4 v lone_thread [of 1]] by (auto simp: idle)
qed


end
