(* ===== verification/IdentityHash.thy ===== *)
theory IdentityHash
  imports MonitorModel
begin

text \<open>
  When \<^verbatim>\<open>Object::GenerateIdentityHashCode\<close> returns. Its loop stores the next seed only if the current one
  has a hash code other than zero, so it never leaves a seed whose 30 low bits are zero, and the
  sequence of seeds always comes to such a seed.
\<close>

lemma generate_stuck:
  assumes "seed AND kHashMask = 0"
  shows "GenerateIdentityHashCode cas n seed = None"
proof -
  have "seed AND kHashMask \<noteq> 0" if "GenerateIdentityHashCode cas n seed = Some r" for r
    using that
  proof (induction rule: GenerateIdentityHashCode.raw_induct [rotated 1, consumes 1])
    case (1 f cas n seed r)
    then show ?case by (auto split: if_splits)
  qed
  then show ?thesis using assms by (cases "GenerateIdentityHashCode cas n seed") auto
qed

lemma generate_returns:
  assumes "seed AND kHashMask \<noteq> 0" "cas (n + d)"
  shows "GenerateIdentityHashCode cas n seed = Some (seed AND kHashMask, next_seed seed)"
  using assms(2)
proof (induction d arbitrary: n)
  case 0
  then show ?case using assms(1) by (subst GenerateIdentityHashCode.simps) simp
next
  case (Suc d)
  then show ?case using assms(1) Suc.IH [of "Suc n"] by (subst GenerateIdentityHashCode.simps) simp
qed

section \<open>The sequence of seeds\<close>

definition linear :: "int \<Rightarrow> int" where
  "linear x = x * 1103515245 + 12345"

text \<open>After \<open>2 ^ k\<close> steps a seed has moved by an odd multiple of \<open>2 ^ k\<close>.\<close>

lemma linear_power:
  "\<exists>q p. \<forall>x. (linear ^^ (2 ^ k)) x = (1 + 4 * 2 ^ k * q) * x + 2 ^ k * (2 * p + 1)"
proof (induction k)
  case 0
  have "(linear ^^ (2 ^ 0)) x = (1 + 4 * 2 ^ 0 * 275878811) * x + 2 ^ 0 * (2 * 6172 + 1)" for x
    by (simp add: linear_def)
  then show ?case by blast
next
  case (Suc k)
  then obtain q p where qp: "\<And>x. (linear ^^ (2 ^ k)) x = (1 + 4 * 2 ^ k * q) * x + 2 ^ k * (2 * p + 1)" by blast
  let ?q = "q + 2 * 2 ^ k * q * q" and ?p = "p + 2 ^ k * q * (2 * p + 1)"
  have "(linear ^^ (2 ^ Suc k)) x = (1 + 4 * 2 ^ Suc k * ?q) * x + 2 ^ Suc k * (2 * ?p + 1)" for x
  proof -
    have "(linear ^^ (2 ^ Suc k)) x = (linear ^^ (2 ^ k)) ((linear ^^ (2 ^ k)) x)"
      by (simp add: funpow_add mult_2)
    then show ?thesis unfolding qp by (simp add: algebra_simps)
  qed
  then show ?case by blast
qed

lemma linear_reaches_zero: "\<exists>n < 2 ^ k. 2 ^ k dvd (linear ^^ n) x"
proof (induction k)
  case (Suc k)
  then obtain n where n: "n < 2 ^ k" "2 ^ k dvd (linear ^^ n) x" by blast
  then obtain y where y: "(linear ^^ n) x = 2 ^ k * y" by (auto elim: dvdE)
  show ?case
  proof (cases "even y")
    case True
    then have "2 ^ Suc k dvd (linear ^^ n) x" unfolding y by (auto elim: evenE)
    moreover have "n < 2 ^ Suc k" using n(1) by simp
    ultimately show ?thesis by blast
  next
    case False
    obtain q p where qp: "\<And>x. (linear ^^ (2 ^ k)) x = (1 + 4 * 2 ^ k * q) * x + 2 ^ k * (2 * p + 1)"
      using linear_power by blast
    obtain z where z: "y = 2 * z + 1" using False by (auto elim: oddE)
    have "(linear ^^ (2 ^ k + n)) x = 2 ^ Suc k * (z + p + 1 + 2 * 2 ^ k * q * y)"
      unfolding funpow_add comp_apply y qp by (simp add: z algebra_simps)
    then have "2 ^ Suc k dvd (linear ^^ (2 ^ k + n)) x" by simp
    moreover have "2 ^ k + n < 2 ^ Suc k" using n(1) by simp
    ultimately show ?thesis by blast
  qed
qed simp

lemma next_seed_linear: "((linear ^^ n) (uint seed)) mod 2 ^ 32 = uint ((next_seed ^^ n) seed)"
proof (induction n)
  case 0
  then show ?case using uint_bounded [of seed] by simp
next
  case (Suc n)
  have "linear x mod 2 ^ 32 = linear (x mod 2 ^ 32) mod 2 ^ 32" for x :: int
    unfolding linear_def by (metis mod_add_left_eq mod_mult_left_eq)
  then have "(linear ^^ Suc n) (uint seed) mod 2 ^ 32 = linear (uint ((next_seed ^^ n) seed)) mod 2 ^ 32"
    using Suc by (metis funpow.simps(2) comp_apply)
  also have "\<dots> = uint (next_seed ((next_seed ^^ n) seed))"
    by (simp add: linear_def next_seed_def uint_word_ariths mod_simps)
  finally show ?case by simp
qed

lemma hash_mask_zero: "(w :: u32) AND kHashMask = 0 \<longleftrightarrow> 2 ^ 30 dvd uint w"
proof -
  have "w AND kHashMask = take_bit 30 w" by (simp add: kHashMask_def take_bit_eq_mask mask_eq_exp_minus_1)
  moreover have "uint (take_bit 30 w) = uint w mod 2 ^ 30" unfolding unsigned_take_bit_eq by (simp add: take_bit_eq_mod)
  ultimately show ?thesis by (simp add: word_uint_eq_iff dvd_eq_mod_eq_0)
qed

section \<open>Hash codes run out\<close>

text \<open>The seed after a number of calls, if all of them return.\<close>

primrec seed_after :: "(nat \<Rightarrow> bool) \<Rightarrow> nat \<Rightarrow> u32 \<Rightarrow> u32 option" where
  "seed_after cas 0 seed = Some seed"
| "seed_after cas (Suc k) seed =
     (case seed_after cas k seed of
        None \<Rightarrow> None
      | Some seed' \<Rightarrow>
          (case GenerateIdentityHashCode cas 0 seed' of None \<Rightarrow> None | Some (h, seed'') \<Rightarrow> Some seed''))"

lemma seed_after_Some: "seed_after cas k seed = Some seed' \<Longrightarrow> seed' = (next_seed ^^ k) seed"
proof (induction k arbitrary: seed')
  case (Suc k)
  then obtain s h where s: "seed_after cas k seed = Some s" "GenerateIdentityHashCode cas 0 s = Some (h, seed')"
    by (auto split: option.splits)
  have *: "snd r = next_seed s" if "GenerateIdentityHashCode cas n s = Some r" for n r
    using that
  proof (induction rule: GenerateIdentityHashCode.raw_induct [rotated 1, consumes 1])
    case (1 f cas n s r)
    then show ?case by (auto split: if_splits)
  qed
  show ?case using * [OF s(2)] Suc.IH [OF s(1)] by simp
qed simp

lemma identity_hash_codes_run_out: "\<exists>k < 2 ^ 30. seed_after cas (Suc k) seed = None"
proof -
  obtain k where k: "k < 2 ^ 30" "2 ^ 30 dvd (linear ^^ k) (uint seed)" using linear_reaches_zero by blast
  have "(2 ^ 30 :: int) dvd 2 ^ 32" by simp
  then have "2 ^ 30 dvd uint ((next_seed ^^ k) seed)"
    using k(2) next_seed_linear [of k seed] by (metis dvd_mod)
  then have z: "(next_seed ^^ k) seed AND kHashMask = 0" by (simp add: hash_mask_zero)
  have "seed_after cas (Suc k) seed = None"
  proof (cases "seed_after cas k seed")
    case (Some s)
    then show ?thesis using seed_after_Some [OF Some] generate_stuck [OF z] by simp
  qed simp
  then show ?thesis using k(1) by blast
qed

text \<open>C10: A call of the hash code generator returns exactly if the seed has a hash code, provided some
  compare-and-swap succeeds, and then it returns that code. From every seed at most \<open>2 ^ 30\<close> calls return:
  one of them finds a seed whose 30 low bits are zero, which the loop reads again and again without
  replacing it.\<close>
theorem identity_hash_terminates_iff:
  assumes "cas d"
  shows "(GenerateIdentityHashCode cas 0 seed \<noteq> None \<longleftrightarrow> seed AND kHashMask \<noteq> 0) \<and>
    (seed AND kHashMask \<noteq> 0 \<longrightarrow> GenerateIdentityHashCode cas 0 seed = Some (seed AND kHashMask, next_seed seed)) \<and>
    (\<exists>k < 2 ^ 30. seed_after cas (Suc k) seed = None)"
  using generate_stuck [of seed cas 0] generate_returns [of seed cas 0 d] assms identity_hash_codes_run_out [of cas seed]
  by auto

theorem identity_hash_terminates_iff_witness:
  "GenerateIdentityHashCode (\<lambda>n. n = 2) 0 0x7ffffff5 = Some (0x3ffffff5, next_seed 0x7ffffff5) \<and>
   GenerateIdentityHashCode (\<lambda>n. n = 2) 0 0x40000000 = None"
proof -
  let ?cas = "\<lambda>n :: nat. n = 2"
  have a: "0x7ffffff5 AND kHashMask = 0x3ffffff5" and z: "0x40000000 AND kHashMask = 0" by (simp_all add: kHashMask_def)
  have "GenerateIdentityHashCode ?cas 0 0x7ffffff5 = Some (0x3ffffff5, next_seed 0x7ffffff5)"
    using identity_hash_terminates_iff [of ?cas 2 "0x7ffffff5"] unfolding a by simp
  moreover have "GenerateIdentityHashCode ?cas 0 0x40000000 = None"
    using identity_hash_terminates_iff [of ?cas 2 "0x40000000"] z by blast
  ultimately show ?thesis by blast
qed

end
