(* ===== verification/DexOpcodes.thy ===== *)
theory DexOpcodes
  imports ART_Prelude
begin

text \<open>
  The instruction table of \<^verbatim>\<open>runtime/dex_instruction_list.h\<close> with the enumerations of
  \<^verbatim>\<open>runtime/dex_instruction.h\<close> it is written in, and the arrays \<^verbatim>\<open>dex_instruction.cc\<close> expands it
  to. The opcodes (\<^verbatim>\<open>Instruction::Code\<close>) are the numbers of the table under their C++ names (\<^verbatim>\<open>CONST\<close> is written \<open>CONST_32\<close>). The
  printable names, used for diagnostics only, are left out.
\<close>

section \<open>Enumerations\<close>

datatype Format = k10x | k12x | k11n | k11x | k10t | k20t | k22x | k21t | k21s | k21h | k21c
  | k23x | k22b | k22t | k22s | k22c | k32x | k30t | k31t | k31i | k31c | k35c | k3rc | k51l

text \<open>The C++ compares formats by their position in the enumeration.\<close>

primrec format_index :: "Format \<Rightarrow> nat" where
  "format_index k10x = 0"
| "format_index k12x = 1"
| "format_index k11n = 2"
| "format_index k11x = 3"
| "format_index k10t = 4"
| "format_index k20t = 5"
| "format_index k22x = 6"
| "format_index k21t = 7"
| "format_index k21s = 8"
| "format_index k21h = 9"
| "format_index k21c = 10"
| "format_index k23x = 11"
| "format_index k22b = 12"
| "format_index k22t = 13"
| "format_index k22s = 14"
| "format_index k22c = 15"
| "format_index k32x = 16"
| "format_index k30t = 17"
| "format_index k31t = 18"
| "format_index k31i = 19"
| "format_index k31c = 20"
| "format_index k35c = 21"
| "format_index k3rc = 22"
| "format_index k51l = 23"

lemma format_index_inject: "format_index f = format_index g \<longleftrightarrow> f = g"
  by (cases f; cases g) simp_all

instantiation Format :: linorder
begin

definition less_eq_Format :: "Format \<Rightarrow> Format \<Rightarrow> bool" where
  "less_eq_Format f g \<longleftrightarrow> format_index f \<le> format_index g"

definition less_Format :: "Format \<Rightarrow> Format \<Rightarrow> bool" where
  "less_Format f g \<longleftrightarrow> format_index f < format_index g"

instance
  by standard (auto simp: less_eq_Format_def less_Format_def format_index_inject)

end

datatype IndexType = kNone | kUnknown | kTypeRef | kStringRef | kMethodRef | kFieldRef

text \<open>\<^verbatim>\<open>Instruction::Flags\<close> and \<^verbatim>\<open>Instruction::VerifyFlag\<close>.\<close>

abbreviation (input) kBranch :: u32 where "kBranch \<equiv> 0x000001"
abbreviation (input) kContinue :: u32 where "kContinue \<equiv> 0x000002"
abbreviation (input) kSwitch :: u32 where "kSwitch \<equiv> 0x000004"
abbreviation (input) kThrow :: u32 where "kThrow \<equiv> 0x000008"
abbreviation (input) kReturn :: u32 where "kReturn \<equiv> 0x000010"
abbreviation (input) kInvoke :: u32 where "kInvoke \<equiv> 0x000020"
abbreviation (input) kUnconditional :: u32 where "kUnconditional \<equiv> 0x000040"
abbreviation (input) kAdd :: u32 where "kAdd \<equiv> 0x000080"
abbreviation (input) kSubtract :: u32 where "kSubtract \<equiv> 0x000100"
abbreviation (input) kMultiply :: u32 where "kMultiply \<equiv> 0x000200"
abbreviation (input) kDivide :: u32 where "kDivide \<equiv> 0x000400"
abbreviation (input) kRemainder :: u32 where "kRemainder \<equiv> 0x000800"
abbreviation (input) kAnd :: u32 where "kAnd \<equiv> 0x001000"
abbreviation (input) kOr :: u32 where "kOr \<equiv> 0x002000"
abbreviation (input) kXor :: u32 where "kXor \<equiv> 0x004000"
abbreviation (input) kShl :: u32 where "kShl \<equiv> 0x008000"
abbreviation (input) kShr :: u32 where "kShr \<equiv> 0x010000"
abbreviation (input) kUshr :: u32 where "kUshr \<equiv> 0x020000"
abbreviation (input) kCast :: u32 where "kCast \<equiv> 0x040000"
abbreviation (input) kStore :: u32 where "kStore \<equiv> 0x080000"
abbreviation (input) kLoad :: u32 where "kLoad \<equiv> 0x100000"
abbreviation (input) kClobber :: u32 where "kClobber \<equiv> 0x200000"
abbreviation (input) kRegCFieldOrConstant :: u32 where "kRegCFieldOrConstant \<equiv> 0x400000"
abbreviation (input) kRegBFieldOrConstant :: u32 where "kRegBFieldOrConstant \<equiv> 0x800000"
abbreviation (input) kVerifyNone :: u32 where "kVerifyNone \<equiv> 0x000000"
abbreviation (input) kVerifyRegA :: u32 where "kVerifyRegA \<equiv> 0x000001"
abbreviation (input) kVerifyRegAWide :: u32 where "kVerifyRegAWide \<equiv> 0x000002"
abbreviation (input) kVerifyRegB :: u32 where "kVerifyRegB \<equiv> 0x000004"
abbreviation (input) kVerifyRegBField :: u32 where "kVerifyRegBField \<equiv> 0x000008"
abbreviation (input) kVerifyRegBMethod :: u32 where "kVerifyRegBMethod \<equiv> 0x000010"
abbreviation (input) kVerifyRegBNewInstance :: u32 where "kVerifyRegBNewInstance \<equiv> 0x000020"
abbreviation (input) kVerifyRegBString :: u32 where "kVerifyRegBString \<equiv> 0x000040"
abbreviation (input) kVerifyRegBType :: u32 where "kVerifyRegBType \<equiv> 0x000080"
abbreviation (input) kVerifyRegBWide :: u32 where "kVerifyRegBWide \<equiv> 0x000100"
abbreviation (input) kVerifyRegC :: u32 where "kVerifyRegC \<equiv> 0x000200"
abbreviation (input) kVerifyRegCField :: u32 where "kVerifyRegCField \<equiv> 0x000400"
abbreviation (input) kVerifyRegCNewArray :: u32 where "kVerifyRegCNewArray \<equiv> 0x000800"
abbreviation (input) kVerifyRegCType :: u32 where "kVerifyRegCType \<equiv> 0x001000"
abbreviation (input) kVerifyRegCWide :: u32 where "kVerifyRegCWide \<equiv> 0x002000"
abbreviation (input) kVerifyArrayData :: u32 where "kVerifyArrayData \<equiv> 0x004000"
abbreviation (input) kVerifyBranchTarget :: u32 where "kVerifyBranchTarget \<equiv> 0x008000"
abbreviation (input) kVerifySwitchTargets :: u32 where "kVerifySwitchTargets \<equiv> 0x010000"
abbreviation (input) kVerifyVarArg :: u32 where "kVerifyVarArg \<equiv> 0x020000"
abbreviation (input) kVerifyVarArgNonZero :: u32 where "kVerifyVarArgNonZero \<equiv> 0x040000"
abbreviation (input) kVerifyVarArgRange :: u32 where "kVerifyVarArgRange \<equiv> 0x080000"
abbreviation (input) kVerifyVarArgRangeNonZero :: u32 where "kVerifyVarArgRangeNonZero \<equiv> 0x100000"
abbreviation (input) kVerifyRuntimeOnly :: u32 where "kVerifyRuntimeOnly \<equiv> 0x200000"
abbreviation (input) kVerifyError :: u32 where "kVerifyError \<equiv> 0x400000"

text \<open>\<^verbatim>\<open>Instruction::Code\<close>.\<close>

abbreviation (input) NOP :: nat where "NOP \<equiv> 0x00"
abbreviation (input) MOVE :: nat where "MOVE \<equiv> 0x01"
abbreviation (input) MOVE_FROM16 :: nat where "MOVE_FROM16 \<equiv> 0x02"
abbreviation (input) MOVE_16 :: nat where "MOVE_16 \<equiv> 0x03"
abbreviation (input) MOVE_WIDE :: nat where "MOVE_WIDE \<equiv> 0x04"
abbreviation (input) MOVE_WIDE_FROM16 :: nat where "MOVE_WIDE_FROM16 \<equiv> 0x05"
abbreviation (input) MOVE_WIDE_16 :: nat where "MOVE_WIDE_16 \<equiv> 0x06"
abbreviation (input) MOVE_OBJECT :: nat where "MOVE_OBJECT \<equiv> 0x07"
abbreviation (input) MOVE_OBJECT_FROM16 :: nat where "MOVE_OBJECT_FROM16 \<equiv> 0x08"
abbreviation (input) MOVE_OBJECT_16 :: nat where "MOVE_OBJECT_16 \<equiv> 0x09"
abbreviation (input) MOVE_RESULT :: nat where "MOVE_RESULT \<equiv> 0x0A"
abbreviation (input) MOVE_RESULT_WIDE :: nat where "MOVE_RESULT_WIDE \<equiv> 0x0B"
abbreviation (input) MOVE_RESULT_OBJECT :: nat where "MOVE_RESULT_OBJECT \<equiv> 0x0C"
abbreviation (input) MOVE_EXCEPTION :: nat where "MOVE_EXCEPTION \<equiv> 0x0D"
abbreviation (input) RETURN_VOID :: nat where "RETURN_VOID \<equiv> 0x0E"
abbreviation (input) RETURN :: nat where "RETURN \<equiv> 0x0F"
abbreviation (input) RETURN_WIDE :: nat where "RETURN_WIDE \<equiv> 0x10"
abbreviation (input) RETURN_OBJECT :: nat where "RETURN_OBJECT \<equiv> 0x11"
abbreviation (input) CONST_4 :: nat where "CONST_4 \<equiv> 0x12"
abbreviation (input) CONST_16 :: nat where "CONST_16 \<equiv> 0x13"
abbreviation (input) CONST_32 :: nat where "CONST_32 \<equiv> 0x14"
abbreviation (input) CONST_HIGH16 :: nat where "CONST_HIGH16 \<equiv> 0x15"
abbreviation (input) CONST_WIDE_16 :: nat where "CONST_WIDE_16 \<equiv> 0x16"
abbreviation (input) CONST_WIDE_32 :: nat where "CONST_WIDE_32 \<equiv> 0x17"
abbreviation (input) CONST_WIDE :: nat where "CONST_WIDE \<equiv> 0x18"
abbreviation (input) CONST_WIDE_HIGH16 :: nat where "CONST_WIDE_HIGH16 \<equiv> 0x19"
abbreviation (input) CONST_STRING :: nat where "CONST_STRING \<equiv> 0x1A"
abbreviation (input) CONST_STRING_JUMBO :: nat where "CONST_STRING_JUMBO \<equiv> 0x1B"
abbreviation (input) CONST_CLASS :: nat where "CONST_CLASS \<equiv> 0x1C"
abbreviation (input) MONITOR_ENTER :: nat where "MONITOR_ENTER \<equiv> 0x1D"
abbreviation (input) MONITOR_EXIT :: nat where "MONITOR_EXIT \<equiv> 0x1E"
abbreviation (input) CHECK_CAST :: nat where "CHECK_CAST \<equiv> 0x1F"
abbreviation (input) INSTANCE_OF :: nat where "INSTANCE_OF \<equiv> 0x20"
abbreviation (input) ARRAY_LENGTH :: nat where "ARRAY_LENGTH \<equiv> 0x21"
abbreviation (input) NEW_INSTANCE :: nat where "NEW_INSTANCE \<equiv> 0x22"
abbreviation (input) NEW_ARRAY :: nat where "NEW_ARRAY \<equiv> 0x23"
abbreviation (input) FILLED_NEW_ARRAY :: nat where "FILLED_NEW_ARRAY \<equiv> 0x24"
abbreviation (input) FILLED_NEW_ARRAY_RANGE :: nat where "FILLED_NEW_ARRAY_RANGE \<equiv> 0x25"
abbreviation (input) FILL_ARRAY_DATA :: nat where "FILL_ARRAY_DATA \<equiv> 0x26"
abbreviation (input) THROW :: nat where "THROW \<equiv> 0x27"
abbreviation (input) GOTO :: nat where "GOTO \<equiv> 0x28"
abbreviation (input) GOTO_16 :: nat where "GOTO_16 \<equiv> 0x29"
abbreviation (input) GOTO_32 :: nat where "GOTO_32 \<equiv> 0x2A"
abbreviation (input) PACKED_SWITCH :: nat where "PACKED_SWITCH \<equiv> 0x2B"
abbreviation (input) SPARSE_SWITCH :: nat where "SPARSE_SWITCH \<equiv> 0x2C"
abbreviation (input) CMPL_FLOAT :: nat where "CMPL_FLOAT \<equiv> 0x2D"
abbreviation (input) CMPG_FLOAT :: nat where "CMPG_FLOAT \<equiv> 0x2E"
abbreviation (input) CMPL_DOUBLE :: nat where "CMPL_DOUBLE \<equiv> 0x2F"
abbreviation (input) CMPG_DOUBLE :: nat where "CMPG_DOUBLE \<equiv> 0x30"
abbreviation (input) CMP_LONG :: nat where "CMP_LONG \<equiv> 0x31"
abbreviation (input) IF_EQ :: nat where "IF_EQ \<equiv> 0x32"
abbreviation (input) IF_NE :: nat where "IF_NE \<equiv> 0x33"
abbreviation (input) IF_LT :: nat where "IF_LT \<equiv> 0x34"
abbreviation (input) IF_GE :: nat where "IF_GE \<equiv> 0x35"
abbreviation (input) IF_GT :: nat where "IF_GT \<equiv> 0x36"
abbreviation (input) IF_LE :: nat where "IF_LE \<equiv> 0x37"
abbreviation (input) IF_EQZ :: nat where "IF_EQZ \<equiv> 0x38"
abbreviation (input) IF_NEZ :: nat where "IF_NEZ \<equiv> 0x39"
abbreviation (input) IF_LTZ :: nat where "IF_LTZ \<equiv> 0x3A"
abbreviation (input) IF_GEZ :: nat where "IF_GEZ \<equiv> 0x3B"
abbreviation (input) IF_GTZ :: nat where "IF_GTZ \<equiv> 0x3C"
abbreviation (input) IF_LEZ :: nat where "IF_LEZ \<equiv> 0x3D"
abbreviation (input) UNUSED_3E :: nat where "UNUSED_3E \<equiv> 0x3E"
abbreviation (input) UNUSED_3F :: nat where "UNUSED_3F \<equiv> 0x3F"
abbreviation (input) UNUSED_40 :: nat where "UNUSED_40 \<equiv> 0x40"
abbreviation (input) UNUSED_41 :: nat where "UNUSED_41 \<equiv> 0x41"
abbreviation (input) UNUSED_42 :: nat where "UNUSED_42 \<equiv> 0x42"
abbreviation (input) UNUSED_43 :: nat where "UNUSED_43 \<equiv> 0x43"
abbreviation (input) AGET :: nat where "AGET \<equiv> 0x44"
abbreviation (input) AGET_WIDE :: nat where "AGET_WIDE \<equiv> 0x45"
abbreviation (input) AGET_OBJECT :: nat where "AGET_OBJECT \<equiv> 0x46"
abbreviation (input) AGET_BOOLEAN :: nat where "AGET_BOOLEAN \<equiv> 0x47"
abbreviation (input) AGET_BYTE :: nat where "AGET_BYTE \<equiv> 0x48"
abbreviation (input) AGET_CHAR :: nat where "AGET_CHAR \<equiv> 0x49"
abbreviation (input) AGET_SHORT :: nat where "AGET_SHORT \<equiv> 0x4A"
abbreviation (input) APUT :: nat where "APUT \<equiv> 0x4B"
abbreviation (input) APUT_WIDE :: nat where "APUT_WIDE \<equiv> 0x4C"
abbreviation (input) APUT_OBJECT :: nat where "APUT_OBJECT \<equiv> 0x4D"
abbreviation (input) APUT_BOOLEAN :: nat where "APUT_BOOLEAN \<equiv> 0x4E"
abbreviation (input) APUT_BYTE :: nat where "APUT_BYTE \<equiv> 0x4F"
abbreviation (input) APUT_CHAR :: nat where "APUT_CHAR \<equiv> 0x50"
abbreviation (input) APUT_SHORT :: nat where "APUT_SHORT \<equiv> 0x51"
abbreviation (input) IGET :: nat where "IGET \<equiv> 0x52"
abbreviation (input) IGET_WIDE :: nat where "IGET_WIDE \<equiv> 0x53"
abbreviation (input) IGET_OBJECT :: nat where "IGET_OBJECT \<equiv> 0x54"
abbreviation (input) IGET_BOOLEAN :: nat where "IGET_BOOLEAN \<equiv> 0x55"
abbreviation (input) IGET_BYTE :: nat where "IGET_BYTE \<equiv> 0x56"
abbreviation (input) IGET_CHAR :: nat where "IGET_CHAR \<equiv> 0x57"
abbreviation (input) IGET_SHORT :: nat where "IGET_SHORT \<equiv> 0x58"
abbreviation (input) IPUT :: nat where "IPUT \<equiv> 0x59"
abbreviation (input) IPUT_WIDE :: nat where "IPUT_WIDE \<equiv> 0x5A"
abbreviation (input) IPUT_OBJECT :: nat where "IPUT_OBJECT \<equiv> 0x5B"
abbreviation (input) IPUT_BOOLEAN :: nat where "IPUT_BOOLEAN \<equiv> 0x5C"
abbreviation (input) IPUT_BYTE :: nat where "IPUT_BYTE \<equiv> 0x5D"
abbreviation (input) IPUT_CHAR :: nat where "IPUT_CHAR \<equiv> 0x5E"
abbreviation (input) IPUT_SHORT :: nat where "IPUT_SHORT \<equiv> 0x5F"
abbreviation (input) SGET :: nat where "SGET \<equiv> 0x60"
abbreviation (input) SGET_WIDE :: nat where "SGET_WIDE \<equiv> 0x61"
abbreviation (input) SGET_OBJECT :: nat where "SGET_OBJECT \<equiv> 0x62"
abbreviation (input) SGET_BOOLEAN :: nat where "SGET_BOOLEAN \<equiv> 0x63"
abbreviation (input) SGET_BYTE :: nat where "SGET_BYTE \<equiv> 0x64"
abbreviation (input) SGET_CHAR :: nat where "SGET_CHAR \<equiv> 0x65"
abbreviation (input) SGET_SHORT :: nat where "SGET_SHORT \<equiv> 0x66"
abbreviation (input) SPUT :: nat where "SPUT \<equiv> 0x67"
abbreviation (input) SPUT_WIDE :: nat where "SPUT_WIDE \<equiv> 0x68"
abbreviation (input) SPUT_OBJECT :: nat where "SPUT_OBJECT \<equiv> 0x69"
abbreviation (input) SPUT_BOOLEAN :: nat where "SPUT_BOOLEAN \<equiv> 0x6A"
abbreviation (input) SPUT_BYTE :: nat where "SPUT_BYTE \<equiv> 0x6B"
abbreviation (input) SPUT_CHAR :: nat where "SPUT_CHAR \<equiv> 0x6C"
abbreviation (input) SPUT_SHORT :: nat where "SPUT_SHORT \<equiv> 0x6D"
abbreviation (input) INVOKE_VIRTUAL :: nat where "INVOKE_VIRTUAL \<equiv> 0x6E"
abbreviation (input) INVOKE_SUPER :: nat where "INVOKE_SUPER \<equiv> 0x6F"
abbreviation (input) INVOKE_DIRECT :: nat where "INVOKE_DIRECT \<equiv> 0x70"
abbreviation (input) INVOKE_STATIC :: nat where "INVOKE_STATIC \<equiv> 0x71"
abbreviation (input) INVOKE_INTERFACE :: nat where "INVOKE_INTERFACE \<equiv> 0x72"
abbreviation (input) RETURN_VOID_BARRIER :: nat where "RETURN_VOID_BARRIER \<equiv> 0x73"
abbreviation (input) INVOKE_VIRTUAL_RANGE :: nat where "INVOKE_VIRTUAL_RANGE \<equiv> 0x74"
abbreviation (input) INVOKE_SUPER_RANGE :: nat where "INVOKE_SUPER_RANGE \<equiv> 0x75"
abbreviation (input) INVOKE_DIRECT_RANGE :: nat where "INVOKE_DIRECT_RANGE \<equiv> 0x76"
abbreviation (input) INVOKE_STATIC_RANGE :: nat where "INVOKE_STATIC_RANGE \<equiv> 0x77"
abbreviation (input) INVOKE_INTERFACE_RANGE :: nat where "INVOKE_INTERFACE_RANGE \<equiv> 0x78"
abbreviation (input) UNUSED_79 :: nat where "UNUSED_79 \<equiv> 0x79"
abbreviation (input) UNUSED_7A :: nat where "UNUSED_7A \<equiv> 0x7A"
abbreviation (input) NEG_INT :: nat where "NEG_INT \<equiv> 0x7B"
abbreviation (input) NOT_INT :: nat where "NOT_INT \<equiv> 0x7C"
abbreviation (input) NEG_LONG :: nat where "NEG_LONG \<equiv> 0x7D"
abbreviation (input) NOT_LONG :: nat where "NOT_LONG \<equiv> 0x7E"
abbreviation (input) NEG_FLOAT :: nat where "NEG_FLOAT \<equiv> 0x7F"
abbreviation (input) NEG_DOUBLE :: nat where "NEG_DOUBLE \<equiv> 0x80"
abbreviation (input) INT_TO_LONG :: nat where "INT_TO_LONG \<equiv> 0x81"
abbreviation (input) INT_TO_FLOAT :: nat where "INT_TO_FLOAT \<equiv> 0x82"
abbreviation (input) INT_TO_DOUBLE :: nat where "INT_TO_DOUBLE \<equiv> 0x83"
abbreviation (input) LONG_TO_INT :: nat where "LONG_TO_INT \<equiv> 0x84"
abbreviation (input) LONG_TO_FLOAT :: nat where "LONG_TO_FLOAT \<equiv> 0x85"
abbreviation (input) LONG_TO_DOUBLE :: nat where "LONG_TO_DOUBLE \<equiv> 0x86"
abbreviation (input) FLOAT_TO_INT :: nat where "FLOAT_TO_INT \<equiv> 0x87"
abbreviation (input) FLOAT_TO_LONG :: nat where "FLOAT_TO_LONG \<equiv> 0x88"
abbreviation (input) FLOAT_TO_DOUBLE :: nat where "FLOAT_TO_DOUBLE \<equiv> 0x89"
abbreviation (input) DOUBLE_TO_INT :: nat where "DOUBLE_TO_INT \<equiv> 0x8A"
abbreviation (input) DOUBLE_TO_LONG :: nat where "DOUBLE_TO_LONG \<equiv> 0x8B"
abbreviation (input) DOUBLE_TO_FLOAT :: nat where "DOUBLE_TO_FLOAT \<equiv> 0x8C"
abbreviation (input) INT_TO_BYTE :: nat where "INT_TO_BYTE \<equiv> 0x8D"
abbreviation (input) INT_TO_CHAR :: nat where "INT_TO_CHAR \<equiv> 0x8E"
abbreviation (input) INT_TO_SHORT :: nat where "INT_TO_SHORT \<equiv> 0x8F"
abbreviation (input) ADD_INT :: nat where "ADD_INT \<equiv> 0x90"
abbreviation (input) SUB_INT :: nat where "SUB_INT \<equiv> 0x91"
abbreviation (input) MUL_INT :: nat where "MUL_INT \<equiv> 0x92"
abbreviation (input) DIV_INT :: nat where "DIV_INT \<equiv> 0x93"
abbreviation (input) REM_INT :: nat where "REM_INT \<equiv> 0x94"
abbreviation (input) AND_INT :: nat where "AND_INT \<equiv> 0x95"
abbreviation (input) OR_INT :: nat where "OR_INT \<equiv> 0x96"
abbreviation (input) XOR_INT :: nat where "XOR_INT \<equiv> 0x97"
abbreviation (input) SHL_INT :: nat where "SHL_INT \<equiv> 0x98"
abbreviation (input) SHR_INT :: nat where "SHR_INT \<equiv> 0x99"
abbreviation (input) USHR_INT :: nat where "USHR_INT \<equiv> 0x9A"
abbreviation (input) ADD_LONG :: nat where "ADD_LONG \<equiv> 0x9B"
abbreviation (input) SUB_LONG :: nat where "SUB_LONG \<equiv> 0x9C"
abbreviation (input) MUL_LONG :: nat where "MUL_LONG \<equiv> 0x9D"
abbreviation (input) DIV_LONG :: nat where "DIV_LONG \<equiv> 0x9E"
abbreviation (input) REM_LONG :: nat where "REM_LONG \<equiv> 0x9F"
abbreviation (input) AND_LONG :: nat where "AND_LONG \<equiv> 0xA0"
abbreviation (input) OR_LONG :: nat where "OR_LONG \<equiv> 0xA1"
abbreviation (input) XOR_LONG :: nat where "XOR_LONG \<equiv> 0xA2"
abbreviation (input) SHL_LONG :: nat where "SHL_LONG \<equiv> 0xA3"
abbreviation (input) SHR_LONG :: nat where "SHR_LONG \<equiv> 0xA4"
abbreviation (input) USHR_LONG :: nat where "USHR_LONG \<equiv> 0xA5"
abbreviation (input) ADD_FLOAT :: nat where "ADD_FLOAT \<equiv> 0xA6"
abbreviation (input) SUB_FLOAT :: nat where "SUB_FLOAT \<equiv> 0xA7"
abbreviation (input) MUL_FLOAT :: nat where "MUL_FLOAT \<equiv> 0xA8"
abbreviation (input) DIV_FLOAT :: nat where "DIV_FLOAT \<equiv> 0xA9"
abbreviation (input) REM_FLOAT :: nat where "REM_FLOAT \<equiv> 0xAA"
abbreviation (input) ADD_DOUBLE :: nat where "ADD_DOUBLE \<equiv> 0xAB"
abbreviation (input) SUB_DOUBLE :: nat where "SUB_DOUBLE \<equiv> 0xAC"
abbreviation (input) MUL_DOUBLE :: nat where "MUL_DOUBLE \<equiv> 0xAD"
abbreviation (input) DIV_DOUBLE :: nat where "DIV_DOUBLE \<equiv> 0xAE"
abbreviation (input) REM_DOUBLE :: nat where "REM_DOUBLE \<equiv> 0xAF"
abbreviation (input) ADD_INT_2ADDR :: nat where "ADD_INT_2ADDR \<equiv> 0xB0"
abbreviation (input) SUB_INT_2ADDR :: nat where "SUB_INT_2ADDR \<equiv> 0xB1"
abbreviation (input) MUL_INT_2ADDR :: nat where "MUL_INT_2ADDR \<equiv> 0xB2"
abbreviation (input) DIV_INT_2ADDR :: nat where "DIV_INT_2ADDR \<equiv> 0xB3"
abbreviation (input) REM_INT_2ADDR :: nat where "REM_INT_2ADDR \<equiv> 0xB4"
abbreviation (input) AND_INT_2ADDR :: nat where "AND_INT_2ADDR \<equiv> 0xB5"
abbreviation (input) OR_INT_2ADDR :: nat where "OR_INT_2ADDR \<equiv> 0xB6"
abbreviation (input) XOR_INT_2ADDR :: nat where "XOR_INT_2ADDR \<equiv> 0xB7"
abbreviation (input) SHL_INT_2ADDR :: nat where "SHL_INT_2ADDR \<equiv> 0xB8"
abbreviation (input) SHR_INT_2ADDR :: nat where "SHR_INT_2ADDR \<equiv> 0xB9"
abbreviation (input) USHR_INT_2ADDR :: nat where "USHR_INT_2ADDR \<equiv> 0xBA"
abbreviation (input) ADD_LONG_2ADDR :: nat where "ADD_LONG_2ADDR \<equiv> 0xBB"
abbreviation (input) SUB_LONG_2ADDR :: nat where "SUB_LONG_2ADDR \<equiv> 0xBC"
abbreviation (input) MUL_LONG_2ADDR :: nat where "MUL_LONG_2ADDR \<equiv> 0xBD"
abbreviation (input) DIV_LONG_2ADDR :: nat where "DIV_LONG_2ADDR \<equiv> 0xBE"
abbreviation (input) REM_LONG_2ADDR :: nat where "REM_LONG_2ADDR \<equiv> 0xBF"
abbreviation (input) AND_LONG_2ADDR :: nat where "AND_LONG_2ADDR \<equiv> 0xC0"
abbreviation (input) OR_LONG_2ADDR :: nat where "OR_LONG_2ADDR \<equiv> 0xC1"
abbreviation (input) XOR_LONG_2ADDR :: nat where "XOR_LONG_2ADDR \<equiv> 0xC2"
abbreviation (input) SHL_LONG_2ADDR :: nat where "SHL_LONG_2ADDR \<equiv> 0xC3"
abbreviation (input) SHR_LONG_2ADDR :: nat where "SHR_LONG_2ADDR \<equiv> 0xC4"
abbreviation (input) USHR_LONG_2ADDR :: nat where "USHR_LONG_2ADDR \<equiv> 0xC5"
abbreviation (input) ADD_FLOAT_2ADDR :: nat where "ADD_FLOAT_2ADDR \<equiv> 0xC6"
abbreviation (input) SUB_FLOAT_2ADDR :: nat where "SUB_FLOAT_2ADDR \<equiv> 0xC7"
abbreviation (input) MUL_FLOAT_2ADDR :: nat where "MUL_FLOAT_2ADDR \<equiv> 0xC8"
abbreviation (input) DIV_FLOAT_2ADDR :: nat where "DIV_FLOAT_2ADDR \<equiv> 0xC9"
abbreviation (input) REM_FLOAT_2ADDR :: nat where "REM_FLOAT_2ADDR \<equiv> 0xCA"
abbreviation (input) ADD_DOUBLE_2ADDR :: nat where "ADD_DOUBLE_2ADDR \<equiv> 0xCB"
abbreviation (input) SUB_DOUBLE_2ADDR :: nat where "SUB_DOUBLE_2ADDR \<equiv> 0xCC"
abbreviation (input) MUL_DOUBLE_2ADDR :: nat where "MUL_DOUBLE_2ADDR \<equiv> 0xCD"
abbreviation (input) DIV_DOUBLE_2ADDR :: nat where "DIV_DOUBLE_2ADDR \<equiv> 0xCE"
abbreviation (input) REM_DOUBLE_2ADDR :: nat where "REM_DOUBLE_2ADDR \<equiv> 0xCF"
abbreviation (input) ADD_INT_LIT16 :: nat where "ADD_INT_LIT16 \<equiv> 0xD0"
abbreviation (input) RSUB_INT :: nat where "RSUB_INT \<equiv> 0xD1"
abbreviation (input) MUL_INT_LIT16 :: nat where "MUL_INT_LIT16 \<equiv> 0xD2"
abbreviation (input) DIV_INT_LIT16 :: nat where "DIV_INT_LIT16 \<equiv> 0xD3"
abbreviation (input) REM_INT_LIT16 :: nat where "REM_INT_LIT16 \<equiv> 0xD4"
abbreviation (input) AND_INT_LIT16 :: nat where "AND_INT_LIT16 \<equiv> 0xD5"
abbreviation (input) OR_INT_LIT16 :: nat where "OR_INT_LIT16 \<equiv> 0xD6"
abbreviation (input) XOR_INT_LIT16 :: nat where "XOR_INT_LIT16 \<equiv> 0xD7"
abbreviation (input) ADD_INT_LIT8 :: nat where "ADD_INT_LIT8 \<equiv> 0xD8"
abbreviation (input) RSUB_INT_LIT8 :: nat where "RSUB_INT_LIT8 \<equiv> 0xD9"
abbreviation (input) MUL_INT_LIT8 :: nat where "MUL_INT_LIT8 \<equiv> 0xDA"
abbreviation (input) DIV_INT_LIT8 :: nat where "DIV_INT_LIT8 \<equiv> 0xDB"
abbreviation (input) REM_INT_LIT8 :: nat where "REM_INT_LIT8 \<equiv> 0xDC"
abbreviation (input) AND_INT_LIT8 :: nat where "AND_INT_LIT8 \<equiv> 0xDD"
abbreviation (input) OR_INT_LIT8 :: nat where "OR_INT_LIT8 \<equiv> 0xDE"
abbreviation (input) XOR_INT_LIT8 :: nat where "XOR_INT_LIT8 \<equiv> 0xDF"
abbreviation (input) SHL_INT_LIT8 :: nat where "SHL_INT_LIT8 \<equiv> 0xE0"
abbreviation (input) SHR_INT_LIT8 :: nat where "SHR_INT_LIT8 \<equiv> 0xE1"
abbreviation (input) USHR_INT_LIT8 :: nat where "USHR_INT_LIT8 \<equiv> 0xE2"
abbreviation (input) IGET_QUICK :: nat where "IGET_QUICK \<equiv> 0xE3"
abbreviation (input) IGET_WIDE_QUICK :: nat where "IGET_WIDE_QUICK \<equiv> 0xE4"
abbreviation (input) IGET_OBJECT_QUICK :: nat where "IGET_OBJECT_QUICK \<equiv> 0xE5"
abbreviation (input) IPUT_QUICK :: nat where "IPUT_QUICK \<equiv> 0xE6"
abbreviation (input) IPUT_WIDE_QUICK :: nat where "IPUT_WIDE_QUICK \<equiv> 0xE7"
abbreviation (input) IPUT_OBJECT_QUICK :: nat where "IPUT_OBJECT_QUICK \<equiv> 0xE8"
abbreviation (input) INVOKE_VIRTUAL_QUICK :: nat where "INVOKE_VIRTUAL_QUICK \<equiv> 0xE9"
abbreviation (input) INVOKE_VIRTUAL_RANGE_QUICK :: nat where "INVOKE_VIRTUAL_RANGE_QUICK \<equiv> 0xEA"
abbreviation (input) IPUT_BOOLEAN_QUICK :: nat where "IPUT_BOOLEAN_QUICK \<equiv> 0xEB"
abbreviation (input) IPUT_BYTE_QUICK :: nat where "IPUT_BYTE_QUICK \<equiv> 0xEC"
abbreviation (input) IPUT_CHAR_QUICK :: nat where "IPUT_CHAR_QUICK \<equiv> 0xED"
abbreviation (input) IPUT_SHORT_QUICK :: nat where "IPUT_SHORT_QUICK \<equiv> 0xEE"
abbreviation (input) UNUSED_EF :: nat where "UNUSED_EF \<equiv> 0xEF"
abbreviation (input) UNUSED_F0 :: nat where "UNUSED_F0 \<equiv> 0xF0"
abbreviation (input) UNUSED_F1 :: nat where "UNUSED_F1 \<equiv> 0xF1"
abbreviation (input) UNUSED_F2 :: nat where "UNUSED_F2 \<equiv> 0xF2"
abbreviation (input) UNUSED_F3 :: nat where "UNUSED_F3 \<equiv> 0xF3"
abbreviation (input) UNUSED_F4 :: nat where "UNUSED_F4 \<equiv> 0xF4"
abbreviation (input) UNUSED_F5 :: nat where "UNUSED_F5 \<equiv> 0xF5"
abbreviation (input) UNUSED_F6 :: nat where "UNUSED_F6 \<equiv> 0xF6"
abbreviation (input) UNUSED_F7 :: nat where "UNUSED_F7 \<equiv> 0xF7"
abbreviation (input) UNUSED_F8 :: nat where "UNUSED_F8 \<equiv> 0xF8"
abbreviation (input) UNUSED_F9 :: nat where "UNUSED_F9 \<equiv> 0xF9"
abbreviation (input) UNUSED_FA :: nat where "UNUSED_FA \<equiv> 0xFA"
abbreviation (input) UNUSED_FB :: nat where "UNUSED_FB \<equiv> 0xFB"
abbreviation (input) UNUSED_FC :: nat where "UNUSED_FC \<equiv> 0xFC"
abbreviation (input) UNUSED_FD :: nat where "UNUSED_FD \<equiv> 0xFD"
abbreviation (input) UNUSED_FE :: nat where "UNUSED_FE \<equiv> 0xFE"
abbreviation (input) UNUSED_FF :: nat where "UNUSED_FF \<equiv> 0xFF"
abbreviation (input) RSUB_INT_LIT16 :: nat where "RSUB_INT_LIT16 \<equiv> RSUB_INT"

section \<open>The table\<close>

text \<open>
  One row per \<^verbatim>\<open>V(opcode, cname, pname, format, r, i, flags, vflags)\<close>, without the two names.
\<close>

type_synonym dex_row = "nat \<times> Format \<times> bool \<times> IndexType \<times> u32 \<times> u32"

definition dex_instruction_list_low :: "dex_row list" where
  "dex_instruction_list_low = [
    (NOP, k10x, False, kNone, kContinue, kVerifyNone),
    (MOVE, k12x, True, kNone, kContinue, kVerifyRegA OR kVerifyRegB),
    (MOVE_FROM16, k22x, True, kNone, kContinue, kVerifyRegA OR kVerifyRegB),
    (MOVE_16, k32x, True, kNone, kContinue, kVerifyRegA OR kVerifyRegB),
    (MOVE_WIDE, k12x, True, kNone, kContinue, kVerifyRegAWide OR kVerifyRegBWide),
    (MOVE_WIDE_FROM16, k22x, True, kNone, kContinue, kVerifyRegAWide OR kVerifyRegBWide),
    (MOVE_WIDE_16, k32x, True, kNone, kContinue, kVerifyRegAWide OR kVerifyRegBWide),
    (MOVE_OBJECT, k12x, True, kNone, kContinue, kVerifyRegA OR kVerifyRegB),
    (MOVE_OBJECT_FROM16, k22x, True, kNone, kContinue, kVerifyRegA OR kVerifyRegB),
    (MOVE_OBJECT_16, k32x, True, kNone, kContinue, kVerifyRegA OR kVerifyRegB),
    (MOVE_RESULT, k11x, True, kNone, kContinue, kVerifyRegA),
    (MOVE_RESULT_WIDE, k11x, True, kNone, kContinue, kVerifyRegAWide),
    (MOVE_RESULT_OBJECT, k11x, True, kNone, kContinue, kVerifyRegA),
    (MOVE_EXCEPTION, k11x, True, kNone, kContinue, kVerifyRegA),
    (RETURN_VOID, k10x, False, kNone, kReturn, kVerifyNone),
    (RETURN, k11x, False, kNone, kReturn, kVerifyRegA),
    (RETURN_WIDE, k11x, False, kNone, kReturn, kVerifyRegAWide),
    (RETURN_OBJECT, k11x, False, kNone, kReturn, kVerifyRegA),
    (CONST_4, k11n, True, kNone, kContinue OR kRegBFieldOrConstant, kVerifyRegA),
    (CONST_16, k21s, True, kNone, kContinue OR kRegBFieldOrConstant, kVerifyRegA),
    (CONST_32, k31i, True, kNone, kContinue OR kRegBFieldOrConstant, kVerifyRegA),
    (CONST_HIGH16, k21h, True, kNone, kContinue OR kRegBFieldOrConstant, kVerifyRegA),
    (CONST_WIDE_16, k21s, True, kNone, kContinue OR kRegBFieldOrConstant, kVerifyRegAWide),
    (CONST_WIDE_32, k31i, True, kNone, kContinue OR kRegBFieldOrConstant, kVerifyRegAWide),
    (CONST_WIDE, k51l, True, kNone, kContinue OR kRegBFieldOrConstant, kVerifyRegAWide),
    (CONST_WIDE_HIGH16, k21h, True, kNone, kContinue OR kRegBFieldOrConstant, kVerifyRegAWide),
    (CONST_STRING, k21c, True, kStringRef, kContinue OR kThrow, kVerifyRegA OR kVerifyRegBString),
    (CONST_STRING_JUMBO, k31c, True, kStringRef, kContinue OR kThrow, kVerifyRegA OR kVerifyRegBString),
    (CONST_CLASS, k21c, True, kTypeRef, kContinue OR kThrow, kVerifyRegA OR kVerifyRegBType),
    (MONITOR_ENTER, k11x, False, kNone, kContinue OR kThrow OR kClobber, kVerifyRegA),
    (MONITOR_EXIT, k11x, False, kNone, kContinue OR kThrow OR kClobber, kVerifyRegA),
    (CHECK_CAST, k21c, True, kTypeRef, kContinue OR kThrow, kVerifyRegA OR kVerifyRegBType),
    (INSTANCE_OF, k22c, True, kTypeRef, kContinue OR kThrow, kVerifyRegA OR kVerifyRegB OR kVerifyRegCType),
    (ARRAY_LENGTH, k12x, True, kNone, kContinue OR kThrow, kVerifyRegA OR kVerifyRegB),
    (NEW_INSTANCE, k21c, True, kTypeRef, kContinue OR kThrow OR kClobber, kVerifyRegA OR kVerifyRegBNewInstance),
    (NEW_ARRAY, k22c, True, kTypeRef, kContinue OR kThrow OR kClobber, kVerifyRegA OR kVerifyRegB OR kVerifyRegCNewArray),
    (FILLED_NEW_ARRAY, k35c, False, kTypeRef, kContinue OR kThrow OR kClobber, kVerifyRegBType OR kVerifyVarArg),
    (FILLED_NEW_ARRAY_RANGE, k3rc, False, kTypeRef, kContinue OR kThrow OR kClobber, kVerifyRegBType OR kVerifyVarArgRange),
    (FILL_ARRAY_DATA, k31t, False, kNone, kContinue OR kThrow OR kClobber, kVerifyRegA OR kVerifyArrayData),
    (THROW, k11x, False, kNone, kThrow, kVerifyRegA),
    (GOTO, k10t, False, kNone, kBranch OR kUnconditional, kVerifyBranchTarget),
    (GOTO_16, k20t, False, kNone, kBranch OR kUnconditional, kVerifyBranchTarget),
    (GOTO_32, k30t, False, kNone, kBranch OR kUnconditional, kVerifyBranchTarget),
    (PACKED_SWITCH, k31t, False, kNone, kContinue OR kSwitch, kVerifyRegA OR kVerifySwitchTargets),
    (SPARSE_SWITCH, k31t, False, kNone, kContinue OR kSwitch, kVerifyRegA OR kVerifySwitchTargets),
    (CMPL_FLOAT, k23x, True, kNone, kContinue, kVerifyRegA OR kVerifyRegB OR kVerifyRegC),
    (CMPG_FLOAT, k23x, True, kNone, kContinue, kVerifyRegA OR kVerifyRegB OR kVerifyRegC),
    (CMPL_DOUBLE, k23x, True, kNone, kContinue, kVerifyRegA OR kVerifyRegBWide OR kVerifyRegCWide),
    (CMPG_DOUBLE, k23x, True, kNone, kContinue, kVerifyRegA OR kVerifyRegBWide OR kVerifyRegCWide),
    (CMP_LONG, k23x, True, kNone, kContinue, kVerifyRegA OR kVerifyRegBWide OR kVerifyRegCWide),
    (IF_EQ, k22t, False, kNone, kContinue OR kBranch, kVerifyRegA OR kVerifyRegB OR kVerifyBranchTarget),
    (IF_NE, k22t, False, kNone, kContinue OR kBranch, kVerifyRegA OR kVerifyRegB OR kVerifyBranchTarget),
    (IF_LT, k22t, False, kNone, kContinue OR kBranch, kVerifyRegA OR kVerifyRegB OR kVerifyBranchTarget),
    (IF_GE, k22t, False, kNone, kContinue OR kBranch, kVerifyRegA OR kVerifyRegB OR kVerifyBranchTarget),
    (IF_GT, k22t, False, kNone, kContinue OR kBranch, kVerifyRegA OR kVerifyRegB OR kVerifyBranchTarget),
    (IF_LE, k22t, False, kNone, kContinue OR kBranch, kVerifyRegA OR kVerifyRegB OR kVerifyBranchTarget),
    (IF_EQZ, k21t, False, kNone, kContinue OR kBranch, kVerifyRegA OR kVerifyBranchTarget),
    (IF_NEZ, k21t, False, kNone, kContinue OR kBranch, kVerifyRegA OR kVerifyBranchTarget),
    (IF_LTZ, k21t, False, kNone, kContinue OR kBranch, kVerifyRegA OR kVerifyBranchTarget),
    (IF_GEZ, k21t, False, kNone, kContinue OR kBranch, kVerifyRegA OR kVerifyBranchTarget),
    (IF_GTZ, k21t, False, kNone, kContinue OR kBranch, kVerifyRegA OR kVerifyBranchTarget),
    (IF_LEZ, k21t, False, kNone, kContinue OR kBranch, kVerifyRegA OR kVerifyBranchTarget),
    (UNUSED_3E, k10x, False, kUnknown, 0, kVerifyError),
    (UNUSED_3F, k10x, False, kUnknown, 0, kVerifyError),
    (UNUSED_40, k10x, False, kUnknown, 0, kVerifyError),
    (UNUSED_41, k10x, False, kUnknown, 0, kVerifyError),
    (UNUSED_42, k10x, False, kUnknown, 0, kVerifyError),
    (UNUSED_43, k10x, False, kUnknown, 0, kVerifyError),
    (AGET, k23x, True, kNone, kContinue OR kThrow OR kLoad, kVerifyRegA OR kVerifyRegB OR kVerifyRegC),
    (AGET_WIDE, k23x, True, kNone, kContinue OR kThrow OR kLoad, kVerifyRegAWide OR kVerifyRegB OR kVerifyRegC),
    (AGET_OBJECT, k23x, True, kNone, kContinue OR kThrow OR kLoad, kVerifyRegA OR kVerifyRegB OR kVerifyRegC),
    (AGET_BOOLEAN, k23x, True, kNone, kContinue OR kThrow OR kLoad, kVerifyRegA OR kVerifyRegB OR kVerifyRegC),
    (AGET_BYTE, k23x, True, kNone, kContinue OR kThrow OR kLoad, kVerifyRegA OR kVerifyRegB OR kVerifyRegC),
    (AGET_CHAR, k23x, True, kNone, kContinue OR kThrow OR kLoad, kVerifyRegA OR kVerifyRegB OR kVerifyRegC),
    (AGET_SHORT, k23x, True, kNone, kContinue OR kThrow OR kLoad, kVerifyRegA OR kVerifyRegB OR kVerifyRegC),
    (APUT, k23x, False, kNone, kContinue OR kThrow OR kStore, kVerifyRegA OR kVerifyRegB OR kVerifyRegC),
    (APUT_WIDE, k23x, False, kNone, kContinue OR kThrow OR kStore, kVerifyRegAWide OR kVerifyRegB OR kVerifyRegC),
    (APUT_OBJECT, k23x, False, kNone, kContinue OR kThrow OR kStore, kVerifyRegA OR kVerifyRegB OR kVerifyRegC),
    (APUT_BOOLEAN, k23x, False, kNone, kContinue OR kThrow OR kStore, kVerifyRegA OR kVerifyRegB OR kVerifyRegC),
    (APUT_BYTE, k23x, False, kNone, kContinue OR kThrow OR kStore, kVerifyRegA OR kVerifyRegB OR kVerifyRegC),
    (APUT_CHAR, k23x, False, kNone, kContinue OR kThrow OR kStore, kVerifyRegA OR kVerifyRegB OR kVerifyRegC),
    (APUT_SHORT, k23x, False, kNone, kContinue OR kThrow OR kStore, kVerifyRegA OR kVerifyRegB OR kVerifyRegC),
    (IGET, k22c, True, kFieldRef, kContinue OR kThrow OR kLoad OR kRegCFieldOrConstant, kVerifyRegA OR kVerifyRegB OR kVerifyRegCField),
    (IGET_WIDE, k22c, True, kFieldRef, kContinue OR kThrow OR kLoad OR kRegCFieldOrConstant, kVerifyRegAWide OR kVerifyRegB OR kVerifyRegCField),
    (IGET_OBJECT, k22c, True, kFieldRef, kContinue OR kThrow OR kLoad OR kRegCFieldOrConstant, kVerifyRegA OR kVerifyRegB OR kVerifyRegCField),
    (IGET_BOOLEAN, k22c, True, kFieldRef, kContinue OR kThrow OR kLoad OR kRegCFieldOrConstant, kVerifyRegA OR kVerifyRegB OR kVerifyRegCField),
    (IGET_BYTE, k22c, True, kFieldRef, kContinue OR kThrow OR kLoad OR kRegCFieldOrConstant, kVerifyRegA OR kVerifyRegB OR kVerifyRegCField),
    (IGET_CHAR, k22c, True, kFieldRef, kContinue OR kThrow OR kLoad OR kRegCFieldOrConstant, kVerifyRegA OR kVerifyRegB OR kVerifyRegCField),
    (IGET_SHORT, k22c, True, kFieldRef, kContinue OR kThrow OR kLoad OR kRegCFieldOrConstant, kVerifyRegA OR kVerifyRegB OR kVerifyRegCField),
    (IPUT, k22c, False, kFieldRef, kContinue OR kThrow OR kStore OR kRegCFieldOrConstant, kVerifyRegA OR kVerifyRegB OR kVerifyRegCField),
    (IPUT_WIDE, k22c, False, kFieldRef, kContinue OR kThrow OR kStore OR kRegCFieldOrConstant, kVerifyRegAWide OR kVerifyRegB OR kVerifyRegCField),
    (IPUT_OBJECT, k22c, False, kFieldRef, kContinue OR kThrow OR kStore OR kRegCFieldOrConstant, kVerifyRegA OR kVerifyRegB OR kVerifyRegCField),
    (IPUT_BOOLEAN, k22c, False, kFieldRef, kContinue OR kThrow OR kStore OR kRegCFieldOrConstant, kVerifyRegA OR kVerifyRegB OR kVerifyRegCField),
    (IPUT_BYTE, k22c, False, kFieldRef, kContinue OR kThrow OR kStore OR kRegCFieldOrConstant, kVerifyRegA OR kVerifyRegB OR kVerifyRegCField),
    (IPUT_CHAR, k22c, False, kFieldRef, kContinue OR kThrow OR kStore OR kRegCFieldOrConstant, kVerifyRegA OR kVerifyRegB OR kVerifyRegCField),
    (IPUT_SHORT, k22c, False, kFieldRef, kContinue OR kThrow OR kStore OR kRegCFieldOrConstant, kVerifyRegA OR kVerifyRegB OR kVerifyRegCField),
    (SGET, k21c, True, kFieldRef, kContinue OR kThrow OR kLoad OR kRegBFieldOrConstant, kVerifyRegA OR kVerifyRegBField),
    (SGET_WIDE, k21c, True, kFieldRef, kContinue OR kThrow OR kLoad OR kRegBFieldOrConstant, kVerifyRegAWide OR kVerifyRegBField),
    (SGET_OBJECT, k21c, True, kFieldRef, kContinue OR kThrow OR kLoad OR kRegBFieldOrConstant, kVerifyRegA OR kVerifyRegBField),
    (SGET_BOOLEAN, k21c, True, kFieldRef, kContinue OR kThrow OR kLoad OR kRegBFieldOrConstant, kVerifyRegA OR kVerifyRegBField),
    (SGET_BYTE, k21c, True, kFieldRef, kContinue OR kThrow OR kLoad OR kRegBFieldOrConstant, kVerifyRegA OR kVerifyRegBField),
    (SGET_CHAR, k21c, True, kFieldRef, kContinue OR kThrow OR kLoad OR kRegBFieldOrConstant, kVerifyRegA OR kVerifyRegBField),
    (SGET_SHORT, k21c, True, kFieldRef, kContinue OR kThrow OR kLoad OR kRegBFieldOrConstant, kVerifyRegA OR kVerifyRegBField),
    (SPUT, k21c, False, kFieldRef, kContinue OR kThrow OR kStore OR kRegBFieldOrConstant, kVerifyRegA OR kVerifyRegBField),
    (SPUT_WIDE, k21c, False, kFieldRef, kContinue OR kThrow OR kStore OR kRegBFieldOrConstant, kVerifyRegAWide OR kVerifyRegBField),
    (SPUT_OBJECT, k21c, False, kFieldRef, kContinue OR kThrow OR kStore OR kRegBFieldOrConstant, kVerifyRegA OR kVerifyRegBField),
    (SPUT_BOOLEAN, k21c, False, kFieldRef, kContinue OR kThrow OR kStore OR kRegBFieldOrConstant, kVerifyRegA OR kVerifyRegBField),
    (SPUT_BYTE, k21c, False, kFieldRef, kContinue OR kThrow OR kStore OR kRegBFieldOrConstant, kVerifyRegA OR kVerifyRegBField),
    (SPUT_CHAR, k21c, False, kFieldRef, kContinue OR kThrow OR kStore OR kRegBFieldOrConstant, kVerifyRegA OR kVerifyRegBField),
    (SPUT_SHORT, k21c, False, kFieldRef, kContinue OR kThrow OR kStore OR kRegBFieldOrConstant, kVerifyRegA OR kVerifyRegBField),
    (INVOKE_VIRTUAL, k35c, False, kMethodRef, kContinue OR kThrow OR kInvoke, kVerifyRegBMethod OR kVerifyVarArgNonZero),
    (INVOKE_SUPER, k35c, False, kMethodRef, kContinue OR kThrow OR kInvoke, kVerifyRegBMethod OR kVerifyVarArgNonZero),
    (INVOKE_DIRECT, k35c, False, kMethodRef, kContinue OR kThrow OR kInvoke, kVerifyRegBMethod OR kVerifyVarArgNonZero),
    (INVOKE_STATIC, k35c, False, kMethodRef, kContinue OR kThrow OR kInvoke, kVerifyRegBMethod OR kVerifyVarArg),
    (INVOKE_INTERFACE, k35c, False, kMethodRef, kContinue OR kThrow OR kInvoke, kVerifyRegBMethod OR kVerifyVarArgNonZero),
    (RETURN_VOID_BARRIER, k10x, False, kNone, kReturn, kVerifyNone),
    (INVOKE_VIRTUAL_RANGE, k3rc, False, kMethodRef, kContinue OR kThrow OR kInvoke, kVerifyRegBMethod OR kVerifyVarArgRangeNonZero),
    (INVOKE_SUPER_RANGE, k3rc, False, kMethodRef, kContinue OR kThrow OR kInvoke, kVerifyRegBMethod OR kVerifyVarArgRangeNonZero),
    (INVOKE_DIRECT_RANGE, k3rc, False, kMethodRef, kContinue OR kThrow OR kInvoke, kVerifyRegBMethod OR kVerifyVarArgRangeNonZero),
    (INVOKE_STATIC_RANGE, k3rc, False, kMethodRef, kContinue OR kThrow OR kInvoke, kVerifyRegBMethod OR kVerifyVarArgRange),
    (INVOKE_INTERFACE_RANGE, k3rc, False, kMethodRef, kContinue OR kThrow OR kInvoke, kVerifyRegBMethod OR kVerifyVarArgRangeNonZero),
    (UNUSED_79, k10x, False, kUnknown, 0, kVerifyError),
    (UNUSED_7A, k10x, False, kUnknown, 0, kVerifyError),
    (NEG_INT, k12x, True, kNone, kContinue, kVerifyRegA OR kVerifyRegB),
    (NOT_INT, k12x, True, kNone, kContinue, kVerifyRegA OR kVerifyRegB),
    (NEG_LONG, k12x, True, kNone, kContinue, kVerifyRegAWide OR kVerifyRegBWide),
    (NOT_LONG, k12x, True, kNone, kContinue, kVerifyRegAWide OR kVerifyRegBWide),
    (NEG_FLOAT, k12x, True, kNone, kContinue, kVerifyRegA OR kVerifyRegB)]"

definition dex_instruction_list_high :: "dex_row list" where
  "dex_instruction_list_high = [
    (NEG_DOUBLE, k12x, True, kNone, kContinue, kVerifyRegAWide OR kVerifyRegBWide),
    (INT_TO_LONG, k12x, True, kNone, kContinue OR kCast, kVerifyRegAWide OR kVerifyRegB),
    (INT_TO_FLOAT, k12x, True, kNone, kContinue OR kCast, kVerifyRegA OR kVerifyRegB),
    (INT_TO_DOUBLE, k12x, True, kNone, kContinue OR kCast, kVerifyRegAWide OR kVerifyRegB),
    (LONG_TO_INT, k12x, True, kNone, kContinue OR kCast, kVerifyRegA OR kVerifyRegBWide),
    (LONG_TO_FLOAT, k12x, True, kNone, kContinue OR kCast, kVerifyRegA OR kVerifyRegBWide),
    (LONG_TO_DOUBLE, k12x, True, kNone, kContinue OR kCast, kVerifyRegAWide OR kVerifyRegBWide),
    (FLOAT_TO_INT, k12x, True, kNone, kContinue OR kCast, kVerifyRegA OR kVerifyRegB),
    (FLOAT_TO_LONG, k12x, True, kNone, kContinue OR kCast, kVerifyRegAWide OR kVerifyRegB),
    (FLOAT_TO_DOUBLE, k12x, True, kNone, kContinue OR kCast, kVerifyRegAWide OR kVerifyRegB),
    (DOUBLE_TO_INT, k12x, True, kNone, kContinue OR kCast, kVerifyRegA OR kVerifyRegBWide),
    (DOUBLE_TO_LONG, k12x, True, kNone, kContinue OR kCast, kVerifyRegAWide OR kVerifyRegBWide),
    (DOUBLE_TO_FLOAT, k12x, True, kNone, kContinue OR kCast, kVerifyRegA OR kVerifyRegBWide),
    (INT_TO_BYTE, k12x, True, kNone, kContinue OR kCast, kVerifyRegA OR kVerifyRegB),
    (INT_TO_CHAR, k12x, True, kNone, kContinue OR kCast, kVerifyRegA OR kVerifyRegB),
    (INT_TO_SHORT, k12x, True, kNone, kContinue OR kCast, kVerifyRegA OR kVerifyRegB),
    (ADD_INT, k23x, True, kNone, kContinue OR kAdd, kVerifyRegA OR kVerifyRegB OR kVerifyRegC),
    (SUB_INT, k23x, True, kNone, kContinue OR kSubtract, kVerifyRegA OR kVerifyRegB OR kVerifyRegC),
    (MUL_INT, k23x, True, kNone, kContinue OR kMultiply, kVerifyRegA OR kVerifyRegB OR kVerifyRegC),
    (DIV_INT, k23x, True, kNone, kContinue OR kThrow OR kDivide, kVerifyRegA OR kVerifyRegB OR kVerifyRegC),
    (REM_INT, k23x, True, kNone, kContinue OR kThrow OR kRemainder, kVerifyRegA OR kVerifyRegB OR kVerifyRegC),
    (AND_INT, k23x, True, kNone, kContinue OR kAnd, kVerifyRegA OR kVerifyRegB OR kVerifyRegC),
    (OR_INT, k23x, True, kNone, kContinue OR kOr, kVerifyRegA OR kVerifyRegB OR kVerifyRegC),
    (XOR_INT, k23x, True, kNone, kContinue OR kXor, kVerifyRegA OR kVerifyRegB OR kVerifyRegC),
    (SHL_INT, k23x, True, kNone, kContinue OR kShl, kVerifyRegA OR kVerifyRegB OR kVerifyRegC),
    (SHR_INT, k23x, True, kNone, kContinue OR kShr, kVerifyRegA OR kVerifyRegB OR kVerifyRegC),
    (USHR_INT, k23x, True, kNone, kContinue OR kUshr, kVerifyRegA OR kVerifyRegB OR kVerifyRegC),
    (ADD_LONG, k23x, True, kNone, kContinue OR kAdd, kVerifyRegAWide OR kVerifyRegBWide OR kVerifyRegCWide),
    (SUB_LONG, k23x, True, kNone, kContinue OR kSubtract, kVerifyRegAWide OR kVerifyRegBWide OR kVerifyRegCWide),
    (MUL_LONG, k23x, True, kNone, kContinue OR kMultiply, kVerifyRegAWide OR kVerifyRegBWide OR kVerifyRegCWide),
    (DIV_LONG, k23x, True, kNone, kContinue OR kThrow OR kDivide, kVerifyRegAWide OR kVerifyRegBWide OR kVerifyRegCWide),
    (REM_LONG, k23x, True, kNone, kContinue OR kThrow OR kRemainder, kVerifyRegAWide OR kVerifyRegBWide OR kVerifyRegCWide),
    (AND_LONG, k23x, True, kNone, kContinue OR kAnd, kVerifyRegAWide OR kVerifyRegBWide OR kVerifyRegCWide),
    (OR_LONG, k23x, True, kNone, kContinue OR kOr, kVerifyRegAWide OR kVerifyRegBWide OR kVerifyRegCWide),
    (XOR_LONG, k23x, True, kNone, kContinue OR kXor, kVerifyRegAWide OR kVerifyRegBWide OR kVerifyRegCWide),
    (SHL_LONG, k23x, True, kNone, kContinue OR kShl, kVerifyRegAWide OR kVerifyRegBWide OR kVerifyRegC),
    (SHR_LONG, k23x, True, kNone, kContinue OR kShr, kVerifyRegAWide OR kVerifyRegBWide OR kVerifyRegC),
    (USHR_LONG, k23x, True, kNone, kContinue OR kUshr, kVerifyRegAWide OR kVerifyRegBWide OR kVerifyRegC),
    (ADD_FLOAT, k23x, True, kNone, kContinue OR kAdd, kVerifyRegA OR kVerifyRegB OR kVerifyRegC),
    (SUB_FLOAT, k23x, True, kNone, kContinue OR kSubtract, kVerifyRegA OR kVerifyRegB OR kVerifyRegC),
    (MUL_FLOAT, k23x, True, kNone, kContinue OR kMultiply, kVerifyRegA OR kVerifyRegB OR kVerifyRegC),
    (DIV_FLOAT, k23x, True, kNone, kContinue OR kDivide, kVerifyRegA OR kVerifyRegB OR kVerifyRegC),
    (REM_FLOAT, k23x, True, kNone, kContinue OR kRemainder, kVerifyRegA OR kVerifyRegB OR kVerifyRegC),
    (ADD_DOUBLE, k23x, True, kNone, kContinue OR kAdd, kVerifyRegAWide OR kVerifyRegBWide OR kVerifyRegCWide),
    (SUB_DOUBLE, k23x, True, kNone, kContinue OR kSubtract, kVerifyRegAWide OR kVerifyRegBWide OR kVerifyRegCWide),
    (MUL_DOUBLE, k23x, True, kNone, kContinue OR kMultiply, kVerifyRegAWide OR kVerifyRegBWide OR kVerifyRegCWide),
    (DIV_DOUBLE, k23x, True, kNone, kContinue OR kDivide, kVerifyRegAWide OR kVerifyRegBWide OR kVerifyRegCWide),
    (REM_DOUBLE, k23x, True, kNone, kContinue OR kRemainder, kVerifyRegAWide OR kVerifyRegBWide OR kVerifyRegCWide),
    (ADD_INT_2ADDR, k12x, True, kNone, kContinue OR kAdd, kVerifyRegA OR kVerifyRegB),
    (SUB_INT_2ADDR, k12x, True, kNone, kContinue OR kSubtract, kVerifyRegA OR kVerifyRegB),
    (MUL_INT_2ADDR, k12x, True, kNone, kContinue OR kMultiply, kVerifyRegA OR kVerifyRegB),
    (DIV_INT_2ADDR, k12x, True, kNone, kContinue OR kThrow OR kDivide, kVerifyRegA OR kVerifyRegB),
    (REM_INT_2ADDR, k12x, True, kNone, kContinue OR kThrow OR kRemainder, kVerifyRegA OR kVerifyRegB),
    (AND_INT_2ADDR, k12x, True, kNone, kContinue OR kAnd, kVerifyRegA OR kVerifyRegB),
    (OR_INT_2ADDR, k12x, True, kNone, kContinue OR kOr, kVerifyRegA OR kVerifyRegB),
    (XOR_INT_2ADDR, k12x, True, kNone, kContinue OR kXor, kVerifyRegA OR kVerifyRegB),
    (SHL_INT_2ADDR, k12x, True, kNone, kContinue OR kShl, kVerifyRegA OR kVerifyRegB),
    (SHR_INT_2ADDR, k12x, True, kNone, kContinue OR kShr, kVerifyRegA OR kVerifyRegB),
    (USHR_INT_2ADDR, k12x, True, kNone, kContinue OR kUshr, kVerifyRegA OR kVerifyRegB),
    (ADD_LONG_2ADDR, k12x, True, kNone, kContinue OR kAdd, kVerifyRegAWide OR kVerifyRegBWide),
    (SUB_LONG_2ADDR, k12x, True, kNone, kContinue OR kSubtract, kVerifyRegAWide OR kVerifyRegBWide),
    (MUL_LONG_2ADDR, k12x, True, kNone, kContinue OR kMultiply, kVerifyRegAWide OR kVerifyRegBWide),
    (DIV_LONG_2ADDR, k12x, True, kNone, kContinue OR kThrow OR kDivide, kVerifyRegAWide OR kVerifyRegBWide),
    (REM_LONG_2ADDR, k12x, True, kNone, kContinue OR kThrow OR kRemainder, kVerifyRegAWide OR kVerifyRegBWide),
    (AND_LONG_2ADDR, k12x, True, kNone, kContinue OR kAnd, kVerifyRegAWide OR kVerifyRegBWide),
    (OR_LONG_2ADDR, k12x, True, kNone, kContinue OR kOr, kVerifyRegAWide OR kVerifyRegBWide),
    (XOR_LONG_2ADDR, k12x, True, kNone, kContinue OR kXor, kVerifyRegAWide OR kVerifyRegBWide),
    (SHL_LONG_2ADDR, k12x, True, kNone, kContinue OR kShl, kVerifyRegAWide OR kVerifyRegB),
    (SHR_LONG_2ADDR, k12x, True, kNone, kContinue OR kShr, kVerifyRegAWide OR kVerifyRegB),
    (USHR_LONG_2ADDR, k12x, True, kNone, kContinue OR kUshr, kVerifyRegAWide OR kVerifyRegB),
    (ADD_FLOAT_2ADDR, k12x, True, kNone, kContinue OR kAdd, kVerifyRegA OR kVerifyRegB),
    (SUB_FLOAT_2ADDR, k12x, True, kNone, kContinue OR kSubtract, kVerifyRegA OR kVerifyRegB),
    (MUL_FLOAT_2ADDR, k12x, True, kNone, kContinue OR kMultiply, kVerifyRegA OR kVerifyRegB),
    (DIV_FLOAT_2ADDR, k12x, True, kNone, kContinue OR kDivide, kVerifyRegA OR kVerifyRegB),
    (REM_FLOAT_2ADDR, k12x, True, kNone, kContinue OR kRemainder, kVerifyRegA OR kVerifyRegB),
    (ADD_DOUBLE_2ADDR, k12x, True, kNone, kContinue OR kAdd, kVerifyRegAWide OR kVerifyRegBWide),
    (SUB_DOUBLE_2ADDR, k12x, True, kNone, kContinue OR kSubtract, kVerifyRegAWide OR kVerifyRegBWide),
    (MUL_DOUBLE_2ADDR, k12x, True, kNone, kContinue OR kMultiply, kVerifyRegAWide OR kVerifyRegBWide),
    (DIV_DOUBLE_2ADDR, k12x, True, kNone, kContinue OR kDivide, kVerifyRegAWide OR kVerifyRegBWide),
    (REM_DOUBLE_2ADDR, k12x, True, kNone, kContinue OR kRemainder, kVerifyRegAWide OR kVerifyRegBWide),
    (ADD_INT_LIT16, k22s, True, kNone, kContinue OR kAdd OR kRegCFieldOrConstant, kVerifyRegA OR kVerifyRegB),
    (RSUB_INT, k22s, True, kNone, kContinue OR kSubtract OR kRegCFieldOrConstant, kVerifyRegA OR kVerifyRegB),
    (MUL_INT_LIT16, k22s, True, kNone, kContinue OR kMultiply OR kRegCFieldOrConstant, kVerifyRegA OR kVerifyRegB),
    (DIV_INT_LIT16, k22s, True, kNone, kContinue OR kThrow OR kDivide OR kRegCFieldOrConstant, kVerifyRegA OR kVerifyRegB),
    (REM_INT_LIT16, k22s, True, kNone, kContinue OR kThrow OR kRemainder OR kRegCFieldOrConstant, kVerifyRegA OR kVerifyRegB),
    (AND_INT_LIT16, k22s, True, kNone, kContinue OR kAnd OR kRegCFieldOrConstant, kVerifyRegA OR kVerifyRegB),
    (OR_INT_LIT16, k22s, True, kNone, kContinue OR kOr OR kRegCFieldOrConstant, kVerifyRegA OR kVerifyRegB),
    (XOR_INT_LIT16, k22s, True, kNone, kContinue OR kXor OR kRegCFieldOrConstant, kVerifyRegA OR kVerifyRegB),
    (ADD_INT_LIT8, k22b, True, kNone, kContinue OR kAdd OR kRegCFieldOrConstant, kVerifyRegA OR kVerifyRegB),
    (RSUB_INT_LIT8, k22b, True, kNone, kContinue OR kSubtract OR kRegCFieldOrConstant, kVerifyRegA OR kVerifyRegB),
    (MUL_INT_LIT8, k22b, True, kNone, kContinue OR kMultiply OR kRegCFieldOrConstant, kVerifyRegA OR kVerifyRegB),
    (DIV_INT_LIT8, k22b, True, kNone, kContinue OR kThrow OR kDivide OR kRegCFieldOrConstant, kVerifyRegA OR kVerifyRegB),
    (REM_INT_LIT8, k22b, True, kNone, kContinue OR kThrow OR kRemainder OR kRegCFieldOrConstant, kVerifyRegA OR kVerifyRegB),
    (AND_INT_LIT8, k22b, True, kNone, kContinue OR kAnd OR kRegCFieldOrConstant, kVerifyRegA OR kVerifyRegB),
    (OR_INT_LIT8, k22b, True, kNone, kContinue OR kOr OR kRegCFieldOrConstant, kVerifyRegA OR kVerifyRegB),
    (XOR_INT_LIT8, k22b, True, kNone, kContinue OR kXor OR kRegCFieldOrConstant, kVerifyRegA OR kVerifyRegB),
    (SHL_INT_LIT8, k22b, True, kNone, kContinue OR kShl OR kRegCFieldOrConstant, kVerifyRegA OR kVerifyRegB),
    (SHR_INT_LIT8, k22b, True, kNone, kContinue OR kShr OR kRegCFieldOrConstant, kVerifyRegA OR kVerifyRegB),
    (USHR_INT_LIT8, k22b, True, kNone, kContinue OR kUshr OR kRegCFieldOrConstant, kVerifyRegA OR kVerifyRegB),
    (IGET_QUICK, k22c, True, kFieldRef, kContinue OR kThrow OR kLoad OR kRegCFieldOrConstant, kVerifyRegA OR kVerifyRegB OR kVerifyRuntimeOnly),
    (IGET_WIDE_QUICK, k22c, True, kFieldRef, kContinue OR kThrow OR kLoad OR kRegCFieldOrConstant, kVerifyRegAWide OR kVerifyRegB OR kVerifyRuntimeOnly),
    (IGET_OBJECT_QUICK, k22c, True, kFieldRef, kContinue OR kThrow OR kLoad OR kRegCFieldOrConstant, kVerifyRegA OR kVerifyRegB OR kVerifyRuntimeOnly),
    (IPUT_QUICK, k22c, False, kFieldRef, kContinue OR kThrow OR kStore OR kRegCFieldOrConstant, kVerifyRegA OR kVerifyRegB OR kVerifyRuntimeOnly),
    (IPUT_WIDE_QUICK, k22c, False, kFieldRef, kContinue OR kThrow OR kStore OR kRegCFieldOrConstant, kVerifyRegAWide OR kVerifyRegB OR kVerifyRuntimeOnly),
    (IPUT_OBJECT_QUICK, k22c, False, kFieldRef, kContinue OR kThrow OR kStore OR kRegCFieldOrConstant, kVerifyRegA OR kVerifyRegB OR kVerifyRuntimeOnly),
    (INVOKE_VIRTUAL_QUICK, k35c, False, kMethodRef, kContinue OR kThrow OR kInvoke, kVerifyVarArgNonZero OR kVerifyRuntimeOnly),
    (INVOKE_VIRTUAL_RANGE_QUICK, k3rc, False, kMethodRef, kContinue OR kThrow OR kInvoke, kVerifyVarArgRangeNonZero OR kVerifyRuntimeOnly),
    (IPUT_BOOLEAN_QUICK, k22c, False, kFieldRef, kContinue OR kThrow OR kStore OR kRegCFieldOrConstant, kVerifyRegA OR kVerifyRegB OR kVerifyRuntimeOnly),
    (IPUT_BYTE_QUICK, k22c, False, kFieldRef, kContinue OR kThrow OR kStore OR kRegCFieldOrConstant, kVerifyRegA OR kVerifyRegB OR kVerifyRuntimeOnly),
    (IPUT_CHAR_QUICK, k22c, False, kFieldRef, kContinue OR kThrow OR kStore OR kRegCFieldOrConstant, kVerifyRegA OR kVerifyRegB OR kVerifyRuntimeOnly),
    (IPUT_SHORT_QUICK, k22c, False, kFieldRef, kContinue OR kThrow OR kStore OR kRegCFieldOrConstant, kVerifyRegA OR kVerifyRegB OR kVerifyRuntimeOnly),
    (UNUSED_EF, k10x, False, kUnknown, 0, kVerifyError),
    (UNUSED_F0, k10x, False, kUnknown, 0, kVerifyError),
    (UNUSED_F1, k10x, False, kUnknown, 0, kVerifyError),
    (UNUSED_F2, k10x, False, kUnknown, 0, kVerifyError),
    (UNUSED_F3, k10x, False, kUnknown, 0, kVerifyError),
    (UNUSED_F4, k10x, False, kUnknown, 0, kVerifyError),
    (UNUSED_F5, k10x, False, kUnknown, 0, kVerifyError),
    (UNUSED_F6, k10x, False, kUnknown, 0, kVerifyError),
    (UNUSED_F7, k10x, False, kUnknown, 0, kVerifyError),
    (UNUSED_F8, k10x, False, kUnknown, 0, kVerifyError),
    (UNUSED_F9, k10x, False, kUnknown, 0, kVerifyError),
    (UNUSED_FA, k10x, False, kUnknown, 0, kVerifyError),
    (UNUSED_FB, k10x, False, kUnknown, 0, kVerifyError),
    (UNUSED_FC, k10x, False, kUnknown, 0, kVerifyError),
    (UNUSED_FD, k10x, False, kUnknown, 0, kVerifyError),
    (UNUSED_FE, k10x, False, kUnknown, 0, kVerifyError),
    (UNUSED_FF, k10x, False, kUnknown, 0, kVerifyError)]"

definition DEX_INSTRUCTION_LIST :: "dex_row list" where
  "DEX_INSTRUCTION_LIST = dex_instruction_list_low @ dex_instruction_list_high"

text \<open>The arrays of \<^verbatim>\<open>dex_instruction.cc\<close>.\<close>

definition kInstructionFormats :: "Format list" where
  "kInstructionFormats = map (\<lambda>(opcode, format, r, i, flags, vflags). format) DEX_INSTRUCTION_LIST"

definition kInstructionFlags :: "u32 list" where
  "kInstructionFlags = map (\<lambda>(opcode, format, r, i, flags, vflags). flags) DEX_INSTRUCTION_LIST"

definition kInstructionVerifyFlags :: "u32 list" where
  "kInstructionVerifyFlags = map (\<lambda>(opcode, format, r, i, flags, vflags). vflags) DEX_INSTRUCTION_LIST"

definition INSTRUCTION_SIZE :: "nat \<Rightarrow> Format \<Rightarrow> int" where
  "INSTRUCTION_SIZE opcode format =
     (if opcode = NOP then -1
      else if format \<ge> k10x \<and> format \<le> k10t then 1
      else if format \<ge> k20t \<and> format \<le> k22c then 2
      else if format \<ge> k32x \<and> format \<le> k3rc then 3
      else if format = k51l then 5 else -1)"

definition kInstructionSizeInCodeUnits :: "int list" where
  "kInstructionSizeInCodeUnits =
     map (\<lambda>(opcode, format, r, i, flags, vflags). INSTRUCTION_SIZE opcode format) DEX_INSTRUCTION_LIST"

end
