(* ===== verification/DexInstruction.thy ===== *)
theory DexInstruction
  imports DexOpcodes
begin

text \<open>
  \<^verbatim>\<open>class Instruction\<close> of \<^verbatim>\<open>runtime/dex_instruction.h\<close>, \<^verbatim>\<open>dex_instruction-inl.h\<close> and
  \<^verbatim>\<open>dex_instruction.cc\<close>: an instruction is read in place, through a pointer into the 16 bit code
  units of a method. The code units seen from such a pointer are a function of the (possibly
  negative) distance from it: C++ pointers into the instruction array give no bound either, and
  what lies outside the method is some memory. An operand accessor that takes the first code
  unit (\<^verbatim>\<open>inst_data\<close>) has only that argument; signed results are words read through \<^const>\<open>sint\<close>.
\<close>

type_synonym insn = "int \<Rightarrow> u16"

section \<open>Code units and opcode\<close>

definition RelativeAt :: "insn \<Rightarrow> int \<Rightarrow> insn" where
  "RelativeAt inst offset = (\<lambda>i. inst (offset + i))"

definition Fetch16 :: "insn \<Rightarrow> nat \<Rightarrow> u16" where
  "Fetch16 inst offset = inst (int offset)"

definition Fetch32 :: "insn \<Rightarrow> nat \<Rightarrow> u32" where
  "Fetch32 inst offset =
     ucast (Fetch16 inst offset) OR shl (ucast (Fetch16 inst (offset + 1))) 16"

definition Opcode :: "u16 \<Rightarrow> nat" where
  "Opcode inst_data = unat (inst_data AND 0xFF)"

definition InstA :: "u16 \<Rightarrow> u8" where
  "InstA inst_data = ucast (shr inst_data 8 AND 0x0f)"

definition InstB :: "u16 \<Rightarrow> u8" where
  "InstB inst_data = ucast (shr inst_data 12)"

definition InstAA :: "u16 \<Rightarrow> u8" where
  "InstAA inst_data = ucast (shr inst_data 8)"

definition FormatOf :: "nat \<Rightarrow> Format" where
  "FormatOf opcode = kInstructionFormats ! opcode"

definition FlagsOf :: "nat \<Rightarrow> u32" where
  "FlagsOf opcode = kInstructionFlags ! opcode"

definition VerifyFlagsOf :: "nat \<Rightarrow> u32" where
  "VerifyFlagsOf opcode = kInstructionVerifyFlags ! opcode"

definition IsBranch :: "insn \<Rightarrow> bool" where
  "IsBranch inst \<longleftrightarrow> FlagsOf (Opcode (Fetch16 inst 0)) AND kBranch \<noteq> 0"

definition IsUnconditional :: "insn \<Rightarrow> bool" where
  "IsUnconditional inst \<longleftrightarrow> FlagsOf (Opcode (Fetch16 inst 0)) AND kUnconditional \<noteq> 0"

definition CanFlowThrough :: "insn \<Rightarrow> bool" where
  "CanFlowThrough inst \<longleftrightarrow> FlagsOf (Opcode (Fetch16 inst 0)) AND kContinue \<noteq> 0"

definition IsSwitch :: "insn \<Rightarrow> bool" where
  "IsSwitch inst \<longleftrightarrow> FlagsOf (Opcode (Fetch16 inst 0)) AND kSwitch \<noteq> 0"

definition IsThrow :: "insn \<Rightarrow> bool" where
  "IsThrow inst \<longleftrightarrow> FlagsOf (Opcode (Fetch16 inst 0)) AND kThrow \<noteq> 0"

definition IsReturn :: "insn \<Rightarrow> bool" where
  "IsReturn inst \<longleftrightarrow> FlagsOf (Opcode (Fetch16 inst 0)) AND kReturn \<noteq> 0"

definition IsBasicBlockEnd :: "insn \<Rightarrow> bool" where
  "IsBasicBlockEnd inst \<longleftrightarrow> IsBranch inst \<or> IsReturn inst \<or> Opcode (Fetch16 inst 0) = THROW"

definition IsInvoke :: "insn \<Rightarrow> bool" where
  "IsInvoke inst \<longleftrightarrow> FlagsOf (Opcode (Fetch16 inst 0)) AND kInvoke \<noteq> 0"

section \<open>Operands\<close>

named_theorems dex_access \<open>definitions of the operand accessors\<close>

subsection \<open>vA\<close>

definition VRegA_10t :: "u16 \<Rightarrow> u8" where
  [dex_access]: "VRegA_10t inst_data = InstAA inst_data"

definition VRegA_10x :: "u16 \<Rightarrow> u8" where
  [dex_access]: "VRegA_10x inst_data = InstAA inst_data"

definition VRegA_11n :: "u16 \<Rightarrow> u8" where
  [dex_access]: "VRegA_11n inst_data = InstA inst_data"

definition VRegA_11x :: "u16 \<Rightarrow> u8" where
  [dex_access]: "VRegA_11x inst_data = InstAA inst_data"

definition VRegA_12x :: "u16 \<Rightarrow> u8" where
  [dex_access]: "VRegA_12x inst_data = InstA inst_data"

definition VRegA_20t :: "insn \<Rightarrow> u16" where
  [dex_access]: "VRegA_20t inst = Fetch16 inst 1"

definition VRegA_21c :: "u16 \<Rightarrow> u8" where
  [dex_access]: "VRegA_21c inst_data = InstAA inst_data"

definition VRegA_21h :: "u16 \<Rightarrow> u8" where
  [dex_access]: "VRegA_21h inst_data = InstAA inst_data"

definition VRegA_21s :: "u16 \<Rightarrow> u8" where
  [dex_access]: "VRegA_21s inst_data = InstAA inst_data"

definition VRegA_21t :: "u16 \<Rightarrow> u8" where
  [dex_access]: "VRegA_21t inst_data = InstAA inst_data"

definition VRegA_22b :: "u16 \<Rightarrow> u8" where
  [dex_access]: "VRegA_22b inst_data = InstAA inst_data"

definition VRegA_22c :: "u16 \<Rightarrow> u8" where
  [dex_access]: "VRegA_22c inst_data = InstA inst_data"

definition VRegA_22s :: "u16 \<Rightarrow> u8" where
  [dex_access]: "VRegA_22s inst_data = InstA inst_data"

definition VRegA_22t :: "u16 \<Rightarrow> u8" where
  [dex_access]: "VRegA_22t inst_data = InstA inst_data"

definition VRegA_22x :: "u16 \<Rightarrow> u8" where
  [dex_access]: "VRegA_22x inst_data = InstAA inst_data"

definition VRegA_23x :: "u16 \<Rightarrow> u8" where
  [dex_access]: "VRegA_23x inst_data = InstAA inst_data"

definition VRegA_30t :: "insn \<Rightarrow> u32" where
  [dex_access]: "VRegA_30t inst = Fetch32 inst 1"

definition VRegA_31c :: "u16 \<Rightarrow> u8" where
  [dex_access]: "VRegA_31c inst_data = InstAA inst_data"

definition VRegA_31i :: "u16 \<Rightarrow> u8" where
  [dex_access]: "VRegA_31i inst_data = InstAA inst_data"

definition VRegA_31t :: "u16 \<Rightarrow> u8" where
  [dex_access]: "VRegA_31t inst_data = InstAA inst_data"

definition VRegA_32x :: "insn \<Rightarrow> u16" where
  [dex_access]: "VRegA_32x inst = Fetch16 inst 1"

definition VRegA_35c :: "u16 \<Rightarrow> u8" where
  [dex_access]: "VRegA_35c inst_data = InstB inst_data"

definition VRegA_3rc :: "u16 \<Rightarrow> u8" where
  [dex_access]: "VRegA_3rc inst_data = InstAA inst_data"

definition VRegA_51l :: "u16 \<Rightarrow> u8" where
  [dex_access]: "VRegA_51l inst_data = InstAA inst_data"

subsection \<open>vB\<close>

definition VRegB_11n :: "u16 \<Rightarrow> u8" where
  [dex_access]: "VRegB_11n inst_data = ucast (sshr (shl (ucast (InstB inst_data) :: u32) 28) 28)"

definition VRegB_12x :: "u16 \<Rightarrow> u8" where
  [dex_access]: "VRegB_12x inst_data = InstB inst_data"

definition VRegB_21c :: "insn \<Rightarrow> u16" where
  [dex_access]: "VRegB_21c inst = Fetch16 inst 1"

definition VRegB_21h :: "insn \<Rightarrow> u16" where
  [dex_access]: "VRegB_21h inst = Fetch16 inst 1"

definition VRegB_21s :: "insn \<Rightarrow> u16" where
  [dex_access]: "VRegB_21s inst = Fetch16 inst 1"

definition VRegB_21t :: "insn \<Rightarrow> u16" where
  [dex_access]: "VRegB_21t inst = Fetch16 inst 1"

definition VRegB_22b :: "insn \<Rightarrow> u8" where
  [dex_access]: "VRegB_22b inst = ucast (Fetch16 inst 1 AND 0xff)"

definition VRegB_22c :: "u16 \<Rightarrow> u8" where
  [dex_access]: "VRegB_22c inst_data = InstB inst_data"

definition VRegB_22s :: "u16 \<Rightarrow> u8" where
  [dex_access]: "VRegB_22s inst_data = InstB inst_data"

definition VRegB_22t :: "u16 \<Rightarrow> u8" where
  [dex_access]: "VRegB_22t inst_data = InstB inst_data"

definition VRegB_22x :: "insn \<Rightarrow> u16" where
  [dex_access]: "VRegB_22x inst = Fetch16 inst 1"

definition VRegB_23x :: "insn \<Rightarrow> u8" where
  [dex_access]: "VRegB_23x inst = ucast (Fetch16 inst 1 AND 0xff)"

definition VRegB_31c :: "insn \<Rightarrow> u32" where
  [dex_access]: "VRegB_31c inst = Fetch32 inst 1"

definition VRegB_31i :: "insn \<Rightarrow> u32" where
  [dex_access]: "VRegB_31i inst = Fetch32 inst 1"

definition VRegB_31t :: "insn \<Rightarrow> u32" where
  [dex_access]: "VRegB_31t inst = Fetch32 inst 1"

definition VRegB_32x :: "insn \<Rightarrow> u16" where
  [dex_access]: "VRegB_32x inst = Fetch16 inst 2"

definition VRegB_35c :: "insn \<Rightarrow> u16" where
  [dex_access]: "VRegB_35c inst = Fetch16 inst 1"

definition VRegB_3rc :: "insn \<Rightarrow> u16" where
  [dex_access]: "VRegB_3rc inst = Fetch16 inst 1"

definition VRegB_51l :: "insn \<Rightarrow> u64" where
  [dex_access]: "VRegB_51l inst = ucast (Fetch32 inst 1) OR shl (ucast (Fetch32 inst 3)) 32"

subsection \<open>vC\<close>

definition VRegC_22b :: "insn \<Rightarrow> u8" where
  [dex_access]: "VRegC_22b inst = ucast (shr (Fetch16 inst 1) 8)"

definition VRegC_22c :: "insn \<Rightarrow> u16" where
  [dex_access]: "VRegC_22c inst = Fetch16 inst 1"

definition VRegC_22s :: "insn \<Rightarrow> u16" where
  [dex_access]: "VRegC_22s inst = Fetch16 inst 1"

definition VRegC_22t :: "insn \<Rightarrow> u16" where
  [dex_access]: "VRegC_22t inst = Fetch16 inst 1"

definition VRegC_23x :: "insn \<Rightarrow> u8" where
  [dex_access]: "VRegC_23x inst = ucast (shr (Fetch16 inst 1) 8)"

definition VRegC_35c :: "insn \<Rightarrow> u8" where
  [dex_access]: "VRegC_35c inst = ucast (Fetch16 inst 2 AND 0x0f)"

definition VRegC_3rc :: "insn \<Rightarrow> u16" where
  [dex_access]: "VRegC_3rc inst = Fetch16 inst 2"

definition HasVRegA :: "insn \<Rightarrow> bool" where
  "HasVRegA inst = (case FormatOf (Opcode (Fetch16 inst 0)) of
     k10x \<Rightarrow> True
   | k12x \<Rightarrow> True
   | k11n \<Rightarrow> True
   | k11x \<Rightarrow> True
   | k10t \<Rightarrow> True
   | k20t \<Rightarrow> True
   | k22x \<Rightarrow> True
   | k21t \<Rightarrow> True
   | k21s \<Rightarrow> True
   | k21h \<Rightarrow> True
   | k21c \<Rightarrow> True
   | k23x \<Rightarrow> True
   | k22b \<Rightarrow> True
   | k22t \<Rightarrow> True
   | k22s \<Rightarrow> True
   | k22c \<Rightarrow> True
   | k32x \<Rightarrow> True
   | k30t \<Rightarrow> True
   | k31t \<Rightarrow> True
   | k31i \<Rightarrow> True
   | k31c \<Rightarrow> True
   | k35c \<Rightarrow> True
   | k3rc \<Rightarrow> True
   | k51l \<Rightarrow> True)"

text \<open>Asking for an operand the format does not have is fatal: \<^term>\<open>None\<close>.\<close>

definition VRegA :: "insn \<Rightarrow> int option" where
  "VRegA inst = (case FormatOf (Opcode (Fetch16 inst 0)) of
     k10x \<Rightarrow> Some (uint (VRegA_10x (Fetch16 inst 0)))
   | k12x \<Rightarrow> Some (uint (VRegA_12x (Fetch16 inst 0)))
   | k11n \<Rightarrow> Some (uint (VRegA_11n (Fetch16 inst 0)))
   | k11x \<Rightarrow> Some (uint (VRegA_11x (Fetch16 inst 0)))
   | k10t \<Rightarrow> Some (sint (VRegA_10t (Fetch16 inst 0)))
   | k20t \<Rightarrow> Some (sint (VRegA_20t inst))
   | k22x \<Rightarrow> Some (uint (VRegA_22x (Fetch16 inst 0)))
   | k21t \<Rightarrow> Some (uint (VRegA_21t (Fetch16 inst 0)))
   | k21s \<Rightarrow> Some (uint (VRegA_21s (Fetch16 inst 0)))
   | k21h \<Rightarrow> Some (uint (VRegA_21h (Fetch16 inst 0)))
   | k21c \<Rightarrow> Some (uint (VRegA_21c (Fetch16 inst 0)))
   | k23x \<Rightarrow> Some (uint (VRegA_23x (Fetch16 inst 0)))
   | k22b \<Rightarrow> Some (uint (VRegA_22b (Fetch16 inst 0)))
   | k22t \<Rightarrow> Some (uint (VRegA_22t (Fetch16 inst 0)))
   | k22s \<Rightarrow> Some (uint (VRegA_22s (Fetch16 inst 0)))
   | k22c \<Rightarrow> Some (uint (VRegA_22c (Fetch16 inst 0)))
   | k32x \<Rightarrow> Some (uint (VRegA_32x inst))
   | k30t \<Rightarrow> Some (sint (VRegA_30t inst))
   | k31t \<Rightarrow> Some (uint (VRegA_31t (Fetch16 inst 0)))
   | k31i \<Rightarrow> Some (uint (VRegA_31i (Fetch16 inst 0)))
   | k31c \<Rightarrow> Some (uint (VRegA_31c (Fetch16 inst 0)))
   | k35c \<Rightarrow> Some (uint (VRegA_35c (Fetch16 inst 0)))
   | k3rc \<Rightarrow> Some (uint (VRegA_3rc (Fetch16 inst 0)))
   | k51l \<Rightarrow> Some (uint (VRegA_51l (Fetch16 inst 0))))"

definition HasVRegB :: "insn \<Rightarrow> bool" where
  "HasVRegB inst = (case FormatOf (Opcode (Fetch16 inst 0)) of
     k12x \<Rightarrow> True
   | k11n \<Rightarrow> True
   | k22x \<Rightarrow> True
   | k21t \<Rightarrow> True
   | k21s \<Rightarrow> True
   | k21h \<Rightarrow> True
   | k21c \<Rightarrow> True
   | k23x \<Rightarrow> True
   | k22b \<Rightarrow> True
   | k22t \<Rightarrow> True
   | k22s \<Rightarrow> True
   | k22c \<Rightarrow> True
   | k32x \<Rightarrow> True
   | k31t \<Rightarrow> True
   | k31i \<Rightarrow> True
   | k31c \<Rightarrow> True
   | k35c \<Rightarrow> True
   | k3rc \<Rightarrow> True
   | k51l \<Rightarrow> True
   | _ \<Rightarrow> False)"

definition VRegB :: "insn \<Rightarrow> int option" where
  "VRegB inst = (case FormatOf (Opcode (Fetch16 inst 0)) of
     k12x \<Rightarrow> Some (uint (VRegB_12x (Fetch16 inst 0)))
   | k11n \<Rightarrow> Some (sint (VRegB_11n (Fetch16 inst 0)))
   | k22x \<Rightarrow> Some (uint (VRegB_22x inst))
   | k21t \<Rightarrow> Some (sint (VRegB_21t inst))
   | k21s \<Rightarrow> Some (sint (VRegB_21s inst))
   | k21h \<Rightarrow> Some (uint (VRegB_21h inst))
   | k21c \<Rightarrow> Some (uint (VRegB_21c inst))
   | k23x \<Rightarrow> Some (uint (VRegB_23x inst))
   | k22b \<Rightarrow> Some (uint (VRegB_22b inst))
   | k22t \<Rightarrow> Some (uint (VRegB_22t (Fetch16 inst 0)))
   | k22s \<Rightarrow> Some (uint (VRegB_22s (Fetch16 inst 0)))
   | k22c \<Rightarrow> Some (uint (VRegB_22c (Fetch16 inst 0)))
   | k32x \<Rightarrow> Some (uint (VRegB_32x inst))
   | k31t \<Rightarrow> Some (sint (VRegB_31t inst))
   | k31i \<Rightarrow> Some (sint (VRegB_31i inst))
   | k31c \<Rightarrow> Some (sint (VRegB_31c inst))
   | k35c \<Rightarrow> Some (uint (VRegB_35c inst))
   | k3rc \<Rightarrow> Some (uint (VRegB_3rc inst))
   | k51l \<Rightarrow> Some (sint (ucast (VRegB_51l inst) :: u32))
   | _ \<Rightarrow> None)"

definition HasVRegC :: "insn \<Rightarrow> bool" where
  "HasVRegC inst = (case FormatOf (Opcode (Fetch16 inst 0)) of
     k23x \<Rightarrow> True
   | k22b \<Rightarrow> True
   | k22t \<Rightarrow> True
   | k22s \<Rightarrow> True
   | k22c \<Rightarrow> True
   | k35c \<Rightarrow> True
   | k3rc \<Rightarrow> True
   | _ \<Rightarrow> False)"

definition VRegC :: "insn \<Rightarrow> int option" where
  "VRegC inst = (case FormatOf (Opcode (Fetch16 inst 0)) of
     k23x \<Rightarrow> Some (uint (VRegC_23x inst))
   | k22b \<Rightarrow> Some (sint (VRegC_22b inst))
   | k22t \<Rightarrow> Some (sint (VRegC_22t inst))
   | k22s \<Rightarrow> Some (sint (VRegC_22s inst))
   | k22c \<Rightarrow> Some (uint (VRegC_22c inst))
   | k35c \<Rightarrow> Some (uint (VRegC_35c inst))
   | k3rc \<Rightarrow> Some (uint (VRegC_3rc inst))
   | _ \<Rightarrow> None)"

definition HasWideVRegB :: "insn \<Rightarrow> bool" where
  "HasWideVRegB inst \<longleftrightarrow> FormatOf (Opcode (Fetch16 inst 0)) = k51l"

definition WideVRegB :: "insn \<Rightarrow> u64" where
  "WideVRegB inst = VRegB_51l inst"

definition HasVarArgs :: "insn \<Rightarrow> bool" where
  "HasVarArgs inst \<longleftrightarrow> FormatOf (Opcode (Fetch16 inst 0)) = k35c"

text \<open>
  \<open>GetVarArgs\<close> stores into an array of five registers; the switch falls through from the case
  of the count down to the first argument, and a count above five stores nothing.
\<close>

definition GetVarArgs :: "u32 list \<Rightarrow> insn \<Rightarrow> u16 \<Rightarrow> u32 list" where
  "GetVarArgs arg inst inst_data =
     (let regList = Fetch16 inst 2;
          count = InstB inst_data;
          arg4 = (\<lambda>a. a[4 := ucast (InstA inst_data)]);
          arg3 = (\<lambda>a. a[3 := ucast (shr regList 12 AND 0x0f)]);
          arg2 = (\<lambda>a. a[2 := ucast (shr regList 8 AND 0x0f)]);
          arg1 = (\<lambda>a. a[1 := ucast (shr regList 4 AND 0x0f)]);
          arg0 = (\<lambda>a. a[0 := ucast (regList AND 0x0f)])
      in if count = 5 then arg0 (arg1 (arg2 (arg3 (arg4 arg))))
         else if count = 4 then arg0 (arg1 (arg2 (arg3 arg)))
         else if count = 3 then arg0 (arg1 (arg2 arg))
         else if count = 2 then arg0 (arg1 arg)
         else if count = 1 then arg0 arg
         else arg)"

section \<open>Branch targets and sizes\<close>

definition GetTargetOffset :: "insn \<Rightarrow> int option" where
  "GetTargetOffset inst = (case FormatOf (Opcode (Fetch16 inst 0)) of
     k22t \<Rightarrow> Some (sint (VRegC_22t inst))
   | k21t \<Rightarrow> Some (sint (VRegB_21t inst))
   | k10t \<Rightarrow> Some (sint (VRegA_10t (Fetch16 inst 0)))
   | k20t \<Rightarrow> Some (sint (VRegA_20t inst))
   | k30t \<Rightarrow> Some (sint (VRegA_30t inst))
   | _ \<Rightarrow> None)"

abbreviation (input) kPackedSwitchSignature :: u16 where "kPackedSwitchSignature \<equiv> 0x0100"
abbreviation (input) kSparseSwitchSignature :: u16 where "kSparseSwitchSignature \<equiv> 0x0200"
abbreviation (input) kArrayDataSignature :: u16 where "kArrayDataSignature \<equiv> 0x0300"

text \<open>
  The size of the payload pseudo-instructions; the array size is computed in
  \<^verbatim>\<open>uint32_t\<close>, so it wraps. \<^term>\<open>None\<close> is the fatal branch.
\<close>

definition SizeInCodeUnitsComplexOpcode :: "insn \<Rightarrow> nat option" where
  "SizeInCodeUnitsComplexOpcode inst =
     (if inst 0 = kPackedSwitchSignature then Some (4 + unat (inst 1) * 2)
      else if inst 0 = kSparseSwitchSignature then Some (2 + unat (inst 1) * 4)
      else if inst 0 = kArrayDataSignature then
        (let element_size = (ucast (inst 1) :: u32);
             length = (ucast (inst 2) OR shl (ucast (inst 3)) 16 :: u32)
         in Some (unat (4 + (element_size * length + 1) div 2)))
      else if inst 0 AND 0xFF = 0 then Some 1
      else None)"

definition SizeInCodeUnits :: "insn \<Rightarrow> nat option" where
  "SizeInCodeUnits inst =
     (let result = kInstructionSizeInCodeUnits ! Opcode (Fetch16 inst 0)
      in if result < 0 then SizeInCodeUnitsComplexOpcode inst else Some (nat result))"

definition Next :: "insn \<Rightarrow> insn option" where
  "Next inst = map_option (\<lambda>n. RelativeAt inst (int n)) (SizeInCodeUnits inst)"

section \<open>Rewriting instructions in place\<close>

definition SetOpcode :: "insn \<Rightarrow> nat \<Rightarrow> insn" where
  "SetOpcode inst opcode = inst(0 := (inst 0 AND 0xff00) OR of_nat opcode)"

definition SetVRegA_10x :: "insn \<Rightarrow> u8 \<Rightarrow> insn" where
  "SetVRegA_10x inst val = inst(0 := shl (ucast val) 8 OR (inst 0 AND 0x00ff))"

definition SetVRegB_3rc :: "insn \<Rightarrow> u16 \<Rightarrow> insn" where
  "SetVRegB_3rc inst val = inst(1 := val)"

definition SetVRegB_35c :: "insn \<Rightarrow> u16 \<Rightarrow> insn" where
  "SetVRegB_35c inst val = inst(1 := val)"

definition SetVRegC_22c :: "insn \<Rightarrow> u16 \<Rightarrow> insn" where
  "SetVRegC_22c inst val = inst(1 := val)"

section \<open>The opcode table\<close>

text \<open>Row \<open>i\<close> of the table describes opcode \<open>i\<close>, so that the arrays built from it can be indexed.\<close>

lemma opcode_column: "map fst DEX_INSTRUCTION_LIST = [0..<256]"
  by code_simp

lemma opcode_table_length: "length DEX_INSTRUCTION_LIST = 256"
  using arg_cong [OF opcode_column, of length] by simp

lemma opcode_row:
  assumes "(op, row) \<in> set DEX_INSTRUCTION_LIST"
  shows "op < 256 \<and> DEX_INSTRUCTION_LIST ! op = (op, row)"
proof -
  from assms obtain i where i: "i < length DEX_INSTRUCTION_LIST" "DEX_INSTRUCTION_LIST ! i = (op, row)"
    by (auto simp: in_set_conv_nth)
  have "fst (DEX_INSTRUCTION_LIST ! i) = [0..<256] ! i"
    using i(1) by (simp flip: opcode_column)
  with i opcode_table_length show ?thesis by simp
qed

lemma opcode_row_exists:
  assumes "op < 256"
  obtains format r i flags vflags
  where "(op, format, r, i, flags, vflags) \<in> set DEX_INSTRUCTION_LIST"
proof -
  have "fst (DEX_INSTRUCTION_LIST ! op) = [0..<256] ! op"
    using assms opcode_table_length by (simp flip: opcode_column)
  moreover have "DEX_INSTRUCTION_LIST ! op \<in> set DEX_INSTRUCTION_LIST"
    using assms opcode_table_length by simp
  ultimately show thesis using assms that by (cases "DEX_INSTRUCTION_LIST ! op") force
qed

lemma opcode_lookups:
  assumes "(op, format, r, i, flags, vflags) \<in> set DEX_INSTRUCTION_LIST"
  shows "FormatOf op = format" "FlagsOf op = flags" "VerifyFlagsOf op = vflags"
    "kInstructionSizeInCodeUnits ! op = INSTRUCTION_SIZE op format"
  using opcode_row [OF assms] opcode_table_length
  by (simp_all add: FormatOf_def FlagsOf_def VerifyFlagsOf_def kInstructionFormats_def
      kInstructionFlags_def kInstructionVerifyFlags_def kInstructionSizeInCodeUnits_def)

lemma Opcode_less: "Opcode inst_data < 256"
proof -
  have "inst_data AND 0xFF = take_bit 8 inst_data"
    by (rule bit_word_eqI) (auto simp: bit_simps word_bits)
  then have "Opcode inst_data = take_bit 8 (unat inst_data)"
    by (simp only: Opcode_def unsigned_take_bit_eq)
  then show ?thesis using take_bit_nat_less_exp [of 8 "unat inst_data"] by simp
qed

lemma INSTRUCTION_SIZE_pos: "op \<noteq> NOP \<Longrightarrow> 0 < INSTRUCTION_SIZE op format"
  by (cases format) (simp_all add: INSTRUCTION_SIZE_def less_eq_Format_def less_Format_def)

text \<open>What a property of all rows says of an arbitrary instruction.\<close>

lemma opcode_rows_imp:
  assumes "list_all (\<lambda>(op, format, r, i, flags, vflags). P op format flags vflags) DEX_INSTRUCTION_LIST"
    and "op < 256"
  shows "P op (FormatOf op) (FlagsOf op) (VerifyFlagsOf op)"
proof -
  obtain format r i flags vflags
    where row: "(op, format, r, i, flags, vflags) \<in> set DEX_INSTRUCTION_LIST"
    using opcode_row_exists [OF assms(2)] .
  with assms(1) have "P op format flags vflags" by (auto simp: list_all_iff)
  with opcode_lookups [OF row] show ?thesis by simp
qed

subsection \<open>Opcodes that continue and opcodes that throw\<close>

definition next_row :: "nat \<Rightarrow> nat \<Rightarrow> bool" where
  "next_row op n \<longleftrightarrow> FlagsOf op AND kContinue \<noteq> 0 \<and>
     (op \<noteq> NOP \<longrightarrow> kInstructionSizeInCodeUnits ! op = int n)"

definition throw_row :: "nat \<Rightarrow> bool" where
  "throw_row op \<longleftrightarrow> FlagsOf op AND kThrow \<noteq> 0"

definition next_rows :: "(nat \<times> nat) list" where
  "next_rows = [(opcode, if opcode = NOP then 1 else nat (INSTRUCTION_SIZE opcode format)).
     (opcode, format, r, i, flags, vflags) \<leftarrow> DEX_INSTRUCTION_LIST, flags AND kContinue \<noteq> 0]"

definition throw_rows :: "nat list" where
  "throw_rows = [opcode.
     (opcode, format, r, i, flags, vflags) \<leftarrow> DEX_INSTRUCTION_LIST, flags AND kThrow \<noteq> 0]"

lemma next_rows_sound: "list_all (\<lambda>(op, n). next_row op n) next_rows"
  unfolding list_all_iff
proof (safe)
  fix op n assume "(op, n) \<in> set next_rows"
  then obtain format r i flags vflags
    where row: "(op, format, r, i, flags, vflags) \<in> set DEX_INSTRUCTION_LIST"
      and *: "flags AND kContinue \<noteq> 0" "n = (if op = NOP then 1 else nat (INSTRUCTION_SIZE op format))"
    by (auto simp: next_rows_def split: if_splits)
  show "next_row op n"
    using * opcode_lookups [OF row] INSTRUCTION_SIZE_pos [of op format]
    by (cases "op = NOP") (simp_all add: next_row_def)
qed

lemma throw_rows_sound: "list_all throw_row throw_rows"
  unfolding list_all_iff
proof (safe)
  fix op assume "op \<in> set throw_rows"
  then obtain format r i flags vflags
    where row: "(op, format, r, i, flags, vflags) \<in> set DEX_INSTRUCTION_LIST"
      and *: "flags AND kThrow \<noteq> 0"
    by (auto simp: throw_rows_def split: if_splits)
  show "throw_row op" using * opcode_lookups [OF row] by (simp add: throw_row_def)
qed

lemma next_rows_explicit: "next_rows =
     [(0, 1), (1, 1), (2, 2), (3, 3), (4, 1), (5, 2), (6, 3), (7, 1), (8, 2), (9, 3), (10, 1), (11,
     1), (12, 1), (13, 1), (18, 1), (19, 2), (20, 3), (21, 2), (22, 2), (23, 3), (24, 5), (25, 2),
     (26, 2), (27, 3), (28, 2), (29, 1), (30, 1), (31, 2), (32, 2), (33, 1), (34, 2), (35, 2), (36,
     3), (37, 3), (38, 3), (43, 3), (44, 3), (45, 2), (46, 2), (47, 2), (48, 2), (49, 2), (50, 2),
     (51, 2), (52, 2), (53, 2), (54, 2), (55, 2), (56, 2), (57, 2), (58, 2), (59, 2), (60, 2), (61,
     2), (68, 2), (69, 2), (70, 2), (71, 2), (72, 2), (73, 2), (74, 2), (75, 2), (76, 2), (77, 2),
     (78, 2), (79, 2), (80, 2), (81, 2), (82, 2), (83, 2), (84, 2), (85, 2), (86, 2), (87, 2), (88,
     2), (89, 2), (90, 2), (91, 2), (92, 2), (93, 2), (94, 2), (95, 2), (96, 2), (97, 2), (98, 2),
     (99, 2), (100, 2), (101, 2), (102, 2), (103, 2), (104, 2), (105, 2), (106, 2), (107, 2), (108,
     2), (109, 2), (110, 3), (111, 3), (112, 3), (113, 3), (114, 3), (116, 3), (117, 3), (118, 3),
     (119, 3), (120, 3), (123, 1), (124, 1), (125, 1), (126, 1), (127, 1), (128, 1), (129, 1), (130,
     1), (131, 1), (132, 1), (133, 1), (134, 1), (135, 1), (136, 1), (137, 1), (138, 1), (139, 1),
     (140, 1), (141, 1), (142, 1), (143, 1), (144, 2), (145, 2), (146, 2), (147, 2), (148, 2), (149,
     2), (150, 2), (151, 2), (152, 2), (153, 2), (154, 2), (155, 2), (156, 2), (157, 2), (158, 2),
     (159, 2), (160, 2), (161, 2), (162, 2), (163, 2), (164, 2), (165, 2), (166, 2), (167, 2), (168,
     2), (169, 2), (170, 2), (171, 2), (172, 2), (173, 2), (174, 2), (175, 2), (176, 1), (177, 1),
     (178, 1), (179, 1), (180, 1), (181, 1), (182, 1), (183, 1), (184, 1), (185, 1), (186, 1), (187,
     1), (188, 1), (189, 1), (190, 1), (191, 1), (192, 1), (193, 1), (194, 1), (195, 1), (196, 1),
     (197, 1), (198, 1), (199, 1), (200, 1), (201, 1), (202, 1), (203, 1), (204, 1), (205, 1), (206,
     1), (207, 1), (208, 2), (209, 2), (210, 2), (211, 2), (212, 2), (213, 2), (214, 2), (215, 2),
     (216, 2), (217, 2), (218, 2), (219, 2), (220, 2), (221, 2), (222, 2), (223, 2), (224, 2), (225,
     2), (226, 2), (227, 2), (228, 2), (229, 2), (230, 2), (231, 2), (232, 2), (233, 3), (234, 3),
     (235, 2), (236, 2), (237, 2), (238, 2)]"
  by code_simp

lemma throw_rows_explicit: "throw_rows =
     [26, 27, 28, 29, 30, 31, 32, 33, 34, 35, 36, 37, 38, 39, 68, 69, 70, 71, 72, 73, 74, 75, 76,
     77, 78, 79, 80, 81, 82, 83, 84, 85, 86, 87, 88, 89, 90, 91, 92, 93, 94, 95, 96, 97, 98, 99,
     100, 101, 102, 103, 104, 105, 106, 107, 108, 109, 110, 111, 112, 113, 114, 116, 117, 118, 119,
     120, 147, 148, 158, 159, 179, 180, 190, 191, 211, 212, 219, 220, 227, 228, 229, 230, 231, 232,
     233, 234, 235, 236, 237, 238]"
  by code_simp

lemmas next_row_facts = next_rows_sound [unfolded next_rows_explicit list.pred_inject prod.case]
lemmas throw_row_facts = throw_rows_sound [unfolded throw_rows_explicit list.pred_inject]

section \<open>Properties\<close>

text \<open>The first digit of a format is its number of code units.\<close>

fun format_units :: "Format \<Rightarrow> nat" where
  "format_units k51l = 5"
| "format_units f = (if f \<in> {k10x, k12x, k11n, k11x, k10t} then 1
     else if f \<in> {k32x, k30t, k31t, k31i, k31c, k35c, k3rc} then 3 else 2)"

lemma INSTRUCTION_SIZE_units: "op \<noteq> NOP \<Longrightarrow> INSTRUCTION_SIZE op format = int (format_units format)"
  by (cases format) (simp_all add: INSTRUCTION_SIZE_def less_eq_Format_def less_Format_def)

text \<open>The size of every instruction other than the \<^verbatim>\<open>nop\<close> family, which the code takes from ranges
  of the format enumeration, is the number of code units that its format declares.\<close>
theorem size_is_format_size:
  assumes "Opcode (Fetch16 inst 0) \<noteq> NOP"
  shows "SizeInCodeUnits inst = Some (format_units (FormatOf (Opcode (Fetch16 inst 0))))"
proof -
  obtain format r i flags vflags
    where row: "(Opcode (Fetch16 inst 0), format, r, i, flags, vflags) \<in> set DEX_INSTRUCTION_LIST"
    using opcode_row_exists [OF Opcode_less] .
  show ?thesis
    using opcode_lookups [OF row] INSTRUCTION_SIZE_units [OF assms] by (simp add: SizeInCodeUnits_def)
qed

theorem size_is_format_size_witness:
  "SizeInCodeUnits (\<lambda>_. 0x5418) = Some (format_units (FormatOf (Opcode 0x5418)))"
  using size_is_format_size [of "\<lambda>_. 0x5418"] by (simp add: Fetch16_def Opcode_def)

lemma branch_formats:
  "list_all (\<lambda>(op, format, r, i, flags, vflags). (flags AND kBranch \<noteq> 0) =
     (format \<in> {k10t, k20t, k30t, k21t, k22t})) DEX_INSTRUCTION_LIST"
  by code_simp

lemma branch_target_iff: "IsBranch inst \<longleftrightarrow> GetTargetOffset inst \<noteq> None"
  using opcode_rows_imp [OF branch_formats Opcode_less, of "Fetch16 inst 0"]
  by (simp add: IsBranch_def GetTargetOffset_def split: Format.split)

text \<open>An instruction has a branch target exactly when the opcode table marks it as a branch.\<close>
theorem branch_has_target:
  "IsBranch inst \<longleftrightarrow> (\<exists>offset. GetTargetOffset inst = Some offset)"
  by (simp add: branch_target_iff)

lemma replace_low_byte:
  fixes u w :: u16
  assumes "unat w < 2 ^ 8"
  shows "((u AND 0xff00) OR w) AND 0xff = w" "shr ((u AND 0xff00) OR w) 8 = shr u 8"
    "shr ((u AND 0xff00) OR w) 12 = shr u 12"
proof -
  have *: "i < 8" if "bit w i" for i
    using assms that unfolding less_exp_iff_bits by (meson not_le)
  show "((u AND 0xff00) OR w) AND 0xff = w" "shr ((u AND 0xff00) OR w) 8 = shr u 8"
    "shr ((u AND 0xff00) OR w) 12 = shr u 12"
    by (rule bit_word_eqI; auto simp: bit_simps word_bits dest: * bit_imp_le_length)+
qed

text \<open>Rewriting a field access in place, as the dex-to-dex compiler does with \<^verbatim>\<open>SetOpcode\<close> and
  \<^verbatim>\<open>SetVRegC_22c\<close>, changes the opcode and the third operand and nothing else: the two register
  operands and all later code units stay.\<close>
theorem rewrite_22c:
  assumes "op < 256"
  shows "let inst' = SetVRegC_22c (SetOpcode inst op) val in
     Opcode (Fetch16 inst' 0) = op \<and> VRegC_22c inst' = val \<and>
     VRegA_22c (Fetch16 inst' 0) = VRegA_22c (Fetch16 inst 0) \<and>
     VRegB_22c (Fetch16 inst' 0) = VRegB_22c (Fetch16 inst 0) \<and>
     (\<forall>i. i \<noteq> 0 \<and> i \<noteq> 1 \<longrightarrow> inst' i = inst i)"
proof -
  have op: "unat (of_nat op :: u16) = op" using assms by (simp add: unsigned_of_nat take_bit_nat_eq_self)
  then have low: "unat (of_nat op :: u16) < 2 ^ 8" using assms by simp
  show ?thesis
    using replace_low_byte [OF low, of "inst 0"] op
    by (simp add: Let_def SetVRegC_22c_def SetOpcode_def Fetch16_def Opcode_def dex_access
        InstA_def InstB_def)
qed

theorem rewrite_22c_witness:
  "let inst' = SetVRegC_22c (SetOpcode (\<lambda>_. 0x2154) IGET_OBJECT_QUICK) 12 in
     Opcode (Fetch16 inst' 0) = IGET_OBJECT_QUICK \<and> VRegC_22c inst' = 12 \<and>
     VRegA_22c (Fetch16 inst' 0) = VRegA_22c 0x2154 \<and> inst' 7 = 0x2154"
  using rewrite_22c [of IGET_OBJECT_QUICK "\<lambda>_. 0x2154" 12] by (simp add: Let_def Fetch16_def)

end
