(* ===== verification/ShadowFrame.thy ===== *)
theory ShadowFrame
  imports ART_Prelude "HOL-Library.Monad_Syntax"
begin

text \<open>
  \<^verbatim>\<open>class ShadowFrame\<close> of \<^verbatim>\<open>runtime/stack.h\<close>, the register file of an interpreted method, in the
  layout of the interpreter: one 32 bit word per virtual register and, behind them, one object
  reference per virtual register. References are the 32 bit compressed pointers of
  \<^verbatim>\<open>StackReference\<close>, null being 0. A register number outside the frame violates the \<^verbatim>\<open>DCHECK_LT\<close> of
  the accessor and is \<^term>\<open>None\<close>; so is a 64 bit access that starts at the last register, whose
  upper half lies outside the register array.
\<close>

record shadow_frame =
  vregs :: "u32 list"
  references :: "u32 list"
  frame_dex_pc :: u32

definition NumberOfVRegs :: "shadow_frame \<Rightarrow> nat" where
  "NumberOfVRegs sf = length (vregs sf)"

definition create_frame :: "nat \<Rightarrow> u32 \<Rightarrow> shadow_frame" where
  "create_frame num_vregs dex_pc =
     \<lparr>vregs = replicate num_vregs 0, references = replicate num_vregs 0, frame_dex_pc = dex_pc\<rparr>"

definition GetDexPC :: "shadow_frame \<Rightarrow> u32" where
  "GetDexPC sf = frame_dex_pc sf"

definition SetDexPC :: "shadow_frame \<Rightarrow> u32 \<Rightarrow> shadow_frame" where
  "SetDexPC sf dex_pc = sf\<lparr>frame_dex_pc := dex_pc\<rparr>"

section \<open>Reading\<close>

definition GetVReg :: "shadow_frame \<Rightarrow> nat \<Rightarrow> u32 option" where
  "GetVReg sf i = (if i < NumberOfVRegs sf then Some (vregs sf ! i) else None)"

text \<open>A \<^verbatim>\<open>float\<close> is its bit pattern, so \<^verbatim>\<open>GetVRegFloat\<close> reads the same word.\<close>

definition GetVRegFloat :: "shadow_frame \<Rightarrow> nat \<Rightarrow> u32 option" where
  "GetVRegFloat sf i = (if i < NumberOfVRegs sf then Some (vregs sf ! i) else None)"

definition GetVRegLong :: "shadow_frame \<Rightarrow> nat \<Rightarrow> u64 option" where
  "GetVRegLong sf i =
     (if Suc i < NumberOfVRegs sf
      then Some (ucast (vregs sf ! i) OR shl (ucast (vregs sf ! Suc i)) 32) else None)"

definition GetVRegDouble :: "shadow_frame \<Rightarrow> nat \<Rightarrow> u64 option" where
  "GetVRegDouble sf i =
     (if Suc i < NumberOfVRegs sf
      then Some (ucast (vregs sf ! i) OR shl (ucast (vregs sf ! Suc i)) 32) else None)"

definition GetVRegReference :: "shadow_frame \<Rightarrow> nat \<Rightarrow> u32 option" where
  "GetVRegReference sf i = (if i < NumberOfVRegs sf then Some (references sf ! i) else None)"

section \<open>Writing\<close>

text \<open>
  \<^verbatim>\<open>kMovingCollector\<close> holds in the configurations with a reference array, so a write of a
  primitive value clears the reference of the register.
\<close>

definition SetVReg :: "shadow_frame \<Rightarrow> nat \<Rightarrow> u32 \<Rightarrow> shadow_frame option" where
  "SetVReg sf i val =
     (if i < NumberOfVRegs sf
      then Some (sf\<lparr>vregs := (vregs sf)[i := val], references := (references sf)[i := 0]\<rparr>)
      else None)"

definition SetVRegFloat :: "shadow_frame \<Rightarrow> nat \<Rightarrow> u32 \<Rightarrow> shadow_frame option" where
  "SetVRegFloat sf i val =
     (if i < NumberOfVRegs sf
      then Some (sf\<lparr>vregs := (vregs sf)[i := val], references := (references sf)[i := 0]\<rparr>)
      else None)"

definition SetVRegLong :: "shadow_frame \<Rightarrow> nat \<Rightarrow> u64 \<Rightarrow> shadow_frame option" where
  "SetVRegLong sf i val =
     (if Suc i < NumberOfVRegs sf
      then Some (sf\<lparr>vregs := (vregs sf)[i := ucast val, Suc i := ucast (shr val 32)],
                    references := (references sf)[i := 0, Suc i := 0]\<rparr>)
      else None)"

definition SetVRegDouble :: "shadow_frame \<Rightarrow> nat \<Rightarrow> u64 \<Rightarrow> shadow_frame option" where
  "SetVRegDouble sf i val =
     (if Suc i < NumberOfVRegs sf
      then Some (sf\<lparr>vregs := (vregs sf)[i := ucast val, Suc i := ucast (shr val 32)],
                    references := (references sf)[i := 0, Suc i := 0]\<rparr>)
      else None)"

definition SetVRegReference :: "shadow_frame \<Rightarrow> nat \<Rightarrow> u32 \<Rightarrow> shadow_frame option" where
  "SetVRegReference sf i val =
     (if i < NumberOfVRegs sf
      then Some (sf\<lparr>vregs := (vregs sf)[i := val], references := (references sf)[i := val]\<rparr>)
      else None)"

lemmas frame_reads = GetVReg_def GetVRegFloat_def GetVRegLong_def GetVRegDouble_def
  GetVRegReference_def

lemmas frame_writes = SetVReg_def SetVRegFloat_def SetVRegLong_def SetVRegDouble_def
  SetVRegReference_def

section \<open>The frame invariant\<close>

text \<open>
  What a moving collector relies on: the two arrays have the same length, and a register whose
  reference is not null holds that same reference as its value. The collector rewrites both.
\<close>

definition frame_ok :: "shadow_frame \<Rightarrow> bool" where
  "frame_ok sf \<longleftrightarrow> length (references sf) = length (vregs sf) \<and>
     (\<forall>i < length (vregs sf). references sf ! i \<noteq> 0 \<longrightarrow> references sf ! i = vregs sf ! i)"

lemma create_frame_ok: "frame_ok (create_frame n pc)"
  by (simp add: frame_ok_def create_frame_def)

lemma set_frame_ok [intro]:
  "frame_ok sf \<Longrightarrow> SetVReg sf i v = Some sf' \<Longrightarrow> frame_ok sf'"
  "frame_ok sf \<Longrightarrow> SetVRegFloat sf i v = Some sf' \<Longrightarrow> frame_ok sf'"
  "frame_ok sf \<Longrightarrow> SetVRegLong sf i w = Some sf' \<Longrightarrow> frame_ok sf'"
  "frame_ok sf \<Longrightarrow> SetVRegDouble sf i w = Some sf' \<Longrightarrow> frame_ok sf'"
  "frame_ok sf \<Longrightarrow> SetVRegReference sf i v = Some sf' \<Longrightarrow> frame_ok sf'"
  by (auto simp: frame_ok_def frame_writes NumberOfVRegs_def nth_list_update split: if_splits)

lemma set_frame_size:
  "SetVReg sf i v = Some sf' \<Longrightarrow> NumberOfVRegs sf' = NumberOfVRegs sf"
  "SetVRegFloat sf i v = Some sf' \<Longrightarrow> NumberOfVRegs sf' = NumberOfVRegs sf"
  "SetVRegLong sf i w = Some sf' \<Longrightarrow> NumberOfVRegs sf' = NumberOfVRegs sf"
  "SetVRegDouble sf i w = Some sf' \<Longrightarrow> NumberOfVRegs sf' = NumberOfVRegs sf"
  "SetVRegReference sf i v = Some sf' \<Longrightarrow> NumberOfVRegs sf' = NumberOfVRegs sf"
  by (auto simp: frame_writes NumberOfVRegs_def split: if_splits)

lemma SetDexPC_ok [simp]: "frame_ok (SetDexPC sf pc) = frame_ok sf"
  by (simp add: frame_ok_def SetDexPC_def)

lemma SetDexPC_reads [simp]:
  "NumberOfVRegs (SetDexPC sf pc) = NumberOfVRegs sf"
  "GetVReg (SetDexPC sf pc) i = GetVReg sf i"
  "GetVRegLong (SetDexPC sf pc) i = GetVRegLong sf i"
  "GetVRegReference (SetDexPC sf pc) i = GetVRegReference sf i"
  by (simp_all add: SetDexPC_def frame_reads NumberOfVRegs_def)

section \<open>Reading back what was written\<close>

lemma halves_join: "ucast (ucast (w :: u64) :: u32) OR shl (ucast (ucast (shr w 32) :: u32)) 32 = w"
  by (rule bit_word_eqI) (auto simp: bit_simps)

lemma get_set_long: "SetVRegLong sf i w = Some sf' \<Longrightarrow> GetVRegLong sf' i = Some w"
  by (auto simp: frame_writes frame_reads NumberOfVRegs_def halves_join split: if_splits)

end
