(* ===== verification/InterpreterState.thy ===== *)
theory InterpreterState
  imports DexInstruction ShadowFrame "HOL-Library.Signed_Division"
begin

text \<open>
  The state the interpreter works on and the services it calls.

  The interpreter's own state is the shadow frame, the result register, the pending exception of
  the thread and the flag of the method entry notification. Java arrays are modelled as the raw
  bytes of their elements, as in \<^verbatim>\<open>mirror/array.h\<close>. Everything else of the process (class linker,
  garbage collector, instrumentation, monitors, transactions) is an opaque part \<open>world\<close> of the
  state, and the functions of those subsystems that the interpreter calls are a parameter of the
  model, the \<open>runtime\<close> record. It is indexed by the name of the called function, so that every
  call of the C++ is visible in the definitions. A service that may suspend the thread, run
  managed code or throw returns a whole new state; the others only read it. The IEEE arithmetic
  of the C++ compiler is a record of functions on bit patterns, the \<open>fpu\<close>.
\<close>

section \<open>Arrays\<close>

datatype Primitive = kPrimNot | kPrimBoolean | kPrimByte | kPrimChar | kPrimShort | kPrimInt
  | kPrimLong | kPrimFloat | kPrimDouble | kPrimVoid

primrec ComponentSize :: "Primitive \<Rightarrow> nat" where
  "ComponentSize kPrimNot = 4"
| "ComponentSize kPrimBoolean = 1"
| "ComponentSize kPrimByte = 1"
| "ComponentSize kPrimChar = 2"
| "ComponentSize kPrimShort = 2"
| "ComponentSize kPrimInt = 4"
| "ComponentSize kPrimLong = 8"
| "ComponentSize kPrimFloat = 4"
| "ComponentSize kPrimDouble = 8"
| "ComponentSize kPrimVoid = 0"

text \<open>An array object: component type, \<^verbatim>\<open>length_\<close> and the bytes of the elements.\<close>

record jarray =
  component :: Primitive
  array_length :: u32
  raw :: "u8 list"

text \<open>Little endian loads and stores of \<open>n\<close> bytes.\<close>

primrec bytes_of :: "nat \<Rightarrow> u64 \<Rightarrow> u8 list" where
  "bytes_of 0 v = []"
| "bytes_of (Suc n) v = ucast v # bytes_of n (shr v 8)"

primrec of_bytes :: "u8 list \<Rightarrow> u64" where
  "of_bytes [] = 0"
| "of_bytes (b # bs) = ucast b OR shl (of_bytes bs) 8"

definition get_element :: "jarray \<Rightarrow> nat \<Rightarrow> u64" where
  "get_element a i =
     (let w = ComponentSize (component a) in of_bytes (take w (drop (w * i) (raw a))))"

definition set_element :: "jarray \<Rightarrow> nat \<Rightarrow> u64 \<Rightarrow> jarray" where
  "set_element a i v =
     (let w = ComponentSize (component a) in
      a\<lparr>raw := take (w * i) (raw a) @ bytes_of w v @ drop (w * i + w) (raw a)\<rparr>)"

definition jarray_ok :: "jarray \<Rightarrow> bool" where
  "jarray_ok a \<longleftrightarrow> length (raw a) = ComponentSize (component a) * unat (array_length a) \<and>
     unat (array_length a) < 2 ^ 31"

section \<open>Interpreter state\<close>

text \<open>
  \<open>under_construction\<close> is the chain of frames registered with
  \<^verbatim>\<open>SetShadowFrameUnderConstruction\<close>; \<open>exception_reported\<close> is the thread's
  \<^verbatim>\<open>is_exception_reported_to_instrumentation_\<close>.
\<close>

record 'h istate =
  frame :: shadow_frame
  result_register :: u64
  exception :: u32
  exception_reported :: bool
  notified_method_entry_event :: bool
  under_construction :: "shadow_frame list"
  arrays :: "u32 \<Rightarrow> jarray option"
  world :: 'h

definition IsExceptionPending :: "'h istate \<Rightarrow> bool" where
  "IsExceptionPending s \<longleftrightarrow> exception s \<noteq> 0"

definition ClearException :: "'h istate \<Rightarrow> 'h istate" where
  "ClearException s = s\<lparr>exception := 0, exception_reported := False\<rparr>"

definition SetException :: "u32 \<Rightarrow> 'h istate \<Rightarrow> 'h istate" where
  "SetException e s = s\<lparr>exception := e\<rparr>"

section \<open>Services of the runtime\<close>

datatype InvokeType = kStatic | kDirect | kVirtual | kSuper | kInterface

datatype FindFieldType = InstanceObjectRead | InstanceObjectWrite | InstancePrimitiveRead
  | InstancePrimitiveWrite | StaticObjectRead | StaticObjectWrite | StaticPrimitiveRead
  | StaticPrimitiveWrite

text \<open>Calls that return an object, or null with an exception pending.\<close>

datatype resolver = ResolveString u32 | ResolveVerifyAndClinit u32 | AllocObjectFromCode u32
  | AllocArrayFromCode u32 u32 | Array_Alloc u32 u32 | GetReturnType | GetClassFromTypeIndex u32 nat
  | FindFieldFromCode FindFieldType u32 nat | FindMethodFromCode InvokeType u32 u32 | GetFieldType u32

text \<open>Exceptions the interpreter itself raises.\<close>

datatype throwable = NullPointerException | NullPointerExceptionForFieldAccess u32 bool
  | ThrowNullException | NullArrayInFillArrayData | ArithmeticException
  | ArrayIndexOutOfBoundsException u32 | FillArrayIndexOutOfBoundsException u32
  | ArrayStoreException u32 | ClassCastException u32 u32 | NegativeArraySizeException u32
  | AbstractMethodError u32 | RuntimeException | InternalError | VirtualMachineError

text \<open>Calls for their effect.\<close>

datatype action = Throw throwable | AllowThreadSuspension | MethodEnterEvent
  | DexPcMovedEvent u32 | MethodExitEvent u32 u64 | MethodUnwindEvent u32 | ExceptionCaughtEvent
  | FieldReadEvent u32 u32 | FieldWriteEvent u32 u32 u64 | MonitorEnter u32 | MonitorExit u32
  | RecordWriteArray u32 nat u64 | RecordWriteFieldReference u32 nat u64 | WriteBarrierField u32
  | SetField Primitive u32 u32 u64 | SetFieldAtOffset Primitive u32 u32 u64
  | EntryPointFromInterpreter u32 shadow_frame | UnstartedRuntimeInvoke u32 shadow_frame nat

text \<open>Questions answered without an effect.\<close>

datatype question = HasMethodEntryListeners | HasDexPcListeners | HasMethodExitListeners
  | HasFieldReadListeners | HasFieldWriteListeners | HasExceptionCaughtListeners
  | InstanceOf u32 u32 | VerifierInstanceOf u32 u32 | IsThrowableClass u32 | IsFinalizable u32
  | IsAbstract u32 | IsStaticMethod u32 | IsStaticField u32 | IsStarted

datatype attribute = GetClass u32 | GetDeclaringClass u32 | GetComponentType u32
  | GetEmbeddedVTableEntry u32 u32 | FindInstanceFieldWithOffset u32 u32

record 'h runtime =
  rt_resolve :: "resolver \<Rightarrow> 'h istate \<Rightarrow> u32 \<times> 'h istate"
  rt_resolve_handles :: "resolver \<Rightarrow> u32 list \<Rightarrow> 'h istate \<Rightarrow> u32 \<times> u32 list \<times> 'h istate"
  rt_do :: "action \<Rightarrow> 'h istate \<Rightarrow> 'h istate"
  rt_ask :: "question \<Rightarrow> 'h istate \<Rightarrow> bool"
  rt_get :: "attribute \<Rightarrow> 'h istate \<Rightarrow> u32"
  rt_get_field :: "Primitive \<Rightarrow> u32 \<Rightarrow> u32 \<Rightarrow> 'h istate \<Rightarrow> u64"
  rt_get_field_at :: "Primitive \<Rightarrow> u32 \<Rightarrow> u32 \<Rightarrow> 'h istate \<Rightarrow> u64"
  rt_primitive_type :: "u32 \<Rightarrow> 'h istate \<Rightarrow> Primitive"
  rt_registers_size :: "u32 \<Rightarrow> 'h istate \<Rightarrow> u16 option"
  rt_shorty :: "u32 \<Rightarrow> 'h istate \<Rightarrow> string"
  rt_find_catch_block :: "u32 \<Rightarrow> u32 \<Rightarrow> 'h istate \<Rightarrow> (u32 \<times> bool) \<times> 'h istate"

text \<open>
  \<open>rt_resolve_handles\<close> is a resolution during which some local pointers are kept in handles; it
  also returns their values afterwards, which differ from the old ones when the objects moved.
\<close>

text \<open>The template arguments of \<^verbatim>\<open>ExecuteSwitchImpl\<close>.\<close>

record config =
  do_access_check :: bool
  transaction_active :: bool

section \<open>Floating point\<close>

record fpu =
  f_gt :: "u32 \<Rightarrow> u32 \<Rightarrow> bool"
  f_lt :: "u32 \<Rightarrow> u32 \<Rightarrow> bool"
  f_eq :: "u32 \<Rightarrow> u32 \<Rightarrow> bool"
  d_gt :: "u64 \<Rightarrow> u64 \<Rightarrow> bool"
  d_lt :: "u64 \<Rightarrow> u64 \<Rightarrow> bool"
  d_eq :: "u64 \<Rightarrow> u64 \<Rightarrow> bool"
  f_neg :: "u32 \<Rightarrow> u32"
  d_neg :: "u64 \<Rightarrow> u64"
  f_add :: "u32 \<Rightarrow> u32 \<Rightarrow> u32"
  f_sub :: "u32 \<Rightarrow> u32 \<Rightarrow> u32"
  f_mul :: "u32 \<Rightarrow> u32 \<Rightarrow> u32"
  f_div :: "u32 \<Rightarrow> u32 \<Rightarrow> u32"
  f_fmod :: "u32 \<Rightarrow> u32 \<Rightarrow> u32"
  d_add :: "u64 \<Rightarrow> u64 \<Rightarrow> u64"
  d_sub :: "u64 \<Rightarrow> u64 \<Rightarrow> u64"
  d_mul :: "u64 \<Rightarrow> u64 \<Rightarrow> u64"
  d_div :: "u64 \<Rightarrow> u64 \<Rightarrow> u64"
  d_fmod :: "u64 \<Rightarrow> u64 \<Rightarrow> u64"
  int_to_float :: "u32 \<Rightarrow> u32"
  int_to_double :: "u32 \<Rightarrow> u64"
  long_to_float :: "u64 \<Rightarrow> u32"
  long_to_double :: "u64 \<Rightarrow> u64"
  float_to_double :: "u32 \<Rightarrow> u64"
  double_to_float :: "u64 \<Rightarrow> u32"
  float_trunc_int :: "u32 \<Rightarrow> u32"
  float_trunc_long :: "u32 \<Rightarrow> u64"
  double_trunc_int :: "u64 \<Rightarrow> u32"
  double_trunc_long :: "u64 \<Rightarrow> u64"

section \<open>Loads after stores\<close>

lemma length_bytes_of [simp]: "length (bytes_of n v) = n"
  by (induction n arbitrary: v) simp_all

lemma of_bytes_bytes_of: "of_bytes (bytes_of n v) = take_bit (8 * n) v"
proof (induction n arbitrary: v)
  case (Suc n)
  have "ucast (ucast v :: u8) = take_bit 8 v"
    by (rule bit_word_eqI) (auto simp: bit_simps)
  then have "of_bytes (bytes_of (Suc n) v) = take_bit 8 v OR shl (take_bit (8 * n) (shr v 8)) 8"
    using Suc by simp
  then show ?case by (simp add: take_bit_extend)
qed simp

lemma slice_replaced_same:
  "p + w \<le> length xs \<Longrightarrow> length ys = w \<Longrightarrow>
     take w (drop p (take p xs @ ys @ drop (p + w) xs)) = ys"
  by simp

lemma slice_replaced_other:
  assumes "p + w \<le> length xs" "length ys = w" "q + w \<le> p \<or> p + w \<le> q"
  shows "take w (drop q (take p xs @ ys @ drop (p + w) xs)) = take w (drop q xs)"
  using assms(3)
proof
  assume "q + w \<le> p"
  then have "take w (drop q (take p xs)) = take w (drop q xs)"
    by (simp add: drop_take min_def)
  with \<open>q + w \<le> p\<close> assms show ?thesis by simp
next
  assume "p + w \<le> q"
  with assms show ?thesis by simp
qed

lemma element_in_raw:
  assumes "jarray_ok a" "i < unat (array_length a)"
  shows "ComponentSize (component a) * i + ComponentSize (component a) \<le> length (raw a)"
proof -
  have "ComponentSize (component a) * Suc i \<le> ComponentSize (component a) * unat (array_length a)"
    using assms(2) by (intro mult_le_mono2) simp
  with assms(1) show ?thesis by (simp add: jarray_ok_def)
qed

lemma elements_disjoint: "i \<noteq> j \<Longrightarrow> w * i + w \<le> w * j \<or> w * j + w \<le> (w * i :: nat)"
proof -
  assume "i \<noteq> j"
  then have "Suc i \<le> j \<or> Suc j \<le> i" by linarith
  then have "w * Suc i \<le> w * j \<or> w * Suc j \<le> w * i" using mult_le_mono2 by blast
  then show ?thesis by (simp add: add.commute)
qed

lemma get_set_element:
  assumes "jarray_ok a" "i < unat (array_length a)"
  shows "get_element (set_element a i v) j =
    (if j = i then take_bit (8 * ComponentSize (component a)) v else get_element a j)"
proof -
  let ?w = "ComponentSize (component a)"
  have len: "?w * i + ?w \<le> length (raw a)" by (rule element_in_raw) (use assms in auto)
  show ?thesis
  proof (cases "j = i")
    case True
    then show ?thesis
      using slice_replaced_same [OF len, of "bytes_of ?w v"]
      by (simp add: get_element_def set_element_def Let_def of_bytes_bytes_of)
  next
    case False
    then show ?thesis
      using slice_replaced_other [OF len length_bytes_of, of "?w * j" v] elements_disjoint [of j i ?w]
      by (simp add: get_element_def set_element_def Let_def)
  qed
qed

lemma set_element_ok:
  assumes "jarray_ok a" "i < unat (array_length a)"
  shows "jarray_ok (set_element a i v)"
  using assms element_in_raw [OF assms]
  by (auto simp: jarray_ok_def set_element_def Let_def)

lemma set_element_shape [simp]:
  "component (set_element a i v) = component a"
  "array_length (set_element a i v) = array_length a"
  by (simp_all add: set_element_def Let_def)

end
