(* ===== verification/InterpreterCommon.thy ===== *)
theory InterpreterCommon
  imports InterpreterState
begin

text \<open>
  \<^verbatim>\<open>runtime/interpreter/interpreter_common.h\<close> and \<^verbatim>\<open>interpreter_common.cc\<close>: what the instruction
  handlers share. Division, the two switches, field access, calls, array creation and the search
  of the exception handler, together with \<^verbatim>\<open>safe_math.h\<close>, the float conversions of
  \<^verbatim>\<open>entrypoint_utils-inl.h\<close> and the array fill of \<^verbatim>\<open>entrypoint_utils.cc\<close>.

  A result \<^term>\<open>None\<close> stands for an access outside the frame or an array, a null dereference or a
  violated \<^verbatim>\<open>CHECK\<close>: behaviour that verified code never shows.
\<close>

section \<open>Registers of the current frame\<close>

definition set_vreg :: "'h istate \<Rightarrow> nat \<Rightarrow> u32 \<Rightarrow> 'h istate option" where
  "set_vreg s r v = map_option (\<lambda>f. s\<lparr>frame := f\<rparr>) (SetVReg (frame s) r v)"

definition set_vreg_float :: "'h istate \<Rightarrow> nat \<Rightarrow> u32 \<Rightarrow> 'h istate option" where
  "set_vreg_float s r v = map_option (\<lambda>f. s\<lparr>frame := f\<rparr>) (SetVRegFloat (frame s) r v)"

definition set_vreg_long :: "'h istate \<Rightarrow> nat \<Rightarrow> u64 \<Rightarrow> 'h istate option" where
  "set_vreg_long s r v = map_option (\<lambda>f. s\<lparr>frame := f\<rparr>) (SetVRegLong (frame s) r v)"

definition set_vreg_double :: "'h istate \<Rightarrow> nat \<Rightarrow> u64 \<Rightarrow> 'h istate option" where
  "set_vreg_double s r v = map_option (\<lambda>f. s\<lparr>frame := f\<rparr>) (SetVRegDouble (frame s) r v)"

definition set_vreg_ref :: "'h istate \<Rightarrow> nat \<Rightarrow> u32 \<Rightarrow> 'h istate option" where
  "set_vreg_ref s r v = map_option (\<lambda>f. s\<lparr>frame := f\<rparr>) (SetVRegReference (frame s) r v)"

lemmas set_vreg_defs = set_vreg_def set_vreg_float_def set_vreg_long_def set_vreg_double_def
  set_vreg_ref_def

section \<open>Arithmetic\<close>

text \<open>
  \<^verbatim>\<open>SafeMath\<close> sign extends the narrower operand, computes on the unsigned type and converts back:
  the operations of the word type.
\<close>

definition SafeAdd :: "'a::len word \<Rightarrow> 'a word \<Rightarrow> 'a word" where
  "SafeAdd a b = a + b"

definition SafeSub :: "'a::len word \<Rightarrow> 'a word \<Rightarrow> 'a word" where
  "SafeSub a b = a - b"

definition SafeMul :: "'a::len word \<Rightarrow> 'a word \<Rightarrow> 'a word" where
  "SafeMul a b = a * b"

text \<open>
  The operators \<^verbatim>\<open>/\<close> and \<^verbatim>\<open>%\<close> of C++ on signed words truncate towards zero. They are undefined for
  the divisor 0 and for the one quotient that the type does not hold, the smallest value divided
  by minus one; \<^verbatim>\<open>None\<close> is undefined behaviour.
\<close>

definition c_div :: "'a::len word \<Rightarrow> 'a word \<Rightarrow> 'a word option" where
  "c_div a b = (if b = 0 \<or> (b = - 1 \<and> a = push_bit (LENGTH('a) - 1) 1) then None
                else Some (word_of_int (sint a sdiv sint b)))"

definition c_rem :: "'a::len word \<Rightarrow> 'a word \<Rightarrow> 'a word option" where
  "c_rem a b = (if b = 0 \<or> (b = - 1 \<and> a = push_bit (LENGTH('a) - 1) 1) then None
                else Some (word_of_int (sint a smod sint b)))"

abbreviation (input) kMinInt :: u32 where "kMinInt \<equiv> 0x80000000"
abbreviation (input) kMinLong :: u64 where "kMinLong \<equiv> 0x8000000000000000"

definition DoIntDivide ::
  "'h runtime \<Rightarrow> 'h istate \<Rightarrow> nat \<Rightarrow> u32 \<Rightarrow> u32 \<Rightarrow> (bool \<times> 'h istate) option" where
  "DoIntDivide rt s result_reg dividend divisor =
     (if divisor = 0 then Some (False, rt_do rt (Throw ArithmeticException) s)
      else if dividend = kMinInt \<and> divisor = -1
           then map_option (Pair True) (set_vreg s result_reg kMinInt)
           else do {
             result \<leftarrow> c_div dividend divisor;
             map_option (Pair True) (set_vreg s result_reg result)
           })"

definition DoIntRemainder ::
  "'h runtime \<Rightarrow> 'h istate \<Rightarrow> nat \<Rightarrow> u32 \<Rightarrow> u32 \<Rightarrow> (bool \<times> 'h istate) option" where
  "DoIntRemainder rt s result_reg dividend divisor =
     (if divisor = 0 then Some (False, rt_do rt (Throw ArithmeticException) s)
      else if dividend = kMinInt \<and> divisor = -1
           then map_option (Pair True) (set_vreg s result_reg 0)
           else do {
             result \<leftarrow> c_rem dividend divisor;
             map_option (Pair True) (set_vreg s result_reg result)
           })"

definition DoLongDivide ::
  "'h runtime \<Rightarrow> 'h istate \<Rightarrow> nat \<Rightarrow> u64 \<Rightarrow> u64 \<Rightarrow> (bool \<times> 'h istate) option" where
  "DoLongDivide rt s result_reg dividend divisor =
     (if divisor = 0 then Some (False, rt_do rt (Throw ArithmeticException) s)
      else if dividend = kMinLong \<and> divisor = -1
           then map_option (Pair True) (set_vreg_long s result_reg kMinLong)
           else do {
             result \<leftarrow> c_div dividend divisor;
             map_option (Pair True) (set_vreg_long s result_reg result)
           })"

definition DoLongRemainder ::
  "'h runtime \<Rightarrow> 'h istate \<Rightarrow> nat \<Rightarrow> u64 \<Rightarrow> u64 \<Rightarrow> (bool \<times> 'h istate) option" where
  "DoLongRemainder rt s result_reg dividend divisor =
     (if divisor = 0 then Some (False, rt_do rt (Throw ArithmeticException) s)
      else if dividend = kMinLong \<and> divisor = -1
           then map_option (Pair True) (set_vreg_long s result_reg 0)
           else do {
             result \<leftarrow> c_rem dividend divisor;
             map_option (Pair True) (set_vreg_long s result_reg result)
           })"

text \<open>
  \<^verbatim>\<open>art_float_to_integral\<close>: the comparisons, the truncating conversion and the conversions of the
  two bounds are those of the floating point type.
\<close>

definition art_float_to_integral ::
  "('f \<Rightarrow> 'f \<Rightarrow> bool) \<Rightarrow> ('f \<Rightarrow> 'f \<Rightarrow> bool) \<Rightarrow> ('f \<Rightarrow> 'f \<Rightarrow> bool) \<Rightarrow> ('i::len word \<Rightarrow> 'f) \<Rightarrow> ('f \<Rightarrow> 'i word) \<Rightarrow>
   'f \<Rightarrow> 'i word" where
  "art_float_to_integral gt lt eq conv trunc f =
     (let max_int = word_of_int (2 ^ (LENGTH('i) - 1) - 1);
          min_int = word_of_int (- (2 ^ (LENGTH('i) - 1)))
      in if gt f (conv min_int)
         then if lt f (conv max_int) then trunc f else max_int
         else if \<not> eq f f then 0 else min_int)"

section \<open>Switches\<close>

definition DoPackedSwitch :: "insn \<Rightarrow> shadow_frame \<Rightarrow> u16 \<Rightarrow> u32 option" where
  "DoPackedSwitch inst sf inst_data =
     (let switch_data = RelativeAt inst (sint (VRegB_31t inst))
      in do {
        test_val \<leftarrow> GetVReg sf (unat (VRegA_31t inst_data));
        let size = switch_data 1;
        if switch_data 0 = kPackedSwitchSignature \<and> 0 < size then do {
          let first_key = Fetch32 switch_data 2;
          let index = test_val - first_key;
          if 0 \<le> sint index \<and> sint index < uint size
          then Some (Fetch32 switch_data (4 + 2 * nat (sint index)))
          else Some 3
        } else None
      })"

function sparse_search :: "insn \<Rightarrow> nat \<Rightarrow> u32 \<Rightarrow> int \<Rightarrow> int \<Rightarrow> u32" where
  "sparse_search switch_data sz test_val lo hi =
     (if lo \<le> hi
      then let mid = (lo + hi) div 2;
               foundVal = Fetch32 switch_data (2 + 2 * nat mid)
           in if sint test_val < sint foundVal
              then sparse_search switch_data sz test_val lo (mid - 1)
              else if sint test_val > sint foundVal
              then sparse_search switch_data sz test_val (mid + 1) hi
              else Fetch32 switch_data (2 + 2 * sz + 2 * nat mid)
      else 3)"
  by pat_completeness auto
termination
  by (relation "measure (\<lambda>(d, n, v, lo, hi). nat (hi - lo + 1))") auto

declare sparse_search.simps [simp del]

definition DoSparseSwitch :: "insn \<Rightarrow> shadow_frame \<Rightarrow> u16 \<Rightarrow> u32 option" where
  "DoSparseSwitch inst sf inst_data =
     (let switch_data = RelativeAt inst (sint (VRegB_31t inst))
      in do {
        test_val \<leftarrow> GetVReg sf (unat (VRegA_31t inst_data));
        let size = switch_data 1;
        if switch_data 0 = kSparseSwitchSignature \<and> 0 < size
        then Some (sparse_search switch_data (unat size) test_val 0 (uint size - 1))
        else None
      })"

definition IsBackwardBranch :: "int \<Rightarrow> bool" where
  "IsBackwardBranch branch_offset \<longleftrightarrow> branch_offset \<le> 0"

section \<open>Arrays\<close>

text \<open>
  A checked cast such as \<^verbatim>\<open>AsIntArray\<close> and the index check inside \<^verbatim>\<open>SetWithoutChecks\<close> are the
  conditions under which the element lies in the array.
\<close>

definition AsArray :: "Primitive list \<Rightarrow> 'h istate \<Rightarrow> u32 \<Rightarrow> jarray option" where
  "AsArray types s a = (case arrays s a of
     None \<Rightarrow> None
   | Some arr \<Rightarrow> if component arr \<in> set types then Some arr else None)"

definition CheckIsValidIndex :: "'h runtime \<Rightarrow> 'h istate \<Rightarrow> jarray \<Rightarrow> u32 \<Rightarrow> bool \<times> 'h istate" where
  "CheckIsValidIndex rt s arr index =
     (if index \<ge> array_length arr
      then (False, rt_do rt (Throw (ArrayIndexOutOfBoundsException index)) s) else (True, s))"

definition CheckAssignable :: "'h runtime \<Rightarrow> 'h istate \<Rightarrow> u32 \<Rightarrow> u32 \<Rightarrow> bool \<times> 'h istate" where
  "CheckAssignable rt s a object =
     (if object \<noteq> 0 then
        let element_class = rt_get rt (GetComponentType (rt_get rt (GetClass a) s)) s
        in if \<not> rt_ask rt (InstanceOf object element_class) s
           then (False, rt_do rt (Throw (ArrayStoreException object)) s) else (True, s)
      else (True, s))"

definition store_element :: "'h istate \<Rightarrow> u32 \<Rightarrow> nat \<Rightarrow> u64 \<Rightarrow> 'h istate option" where
  "store_element s a i v = (case arrays s a of
     None \<Rightarrow> None
   | Some arr \<Rightarrow>
       if i < unat (array_length arr)
       then Some (s\<lparr>arrays := (arrays s)(a \<mapsto> set_element arr i v)\<rparr>) else None)"

definition SetWithoutChecks ::
  "'h runtime \<Rightarrow> bool \<Rightarrow> 'h istate \<Rightarrow> u32 \<Rightarrow> nat \<Rightarrow> u64 \<Rightarrow> 'h istate option" where
  "SetWithoutChecks rt transaction s a i v = (case arrays s a of
     None \<Rightarrow> None
   | Some arr \<Rightarrow>
       let s = (if transaction then rt_do rt (RecordWriteArray a i (get_element arr i)) s else s)
       in store_element s a i v)"

definition SetObjectWithoutChecks ::
  "'h runtime \<Rightarrow> bool \<Rightarrow> 'h istate \<Rightarrow> u32 \<Rightarrow> nat \<Rightarrow> u32 \<Rightarrow> 'h istate option" where
  "SetObjectWithoutChecks rt transaction s a i object = (case arrays s a of
     None \<Rightarrow> None
   | Some arr \<Rightarrow>
       let s = (if transaction
                then rt_do rt (RecordWriteFieldReference a i (get_element arr i)) s else s)
       in map_option (\<lambda>s. if object \<noteq> 0 then rt_do rt (WriteBarrierField a) s else s)
            (store_element s a i (ucast object)))"

text \<open>The payload of \<^verbatim>\<open>fill-array-data\<close>, read in place.\<close>

definition payload_ident :: "insn \<Rightarrow> u16" where
  "payload_ident payload = payload 0"

definition element_width :: "insn \<Rightarrow> u16" where
  "element_width payload = payload 1"

definition element_count :: "insn \<Rightarrow> u32" where
  "element_count payload = ucast (payload 2) OR shl (ucast (payload 3)) 16"

definition payload_byte :: "insn \<Rightarrow> nat \<Rightarrow> u8" where
  "payload_byte payload k =
     (let w = payload (4 + int (k div 2)) in if even k then ucast w else ucast (shr w 8))"

definition FillArrayData :: "'h runtime \<Rightarrow> 'h istate \<Rightarrow> u32 \<Rightarrow> insn \<Rightarrow> (bool \<times> 'h istate) option" where
  "FillArrayData rt s obj payload =
     (if payload_ident payload \<noteq> kArrayDataSignature then None
      else if obj = 0 then Some (False, rt_do rt (Throw NullArrayInFillArrayData) s)
      else case arrays s obj of
        None \<Rightarrow> None
      | Some arr \<Rightarrow>
          if component arr = kPrimNot then None
          else if sint (element_count payload) > sint (array_length arr)
          then Some (False,
            rt_do rt (Throw (FillArrayIndexOutOfBoundsException (element_count payload))) s)
          else let size_in_bytes = unat (element_count payload * ucast (element_width payload)) in
            if size_in_bytes > length (raw arr) then None
            else Some (True, s\<lparr>arrays := (arrays s)(obj \<mapsto>
              arr\<lparr>raw := map (payload_byte payload) [0..<size_in_bytes] @ drop size_in_bytes (raw arr)\<rparr>)\<rparr>))"

primrec record_elements :: "'h runtime \<Rightarrow> u32 \<Rightarrow> nat list \<Rightarrow> 'h istate \<Rightarrow> 'h istate option" where
  "record_elements rt a [] s = Some s"
| "record_elements rt a (i # is) s = (case arrays s a of
     None \<Rightarrow> None
   | Some arr \<Rightarrow> if i < unat (array_length arr)
       then record_elements rt a is (rt_do rt (RecordWriteArray a i (get_element arr i)) s)
       else None)"

definition RecordArrayElementsInTransaction ::
  "'h runtime \<Rightarrow> 'h istate \<Rightarrow> u32 \<Rightarrow> u32 \<Rightarrow> 'h istate option" where
  "RecordArrayElementsInTransaction rt s a count = (case arrays s a of
     None \<Rightarrow> None
   | Some arr \<Rightarrow>
       if component arr \<in> {kPrimNot, kPrimVoid} \<or> sint count > sint (array_length arr) then None
       else record_elements rt a [0..<nat (sint count)] s)"

section \<open>Fields\<close>

text \<open>
  How a value of a narrow type becomes a register value, and how a register value becomes a
  value of a narrow type: sign extension for \<^verbatim>\<open>byte\<close> and \<^verbatim>\<open>short\<close>, zero extension for \<^verbatim>\<open>boolean\<close>
  and \<^verbatim>\<open>char\<close>, truncation in the other direction.
\<close>

definition widen :: "Primitive \<Rightarrow> u64 \<Rightarrow> u32" where
  "widen type v = (case type of
     kPrimBoolean \<Rightarrow> ucast (ucast v :: u8)
   | kPrimByte \<Rightarrow> scast (ucast v :: u8)
   | kPrimChar \<Rightarrow> ucast (ucast v :: u16)
   | kPrimShort \<Rightarrow> scast (ucast v :: u16)
   | _ \<Rightarrow> ucast v)"

definition narrow :: "Primitive \<Rightarrow> u32 \<Rightarrow> u64" where
  "narrow type v = (case type of
     kPrimBoolean \<Rightarrow> ucast (ucast v :: u8)
   | kPrimByte \<Rightarrow> ucast (ucast v :: u8)
   | kPrimChar \<Rightarrow> ucast (ucast v :: u16)
   | kPrimShort \<Rightarrow> ucast (ucast v :: u16)
   | _ \<Rightarrow> ucast v)"

abbreviation (input) narrow_types :: "Primitive list" where
  "narrow_types \<equiv> [kPrimBoolean, kPrimByte, kPrimChar, kPrimShort, kPrimInt]"

definition set_field_vreg :: "Primitive \<Rightarrow> 'h istate \<Rightarrow> nat \<Rightarrow> u64 \<Rightarrow> 'h istate option" where
  "set_field_vreg type s r v =
     (if type \<in> set narrow_types then set_vreg s r (widen type v)
      else if type = kPrimLong then set_vreg_long s r v
      else if type = kPrimNot then set_vreg_ref s r (ucast v)
      else None)"

definition is_static_access :: "FindFieldType \<Rightarrow> bool" where
  "is_static_access t \<longleftrightarrow>
     t \<in> set [StaticObjectRead, StaticPrimitiveRead, StaticObjectWrite, StaticPrimitiveWrite]"

definition DoFieldGet ::
  "FindFieldType \<Rightarrow> Primitive \<Rightarrow> 'h runtime \<Rightarrow> 'h istate \<Rightarrow> insn \<Rightarrow> u16 \<Rightarrow> (bool \<times> 'h istate) option" where
  "DoFieldGet find_type field_type rt s inst inst_data =
     (let is_static = is_static_access find_type;
          field_idx = (if is_static then VRegB_21c inst else VRegC_22c inst);
          (f, s) = rt_resolve rt (FindFieldFromCode find_type (ucast field_idx) (ComponentSize field_type)) s
      in if f = 0 then (if IsExceptionPending s then Some (False, s) else None)
      else do {
        obj \<leftarrow> (if is_static then Some (rt_get rt (GetDeclaringClass f) s)
                else GetVRegReference (frame s) (unat (VRegB_22c inst_data)));
        if \<not> is_static \<and> obj = 0
        then Some (False, rt_do rt (Throw (NullPointerExceptionForFieldAccess f True)) s)
        else do {
          let s = (if rt_ask rt HasFieldReadListeners s
                   then rt_do rt (FieldReadEvent (if rt_ask rt (IsStaticField f) s then 0 else obj) f) s
                   else s);
          let vregA = unat (if is_static then VRegA_21c inst_data else VRegA_22c inst_data);
          s \<leftarrow> set_field_vreg field_type s vregA (rt_get_field rt field_type obj f s);
          Some (True, s)
        }
      })"

definition DoIGetQuick ::
  "Primitive \<Rightarrow> 'h runtime \<Rightarrow> 'h istate \<Rightarrow> insn \<Rightarrow> u16 \<Rightarrow> (bool \<times> 'h istate) option" where
  "DoIGetQuick field_type rt s inst inst_data = do {
     obj \<leftarrow> GetVRegReference (frame s) (unat (VRegB_22c inst_data));
     if obj = 0 then Some (False, rt_do rt (Throw NullPointerException) s)
     else do {
       let field_offset = ucast (VRegC_22c inst);
       let s = (if rt_ask rt HasFieldReadListeners s
                then let f = rt_get rt (FindInstanceFieldWithOffset (rt_get rt (GetClass obj) s) field_offset) s
                     in rt_do rt (FieldReadEvent obj f) s
                else s);
       let vregA = unat (VRegA_22c inst_data);
       if field_type \<in> {kPrimInt, kPrimLong, kPrimNot} then do {
         s \<leftarrow> set_field_vreg field_type s vregA (rt_get_field_at rt field_type obj field_offset s);
         Some (True, s)
       } else None
     }
   }"

text \<open>
  The value handed to the field write listeners. \<^verbatim>\<open>JValue::SetB\<close> and \<^verbatim>\<open>SetS\<close> sign extend into
  the 32 bit member, the other setters store at their width into a zeroed value.
\<close>

definition GetFieldValue :: "Primitive \<Rightarrow> shadow_frame \<Rightarrow> nat \<Rightarrow> u64 option" where
  "GetFieldValue field_type sf r =
     (if field_type \<in> set narrow_types
      then map_option (\<lambda>v. ucast (widen field_type (ucast v))) (GetVReg sf r)
      else if field_type = kPrimLong then GetVRegLong sf r
      else if field_type = kPrimNot then map_option ucast (GetVRegReference sf r)
      else None)"

text \<open>The value stored: read at the time of the store, at the width of the field.\<close>

definition field_store_value :: "Primitive \<Rightarrow> shadow_frame \<Rightarrow> nat \<Rightarrow> u64 option" where
  "field_store_value field_type sf r =
     (if field_type \<in> set narrow_types then map_option (narrow field_type) (GetVReg sf r)
      else if field_type = kPrimLong then GetVRegLong sf r
      else if field_type = kPrimNot then map_option ucast (GetVRegReference sf r)
      else None)"

definition DoFieldPut ::
  "FindFieldType \<Rightarrow> Primitive \<Rightarrow> config \<Rightarrow> 'h runtime \<Rightarrow> 'h istate \<Rightarrow> insn \<Rightarrow> u16 \<Rightarrow> (bool \<times> 'h istate) option"
where
  "DoFieldPut find_type field_type cfg rt s inst inst_data =
     (let is_static = is_static_access find_type;
          field_idx = (if is_static then VRegB_21c inst else VRegC_22c inst);
          (f, s) = rt_resolve rt (FindFieldFromCode find_type (ucast field_idx) (ComponentSize field_type)) s
      in if f = 0 then (if IsExceptionPending s then Some (False, s) else None)
      else do {
        obj \<leftarrow> (if is_static then Some (rt_get rt (GetDeclaringClass f) s)
                else GetVRegReference (frame s) (unat (VRegB_22c inst_data)));
        if \<not> is_static \<and> obj = 0
        then Some (False, rt_do rt (Throw (NullPointerExceptionForFieldAccess f False)) s)
        else do {
          let vregA = unat (if is_static then VRegA_21c inst_data else VRegA_22c inst_data);
          s \<leftarrow> (if rt_ask rt HasFieldWriteListeners s
                then map_option (\<lambda>field_value. rt_do rt
                       (FieldWriteEvent (if rt_ask rt (IsStaticField f) s then 0 else obj) f field_value) s)
                       (GetFieldValue field_type (frame s) vregA)
                else Some s);
          if field_type = kPrimNot then do {
            reg \<leftarrow> GetVRegReference (frame s) vregA;
            if do_access_check cfg \<and> reg \<noteq> 0
            then (case rt_resolve_handles rt (GetFieldType f) [f, reg, obj] s of
              (type_of_field, [f, reg, obj], s) \<Rightarrow>
                if type_of_field = 0 then None
                else if \<not> rt_ask rt (VerifierInstanceOf reg type_of_field) s
                then Some (False, rt_do rt (Throw VirtualMachineError) s)
                else Some (True, rt_do rt (SetField kPrimNot obj f (ucast reg)) s)
            | _ \<Rightarrow> None)
            else Some (True, rt_do rt (SetField kPrimNot obj f (ucast reg)) s)
          } else do {
            v \<leftarrow> field_store_value field_type (frame s) vregA;
            Some (True, rt_do rt (SetField field_type obj f v) s)
          }
        }
      })"

definition DoIPutQuick ::
  "Primitive \<Rightarrow> 'h runtime \<Rightarrow> 'h istate \<Rightarrow> insn \<Rightarrow> u16 \<Rightarrow> (bool \<times> 'h istate) option" where
  "DoIPutQuick field_type rt s inst inst_data = do {
     obj \<leftarrow> GetVRegReference (frame s) (unat (VRegB_22c inst_data));
     if obj = 0 then Some (False, rt_do rt (Throw NullPointerException) s)
     else do {
       let field_offset = ucast (VRegC_22c inst);
       let vregA = unat (VRegA_22c inst_data);
       s \<leftarrow> (if rt_ask rt HasFieldWriteListeners s
             then let f = rt_get rt (FindInstanceFieldWithOffset (rt_get rt (GetClass obj) s) field_offset) s
                  in map_option (\<lambda>field_value. rt_do rt (FieldWriteEvent obj f field_value) s)
                       (GetFieldValue field_type (frame s) vregA)
             else Some s);
       v \<leftarrow> field_store_value field_type (frame s) vregA;
       Some (True, rt_do rt (SetFieldAtOffset field_type obj field_offset v) s)
     }
   }"

section \<open>Exceptions\<close>

abbreviation (input) kDexNoIndex :: u32 where "kDexNoIndex \<equiv> 0xFFFFFFFF"

definition FindNextInstructionFollowingException ::
  "'h runtime \<Rightarrow> 'h istate \<Rightarrow> u32 \<Rightarrow> (u32 \<times> 'h istate) option" where
  "FindNextInstructionFollowingException rt s dex_pc =
     (if \<not> IsExceptionPending s then None else
      let s = (if \<not> exception_reported s \<and> rt_ask rt HasExceptionCaughtListeners s
               then (rt_do rt ExceptionCaughtEvent s)\<lparr>exception_reported := True\<rparr> else s);
          exception_class = rt_get rt (GetClass (exception s)) s;
          ((found_dex_pc, clear_exception), s) = rt_find_catch_block rt exception_class dex_pc s
      in if found_dex_pc = kDexNoIndex
         then Some (found_dex_pc, rt_do rt (MethodUnwindEvent dex_pc) s)
         else let s = (if exception_reported s then rt_do rt (MethodUnwindEvent dex_pc) s else s)
              in Some (found_dex_pc, if clear_exception then ClearException s else s))"

section \<open>Calls\<close>

definition AssignRegister ::
  "shadow_frame \<Rightarrow> shadow_frame \<Rightarrow> nat \<Rightarrow> nat \<Rightarrow> shadow_frame option" where
  "AssignRegister new_shadow_frame sf dest_reg src_reg = do {
     src_value \<leftarrow> GetVReg sf src_reg;
     obj \<leftarrow> GetVRegReference sf src_reg;
     if src_value = obj then SetVRegReference new_shadow_frame dest_reg obj
     else SetVReg new_shadow_frame dest_reg src_value
   }"

text \<open>The fast path: copy the argument registers one by one.\<close>

primrec assign_registers ::
  "shadow_frame \<Rightarrow> shadow_frame \<Rightarrow> nat \<Rightarrow> nat list \<Rightarrow> shadow_frame option" where
  "assign_registers new_shadow_frame sf dest_reg [] = Some new_shadow_frame"
| "assign_registers new_shadow_frame sf dest_reg (src # srcs) = do {
     f \<leftarrow> AssignRegister new_shadow_frame sf dest_reg src;
     assign_registers f sf (Suc dest_reg) srcs
   }"

definition copy_arguments ::
  "bool \<Rightarrow> shadow_frame \<Rightarrow> shadow_frame \<Rightarrow> nat \<Rightarrow> nat \<Rightarrow> insn \<Rightarrow> u16 \<Rightarrow> shadow_frame option" where
  "copy_arguments is_range new_shadow_frame sf first_dest_reg num_ins inst inst_data =
     (if is_range
      then let first_src_reg = unat (VRegC_3rc inst)
           in assign_registers new_shadow_frame sf first_dest_reg [first_src_reg..<first_src_reg + num_ins]
      else if num_ins > 5 then None
      else do {
        let regList = Fetch16 inst 2;
        f \<leftarrow> (if num_ins = 5
              then AssignRegister new_shadow_frame sf (first_dest_reg + 4) (unat (shr inst_data 8 AND 0x0f))
              else Some new_shadow_frame);
        let count = (if num_ins = 5 then 4 else num_ins);
        assign_registers f sf first_dest_reg
          (map (\<lambda>arg_index. unat (shr regList (4 * arg_index) AND 0x0f)) [0..<count])
      })"

text \<open>
  The slow path: the new frame is registered as under construction (it is the first frame of the
  chain, where the collector finds it), and every argument is checked against its declared type.
\<close>

definition update_new_frame ::
  "('h istate) \<Rightarrow> (shadow_frame \<Rightarrow> shadow_frame option) \<Rightarrow> 'h istate option" where
  "update_new_frame s upd = (case under_construction s of
     [] \<Rightarrow> None
   | f # fs \<Rightarrow> map_option (\<lambda>f. s\<lparr>under_construction := f # fs\<rparr>) (upd f))"

function copy_arguments_checked ::
  "'h runtime \<Rightarrow> u32 \<Rightarrow> (nat \<Rightarrow> nat option) \<Rightarrow> string \<Rightarrow> nat \<Rightarrow> nat \<Rightarrow> nat \<Rightarrow> nat \<Rightarrow> 'h istate \<Rightarrow>
   (bool \<times> 'h istate) option" where
  "copy_arguments_checked rt method src shorty num_regs shorty_pos dest_reg arg_offset s =
     (if dest_reg < num_regs then
        if shorty_pos + 1 < length shorty then do {
          src_reg \<leftarrow> src arg_offset;
          if shorty ! (shorty_pos + 1) = CHR ''L'' then do {
            obj \<leftarrow> GetVRegReference (frame s) src_reg;
            let (arg_type, s) = (if obj \<noteq> 0 then rt_resolve rt (GetClassFromTypeIndex method shorty_pos) s
                                 else (0, s));
            if obj \<noteq> 0 \<and> arg_type = 0 then (if IsExceptionPending s then Some (False, s) else None)
            else if obj \<noteq> 0 \<and> \<not> rt_ask rt (VerifierInstanceOf obj arg_type) s
            then Some (False, rt_do rt (Throw VirtualMachineError) s)
            else do {
              s \<leftarrow> update_new_frame s (\<lambda>f. SetVRegReference f dest_reg obj);
              copy_arguments_checked rt method src shorty num_regs (shorty_pos + 1) (dest_reg + 1)
                (arg_offset + 1) s
            }
          } else if shorty ! (shorty_pos + 1) \<in> {CHR ''J'', CHR ''D''} then do {
            hi \<leftarrow> GetVReg (frame s) (src_reg + 1);
            lo \<leftarrow> GetVReg (frame s) src_reg;
            s \<leftarrow> update_new_frame s (\<lambda>f. SetVRegLong f dest_reg (shl (ucast hi) 32 OR ucast lo));
            copy_arguments_checked rt method src shorty num_regs (shorty_pos + 1) (dest_reg + 2)
              (arg_offset + 2) s
          } else do {
            v \<leftarrow> GetVReg (frame s) src_reg;
            s \<leftarrow> update_new_frame s (\<lambda>f. SetVReg f dest_reg v);
            copy_arguments_checked rt method src shorty num_regs (shorty_pos + 1) (dest_reg + 1)
              (arg_offset + 1) s
          }
        } else None
      else Some (True, s))"
  by pat_completeness auto
termination
  by (relation "measure (\<lambda>(rt, m, src, sh, n, sp, d, a, s). n - d)") auto

declare copy_arguments_checked.simps [simp del]

definition argument_source :: "bool \<Rightarrow> nat \<Rightarrow> insn \<Rightarrow> u16 \<Rightarrow> nat \<Rightarrow> nat option" where
  "argument_source is_range num_ins inst inst_data k =
     (if is_range then Some (unat (VRegC_3rc inst) + k)
      else if k < num_ins \<and> k < 5 then Some (unat (GetVarArgs (replicate 5 0) inst inst_data ! k))
      else None)"

definition DoCall ::
  "bool \<Rightarrow> bool \<Rightarrow> u32 \<Rightarrow> 'h runtime \<Rightarrow> 'h istate \<Rightarrow> insn \<Rightarrow> u16 \<Rightarrow> (bool \<times> 'h istate) option" where
  "DoCall is_range do_assignability_check called_method rt s inst inst_data =
     (let num_ins = unat (if is_range then VRegA_3rc inst_data else VRegA_35c inst_data);
          num_regs = (case rt_registers_size rt called_method s of Some n \<Rightarrow> unat n | None \<Rightarrow> num_ins);
          new_shadow_frame = create_frame num_regs 0;
          first_dest_reg = num_regs - num_ins;
          src = argument_source is_range num_ins inst inst_data
      in if num_ins > num_regs then None else do {
        ((ok, new_shadow_frame), s) \<leftarrow>
          (if do_assignability_check then do {
             let s = s\<lparr>under_construction := new_shadow_frame # under_construction s\<rparr>;
             let is_static = rt_ask rt (IsStaticMethod called_method) s;
             s \<leftarrow> (if is_static then Some s else do {
               receiver_reg \<leftarrow> src 0;
               receiver \<leftarrow> GetVRegReference (frame s) receiver_reg;
               update_new_frame s (\<lambda>f. SetVRegReference f first_dest_reg receiver)
             });
             let receivers = (if is_static then 0 else 1);
             (ok, s) \<leftarrow> copy_arguments_checked rt called_method src (rt_shorty rt called_method s)
                num_regs 0 (first_dest_reg + receivers) receivers s;
             (case under_construction s of
                [] \<Rightarrow> None
              | f # fs \<Rightarrow> Some (if ok then ((True, f), s\<lparr>under_construction := fs\<rparr>) else ((False, f), s)))
           } else do {
             f \<leftarrow> copy_arguments is_range new_shadow_frame (frame s) first_dest_reg num_ins inst inst_data;
             Some ((True, f), s)
           });
        if \<not> ok then Some (False, s)
        else let s = (if rt_ask rt IsStarted s
                      then rt_do rt (EntryPointFromInterpreter called_method new_shadow_frame) s
                      else rt_do rt (UnstartedRuntimeInvoke called_method new_shadow_frame first_dest_reg) s)
             in Some (\<not> IsExceptionPending s, s)
      })"

definition invoke_found ::
  "bool \<Rightarrow> bool \<Rightarrow> u32 \<Rightarrow> 'h runtime \<Rightarrow> 'h istate \<Rightarrow> insn \<Rightarrow> u16 \<Rightarrow> (bool \<times> 'h istate) option" where
  "invoke_found is_range check called_method rt s inst inst_data =
     (if called_method = 0
      then if IsExceptionPending s then Some (False, s\<lparr>result_register := 0\<rparr>) else None
      else if rt_ask rt (IsAbstract called_method) s
      then Some (False, (rt_do rt (Throw (AbstractMethodError called_method)) s)\<lparr>result_register := 0\<rparr>)
      else DoCall is_range check called_method rt s inst inst_data)"

definition DoInvoke ::
  "InvokeType \<Rightarrow> bool \<Rightarrow> config \<Rightarrow> 'h runtime \<Rightarrow> 'h istate \<Rightarrow> insn \<Rightarrow> u16 \<Rightarrow> (bool \<times> 'h istate) option" where
  "DoInvoke type is_range cfg rt s inst inst_data = do {
     let method_idx = (if is_range then VRegB_3rc inst else VRegB_35c inst);
     let vregC = (if is_range then unat (VRegC_3rc inst) else unat (VRegC_35c inst));
     receiver \<leftarrow> (if type = kStatic then Some 0 else GetVRegReference (frame s) vregC);
     let (called_method, s) = rt_resolve rt (FindMethodFromCode type (ucast method_idx) receiver) s;
     invoke_found is_range (do_access_check cfg) called_method rt s inst inst_data
   }"

definition DoInvokeVirtualQuick ::
  "bool \<Rightarrow> 'h runtime \<Rightarrow> 'h istate \<Rightarrow> insn \<Rightarrow> u16 \<Rightarrow> (bool \<times> 'h istate) option" where
  "DoInvokeVirtualQuick is_range rt s inst inst_data = do {
     let vregC = (if is_range then unat (VRegC_3rc inst) else unat (VRegC_35c inst));
     receiver \<leftarrow> GetVRegReference (frame s) vregC;
     if receiver = 0 then Some (False, rt_do rt (Throw NullPointerException) s)
     else do {
       let vtable_idx = (if is_range then VRegB_3rc inst else VRegB_35c inst);
       let called_method =
         rt_get rt (GetEmbeddedVTableEntry (rt_get rt (GetClass receiver) s) (ucast vtable_idx)) s;
       invoke_found is_range False called_method rt s inst inst_data
     }
   }"

section \<open>Filled arrays\<close>

primrec fill_new_array ::
  "'h runtime \<Rightarrow> bool \<Rightarrow> bool \<Rightarrow> u32 \<Rightarrow> (nat \<Rightarrow> nat option) \<Rightarrow> nat list \<Rightarrow> 'h istate \<Rightarrow> 'h istate option" where
  "fill_new_array rt transaction is_int newArray src [] s = Some s"
| "fill_new_array rt transaction is_int newArray src (i # is) s = do {
     src_reg \<leftarrow> src i;
     s \<leftarrow> (if is_int then do {
             v \<leftarrow> GetVReg (frame s) src_reg;
             SetWithoutChecks rt transaction s newArray i (ucast v)
           } else do {
             obj \<leftarrow> GetVRegReference (frame s) src_reg;
             SetObjectWithoutChecks rt transaction s newArray i obj
           });
     fill_new_array rt transaction is_int newArray src is s
   }"

definition DoFilledNewArray ::
  "bool \<Rightarrow> config \<Rightarrow> 'h runtime \<Rightarrow> 'h istate \<Rightarrow> insn \<Rightarrow> (bool \<times> 'h istate) option" where
  "DoFilledNewArray is_range cfg rt s inst =
     (let inst_data = Fetch16 inst 0;
          length = unat (if is_range then VRegA_3rc inst_data else VRegA_35c inst_data);
          type_idx = (if is_range then VRegB_3rc inst else VRegB_35c inst);
          src = argument_source is_range length inst inst_data
      in if \<not> is_range \<and> length > 5 then None else
      let (arrayClass, s) = rt_resolve rt (ResolveVerifyAndClinit (ucast type_idx)) s in
      if arrayClass = 0 then (if IsExceptionPending s then Some (False, s) else None) else
      let componentClass = rt_get rt (GetComponentType arrayClass) s;
          component_type = rt_primitive_type rt componentClass s in
      if component_type \<noteq> kPrimNot \<and> component_type \<noteq> kPrimInt
      then Some (False, rt_do rt
             (Throw (if component_type \<in> {kPrimLong, kPrimDouble} then RuntimeException else InternalError)) s)
      else let (newArray, s) = rt_resolve rt (Array_Alloc arrayClass (of_nat length)) s in
      if newArray = 0 then (if IsExceptionPending s then Some (False, s) else None)
      else map_option (\<lambda>s. (True, s\<lparr>result_register := ucast newArray\<rparr>))
        (fill_new_array rt (transaction_active cfg)
           (rt_primitive_type rt componentClass s = kPrimInt) newArray src [0..<length] s))"

end
