(* ===== verification/Interpreter.thy ===== *)
theory Interpreter
  imports InterpreterCommon
begin

text \<open>
  \<^verbatim>\<open>ExecuteSwitchImpl\<close> of \<^verbatim>\<open>runtime/interpreter/interpreter_switch_impl.cc\<close>: the interpreter loop
  with one case per opcode. The cases are grouped as in the source; a group is a function from
  the opcode, the instruction and the state to the new state and the way control continues.
  Each case of the source except the returns starts with \<^verbatim>\<open>PREAMBLE\<close>; the dispatcher runs it.
\<close>

section \<open>Control flow of a case\<close>

text \<open>
  \<open>NextUnits n\<close> is \<^verbatim>\<open>inst->Next_nxx()\<close>, \<open>Relative d\<close> is \<^verbatim>\<open>inst->RelativeAt(d)\<close>, \<open>HandlePending\<close> is
  \<^verbatim>\<open>HANDLE_PENDING_EXCEPTION\<close> at the end of the case, \<open>ReturnValue\<close> leaves the loop and \<open>Fatal\<close> is
  \<^verbatim>\<open>UnexpectedOpcode\<close>.
\<close>

datatype flow = NextUnits nat | Relative int | HandlePending | ReturnValue u64 | Fatal

abbreviation (input) Next_1xx :: flow where "Next_1xx \<equiv> NextUnits 1"
abbreviation (input) Next_2xx :: flow where "Next_2xx \<equiv> NextUnits 2"
abbreviation (input) Next_3xx :: flow where "Next_3xx \<equiv> NextUnits 3"
abbreviation (input) Next_51l :: flow where "Next_51l \<equiv> NextUnits 5"

type_synonym 'h exec = "('h istate \<times> flow) option"

definition PREAMBLE :: "'h runtime \<Rightarrow> u32 \<Rightarrow> 'h istate \<Rightarrow> 'h istate" where
  "PREAMBLE rt dex_pc s =
     (if notified_method_entry_event s then s\<lparr>notified_method_entry_event := False\<rparr>
      else if rt_ask rt HasDexPcListeners s then rt_do rt (DexPcMovedEvent dex_pc) s
      else s)"

definition POSSIBLY_HANDLE_PENDING_EXCEPTION :: "bool \<Rightarrow> flow \<Rightarrow> 'h istate \<Rightarrow> 'h exec" where
  "POSSIBLY_HANDLE_PENDING_EXCEPTION is_exception_pending next_flow s =
     Some (s, if is_exception_pending then HandlePending else next_flow)"

definition HANDLE_PENDING_EXCEPTION :: "'h runtime \<Rightarrow> u32 \<Rightarrow> 'h istate \<Rightarrow> (u32 \<times> 'h istate) option" where
  "HANDLE_PENDING_EXCEPTION rt dex_pc s =
     FindNextInstructionFollowingException rt (rt_do rt AllowThreadSuspension s) dex_pc"

text \<open>A call that reports success, followed by \<^verbatim>\<open>POSSIBLY_HANDLE_PENDING_EXCEPTION(!success, next)\<close>.\<close>

definition on_success :: "flow \<Rightarrow> (bool \<times> 'h istate) option \<Rightarrow> 'h exec" where
  "on_success next_flow r = do { (success, s) \<leftarrow> r; POSSIBLY_HANDLE_PENDING_EXCEPTION (\<not> success) next_flow s }"

definition proceed :: "flow \<Rightarrow> 'h istate option \<Rightarrow> 'h exec" where
  "proceed next_flow r = map_option (\<lambda>s. (s, next_flow)) r"

definition throw_null_pointer :: "'h runtime \<Rightarrow> 'h istate \<Rightarrow> 'h exec" where
  "throw_null_pointer rt s = Some (rt_do rt (Throw NullPointerException) s, HandlePending)"

definition branch :: "'h runtime \<Rightarrow> int \<Rightarrow> 'h istate \<Rightarrow> 'h exec" where
  "branch rt offset s =
     Some (if IsBackwardBranch offset then rt_do rt AllowThreadSuspension s else s, Relative offset)"

lemmas exec_defs = POSSIBLY_HANDLE_PENDING_EXCEPTION_def on_success_def proceed_def
  throw_null_pointer_def branch_def

section \<open>Moves\<close>

definition move_vreg :: "'h istate \<Rightarrow> nat \<Rightarrow> nat \<Rightarrow> 'h istate option" where
  "move_vreg s dst src = do { v \<leftarrow> GetVReg (frame s) src; set_vreg s dst v }"

definition move_vreg_long :: "'h istate \<Rightarrow> nat \<Rightarrow> nat \<Rightarrow> 'h istate option" where
  "move_vreg_long s dst src = do { v \<leftarrow> GetVRegLong (frame s) src; set_vreg_long s dst v }"

definition move_vreg_ref :: "'h istate \<Rightarrow> nat \<Rightarrow> nat \<Rightarrow> 'h istate option" where
  "move_vreg_ref s dst src = do { v \<leftarrow> GetVRegReference (frame s) src; set_vreg_ref s dst v }"

definition exec_move :: "nat \<Rightarrow> insn \<Rightarrow> u16 \<Rightarrow> 'h istate \<Rightarrow> 'h exec" where
  "exec_move op inst inst_data s =
     (if op = NOP then Some (s, Next_1xx)
      else if op = MOVE then
        proceed Next_1xx (move_vreg s (unat (VRegA_12x inst_data)) (unat (VRegB_12x inst_data)))
      else if op = MOVE_FROM16 then
        proceed Next_2xx (move_vreg s (unat (VRegA_22x inst_data)) (unat (VRegB_22x inst)))
      else if op = MOVE_16 then
        proceed Next_3xx (move_vreg s (unat (VRegA_32x inst)) (unat (VRegB_32x inst)))
      else if op = MOVE_WIDE then
        proceed Next_1xx (move_vreg_long s (unat (VRegA_12x inst_data)) (unat (VRegB_12x inst_data)))
      else if op = MOVE_WIDE_FROM16 then
        proceed Next_2xx (move_vreg_long s (unat (VRegA_22x inst_data)) (unat (VRegB_22x inst)))
      else if op = MOVE_WIDE_16 then
        proceed Next_3xx (move_vreg_long s (unat (VRegA_32x inst)) (unat (VRegB_32x inst)))
      else if op = MOVE_OBJECT then
        proceed Next_1xx (move_vreg_ref s (unat (VRegA_12x inst_data)) (unat (VRegB_12x inst_data)))
      else if op = MOVE_OBJECT_FROM16 then
        proceed Next_2xx (move_vreg_ref s (unat (VRegA_22x inst_data)) (unat (VRegB_22x inst)))
      else if op = MOVE_OBJECT_16 then
        proceed Next_3xx (move_vreg_ref s (unat (VRegA_32x inst)) (unat (VRegB_32x inst)))
      else if op = MOVE_RESULT then
        proceed Next_1xx (set_vreg s (unat (VRegA_11x inst_data)) (ucast (result_register s)))
      else if op = MOVE_RESULT_WIDE then
        proceed Next_1xx (set_vreg_long s (unat (VRegA_11x inst_data)) (result_register s))
      else if op = MOVE_RESULT_OBJECT then
        proceed Next_1xx (set_vreg_ref s (unat (VRegA_11x inst_data)) (ucast (result_register s)))
      else if op = MOVE_EXCEPTION then
        proceed Next_1xx
          (map_option ClearException (set_vreg_ref s (unat (VRegA_11x inst_data)) (exception s)))
      else None)"

section \<open>Returns\<close>

text \<open>The events at the end of a method; \<open>exit_pc\<close> is \<^verbatim>\<open>inst->GetDexPc(insns)\<close>.\<close>

definition return_with :: "'h runtime \<Rightarrow> u32 \<Rightarrow> u32 \<Rightarrow> u64 \<Rightarrow> 'h istate \<Rightarrow> 'h exec" where
  "return_with rt dex_pc exit_pc result s =
     Some (if rt_ask rt HasMethodExitListeners s then rt_do rt (MethodExitEvent exit_pc result) s
           else if rt_ask rt HasDexPcListeners s then rt_do rt (DexPcMovedEvent dex_pc) s
           else s, ReturnValue result)"

text \<open>
  In \<^verbatim>\<open>RETURN_OBJECT\<close> the macro \<^verbatim>\<open>HANDLE_PENDING_EXCEPTION\<close> is not followed by a \<^verbatim>\<open>break\<close>. When a
  handler is found, the case goes on: with a null return type it then dereferences it, otherwise
  it returns the object.
\<close>

definition exec_return_object ::
  "config \<Rightarrow> 'h runtime \<Rightarrow> u32 \<Rightarrow> u16 \<Rightarrow> 'h istate \<Rightarrow> 'h exec" where
  "exec_return_object cfg rt dex_pc inst_data s = do {
     let s = rt_do rt AllowThreadSuspension s;
     let ref_idx = unat (VRegA_11x inst_data);
     obj_result \<leftarrow> GetVRegReference (frame s) ref_idx;
     if do_access_check cfg \<and> obj_result \<noteq> 0 then do {
       let (return_type, s) = rt_resolve rt GetReturnType s;
       obj_result \<leftarrow> GetVRegReference (frame s) ref_idx;
       if return_type = 0 then do {
         (found_dex_pc, s) \<leftarrow> HANDLE_PENDING_EXCEPTION rt dex_pc s;
         if found_dex_pc = kDexNoIndex then Some (s, ReturnValue 0) else None
       } else if \<not> rt_ask rt (VerifierInstanceOf obj_result return_type) s then do {
         let s = rt_do rt (Throw VirtualMachineError) s;
         (found_dex_pc, s) \<leftarrow> HANDLE_PENDING_EXCEPTION rt dex_pc s;
         if found_dex_pc = kDexNoIndex then Some (s, ReturnValue 0)
         else return_with rt dex_pc found_dex_pc (ucast obj_result) s
       } else return_with rt dex_pc dex_pc (ucast obj_result) s
     } else return_with rt dex_pc dex_pc (ucast obj_result) s
   }"

definition exec_return ::
  "nat \<Rightarrow> config \<Rightarrow> 'h runtime \<Rightarrow> u32 \<Rightarrow> u16 \<Rightarrow> 'h istate \<Rightarrow> 'h exec" where
  "exec_return op cfg rt dex_pc inst_data s =
     (if op = RETURN_VOID \<or> op = RETURN_VOID_BARRIER then
        return_with rt dex_pc dex_pc 0 (rt_do rt AllowThreadSuspension s)
      else if op = RETURN then do {
        v \<leftarrow> GetVReg (frame s) (unat (VRegA_11x inst_data));
        return_with rt dex_pc dex_pc (ucast v) (rt_do rt AllowThreadSuspension s)
      }
      else if op = RETURN_WIDE then do {
        v \<leftarrow> GetVRegLong (frame s) (unat (VRegA_11x inst_data));
        return_with rt dex_pc dex_pc v (rt_do rt AllowThreadSuspension s)
      }
      else if op = RETURN_OBJECT then exec_return_object cfg rt dex_pc inst_data s
      else None)"

section \<open>Constants\<close>

definition set_const :: "'h istate \<Rightarrow> nat \<Rightarrow> u32 \<Rightarrow> 'h istate option" where
  "set_const s dst val = do {
     s \<leftarrow> set_vreg s dst val;
     if val = 0 then set_vreg_ref s dst 0 else Some s
   }"

text \<open>A resolved object goes to a register; null means that an exception is pending.\<close>

definition set_resolved :: "nat \<Rightarrow> flow \<Rightarrow> u32 \<times> 'h istate \<Rightarrow> 'h exec" where
  "set_resolved dst next_flow r =
     (case r of (obj, s) \<Rightarrow>
        if obj = 0 then Some (s, HandlePending) else proceed next_flow (set_vreg_ref s dst obj))"

definition exec_const :: "nat \<Rightarrow> 'h runtime \<Rightarrow> insn \<Rightarrow> u16 \<Rightarrow> 'h istate \<Rightarrow> 'h exec" where
  "exec_const op rt inst inst_data s =
     (if op = CONST_4 then
        proceed Next_1xx (set_const s (unat (VRegA_11n inst_data)) (scast (VRegB_11n inst_data)))
      else if op = CONST_16 then
        proceed Next_2xx (set_const s (unat (VRegA_21s inst_data)) (scast (VRegB_21s inst)))
      else if op = CONST_32 then
        proceed Next_3xx (set_const s (unat (VRegA_31i inst_data)) (VRegB_31i inst))
      else if op = CONST_HIGH16 then
        proceed Next_2xx (set_const s (unat (VRegA_21h inst_data)) (shl (ucast (VRegB_21h inst)) 16))
      else if op = CONST_WIDE_16 then
        proceed Next_2xx (set_vreg_long s (unat (VRegA_21s inst_data)) (scast (VRegB_21s inst)))
      else if op = CONST_WIDE_32 then
        proceed Next_3xx (set_vreg_long s (unat (VRegA_31i inst_data)) (scast (VRegB_31i inst)))
      else if op = CONST_WIDE then
        proceed Next_51l (set_vreg_long s (unat (VRegA_51l inst_data)) (VRegB_51l inst))
      else if op = CONST_WIDE_HIGH16 then
        proceed Next_2xx
          (set_vreg_long s (unat (VRegA_21h inst_data)) (shl (ucast (VRegB_21h inst)) 48))
      else if op = CONST_STRING then
        set_resolved (unat (VRegA_21c inst_data)) Next_2xx
          (rt_resolve rt (ResolveString (ucast (VRegB_21c inst))) s)
      else if op = CONST_STRING_JUMBO then
        set_resolved (unat (VRegA_31c inst_data)) Next_3xx
          (rt_resolve rt (ResolveString (VRegB_31c inst)) s)
      else if op = CONST_CLASS then
        set_resolved (unat (VRegA_21c inst_data)) Next_2xx
          (rt_resolve rt (ResolveVerifyAndClinit (ucast (VRegB_21c inst))) s)
      else None)"

section \<open>Monitors and casts\<close>

definition exec_monitor :: "(u32 \<Rightarrow> action) \<Rightarrow> 'h runtime \<Rightarrow> u16 \<Rightarrow> 'h istate \<Rightarrow> 'h exec" where
  "exec_monitor act rt inst_data s = do {
     obj \<leftarrow> GetVRegReference (frame s) (unat (VRegA_11x inst_data));
     if obj = 0 then throw_null_pointer rt s
     else let s = rt_do rt (act obj) s
          in POSSIBLY_HANDLE_PENDING_EXCEPTION (IsExceptionPending s) Next_1xx s
   }"

definition exec_check_cast :: "'h runtime \<Rightarrow> insn \<Rightarrow> u16 \<Rightarrow> 'h istate \<Rightarrow> 'h exec" where
  "exec_check_cast rt inst inst_data s = do {
     let (c, s) = rt_resolve rt (ResolveVerifyAndClinit (ucast (VRegB_21c inst))) s;
     if c = 0 then Some (s, HandlePending)
     else do {
       obj \<leftarrow> GetVRegReference (frame s) (unat (VRegA_21c inst_data));
       if obj \<noteq> 0 \<and> \<not> rt_ask rt (InstanceOf obj c) s
       then Some (rt_do rt (Throw (ClassCastException c (rt_get rt (GetClass obj) s))) s, HandlePending)
       else Some (s, Next_2xx)
     }
   }"

definition exec_instance_of :: "'h runtime \<Rightarrow> insn \<Rightarrow> u16 \<Rightarrow> 'h istate \<Rightarrow> 'h exec" where
  "exec_instance_of rt inst inst_data s = do {
     let (c, s) = rt_resolve rt (ResolveVerifyAndClinit (ucast (VRegC_22c inst))) s;
     if c = 0 then Some (s, HandlePending)
     else do {
       obj \<leftarrow> GetVRegReference (frame s) (unat (VRegB_22c inst_data));
       proceed Next_2xx (set_vreg s (unat (VRegA_22c inst_data))
         (if obj \<noteq> 0 \<and> rt_ask rt (InstanceOf obj c) s then 1 else 0))
     }
   }"

section \<open>Allocation and exceptions\<close>

definition exec_array_length :: "'h runtime \<Rightarrow> u16 \<Rightarrow> 'h istate \<Rightarrow> 'h exec" where
  "exec_array_length rt inst_data s = do {
     array \<leftarrow> GetVRegReference (frame s) (unat (VRegB_12x inst_data));
     if array = 0 then throw_null_pointer rt s
     else do {
       arr \<leftarrow> arrays s array;
       proceed Next_1xx (set_vreg s (unat (VRegA_12x inst_data)) (array_length arr))
     }
   }"

definition exec_new_instance :: "config \<Rightarrow> 'h runtime \<Rightarrow> insn \<Rightarrow> u16 \<Rightarrow> 'h istate \<Rightarrow> 'h exec" where
  "exec_new_instance cfg rt inst inst_data s =
     (let (obj, s) = rt_resolve rt (AllocObjectFromCode (ucast (VRegB_21c inst))) s in
      if obj = 0 then Some (s, HandlePending)
      else if transaction_active cfg \<and> rt_ask rt (IsFinalizable (rt_get rt (GetClass obj) s)) s
      then Some (rt_do rt (Throw InternalError) s, HandlePending)
      else proceed Next_2xx (set_vreg_ref s (unat (VRegA_21c inst_data)) obj))"

definition exec_new_array :: "'h runtime \<Rightarrow> insn \<Rightarrow> u16 \<Rightarrow> 'h istate \<Rightarrow> 'h exec" where
  "exec_new_array rt inst inst_data s = do {
     length \<leftarrow> GetVReg (frame s) (unat (VRegB_22c inst_data));
     set_resolved (unat (VRegA_22c inst_data)) Next_2xx
       (rt_resolve rt (AllocArrayFromCode (ucast (VRegC_22c inst)) length) s)
   }"

definition exec_fill_array_data :: "config \<Rightarrow> 'h runtime \<Rightarrow> insn \<Rightarrow> u16 \<Rightarrow> 'h istate \<Rightarrow> 'h exec" where
  "exec_fill_array_data cfg rt inst inst_data s = do {
     let payload = RelativeAt inst (sint (VRegB_31t inst));
     obj \<leftarrow> GetVRegReference (frame s) (unat (VRegA_31t inst_data));
     (success, s) \<leftarrow> FillArrayData rt s obj payload;
     if \<not> success then Some (s, HandlePending)
     else if transaction_active cfg
     then proceed Next_3xx (RecordArrayElementsInTransaction rt s obj (element_count payload))
     else Some (s, Next_3xx)
   }"

definition exec_throw :: "config \<Rightarrow> 'h runtime \<Rightarrow> u16 \<Rightarrow> 'h istate \<Rightarrow> 'h exec" where
  "exec_throw cfg rt inst_data s = do {
     exn \<leftarrow> GetVRegReference (frame s) (unat (VRegA_11x inst_data));
     Some (if exn = 0 then rt_do rt (Throw ThrowNullException) s
           else if do_access_check cfg \<and> \<not> rt_ask rt (IsThrowableClass (rt_get rt (GetClass exn) s)) s
           then rt_do rt (Throw VirtualMachineError) s
           else SetException exn s, HandlePending)
   }"

definition exec_object :: "nat \<Rightarrow> config \<Rightarrow> 'h runtime \<Rightarrow> insn \<Rightarrow> u16 \<Rightarrow> 'h istate \<Rightarrow> 'h exec" where
  "exec_object op cfg rt inst inst_data s =
     (if op = MONITOR_ENTER then
        exec_monitor MonitorEnter rt inst_data s
      else if op = MONITOR_EXIT then
        exec_monitor MonitorExit rt inst_data s
      else if op = CHECK_CAST then
        exec_check_cast rt inst inst_data s
      else if op = INSTANCE_OF then
        exec_instance_of rt inst inst_data s
      else if op = ARRAY_LENGTH then
        exec_array_length rt inst_data s
      else if op = NEW_INSTANCE then
        exec_new_instance cfg rt inst inst_data s
      else if op = NEW_ARRAY then
        exec_new_array rt inst inst_data s
      else if op = FILLED_NEW_ARRAY then
        on_success Next_3xx (DoFilledNewArray False cfg rt s inst)
      else if op = FILLED_NEW_ARRAY_RANGE then
        on_success Next_3xx (DoFilledNewArray True cfg rt s inst)
      else if op = FILL_ARRAY_DATA then
        exec_fill_array_data cfg rt inst inst_data s
      else if op = THROW then
        exec_throw cfg rt inst_data s
      else None)"

section \<open>Jumps and comparisons\<close>

definition exec_goto :: "nat \<Rightarrow> 'h runtime \<Rightarrow> insn \<Rightarrow> u16 \<Rightarrow> 'h istate \<Rightarrow> 'h exec" where
  "exec_goto op rt inst inst_data s =
     (if op = GOTO then
        branch rt (sint (VRegA_10t inst_data)) s
      else if op = GOTO_16 then
        branch rt (sint (VRegA_20t inst)) s
      else if op = GOTO_32 then
        branch rt (sint (VRegA_30t inst)) s
      else if op = PACKED_SWITCH then
        do { offset \<leftarrow> DoPackedSwitch inst (frame s) inst_data; branch rt (sint offset) s }
      else if op = SPARSE_SWITCH then
        do { offset \<leftarrow> DoSparseSwitch inst (frame s) inst_data; branch rt (sint offset) s }
      else None)"

text \<open>The three way comparisons; the two float versions differ in the order of the tests.\<close>

definition cmpl :: "('a \<Rightarrow> 'a \<Rightarrow> bool) \<Rightarrow> ('a \<Rightarrow> 'a \<Rightarrow> bool) \<Rightarrow> 'a \<Rightarrow> 'a \<Rightarrow> u32" where
  "cmpl gt eq val1 val2 = (if gt val1 val2 then 1 else if eq val1 val2 then 0 else -1)"

definition cmpg :: "('a \<Rightarrow> 'a \<Rightarrow> bool) \<Rightarrow> ('a \<Rightarrow> 'a \<Rightarrow> bool) \<Rightarrow> 'a \<Rightarrow> 'a \<Rightarrow> u32" where
  "cmpg lt eq val1 val2 = (if lt val1 val2 then -1 else if eq val1 val2 then 0 else 1)"

definition compare_vregs ::
  "(shadow_frame \<Rightarrow> nat \<Rightarrow> 'a option) \<Rightarrow> ('a \<Rightarrow> 'a \<Rightarrow> u32) \<Rightarrow> insn \<Rightarrow> u16 \<Rightarrow> 'h istate \<Rightarrow> 'h exec" where
  "compare_vregs get f inst inst_data s = do {
     val1 \<leftarrow> get (frame s) (unat (VRegB_23x inst));
     val2 \<leftarrow> get (frame s) (unat (VRegC_23x inst));
     proceed Next_2xx (set_vreg s (unat (VRegA_23x inst_data)) (f val1 val2))
   }"

definition exec_cmp :: "nat \<Rightarrow> fpu \<Rightarrow> insn \<Rightarrow> u16 \<Rightarrow> 'h istate \<Rightarrow> 'h exec" where
  "exec_cmp op fp inst inst_data s =
     (if op = CMPL_FLOAT then
        compare_vregs GetVRegFloat (cmpl (f_gt fp) (f_eq fp)) inst inst_data s
      else if op = CMPG_FLOAT then
        compare_vregs GetVRegFloat (cmpg (f_lt fp) (f_eq fp)) inst inst_data s
      else if op = CMPL_DOUBLE then
        compare_vregs GetVRegDouble (cmpl (d_gt fp) (d_eq fp)) inst inst_data s
      else if op = CMPG_DOUBLE then
        compare_vregs GetVRegDouble (cmpg (d_lt fp) (d_eq fp)) inst inst_data s
      else if op = CMP_LONG then
        compare_vregs GetVRegLong (cmpl (\<lambda>x y. sint x > sint y) (=)) inst inst_data s
      else None)"

definition if_test :: "(int \<Rightarrow> int \<Rightarrow> bool) \<Rightarrow> 'h runtime \<Rightarrow> insn \<Rightarrow> u16 \<Rightarrow> 'h istate \<Rightarrow> 'h exec" where
  "if_test rel rt inst inst_data s = do {
     a \<leftarrow> GetVReg (frame s) (unat (VRegA_22t inst_data));
     b \<leftarrow> GetVReg (frame s) (unat (VRegB_22t inst_data));
     if rel (sint a) (sint b) then branch rt (sint (VRegC_22t inst)) s else Some (s, Next_2xx)
   }"

definition if_testz :: "(int \<Rightarrow> int \<Rightarrow> bool) \<Rightarrow> 'h runtime \<Rightarrow> insn \<Rightarrow> u16 \<Rightarrow> 'h istate \<Rightarrow> 'h exec" where
  "if_testz rel rt inst inst_data s = do {
     a \<leftarrow> GetVReg (frame s) (unat (VRegA_21t inst_data));
     if rel (sint a) 0 then branch rt (sint (VRegB_21t inst)) s else Some (s, Next_2xx)
   }"

definition exec_if :: "nat \<Rightarrow> 'h runtime \<Rightarrow> insn \<Rightarrow> u16 \<Rightarrow> 'h istate \<Rightarrow> 'h exec" where
  "exec_if op rt inst inst_data s =
     (if op = IF_EQ then
        if_test (=) rt inst inst_data s
      else if op = IF_NE then
        if_test (\<noteq>) rt inst inst_data s
      else if op = IF_LT then
        if_test (<) rt inst inst_data s
      else if op = IF_GE then
        if_test (\<ge>) rt inst inst_data s
      else if op = IF_GT then
        if_test (>) rt inst inst_data s
      else if op = IF_LE then
        if_test (\<le>) rt inst inst_data s
      else if op = IF_EQZ then
        if_testz (=) rt inst inst_data s
      else if op = IF_NEZ then
        if_testz (\<noteq>) rt inst inst_data s
      else if op = IF_LTZ then
        if_testz (<) rt inst inst_data s
      else if op = IF_GEZ then
        if_testz (\<ge>) rt inst inst_data s
      else if op = IF_GTZ then
        if_testz (>) rt inst inst_data s
      else if op = IF_LEZ then
        if_testz (\<le>) rt inst inst_data s
      else None)"

section \<open>Array elements\<close>

definition aget ::
  "Primitive \<Rightarrow> Primitive list \<Rightarrow> 'h runtime \<Rightarrow> insn \<Rightarrow> u16 \<Rightarrow> 'h istate \<Rightarrow> 'h exec" where
  "aget type types rt inst inst_data s = do {
     a \<leftarrow> GetVRegReference (frame s) (unat (VRegB_23x inst));
     if a = 0 then throw_null_pointer rt s
     else do {
       index \<leftarrow> GetVReg (frame s) (unat (VRegC_23x inst));
       arr \<leftarrow> AsArray types s a;
       let (valid, s) = CheckIsValidIndex rt s arr index;
       if valid
       then proceed Next_2xx
         (set_field_vreg type s (unat (VRegA_23x inst_data)) (get_element arr (unat index)))
       else Some (s, HandlePending)
     }
   }"

definition aput ::
  "Primitive \<Rightarrow> Primitive list \<Rightarrow> config \<Rightarrow> 'h runtime \<Rightarrow> insn \<Rightarrow> u16 \<Rightarrow> 'h istate \<Rightarrow> 'h exec" where
  "aput type types cfg rt inst inst_data s = do {
     a \<leftarrow> GetVRegReference (frame s) (unat (VRegB_23x inst));
     if a = 0 then throw_null_pointer rt s
     else do {
       val \<leftarrow> field_store_value type (frame s) (unat (VRegA_23x inst_data));
       index \<leftarrow> GetVReg (frame s) (unat (VRegC_23x inst));
       arr \<leftarrow> AsArray types s a;
       let (valid, s) = CheckIsValidIndex rt s arr index;
       if valid
       then proceed Next_2xx (SetWithoutChecks rt (transaction_active cfg) s a (unat index) val)
       else Some (s, HandlePending)
     }
   }"

definition aput_object :: "config \<Rightarrow> 'h runtime \<Rightarrow> insn \<Rightarrow> u16 \<Rightarrow> 'h istate \<Rightarrow> 'h exec" where
  "aput_object cfg rt inst inst_data s = do {
     a \<leftarrow> GetVRegReference (frame s) (unat (VRegB_23x inst));
     if a = 0 then throw_null_pointer rt s
     else do {
       index \<leftarrow> GetVReg (frame s) (unat (VRegC_23x inst));
       val \<leftarrow> GetVRegReference (frame s) (unat (VRegA_23x inst_data));
       arr \<leftarrow> AsArray [kPrimNot] s a;
       let (valid, s) = CheckIsValidIndex rt s arr index;
       let (valid, s) = (if valid then CheckAssignable rt s a val else (False, s));
       if valid
       then proceed Next_2xx (SetObjectWithoutChecks rt (transaction_active cfg) s a (unat index) val)
       else Some (s, HandlePending)
     }
   }"

definition exec_aget :: "nat \<Rightarrow> 'h runtime \<Rightarrow> insn \<Rightarrow> u16 \<Rightarrow> 'h istate \<Rightarrow> 'h exec" where
  "exec_aget op rt inst inst_data s =
     (if op = AGET_BOOLEAN then
        aget kPrimBoolean [kPrimBoolean] rt inst inst_data s
      else if op = AGET_BYTE then
        aget kPrimByte [kPrimByte] rt inst inst_data s
      else if op = AGET_CHAR then
        aget kPrimChar [kPrimChar] rt inst inst_data s
      else if op = AGET_SHORT then
        aget kPrimShort [kPrimShort] rt inst inst_data s
      else if op = AGET then
        aget kPrimInt [kPrimInt, kPrimFloat] rt inst inst_data s
      else if op = AGET_WIDE then
        aget kPrimLong [kPrimLong, kPrimDouble] rt inst inst_data s
      else if op = AGET_OBJECT then
        aget kPrimNot [kPrimNot] rt inst inst_data s
      else None)"

definition exec_aput :: "nat \<Rightarrow> config \<Rightarrow> 'h runtime \<Rightarrow> insn \<Rightarrow> u16 \<Rightarrow> 'h istate \<Rightarrow> 'h exec" where
  "exec_aput op cfg rt inst inst_data s =
     (if op = APUT_BOOLEAN then
        aput kPrimBoolean [kPrimBoolean] cfg rt inst inst_data s
      else if op = APUT_BYTE then
        aput kPrimByte [kPrimByte] cfg rt inst inst_data s
      else if op = APUT_CHAR then
        aput kPrimChar [kPrimChar] cfg rt inst inst_data s
      else if op = APUT_SHORT then
        aput kPrimShort [kPrimShort] cfg rt inst inst_data s
      else if op = APUT then
        aput kPrimInt [kPrimInt, kPrimFloat] cfg rt inst inst_data s
      else if op = APUT_WIDE then
        aput kPrimLong [kPrimLong, kPrimDouble] cfg rt inst inst_data s
      else if op = APUT_OBJECT then
        aput_object cfg rt inst inst_data s
      else None)"

section \<open>Fields\<close>

definition exec_iget :: "nat \<Rightarrow> 'h runtime \<Rightarrow> insn \<Rightarrow> u16 \<Rightarrow> 'h istate \<Rightarrow> 'h exec" where
  "exec_iget op rt inst inst_data s =
     (if op = IGET_BOOLEAN then
        on_success Next_2xx (DoFieldGet InstancePrimitiveRead kPrimBoolean rt s inst inst_data)
      else if op = IGET_BYTE then
        on_success Next_2xx (DoFieldGet InstancePrimitiveRead kPrimByte rt s inst inst_data)
      else if op = IGET_CHAR then
        on_success Next_2xx (DoFieldGet InstancePrimitiveRead kPrimChar rt s inst inst_data)
      else if op = IGET_SHORT then
        on_success Next_2xx (DoFieldGet InstancePrimitiveRead kPrimShort rt s inst inst_data)
      else if op = IGET then
        on_success Next_2xx (DoFieldGet InstancePrimitiveRead kPrimInt rt s inst inst_data)
      else if op = IGET_WIDE then
        on_success Next_2xx (DoFieldGet InstancePrimitiveRead kPrimLong rt s inst inst_data)
      else if op = IGET_OBJECT then
        on_success Next_2xx (DoFieldGet InstanceObjectRead kPrimNot rt s inst inst_data)
      else if op = IGET_QUICK then
        on_success Next_2xx (DoIGetQuick kPrimInt rt s inst inst_data)
      else if op = IGET_WIDE_QUICK then
        on_success Next_2xx (DoIGetQuick kPrimLong rt s inst inst_data)
      else if op = IGET_OBJECT_QUICK then
        on_success Next_2xx (DoIGetQuick kPrimNot rt s inst inst_data)
      else None)"

definition exec_sget :: "nat \<Rightarrow> 'h runtime \<Rightarrow> insn \<Rightarrow> u16 \<Rightarrow> 'h istate \<Rightarrow> 'h exec" where
  "exec_sget op rt inst inst_data s =
     (if op = SGET_BOOLEAN then
        on_success Next_2xx (DoFieldGet StaticPrimitiveRead kPrimBoolean rt s inst inst_data)
      else if op = SGET_BYTE then
        on_success Next_2xx (DoFieldGet StaticPrimitiveRead kPrimByte rt s inst inst_data)
      else if op = SGET_CHAR then
        on_success Next_2xx (DoFieldGet StaticPrimitiveRead kPrimChar rt s inst inst_data)
      else if op = SGET_SHORT then
        on_success Next_2xx (DoFieldGet StaticPrimitiveRead kPrimShort rt s inst inst_data)
      else if op = SGET then
        on_success Next_2xx (DoFieldGet StaticPrimitiveRead kPrimInt rt s inst inst_data)
      else if op = SGET_WIDE then
        on_success Next_2xx (DoFieldGet StaticPrimitiveRead kPrimLong rt s inst inst_data)
      else if op = SGET_OBJECT then
        on_success Next_2xx (DoFieldGet StaticObjectRead kPrimNot rt s inst inst_data)
      else None)"

definition exec_iput :: "nat \<Rightarrow> config \<Rightarrow> 'h runtime \<Rightarrow> insn \<Rightarrow> u16 \<Rightarrow> 'h istate \<Rightarrow> 'h exec" where
  "exec_iput op cfg rt inst inst_data s =
     (if op = IPUT_BOOLEAN then
        on_success Next_2xx (DoFieldPut InstancePrimitiveWrite kPrimBoolean cfg rt s inst inst_data)
      else if op = IPUT_BYTE then
        on_success Next_2xx (DoFieldPut InstancePrimitiveWrite kPrimByte cfg rt s inst inst_data)
      else if op = IPUT_CHAR then
        on_success Next_2xx (DoFieldPut InstancePrimitiveWrite kPrimChar cfg rt s inst inst_data)
      else if op = IPUT_SHORT then
        on_success Next_2xx (DoFieldPut InstancePrimitiveWrite kPrimShort cfg rt s inst inst_data)
      else if op = IPUT then
        on_success Next_2xx (DoFieldPut InstancePrimitiveWrite kPrimInt cfg rt s inst inst_data)
      else if op = IPUT_WIDE then
        on_success Next_2xx (DoFieldPut InstancePrimitiveWrite kPrimLong cfg rt s inst inst_data)
      else if op = IPUT_OBJECT then
        on_success Next_2xx (DoFieldPut InstanceObjectWrite kPrimNot cfg rt s inst inst_data)
      else if op = IPUT_QUICK then
        on_success Next_2xx (DoIPutQuick kPrimInt rt s inst inst_data)
      else if op = IPUT_BOOLEAN_QUICK then
        on_success Next_2xx (DoIPutQuick kPrimBoolean rt s inst inst_data)
      else if op = IPUT_BYTE_QUICK then
        on_success Next_2xx (DoIPutQuick kPrimByte rt s inst inst_data)
      else if op = IPUT_CHAR_QUICK then
        on_success Next_2xx (DoIPutQuick kPrimChar rt s inst inst_data)
      else if op = IPUT_SHORT_QUICK then
        on_success Next_2xx (DoIPutQuick kPrimShort rt s inst inst_data)
      else if op = IPUT_WIDE_QUICK then
        on_success Next_2xx (DoIPutQuick kPrimLong rt s inst inst_data)
      else if op = IPUT_OBJECT_QUICK then
        on_success Next_2xx (DoIPutQuick kPrimNot rt s inst inst_data)
      else None)"

definition exec_sput :: "nat \<Rightarrow> config \<Rightarrow> 'h runtime \<Rightarrow> insn \<Rightarrow> u16 \<Rightarrow> 'h istate \<Rightarrow> 'h exec" where
  "exec_sput op cfg rt inst inst_data s =
     (if op = SPUT_BOOLEAN then
        on_success Next_2xx (DoFieldPut StaticPrimitiveWrite kPrimBoolean cfg rt s inst inst_data)
      else if op = SPUT_BYTE then
        on_success Next_2xx (DoFieldPut StaticPrimitiveWrite kPrimByte cfg rt s inst inst_data)
      else if op = SPUT_CHAR then
        on_success Next_2xx (DoFieldPut StaticPrimitiveWrite kPrimChar cfg rt s inst inst_data)
      else if op = SPUT_SHORT then
        on_success Next_2xx (DoFieldPut StaticPrimitiveWrite kPrimShort cfg rt s inst inst_data)
      else if op = SPUT then
        on_success Next_2xx (DoFieldPut StaticPrimitiveWrite kPrimInt cfg rt s inst inst_data)
      else if op = SPUT_WIDE then
        on_success Next_2xx (DoFieldPut StaticPrimitiveWrite kPrimLong cfg rt s inst inst_data)
      else if op = SPUT_OBJECT then
        on_success Next_2xx (DoFieldPut StaticObjectWrite kPrimNot cfg rt s inst inst_data)
      else None)"

section \<open>Invocations\<close>

definition exec_invoke :: "nat \<Rightarrow> config \<Rightarrow> 'h runtime \<Rightarrow> insn \<Rightarrow> u16 \<Rightarrow> 'h istate \<Rightarrow> 'h exec" where
  "exec_invoke op cfg rt inst inst_data s =
     (if op = INVOKE_VIRTUAL then
        on_success Next_3xx (DoInvoke kVirtual False cfg rt s inst inst_data)
      else if op = INVOKE_VIRTUAL_RANGE then
        on_success Next_3xx (DoInvoke kVirtual True cfg rt s inst inst_data)
      else if op = INVOKE_SUPER then
        on_success Next_3xx (DoInvoke kSuper False cfg rt s inst inst_data)
      else if op = INVOKE_SUPER_RANGE then
        on_success Next_3xx (DoInvoke kSuper True cfg rt s inst inst_data)
      else if op = INVOKE_DIRECT then
        on_success Next_3xx (DoInvoke kDirect False cfg rt s inst inst_data)
      else if op = INVOKE_DIRECT_RANGE then
        on_success Next_3xx (DoInvoke kDirect True cfg rt s inst inst_data)
      else if op = INVOKE_INTERFACE then
        on_success Next_3xx (DoInvoke kInterface False cfg rt s inst inst_data)
      else if op = INVOKE_INTERFACE_RANGE then
        on_success Next_3xx (DoInvoke kInterface True cfg rt s inst inst_data)
      else if op = INVOKE_STATIC then
        on_success Next_3xx (DoInvoke kStatic False cfg rt s inst inst_data)
      else if op = INVOKE_STATIC_RANGE then
        on_success Next_3xx (DoInvoke kStatic True cfg rt s inst inst_data)
      else if op = INVOKE_VIRTUAL_QUICK then
        on_success Next_3xx (DoInvokeVirtualQuick False rt s inst inst_data)
      else if op = INVOKE_VIRTUAL_RANGE_QUICK then
        on_success Next_3xx (DoInvokeVirtualQuick True rt s inst inst_data)
      else None)"

section \<open>Unary operations and conversions\<close>

definition unary ::
  "(shadow_frame \<Rightarrow> nat \<Rightarrow> 'a option) \<Rightarrow> ('h istate \<Rightarrow> nat \<Rightarrow> 'b \<Rightarrow> 'h istate option) \<Rightarrow> ('a \<Rightarrow> 'b) \<Rightarrow>
   u16 \<Rightarrow> 'h istate \<Rightarrow> 'h exec" where
  "unary get put f inst_data s = do {
     v \<leftarrow> get (frame s) (unat (VRegB_12x inst_data));
     proceed Next_1xx (put s (unat (VRegA_12x inst_data)) (f v))
   }"

definition exec_unop :: "nat \<Rightarrow> fpu \<Rightarrow> u16 \<Rightarrow> 'h istate \<Rightarrow> 'h exec" where
  "exec_unop op fp inst_data s =
     (if op = NEG_INT then
        unary GetVReg set_vreg (\<lambda>v. - v) inst_data s
      else if op = NOT_INT then
        unary GetVReg set_vreg (\<lambda>v. NOT v) inst_data s
      else if op = NEG_LONG then
        unary GetVRegLong set_vreg_long (\<lambda>v. - v) inst_data s
      else if op = NOT_LONG then
        unary GetVRegLong set_vreg_long (\<lambda>v. NOT v) inst_data s
      else if op = NEG_FLOAT then
        unary GetVRegFloat set_vreg_float (f_neg fp) inst_data s
      else if op = NEG_DOUBLE then
        unary GetVRegDouble set_vreg_double (d_neg fp) inst_data s
      else if op = INT_TO_LONG then
        unary GetVReg set_vreg_long (scast) inst_data s
      else if op = INT_TO_FLOAT then
        unary GetVReg set_vreg_float (int_to_float fp) inst_data s
      else if op = INT_TO_DOUBLE then
        unary GetVReg set_vreg_double (int_to_double fp) inst_data s
      else if op = LONG_TO_INT then
        unary GetVRegLong set_vreg (ucast) inst_data s
      else if op = LONG_TO_FLOAT then
        unary GetVRegLong set_vreg_float (long_to_float fp) inst_data s
      else if op = LONG_TO_DOUBLE then
        unary GetVRegLong set_vreg_double (long_to_double fp) inst_data s
      else if op = FLOAT_TO_INT then
        unary GetVRegFloat set_vreg (art_float_to_integral (f_gt fp) (f_lt fp) (f_eq fp) (int_to_float fp) (float_trunc_int fp)) inst_data s
      else if op = FLOAT_TO_LONG then
        unary GetVRegFloat set_vreg_long (art_float_to_integral (f_gt fp) (f_lt fp) (f_eq fp) (long_to_float fp) (float_trunc_long fp)) inst_data s
      else if op = FLOAT_TO_DOUBLE then
        unary GetVRegFloat set_vreg_double (float_to_double fp) inst_data s
      else if op = DOUBLE_TO_INT then
        unary GetVRegDouble set_vreg (art_float_to_integral (d_gt fp) (d_lt fp) (d_eq fp) (int_to_double fp) (double_trunc_int fp)) inst_data s
      else if op = DOUBLE_TO_LONG then
        unary GetVRegDouble set_vreg_long (art_float_to_integral (d_gt fp) (d_lt fp) (d_eq fp) (long_to_double fp) (double_trunc_long fp)) inst_data s
      else if op = DOUBLE_TO_FLOAT then
        unary GetVRegDouble set_vreg_float (double_to_float fp) inst_data s
      else if op = INT_TO_BYTE then
        unary GetVReg set_vreg (\<lambda>v. scast (ucast v :: u8)) inst_data s
      else if op = INT_TO_CHAR then
        unary GetVReg set_vreg (\<lambda>v. ucast (ucast v :: u16)) inst_data s
      else if op = INT_TO_SHORT then
        unary GetVReg set_vreg (\<lambda>v. scast (ucast v :: u16)) inst_data s
      else None)"

section \<open>Binary operations\<close>

definition binary ::
  "(shadow_frame \<Rightarrow> nat \<Rightarrow> 'a option) \<Rightarrow> (shadow_frame \<Rightarrow> nat \<Rightarrow> 'b option) \<Rightarrow>
   ('h istate \<Rightarrow> nat \<Rightarrow> 'c \<Rightarrow> 'h istate option) \<Rightarrow> ('a \<Rightarrow> 'b \<Rightarrow> 'c) \<Rightarrow> flow \<Rightarrow> nat \<Rightarrow> nat \<Rightarrow> nat \<Rightarrow> 'h istate \<Rightarrow> 'h exec"
where
  "binary get1 get2 put f next_flow a b c s = do {
     u \<leftarrow> get1 (frame s) b;
     v \<leftarrow> get2 (frame s) c;
     proceed next_flow (put s a (f u v))
   }"

abbreviation int_binary where
  "int_binary \<equiv> binary GetVReg GetVReg set_vreg"

abbreviation long_binary where
  "long_binary \<equiv> binary GetVRegLong GetVRegLong set_vreg_long"

abbreviation long_shift where
  "long_shift \<equiv> binary GetVRegLong GetVReg set_vreg_long"

abbreviation float_binary where
  "float_binary \<equiv> binary GetVRegFloat GetVRegFloat set_vreg_float"

abbreviation double_binary where
  "double_binary \<equiv> binary GetVRegDouble GetVRegDouble set_vreg_double"

text \<open>The int divisions report success, the long divisions are followed by a test of the thread.\<close>

definition int_division ::
  "('h istate \<Rightarrow> nat \<Rightarrow> u32 \<Rightarrow> u32 \<Rightarrow> (bool \<times> 'h istate) option) \<Rightarrow> flow \<Rightarrow> nat \<Rightarrow> nat \<Rightarrow> nat \<Rightarrow> 'h istate \<Rightarrow> 'h exec"
where
  "int_division quot next_flow a b c s = do {
     u \<leftarrow> GetVReg (frame s) b;
     v \<leftarrow> GetVReg (frame s) c;
     on_success next_flow (quot s a u v)
   }"

definition long_division ::
  "('h istate \<Rightarrow> nat \<Rightarrow> u64 \<Rightarrow> u64 \<Rightarrow> (bool \<times> 'h istate) option) \<Rightarrow> flow \<Rightarrow> nat \<Rightarrow> nat \<Rightarrow> nat \<Rightarrow> 'h istate \<Rightarrow> 'h exec"
where
  "long_division quot next_flow a b c s = do {
     u \<leftarrow> GetVRegLong (frame s) b;
     v \<leftarrow> GetVRegLong (frame s) c;
     (_, s) \<leftarrow> quot s a u v;
     POSSIBLY_HANDLE_PENDING_EXCEPTION (IsExceptionPending s) next_flow s
   }"

definition exec_int :: "nat \<Rightarrow> 'h runtime \<Rightarrow> insn \<Rightarrow> u16 \<Rightarrow> 'h istate \<Rightarrow> 'h exec" where
  "exec_int op rt inst inst_data s =
     (let a = unat (VRegA_23x inst_data); b = unat (VRegB_23x inst); c = unat (VRegC_23x inst) in
      if op = ADD_INT then
        int_binary (SafeAdd) Next_2xx a b c s
      else if op = SUB_INT then
        int_binary (SafeSub) Next_2xx a b c s
      else if op = MUL_INT then
        int_binary (SafeMul) Next_2xx a b c s
      else if op = DIV_INT then
        int_division (DoIntDivide rt) Next_2xx a b c s
      else if op = REM_INT then
        int_division (DoIntRemainder rt) Next_2xx a b c s
      else if op = SHL_INT then
        int_binary (\<lambda>u v. shl u (unat (v AND 0x1f))) Next_2xx a b c s
      else if op = SHR_INT then
        int_binary (\<lambda>u v. sshr u (unat (v AND 0x1f))) Next_2xx a b c s
      else if op = USHR_INT then
        int_binary (\<lambda>u v. shr u (unat (v AND 0x1f))) Next_2xx a b c s
      else if op = AND_INT then
        int_binary (AND) Next_2xx a b c s
      else if op = OR_INT then
        int_binary (OR) Next_2xx a b c s
      else if op = XOR_INT then
        int_binary (XOR) Next_2xx a b c s
      else None)"

definition exec_long :: "nat \<Rightarrow> 'h runtime \<Rightarrow> insn \<Rightarrow> u16 \<Rightarrow> 'h istate \<Rightarrow> 'h exec" where
  "exec_long op rt inst inst_data s =
     (let a = unat (VRegA_23x inst_data); b = unat (VRegB_23x inst); c = unat (VRegC_23x inst) in
      if op = ADD_LONG then
        long_binary (SafeAdd) Next_2xx a b c s
      else if op = SUB_LONG then
        long_binary (SafeSub) Next_2xx a b c s
      else if op = MUL_LONG then
        long_binary (SafeMul) Next_2xx a b c s
      else if op = DIV_LONG then
        long_division (DoLongDivide rt) Next_2xx a b c s
      else if op = REM_LONG then
        long_division (DoLongRemainder rt) Next_2xx a b c s
      else if op = AND_LONG then
        long_binary (AND) Next_2xx a b c s
      else if op = OR_LONG then
        long_binary (OR) Next_2xx a b c s
      else if op = XOR_LONG then
        long_binary (XOR) Next_2xx a b c s
      else if op = SHL_LONG then
        long_shift (\<lambda>u v. shl u (unat (v AND 0x3f))) Next_2xx a b c s
      else if op = SHR_LONG then
        long_shift (\<lambda>u v. sshr u (unat (v AND 0x3f))) Next_2xx a b c s
      else if op = USHR_LONG then
        long_shift (\<lambda>u v. shr u (unat (v AND 0x3f))) Next_2xx a b c s
      else None)"

definition exec_float :: "nat \<Rightarrow> fpu \<Rightarrow> insn \<Rightarrow> u16 \<Rightarrow> 'h istate \<Rightarrow> 'h exec" where
  "exec_float op fp inst inst_data s =
     (let a = unat (VRegA_23x inst_data); b = unat (VRegB_23x inst); c = unat (VRegC_23x inst) in
      if op = ADD_FLOAT then
        float_binary (f_add fp) Next_2xx a b c s
      else if op = SUB_FLOAT then
        float_binary (f_sub fp) Next_2xx a b c s
      else if op = MUL_FLOAT then
        float_binary (f_mul fp) Next_2xx a b c s
      else if op = DIV_FLOAT then
        float_binary (f_div fp) Next_2xx a b c s
      else if op = REM_FLOAT then
        float_binary (f_fmod fp) Next_2xx a b c s
      else if op = ADD_DOUBLE then
        double_binary (d_add fp) Next_2xx a b c s
      else if op = SUB_DOUBLE then
        double_binary (d_sub fp) Next_2xx a b c s
      else if op = MUL_DOUBLE then
        double_binary (d_mul fp) Next_2xx a b c s
      else if op = DIV_DOUBLE then
        double_binary (d_div fp) Next_2xx a b c s
      else if op = REM_DOUBLE then
        double_binary (d_fmod fp) Next_2xx a b c s
      else None)"

definition exec_int_2addr :: "nat \<Rightarrow> 'h runtime \<Rightarrow> u16 \<Rightarrow> 'h istate \<Rightarrow> 'h exec" where
  "exec_int_2addr op rt inst_data s =
     (let a = unat (VRegA_12x inst_data); b = unat (VRegB_12x inst_data) in
      if op = ADD_INT_2ADDR then
        int_binary (SafeAdd) Next_1xx a a b s
      else if op = SUB_INT_2ADDR then
        int_binary (SafeSub) Next_1xx a a b s
      else if op = MUL_INT_2ADDR then
        int_binary (SafeMul) Next_1xx a a b s
      else if op = DIV_INT_2ADDR then
        int_division (DoIntDivide rt) Next_1xx a a b s
      else if op = REM_INT_2ADDR then
        int_division (DoIntRemainder rt) Next_1xx a a b s
      else if op = SHL_INT_2ADDR then
        int_binary (\<lambda>u v. shl u (unat (v AND 0x1f))) Next_1xx a a b s
      else if op = SHR_INT_2ADDR then
        int_binary (\<lambda>u v. sshr u (unat (v AND 0x1f))) Next_1xx a a b s
      else if op = USHR_INT_2ADDR then
        int_binary (\<lambda>u v. shr u (unat (v AND 0x1f))) Next_1xx a a b s
      else if op = AND_INT_2ADDR then
        int_binary (AND) Next_1xx a a b s
      else if op = OR_INT_2ADDR then
        int_binary (OR) Next_1xx a a b s
      else if op = XOR_INT_2ADDR then
        int_binary (XOR) Next_1xx a a b s
      else None)"

definition exec_long_2addr :: "nat \<Rightarrow> 'h runtime \<Rightarrow> u16 \<Rightarrow> 'h istate \<Rightarrow> 'h exec" where
  "exec_long_2addr op rt inst_data s =
     (let a = unat (VRegA_12x inst_data); b = unat (VRegB_12x inst_data) in
      if op = ADD_LONG_2ADDR then
        long_binary (SafeAdd) Next_1xx a a b s
      else if op = SUB_LONG_2ADDR then
        long_binary (SafeSub) Next_1xx a a b s
      else if op = MUL_LONG_2ADDR then
        long_binary (SafeMul) Next_1xx a a b s
      else if op = DIV_LONG_2ADDR then
        long_division (DoLongDivide rt) Next_1xx a a b s
      else if op = REM_LONG_2ADDR then
        long_division (DoLongRemainder rt) Next_1xx a a b s
      else if op = AND_LONG_2ADDR then
        long_binary (AND) Next_1xx a a b s
      else if op = OR_LONG_2ADDR then
        long_binary (OR) Next_1xx a a b s
      else if op = XOR_LONG_2ADDR then
        long_binary (XOR) Next_1xx a a b s
      else if op = SHL_LONG_2ADDR then
        long_shift (\<lambda>u v. shl u (unat (v AND 0x3f))) Next_1xx a a b s
      else if op = SHR_LONG_2ADDR then
        long_shift (\<lambda>u v. sshr u (unat (v AND 0x3f))) Next_1xx a a b s
      else if op = USHR_LONG_2ADDR then
        long_shift (\<lambda>u v. shr u (unat (v AND 0x3f))) Next_1xx a a b s
      else None)"

definition exec_float_2addr :: "nat \<Rightarrow> fpu \<Rightarrow> u16 \<Rightarrow> 'h istate \<Rightarrow> 'h exec" where
  "exec_float_2addr op fp inst_data s =
     (let a = unat (VRegA_12x inst_data); b = unat (VRegB_12x inst_data) in
      if op = ADD_FLOAT_2ADDR then
        float_binary (f_add fp) Next_1xx a a b s
      else if op = SUB_FLOAT_2ADDR then
        float_binary (f_sub fp) Next_1xx a a b s
      else if op = MUL_FLOAT_2ADDR then
        float_binary (f_mul fp) Next_1xx a a b s
      else if op = DIV_FLOAT_2ADDR then
        float_binary (f_div fp) Next_1xx a a b s
      else if op = REM_FLOAT_2ADDR then
        float_binary (f_fmod fp) Next_1xx a a b s
      else if op = ADD_DOUBLE_2ADDR then
        double_binary (d_add fp) Next_1xx a a b s
      else if op = SUB_DOUBLE_2ADDR then
        double_binary (d_sub fp) Next_1xx a a b s
      else if op = MUL_DOUBLE_2ADDR then
        double_binary (d_mul fp) Next_1xx a a b s
      else if op = DIV_DOUBLE_2ADDR then
        double_binary (d_div fp) Next_1xx a a b s
      else if op = REM_DOUBLE_2ADDR then
        double_binary (d_fmod fp) Next_1xx a a b s
      else None)"

section \<open>Literal operands\<close>

definition literal :: "(u32 \<Rightarrow> u32) \<Rightarrow> nat \<Rightarrow> nat \<Rightarrow> 'h istate \<Rightarrow> 'h exec" where
  "literal f a b s = do {
     u \<leftarrow> GetVReg (frame s) b;
     proceed Next_2xx (set_vreg s a (f u))
   }"

definition literal_division ::
  "('h istate \<Rightarrow> nat \<Rightarrow> u32 \<Rightarrow> u32 \<Rightarrow> (bool \<times> 'h istate) option) \<Rightarrow> nat \<Rightarrow> nat \<Rightarrow> u32 \<Rightarrow> 'h istate \<Rightarrow> 'h exec"
where
  "literal_division quot a b lit s = do {
     u \<leftarrow> GetVReg (frame s) b;
     on_success Next_2xx (quot s a u lit)
   }"

definition exec_lit16 :: "nat \<Rightarrow> 'h runtime \<Rightarrow> insn \<Rightarrow> u16 \<Rightarrow> 'h istate \<Rightarrow> 'h exec" where
  "exec_lit16 op rt inst inst_data s =
     (let a = unat (VRegA_22s inst_data); b = unat (VRegB_22s inst_data); lit = scast (VRegC_22s inst) in
      if op = ADD_INT_LIT16 then
        literal (\<lambda>u. SafeAdd u lit) a b s
      else if op = RSUB_INT then
        literal (\<lambda>u. SafeSub lit u) a b s
      else if op = MUL_INT_LIT16 then
        literal (\<lambda>u. SafeMul u lit) a b s
      else if op = DIV_INT_LIT16 then
        literal_division (DoIntDivide rt) a b lit s
      else if op = REM_INT_LIT16 then
        literal_division (DoIntRemainder rt) a b lit s
      else if op = AND_INT_LIT16 then
        literal (\<lambda>u. u AND lit) a b s
      else if op = OR_INT_LIT16 then
        literal (\<lambda>u. u OR lit) a b s
      else if op = XOR_INT_LIT16 then
        literal (\<lambda>u. u XOR lit) a b s
      else None)"

definition exec_lit8 :: "nat \<Rightarrow> 'h runtime \<Rightarrow> insn \<Rightarrow> u16 \<Rightarrow> 'h istate \<Rightarrow> 'h exec" where
  "exec_lit8 op rt inst inst_data s =
     (let a = unat (VRegA_22b inst_data); b = unat (VRegB_22b inst); lit = scast (VRegC_22b inst) in
      if op = ADD_INT_LIT8 then
        literal (\<lambda>u. SafeAdd u lit) a b s
      else if op = RSUB_INT_LIT8 then
        literal (\<lambda>u. SafeSub lit u) a b s
      else if op = MUL_INT_LIT8 then
        literal (\<lambda>u. SafeMul u lit) a b s
      else if op = DIV_INT_LIT8 then
        literal_division (DoIntDivide rt) a b lit s
      else if op = REM_INT_LIT8 then
        literal_division (DoIntRemainder rt) a b lit s
      else if op = AND_INT_LIT8 then
        literal (\<lambda>u. u AND lit) a b s
      else if op = OR_INT_LIT8 then
        literal (\<lambda>u. u OR lit) a b s
      else if op = XOR_INT_LIT8 then
        literal (\<lambda>u. u XOR lit) a b s
      else if op = SHL_INT_LIT8 then
        literal (\<lambda>u. shl u (unat (lit AND 0x1f))) a b s
      else if op = SHR_INT_LIT8 then
        literal (\<lambda>u. sshr u (unat (lit AND 0x1f))) a b s
      else if op = USHR_INT_LIT8 then
        literal (\<lambda>u. shr u (unat (lit AND 0x1f))) a b s
      else None)"

section \<open>The dispatcher\<close>

text \<open>The opcodes of each group, in the order of the groups.\<close>

definition is_unused :: "nat \<Rightarrow> bool" where
  "is_unused op \<longleftrightarrow> UNUSED_3E \<le> op \<and> op \<le> UNUSED_43 \<or> UNUSED_EF \<le> op \<and> op \<le> UNUSED_FF
     \<or> op = UNUSED_79 \<or> op = UNUSED_7A"

definition is_return :: "nat \<Rightarrow> bool" where
  "is_return op \<longleftrightarrow> RETURN_VOID \<le> op \<and> op \<le> RETURN_OBJECT \<or> op = RETURN_VOID_BARRIER"

definition execute ::
  "nat \<Rightarrow> config \<Rightarrow> 'h runtime \<Rightarrow> fpu \<Rightarrow> insn \<Rightarrow> u16 \<Rightarrow> 'h istate \<Rightarrow> 'h exec" where
  "execute op cfg rt fp inst inst_data s =
     (if op \<le> MOVE_EXCEPTION then exec_move op inst inst_data s
      else if op \<le> CONST_CLASS then exec_const op rt inst inst_data s
      else if op \<le> THROW then exec_object op cfg rt inst inst_data s
      else if op \<le> SPARSE_SWITCH then exec_goto op rt inst inst_data s
      else if op \<le> CMP_LONG then exec_cmp op fp inst inst_data s
      else if op \<le> IF_LEZ then exec_if op rt inst inst_data s
      else if op \<le> AGET_SHORT then exec_aget op rt inst inst_data s
      else if op \<le> APUT_SHORT then exec_aput op cfg rt inst inst_data s
      else if op \<le> IGET_SHORT then exec_iget op rt inst inst_data s
      else if op \<le> IPUT_SHORT then exec_iput op cfg rt inst inst_data s
      else if op \<le> SGET_SHORT then exec_sget op rt inst inst_data s
      else if op \<le> SPUT_SHORT then exec_sput op cfg rt inst inst_data s
      else if op \<le> INVOKE_INTERFACE_RANGE then exec_invoke op cfg rt inst inst_data s
      else if op \<le> INT_TO_SHORT then exec_unop op fp inst_data s
      else if op \<le> USHR_INT then exec_int op rt inst inst_data s
      else if op \<le> USHR_LONG then exec_long op rt inst inst_data s
      else if op \<le> REM_DOUBLE then exec_float op fp inst inst_data s
      else if op \<le> USHR_INT_2ADDR then exec_int_2addr op rt inst_data s
      else if op \<le> USHR_LONG_2ADDR then exec_long_2addr op rt inst_data s
      else if op \<le> REM_DOUBLE_2ADDR then exec_float_2addr op fp inst_data s
      else if op \<le> XOR_INT_LIT16 then exec_lit16 op rt inst inst_data s
      else if op \<le> USHR_INT_LIT8 then exec_lit8 op rt inst inst_data s
      else if op \<le> IGET_OBJECT_QUICK then exec_iget op rt inst inst_data s
      else if op \<le> IPUT_OBJECT_QUICK then exec_iput op cfg rt inst inst_data s
      else if op \<le> INVOKE_VIRTUAL_RANGE_QUICK then exec_invoke op cfg rt inst inst_data s
      else exec_iput op cfg rt inst inst_data s)"

definition switch_case ::
  "config \<Rightarrow> 'h runtime \<Rightarrow> fpu \<Rightarrow> u32 \<Rightarrow> insn \<Rightarrow> 'h istate \<Rightarrow> 'h exec" where
  "switch_case cfg rt fp dex_pc inst s =
     (let inst_data = Fetch16 inst 0; op = Opcode inst_data
      in if is_unused op then Some (s, Fatal)
         else if is_return op then exec_return op cfg rt dex_pc inst_data s
         else execute op cfg rt fp inst inst_data (PREAMBLE rt dex_pc s))"

section \<open>The interpreter loop\<close>

text \<open>
  The position of the current instruction is its distance from \<^verbatim>\<open>insns\<close>; \<^verbatim>\<open>GetDexPc\<close> is that
  distance as a \<^verbatim>\<open>uint32_t\<close>. One iteration either goes on at another position (\<open>Inl\<close>) or leaves
  the loop with a value (\<open>Inr\<close>).
\<close>

definition step ::
  "config \<Rightarrow> 'h runtime \<Rightarrow> fpu \<Rightarrow> insn \<Rightarrow> int \<Rightarrow> 'h istate \<Rightarrow> ((int \<times> 'h istate) + (u64 \<times> 'h istate)) option"
where
  "step cfg rt fp insns pos s =
     (let dex_pc = word_of_int pos;
          s = s\<lparr>frame := SetDexPC (frame s) dex_pc\<rparr>
      in do {
        (s, fl) \<leftarrow> switch_case cfg rt fp dex_pc (RelativeAt insns pos) s;
        (case fl of
           NextUnits n \<Rightarrow> Some (Inl (pos + int n, s))
         | Relative d \<Rightarrow> Some (Inl (pos + d, s))
         | HandlePending \<Rightarrow> do {
             (found_dex_pc, s) \<leftarrow> HANDLE_PENDING_EXCEPTION rt dex_pc s;
             if found_dex_pc = kDexNoIndex then Some (Inr (0, s))
             else Some (Inl (pos + sint (found_dex_pc - dex_pc), s))
           }
         | ReturnValue v \<Rightarrow> Some (Inr (v, s))
         | Fatal \<Rightarrow> None)
      })"

text \<open>
  The loop need not end, so it gets a bound on the number of iterations; \<open>OutOfFuel\<close> is the only
  result that depends on it.
\<close>

datatype 'h run = OutOfFuel | Crashed | Done u64 "'h istate"

primrec run_loop ::
  "nat \<Rightarrow> config \<Rightarrow> 'h runtime \<Rightarrow> fpu \<Rightarrow> insn \<Rightarrow> int \<Rightarrow> 'h istate \<Rightarrow> 'h run" where
  "run_loop 0 cfg rt fp insns pos s = OutOfFuel"
| "run_loop (Suc n) cfg rt fp insns pos s = (case step cfg rt fp insns pos s of
     None \<Rightarrow> Crashed
   | Some (Inl (pos, s)) \<Rightarrow> run_loop n cfg rt fp insns pos s
   | Some (Inr (v, s)) \<Rightarrow> Done v s)"

definition ExecuteSwitchImpl ::
  "nat \<Rightarrow> config \<Rightarrow> 'h runtime \<Rightarrow> fpu \<Rightarrow> insn \<Rightarrow> 'h istate \<Rightarrow> 'h run" where
  "ExecuteSwitchImpl fuel cfg rt fp insns s =
     (let dex_pc = GetDexPC (frame s);
          s = s\<lparr>notified_method_entry_event := False\<rparr>;
          s = (if dex_pc = 0 \<and> rt_ask rt HasMethodEntryListeners s
               then (rt_do rt MethodEnterEvent s)\<lparr>notified_method_entry_event := True\<rparr> else s)
      in run_loop fuel cfg rt fp insns (uint dex_pc) s)"

end
