(* ===== verification/InterpreterSafety.thy ===== *)
theory InterpreterSafety
  imports Interpreter
begin

text \<open>
  What every case of the interpreter keeps: the frame invariant and the number of registers of
  the frame, whatever the services do, as long as they keep them; and the agreement of the way a
  case continues with the flags and the sizes of the opcode table, which the verifier and the
  compilers rely on.
\<close>

section \<open>Keeping the frame\<close>

named_theorems keeps_intro \<open>structural rules for frame preservation\<close>

definition frame_keeps :: "'h istate \<Rightarrow> 'h istate \<Rightarrow> bool" where
  "frame_keeps s s' \<longleftrightarrow> (frame_ok (frame s) \<longrightarrow> frame_ok (frame s')) \<and>
     NumberOfVRegs (frame s') = NumberOfVRegs (frame s)"

definition services_keep_frames :: "'h runtime \<Rightarrow> bool" where
  "services_keep_frames rt \<longleftrightarrow> (\<forall>s. (\<forall>a. frame_keeps s (rt_do rt a s)) \<and>
     (\<forall>r. frame_keeps s (snd (rt_resolve rt r s))) \<and>
     (\<forall>r hs. frame_keeps s (snd (snd (rt_resolve_handles rt r hs s)))) \<and>
     (\<forall>c pc. frame_keeps s (snd (rt_find_catch_block rt c pc s))))"

text \<open>An outcome reached from \<open>s\<close> satisfies \<open>P\<close> whenever there is one.\<close>

definition ensures :: "('a \<Rightarrow> bool) \<Rightarrow> 'a option \<Rightarrow> bool" where
  "ensures P r \<longleftrightarrow> (\<forall>x. r = Some x \<longrightarrow> P x)"

definition keeps :: "'h istate \<Rightarrow> 'h istate option \<Rightarrow> bool" where
  "keeps s = ensures (frame_keeps s)"

definition keeps_snd :: "'h istate \<Rightarrow> ('a \<times> 'h istate) option \<Rightarrow> bool" where
  "keeps_snd s = ensures (\<lambda>(_, s'). frame_keeps s s')"

definition keeps_flow :: "'h istate \<Rightarrow> (flow \<Rightarrow> bool) \<Rightarrow> 'h exec \<Rightarrow> bool" where
  "keeps_flow s F = ensures (\<lambda>(s', f). frame_keeps s s' \<and> F f)"

lemmas keeps_defs = keeps_def keeps_snd_def keeps_flow_def ensures_def

lemma frame_keeps_refl [simp]: "frame_keeps s s"
  by (simp add: frame_keeps_def)

lemma frame_keeps_trans: "frame_keeps s s' \<Longrightarrow> frame_keeps s' s'' \<Longrightarrow> frame_keeps s s''"
  by (simp add: frame_keeps_def)

text \<open>Updates of other parts of the state.\<close>

lemma frame_keeps_same_frame:
  "frame_keeps s s' \<Longrightarrow> frame s'' = frame s' \<Longrightarrow> frame_keeps s s''"
  by (simp add: frame_keeps_def)

lemma frame_keeps_updates [keeps_intro]:
  assumes "frame_keeps s s'"
  shows "frame_keeps s (s'\<lparr>result_register := v\<rparr>)" "frame_keeps s (s'\<lparr>exception_reported := b\<rparr>)"
    "frame_keeps s (s'\<lparr>notified_method_entry_event := b\<rparr>)" "frame_keeps s (s'\<lparr>arrays := a\<rparr>)"
    "frame_keeps s (s'\<lparr>under_construction := u\<rparr>)" "frame_keeps s (ClearException s')"
    "frame_keeps s (SetException e s')" "frame_keeps s (s'\<lparr>frame := SetDexPC (frame s') pc\<rparr>)"
  using assms by (simp_all add: frame_keeps_def ClearException_def SetException_def)

lemma keeps_do [keeps_intro]:
  "services_keep_frames rt \<Longrightarrow> frame_keeps s s' \<Longrightarrow> frame_keeps s (rt_do rt a s')"
  by (meson frame_keeps_trans services_keep_frames_def)

lemma keeps_update:
  assumes "frame_keeps s s'" "\<And>f. r = Some f \<Longrightarrow> frame_ok (frame s') \<Longrightarrow> frame_ok f"
    "\<And>f. r = Some f \<Longrightarrow> NumberOfVRegs f = NumberOfVRegs (frame s')"
  shows "keeps s (map_option (\<lambda>f. s'\<lparr>frame := f\<rparr>) r)"
  using assms by (cases r) (simp_all add: keeps_defs frame_keeps_def)

lemma keeps_set_vreg [keeps_intro]:
  assumes "frame_keeps s s'"
  shows "keeps s (set_vreg s' r v)" "keeps s (set_vreg_float s' r v)" "keeps s (set_vreg_long s' r w)"
    "keeps s (set_vreg_double s' r w)" "keeps s (set_vreg_ref s' r v)"
  unfolding set_vreg_defs
  by (rule keeps_update [OF assms]; (erule (1) set_frame_ok [rotated] | erule set_frame_size))+

text \<open>Structure of outcomes.\<close>

lemma keeps_flow_structure [keeps_intro]:
  "keeps_flow s F None"
  "frame_keeps s s' \<Longrightarrow> F f \<Longrightarrow> keeps_flow s F (Some (s', f))"
  "(b \<Longrightarrow> keeps_flow s F r1) \<Longrightarrow> (\<not> b \<Longrightarrow> keeps_flow s F r2) \<Longrightarrow> keeps_flow s F (if b then r1 else r2)"
  by (auto simp: keeps_defs)

lemma keeps_snd_if [keeps_intro]:
  "(b \<Longrightarrow> keeps_snd s (Some p)) \<Longrightarrow> (\<not> b \<Longrightarrow> keeps_snd s (Some q)) \<Longrightarrow> keeps_snd s (Some (if b then p else q))"
  by simp

lemma keeps_structure [keeps_intro]:
  "keeps s None"
  "frame_keeps s s' \<Longrightarrow> keeps s (Some s')"
  "(b \<Longrightarrow> keeps s r1) \<Longrightarrow> (\<not> b \<Longrightarrow> keeps s r2) \<Longrightarrow> keeps s (if b then r1 else r2)"
  "keeps_snd s None"
  "frame_keeps s s' \<Longrightarrow> keeps_snd s (Some (x, s'))"
  "(b \<Longrightarrow> keeps_snd s q1) \<Longrightarrow> (\<not> b \<Longrightarrow> keeps_snd s q2) \<Longrightarrow> keeps_snd s (if b then q1 else q2)"
  "(b \<Longrightarrow> frame_keeps s s1) \<Longrightarrow> (\<not> b \<Longrightarrow> frame_keeps s s2) \<Longrightarrow> frame_keeps s (if b then s1 else s2)"
  by (auto simp: keeps_defs)

lemma ensures_bind: "(\<And>x. m = Some x \<Longrightarrow> ensures P (k x)) \<Longrightarrow> ensures P (Option.bind m k)"
  by (cases m) (auto simp: ensures_def)

text \<open>
  Binding a value that is not a state keeps nothing in mind; binding a state, alone or in a pair,
  uses what is known of it. The rules are selected by the type of the bound value.
\<close>

lemma ensures_binds:
  "(\<And>x. ensures P (k x)) \<Longrightarrow> ensures P (Option.bind m k)"
  "ensures Q m \<Longrightarrow> (\<And>x. Q x \<Longrightarrow> ensures P (k x)) \<Longrightarrow> ensures P (Option.bind m k)"
  by (cases m; simp add: ensures_def)+

lemma keeps_flow_bind [keeps_intro]:
  "(\<And>x. keeps_flow s F (k1 x)) \<Longrightarrow> keeps_flow s F (Option.bind (m1 :: 'w::len word option) k1)"
  "(\<And>x. keeps_flow s F (k2 x)) \<Longrightarrow> keeps_flow s F (Option.bind (m2 :: nat option) k2)"
  "(\<And>x. keeps_flow s F (k3 x)) \<Longrightarrow> keeps_flow s F (Option.bind (m3 :: jarray option) k3)"
  "keeps s m4 \<Longrightarrow> (\<And>s'. frame_keeps s s' \<Longrightarrow> keeps_flow s F (k4 s')) \<Longrightarrow> keeps_flow s F (Option.bind m4 k4)"
  "keeps_snd s m5 \<Longrightarrow> (\<And>x s'. frame_keeps s s' \<Longrightarrow> keeps_flow s F (k5 x s')) \<Longrightarrow>
     keeps_flow s F (Option.bind m5 (\<lambda>(x, s'). k5 x s'))"
  unfolding keeps_flow_def keeps_def keeps_snd_def by (auto intro: ensures_binds)

lemma keeps_state_bind [keeps_intro]:
  "(\<And>x. keeps s (k1 x)) \<Longrightarrow> keeps s (Option.bind (m1 :: 'w::len word option) k1)"
  "(\<And>x. keeps s (k2 x)) \<Longrightarrow> keeps s (Option.bind (m2 :: nat option) k2)"
  "(\<And>x. keeps s (k3 x)) \<Longrightarrow> keeps s (Option.bind (m3 :: jarray option) k3)"
  "keeps s m4 \<Longrightarrow> (\<And>s'. frame_keeps s s' \<Longrightarrow> keeps s (k4 s')) \<Longrightarrow> keeps s (Option.bind m4 k4)"
  unfolding keeps_def by (auto intro: ensures_binds)

lemma keeps_snd_bind [keeps_intro]:
  "(\<And>x. keeps_snd s (k1 x)) \<Longrightarrow> keeps_snd s (Option.bind (m1 :: 'w::len word option) k1)"
  "(\<And>x. keeps_snd s (k2 x)) \<Longrightarrow> keeps_snd s (Option.bind (m2 :: nat option) k2)"
  "(\<And>x. keeps_snd s (k3 x)) \<Longrightarrow> keeps_snd s (Option.bind (m3 :: shadow_frame option) k3)"
  "keeps s m4 \<Longrightarrow> (\<And>s'. frame_keeps s s' \<Longrightarrow> keeps_snd s (k4 s')) \<Longrightarrow> keeps_snd s (Option.bind m4 k4)"
  "keeps_snd s m5 \<Longrightarrow> (\<And>x s'. frame_keeps s s' \<Longrightarrow> keeps_snd s (k5 x s')) \<Longrightarrow>
     keeps_snd s (Option.bind m5 (\<lambda>(x, s'). k5 x s'))"
  unfolding keeps_def keeps_snd_def by (auto intro: ensures_binds)

lemma keeps_map [keeps_intro]:
  "keeps s m \<Longrightarrow> F f \<Longrightarrow> keeps_flow s F (proceed f m)"
  "keeps s m \<Longrightarrow> keeps_snd s (map_option (Pair x) m)"
  "(\<And>s'. frame_keeps s s' \<Longrightarrow> frame_keeps s (g s')) \<Longrightarrow> keeps s m \<Longrightarrow> keeps s (map_option g m)"
  "(\<And>s'. frame_keeps s s' \<Longrightarrow> frame_keeps s (g s')) \<Longrightarrow> keeps s m \<Longrightarrow>
     keeps_snd s (map_option (\<lambda>s'. (x, g s')) m)"
  "(\<And>v. frame_keeps s (h v)) \<Longrightarrow> keeps s (map_option h (mv :: 'w::len word option))"
  by (auto simp: keeps_defs proceed_def)

lemma services_keep:
  assumes "services_keep_frames rt" "frame_keeps s s'"
  shows "rt_resolve rt r s' = (c, s1) \<Longrightarrow> frame_keeps s s1"
    and "rt_resolve_handles rt r h s' = (c, hs, s1) \<Longrightarrow> frame_keeps s s1"
    and "rt_find_catch_block rt x pc s' = (y, s1) \<Longrightarrow> frame_keeps s s1"
proof -
  have "frame_keeps s' (snd (rt_resolve rt r s'))"
    "frame_keeps s' (snd (snd (rt_resolve_handles rt r h s')))"
    "frame_keeps s' (snd (rt_find_catch_block rt x pc s'))"
    using assms(1) by (auto simp: services_keep_frames_def)
  then show "rt_resolve rt r s' = (c, s1) \<Longrightarrow> frame_keeps s s1"
    "rt_resolve_handles rt r h s' = (c, hs, s1) \<Longrightarrow> frame_keeps s s1"
    "rt_find_catch_block rt x pc s' = (y, s1) \<Longrightarrow> frame_keeps s s1"
    using frame_keeps_trans [OF assms(2)] by simp_all
qed

lemma keeps_resolve [keeps_intro]:
  assumes "services_keep_frames rt" "frame_keeps s s'"
  shows "(\<And>c s1. frame_keeps s s1 \<Longrightarrow> keeps_flow s F (k c s1)) \<Longrightarrow>
      keeps_flow s F (case rt_resolve rt r s' of (c, s1) \<Rightarrow> k c s1)"
    and "(\<And>c s1. frame_keeps s s1 \<Longrightarrow> keeps_snd s (k2 c s1)) \<Longrightarrow>
      keeps_snd s (case rt_resolve rt r s' of (c, s1) \<Rightarrow> k2 c s1)"
    and "(\<And>c hs s1. frame_keeps s s1 \<Longrightarrow> keeps_snd s (k3 c hs s1)) \<Longrightarrow>
      keeps_snd s (case rt_resolve_handles rt r h s' of (c, hs, s1) \<Rightarrow> k3 c hs s1)"
    and "(\<And>y s1. frame_keeps s s1 \<Longrightarrow> keeps_snd s (k4 y s1)) \<Longrightarrow>
      keeps_snd s (case rt_find_catch_block rt x pc s' of (y, s1) \<Rightarrow> k4 y s1)"
  by (auto split: prod.split intro: services_keep [OF assms])

lemma keeps_on_success [keeps_intro]:
  "keeps_snd s r \<Longrightarrow> F f \<Longrightarrow> F HandlePending \<Longrightarrow> keeps_flow s F (on_success f r)"
  by (auto simp: keeps_defs exec_defs bind_eq_Some_conv)

lemma keeps_branch [keeps_intro]:
  "services_keep_frames rt \<Longrightarrow> frame_keeps s s' \<Longrightarrow> F (Relative d) \<Longrightarrow> keeps_flow s F (branch rt d s')"
  unfolding branch_def by (auto intro!: keeps_intro)

lemma keeps_throw_null [keeps_intro]:
  "services_keep_frames rt \<Longrightarrow> frame_keeps s s' \<Longrightarrow> F HandlePending \<Longrightarrow>
     keeps_flow s F (throw_null_pointer rt s')"
  unfolding throw_null_pointer_def by (auto intro!: keeps_intro)

lemma keeps_possibly [keeps_intro]:
  "frame_keeps s s' \<Longrightarrow> F f \<Longrightarrow> F HandlePending \<Longrightarrow>
     keeps_flow s F (POSSIBLY_HANDLE_PENDING_EXCEPTION b f s')"
  unfolding POSSIBLY_HANDLE_PENDING_EXCEPTION_def by (auto intro!: keeps_intro)

section \<open>The shared operations\<close>

lemma keeps_division [keeps_intro]:
  assumes "services_keep_frames rt" "frame_keeps s s'"
  shows "keeps_snd s (DoIntDivide rt s' r a b)" "keeps_snd s (DoIntRemainder rt s' r a b)"
    "keeps_snd s (DoLongDivide rt s' r c d)" "keeps_snd s (DoLongRemainder rt s' r c d)"
  unfolding DoIntDivide_def DoIntRemainder_def DoLongDivide_def DoLongRemainder_def
  using assms by (auto intro!: keeps_intro)

lemma keeps_set_field_vreg [keeps_intro]:
  "frame_keeps s s' \<Longrightarrow> keeps s (set_field_vreg type s' r v)"
  unfolding set_field_vreg_def by (auto intro!: keeps_intro)

lemma keeps_store_element [keeps_intro]:
  "frame_keeps s s' \<Longrightarrow> keeps s (store_element s' a i v)"
  unfolding store_element_def by (auto intro!: keeps_intro split: option.split)

lemma keeps_set_without_checks [keeps_intro]:
  assumes "services_keep_frames rt" "frame_keeps s s'"
  shows "keeps s (SetWithoutChecks rt tr s' a i v)" "keeps s (SetObjectWithoutChecks rt tr s' a i obj)"
  using assms unfolding SetWithoutChecks_def SetObjectWithoutChecks_def Let_def
  by (auto intro!: keeps_intro split: option.split)

lemma keeps_check_index [keeps_intro]:
  assumes "services_keep_frames rt" "frame_keeps s s'"
    "\<And>valid s1. frame_keeps s s1 \<Longrightarrow> keeps_flow s F (k valid s1)"
  shows "keeps_flow s F (case CheckIsValidIndex rt s' arr i of (valid, s1) \<Rightarrow> k valid s1)"
    "keeps_flow s F (case if b then CheckAssignable rt s' a obj else (False, s') of (valid, s1) \<Rightarrow> k valid s1)"
  using assms unfolding CheckIsValidIndex_def CheckAssignable_def Let_def
  by (auto intro!: keeps_intro)

lemma keeps_FillArrayData [keeps_intro]:
  "services_keep_frames rt \<Longrightarrow> frame_keeps s s' \<Longrightarrow> keeps_snd s (FillArrayData rt s' obj payload)"
  unfolding FillArrayData_def Let_def by (auto intro!: keeps_intro split: option.split)

lemma keeps_record_elements:
  "services_keep_frames rt \<Longrightarrow> frame_keeps s s' \<Longrightarrow> keeps s (record_elements rt a is s')"
  by (induction "is" arbitrary: s') (auto intro!: keeps_intro split: option.split)

lemma keeps_RecordArrayElements [keeps_intro]:
  "services_keep_frames rt \<Longrightarrow> frame_keeps s s' \<Longrightarrow>
     keeps s (RecordArrayElementsInTransaction rt s' a count)"
  unfolding RecordArrayElementsInTransaction_def
  by (auto intro!: keeps_intro keeps_record_elements split: option.split)

lemma keeps_field_access [keeps_intro]:
  assumes "services_keep_frames rt" "frame_keeps s s'"
  shows "keeps_snd s (DoFieldGet find_type type rt s' inst inst_data)"
    "keeps_snd s (DoIGetQuick type rt s' inst inst_data)"
    "keeps_snd s (DoIPutQuick type rt s' inst inst_data)"
  unfolding DoFieldGet_def DoIGetQuick_def DoIPutQuick_def Let_def
  using assms by (auto intro!: keeps_intro)

lemma keeps_DoFieldPut [keeps_intro]:
  assumes "services_keep_frames rt" "frame_keeps s s'"
  shows "keeps_snd s (DoFieldPut find_type type cfg rt s' inst inst_data)"
  unfolding DoFieldPut_def Let_def
  using assms by (auto intro!: keeps_intro split: list.split)

lemma keeps_find_catch [keeps_intro]:
  assumes "services_keep_frames rt" "frame_keeps s s'"
  shows "keeps_snd s (FindNextInstructionFollowingException rt s' pc)"
  unfolding FindNextInstructionFollowingException_def Let_def
  using assms by (auto intro!: keeps_intro)

lemma keeps_update_new_frame [keeps_intro]:
  "frame_keeps s s' \<Longrightarrow> keeps s (update_new_frame s' upd)"
  unfolding update_new_frame_def
  by (auto simp: keeps_defs frame_keeps_def split: list.split)

lemma keeps_copy_arguments_checked [keeps_intro]:
  assumes "services_keep_frames rt" "frame_keeps s s'"
  shows "keeps_snd s (copy_arguments_checked rt m src shorty n sp d a s')"
  using assms(2)
proof (induction "n - d" arbitrary: sp d a s' rule: less_induct)
  case less
  show ?case
    using less assms(1)
    by (subst copy_arguments_checked.simps) (auto intro!: keeps_intro simp: Let_def)
qed

lemma keeps_DoCall [keeps_intro]:
  assumes "services_keep_frames rt" "frame_keeps s s'"
  shows "keeps_snd s (DoCall is_range check m rt s' inst inst_data)"
  unfolding DoCall_def Let_def
  using assms by (auto intro!: keeps_intro split: list.split simp del: Option.bind_assoc)

lemma keeps_invoke [keeps_intro]:
  assumes "services_keep_frames rt" "frame_keeps s s'"
  shows "keeps_snd s (DoInvoke type is_range cfg rt s' inst inst_data)"
    "keeps_snd s (DoInvokeVirtualQuick is_range rt s' inst inst_data)"
  unfolding DoInvoke_def DoInvokeVirtualQuick_def invoke_found_def Let_def
  using assms by (auto intro!: keeps_intro)

lemma keeps_fill_new_array [keeps_intro]:
  "services_keep_frames rt \<Longrightarrow> frame_keeps s s' \<Longrightarrow>
     keeps s (fill_new_array rt tr is_int a src is s')"
  by (induction "is" arbitrary: s') (auto intro!: keeps_intro)

lemma keeps_DoFilledNewArray [keeps_intro]:
  "services_keep_frames rt \<Longrightarrow> frame_keeps s s' \<Longrightarrow> keeps_snd s (DoFilledNewArray is_range cfg rt s' inst)"
  unfolding DoFilledNewArray_def Let_def by (auto intro!: keeps_intro)

section \<open>The cases of the switch\<close>

text \<open>
  How the opcode table constrains the continuation of a case. \<^verbatim>\<open>nop\<close> always advances by one unit:
  its size in the table is that of the payloads that share its opcode.
\<close>

definition flow_agrees :: "insn \<Rightarrow> flow \<Rightarrow> bool" where
  "flow_agrees inst f = (case f of
     NextUnits n \<Rightarrow> CanFlowThrough inst \<and>
       (if Opcode (Fetch16 inst 0) = NOP then n = 1 else SizeInCodeUnits inst = Some n)
   | Relative d \<Rightarrow> IsBranch inst \<and> GetTargetOffset inst = Some d \<or> IsSwitch inst
   | HandlePending \<Rightarrow> IsThrow inst
   | ReturnValue v \<Rightarrow> IsReturn inst
   | Fatal \<Rightarrow> VerifyFlagsOf (Opcode (Fetch16 inst 0)) = kVerifyError)"

text \<open>The same by opcode, for the flows that do not depend on the operands.\<close>

definition row_flow :: "nat \<Rightarrow> flow \<Rightarrow> bool" where
  "row_flow op f = (case f of NextUnits n \<Rightarrow> next_row op n \<and> (op = NOP \<longrightarrow> n = 1) | HandlePending \<Rightarrow> throw_row op | _ \<Rightarrow> False)"

lemma row_flow_simps [simp]:
  "row_flow op (NextUnits n) \<longleftrightarrow> next_row op n \<and> (op = NOP \<longrightarrow> n = 1)"
  "row_flow op HandlePending \<longleftrightarrow> throw_row op"
  by (simp_all add: row_flow_def)

lemmas row_facts = next_row_facts throw_row_facts

lemmas exec_case_defs = exec_move_def move_vreg_def move_vreg_long_def move_vreg_ref_def
  exec_const_def set_const_def set_resolved_def exec_object_def exec_monitor_def exec_check_cast_def
  exec_instance_of_def exec_array_length_def exec_new_instance_def exec_new_array_def
  exec_fill_array_data_def exec_throw_def exec_goto_def exec_cmp_def compare_vregs_def exec_if_def
  if_test_def if_testz_def exec_aget_def aget_def exec_aput_def aput_def aput_object_def
  exec_iget_def exec_sget_def exec_iput_def exec_sput_def exec_invoke_def exec_unop_def unary_def
  exec_int_def exec_long_def exec_float_def binary_def int_division_def long_division_def
  exec_int_2addr_def exec_long_2addr_def exec_float_2addr_def exec_lit16_def exec_lit8_def
  literal_def literal_division_def Let_def

lemma keeps_cases:
  assumes "services_keep_frames rt" "frame_keeps s s'"
  shows "keeps_flow s (row_flow op) (exec_move op inst d s')"
    "keeps_flow s (row_flow op) (exec_const op rt inst d s')"
    "keeps_flow s (row_flow op) (exec_object op cfg rt inst d s')"
    "keeps_flow s (row_flow op) (exec_cmp op fp inst d s')"
    "keeps_flow s (row_flow op) (exec_aget op rt inst d s')"
    "keeps_flow s (row_flow op) (exec_aput op cfg rt inst d s')"
    "keeps_flow s (row_flow op) (exec_iget op rt inst d s')"
    "keeps_flow s (row_flow op) (exec_sget op rt inst d s')"
    "keeps_flow s (row_flow op) (exec_iput op cfg rt inst d s')"
    "keeps_flow s (row_flow op) (exec_sput op cfg rt inst d s')"
    "keeps_flow s (row_flow op) (exec_invoke op cfg rt inst d s')"
    "keeps_flow s (row_flow op) (exec_unop op fp d s')"
    "keeps_flow s (row_flow op) (exec_int op rt inst d s')"
    "keeps_flow s (row_flow op) (exec_long op rt inst d s')"
    "keeps_flow s (row_flow op) (exec_float op fp inst d s')"
    "keeps_flow s (row_flow op) (exec_int_2addr op rt d s')"
    "keeps_flow s (row_flow op) (exec_long_2addr op rt d s')"
    "keeps_flow s (row_flow op) (exec_float_2addr op fp d s')"
    "keeps_flow s (row_flow op) (exec_lit16 op rt inst d s')"
    "keeps_flow s (row_flow op) (exec_lit8 op rt inst d s')"
  unfolding exec_case_defs using assms by (auto intro!: keeps_intro simp: row_facts simp del: One_nat_def)

text \<open>The cases that branch continue at the target of the instruction or at the next one.\<close>

definition branch_flow :: "nat \<Rightarrow> insn \<Rightarrow> u16 \<Rightarrow> flow \<Rightarrow> bool" where
  "branch_flow op inst d f \<longleftrightarrow> IF_EQ \<le> op \<and> row_flow op f \<or>
     op = GOTO \<and> f = Relative (sint (VRegA_10t d)) \<or>
     op = GOTO_16 \<and> f = Relative (sint (VRegA_20t inst)) \<or>
     op = GOTO_32 \<and> f = Relative (sint (VRegA_30t inst)) \<or>
     op \<in> {PACKED_SWITCH, SPARSE_SWITCH} \<and> (\<exists>off. f = Relative off) \<or>
     IF_EQ \<le> op \<and> op \<le> IF_LE \<and> f = Relative (sint (VRegC_22t inst)) \<or>
     IF_EQZ \<le> op \<and> op \<le> IF_LEZ \<and> f = Relative (sint (VRegB_21t inst))"

lemma keeps_branch_cases:
  assumes "services_keep_frames rt" "frame_keeps s s'"
  shows "keeps_flow s (branch_flow op inst d) (exec_goto op rt inst d s')"
    "keeps_flow s (branch_flow op inst d) (exec_if op rt inst d s')"
  unfolding exec_case_defs using assms
  by (auto intro!: keeps_intro simp: branch_flow_def row_facts simp del: One_nat_def)

text \<open>From the rows of the table to an instruction.\<close>

lemma row_flow_agrees:
  "row_flow (Opcode (Fetch16 inst 0)) f \<Longrightarrow> flow_agrees inst f"
  by (cases f) (auto simp: flow_agrees_def row_flow_def next_row_def throw_row_def
      CanFlowThrough_def IsThrow_def SizeInCodeUnits_def)

lemma branch_rows:
  "list_all (\<lambda>(op, format, r, i, flags, vflags).
     (op = GOTO \<longrightarrow> format = k10t) \<and> (op = GOTO_16 \<longrightarrow> format = k20t) \<and> (op = GOTO_32 \<longrightarrow> format = k30t) \<and>
     (IF_EQ \<le> op \<and> op \<le> IF_LE \<longrightarrow> format = k22t) \<and> (IF_EQZ \<le> op \<and> op \<le> IF_LEZ \<longrightarrow> format = k21t) \<and>
     (op = PACKED_SWITCH \<or> op = SPARSE_SWITCH \<longrightarrow> flags AND kSwitch \<noteq> 0)) DEX_INSTRUCTION_LIST"
  by code_simp

lemma branch_row:
  assumes "op < 256"
  shows "IF_EQ \<le> op \<Longrightarrow> op \<le> IF_LE \<Longrightarrow> FormatOf op = k22t"
    "IF_EQZ \<le> op \<Longrightarrow> op \<le> IF_LEZ \<Longrightarrow> FormatOf op = k21t"
    "op \<in> {PACKED_SWITCH, SPARSE_SWITCH} \<Longrightarrow> FlagsOf op AND kSwitch \<noteq> 0"
  using opcode_rows_imp [OF branch_rows assms] by auto

lemma goto_rows: "FormatOf GOTO = k10t" "FormatOf GOTO_16 = k20t" "FormatOf GOTO_32 = k30t"
  using opcode_rows_imp [OF branch_rows, of GOTO] opcode_rows_imp [OF branch_rows, of GOTO_16]
    opcode_rows_imp [OF branch_rows, of GOTO_32] by auto

lemma target_agrees:
  "GetTargetOffset inst = Some off \<Longrightarrow> flow_agrees inst (Relative off)"
  by (simp add: flow_agrees_def branch_target_iff)

lemma branch_flow_agrees:
  assumes "branch_flow (Opcode (Fetch16 inst 0)) inst (Fetch16 inst 0) f"
  shows "flow_agrees inst f"
  using assms unfolding branch_flow_def
proof (elim disjE conjE exE)
  assume "row_flow (Opcode (Fetch16 inst 0)) f"
  then show ?thesis by (rule row_flow_agrees)
next
  fix off
  assume "Opcode (Fetch16 inst 0) \<in> {PACKED_SWITCH, SPARSE_SWITCH}" "f = Relative off"
  then show ?thesis
    using branch_row(3) [OF Opcode_less] by (simp add: flow_agrees_def IsSwitch_def)
qed (auto intro!: target_agrees simp: GetTargetOffset_def goto_rows branch_row [OF Opcode_less])

lemma return_rows:
  "list_all (\<lambda>(op, format, r, i, flags, vflags).
     (is_return op \<longrightarrow> flags AND kReturn \<noteq> 0) \<and> (is_unused op \<longrightarrow> vflags = kVerifyError)) DEX_INSTRUCTION_LIST"
  by code_simp

lemma return_flow_agrees:
  "is_return (Opcode (Fetch16 inst 0)) \<Longrightarrow> flow_agrees inst (ReturnValue v)"
  "is_unused (Opcode (Fetch16 inst 0)) \<Longrightarrow> flow_agrees inst Fatal"
  using opcode_rows_imp [OF return_rows Opcode_less, of "Fetch16 inst 0"]
  by (simp_all add: flow_agrees_def IsReturn_def)

lemma keeps_exec_return:
  assumes "services_keep_frames rt" "frame_keeps s s'" "\<And>v. F (ReturnValue v)"
  shows "keeps_flow s F (exec_return op cfg rt pc d s')"
  unfolding exec_return_def exec_return_object_def return_with_def HANDLE_PENDING_EXCEPTION_def Let_def
  using assms by (auto intro!: keeps_intro)

lemma keeps_flow_agrees:
  "keeps_flow s (row_flow (Opcode (Fetch16 inst 0))) r \<Longrightarrow> keeps_flow s (flow_agrees inst) r"
  "keeps_flow s (branch_flow (Opcode (Fetch16 inst 0)) inst (Fetch16 inst 0)) r \<Longrightarrow>
     keeps_flow s (flow_agrees inst) r"
  by (auto simp: keeps_defs row_flow_agrees branch_flow_agrees)

lemma keeps_execute:
  assumes "services_keep_frames rt" "frame_keeps s s'"
  shows "keeps_flow s (flow_agrees inst)
    (execute (Opcode (Fetch16 inst 0)) cfg rt fp inst (Fetch16 inst 0) s')"
  unfolding execute_def
  by (intro keeps_flow_structure(3) keeps_cases [OF assms, THEN keeps_flow_agrees(1)]
      keeps_branch_cases [OF assms, THEN keeps_flow_agrees(2)])

lemma keeps_switch_case:
  assumes "services_keep_frames rt" "frame_keeps s s'"
  shows "keeps_flow s (flow_agrees inst) (switch_case cfg rt fp pc inst s')"
proof -
  have "frame_keeps s (PREAMBLE rt pc s')"
    unfolding PREAMBLE_def using assms by (auto intro!: keeps_intro)
  with assms show ?thesis
    unfolding switch_case_def Let_def
    by (auto intro!: keeps_intro keeps_execute keeps_exec_return return_flow_agrees)
qed

section \<open>The loop\<close>

definition run_keeps :: "'h istate \<Rightarrow> 'h run \<Rightarrow> bool" where
  "run_keeps s r = (case r of Done v s' \<Rightarrow> frame_keeps s s' | _ \<Rightarrow> True)"

lemma keeps_step:
  assumes "services_keep_frames rt" "frame_keeps s0 s" "step cfg rt fp insns pos s = Some r"
  shows "case r of Inl (pos', s') \<Rightarrow> frame_keeps s0 s' | Inr (v, s') \<Rightarrow> frame_keeps s0 s'"
proof -
  define pc where "pc = (word_of_int pos :: u32)"
  let ?s = "s\<lparr>frame := SetDexPC (frame s) pc\<rparr>"
  have keeps: "frame_keeps s0 ?s" using assms(2) by (rule keeps_intro)
  from assms(3) obtain s1 f where case_result: "switch_case cfg rt fp pc (RelativeAt insns pos) ?s = Some (s1, f)"
    by (auto simp: step_def Let_def pc_def bind_eq_Some_conv)
  then have s1: "frame_keeps s0 s1"
    using keeps_switch_case [OF assms(1) keeps] by (auto simp: keeps_defs)
  have "frame_keeps s0 s2" if "HANDLE_PENDING_EXCEPTION rt pc s1 = Some (found, s2)" for found s2
  proof -
    have "frame_keeps s0 (rt_do rt AllowThreadSuspension s1)" using assms(1) s1 by (rule keeps_do)
    from keeps_find_catch [OF assms(1) this, of pc] that show ?thesis
      by (auto simp: HANDLE_PENDING_EXCEPTION_def keeps_defs)
  qed
  with s1 assms(3) case_result show ?thesis
    by (cases f) (auto simp: step_def Let_def bind_eq_Some_conv split: if_splits simp flip: pc_def)
qed

lemma keeps_run_loop:
  assumes "services_keep_frames rt" "frame_keeps s0 s"
  shows "run_keeps s0 (run_loop fuel cfg rt fp insns pos s)"
  using assms(2)
proof (induction fuel arbitrary: pos s)
  case (Suc fuel)
  show ?case
  proof (cases "step cfg rt fp insns pos s")
    case (Some r)
    with Suc keeps_step [OF assms(1) Suc.prems Some] show ?thesis
      by (auto simp: run_keeps_def split: sum.splits)
  qed (simp add: run_keeps_def)
qed (simp add: run_keeps_def)

lemma keeps_ExecuteSwitchImpl:
  assumes "services_keep_frames rt"
  shows "run_keeps s (ExecuteSwitchImpl fuel cfg rt fp insns s)"
  unfolding ExecuteSwitchImpl_def Let_def
  by (rule keeps_run_loop [OF assms]) (auto intro!: keeps_intro assms)

section \<open>A runtime without services\<close>

text \<open>
  Services that do nothing and find nothing, for programs that need none; and a floating point
  unit that is never asked.
\<close>

definition idle_runtime :: "unit runtime" where
  "idle_runtime = \<lparr>rt_resolve = (\<lambda>_ s. (0, s)), rt_resolve_handles = (\<lambda>_ hs s. (0, hs, s)),
     rt_do = (\<lambda>_ s. s), rt_ask = (\<lambda>_ _. False), rt_get = (\<lambda>_ _. 0),
     rt_get_field = (\<lambda>_ _ _ _. 0), rt_get_field_at = (\<lambda>_ _ _ _. 0),
     rt_primitive_type = (\<lambda>_ _. kPrimNot), rt_registers_size = (\<lambda>_ _. None),
     rt_shorty = (\<lambda>_ _. []), rt_find_catch_block = (\<lambda>_ _ s. ((kDexNoIndex, False), s))\<rparr>"

lemma idle_runtime_keeps: "services_keep_frames idle_runtime"
  by (simp add: services_keep_frames_def idle_runtime_def)

definition idle_fpu :: fpu where
  "idle_fpu = \<lparr>f_gt = (\<lambda>_ _. False), f_lt = (\<lambda>_ _. False), f_eq = (=), d_gt = (\<lambda>_ _. False),
     d_lt = (\<lambda>_ _. False), d_eq = (=), f_neg = id, d_neg = id, f_add = (+), f_sub = (-), f_mul = (*),
     f_div = (\<lambda>_ _. 0), f_fmod = (\<lambda>_ _. 0), d_add = (+), d_sub = (-), d_mul = (*), d_div = (\<lambda>_ _. 0),
     d_fmod = (\<lambda>_ _. 0), int_to_float = id, int_to_double = ucast, long_to_float = ucast,
     long_to_double = id, float_to_double = ucast, double_to_float = ucast, float_trunc_int = id,
     float_trunc_long = ucast, double_trunc_int = ucast, double_trunc_long = id\<rparr>"

definition initial_state :: "nat \<Rightarrow> unit istate" where
  "initial_state n = \<lparr>frame = create_frame n 0, result_register = 0, exception = 0,
     exception_reported = False, notified_method_entry_event = False, under_construction = [],
     arrays = (\<lambda>_. None), world = ()\<rparr>"

definition code_units :: "u16 list \<Rightarrow> insn" where
  "code_units us i = (if 0 \<le> i \<and> nat i < length us then us ! nat i else 0)"

definition run_value :: "'h run \<Rightarrow> u64 option" where
  "run_value r = (case r of Done v _ \<Rightarrow> Some v | _ \<Rightarrow> None)"

text \<open>The code of \<^verbatim>\<open>const/4 v0, #5; const/4 v1, #-2; add-int/2addr v0, v1; return v0\<close>.\<close>

definition sample_code :: insn where
  "sample_code = code_units [0x5012, 0xe112, 0x10b0, 0x000f]"

definition sample_config :: config where
  "sample_config = \<lparr>do_access_check = False, transaction_active = False\<rparr>"

lemma sample_run:
  "run_value (ExecuteSwitchImpl 4 sample_config idle_runtime idle_fpu sample_code (initial_state 2)) = Some 3"
  by code_simp

section \<open>Properties\<close>

text \<open>C1: The interpreter keeps the frame invariant: when it returns, the frame has the registers it
  started with and every reference that the collector would visit is still the value of its
  register, whatever code was run, as long as the services it calls keep this themselves.\<close>
theorem interpreter_keeps_frame:
  assumes "services_keep_frames rt" "frame_ok (frame s)"
    and "ExecuteSwitchImpl fuel cfg rt fp insns s = Done v s'"
  shows "frame_ok (frame s') \<and> NumberOfVRegs (frame s') = NumberOfVRegs (frame s)"
  using keeps_ExecuteSwitchImpl [OF assms(1), of s fuel cfg fp insns] assms(2,3)
  by (simp add: run_keeps_def frame_keeps_def)

theorem interpreter_keeps_frame_witness:
  "\<exists>s'. ExecuteSwitchImpl 4 sample_config idle_runtime idle_fpu sample_code (initial_state 2) = Done 3 s' \<and>
     frame_ok (frame s') \<and> NumberOfVRegs (frame s') = 2"
proof -
  obtain s' where
    "ExecuteSwitchImpl 4 sample_config idle_runtime idle_fpu sample_code (initial_state 2) = Done 3 s'"
    using sample_run by (auto simp: run_value_def split: run.splits)
  moreover have "frame_ok (frame (initial_state 2))" "NumberOfVRegs (frame (initial_state 2)) = 2"
    by (simp_all add: initial_state_def create_frame_ok) (simp add: create_frame_def NumberOfVRegs_def)
  ultimately show ?thesis
    using interpreter_keeps_frame [OF idle_runtime_keeps] by metis
qed



end
