(* ===== verification/InterpreterSemantics.thy ===== *)
theory InterpreterSemantics
  imports InterpreterSafety
begin

text \<open>
  What the cases of the interpreter compute: division and remainder, the two switches, the
  agreement of the encodings of an operation, the element access of arrays and the passing of
  arguments.
\<close>

section \<open>Division\<close>

text \<open>The quotient and the remainder of the truncating division, cut to the width of the words.\<close>

definition truncated_div :: "'a::len word \<Rightarrow> 'a word \<Rightarrow> 'a word" where
  "truncated_div a b = word_of_int (sint a sdiv sint b)"

definition truncated_mod :: "'a::len word \<Rightarrow> 'a word \<Rightarrow> 'a word" where
  "truncated_mod a b = word_of_int (sint a smod sint b)"

lemma abs_smod_less: "b \<noteq> 0 \<Longrightarrow> \<bar>a smod b\<bar> < \<bar>b :: int\<bar>"
  by (simp add: signed_modulo_int_def abs_mult)

lemma sgn_smod: "a smod b \<noteq> 0 \<Longrightarrow> sgn (a smod b) = sgn (a :: int)"
proof -
  assume "a smod b \<noteq> 0"
  moreover have "0 \<le> \<bar>a\<bar> mod \<bar>b\<bar>" by (cases "b = 0") simp_all
  ultimately have "sgn (\<bar>a\<bar> mod \<bar>b\<bar>) = 1" by (simp add: signed_modulo_int_def)
  then show ?thesis by (simp add: signed_modulo_int_def sgn_mult)
qed

lemma sint_eq_0 [simp]: "sint b = 0 \<longleftrightarrow> b = 0"
  by (metis signed_0 signed_word_eqI)

lemma sint_truncated_mod:
  fixes a b :: "'a::len word"
  assumes "b \<noteq> 0"
  shows "sint (truncated_mod a b) = sint a smod sint b"
proof -
  have "\<bar>sint a smod sint b\<bar> < \<bar>sint b\<bar>" using assms by (intro abs_smod_less) simp
  moreover have "\<bar>sint b\<bar> \<le> 2 ^ (LENGTH('a) - Suc 0)"
    using sint_greater_eq [of b] sint_less [of b] by linarith
  ultimately have "signed_take_bit (LENGTH('a) - Suc 0) (sint a smod sint b) = sint a smod sint b"
    by (intro signed_take_bit_int_eq_self) linarith+
  then show ?thesis by (simp add: truncated_mod_def signed_of_int)
qed

lemma truncated_mod_bounds:
  fixes a b :: "'a::len word"
  assumes "b \<noteq> 0"
  shows "\<bar>sint (truncated_mod a b)\<bar> < \<bar>sint b\<bar>"
    "sint (truncated_mod a b) = 0 \<or> sgn (sint (truncated_mod a b)) = sgn (sint a)"
  using sgn_smod [of "sint a" "sint b"] abs_smod_less [of "sint b" "sint a"] assms
  by (auto simp: sint_truncated_mod)

lemma abs_sdiv: "\<bar>a sdiv b\<bar> = \<bar>a\<bar> div \<bar>b :: int\<bar>"
proof (cases "a = 0 \<or> b = 0")
  case False
  then have "\<bar>sgn a * sgn b\<bar> = 1" by (simp add: abs_mult)
  moreover have "0 \<le> \<bar>a\<bar> div \<bar>b\<bar>" using False by (simp add: pos_imp_zdiv_nonneg_iff)
  ultimately show ?thesis by (simp add: signed_divide_int_def abs_mult)
qed (auto simp: signed_divide_int_def)

text \<open>The quotient is exact, but for the smallest value divided by minus one.\<close>

lemma sint_truncated_div:
  fixes a b :: "'a::len word"
  assumes "sint a \<noteq> - (2 ^ (LENGTH('a) - Suc 0)) \<or> sint b \<noteq> - 1"
  shows "sint (truncated_div a b) = sint a sdiv sint b"
proof -
  let ?m = "2 ^ (LENGTH('a) - Suc 0) :: int"
  have a: "- ?m \<le> sint a" "sint a < ?m" using sint_greater_eq [of a] sint_less [of a] by simp_all
  have "- ?m \<le> sint a sdiv sint b \<and> sint a sdiv sint b < ?m"
  proof -
    consider "sint b = 1" | "sint b = - 1" | "\<bar>sint b\<bar> \<le> 0" | "2 \<le> \<bar>sint b\<bar>" by linarith
    then show ?thesis
    proof cases
      case 1 with a show ?thesis by (simp add: signed_divide_int_def sgn_mult_abs)
    next
      case 2 with a assms show ?thesis by (simp add: signed_divide_int_def sgn_mult_abs)
    next
      case 3 then show ?thesis by (simp add: signed_divide_int_def)
    next
      case 4
      have "\<bar>sint a\<bar> div \<bar>sint b\<bar> \<le> \<bar>sint a\<bar> div 2" using 4 by (intro zdiv_mono2) auto
      moreover have "\<bar>sint a\<bar> div 2 < ?m" using a by simp
      ultimately show ?thesis using abs_sdiv [of "sint a" "sint b"] by linarith
    qed
  qed
  then have "signed_take_bit (LENGTH('a) - Suc 0) (sint a sdiv sint b) = sint a sdiv sint b"
    by (intro signed_take_bit_int_eq_self) simp_all
  then show ?thesis by (simp add: truncated_div_def signed_of_int)
qed

lemma truncated_min:
  "truncated_div (0x80000000 :: u32) (-1) = 0x80000000" "truncated_mod (0x80000000 :: u32) (-1) = 0"
  "truncated_div (0x8000000000000000 :: u64) (-1) = 0x8000000000000000"
  "truncated_mod (0x8000000000000000 :: u64) (-1) = 0"
  by code_simp+

lemma truncated_div_mod:
  fixes a b :: "'a::len word"
  assumes "sint a \<noteq> - (2 ^ (LENGTH('a) - Suc 0)) \<or> sint b \<noteq> - 1" "b \<noteq> 0"
  shows "sint (truncated_div a b) * sint b + sint (truncated_mod a b) = sint a"
  using assms by (simp add: sint_truncated_div sint_truncated_mod sdiv_mult_smod_eq)

lemma least_words:
  "(a :: 32 word) = 0x80000000 \<longleftrightarrow> sint a = - (2 ^ (LENGTH(32) - Suc 0))"
  "(c :: 64 word) = 0x8000000000000000 \<longleftrightarrow> sint c = - (2 ^ (LENGTH(64) - Suc 0))"
  "(x :: 'a::len word) = - 1 \<longleftrightarrow> sint x = - 1"
proof -
  have "sint (0x80000000 :: 32 word) = - (2 ^ (LENGTH(32) - Suc 0))"
    "sint (0x8000000000000000 :: 64 word) = - (2 ^ (LENGTH(64) - Suc 0))" by simp_all
  then show "(a :: 32 word) = 0x80000000 \<longleftrightarrow> sint a = - (2 ^ (LENGTH(32) - Suc 0))"
    "(c :: 64 word) = 0x8000000000000000 \<longleftrightarrow> sint c = - (2 ^ (LENGTH(64) - Suc 0))"
    by (metis signed_word_eqI)+
  show "x = - 1 \<longleftrightarrow> sint x = - 1" by (metis signed_minus_1 signed_word_eqI)
qed

lemma truncated_results:
  fixes a b :: u32 and c d :: u64
  shows "b \<noteq> 0 \<Longrightarrow> (if a = kMinInt \<and> b = - 1 then truncated_div a b = kMinInt \<and> truncated_mod a b = 0
    else sint (truncated_div a b) * sint b + sint (truncated_mod a b) = sint a \<and>
      \<bar>sint (truncated_mod a b)\<bar> < \<bar>sint b\<bar> \<and>
      (sint (truncated_mod a b) = 0 \<or> sgn (sint (truncated_mod a b)) = sgn (sint a)))"  (is "_ \<Longrightarrow> ?P a b")
    and "d \<noteq> 0 \<Longrightarrow> (if c = kMinLong \<and> d = - 1 then truncated_div c d = kMinLong \<and> truncated_mod c d = 0
    else sint (truncated_div c d) * sint d + sint (truncated_mod c d) = sint c \<and>
      \<bar>sint (truncated_mod c d)\<bar> < \<bar>sint d\<bar> \<and>
      (sint (truncated_mod c d) = 0 \<or> sgn (sint (truncated_mod c d)) = sgn (sint c)))"  (is "_ \<Longrightarrow> ?Q c d")
proof -
  have "a = kMinInt \<Longrightarrow> b \<noteq> - 1 \<Longrightarrow> sint b \<noteq> - 1" "a \<noteq> kMinInt \<Longrightarrow> sint a \<noteq> - (2 ^ (LENGTH(32) - Suc 0))"
    "c = kMinLong \<Longrightarrow> d \<noteq> - 1 \<Longrightarrow> sint d \<noteq> - 1" "c \<noteq> kMinLong \<Longrightarrow> sint c \<noteq> - (2 ^ (LENGTH(64) - Suc 0))"
    by (simp_all only: least_words simp_thms)
  note exact = truncated_div_mod [of a b] truncated_div_mod [of c d] this
  show "b \<noteq> 0 \<Longrightarrow> ?P a b" using truncated_mod_bounds [of b a] exact(1,3,4) by (auto simp only: truncated_min split: if_split)
  show "d \<noteq> 0 \<Longrightarrow> ?Q c d" using truncated_mod_bounds [of d c] exact(2,5,6) by (auto simp only: truncated_min split: if_split)
qed

text \<open>The special cases of the source give what the truncating division gives modulo the word size.\<close>

lemma divide_cases:
  "DoIntDivide rt s r a b = (if b = 0 then Some (False, rt_do rt (Throw ArithmeticException) s)
     else map_option (Pair True) (set_vreg s r (truncated_div a b)))"
  "DoIntRemainder rt s r a b = (if b = 0 then Some (False, rt_do rt (Throw ArithmeticException) s)
     else map_option (Pair True) (set_vreg s r (truncated_mod a b)))"
  "DoLongDivide rt s r c d = (if d = 0 then Some (False, rt_do rt (Throw ArithmeticException) s)
     else map_option (Pair True) (set_vreg_long s r (truncated_div c d)))"
  "DoLongRemainder rt s r c d = (if d = 0 then Some (False, rt_do rt (Throw ArithmeticException) s)
     else map_option (Pair True) (set_vreg_long s r (truncated_mod c d)))"
  by (simp_all add: DoIntDivide_def DoIntRemainder_def DoLongDivide_def DoLongRemainder_def truncated_min
      c_div_def c_rem_def) (auto simp: truncated_div_def truncated_mod_def)

text \<open>C16: Integer division and remainder follow the language specification. A zero divisor gives the
  state after the throw of the arithmetic exception, the operation itself writes no register. The
  smallest integer divided by minus one gives the smallest integer and the remainder 0. For all other
  operands the results \<open>q\<close> and \<open>m\<close> are the truncated quotient and the remainder of the integers:
  \<open>q * divisor + m = dividend\<close> without wrap-around, and the remainder is smaller than the divisor in
  magnitude and has the sign of the dividend. The C++ operators are undefined for a zero divisor and
  for the overflow, so the result needs both guards of the source.\<close>
theorem int_division_correct:
  "if b = 0 then DoIntDivide rt s r a b = Some (False, rt_do rt (Throw ArithmeticException) s) \<and>
      DoIntRemainder rt s r a b = Some (False, rt_do rt (Throw ArithmeticException) s)
   else \<exists>q m. DoIntDivide rt s r a b = map_option (Pair True) (set_vreg s r q) \<and>
      DoIntRemainder rt s r a b = map_option (Pair True) (set_vreg s r m) \<and>
      (if a = kMinInt \<and> b = - 1 then q = kMinInt \<and> m = 0
       else sint q * sint b + sint m = sint a \<and> \<bar>sint m\<bar> < \<bar>sint b\<bar> \<and>
         (sint m = 0 \<or> sgn (sint m) = sgn (sint a)))"
  by (cases "b = 0") (simp_all only: divide_cases if_True if_False simp_thms, blast intro: truncated_results)

text \<open>C17: The same for the 64 bit operations.\<close>
theorem long_division_correct:
  "if b = 0 then DoLongDivide rt s r a b = Some (False, rt_do rt (Throw ArithmeticException) s) \<and>
      DoLongRemainder rt s r a b = Some (False, rt_do rt (Throw ArithmeticException) s)
   else \<exists>q m. DoLongDivide rt s r a b = map_option (Pair True) (set_vreg_long s r q) \<and>
      DoLongRemainder rt s r a b = map_option (Pair True) (set_vreg_long s r m) \<and>
      (if a = kMinLong \<and> b = - 1 then q = kMinLong \<and> m = 0
       else sint q * sint b + sint m = sint a \<and> \<bar>sint m\<bar> < \<bar>sint b\<bar> \<and>
         (sint m = 0 \<or> sgn (sint m) = sgn (sint a)))"
  by (cases "b = 0") (simp_all only: divide_cases if_True if_False simp_thms, blast intro: truncated_results)

section \<open>Switches\<close>

text \<open>The tables behind a switch instruction: keys and the branch offsets that belong to them.\<close>

definition sparse_key :: "insn \<Rightarrow> nat \<Rightarrow> u32" where
  "sparse_key switch_data i = Fetch32 switch_data (2 + 2 * i)"

definition sparse_entry :: "insn \<Rightarrow> nat \<Rightarrow> u32" where
  "sparse_entry switch_data i = Fetch32 switch_data (2 + 2 * unat (switch_data 1) + 2 * i)"

definition packed_entry :: "insn \<Rightarrow> nat \<Rightarrow> u32" where
  "packed_entry switch_data i = Fetch32 switch_data (4 + 2 * i)"

definition sparse_sorted :: "insn \<Rightarrow> bool" where
  "sparse_sorted switch_data \<longleftrightarrow>
     (\<forall>j < unat (switch_data 1). \<forall>i < j. sint (sparse_key switch_data i) < sint (sparse_key switch_data j))"

text \<open>The offset \<open>r\<close> is right for the value \<open>v\<close> among the keys from \<open>lo\<close> to \<open>hi\<close>.\<close>

definition sparse_match :: "insn \<Rightarrow> u32 \<Rightarrow> int \<Rightarrow> int \<Rightarrow> nat \<Rightarrow> bool" where
  "sparse_match d v lo hi i \<longleftrightarrow> lo \<le> int i \<and> int i \<le> hi \<and> sparse_key d i = v"

definition sparse_result :: "insn \<Rightarrow> u32 \<Rightarrow> int \<Rightarrow> int \<Rightarrow> u32 \<Rightarrow> bool" where
  "sparse_result d v lo hi r \<longleftrightarrow> (\<forall>i. sparse_match d v lo hi i \<longrightarrow> r = sparse_entry d i) \<and>
     ((\<forall>i. \<not> sparse_match d v lo hi i) \<longrightarrow> r = 3)"

lemma sparse_result_narrow:
  assumes "sparse_result d v lo' hi' r" "lo \<le> lo'" "hi' \<le> hi"
    and "\<And>i. sparse_key d i = v \<Longrightarrow> int i \<le> hi \<Longrightarrow> lo \<le> int i \<Longrightarrow> lo' \<le> int i \<and> int i \<le> hi'"
  shows "sparse_result d v lo hi r"
proof -
  have "sparse_match d v lo hi = sparse_match d v lo' hi'"
    using assms(2-4) by (force simp: sparse_match_def)
  with assms(1) show ?thesis by (simp add: sparse_result_def)
qed

lemma sparse_search_step:
  assumes "lo \<le> hi" "(lo + hi) div 2 = int k"
  shows "sparse_search d (unat (d 1)) v lo hi =
    (if sint v < sint (sparse_key d k) then sparse_search d (unat (d 1)) v lo (int k - 1)
     else if sint v > sint (sparse_key d k) then sparse_search d (unat (d 1)) v (int k + 1) hi
     else sparse_entry d k)"
  by (subst sparse_search.simps) (simp add: assms Let_def sparse_key_def sparse_entry_def)

lemma sparse_key_less:
  "sparse_sorted d \<Longrightarrow> i < j \<Longrightarrow> j < unat (d 1) \<Longrightarrow> sint (sparse_key d i) < sint (sparse_key d j)"
  by (simp add: sparse_sorted_def)

lemma sparse_search_correct:
  assumes "sparse_sorted d" "0 \<le> lo" "hi < int (unat (d 1))"
  shows "sparse_result d v lo hi (sparse_search d (unat (d 1)) v lo hi)"
  using assms(2,3)
proof (induction "nat (hi - lo + 1)" arbitrary: lo hi rule: less_induct)
  case less
  show ?case
  proof (cases "lo \<le> hi")
    case True
    define k where "k = nat ((lo + hi) div 2)"
    have k: "(lo + hi) div 2 = int k" "lo \<le> int k" "int k \<le> hi" using True less.prems by (auto simp: k_def)
    have less_keys: "sint (sparse_key d i) < sint (sparse_key d j)" if "i < j" "int j \<le> hi" for i j
      using sparse_key_less [OF assms(1), of i j] that less.prems(2) by linarith
    note step = sparse_search_step [OF True k(1), of d v]
    consider "sint v < sint (sparse_key d k)" | "sint v > sint (sparse_key d k)" | "v = sparse_key d k"
      by (metis linorder_less_linear signed_word_eqI)
    then show ?thesis
    proof cases
      case 1
      have "int i \<le> int k - 1" if "sparse_key d i = v" "int i \<le> hi" for i
        using 1 that less_keys [of k i] by (cases k i rule: linorder_cases) auto
      moreover have "sparse_result d v lo (int k - 1) (sparse_search d (unat (d 1)) v lo (int k - 1))"
        using k less.prems by (intro less.hyps) auto
      ultimately show ?thesis
        using 1 step k by (auto intro: sparse_result_narrow)
    next
      case 2
      have "int k + 1 \<le> int i" if "sparse_key d i = v" "int i \<le> hi" for i
        using 2 that k less_keys [of i k] by (cases k i rule: linorder_cases) auto
      moreover have "sparse_result d v (int k + 1) hi (sparse_search d (unat (d 1)) v (int k + 1) hi)"
        using k less.prems by (intro less.hyps) auto
      ultimately show ?thesis
        using 2 step k by (auto intro: sparse_result_narrow)
    next
      case 3
      have "i = k" if "sparse_key d i = v" "int i \<le> hi" for i
        using 3 that k less_keys [of k i] less_keys [of i k] by (cases k i rule: linorder_cases) auto
      then have "sparse_match d v lo hi i \<longleftrightarrow> i = k" for i
        using 3 k unfolding sparse_match_def by blast
      with 3 step show ?thesis by (simp add: sparse_result_def)
    qed
  qed (auto simp: sparse_search.simps sparse_result_def sparse_match_def)
qed

text \<open>C14: On a table with strictly increasing keys the binary search of \<^verbatim>\<open>sparse-switch\<close> ends and finds
  the branch offset of the matching key, or falls through by three code units if there is none.\<close>
theorem sparse_switch_correct:
  assumes "GetVReg sf (unat (VRegA_31t inst_data)) = Some v"
    and "d = RelativeAt inst (sint (VRegB_31t inst))"
    and "d 0 = kSparseSwitchSignature" "0 < d 1" "sparse_sorted d"
  shows "\<exists>r. DoSparseSwitch inst sf inst_data = Some r \<and>
    (\<forall>i < unat (d 1). sparse_key d i = v \<longrightarrow> r = sparse_entry d i) \<and>
    ((\<forall>i < unat (d 1). sparse_key d i \<noteq> v) \<longrightarrow> r = 3)"
proof -
  let ?r = "sparse_search d (unat (d 1)) v 0 (int (unat (d 1)) - 1)"
  have "sparse_result d v 0 (int (unat (d 1)) - 1) ?r"
    using sparse_search_correct [OF assms(5), of 0 "int (unat (d 1)) - 1" v] by simp
  moreover have "sparse_match d v 0 (int (unat (d 1)) - 1) i \<longleftrightarrow> i < unat (d 1) \<and> sparse_key d i = v" for i
    unfolding sparse_match_def by linarith
  ultimately show ?thesis
    using assms by (auto simp: sparse_result_def DoSparseSwitch_def Let_def)
qed

text \<open>\<^verbatim>\<open>sparse-switch v0, +4\<close> with the keys 1 and 5, in a frame whose \<^verbatim>\<open>v0\<close> is 5.\<close>

definition sample_sparse :: insn where
  "sample_sparse = code_units [0x002c, 4, 0, 0, 0x0200, 2, 1, 0, 5, 0, 10, 0, 20, 0]"

definition sample_frame :: shadow_frame where
  "sample_frame = \<lparr>vregs = [5, 9], references = [0, 0], frame_dex_pc = 0\<rparr>"

theorem sparse_switch_correct_witness:
  "DoSparseSwitch sample_sparse sample_frame 0x002c = Some 20"
proof -
  let ?d = "RelativeAt sample_sparse 4"
  have facts: "GetVReg sample_frame (unat (VRegA_31t 0x002c)) = Some 5" "sint (VRegB_31t sample_sparse) = 4"
    "?d 0 = kSparseSwitchSignature" "0 < ?d 1" "sparse_sorted ?d" "1 < unat (?d 1)"
    "sparse_key ?d 1 = 5" "sparse_entry ?d 1 = 20" by code_simp+
  have "?d = RelativeAt sample_sparse (sint (VRegB_31t sample_sparse))" by (simp add: facts(2))
  from sparse_switch_correct [OF facts(1) this facts(3-5)] facts(6-8) show ?thesis by auto
qed

lemma sint_nonneg: "0 \<le> sint (x :: u32) \<Longrightarrow> sint x = int (unat x)"
proof -
  assume "0 \<le> sint x"
  moreover have "sint x < 2 ^ 32" using sint_less [of x] by simp
  ultimately have "take_bit 32 (sint x) = sint x" by (intro take_bit_int_eq_self) simp_all
  then show ?thesis using uint_sint [of x] by simp
qed

lemma sint_small: "unat (x :: u32) < 2 ^ 31 \<Longrightarrow> sint x = int (unat x)"
proof -
  assume "unat x < 2 ^ 31"
  then have "uint x < 2 ^ 31" using of_nat_less_iff [of "unat x" "2 ^ 31", where ?'a = int] by simp
  moreover have "0 \<le> uint x" by simp
  ultimately have "signed_take_bit 31 (uint x) = uint x"
    by (intro signed_take_bit_int_eq_self) linarith+
  then show ?thesis by (simp add: sint_uint)
qed

lemma packed_index:
  assumes "n < 2 ^ 16"
  shows "0 \<le> sint (x :: u32) \<and> sint x < int n \<longleftrightarrow> unat x < n"
    "unat x < n \<Longrightarrow> nat (sint x) = unat x"
proof -
  have *: "unat x < 2 ^ 31" if "unat x < n" using that assms by simp
  then show "0 \<le> sint x \<and> sint x < int n \<longleftrightarrow> unat x < n"
    using sint_nonneg [of x] sint_small [of x] by linarith
  show "unat x < n \<Longrightarrow> nat (sint x) = unat x"
    using * sint_small [of x] by simp
qed

text \<open>C15: \<^verbatim>\<open>packed-switch\<close> finds the branch offset of every value that is at most \<open>size - 1\<close> above the
  first key, in wrapping arithmetic, and falls through by three code units for all others.\<close>
theorem packed_switch_correct:
  assumes "GetVReg sf (unat (VRegA_31t inst_data)) = Some v"
    and "d = RelativeAt inst (sint (VRegB_31t inst))"
    and "d 0 = kPackedSwitchSignature" "0 < d 1"
  shows "\<exists>r. DoPackedSwitch inst sf inst_data = Some r \<and>
    (\<forall>i < unat (d 1). v = Fetch32 d 2 + of_nat i \<longrightarrow> r = packed_entry d i) \<and>
    ((\<forall>i < unat (d 1). v \<noteq> Fetch32 d 2 + of_nat i) \<longrightarrow> r = 3)"
proof -
  let ?x = "v - Fetch32 d 2"
  have small: "unat (d 1) < 2 ^ 16" using unsigned_less [of "d 1", where ?'a = nat] by simp
  have match: "v = Fetch32 d 2 + of_nat i \<longleftrightarrow> unat ?x = i" if "i < unat (d 1)" for i
  proof -
    have "unat (of_nat i :: u32) = i" using that small by (simp add: unsigned_of_nat take_bit_nat_eq_self)
    moreover have "v = Fetch32 d 2 + of_nat i \<longleftrightarrow> ?x = of_nat i" by (auto simp: algebra_simps)
    ultimately show ?thesis by (metis of_nat_unat ucast_id)
  qed
  have "DoPackedSwitch inst sf inst_data =
      Some (if unat ?x < unat (d 1) then packed_entry d (unat ?x) else 3)"
    using assms packed_index [OF small, of ?x]
    by (auto simp: DoPackedSwitch_def packed_entry_def Let_def)
  with match show ?thesis by auto
qed

definition sample_packed :: insn where
  "sample_packed = code_units [0x002b, 4, 0, 0, 0x0100, 2, 4, 0, 10, 0, 20, 0]"

theorem packed_switch_correct_witness:
  "DoPackedSwitch sample_packed sample_frame 0x002b = Some 20"
proof -
  let ?d = "RelativeAt sample_packed 4"
  have facts: "GetVReg sample_frame (unat (VRegA_31t 0x002b)) = Some 5" "sint (VRegB_31t sample_packed) = 4"
    "?d 0 = kPackedSwitchSignature" "0 < ?d 1" "1 < unat (?d 1)"
    "5 = Fetch32 ?d 2 + of_nat 1" "packed_entry ?d 1 = 20" by code_simp+
  have "?d = RelativeAt sample_packed (sint (VRegB_31t sample_packed))" by (simp add: facts(2))
  from packed_switch_correct [OF facts(1) this facts(3,4)] facts(5-7) show ?thesis by auto
qed

section \<open>Encodings of the same operation\<close>

text \<open>What two encodings have in common: the state they leave and whether they raise an exception.\<close>

definition effect :: "'h exec \<Rightarrow> ('h istate \<times> bool) option" where
  "effect r = map_option (\<lambda>(s, f). (s, f = HandlePending)) r"

lemma effect_simps [simp]:
  "effect (Option.bind m k) = Option.bind m (\<lambda>x. effect (k x))"
  "effect (proceed (NextUnits n) r) = map_option (\<lambda>s. (s, False)) r"
  "effect (on_success (NextUnits n) q) = Option.bind q (\<lambda>(b, s). Some (s, \<not> b))"
  "effect (POSSIBLY_HANDLE_PENDING_EXCEPTION b (NextUnits n) s) = Some (s, b)"
  by (cases m; simp add: effect_def)
    (auto simp: effect_def exec_defs option.map_comp comp_def split: option.split bind_splits)

text \<open>C18: Every two-address operation does what the three-address operation with the same name does
  when its first source is its destination: same registers, same exceptions.\<close>
theorem two_address_equivalent:
  assumes "ADD_INT_2ADDR \<le> op" "op \<le> REM_DOUBLE_2ADDR"
    and "VRegA_23x d3 = VRegA_12x d2" "VRegB_23x inst3 = VRegA_12x d2" "VRegC_23x inst3 = VRegB_12x d2"
  shows "effect (execute op cfg rt fp inst2 d2 s) =
    effect (execute (op - (ADD_INT_2ADDR - ADD_INT)) cfg rt fp inst3 d3 s)"
proof -
  have "op \<in> set [ADD_INT_2ADDR..<Suc REM_DOUBLE_2ADDR]"
    using assms(1,2) by (simp only: set_upt atLeastLessThan_iff) simp
  then show ?thesis
    by (simp add: upt_rec) (elim disjE; simp add: execute_def exec_int_def exec_int_2addr_def
        exec_long_def exec_long_2addr_def exec_float_def exec_float_2addr_def Let_def binary_def
        int_division_def long_division_def assms(3-5) case_prod_beta)
qed

theorem two_address_equivalent_witness:
  "effect (execute DIV_INT_2ADDR sample_config idle_runtime idle_fpu sample_code 0x10b3 (initial_state 2)) =
   effect (execute DIV_INT sample_config idle_runtime idle_fpu (code_units [0x0093, 0x0100]) 0x0093 (initial_state 2))"
proof -
  have "VRegA_23x 0x0093 = VRegA_12x 0x10b3" "VRegB_23x (code_units [0x0093, 0x0100]) = VRegA_12x 0x10b3"
    "VRegC_23x (code_units [0x0093, 0x0100]) = VRegB_12x 0x10b3" by code_simp+
  from two_address_equivalent [of DIV_INT_2ADDR, OF _ _ this] show ?thesis by simp
qed

section \<open>Array elements\<close>

lemma narrow_fits:
  "type \<in> set narrow_types \<Longrightarrow> take_bit (8 * ComponentSize type) (narrow type v) = narrow type v"
  by (auto simp: narrow_def intro!: bit_word_eqI) (auto simp: bit_simps dest: bit_imp_le_length)

text \<open>The element types and casts that the array instructions use.\<close>

definition array_access_types :: "(Primitive \<times> Primitive list) list" where
  "array_access_types = [(kPrimBoolean, [kPrimBoolean]), (kPrimByte, [kPrimByte]), (kPrimChar, [kPrimChar]),
     (kPrimShort, [kPrimShort]), (kPrimInt, [kPrimInt, kPrimFloat]), (kPrimLong, [kPrimLong, kPrimDouble])]"

lemma access_component_size:
  "(type, types) \<in> set array_access_types \<Longrightarrow> c \<in> set types \<Longrightarrow> ComponentSize c = ComponentSize type"
  by (auto simp: array_access_types_def)

lemma stored_value_fits:
  assumes "(type, types) \<in> set array_access_types" "field_store_value type sf r = Some v"
  shows "take_bit (8 * ComponentSize type) v = v"
proof (cases "type = kPrimLong")
  case False
  with assms(1) have type: "type \<in> set narrow_types" by (auto simp: array_access_types_def)
  with assms(2) obtain u where "v = narrow type u" by (auto simp: field_store_value_def)
  with narrow_fits [OF type] show ?thesis by simp
qed (simp add: take_bit_word_eq_self)

lemma set_vreg_reads:
  "set_vreg s r v = Some s' \<Longrightarrow> GetVReg (frame s') r = Some v"
  "set_vreg_long s r w = Some s' \<Longrightarrow> GetVRegLong (frame s') r = Some w"
  by (auto simp: set_vreg_defs get_set_long)
    (auto simp: frame_writes frame_reads NumberOfVRegs_def split: if_splits)

text \<open>
  The value that a register keeps of an element of a type with at most 32 bits: \<^verbatim>\<open>boolean\<close> and
  \<^verbatim>\<open>char\<close> are zero extended, \<^verbatim>\<open>byte\<close> and \<^verbatim>\<open>short\<close> are sign extended.
\<close>

fun extended :: "Primitive \<Rightarrow> u32 \<Rightarrow> u32" where
  "extended kPrimBoolean x = ucast (ucast x :: u8)"
| "extended kPrimByte x = scast (ucast x :: u8)"
| "extended kPrimChar x = ucast (ucast x :: u16)"
| "extended kPrimShort x = scast (ucast x :: u16)"
| "extended _ x = x"

lemma widen_narrow_extended:
  "type \<in> set narrow_types \<Longrightarrow> type \<noteq> kPrimNot \<Longrightarrow> widen type (narrow type x) = extended type x"
  by (auto simp: narrow_def widen_def intro!: bit_word_eqI) (auto simp: bit_simps)

lemma loaded_register:
  assumes "(type, types) \<in> set array_access_types" "field_store_value type sf r = Some v"
    "set_field_vreg type s r v = Some s'"
  shows "if type = kPrimLong then GetVRegLong (frame s') r = GetVRegLong sf r
    else GetVReg (frame s') r = map_option (extended type) (GetVReg sf r)"
proof (cases "type = kPrimLong")
  case True
  with assms show ?thesis by (simp add: set_field_vreg_def field_store_value_def set_vreg_reads)
next
  case False
  with assms(1) have type: "type \<in> set narrow_types" "type \<noteq> kPrimNot" by (auto simp: array_access_types_def)
  with assms(2) obtain u where u: "GetVReg sf r = Some u" "v = narrow type u"
    by (auto simp: field_store_value_def)
  have "GetVReg (frame s') r = Some (widen type v)"
    using assms(3) type by (simp add: set_field_vreg_def set_vreg_reads)
  with type u False show ?thesis by (simp add: widen_narrow_extended)
qed

lemma set_field_vreg_defined:
  assumes "(type, types) \<in> set array_access_types" "field_store_value type (frame s) r = Some v"
    "frame s' = frame s"
  shows "\<exists>s''. set_field_vreg type s' r w = Some s''"
  using assms by (auto simp: array_access_types_def field_store_value_def set_field_vreg_def
      set_vreg_defs frame_reads frame_writes split: if_splits)


text \<open>\<^verbatim>\<open>aput-byte v0, v1, v2\<close> on a byte array of length 3 at address \<open>0x100\<close>.\<close>

definition sample_array :: jarray where
  "sample_array = \<lparr>component = kPrimByte, array_length = 3, raw = [7, 8, 9]\<rparr>"

definition sample_array_state :: "unit istate" where
  "sample_array_state = (initial_state 3)\<lparr>frame := \<lparr>vregs = [0x1ff, 0x100, 1], references = [0, 0x100, 0],
     frame_dex_pc = 0\<rparr>, arrays := [0x100 \<mapsto> sample_array]\<rparr>"


section \<open>Passing arguments\<close>

text \<open>Register \<open>j\<close> of one frame is a copy of register \<open>i\<close> of another, value and reference.\<close>

definition same_register :: "shadow_frame \<Rightarrow> nat \<Rightarrow> shadow_frame \<Rightarrow> nat \<Rightarrow> bool" where
  "same_register f j sf i \<longleftrightarrow> GetVReg f j = GetVReg sf i \<and> GetVRegReference f j = GetVRegReference sf i \<and>
     i < NumberOfVRegs sf"

definition same_registers_except :: "shadow_frame \<Rightarrow> shadow_frame \<Rightarrow> nat set \<Rightarrow> bool" where
  "same_registers_except f f' R \<longleftrightarrow> NumberOfVRegs f' = NumberOfVRegs f \<and>
     (\<forall>j. j \<notin> R \<longrightarrow> GetVReg f' j = GetVReg f j \<and> GetVRegReference f' j = GetVRegReference f j)"

lemma set_registers_except:
  "SetVReg f r v = Some f' \<Longrightarrow> same_registers_except f f' {r}"
  "SetVRegReference f r v = Some f' \<Longrightarrow> same_registers_except f f' {r}"
  by (auto simp: same_registers_except_def frame_writes frame_reads NumberOfVRegs_def split: if_splits)

lemma AssignRegister_copies:
  assumes "frame_ok sf" "frame_ok new" "src < NumberOfVRegs sf" "dest < NumberOfVRegs new"
  shows "\<exists>f. AssignRegister new sf dest src = Some f \<and> frame_ok f \<and> same_registers_except new f {dest} \<and>
    same_register f dest sf src"
proof -
  let ?v = "vregs sf ! src" and ?o = "references sf ! src"
  let ?f = "new\<lparr>vregs := (vregs new)[dest := ?v], references := (references new)[dest := ?o]\<rparr>"
  have "?v \<noteq> ?o \<Longrightarrow> ?o = 0" using assms(1,3) by (auto simp: frame_ok_def NumberOfVRegs_def)
  then have assign: "?v = ?o \<Longrightarrow> SetVRegReference new dest ?v = Some ?f"
      "?v \<noteq> ?o \<Longrightarrow> SetVReg new dest ?v = Some ?f"
    using assms(4) by (simp_all add: frame_writes)
  then have "AssignRegister new sf dest src = Some ?f"
    using assms(3) by (auto simp: AssignRegister_def frame_reads)
  moreover have "frame_ok ?f" "same_registers_except new ?f {dest}"
    using assign assms(2) set_registers_except by (cases "?v = ?o"; blast)+
  moreover have "length (references new) = length (vregs new)" using assms(2) by (simp add: frame_ok_def)
  then have "same_register ?f dest sf src"
    using assms(3,4) by (simp add: same_register_def frame_reads NumberOfVRegs_def)
  ultimately show ?thesis by blast
qed

lemma assign_registers_copies:
  assumes "frame_ok sf" "frame_ok new" "\<forall>src \<in> set srcs. src < NumberOfVRegs sf"
    "dest + length srcs \<le> NumberOfVRegs new"
  shows "\<exists>f. assign_registers new sf dest srcs = Some f \<and> frame_ok f \<and>
    same_registers_except new f {dest..<dest + length srcs} \<and>
    (\<forall>k < length srcs. same_register f (dest + k) sf (srcs ! k))"
  using assms(2-4)
proof (induction srcs arbitrary: new dest)
  case Nil
  then show ?case by (simp add: same_registers_except_def)
next
  case (Cons src srcs)
  obtain f where f: "AssignRegister new sf dest src = Some f" "frame_ok f"
    "same_registers_except new f {dest}" "same_register f dest sf src"
    using AssignRegister_copies [OF assms(1) Cons.prems(1), of src dest] Cons.prems by auto
  then obtain g where g: "assign_registers f sf (Suc dest) srcs = Some g" "frame_ok g"
    "same_registers_except f g {Suc dest..<Suc dest + length srcs}"
    "\<forall>k < length srcs. same_register g (Suc dest + k) sf (srcs ! k)"
    using Cons.IH [of f "Suc dest"] Cons.prems by (auto simp: same_registers_except_def)
  have "same_register g (dest + k) sf ((src # srcs) ! k)" if "k < Suc (length srcs)" for k
    using that f(4) g(3,4) by (cases k) (auto simp: same_register_def same_registers_except_def)
  with f g show ?case by (auto simp: same_registers_except_def)
qed

lemma unat_and_15: "unat (x AND 0x0f :: 'a::len word) < 16"
proof -
  have "x AND 0x0f = take_bit 4 x"
    by (rule bit_word_eqI) (auto simp: bit_simps word_bits)
  then show ?thesis
    using take_bit_nat_less_exp [of 4 "unat x"] by (simp only: unsigned_take_bit_eq) simp
qed

lemma unat_ucast_and_15 [simp]:
  "unat (ucast (x AND 0x0f :: u16) :: u32) = unat (x AND 0x0f)"
  "unat (ucast (ucast (x AND 0x0f :: u16) :: u8) :: u32) = unat (x AND 0x0f)"
proof -
  show first: "unat (ucast (x AND 0x0f :: u16) :: u32) = unat (x AND 0x0f)"
    using unat_and_15 [of x] by (simp add: unsigned_ucast_eq take_bit_nat_eq_self)
  have "ucast (ucast (x AND 0x0f :: u16) :: u8) = (ucast (x AND 0x0f) :: u32)"
    by (rule bit_word_eqI) (auto simp: bit_simps word_bits)
  with first show "unat (ucast (ucast (x AND 0x0f :: u16) :: u8) :: u32) = unat (x AND 0x0f)" by simp
qed

lemma var_arg_register:
  assumes "num_ins = unat (VRegA_35c d)" "num_ins \<le> 5" "k < num_ins"
  shows "unat (GetVarArgs (replicate 5 0) inst d ! k) =
    (if k = 4 then unat (shr d 8 AND 0x0f) else unat (shr (Fetch16 inst 2) (4 * k) AND 0x0f))"
proof -
  have count: "InstB d = of_nat num_ins" using assms(1) by (simp add: dex_access)
  have "num_ins \<in> set [1, 2, 3, 4, 5]" "k \<in> set [0, 1, 2, 3, 4]" using assms(2,3) by auto
  with assms(3) show ?thesis
    unfolding GetVarArgs_def Let_def count InstA_def
    by (auto simp: eval_nat_numeral(1) nth_list_update)
qed

lemma create_frame_size: "NumberOfVRegs (create_frame n pc) = n"
  by (simp add: create_frame_def NumberOfVRegs_def)

lemma fifth_argument_copied:
  assumes "frame_ok sf" "num_ins = unat (VRegA_35c d)" "num_ins \<le> 5" "first + num_ins \<le> num_regs"
    and "\<forall>k < num_ins. unat (GetVarArgs (replicate 5 0) inst d ! k) < NumberOfVRegs sf"
  shows "\<exists>f. (if num_ins = 5 then AssignRegister (create_frame num_regs 0) sf (first + 4)
        (unat (shr d 8 AND 0x0f)) else Some (create_frame num_regs 0)) = Some f \<and>
    frame_ok f \<and> NumberOfVRegs f = num_regs \<and>
    (num_ins = 5 \<longrightarrow> same_register f (first + 4) sf (unat (GetVarArgs (replicate 5 0) inst d ! 4)))"
proof (cases "num_ins = 5")
  case True
  then have arg: "unat (GetVarArgs (replicate 5 0) inst d ! 4) = unat (shr d 8 AND 0x0f)"
    using var_arg_register [OF assms(2,3), of 4 inst] by simp
  then have "unat (shr d 8 AND 0x0f) < NumberOfVRegs sf" using assms(5) [rule_format, of 4] True by simp
  from AssignRegister_copies [OF assms(1) create_frame_ok this, of "first + 4" num_regs 0] show ?thesis
    using assms(4) True by (auto simp: arg create_frame_size same_registers_except_def)
qed (simp add: create_frame_ok create_frame_size)

lemma var_args_copied:
  assumes "frame_ok sf" "num_ins = unat (VRegA_35c d)" "num_ins \<le> 5" "first + num_ins \<le> num_regs"
    and "\<forall>k < num_ins. unat (GetVarArgs (replicate 5 0) inst d ! k) < NumberOfVRegs sf"
  shows "\<exists>f. copy_arguments False (create_frame num_regs 0) sf first num_ins inst d = Some f \<and>
    frame_ok f \<and> NumberOfVRegs f = num_regs \<and>
    (\<forall>k < num_ins. same_register f (first + k) sf (unat (GetVarArgs (replicate 5 0) inst d ! k)))"
proof -
  let ?arg = "\<lambda>k. unat (GetVarArgs (replicate 5 0) inst d ! k)"
  let ?count = "if num_ins = 5 then 4 else num_ins"
  let ?L = "map (\<lambda>k. unat (shr (Fetch16 inst 2) (4 * k) AND 0x0f)) [0..<?count]"
  have L: "?L = map ?arg [0..<?count]"
    using assms(3) by (auto simp: var_arg_register [OF assms(2,3)])
  obtain f where f: "(if num_ins = 5 then AssignRegister (create_frame num_regs 0) sf (first + 4)
        (unat (shr d 8 AND 0x0f)) else Some (create_frame num_regs 0)) = Some f"
    "frame_ok f" "NumberOfVRegs f = num_regs" "num_ins = 5 \<longrightarrow> same_register f (first + 4) sf (?arg 4)"
    using fifth_argument_copied [OF assms] by blast
  have "\<forall>src \<in> set ?L. src < NumberOfVRegs sf" using assms(3,5) unfolding L by auto
  then obtain g where g: "assign_registers f sf first ?L = Some g" "frame_ok g"
    "same_registers_except f g {first..<first + ?count}" "\<forall>k < ?count. same_register g (first + k) sf (?arg k)"
    using assign_registers_copies [OF assms(1) f(2), of ?L first] assms(4) f(3) unfolding L by (auto split: if_splits)
  have "same_register g (first + k) sf (?arg k)" if "k < num_ins" for k
  proof (cases "num_ins = 5 \<and> k = 4")
    case True
    with f(4) g(3) show ?thesis by (auto simp: same_register_def same_registers_except_def)
  next
    case False
    with that g(4) show ?thesis by (auto split: if_splits)
  qed
  with f g assms(3) show ?thesis
    by (auto simp: copy_arguments_def same_registers_except_def Let_def)
qed

lemma range_args_copied:
  assumes "frame_ok sf" "first + num_ins \<le> num_regs" "unat (VRegC_3rc inst) + num_ins \<le> NumberOfVRegs sf"
  shows "\<exists>f. copy_arguments True (create_frame num_regs 0) sf first num_ins inst d = Some f \<and>
    frame_ok f \<and> NumberOfVRegs f = num_regs \<and>
    (\<forall>k < num_ins. same_register f (first + k) sf (unat (VRegC_3rc inst) + k))"
  using assign_registers_copies [OF assms(1) create_frame_ok,
      of "[unat (VRegC_3rc inst)..<unat (VRegC_3rc inst) + num_ins]" first num_regs 0] assms
  by (auto simp: copy_arguments_def create_frame_size same_registers_except_def)

text \<open>C6: A call passes its arguments: on the path without access checks the new frame has the
  registers of the callee, and its last registers are copies, value and reference alike, of the
  registers the instruction names, which are the same ones the checked path reads.\<close>
theorem call_passes_arguments:
  assumes "frame_ok sf" "num_ins = unat (if is_range then VRegA_3rc d else VRegA_35c d)"
    and "num_ins \<le> num_regs" "is_range \<or> num_ins \<le> 5"
    and "\<forall>k < num_ins. \<exists>src < NumberOfVRegs sf. argument_source is_range num_ins inst d k = Some src"
  shows "\<exists>f. copy_arguments is_range (create_frame num_regs 0) sf (num_regs - num_ins) num_ins inst d = Some f \<and>
    frame_ok f \<and> NumberOfVRegs f = num_regs \<and>
    (\<forall>k < num_ins. \<exists>src. argument_source is_range num_ins inst d k = Some src \<and>
       same_register f (num_regs - num_ins + k) sf src)"
proof -
  define first where "first = num_regs - num_ins"
  then have first: "first + num_ins \<le> num_regs" using assms(3) by simp
  show ?thesis
    unfolding first_def [symmetric]
  proof (cases is_range)
    case True
    show "\<exists>f. copy_arguments is_range (create_frame num_regs 0) sf first num_ins inst d = Some f \<and>
      frame_ok f \<and> NumberOfVRegs f = num_regs \<and> (\<forall>k < num_ins. \<exists>src.
        argument_source is_range num_ins inst d k = Some src \<and> same_register f (first + k) sf src)"
    proof (cases "num_ins = 0")
      case False
      then have "unat (VRegC_3rc inst) + num_ins \<le> NumberOfVRegs sf"
        using assms(5) [rule_format, of "num_ins - 1"] True by (auto simp: argument_source_def)
      from range_args_copied [OF assms(1) first this] True show ?thesis
        by (simp add: argument_source_def)
    qed (use True create_frame_ok create_frame_size in \<open>auto simp: copy_arguments_def\<close>)
  next
    case False
    then show "\<exists>f. copy_arguments is_range (create_frame num_regs 0) sf first num_ins inst d = Some f \<and>
      frame_ok f \<and> NumberOfVRegs f = num_regs \<and> (\<forall>k < num_ins. \<exists>src.
        argument_source is_range num_ins inst d k = Some src \<and> same_register f (first + k) sf src)"
      using var_args_copied [OF assms(1) _ _ first, of d inst] assms(2,4,5)
      by (auto simp: argument_source_def)
  qed
qed

theorem call_passes_arguments_witness:
  "\<exists>f. copy_arguments False (create_frame 4 0) (frame sample_array_state) 2 2
      (code_units [0x206e, 0, 0x0021]) 0x206e = Some f \<and>
    same_register f 2 (frame sample_array_state) 1 \<and> same_register f 3 (frame sample_array_state) 2"
proof -
  let ?sf = "frame sample_array_state" and ?inst = "code_units [0x206e, 0, 0x0021]"
  have regs: "(2::nat) = unat (if False then VRegA_3rc 0x206e else VRegA_35c 0x206e)"
    "argument_source False 2 ?inst 0x206e 0 = Some 1" "argument_source False 2 ?inst 0x206e 1 = Some 2"
    "NumberOfVRegs ?sf = 3" by code_simp+
  have ok: "frame_ok ?sf"
    by (auto simp: frame_ok_def sample_array_state_def less_Suc_eq)
  from regs(2-4) have "\<forall>k < 2. \<exists>src < NumberOfVRegs ?sf. argument_source False 2 ?inst 0x206e k = Some src"
    by (auto simp: less_2_cases_iff)
  from call_passes_arguments [OF ok regs(1) _ _ this, of 4]
  obtain f where f: "copy_arguments False (create_frame 4 0) ?sf 2 2 ?inst 0x206e = Some f"
    and args: "\<forall>k < 2. \<exists>src. argument_source False 2 ?inst 0x206e k = Some src \<and> same_register f (4 - 2 + k) ?sf src"
    by auto
  from args [rule_format, of 0] args [rule_format, of 1] f regs(2,3) show ?thesis by simp
qed

end
