(* ===== verification/BitVector.thy ===== *)
theory BitVector
  imports ART_Prelude "HOL-Library.Monad_Syntax"
begin

text \<open>
  \<^verbatim>\<open>class BitVector\<close> of \<^verbatim>\<open>runtime/base/bit_vector.h\<close>, \<^verbatim>\<open>bit_vector-inl.h\<close> and \<^verbatim>\<open>bit_vector.cc\<close>: a bitmap in
  an array of 32 bit words that grows on demand. Indices and sizes are 32 bit and wrap as in the
  source; a violated \<^verbatim>\<open>DCHECK\<close> (growing a vector that is not expandable) is \<^term>\<open>None\<close>. The
  specification is the set of the indices of the one bits.
\<close>

section \<open>The code\<close>

record bit_vector =
  storage :: "u32 list"
  expandable :: bool

definition BitsToWords :: "u32 \<Rightarrow> u32" where
  "BitsToWords bits = RoundUp bits 32 div 32"

definition WordIndex :: "u32 \<Rightarrow> nat" where
  "WordIndex idx = unat (shr idx 5)"

definition BitMask :: "u32 \<Rightarrow> u32" where
  "BitMask idx = shl 1 (unat (idx AND 0x1f))"

text \<open>\<^verbatim>\<open>storage_size_ * kWordBits\<close>, also \<^verbatim>\<open>IndexIterator::BitSize\<close>.\<close>

definition BitSize :: "u32 list \<Rightarrow> u32" where
  "BitSize st = of_nat (length st) * 32"

definition create_bit_vector :: "u32 \<Rightarrow> bool \<Rightarrow> bit_vector" where
  "create_bit_vector start_bits expandable' =
     \<lparr>storage = replicate (unat (BitsToWords start_bits)) 0, expandable = expandable'\<rparr>"

definition EnsureSize :: "bit_vector \<Rightarrow> u32 \<Rightarrow> bit_vector option" where
  "EnsureSize bv idx =
     (if BitSize (storage bv) \<le> idx then
        let new_size = unat (BitsToWords (idx + 1)); old_size = length (storage bv) in
        if expandable bv \<and> old_size < new_size
        then Some (bv\<lparr>storage := storage bv @ replicate (new_size - old_size) 0\<rparr>) else None
      else Some bv)"

definition SetBit :: "bit_vector \<Rightarrow> u32 \<Rightarrow> bit_vector option" where
  "SetBit bv idx = do {
     bv \<leftarrow> (if BitSize (storage bv) \<le> idx then EnsureSize bv idx else Some bv);
     let w = WordIndex idx;
     Some (bv\<lparr>storage := (storage bv)[w := storage bv ! w OR BitMask idx]\<rparr>)
   }"

definition ClearBit :: "bit_vector \<Rightarrow> u32 \<Rightarrow> bit_vector" where
  "ClearBit bv idx =
     (if idx < BitSize (storage bv) then
        let w = WordIndex idx in bv\<lparr>storage := (storage bv)[w := storage bv ! w AND NOT (BitMask idx)]\<rparr>
      else bv)"

definition IsBitSet :: "bit_vector \<Rightarrow> u32 \<Rightarrow> bool" where
  "IsBitSet bv idx \<longleftrightarrow>
     idx < BitSize (storage bv) \<and> storage bv ! WordIndex idx AND BitMask idx \<noteq> 0"

definition ClearAllBits :: "bit_vector \<Rightarrow> bit_vector" where
  "ClearAllBits bv = bv\<lparr>storage := replicate (length (storage bv)) 0\<rparr>"

text \<open>The loops over the words: a pure assignment, and an assignment that notes a change.\<close>

definition assign_words :: "(nat \<Rightarrow> u32 \<Rightarrow> u32) \<Rightarrow> nat list \<Rightarrow> u32 list \<Rightarrow> u32 list" where
  "assign_words f idxs st = fold (\<lambda>idx st. st[idx := f idx (st ! idx)]) idxs st"

definition update_word :: "(nat \<Rightarrow> u32 \<Rightarrow> u32) \<Rightarrow> nat \<Rightarrow> bool \<times> u32 list \<Rightarrow> bool \<times> u32 list" where
  "update_word f idx = (\<lambda>(changed, st).
     let existing = st ! idx; update = f idx existing in
     if existing \<noteq> update then (True, st[idx := update]) else (changed, st))"

definition SetInitialBits :: "bit_vector \<Rightarrow> u32 \<Rightarrow> bit_vector option" where
  "SetInitialBits bv num_bits =
     (if num_bits = 0 then Some (ClearAllBits bv)
      else do {
        bv \<leftarrow> SetBit bv (num_bits - 1);
        let n = WordIndex num_bits;
        let st = assign_words (\<lambda>_ _. - 1) [0..<n] (storage bv);
        let rem_num_bits = unat (num_bits AND 0x1f);
        let (idx, st) = (if rem_num_bits \<noteq> 0 then (Suc n, st[n := shl 1 rem_num_bits - 1]) else (n, st));
        Some (bv\<lparr>storage := assign_words (\<lambda>_ _. 0) [idx..<length st] st\<rparr>)
      })"

primrec highest_word :: "u32 list \<Rightarrow> nat \<Rightarrow> int" where
  "highest_word st 0 = - 1"
| "highest_word st (Suc idx) =
     (if st ! idx \<noteq> 0 then sint (of_nat (31 - CLZ (st ! idx)) + of_nat idx * 32 :: u32)
      else highest_word st idx)"

definition GetHighestBitSet :: "bit_vector \<Rightarrow> int" where
  "GetHighestBitSet bv = highest_word (storage bv) (length (storage bv))"

definition Copy :: "bit_vector \<Rightarrow> bit_vector \<Rightarrow> bit_vector option" where
  "Copy bv src = (let highest_bit = GetHighestBitSet src in
     if highest_bit = - 1 then Some (ClearAllBits bv)
     else do {
       bv \<leftarrow> SetBit bv (word_of_int highest_bit);
       let sz = 1 + unat (word_of_int highest_bit :: u32) div 32;
       Some (bv\<lparr>storage := take sz (storage src) @ replicate (length (storage bv) - sz) 0\<rparr>)
     })"

definition Intersect :: "bit_vector \<Rightarrow> bit_vector \<Rightarrow> bit_vector" where
  "Intersect bv src =
     (let min_size = min (length (storage bv)) (length (storage src));
          st = assign_words (\<lambda>idx w. w AND storage src ! idx) [0..<min_size] (storage bv)
      in bv\<lparr>storage := assign_words (\<lambda>_ _. 0) [min_size..<length st] st\<rparr>)"

definition Union :: "bit_vector \<Rightarrow> bit_vector \<Rightarrow> (bool \<times> bit_vector) option" where
  "Union bv src = (let highest_bit = GetHighestBitSet src in
     if highest_bit = - 1 then Some (False, bv)
     else do {
       let src_size = unat (BitsToWords (word_of_int (highest_bit + 1)));
       let grow = length (storage bv) < src_size;
       bv \<leftarrow> (if grow then EnsureSize bv (word_of_int highest_bit) else Some bv);
       let (changed, st) = fold (update_word (\<lambda>idx w. w OR storage src ! idx)) [0..<src_size] (grow, storage bv);
       Some (changed, bv\<lparr>storage := st\<rparr>)
     })"

definition UnionIfNotIn :: "bit_vector \<Rightarrow> bit_vector \<Rightarrow> bit_vector \<Rightarrow> (bool \<times> bit_vector) option" where
  "UnionIfNotIn bv union_with not_in = (let highest_bit = GetHighestBitSet union_with in
     if highest_bit = - 1 then Some (False, bv)
     else do {
       let union_with_size = unat (BitsToWords (word_of_int (highest_bit + 1)));
       bv \<leftarrow> (if length (storage bv) < union_with_size then EnsureSize bv (word_of_int highest_bit) else Some bv);
       let n = min (length (storage not_in)) union_with_size;
       let r = fold (update_word (\<lambda>idx w. w OR (storage union_with ! idx AND NOT (storage not_in ! idx))))
                 [0..<n] (False, storage bv);
       let (changed, st) = fold (update_word (\<lambda>idx w. w OR storage union_with ! idx)) [n..<union_with_size] r;
       Some (changed, bv\<lparr>storage := st\<rparr>)
     })"

definition Subtract :: "bit_vector \<Rightarrow> bit_vector \<Rightarrow> bit_vector" where
  "Subtract bv src =
     (let min_size = (if length (storage src) < length (storage bv) then length (storage src) else length (storage bv))
      in bv\<lparr>storage := assign_words (\<lambda>idx w. w AND NOT (storage src ! idx)) [0..<min_size] (storage bv)\<rparr>)"

definition Equal :: "bit_vector \<Rightarrow> bit_vector \<Rightarrow> bool" where
  "Equal bv src \<longleftrightarrow> length (storage bv) = length (storage src) \<and> expandable bv = expandable src \<and>
     storage bv = storage src"

definition SameBitsSet :: "bit_vector \<Rightarrow> bit_vector \<Rightarrow> bool" where
  "SameBitsSet bv src =
     (let our_highest = GetHighestBitSet bv; src_highest = GetHighestBitSet src in
      if our_highest \<noteq> src_highest then False
      else if our_highest \<le> 0 then True
      else let n = unat (BitsToWords (word_of_int our_highest)) in
           take n (storage bv) = take n (storage src))"

definition NumSetBits :: "bit_vector \<Rightarrow> u32" where
  "NumSetBits bv = fold (\<lambda>word count. count + of_nat (POPCOUNT (storage bv ! word))) [0..<length (storage bv)] 0"

text \<open>\<^verbatim>\<open>NumSetBits(storage, end)\<close>.\<close>

definition NumSetBits_below :: "bit_vector \<Rightarrow> u32 \<Rightarrow> u32" where
  "NumSetBits_below bv end' =
     (let word_end = WordIndex end'; partial_word_bits = unat (end' AND 0x1f);
          count = fold (\<lambda>word count. count + of_nat (POPCOUNT (storage bv ! word))) [0..<word_end] 0
      in if partial_word_bits \<noteq> 0
         then count + of_nat (POPCOUNT (storage bv ! word_end AND NOT (shl (- 1) partial_word_bits)))
         else count)"

text \<open>\<^verbatim>\<open>IndexIterator\<close>: the loop of \<^verbatim>\<open>FindIndex\<close>, and the range-based loop over \<^verbatim>\<open>Indexes()\<close>.\<close>

function find_word :: "u32 list \<Rightarrow> nat \<Rightarrow> u32 \<Rightarrow> u32" where
  "find_word st word_index word =
     (if word \<noteq> 0 then of_nat word_index * 32 + of_nat (CTZ word)
      else if length st \<le> Suc word_index then BitSize st
      else find_word st (Suc word_index) (st ! Suc word_index))"
  by pat_completeness auto
termination by (relation "measure (\<lambda>(st, word_index, _). length st - word_index)") auto

declare find_word.simps [simp del]

definition FindIndex :: "u32 list \<Rightarrow> u32 \<Rightarrow> u32" where
  "FindIndex st start_index =
     (let word_index = unat (start_index div 32) in
      if word_index = length st then start_index
      else find_word st word_index (st ! word_index AND shl (- 1) (unat (start_index AND 0x1f))))"

primrec index_loop :: "nat \<Rightarrow> u32 list \<Rightarrow> u32 \<Rightarrow> u32 list option" where
  "index_loop 0 st bit_index = None"
| "index_loop (Suc fuel) st bit_index =
     (if bit_index = BitSize st then Some []
      else map_option (\<lambda>r. bit_index # r) (index_loop fuel st (FindIndex st (bit_index + 1))))"

definition Indexes :: "bit_vector \<Rightarrow> u32 list option" where
  "Indexes bv = index_loop (Suc (32 * length (storage bv))) (storage bv) (FindIndex (storage bv) 0)"

section \<open>The set of one bits\<close>

definition word_set :: "u32 list \<Rightarrow> nat set" where
  "word_set st = {i. i div 32 < length st \<and> bit (st ! (i div 32)) (i mod 32)}"

definition bits_of :: "bit_vector \<Rightarrow> nat set" where
  "bits_of bv = word_set (storage bv)"

text \<open>
  Vectors of at most \<open>2 ^ 26\<close> words, so that every index is a nonnegative \<^verbatim>\<open>int\<close>; a vector that
  only ever sees such indices has this size.
\<close>

definition bv_ok :: "bit_vector \<Rightarrow> bool" where
  "bv_ok bv \<longleftrightarrow> length (storage bv) \<le> 2 ^ 26"

subsection \<open>Index arithmetic\<close>

lemma unat_mask_5: "unat ((idx :: u32) AND 0x1f) = unat idx mod 32"
proof -
  have "idx AND 0x1f = take_bit 5 idx"
    by (rule bit_word_eqI) (auto simp: bit_simps word_bits)
  then show ?thesis by (simp add: take_bit_eq_mod unat_mod)
qed

lemma WordIndex_div: "WordIndex idx = unat idx div 32"
  using unat_shr [of 5 idx] by (simp add: WordIndex_def)

lemma bit_BitMask: "bit (BitMask idx) i \<longleftrightarrow> i = unat idx mod 32"
  by (auto simp: BitMask_def unat_mask_5 bit_simps)

lemma unat_BitSize: "length st \<le> 2 ^ 26 \<Longrightarrow> unat (BitSize st) = 32 * length st"
  by (simp add: BitSize_def unat_word_ariths unsigned_of_nat take_bit_eq_mod)

lemma less_BitSize: "length st \<le> 2 ^ 26 \<Longrightarrow> idx < BitSize st \<longleftrightarrow> unat idx div 32 < length st"
  by (auto simp: word_less_nat_alt unat_BitSize)

lemma BitSize_le: "length st \<le> 2 ^ 26 \<Longrightarrow> BitSize st \<le> idx \<longleftrightarrow> length st \<le> unat idx div 32"
  using less_BitSize [of st idx] by (simp add: not_less [symmetric])

lemma unat_BitsToWords: "unat bits \<le> 2 ^ 31 \<Longrightarrow> unat (BitsToWords bits) = (unat bits + 31) div 32"
proof -
  assume small: "unat bits \<le> 2 ^ 31"
  let ?x = "bits + 32 - 1"
  have "?x AND - 32 = shl (shr ?x 5) 5"
  proof (rule bit_word_eqI)
    fix n assume n: "n < LENGTH(32)"
    have "bit (- 32 :: u32) n \<longleftrightarrow> 5 \<le> n" using n by (auto simp: bit_simps word_bits)
    then show "bit (?x AND - 32) n = bit (shl (shr ?x 5) 5) n"
      using n by (auto simp: bit_and_iff bit_push_bit_iff bit_drop_bit_eq)
  qed
  then have r: "RoundUp bits 32 = shl (shr ?x 5) 5" by (simp only: RoundUp_def RoundDown_def)
  have "?x = bits + 31" by simp
  then have x: "unat ?x = unat bits + 31"
    using small by (simp only: unat_word_ariths(1)) (simp add: mod_less)
  have "unat (shl (shr ?x 5) 5) = (unat (shr ?x 5) * 32) mod 2 ^ 32"
    by (simp only: push_bit_eq_mult unat_word_ariths(2)) simp
  also have "unat (shr ?x 5) = (unat bits + 31) div 32" using unat_shr [of 5 ?x] x by simp
  also have "(unat bits + 31) div 32 * 32 mod 2 ^ 32 = (unat bits + 31) div 32 * 32"
    using small by (intro mod_less) simp
  finally have "unat (shl (shr ?x 5) 5) = (unat bits + 31) div 32 * 32" .
  then show ?thesis by (simp only: BitsToWords_def r unat_div) simp
qed

subsection \<open>Words and sets\<close>

lemma word_set_extend: "word_set (st @ replicate n 0) = word_set st"
proof -
  have "bit ((st @ replicate n 0) ! k) j \<longleftrightarrow> k < length st \<and> bit (st ! k) j"
    if "k < length st + n" for k j
    using that by (cases "k < length st") (simp_all add: nth_append)
  then show ?thesis by (auto simp: word_set_def)
qed

lemma word_set_update:
  assumes "w < length st"
  shows "word_set (st[w := v]) = {i \<in> word_set st. i div 32 \<noteq> w} \<union> {i. i div 32 = w \<and> bit v (i mod 32)}"
  using assms by (auto simp: word_set_def nth_list_update)

lemma word_set_finite: "finite (word_set st)"
proof (rule finite_subset)
  show "word_set st \<subseteq> {..<32 * length st}" by (auto simp: word_set_def)
qed simp

lemma word_set_zero [simp]: "word_set (replicate n 0) = {}"
  by (auto simp: word_set_def)

lemma nat_div_mod_eq_iff: "(i :: nat) = j \<longleftrightarrow> i div 32 = j div 32 \<and> i mod 32 = j mod 32"
  by (metis div_mult_mod_eq)

lemma word_set_set_bit:
  "unat idx div 32 < length st \<Longrightarrow>
     word_set (st[unat idx div 32 := st ! (unat idx div 32) OR BitMask idx]) = insert (unat idx) (word_set st)"
  by (auto simp: word_set_update bit_simps bit_BitMask nat_div_mod_eq_iff [of _ "unat idx"]) (auto simp: word_set_def)

lemma word_set_clear_bit:
  "unat idx div 32 < length st \<Longrightarrow>
     word_set (st[unat idx div 32 := st ! (unat idx div 32) AND NOT (BitMask idx)]) = word_set st - {unat idx}"
  by (auto simp: word_set_update bit_simps bit_BitMask nat_div_mod_eq_iff [of _ "unat idx"]) (auto simp: word_set_def)

subsection \<open>Single bits\<close>

lemma EnsureSize_spec:
  assumes "bv_ok bv" "expandable bv \<or> unat idx < 32 * length (storage bv)" "unat idx < 2 ^ 31"
  shows "\<exists>bv'. EnsureSize bv idx = Some bv' \<and> bv_ok bv' \<and> expandable bv' = expandable bv \<and>
    length (storage bv') = max (length (storage bv)) (Suc (unat idx div 32)) \<and>
    storage bv' = storage bv @ replicate (length (storage bv') - length (storage bv)) 0"
proof (cases "length (storage bv) \<le> unat idx div 32")
  case True
  have "unat (idx + 1) = unat idx + 1" using assms(3) by (simp add: unat_word_ariths)
  then have "unat (BitsToWords (idx + 1)) = Suc (unat idx div 32)"
    using assms(3) unat_BitsToWords [of "idx + 1"] by simp
  with True assms show ?thesis
    by (auto simp: EnsureSize_def BitSize_le bv_ok_def)
next
  case False
  with assms show ?thesis by (auto simp: EnsureSize_def BitSize_le bv_ok_def max_def)
qed

lemma SetBit_spec:
  assumes "bv_ok bv" "expandable bv \<or> unat idx < 32 * length (storage bv)" "unat idx < 2 ^ 31"
  shows "\<exists>bv'. SetBit bv idx = Some bv' \<and> bv_ok bv' \<and> expandable bv' = expandable bv \<and>
    length (storage bv') = max (length (storage bv)) (Suc (unat idx div 32)) \<and>
    bits_of bv' = insert (unat idx) (bits_of bv)"
proof -
  obtain b where b: "EnsureSize bv idx = Some b" "bv_ok b" "expandable b = expandable bv"
    "length (storage b) = max (length (storage bv)) (Suc (unat idx div 32))"
    "storage b = storage bv @ replicate (length (storage b) - length (storage bv)) 0"
    using EnsureSize_spec [OF assms] by blast
  have e: "(if BitSize (storage bv) \<le> idx then EnsureSize bv idx else Some bv) = Some b"
    using b(1) by (simp add: EnsureSize_def split: if_splits)
  have "bits_of b = bits_of bv"
    unfolding bits_of_def by (subst b(5)) (rule word_set_extend)
  then show ?thesis
    using b(2-4) word_set_set_bit [of idx "storage b"]
    by (simp add: SetBit_def e WordIndex_div bits_of_def bv_ok_def Let_def)
qed

lemma ClearBit_spec:
  assumes "bv_ok bv"
  shows "bits_of (ClearBit bv idx) = bits_of bv - {unat idx} \<and> bv_ok (ClearBit bv idx) \<and>
    expandable (ClearBit bv idx) = expandable bv \<and> length (storage (ClearBit bv idx)) = length (storage bv)"
  using assms word_set_clear_bit [of idx "storage bv"]
  by (auto simp: ClearBit_def bv_ok_def less_BitSize WordIndex_div bits_of_def Let_def)
    (auto simp: word_set_def)

lemma IsBitSet_spec: "bv_ok bv \<Longrightarrow> IsBitSet bv idx \<longleftrightarrow> unat idx \<in> bits_of bv"
proof -
  have "x AND BitMask idx \<noteq> 0 \<longleftrightarrow> bit x (unat idx mod 32)" for x :: u32
    unfolding word_neq_0_bit by (auto simp: bit_and_iff bit_BitMask)
  then show "bv_ok bv \<Longrightarrow> IsBitSet bv idx \<longleftrightarrow> unat idx \<in> bits_of bv"
    by (simp add: IsBitSet_def less_BitSize bv_ok_def WordIndex_div bits_of_def word_set_def)
qed

lemma ClearAllBits_spec:
  "bits_of (ClearAllBits bv) = {}" "length (storage (ClearAllBits bv)) = length (storage bv)"
  "expandable (ClearAllBits bv) = expandable bv"
  by (simp_all add: ClearAllBits_def bits_of_def)

subsection \<open>The highest bit\<close>

lemma CLZ_highest:
  assumes "(w :: u32) \<noteq> 0"
  shows "bit w (31 - CLZ w)" "bit w i \<Longrightarrow> i \<le> 31 - CLZ w"
proof -
  have le: "32 - CLZ w \<le> k \<longleftrightarrow> (\<forall>i\<ge>k. \<not> bit w i)" for k
    using CLZ_le_iff [of w k] by (simp add: less_exp_iff_bits)
  have "\<not> 32 - CLZ w \<le> 0" using assms unfolding le by (auto simp: word_neq_0_bit)
  then have pos: "32 - CLZ w = Suc (31 - CLZ w)" by simp
  then have "\<not> 32 - CLZ w \<le> 31 - CLZ w" by simp
  then obtain j where j: "31 - CLZ w \<le> j" "bit w j" by (auto simp: le)
  have above: "\<not> bit w i" if "Suc (31 - CLZ w) \<le> i" for i
    using le [of "Suc (31 - CLZ w)"] pos that by simp
  with j have "j = 31 - CLZ w" by (metis Suc_leI le_neq_implies_less)
  with j show "bit w (31 - CLZ w)" by simp
  show "bit w i \<Longrightarrow> i \<le> 31 - CLZ w" using above [of i] by linarith
qed

lemma word_set_take_Suc:
  assumes "n < length st"
  shows "word_set (take (Suc n) st) = word_set (take n st) \<union> (\<lambda>j. j + 32 * n) ` {j. bit (st ! n) j}"
proof (intro set_eqI iffI)
  fix i assume "i \<in> word_set (take (Suc n) st)"
  then have i: "i div 32 \<le> n" "bit (st ! (i div 32)) (i mod 32)"
    using assms by (auto simp: word_set_def)
  show "i \<in> word_set (take n st) \<union> (\<lambda>j. j + 32 * n) ` {j. bit (st ! n) j}"
  proof (cases "i div 32 = n")
    case True
    then have "i = i mod 32 + 32 * n" by (metis mod_mult_div_eq)
    with True i(2) show ?thesis by blast
  next
    case False
    with i assms show ?thesis by (auto simp: word_set_def)
  qed
next
  fix i assume "i \<in> word_set (take n st) \<union> (\<lambda>j. j + 32 * n) ` {j. bit (st ! n) j}"
  moreover have "j < 32" if "bit (st ! n) j" for j using bit_imp_le_length [OF that] by simp
  ultimately show "i \<in> word_set (take (Suc n) st)" using assms by (auto simp: word_set_def)
qed

lemma highest_word_Max:
  assumes "length st \<le> 2 ^ 26" "n \<le> length st"
  shows "highest_word st n = (if word_set (take n st) = {} then - 1 else int (Max (word_set (take n st))))"
  using assms(2)
proof (induction n)
  case 0
  then show ?case by (simp add: word_set_def)
next
  case (Suc n)
  show ?case
  proof (cases "st ! n = 0")
    case True
    then have "word_set (take (Suc n) st) = word_set (take n st)"
      using Suc.prems by (simp add: word_set_take_Suc)
    with True Suc show ?thesis by simp
  next
    case False
    let ?m = "31 - CLZ (st ! n) + 32 * n" and ?S = "word_set (take (Suc n) st)"
    have m: "?m < 2 ^ 31" using Suc.prems assms(1) by simp
    then have "sint (of_nat ?m :: u32) = int ?m" by (intro sint_of_nat_small) simp
    then have "highest_word st (Suc n) = int ?m" using False by (simp add: algebra_simps)
    moreover have "Max ?S = ?m"
    proof (rule Max_eqI)
      show "finite ?S" by (rule word_set_finite)
      show "?m \<in> ?S" using CLZ_highest(1) [OF False] Suc.prems by (auto simp: word_set_take_Suc)
      fix y assume "y \<in> ?S"
      then show "y \<le> ?m"
        using CLZ_highest(2) [OF False] Suc.prems by (auto simp: word_set_take_Suc) (auto simp: word_set_def)
    qed
    moreover have "?S \<noteq> {}" using CLZ_highest(1) [OF False] Suc.prems by (auto simp: word_set_take_Suc)
    ultimately show ?thesis by simp
  qed
qed

lemma GetHighestBitSet_Max:
  "bv_ok bv \<Longrightarrow> GetHighestBitSet bv = (if bits_of bv = {} then - 1 else int (Max (bits_of bv)))"
  using highest_word_Max [of "storage bv" "length (storage bv)"]
  by (simp add: GetHighestBitSet_def bv_ok_def bits_of_def)

lemma mem_bits_of:
  "i \<in> bits_of bv \<longleftrightarrow> i div 32 < length (storage bv) \<and> bit (storage bv ! (i div 32)) (i mod 32)"
  by (simp add: bits_of_def word_set_def)

lemma bits_of_bounds:
  assumes "bv_ok bv" "i \<in> bits_of bv"
  shows "i < 32 * length (storage bv)" "i < 2 ^ 31"
  using assms by (auto simp: bits_of_def word_set_def bv_ok_def)

lemma highest_word_facts:
  assumes "bv_ok bv" "bits_of bv \<noteq> {}"
  defines "m \<equiv> Max (bits_of bv)"
  shows "GetHighestBitSet bv = int m" "m \<in> bits_of bv" "m < 2 ^ 31" "m div 32 < length (storage bv)"
    "i \<in> bits_of bv \<Longrightarrow> i \<le> m"
    "unat (word_of_int (int m) :: u32) = m" "unat (BitsToWords (word_of_int (int m + 1))) = Suc (m div 32)"
proof -
  have fin: "finite (bits_of bv)" by (simp add: bits_of_def word_set_finite)
  show "GetHighestBitSet bv = int m" using assms by (simp add: GetHighestBitSet_Max)
  show m: "m \<in> bits_of bv" using Max_in [OF fin assms(2)] by (simp add: m_def)
  show small: "m < 2 ^ 31" by (rule bits_of_bounds(2) [OF assms(1) m])
  show "m div 32 < length (storage bv)" using m by (simp add: bits_of_def word_set_def)
  show "i \<in> bits_of bv \<Longrightarrow> i \<le> m" using fin by (simp add: m_def)
  show "unat (word_of_int (int m) :: u32) = m"
    unfolding of_int_of_nat_eq by (rule unat_of_nat_small) (use small in simp)
  have w: "word_of_int (int m + 1) = (of_nat (Suc m) :: u32)" by simp
  have "unat (of_nat (Suc m) :: u32) = Suc m" by (rule unat_of_nat_small) (use small in simp)
  then show "unat (BitsToWords (word_of_int (int m + 1))) = Suc (m div 32)"
    unfolding w using small by (subst unat_BitsToWords) simp_all
qed

subsection \<open>Loops over the words\<close>

lemma length_assign_words [simp]: "length (assign_words f idxs st) = length st"
  unfolding assign_words_def by (induction idxs arbitrary: st) simp_all

lemma nth_assign_words:
  "b \<le> length st \<Longrightarrow> i < length st \<Longrightarrow>
     assign_words f [a..<b] st ! i = (if a \<le> i \<and> i < b then f i (st ! i) else st ! i)"
proof (induction b)
  case (Suc b)
  then show ?case
    using length_assign_words [of f "[a..<b]" st]
    by (cases "a \<le> b") (auto simp: assign_words_def nth_list_update)
qed (simp add: assign_words_def)

lemma fold_update_word:
  "b \<le> length st \<Longrightarrow> fold (update_word f) [a..<b] (changed, st) =
     (changed \<or> (\<exists>i. a \<le> i \<and> i < b \<and> f i (st ! i) \<noteq> st ! i), assign_words f [a..<b] st)"
proof (induction b)
  case (Suc b)
  show ?case
  proof (cases "a \<le> b")
    case True
    have n: "assign_words f [a..<b] st ! b = st ! b" using Suc.prems by (simp add: nth_assign_words)
    have a: "assign_words f [a..<Suc b] st = (assign_words f [a..<b] st)[b := f b (st ! b)]"
      using True n by (simp add: assign_words_def)
    have s: "(assign_words f [a..<b] st)[b := st ! b] = assign_words f [a..<b] st"
      using n by (metis list_update_id)
    have "fold (update_word f) [a..<Suc b] (changed, st) =
        update_word f b (changed \<or> (\<exists>i. a \<le> i \<and> i < b \<and> f i (st ! i) \<noteq> st ! i), assign_words f [a..<b] st)"
      using True Suc by simp
    also have "\<dots> = (changed \<or> (\<exists>i. a \<le> i \<and> i < Suc b \<and> f i (st ! i) \<noteq> st ! i), assign_words f [a..<Suc b] st)"
      using True unfolding a by (auto simp: update_word_def Let_def n s less_Suc_eq)
    finally show ?thesis .
  qed (auto simp: assign_words_def)
qed (simp add: assign_words_def)

lemma word_set_assign:
  "b \<le> length st \<Longrightarrow> i \<in> word_set (assign_words f [a..<b] st) \<longleftrightarrow> i div 32 < length st \<and>
     (if a \<le> i div 32 \<and> i div 32 < b then bit (f (i div 32) (st ! (i div 32))) (i mod 32) else i \<in> word_set st)"
  by (auto simp: word_set_def nth_assign_words)

text \<open>Two word arrays of the same length with the same bits are equal.\<close>

lemma word_set_inject:
  assumes "length st = length st'" "word_set st = word_set st'"
  shows "st = st'"
proof (rule nth_equalityI)
  fix k assume k: "k < length st"
  show "st ! k = st' ! k"
  proof (rule bit_word_eqI)
    fix n assume "n < LENGTH(32)"
    then have "(n + 32 * k \<in> word_set st) = bit (st ! k) n" "(n + 32 * k \<in> word_set st') = bit (st' ! k) n"
      using k assms(1) by (simp_all add: word_set_def)
    with assms(2) show "bit (st ! k) n = bit (st' ! k) n" by simp
  qed
qed (rule assms(1))

subsection \<open>Set operations\<close>

lemma changed_iff_set:
  assumes "b \<le> length st"
  shows "(\<exists>i. a \<le> i \<and> i < b \<and> f i (st ! i) \<noteq> st ! i) \<longleftrightarrow> word_set (assign_words f [a..<b] st) \<noteq> word_set st"
proof
  assume "\<exists>i. a \<le> i \<and> i < b \<and> f i (st ! i) \<noteq> st ! i"
  then obtain i where "a \<le> i" "i < b" "f i (st ! i) \<noteq> st ! i" by blast
  then have "assign_words f [a..<b] st ! i \<noteq> st ! i" using assms by (simp add: nth_assign_words)
  then have "assign_words f [a..<b] st \<noteq> st" by auto
  then show "word_set (assign_words f [a..<b] st) \<noteq> word_set st"
    using word_set_inject length_assign_words by metis
next
  assume *: "word_set (assign_words f [a..<b] st) \<noteq> word_set st"
  show "\<exists>i. a \<le> i \<and> i < b \<and> f i (st ! i) \<noteq> st ! i"
  proof (rule ccontr)
    assume "\<nexists>i. a \<le> i \<and> i < b \<and> f i (st ! i) \<noteq> st ! i"
    then have "assign_words f [a..<b] st = st"
      using assms by (intro nth_equalityI) (auto simp: nth_assign_words)
    with * show False by simp
  qed
qed

lemma fold_update_word_set:
  "b \<le> length st \<Longrightarrow> fold (update_word f) [a..<b] (changed, st) =
     (changed \<or> word_set (assign_words f [a..<b] st) \<noteq> word_set st, assign_words f [a..<b] st)"
  by (simp only: fold_update_word changed_iff_set)

lemma Intersect_spec:
  "bits_of (Intersect bv src) = bits_of bv \<inter> bits_of src"
  "expandable (Intersect bv src) = expandable bv" "length (storage (Intersect bv src)) = length (storage bv)"
proof -
  show "bits_of (Intersect bv src) = bits_of bv \<inter> bits_of src"
    by (auto simp: Intersect_def Let_def bits_of_def word_set_assign set_eq_iff bit_simps)
      (auto simp: word_set_def)
qed (simp_all add: Intersect_def Let_def)

lemma Subtract_spec:
  "bits_of (Subtract bv src) = bits_of bv - bits_of src"
  "expandable (Subtract bv src) = expandable bv" "length (storage (Subtract bv src)) = length (storage bv)"
proof -
  show "bits_of (Subtract bv src) = bits_of bv - bits_of src"
    by (auto simp: Subtract_def Let_def bits_of_def word_set_assign set_eq_iff bit_simps split: if_splits)
      (auto simp: word_set_def)
qed (simp_all add: Subtract_def Let_def)

text \<open>Space for the bits of \<open>src\<close>, as \<^verbatim>\<open>Union\<close> and \<^verbatim>\<open>UnionIfNotIn\<close> make it.\<close>

definition fits :: "bit_vector \<Rightarrow> bit_vector \<Rightarrow> bool" where
  "fits bv src \<longleftrightarrow> expandable bv \<or> bits_of src \<subseteq> {..<32 * length (storage bv)}"

lemma make_room:
  assumes "bv_ok bv" "bv_ok src" "fits bv src" "bits_of src \<noteq> {}"
  defines "m \<equiv> Max (bits_of src)"
  shows "\<exists>bv'. (if length (storage bv) < Suc (m div 32) then EnsureSize bv (word_of_int (int m)) else Some bv) =
      Some bv' \<and> bv_ok bv' \<and> expandable bv' = expandable bv \<and> bits_of bv' = bits_of bv \<and>
    length (storage bv') = max (length (storage bv)) (Suc (m div 32))"
proof (cases "length (storage bv) < Suc (m div 32)")
  case True
  note hw = highest_word_facts [OF assms(2,4), folded m_def]
  have "expandable bv \<or> m < 32 * length (storage bv)"
    using assms(3) hw(2) by (auto simp: fits_def)
  then obtain bv' where "EnsureSize bv (word_of_int (int m)) = Some bv' \<and> bv_ok bv' \<and> expandable bv' = expandable bv \<and>
      length (storage bv') = max (length (storage bv)) (Suc (m div 32)) \<and>
      storage bv' = storage bv @ replicate (length (storage bv') - length (storage bv)) 0"
    using EnsureSize_spec [OF assms(1), of "word_of_int (int m)"] hw(3,6) by auto
  moreover from this have "bits_of bv' = bits_of bv" unfolding bits_of_def by (metis word_set_extend)
  ultimately show ?thesis using True by auto
next
  case False
  then show ?thesis using assms(1) by (auto simp: max_def)
qed

lemma word_set_or:
  assumes "b \<le> length st"
  shows "word_set (assign_words (\<lambda>idx w. w OR g idx) [a..<b] st) =
    word_set st \<union> {i. a \<le> i div 32 \<and> i div 32 < b \<and> bit (g (i div 32)) (i mod 32)}"
proof (rule set_eqI)
  fix i
  show "i \<in> word_set (assign_words (\<lambda>idx w. w OR g idx) [a..<b] st) \<longleftrightarrow>
    i \<in> word_set st \<union> {i. a \<le> i div 32 \<and> i div 32 < b \<and> bit (g (i div 32)) (i mod 32)}"
  proof (cases "a \<le> i div 32 \<and> i div 32 < b")
    case True
    with assms show ?thesis by (simp add: word_set_assign bit_or_iff) (simp add: word_set_def)
  next
    case False
    with assms show ?thesis by (auto simp: word_set_assign) (auto simp: word_set_def)
  qed
qed

lemma bits_of_below:
  assumes "bv_ok bv" "bits_of bv \<noteq> {}"
  shows "{i. i div 32 < Suc (Max (bits_of bv) div 32) \<and> bit (storage bv ! (i div 32)) (i mod 32)} = bits_of bv"
proof -
  note hw = highest_word_facts [OF assms]
  have "i div 32 < Suc (Max (bits_of bv) div 32)" if "i \<in> bits_of bv" for i
    using hw(5) [OF that] by (simp add: div_le_mono less_Suc_eq_le)
  with hw(4) show ?thesis by (auto simp: mem_bits_of)
qed

lemma Union_spec:
  assumes "bv_ok bv" "bv_ok src" "fits bv src"
  shows "\<exists>bv'. Union bv src = Some (\<not> bits_of src \<subseteq> bits_of bv, bv') \<and> bv_ok bv' \<and>
    expandable bv' = expandable bv \<and> bits_of bv' = bits_of bv \<union> bits_of src \<and>
    (bits_of src \<subseteq> {..<32 * length (storage bv)} \<longrightarrow> length (storage bv') = length (storage bv))"
proof (cases "bits_of src = {}")
  case True
  then show ?thesis using assms by (simp add: Union_def GetHighestBitSet_Max)
next
  case False
  define m where "m = Max (bits_of src)"
  note hw = highest_word_facts [OF assms(2) False, folded m_def]
  obtain b where b: "(if length (storage bv) < Suc (m div 32) then EnsureSize bv (word_of_int (int m)) else Some bv) = Some b"
    "bv_ok b" "expandable b = expandable bv" "bits_of b = bits_of bv"
    "length (storage b) = max (length (storage bv)) (Suc (m div 32))"
    using make_room [OF assms False] unfolding m_def by blast
  let ?f = "\<lambda>idx w. w OR storage src ! idx" and ?n = "Suc (m div 32)"
  define st where "st = assign_words ?f [0..<?n] (storage b)"
  have nb: "?n \<le> length (storage b)" using b(5) by simp
  have st: "word_set st = bits_of bv \<union> bits_of src"
    unfolding st_def word_set_or [OF nb] using b(4) bits_of_below [OF assms(2) False, folded m_def]
    by (simp add: bits_of_def [of b])
  have grow: "\<not> bits_of src \<subseteq> bits_of bv" if "length (storage bv) < ?n"
    using that hw(2) by (auto simp: bits_of_def word_set_def)
  have "fold (update_word ?f) [0..<?n] (length (storage bv) < ?n, storage b) =
      (length (storage bv) < ?n \<or> word_set st \<noteq> word_set (storage b), st)"
    by (simp only: fold_update_word_set [OF nb] st_def)
  also have "(length (storage bv) < ?n \<or> word_set st \<noteq> word_set (storage b)) \<longleftrightarrow> \<not> bits_of src \<subseteq> bits_of bv"
    using grow st b(4) by (auto simp: bits_of_def)
  finally have loop: "fold (update_word ?f) [0..<?n] (length (storage bv) < ?n, storage b) =
      (\<not> bits_of src \<subseteq> bits_of bv, st)" .
  have len: "length st = length (storage b)" by (simp add: st_def)
  have fit: "?n \<le> length (storage bv)" if "bits_of src \<subseteq> {..<32 * length (storage bv)}"
    using that hw(2) by (simp add: Suc_le_eq less_mult_imp_div_less subset_iff mult.commute)
  have "Union bv src = Some (\<not> bits_of src \<subseteq> bits_of bv, b\<lparr>storage := st\<rparr>)"
    unfolding Union_def Let_def hw(1) hw(7) by (simp add: b(1) loop del: upt_Suc)
  then show ?thesis
    using st len b(2,3,5) fit by (auto simp: bits_of_def bv_ok_def max_def)
qed

lemma UnionIfNotIn_spec:
  assumes "bv_ok bv" "bv_ok src" "fits bv src"
  shows "\<exists>bv'. UnionIfNotIn bv src not_in = Some (\<not> bits_of src - bits_of not_in \<subseteq> bits_of bv, bv') \<and> bv_ok bv' \<and>
    expandable bv' = expandable bv \<and> bits_of bv' = bits_of bv \<union> (bits_of src - bits_of not_in) \<and>
    (bits_of src \<subseteq> {..<32 * length (storage bv)} \<longrightarrow> length (storage bv') = length (storage bv))"
proof (cases "bits_of src = {}")
  case True
  then show ?thesis using assms by (simp add: UnionIfNotIn_def GetHighestBitSet_Max)
next
  case False
  define m where "m = Max (bits_of src)"
  note hw = highest_word_facts [OF assms(2) False, folded m_def]
  obtain b where b: "(if length (storage bv) < Suc (m div 32) then EnsureSize bv (word_of_int (int m)) else Some bv) = Some b"
    "bv_ok b" "expandable b = expandable bv" "bits_of b = bits_of bv"
    "length (storage b) = max (length (storage bv)) (Suc (m div 32))"
    using make_room [OF assms False] unfolding m_def by blast
  let ?n = "Suc (m div 32)" and ?src = "storage src" and ?not = "storage not_in"
  let ?k = "min (length ?not) ?n"
  define f1 where "f1 = (\<lambda>idx w. w OR (?src ! idx AND NOT (?not ! idx)))"
  define f2 where "f2 = (\<lambda>idx w. w OR ?src ! idx)"
  define st1 where "st1 = assign_words f1 [0..<?k] (storage b)"
  define st where "st = assign_words f2 [?k..<?n] st1"
  have nb: "?n \<le> length (storage b)" using b(5) by simp
  have kb: "?k \<le> length (storage b)" "?n \<le> length st1" using nb by (simp_all add: st1_def)
  have bits: "word_set st1 = word_set (storage b) \<union>
      {i. i div 32 < ?k \<and> bit (?src ! (i div 32)) (i mod 32) \<and> \<not> bit (?not ! (i div 32)) (i mod 32)}"
    "word_set st = word_set st1 \<union> {i. ?k \<le> i div 32 \<and> i div 32 < ?n \<and> bit (?src ! (i div 32)) (i mod 32)}"
    unfolding st_def f2_def word_set_or [OF kb(2)] unfolding st1_def f1_def word_set_or [OF kb(1)]
    by (simp_all add: bit_and_iff bit_not_iff del: upt_Suc)
  have "word_set st = word_set (storage b) \<union> ({i. i div 32 < ?n \<and> bit (?src ! (i div 32)) (i mod 32)} - bits_of not_in)"
    unfolding bits by (auto simp: mem_bits_of)
  then have st: "word_set st = bits_of bv \<union> (bits_of src - bits_of not_in)"
    using b(4) bits_of_below [OF assms(2) False, folded m_def] by (simp add: bits_of_def [of b])
  have len: "length st = length (storage b)" by (simp add: st_def st1_def)
  have sub: "word_set (storage b) \<subseteq> word_set st1" "word_set st1 \<subseteq> word_set st" by (auto simp: bits)
  have "fold (update_word f2) [?k..<?n] (fold (update_word f1) [0..<?k] (False, storage b)) =
      (word_set st1 \<noteq> word_set (storage b) \<or> word_set st \<noteq> word_set st1, st)"
    by (simp only: fold_update_word_set [OF kb(1)] fold_update_word_set [OF kb(2)] st1_def [symmetric] st_def [symmetric] simp_thms)
  also have "(word_set st1 \<noteq> word_set (storage b) \<or> word_set st \<noteq> word_set st1) \<longleftrightarrow> word_set st \<noteq> word_set (storage b)"
    using sub by blast
  also have "\<dots> \<longleftrightarrow> \<not> bits_of src - bits_of not_in \<subseteq> bits_of bv"
    using st b(4) by (auto simp: bits_of_def [of b])
  finally have loop: "fold (update_word f2) [?k..<?n] (fold (update_word f1) [0..<?k] (False, storage b)) =
      (\<not> bits_of src - bits_of not_in \<subseteq> bits_of bv, st)" .
  have fit: "?n \<le> length (storage bv)" if "bits_of src \<subseteq> {..<32 * length (storage bv)}"
    using that hw(2) by (simp add: Suc_le_eq less_mult_imp_div_less subset_iff mult.commute)
  have "UnionIfNotIn bv src not_in = Some (\<not> bits_of src - bits_of not_in \<subseteq> bits_of bv, b\<lparr>storage := st\<rparr>)"
    unfolding UnionIfNotIn_def Let_def hw(1) hw(7) f1_def [symmetric] f2_def [symmetric]
    by (simp add: b(1) loop del: upt_Suc)
  then show ?thesis
    using st len b(2,3,5) fit by (auto simp: bits_of_def bv_ok_def max_def)
qed

lemma word_set_take: "word_set (take n st) = {i \<in> word_set st. i div 32 < n}"
  by (auto simp: word_set_def)

lemma word_set_take_highest:
  assumes "bv_ok bv" "bits_of bv \<noteq> {}"
  shows "word_set (take (Suc (Max (bits_of bv) div 32)) (storage bv)) = bits_of bv"
  unfolding word_set_take using highest_word_facts(5) [OF assms]
  by (auto simp: bits_of_def [of bv, symmetric] less_Suc_eq_le div_le_mono)

lemma Copy_spec:
  assumes "bv_ok bv" "bv_ok src" "fits bv src"
  shows "\<exists>bv'. Copy bv src = Some bv' \<and> bv_ok bv' \<and> expandable bv' = expandable bv \<and> bits_of bv' = bits_of src"
proof (cases "bits_of src = {}")
  case True
  then show ?thesis
    using assms ClearAllBits_spec [of bv] by (simp add: Copy_def GetHighestBitSet_Max bv_ok_def)
next
  case False
  define m where "m = Max (bits_of src)"
  note hw = highest_word_facts [OF assms(2) False, folded m_def]
  have "expandable bv \<or> m < 32 * length (storage bv)" using assms(3) hw(2) by (auto simp: fits_def)
  then obtain b where b: "SetBit bv (word_of_int (int m)) = Some b" "bv_ok b" "expandable b = expandable bv"
    "length (storage b) = max (length (storage bv)) (Suc (m div 32))"
    using SetBit_spec [OF assms(1), of "word_of_int (int m)"] hw(3,6) by auto
  let ?n = "Suc (m div 32)"
  have "word_set (take ?n (storage src)) = bits_of src"
    unfolding m_def by (rule word_set_take_highest [OF assms(2) False])
  then show ?thesis
    using hw(4,6) b by (simp add: Copy_def hw(1) Let_def bits_of_def word_set_extend bv_ok_def)
qed

lemma bit_initial_mask: "k < 32 \<Longrightarrow> bit (shl 1 k - 1 :: u32) j \<longleftrightarrow> j < k"
proof -
  assume k: "k < 32"
  have "(shl 1 k - 1 :: u32) = mask k" by (simp add: mask_eq_exp_minus_1 push_bit_eq_mult)
  with k show ?thesis by (simp only: bit_mask_iff) auto
qed

lemma less_div_mod: "(i :: nat) < n \<longleftrightarrow> i div 32 < n div 32 \<or> i div 32 = n div 32 \<and> i mod 32 < n mod 32"
proof -
  have "32 * (i div 32) + i mod 32 = i" "32 * (n div 32) + n mod 32 = n" "i mod 32 < 32" "n mod 32 < 32" by simp_all
  then show ?thesis by linarith
qed

lemma div_minus_one: "(n :: nat) mod 32 \<noteq> 0 \<Longrightarrow> (n - 1) div 32 = n div 32"
proof -
  have "32 * (n div 32) + n mod 32 = n" "32 * ((n - 1) div 32) + (n - 1) mod 32 = n - 1" "(n - 1) mod 32 < 32"
    by simp_all
  then show "n mod 32 \<noteq> 0 \<Longrightarrow> (n - 1) div 32 = n div 32" by linarith
qed

lemma SetInitialBits_spec:
  assumes "bv_ok bv" "expandable bv \<or> unat num_bits \<le> 32 * length (storage bv)" "unat num_bits \<le> 2 ^ 31"
  shows "\<exists>bv'. SetInitialBits bv num_bits = Some bv' \<and> bv_ok bv' \<and> expandable bv' = expandable bv \<and>
    bits_of bv' = {..<unat num_bits}"
proof (cases "num_bits = 0")
  case True
  then show ?thesis using assms(1) ClearAllBits_spec [of bv] by (simp add: SetInitialBits_def bv_ok_def)
next
  case False
  let ?N = "unat num_bits"
  have "?N \<noteq> 0" using False by (simp add: unat_eq_0)
  then have pred: "unat (num_bits - 1) = ?N - 1" by (subst unat_sub) (simp_all add: word_le_nat_alt)
  have room: "expandable bv \<or> unat (num_bits - 1) < 32 * length (storage bv)" "unat (num_bits - 1) < 2 ^ 31"
    using assms(2,3) \<open>?N \<noteq> 0\<close> unfolding pred by linarith+
  obtain b where b: "SetBit bv (num_bits - 1) = Some b" "bv_ok b" "expandable b = expandable bv"
    "length (storage b) = max (length (storage bv)) (Suc ((?N - 1) div 32))"
    using SetBit_spec [OF assms(1) room] unfolding pred by blast
  let ?n = "?N div 32" and ?r = "?N mod 32"
  define st where "st = assign_words (\<lambda>_ _. - 1) [0..<?n] (storage b)"
  have n: "?n \<le> length (storage b)" "?r \<noteq> 0 \<Longrightarrow> ?n < length (storage b)"
    using b(4) div_minus_one [of ?N] by linarith+
  define p where "p = (if ?r \<noteq> 0 then (Suc ?n, st[?n := shl 1 ?r - 1]) else (?n, st))"
  define final where "final = assign_words (\<lambda>_ _. 0) [fst p..<length (snd p)] (snd p)"
  have "SetInitialBits bv num_bits = Some (b\<lparr>storage := final\<rparr>)"
    using False b(1)
    by (simp add: SetInitialBits_def WordIndex_div unat_mask_5 final_def p_def st_def Let_def split: if_splits)
  moreover have len: "length final = length (storage b)" by (simp add: final_def p_def st_def)
  moreover have nth: "final ! k = (if k < ?n then - 1 else if k = ?n \<and> ?r \<noteq> 0 then shl 1 ?r - 1 else 0)"
    if "k < length (storage b)" for k
    using that n by (auto simp: final_def p_def st_def nth_assign_words nth_list_update)
  moreover have "word_set final = {..<?N}"
  proof (rule set_eqI)
    fix i
    have "bit (final ! (i div 32)) (i mod 32) \<longleftrightarrow> i div 32 < ?n \<or> i div 32 = ?n \<and> i mod 32 < ?r"
      if "i div 32 < length (storage b)"
      using nth [OF that] bit_initial_mask [of ?r "i mod 32"] by (auto simp: bit_simps)
    then show "i \<in> word_set final \<longleftrightarrow> i \<in> {..<?N}"
      using n len less_div_mod [of i ?N] by (auto simp: word_set_def)
  qed
  ultimately show ?thesis using b(2,3) by (simp add: bits_of_def bv_ok_def) 
qed

subsection \<open>Comparison, counting, iteration\<close>

lemma highest_at_most_0:
  assumes "bv_ok bv" "GetHighestBitSet bv \<le> 0"
  shows "bits_of bv = (if GetHighestBitSet bv = 0 then {0} else {})"
proof (cases "bits_of bv = {}")
  case True
  with assms(1) show ?thesis by (simp add: GetHighestBitSet_Max)
next
  case False
  note hw = highest_word_facts [OF assms(1) False]
  have "Max (bits_of bv) = 0" using assms(2) hw(1) by simp
  with hw(2,5) have "bits_of bv = {0}" by force
  then show ?thesis using hw(1) by simp
qed

lemma SameBitsSet_spec:
  assumes "bv_ok bv" "bv_ok src"
  shows "SameBitsSet bv src \<longleftrightarrow> bits_of bv = bits_of src"
proof (cases "GetHighestBitSet bv = GetHighestBitSet src \<and> 0 < GetHighestBitSet bv")
  case False
  show ?thesis
  proof (cases "GetHighestBitSet bv = GetHighestBitSet src")
    case True
    with False have "GetHighestBitSet bv \<le> 0" "GetHighestBitSet src \<le> 0" by simp_all
    with True assms show ?thesis by (simp add: SameBitsSet_def highest_at_most_0)
  next
    case False
    then have "bits_of bv \<noteq> bits_of src" using assms GetHighestBitSet_Max by metis
    with False show ?thesis by (simp add: SameBitsSet_def)
  qed
next
  case True
  then have ne: "bits_of bv \<noteq> {}" "bits_of src \<noteq> {}" using assms by (auto simp: GetHighestBitSet_Max split: if_splits)
  define m where "m = Max (bits_of bv)"
  note hb = highest_word_facts [OF assms(1) ne(1), folded m_def]
  note hs = highest_word_facts [OF assms(2) ne(2)]
  have max: "Max (bits_of src) = m" using True hb(1) hs(1) by simp
  note hs = hs [unfolded max]
  let ?n = "(m + 31) div 32"
  have n: "unat (BitsToWords (word_of_int (int m))) = ?n"
    using unat_BitsToWords [of "word_of_int (int m)"] hb(3,6) by simp
  have "?n \<le> length (storage bv)" "?n \<le> length (storage src)" using hb(4) hs(4) by linarith+
  then have len: "length (take ?n (storage bv)) = length (take ?n (storage src))" by simp
  have "take ?n (storage bv) = take ?n (storage src) \<longleftrightarrow>
      word_set (take ?n (storage bv)) = word_set (take ?n (storage src))"
    using word_set_inject [OF len] by auto
  also have "\<dots> \<longleftrightarrow> {i \<in> bits_of bv. i div 32 < ?n} = {i \<in> bits_of src. i div 32 < ?n}"
    by (simp only: word_set_take bits_of_def)
  also have "\<dots> \<longleftrightarrow> bits_of bv = bits_of src"
  proof -
    have "i div 32 < ?n \<or> i = m" if "i \<le> m" for i using that by linarith
    then show ?thesis using hb(2,5) hs(2,5) by blast
  qed
  finally show ?thesis using True n hs(1) by (simp add: SameBitsSet_def hb(1) Let_def)
qed

lemma POPCOUNT_card: "POPCOUNT (w :: u32) = card {i. bit w i}"
proof -
  have "{i. bit w i} = set (filter (bit w) [0..<32])" using bit_imp_le_length [of w] by auto
  then have "card {i. bit w i} = length (filter (bit w) [0..<32])" by (metis distinct_card distinct_filter distinct_upt)
  then show ?thesis by (simp add: POPCOUNT_def)
qed

lemma card_word_set_Suc:
  assumes "n < length st"
  shows "card (word_set (take (Suc n) st)) = card (word_set (take n st)) + POPCOUNT (st ! n)"
proof -
  have "card ((\<lambda>j. j + 32 * n) ` {j. bit (st ! n) j}) = POPCOUNT (st ! n)"
    unfolding POPCOUNT_card by (rule card_image) simp
  moreover have "finite {j. bit (st ! n) j}"
    by (rule finite_subset [of _ "{..<32}"]) (auto dest: bit_imp_le_length)
  moreover have "word_set (take n st) \<inter> (\<lambda>j. j + 32 * n) ` {j. bit (st ! n) j} = {}"
    by (auto simp: word_set_def dest: bit_imp_le_length)
  ultimately show ?thesis
    by (simp add: word_set_take_Suc [OF assms] card_Un_disjoint word_set_finite)
qed

lemma count_words:
  "n \<le> length st \<Longrightarrow> fold (\<lambda>word count. count + of_nat (POPCOUNT (st ! word))) [0..<n] 0 =
     (of_nat (card (word_set (take n st))) :: u32)"
proof (induction n)
  case 0
  have "word_set [] = {}" by (simp add: word_set_def)
  then show ?case by simp
qed (simp add: card_word_set_Suc)

lemma NumSetBits_spec: "NumSetBits bv = of_nat (card (bits_of bv))"
  using count_words [of "length (storage bv)" "storage bv"] by (simp add: NumSetBits_def bits_of_def)

lemma NumSetBits_below_spec:
  assumes "unat end' \<le> 32 * length (storage bv)"
  shows "NumSetBits_below bv end' = of_nat (card {i \<in> bits_of bv. i < unat end'})"
proof -
  let ?st = "storage bv" and ?n = "unat end' div 32" and ?r = "unat end' mod 32"
  have n: "?n \<le> length ?st" using assms by linarith
  show ?thesis
  proof (cases "?r = 0")
    case True
    then have "{i \<in> bits_of bv. i < unat end'} = word_set (take ?n ?st)"
      unfolding word_set_take bits_of_def using less_div_mod [of _ "unat end'"] by auto
    with True show ?thesis
      by (simp add: NumSetBits_below_def Let_def WordIndex_div unat_mask_5 count_words [OF n])
  next
    case False
    moreover have "32 * ?n + ?r = unat end'" by simp
    ultimately have n': "?n < length ?st" using assms by linarith
    define w where "w = ?st ! ?n AND NOT (shl (- 1) ?r)"
    have w: "bit w j \<longleftrightarrow> bit (?st ! ?n) j \<and> j < ?r" for j
      using bit_imp_le_length [of "?st ! ?n" j] by (auto simp: w_def bit_simps)
    have "word_set (take (Suc ?n) (?st[?n := w])) = {i \<in> bits_of bv. i < unat end'}"
    proof (rule set_eqI)
      fix i
      have "i \<in> word_set (take (Suc ?n) (?st[?n := w])) \<longleftrightarrow>
          i div 32 \<le> ?n \<and> bit (if i div 32 = ?n then w else ?st ! (i div 32)) (i mod 32)"
        using n' by (auto simp: word_set_take word_set_def nth_list_update)
      then show "i \<in> word_set (take (Suc ?n) (?st[?n := w])) \<longleftrightarrow> i \<in> {i \<in> bits_of bv. i < unat end'}"
        using n' w [of "i mod 32"] less_div_mod [of i "unat end'"] mem_bits_of [of i bv]
        by (cases "i div 32" ?n rule: linorder_cases) simp_all
    qed
    then have "card {i \<in> bits_of bv. i < unat end'} = card (word_set (take ?n ?st)) + POPCOUNT w"
      using card_word_set_Suc [of ?n "?st[?n := w]"] n' by simp
    with False show ?thesis
      by (simp add: NumSetBits_below_def Let_def WordIndex_div unat_mask_5 count_words [OF n] w_def)
  qed
qed

lemma CTZ_lowest:
  assumes "(w :: u32) \<noteq> 0"
  shows "CTZ w < 32" "bit w (CTZ w)" "bit w i \<Longrightarrow> CTZ w \<le> i"
proof -
  obtain k where k: "k < 32" "bit w k" using assms by (auto simp: word_neq_0_bit)
  let ?t = "takeWhile (\<lambda>i. \<not> bit w i) [0..<32]"
  have n: "CTZ w = length ?t" by (simp add: CTZ_def)
  have t: "length ?t \<le> 32" using length_takeWhile_le [of _ "[0..<32]"] by simp
  have below: "\<not> bit w j" if "j < length ?t" for j
    using le_length_takeWhile [of "length ?t" "[0..<32]" "\<lambda>i. \<not> bit w i"] t that by simp
  then show lowest: "bit w i \<Longrightarrow> CTZ w \<le> i" for i unfolding n using not_le by blast
  from lowest [OF k(2)] k(1) show l: "CTZ w < 32" by simp
  show "bit w (CTZ w)"
    using nth_length_takeWhile [of "\<lambda>i. \<not> bit w i" "[0..<32]"] l unfolding n by simp
qed

text \<open>The next one bit at or after a position, or the end of the vector.\<close>

definition next_bit :: "u32 list \<Rightarrow> nat \<Rightarrow> nat \<Rightarrow> bool" where
  "next_bit st from r \<longleftrightarrow> from \<le> r \<and> (r = 32 * length st \<or> r \<in> word_set st) \<and>
     (\<forall>i \<in> word_set st. from \<le> i \<longrightarrow> r \<le> i)"

lemma find_word_next:
  assumes "length st \<le> 2 ^ 26" "k < length st" "32 * k \<le> from" "from \<le> 32 * Suc k"
    "\<And>j. bit w j \<longleftrightarrow> bit (st ! k) j \<and> from \<le> 32 * k + j"
  shows "next_bit st from (unat (find_word st k w))"
  using assms
proof (induction st k w arbitrary: "from" rule: find_word.induct)
  case (1 st k w)
  have word: "k \<le> i div 32" "k < i div 32 \<or> bit w (i mod 32)" if "i \<in> word_set st" "from \<le> i" for i
  proof -
    have "32 * (i div 32) + i mod 32 = i" "i mod 32 < 32" by simp_all
    with that(2) "1.prems"(3) show "k \<le> i div 32" by linarith
    with that \<open>32 * (i div 32) + i mod 32 = i\<close> "1.prems"(5) show "k < i div 32 \<or> bit w (i mod 32)"
      by (cases "i div 32 = k") (auto simp: word_set_def)
  qed
  consider "w \<noteq> 0" | "w = 0" "length st \<le> Suc k" | "w = 0" "Suc k < length st" by linarith
  then show ?case
  proof cases
    case 1
    note c = CTZ_lowest [OF 1]
    have "unat (of_nat (32 * k + CTZ w) :: u32) = 32 * k + CTZ w"
      by (rule unat_of_nat_small) (use "1.prems"(1,2) c(1) in simp)
    then have r: "unat (find_word st k w) = 32 * k + CTZ w"
      using 1 by (subst find_word.simps) (simp add: mult.commute)
    have "from \<le> 32 * k + CTZ w" "bit (st ! k) (CTZ w)" using c(2) "1.prems"(5) by blast+
    moreover have "32 * k + CTZ w \<le> i" if "i \<in> word_set st" "from \<le> i" for i
    proof -
      have "32 * (i div 32) + i mod 32 = i" by simp
      with word [OF that] c(1) c(3) [of "i mod 32"] show ?thesis
        by (elim disjE) linarith+
    qed
    ultimately show ?thesis
      using "1.prems"(2) c(1) by (auto simp: r next_bit_def word_set_def)
  next
    case 2
    then have "unat (find_word st k w) = 32 * length st"
      using unat_BitSize [OF "1.prems"(1)] by (subst find_word.simps) simp
    moreover have "from \<le> 32 * length st" using "1.prems"(2,4) by simp
    moreover have "\<not> from \<le> i" if "i \<in> word_set st" for i
      using word [OF that] that 2 by (auto simp: word_set_def)
    ultimately show ?thesis by (simp add: next_bit_def)
  next
    case 3
    then have "find_word st k w = find_word st (Suc k) (st ! Suc k)" by (subst find_word.simps) simp
    moreover have "next_bit st (32 * Suc k) (unat (find_word st (Suc k) (st ! Suc k)))"
      using 3 "1.prems"(1) by (intro "1.IH") auto
    moreover have "32 * Suc k \<le> i" if "i \<in> word_set st" "from \<le> i" for i
      using word [OF that] 3 by auto
    ultimately show ?thesis using "1.prems"(4) by (auto simp: next_bit_def)
  qed
qed

lemma FindIndex_next:
  assumes "length st \<le> 2 ^ 26" "unat start \<le> 32 * length st"
  shows "next_bit st (unat start) (unat (FindIndex st start))"
proof (cases "unat start div 32 = length st")
  case True
  then have "FindIndex st start = start" by (simp add: FindIndex_def unat_div)
  moreover have "unat start = 32 * length st"
    using True assms(2) div_mult_mod_eq [of "unat start" 32] by linarith
  ultimately show ?thesis by (simp add: next_bit_def)
next
  case False
  let ?k = "unat start div 32"
  have split: "32 * ?k + unat start mod 32 = unat start" "unat start mod 32 < 32" by simp_all
  then have "?k < length st" using False assms(2) by linarith
  moreover have "bit (st ! ?k AND shl (- 1) (unat start mod 32)) j \<longleftrightarrow> bit (st ! ?k) j \<and> unat start \<le> 32 * ?k + j" for j
  proof -
    have "unat start \<le> 32 * ?k + j \<longleftrightarrow> unat start mod 32 \<le> j" using split(1) by linarith
    then show ?thesis using bit_imp_le_length [of "st ! ?k" j] by (auto simp: bit_simps)
  qed
  moreover have "32 * ?k \<le> unat start" "unat start \<le> 32 * Suc ?k"
    using split unfolding mult_Suc_right by linarith+
  ultimately show ?thesis
    using find_word_next [OF assms(1), of ?k "unat start"] False
    by (simp add: FindIndex_def unat_div unat_mask_5 Let_def)
qed

lemma index_loop_spec:
  assumes "length st \<le> 2 ^ 26" "next_bit st from (unat i)" "32 * length st < unat i + fuel"
  shows "index_loop fuel st i = Some (map of_nat (sorted_list_of_set {j \<in> word_set st. from \<le> j}))"
  using assms(2,3)
proof (induction fuel arbitrary: "from" i)
  case 0
  have "j < 32 * length st" if "j \<in> word_set st" for j using that by (auto simp: word_set_def)
  with 0 show ?case by (force simp: next_bit_def)
next
  case (Suc fuel)
  have bound: "j < 32 * length st" if "j \<in> word_set st" for j using that by (auto simp: word_set_def)
  show ?case
  proof (cases "unat i = 32 * length st")
    case True
    then have "i = BitSize st" using unat_BitSize [OF assms(1)] by (metis unsigned_word_eqI)
    moreover have empty: "{j \<in> word_set st. from \<le> j} = {}"
      using True Suc.prems(1) bound by (fastforce simp: next_bit_def)
    ultimately show ?thesis unfolding empty by simp
  next
    case False
    then have i: "unat i \<in> word_set st" using Suc.prems(1) by (simp add: next_bit_def)
    then have lt: "unat i < 32 * length st" by (rule bound)
    have suc: "unat (i + 1) = Suc (unat i)" using lt assms(1) by (simp add: unat_word_ariths)
    have "next_bit st (Suc (unat i)) (unat (FindIndex st (i + 1)))"
      using FindIndex_next [OF assms(1), of "i + 1"] lt suc by simp
    moreover from this have "Suc (unat i) \<le> unat (FindIndex st (i + 1))" by (simp add: next_bit_def)
    ultimately have rest: "index_loop fuel st (FindIndex st (i + 1)) =
        Some (map of_nat (sorted_list_of_set {j \<in> word_set st. Suc (unat i) \<le> j}))"
      using Suc.prems(2) by (intro Suc.IH) auto
    let ?S = "{j \<in> word_set st. from \<le> j}"
    have fin: "finite ?S" using word_set_finite by simp
    have "Min ?S = unat i" using Suc.prems(1) i by (intro Min_eqI) (auto simp: next_bit_def fin)
    moreover have "?S \<noteq> {}" using Suc.prems(1) i by (auto simp: next_bit_def)
    moreover have "?S - {unat i} = {j \<in> word_set st. Suc (unat i) \<le> j}"
      using Suc.prems(1) by (force simp: next_bit_def)
    ultimately have "sorted_list_of_set ?S = unat i # sorted_list_of_set {j \<in> word_set st. Suc (unat i) \<le> j}"
      using sorted_list_of_set_nonempty [OF fin] by simp
    moreover have "i \<noteq> BitSize st" using False unat_BitSize [OF assms(1)] by metis
    ultimately show ?thesis using rest by simp
  qed
qed

lemma Indexes_spec: "bv_ok bv \<Longrightarrow> Indexes bv = Some (map of_nat (sorted_list_of_set (bits_of bv)))"
  using index_loop_spec [of "storage bv" 0 "FindIndex (storage bv) 0" "Suc (32 * length (storage bv))"]
    FindIndex_next [of "storage bv" 0]
  by (simp add: Indexes_def bv_ok_def bits_of_def)

section \<open>Properties\<close>

text \<open>C26: The set operations of a bit vector are those of the set of its one bits, whatever the sizes
  of the operands. Union and the conditional union report a change exactly when the set has
  changed. A vector that is not expandable is only asked for bits it has room for.\<close>
theorem bit_vector_set_algebra:
  assumes "bv_ok a" "bv_ok b" "fits a b"
  shows "(\<exists>a'. Union a b = Some (bits_of a' \<noteq> bits_of a, a') \<and> bits_of a' = bits_of a \<union> bits_of b) \<and>
    (\<exists>a'. UnionIfNotIn a b c = Some (bits_of a' \<noteq> bits_of a, a') \<and> bits_of a' = bits_of a \<union> (bits_of b - bits_of c)) \<and>
    bits_of (Intersect a b) = bits_of a \<inter> bits_of b \<and> bits_of (Subtract a b) = bits_of a - bits_of b \<and>
    (\<exists>a'. Copy a b = Some a' \<and> bits_of a' = bits_of b)"
proof -
  obtain u where "Union a b = Some (\<not> bits_of b \<subseteq> bits_of a, u)" "bits_of u = bits_of a \<union> bits_of b"
    using Union_spec [OF assms] by blast
  moreover from this(2) have "(\<not> bits_of b \<subseteq> bits_of a) = (bits_of u \<noteq> bits_of a)" by blast
  moreover obtain w where "UnionIfNotIn a b c = Some (\<not> bits_of b - bits_of c \<subseteq> bits_of a, w)"
    "bits_of w = bits_of a \<union> (bits_of b - bits_of c)"
    using UnionIfNotIn_spec [OF assms, of c] by blast
  moreover from this(2) have "(\<not> bits_of b - bits_of c \<subseteq> bits_of a) = (bits_of w \<noteq> bits_of a)" by blast
  ultimately show ?thesis using Copy_spec [OF assms] by (auto simp: Intersect_spec Subtract_spec)
qed

definition sample_bits :: "u32 list \<Rightarrow> bit_vector" where
  "sample_bits ws = \<lparr>storage = ws, expandable = True\<rparr>"

lemma sample_bits_ok: "length ws \<le> 8 \<Longrightarrow> bv_ok (sample_bits ws) \<and> fits (sample_bits ws) b"
  by (simp add: bv_ok_def fits_def sample_bits_def)

theorem bit_vector_set_algebra_witness:
  "\<exists>a'. Union (sample_bits [5]) (sample_bits [3, 0, 1]) = Some (True, a') \<and>
     bits_of a' = bits_of (sample_bits [5]) \<union> bits_of (sample_bits [3, 0, 1])"
proof -
  have "map_option fst (Union (sample_bits [5]) (sample_bits [3, 0, 1])) = Some True" by code_simp
  then show ?thesis
    using bit_vector_set_algebra [of "sample_bits [5]" "sample_bits [3, 0, 1]"]
      sample_bits_ok [of "[5]"] sample_bits_ok [of "[3, 0, 1]"] by auto
qed

text \<open>C27: The queries of a bit vector answer about the set of its one bits: membership, the highest
  element, the number of elements in all and below a bound, equality of the sets of two vectors
  of any sizes, and the iteration, which ends and visits every element once in increasing order.\<close>
theorem bit_vector_queries:
  assumes "bv_ok a" "bv_ok b" "unat n \<le> 32 * length (storage a)"
  shows "(IsBitSet a i \<longleftrightarrow> unat i \<in> bits_of a) \<and>
    GetHighestBitSet a = (if bits_of a = {} then - 1 else int (Max (bits_of a))) \<and>
    (SameBitsSet a b \<longleftrightarrow> bits_of a = bits_of b) \<and>
    unat (NumSetBits a) = card (bits_of a) \<and> unat (NumSetBits_below a n) = card {j \<in> bits_of a. j < unat n} \<and>
    map_option (map unat) (Indexes a) = Some (sorted_list_of_set (bits_of a))"
proof -
  have fin: "finite (bits_of a)" by (simp add: bits_of_def word_set_finite)
  have "card (bits_of a) \<le> card {..<32 * length (storage a)}"
    using bits_of_bounds(1) [OF assms(1)] by (intro card_mono) auto
  then have c: "card (bits_of a) < 2 ^ 32" using assms(1) by (simp add: bv_ok_def)
  have "card {j \<in> bits_of a. j < unat n} \<le> card (bits_of a)" using fin by (intro card_mono) auto
  with c have "card {j \<in> bits_of a. j < unat n} < 2 ^ 32" by linarith
  with c have "unat (NumSetBits a) = card (bits_of a)" "unat (NumSetBits_below a n) = card {j \<in> bits_of a. j < unat n}"
    by (simp_all add: NumSetBits_spec NumSetBits_below_spec [OF assms(3)] unat_of_nat_small)
  moreover have "map (unat \<circ> (of_nat :: nat \<Rightarrow> u32)) (sorted_list_of_set (bits_of a)) = sorted_list_of_set (bits_of a)"
  proof (rule map_idI)
    fix j assume "j \<in> set (sorted_list_of_set (bits_of a))"
    then have "j < 2 ^ 31" using fin bits_of_bounds(2) [OF assms(1)] by simp
    then show "(unat \<circ> (of_nat :: nat \<Rightarrow> u32)) j = j" by (simp add: unat_of_nat_small)
  qed
  ultimately show ?thesis
    using assms by (simp add: IsBitSet_spec GetHighestBitSet_Max SameBitsSet_spec Indexes_spec)
qed

theorem bit_vector_queries_witness:
  "unat (NumSetBits (sample_bits [5, 0, 9])) = card (bits_of (sample_bits [5, 0, 9])) \<and>
   GetHighestBitSet (sample_bits [5, 0, 9]) = 67 \<and> Indexes (sample_bits [5, 0, 9]) = Some [0, 2, 64, 67] \<and>
   sorted_list_of_set (bits_of (sample_bits [5, 0, 9])) = [0, 2, 64, 67]"
proof -
  have i: "Indexes (sample_bits [5, 0, 9]) = Some [0, 2, 64, 67]" "GetHighestBitSet (sample_bits [5, 0, 9]) = 67"
    by code_simp+
  have "length (storage (sample_bits [5, 0, 9])) = 3" by (simp add: sample_bits_def)
  then show ?thesis
    using bit_vector_queries [of "sample_bits [5, 0, 9]" "sample_bits [5, 0, 9]" 64]
      sample_bits_ok [of "[5, 0, 9]"] i by simp
qed

end
