(* ===== verification/SsaLiveness.thy ===== *)
theory SsaLiveness
  imports BitVector
begin

text \<open>
  The live-in, live-out and kill sets of \<^verbatim>\<open>compiler/optimizing/ssa_liveness_analysis.cc\<close>:
  \<^verbatim>\<open>ComputeLiveRanges\<close> (its effect on the sets; the live intervals it also builds are left out) and
  the fixpoint iteration \<^verbatim>\<open>ComputeLiveInAndLiveOutSets\<close>. The code is written against the operations
  of a set of SSA indices; \<open>bv_ops\<close> are those of \<^verbatim>\<open>BitVector\<close>, which the compiler uses. The locale
  \<open>live_set\<close> states what the analysis needs of them.
\<close>

section \<open>The code\<close>

text \<open>
  A block of the graph, as far as the analysis reads it. An instruction without SSA index (its
  location summary has no output) is \<^term>\<open>None\<close>; a missing entry of an environment is a null
  pointer.
\<close>

record hinst =
  ssa_index :: "u32 option"
  inputs :: "u32 option list"
  environment :: "u32 option option list"

record hblock =
  successors :: "nat list"
  predecessors :: "nat list"
  phis :: "hinst list"
  instructions :: "hinst list"

record 'v set_ops =
  op_union :: "'v \<Rightarrow> 'v \<Rightarrow> (bool \<times> 'v) option"
  op_union_if_not_in :: "'v \<Rightarrow> 'v \<Rightarrow> 'v \<Rightarrow> (bool \<times> 'v) option"
  op_set_bit :: "'v \<Rightarrow> u32 \<Rightarrow> 'v option"
  op_clear_bit :: "'v \<Rightarrow> u32 \<Rightarrow> 'v"

definition bv_ops :: "bit_vector set_ops" where
  "bv_ops = \<lparr>op_union = Union, op_union_if_not_in = UnionIfNotIn, op_set_bit = SetBit, op_clear_bit = ClearBit\<rparr>"

text \<open>\<^verbatim>\<open>block_infos_\<close>, by block id.\<close>

record 'v block_infos =
  live_in :: "nat \<Rightarrow> 'v"
  live_out :: "nat \<Rightarrow> 'v"
  kill :: "nat \<Rightarrow> 'v"

fun GetPredecessorIndexOf :: "nat list \<Rightarrow> nat \<Rightarrow> nat option" where
  "GetPredecessorIndexOf [] block = None"
| "GetPredecessorIndexOf (p # ps) block =
     (if p = block then Some 0 else map_option Suc (GetPredecessorIndexOf ps block))"

subsection \<open>ComputeLiveRanges\<close>

text \<open>The inputs of the phis of a successor that belong to this block.\<close>

primrec phi_inputs :: "'v set_ops \<Rightarrow> nat \<Rightarrow> hinst list \<Rightarrow> 'v \<Rightarrow> 'v option" where
  "phi_inputs ops phi_input_index [] v = Some v"
| "phi_inputs ops phi_input_index (phi # ps) v = do {
     input \<leftarrow> (if phi_input_index < length (inputs phi) then inputs phi ! phi_input_index else None);
     v \<leftarrow> op_set_bit ops v input;
     phi_inputs ops phi_input_index ps v
   }"

primrec from_successors :: "'v set_ops \<Rightarrow> (nat \<Rightarrow> hblock) \<Rightarrow> nat \<Rightarrow> nat list \<Rightarrow> 'v block_infos \<Rightarrow> 'v block_infos option"
where
  "from_successors ops g block [] s = Some s"
| "from_successors ops g block (successor # ss) s = do {
     (_, v) \<leftarrow> op_union ops (live_in s block) (live_in s successor);
     phi_input_index \<leftarrow> (if phis (g successor) = [] then Some 0
       else GetPredecessorIndexOf (predecessors (g successor)) block);
     v \<leftarrow> phi_inputs ops phi_input_index (phis (g successor)) v;
     from_successors ops g block ss (s\<lparr>live_in := (live_in s)(block := v)\<rparr>)
   }"

primrec set_inputs :: "'v set_ops \<Rightarrow> u32 option list \<Rightarrow> 'v \<Rightarrow> 'v option" where
  "set_inputs ops [] v = Some v"
| "set_inputs ops (input # is) v = do {
     v \<leftarrow> (case input of None \<Rightarrow> Some v | Some idx \<Rightarrow> op_set_bit ops v idx);
     set_inputs ops is v
   }"

primrec set_environment :: "'v set_ops \<Rightarrow> u32 option option list \<Rightarrow> 'v \<Rightarrow> 'v option" where
  "set_environment ops [] v = Some v"
| "set_environment ops (instruction # is) v = do {
     v \<leftarrow> (case instruction of None \<Rightarrow> Some v
         | Some index \<Rightarrow> Option.bind index (op_set_bit ops v));
     set_environment ops is v
   }"

definition kill_definition :: "'v set_ops \<Rightarrow> hinst \<Rightarrow> 'v \<times> 'v \<Rightarrow> ('v \<times> 'v) option" where
  "kill_definition ops current = (\<lambda>(killed, live). case ssa_index current of
     None \<Rightarrow> Some (killed, live)
   | Some idx \<Rightarrow> do {
       killed \<leftarrow> op_set_bit ops killed idx;
       Some (killed, op_clear_bit ops live idx)
     })"

text \<open>The backward pass over the instructions (given in the order of the pass), then the phis.\<close>

primrec backward_pass :: "'v set_ops \<Rightarrow> hinst list \<Rightarrow> 'v \<times> 'v \<Rightarrow> ('v \<times> 'v) option" where
  "backward_pass ops [] p = Some p"
| "backward_pass ops (current # is) p = do {
     (killed, live) \<leftarrow> kill_definition ops current p;
     live \<leftarrow> set_inputs ops (inputs current) live;
     live \<leftarrow> set_environment ops (environment current) live;
     backward_pass ops is (killed, live)
   }"

primrec kill_phis :: "'v set_ops \<Rightarrow> hinst list \<Rightarrow> 'v \<times> 'v \<Rightarrow> ('v \<times> 'v) option" where
  "kill_phis ops [] p = Some p"
| "kill_phis ops (current # is) p = do {
     p \<leftarrow> kill_definition ops current p;
     kill_phis ops is p
   }"

definition live_ranges_block :: "'v set_ops \<Rightarrow> (nat \<Rightarrow> hblock) \<Rightarrow> nat \<Rightarrow> 'v block_infos \<Rightarrow> 'v block_infos option"
where
  "live_ranges_block ops g block s = do {
     s \<leftarrow> from_successors ops g block (successors (g block)) s;
     p \<leftarrow> backward_pass ops (rev (instructions (g block))) (kill s block, live_in s block);
     (killed, live) \<leftarrow> kill_phis ops (phis (g block)) p;
     Some (s\<lparr>kill := (kill s)(block := killed), live_in := (live_in s)(block := live)\<rparr>)
   }"

primrec ComputeLiveRanges :: "'v set_ops \<Rightarrow> (nat \<Rightarrow> hblock) \<Rightarrow> nat list \<Rightarrow> 'v block_infos \<Rightarrow> 'v block_infos option"
where
  "ComputeLiveRanges ops g [] s = Some s"
| "ComputeLiveRanges ops g (block # bs) s = do {
     s \<leftarrow> live_ranges_block ops g block s;
     ComputeLiveRanges ops g bs s
   }"

subsection \<open>ComputeLiveInAndLiveOutSets\<close>

primrec live_out_loop ::
  "'v set_ops \<Rightarrow> nat \<Rightarrow> nat list \<Rightarrow> bool \<Rightarrow> 'v block_infos \<Rightarrow> (bool \<times> 'v block_infos) option" where
  "live_out_loop ops block [] changed s = Some (changed, s)"
| "live_out_loop ops block (successor # ss) changed s = do {
     (c, v) \<leftarrow> op_union ops (live_out s block) (live_in s successor);
     live_out_loop ops block ss (if c then True else changed) (s\<lparr>live_out := (live_out s)(block := v)\<rparr>)
   }"

definition UpdateLiveOut :: "'v set_ops \<Rightarrow> (nat \<Rightarrow> hblock) \<Rightarrow> nat \<Rightarrow> 'v block_infos \<Rightarrow> (bool \<times> 'v block_infos) option"
where
  "UpdateLiveOut ops g block s = live_out_loop ops block (successors (g block)) False s"

definition UpdateLiveIn :: "'v set_ops \<Rightarrow> nat \<Rightarrow> 'v block_infos \<Rightarrow> (bool \<times> 'v block_infos) option" where
  "UpdateLiveIn ops block s = do {
     (changed, v) \<leftarrow> op_union_if_not_in ops (live_in s block) (live_out s block) (kill s block);
     Some (changed, s\<lparr>live_in := (live_in s)(block := v)\<rparr>)
   }"

text \<open>One pass over the blocks in post order.\<close>

primrec liveness_round ::
  "'v set_ops \<Rightarrow> (nat \<Rightarrow> hblock) \<Rightarrow> nat list \<Rightarrow> bool \<Rightarrow> 'v block_infos \<Rightarrow> (bool \<times> 'v block_infos) option" where
  "liveness_round ops g [] changed s = Some (changed, s)"
| "liveness_round ops g (block # bs) changed s = do {
     (out_changed, s) \<leftarrow> UpdateLiveOut ops g block s;
     (in_changed, s) \<leftarrow> (if out_changed then UpdateLiveIn ops block s else Some (False, s));
     liveness_round ops g bs (if in_changed then True else changed) s
   }"

partial_function (option) ComputeLiveInAndLiveOutSets ::
  "'v set_ops \<Rightarrow> (nat \<Rightarrow> hblock) \<Rightarrow> nat list \<Rightarrow> 'v block_infos \<Rightarrow> 'v block_infos option" where
  [code]: "ComputeLiveInAndLiveOutSets ops g order s = Option.bind (liveness_round ops g order False s)
     (\<lambda>r. if fst r then ComputeLiveInAndLiveOutSets ops g order (snd r) else Some (snd r))"

definition ComputeLiveness ::
  "(nat \<Rightarrow> hblock) \<Rightarrow> nat list \<Rightarrow> nat list \<Rightarrow> u32 \<Rightarrow> bit_vector block_infos option" where
  "ComputeLiveness g linear reverse_post_order number_of_ssa_values = do {
     let cleared = ClearAllBits (create_bit_vector number_of_ssa_values False);
     s \<leftarrow> ComputeLiveRanges bv_ops g (rev linear)
       \<lparr>live_in = (\<lambda>_. cleared), live_out = (\<lambda>_. cleared), kill = (\<lambda>_. cleared)\<rparr>;
     ComputeLiveInAndLiveOutSets bv_ops g (rev reverse_post_order) s
   }"

section \<open>Liveness\<close>

text \<open>
  The specification. \<open>uses\<close> and \<open>defs\<close> of an instruction are SSA indices; a use counts as live on
  entry to the block unless an earlier instruction or a phi of the block defines the value. A value
  is live on entry to a block if it has such a use, or is the input of a phi at the end of the
  block, or is live on entry to a successor, and in the last two cases is not defined in the block.
\<close>

definition defs :: "hinst \<Rightarrow> nat set" where
  "defs i = (case ssa_index i of None \<Rightarrow> {} | Some idx \<Rightarrow> {unat idx})"

definition uses :: "hinst \<Rightarrow> nat set" where
  "uses i = {unat idx | idx. Some idx \<in> set (inputs i) \<or> Some (Some idx) \<in> set (environment i)}"

definition block_defs :: "hblock \<Rightarrow> nat set" where
  "block_defs b = \<Union> (defs ` (set (phis b) \<union> set (instructions b)))"

definition exposed :: "hinst list \<Rightarrow> nat set" where
  "exposed is = {v. \<exists>k < length is. v \<in> uses (is ! k) \<and> (\<forall>j < k. v \<notin> defs (is ! j))}"

definition edge_uses :: "(nat \<Rightarrow> hblock) \<Rightarrow> nat \<Rightarrow> nat \<Rightarrow> nat set" where
  "edge_uses g block succ = {unat idx | idx k phi. GetPredecessorIndexOf (predecessors (g succ)) block = Some k \<and>
     phi \<in> set (phis (g succ)) \<and> k < length (inputs phi) \<and> inputs phi ! k = Some idx}"

definition phi_uses :: "(nat \<Rightarrow> hblock) \<Rightarrow> nat \<Rightarrow> nat set" where
  "phi_uses g block = (\<Union>succ \<in> set (successors (g block)). edge_uses g block succ)"

inductive live_on_entry :: "(nat \<Rightarrow> hblock) \<Rightarrow> nat \<Rightarrow> nat \<Rightarrow> bool" for g where
  use: "v \<in> exposed (instructions (g b)) \<Longrightarrow> v \<notin> \<Union> (defs ` set (phis (g b))) \<Longrightarrow> live_on_entry g b v"
| phi: "v \<in> phi_uses g b \<Longrightarrow> v \<notin> block_defs (g b) \<Longrightarrow> live_on_entry g b v"
| through: "c \<in> set (successors (g b)) \<Longrightarrow> live_on_entry g c v \<Longrightarrow> v \<notin> block_defs (g b) \<Longrightarrow> live_on_entry g b v"

text \<open>What the analysis needs of the graph: indices in range, inputs of phis and environments numbered.\<close>

definition insn_ok :: "nat \<Rightarrow> hinst \<Rightarrow> bool" where
  "insn_ok n i \<longleftrightarrow> defs i \<subseteq> {..<n} \<and> uses i \<subseteq> {..<n} \<and> Some None \<notin> set (environment i)"

definition edge_ok :: "(nat \<Rightarrow> hblock) \<Rightarrow> nat \<Rightarrow> nat \<Rightarrow> bool" where
  "edge_ok g block succ \<longleftrightarrow> (\<exists>k. GetPredecessorIndexOf (predecessors (g succ)) block = Some k \<and>
     (\<forall>phi \<in> set (phis (g succ)). k < length (inputs phi) \<and> inputs phi ! k \<noteq> None))"

definition graph_ok :: "nat \<Rightarrow> (nat \<Rightarrow> hblock) \<Rightarrow> nat set \<Rightarrow> bool" where
  "graph_ok n g blocks \<longleftrightarrow> (\<forall>b \<in> blocks. set (successors (g b)) \<subseteq> blocks \<and>
     (\<forall>i \<in> set (phis (g b)) \<union> set (instructions (g b)). insn_ok n i) \<and>
     (\<forall>c \<in> set (successors (g b)). edge_ok g b c))"

section \<open>The contract of the sets\<close>

locale live_set =
  fixes elems :: "'v \<Rightarrow> nat set" and ok :: "'v \<Rightarrow> bool" and limit :: nat and ops :: "'v set_ops"
  assumes elems_bound: "ok a \<Longrightarrow> elems a \<subseteq> {..<limit}"
    and union: "ok a \<Longrightarrow> ok b \<Longrightarrow>
      \<exists>a'. op_union ops a b = Some (\<not> elems b \<subseteq> elems a, a') \<and> ok a' \<and> elems a' = elems a \<union> elems b"
    and union_if_not_in: "ok a \<Longrightarrow> ok b \<Longrightarrow> ok c \<Longrightarrow> \<exists>a'. op_union_if_not_in ops a b c =
      Some (\<not> elems b - elems c \<subseteq> elems a, a') \<and> ok a' \<and> elems a' = elems a \<union> (elems b - elems c)"
    and set_bit: "ok a \<Longrightarrow> unat i < limit \<Longrightarrow>
      \<exists>a'. op_set_bit ops a i = Some a' \<and> ok a' \<and> elems a' = insert (unat i) (elems a)"
    and clear_bit: "ok a \<Longrightarrow> ok (op_clear_bit ops a i) \<and> elems (op_clear_bit ops a i) = elems a - {unat i}"
begin

lemma set_inputs:
  "ok v \<Longrightarrow> (\<forall>idx. Some idx \<in> set is \<longrightarrow> unat idx < limit) \<Longrightarrow>
     \<exists>v'. set_inputs ops is v = Some v' \<and> ok v' \<and> elems v' = elems v \<union> {unat idx | idx. Some idx \<in> set is}"
proof (induction "is" arbitrary: v)
  case (Cons i "is")
  show ?case
  proof (cases i)
    case None
    with Cons show ?thesis by simp
  next
    case (Some idx)
    obtain a where "op_set_bit ops v idx = Some a" "ok a" "elems a = insert (unat idx) (elems v)"
      using set_bit [OF Cons.prems(1), of idx] Cons.prems(2) Some by auto
    with Cons.IH [of a] Cons.prems Some show ?thesis by auto
  qed
qed simp

lemma set_environment:
  "ok v \<Longrightarrow> (\<forall>idx. Some (Some idx) \<in> set is \<longrightarrow> unat idx < limit) \<Longrightarrow> Some None \<notin> set is \<Longrightarrow>
     \<exists>v'. set_environment ops is v = Some v' \<and> ok v' \<and> elems v' = elems v \<union> {unat idx | idx. Some (Some idx) \<in> set is}"
proof (induction "is" arbitrary: v)
  case (Cons i "is")
  show ?case
  proof (cases i)
    case None
    with Cons show ?thesis by simp
  next
    case (Some o')
    then obtain idx where i: "i = Some (Some idx)" using Cons.prems(3) by (cases o') auto
    obtain a where "op_set_bit ops v idx = Some a" "ok a" "elems a = insert (unat idx) (elems v)"
      using set_bit [OF Cons.prems(1), of idx] Cons.prems(2) i by auto
    with Cons.IH [of a] Cons.prems i show ?thesis by auto
  qed
qed simp

lemma kill_definition:
  assumes "ok killed" "ok live" "defs i \<subseteq> {..<limit}"
  shows "\<exists>killed' live'. kill_definition ops i (killed, live) = Some (killed', live') \<and> ok killed' \<and> ok live' \<and>
    elems killed' = elems killed \<union> defs i \<and> elems live' = elems live - defs i"
proof (cases "ssa_index i")
  case None
  with assms show ?thesis by (simp add: kill_definition_def defs_def)
next
  case (Some idx)
  with assms show ?thesis
    using set_bit [of killed idx] clear_bit [of live idx] by (auto simp: kill_definition_def defs_def)
qed

end

section \<open>The local pass\<close>

lemma exposed_Cons: "exposed (i # is) = uses i \<union> (exposed is - defs i)"
  by (auto simp: exposed_def Ex_less_Suc2 All_less_Suc2)

lemma exposed_Nil [simp]: "exposed [] = {}"
  by (simp add: exposed_def)

context live_set
begin

lemma backward_pass_snoc:
  "backward_pass ops (is @ js) p = Option.bind (backward_pass ops is p) (backward_pass ops js)"
  by (induction "is" arbitrary: p) (simp_all add: split_def)

lemma backward_pass:
  assumes "ok killed" "ok live" "\<forall>i \<in> set is. insn_ok limit i"
  shows "\<exists>killed' live'. backward_pass ops (rev is) (killed, live) = Some (killed', live') \<and> ok killed' \<and> ok live' \<and>
    elems killed' = elems killed \<union> \<Union> (defs ` set is) \<and>
    elems live' = exposed is \<union> (elems live - \<Union> (defs ` set is))"
  using assms(3)
proof (induction "is")
  case Nil
  with assms show ?case by simp
next
  case (Cons i "is")
  then obtain k l where kl: "backward_pass ops (rev is) (killed, live) = Some (k, l)" "ok k" "ok l"
    "elems k = elems killed \<union> \<Union> (defs ` set is)" "elems l = exposed is \<union> (elems live - \<Union> (defs ` set is))"
    by auto
  have i: "defs i \<subseteq> {..<limit}" "uses i \<subseteq> {..<limit}" "Some None \<notin> set (environment i)"
    using Cons.prems by (auto simp: insn_ok_def)
  obtain k' l' where 1: "kill_definition ops i (k, l) = Some (k', l')" "ok k'" "ok l'"
    "elems k' = elems k \<union> defs i" "elems l' = elems l - defs i"
    using kill_definition [OF kl(2,3) i(1)] by blast
  obtain l2 where 2: "set_inputs ops (inputs i) l' = Some l2" "ok l2"
    "elems l2 = elems l' \<union> {unat idx | idx. Some idx \<in> set (inputs i)}"
    using set_inputs [OF 1(3), of "inputs i"] i(2) by (auto simp: uses_def)
  obtain l3 where 3: "set_environment ops (environment i) l2 = Some l3" "ok l3"
    "elems l3 = elems l2 \<union> {unat idx | idx. Some (Some idx) \<in> set (environment i)}"
    using set_environment [OF 2(2), of "environment i"] i(2,3) by (auto simp: uses_def)
  have "elems l3 = (elems l - defs i) \<union> uses i" using 1(5) 2(3) 3(3) by (auto simp: uses_def)
  then have "elems l3 = exposed (i # is) \<union> (elems live - \<Union> (defs ` set (i # is)))"
    unfolding exposed_Cons kl(5) by auto
  moreover have "elems k' = elems killed \<union> \<Union> (defs ` set (i # is))" using 1(4) kl(4) by auto
  ultimately show ?case using 1(1,2) 2(1) 3(1,2) kl(1) by (simp add: backward_pass_snoc)
qed

lemma kill_phis:
  "ok killed \<Longrightarrow> ok live \<Longrightarrow> \<forall>i \<in> set is. insn_ok limit i \<Longrightarrow>
   \<exists>killed' live'. kill_phis ops is (killed, live) = Some (killed', live') \<and> ok killed' \<and> ok live' \<and>
     elems killed' = elems killed \<union> \<Union> (defs ` set is) \<and> elems live' = elems live - \<Union> (defs ` set is)"
proof (induction "is" arbitrary: killed live)
  case (Cons i "is")
  then have "defs i \<subseteq> {..<limit}" by (simp add: insn_ok_def)
  then obtain k l where "kill_definition ops i (killed, live) = Some (k, l)" "ok k" "ok l"
    "elems k = elems killed \<union> defs i" "elems l = elems live - defs i"
    using kill_definition [OF Cons.prems(1,2)] by blast
  with Cons.IH [of k l] Cons.prems(3) show ?case by fastforce
qed simp

lemma phi_inputs:
  assumes "ok v" "\<forall>phi \<in> set ps. k < length (inputs phi) \<and> inputs phi ! k \<noteq> None" "\<forall>phi \<in> set ps. insn_ok limit phi"
  shows "\<exists>v'. phi_inputs ops k ps v = Some v' \<and> ok v' \<and>
    elems v' = elems v \<union> (\<Union>phi \<in> set ps. {unat idx | idx. inputs phi ! k = Some idx})"
  using assms
proof (induction ps arbitrary: v)
  case (Cons phi ps)
  then obtain idx where idx: "inputs phi ! k = Some idx" "k < length (inputs phi)" by auto
  then have "Some idx \<in> set (inputs phi)" by (metis nth_mem)
  then have "unat idx < limit" using Cons.prems(3) by (auto simp: insn_ok_def uses_def)
  then obtain a where "op_set_bit ops v idx = Some a" "ok a" "elems a = insert (unat idx) (elems v)"
    using set_bit [OF Cons.prems(1)] by blast
  with Cons.IH [of a] Cons.prems idx show ?case by auto
qed simp

end

context live_set
begin

definition infos_ok :: "'v block_infos \<Rightarrow> bool" where
  "infos_ok s \<longleftrightarrow> (\<forall>b. ok (live_in s b) \<and> ok (live_out s b) \<and> ok (kill s b))"

lemma from_successors:
  assumes "infos_ok s" "\<forall>c \<in> set ss. edge_ok g block c \<and> (\<forall>phi \<in> set (phis (g c)). insn_ok limit phi)"
  shows "\<exists>v. from_successors ops g block ss s = Some (s\<lparr>live_in := (live_in s)(block := v)\<rparr>) \<and> ok v \<and>
    elems v = elems (live_in s block) \<union> (\<Union>c \<in> set ss. elems (live_in s c) \<union> edge_uses g block c)"
  using assms
proof (induction ss arbitrary: s)
  case Nil
  then have "s\<lparr>live_in := (live_in s)(block := live_in s block)\<rparr> = s" "ok (live_in s block)"
    by (simp_all add: infos_ok_def)
  then show ?case by (intro exI [of _ "live_in s block"]) simp
next
  case (Cons c ss)
  obtain v where v: "op_union ops (live_in s block) (live_in s c) = Some (\<not> elems (live_in s c) \<subseteq> elems (live_in s block), v)"
    "ok v" "elems v = elems (live_in s block) \<union> elems (live_in s c)"
    using union [of "live_in s block" "live_in s c"] Cons.prems(1) by (auto simp: infos_ok_def)
  obtain k where k: "GetPredecessorIndexOf (predecessors (g c)) block = Some k"
    "\<forall>phi \<in> set (phis (g c)). k < length (inputs phi) \<and> inputs phi ! k \<noteq> None"
    using Cons.prems(2) by (auto simp: edge_ok_def)
  define k' where "k' = (if phis (g c) = [] then 0 else k)"
  have k': "(if phis (g c) = [] then Some 0 else GetPredecessorIndexOf (predecessors (g c)) block) = Some k'"
    by (simp add: k'_def k(1))
  have "\<forall>phi \<in> set (phis (g c)). k' < length (inputs phi) \<and> inputs phi ! k' \<noteq> None"
    using k(2) by (auto simp: k'_def)
  then obtain v' where v': "phi_inputs ops k' (phis (g c)) v = Some v'" "ok v'"
    "elems v' = elems v \<union> (\<Union>phi \<in> set (phis (g c)). {unat idx | idx. inputs phi ! k' = Some idx})"
    using phi_inputs [OF v(2), of "phis (g c)" k'] Cons.prems(2) by auto
  have e: "(\<Union>phi \<in> set (phis (g c)). {unat idx | idx. inputs phi ! k' = Some idx}) = edge_uses g block c"
    using k by (auto simp: edge_uses_def k'_def)
  let ?s = "s\<lparr>live_in := (live_in s)(block := v')\<rparr>"
  have "infos_ok ?s" using Cons.prems(1) v'(2) by (simp add: infos_ok_def)
  moreover have "\<forall>c \<in> set ss. edge_ok g block c \<and> (\<forall>phi \<in> set (phis (g c)). insn_ok limit phi)"
    using Cons.prems(2) by simp
  ultimately obtain w where w: "from_successors ops g block ss ?s = Some (?s\<lparr>live_in := (live_in ?s)(block := w)\<rparr>)" "ok w"
    "elems w = elems (live_in ?s block) \<union> (\<Union>c \<in> set ss. elems (live_in ?s c) \<union> edge_uses g block c)"
    using Cons.IH [of ?s] by blast
  have "elems w = elems (live_in s block) \<union> (\<Union>c \<in> set (c # ss). elems (live_in s c) \<union> edge_uses g block c)"
    using w(3) v(3) v'(3) e by (auto split: if_splits)
  moreover have "from_successors ops g block (c # ss) s = Some (s\<lparr>live_in := (live_in s)(block := w)\<rparr>)"
    using v(1) k' v'(1) w(1) by simp
  ultimately show ?case using w(2) by blast
qed

lemma live_ranges_block:
  assumes "infos_ok s" "graph_ok limit g blocks" "block \<in> blocks"
  shows "\<exists>k v. live_ranges_block ops g block s =
      Some (s\<lparr>kill := (kill s)(block := k), live_in := (live_in s)(block := v)\<rparr>) \<and> ok k \<and> ok v \<and>
    elems k = elems (kill s block) \<union> block_defs (g block) \<and>
    elems v = (exposed (instructions (g block)) - \<Union> (defs ` set (phis (g block)))) \<union>
      ((elems (live_in s block) \<union> (\<Union>c \<in> set (successors (g block)). elems (live_in s c)) \<union> phi_uses g block) -
        block_defs (g block))"
proof -
  have ok: "\<forall>c \<in> set (successors (g block)). edge_ok g block c \<and> (\<forall>phi \<in> set (phis (g c)). insn_ok limit phi)"
    "\<forall>i \<in> set (instructions (g block)). insn_ok limit i" "\<forall>i \<in> set (phis (g block)). insn_ok limit i"
    using assms(2,3) unfolding graph_ok_def by blast+
  obtain v where v: "from_successors ops g block (successors (g block)) s = Some (s\<lparr>live_in := (live_in s)(block := v)\<rparr>)"
    "ok v" "elems v = elems (live_in s block) \<union> (\<Union>c \<in> set (successors (g block)). elems (live_in s c) \<union> edge_uses g block c)"
    using from_successors [OF assms(1) ok(1)] by blast
  have ks: "ok (kill s block)" using assms(1) by (simp add: infos_ok_def)
  obtain k l where kl: "backward_pass ops (rev (instructions (g block))) (kill s block, v) = Some (k, l)" "ok k" "ok l"
    "elems k = elems (kill s block) \<union> \<Union> (defs ` set (instructions (g block)))"
    "elems l = exposed (instructions (g block)) \<union> (elems v - \<Union> (defs ` set (instructions (g block))))"
    using backward_pass [OF ks v(2) ok(2)] by blast
  obtain k' l' where kl': "kill_phis ops (phis (g block)) (k, l) = Some (k', l')" "ok k'" "ok l'"
    "elems k' = elems k \<union> \<Union> (defs ` set (phis (g block)))" "elems l' = elems l - \<Union> (defs ` set (phis (g block)))"
    using kill_phis [OF kl(2,3) ok(3)] by blast
  have "elems k' = elems (kill s block) \<union> block_defs (g block)"
    unfolding kl'(4) kl(4) block_defs_def by auto
  moreover have "elems l' = (exposed (instructions (g block)) - \<Union> (defs ` set (phis (g block)))) \<union>
      ((elems (live_in s block) \<union> (\<Union>c \<in> set (successors (g block)). elems (live_in s c)) \<union> phi_uses g block) -
        block_defs (g block))"
    unfolding kl'(5) kl(5) v(3) block_defs_def phi_uses_def by auto
  ultimately show ?thesis
    using v(1) kl(1) kl'(1,2,3) by (intro exI [of _ k'] exI [of _ l']) (simp add: live_ranges_block_def)
qed

end

text \<open>
  What holds of the sets between the passes: they under-approximate liveness, and for the blocks
  already visited they contain the local part of it.
\<close>

definition local_live :: "(nat \<Rightarrow> hblock) \<Rightarrow> nat \<Rightarrow> nat set" where
  "local_live g b = (exposed (instructions (g b)) - \<Union> (defs ` set (phis (g b)))) \<union> (phi_uses g b - block_defs (g b))"

lemma local_live_on_entry: "v \<in> local_live g b \<Longrightarrow> live_on_entry g b v"
  by (auto simp: local_live_def intro: live_on_entry.use live_on_entry.phi)

context live_set
begin

lemma ComputeLiveRanges:
  assumes "infos_ok s" "graph_ok limit g blocks" "set bs \<subseteq> blocks"
    and "\<forall>b. elems (live_in s b) \<subseteq> Collect (live_on_entry g b)" "\<forall>b. elems (kill s b) \<subseteq> block_defs (g b)"
  shows "\<exists>s'. ComputeLiveRanges ops g bs s = Some s' \<and> infos_ok s' \<and> live_out s' = live_out s \<and>
    (\<forall>b. elems (live_in s' b) \<subseteq> Collect (live_on_entry g b)) \<and>
    (\<forall>b. elems (kill s' b) \<subseteq> block_defs (g b)) \<and>
    (\<forall>b. elems (kill s b) = block_defs (g b) \<or> b \<in> set bs \<longrightarrow> elems (kill s' b) = block_defs (g b)) \<and>
    (\<forall>b. local_live g b \<subseteq> elems (live_in s b) \<or> b \<in> set bs \<longrightarrow> local_live g b \<subseteq> elems (live_in s' b))"
  using assms(1,3-)
proof (induction bs arbitrary: s)
  case (Cons b bs)
  have b: "b \<in> blocks" using Cons.prems(2) by simp
  obtain k v where kv: "live_ranges_block ops g b s =
      Some (s\<lparr>kill := (kill s)(b := k), live_in := (live_in s)(b := v)\<rparr>)" "ok k" "ok v"
    "elems k = elems (kill s b) \<union> block_defs (g b)"
    "elems v = (exposed (instructions (g b)) - \<Union> (defs ` set (phis (g b)))) \<union>
      ((elems (live_in s b) \<union> (\<Union>c \<in> set (successors (g b)). elems (live_in s c)) \<union> phi_uses g b) - block_defs (g b))"
    using live_ranges_block [OF Cons.prems(1) assms(2) b] by blast
  let ?s = "s\<lparr>kill := (kill s)(b := k), live_in := (live_in s)(b := v)\<rparr>"
  have k: "elems k = block_defs (g b)" using kv(4) Cons.prems(4) by blast
  have v: "local_live g b \<subseteq> elems v" unfolding kv(5) local_live_def by blast
  have below: "x \<in> elems v \<Longrightarrow> live_on_entry g b x" for x
    using Cons.prems(3) unfolding kv(5)
    by (auto intro: live_on_entry.intros)
  have s: "infos_ok ?s" "\<forall>b. elems (live_in ?s b) \<subseteq> Collect (live_on_entry g b)" "\<forall>b. elems (kill ?s b) \<subseteq> block_defs (g b)"
    using Cons.prems(1,3,4) kv(2,3) k below by (auto simp: infos_ok_def)
  obtain s' where s': "ComputeLiveRanges ops g bs ?s = Some s'" "infos_ok s'" "live_out s' = live_out ?s"
    "\<forall>b. elems (live_in s' b) \<subseteq> Collect (live_on_entry g b)" "\<forall>b. elems (kill s' b) \<subseteq> block_defs (g b)"
    "\<forall>c. elems (kill ?s c) = block_defs (g c) \<or> c \<in> set bs \<longrightarrow> elems (kill s' c) = block_defs (g c)"
    "\<forall>c. local_live g c \<subseteq> elems (live_in ?s c) \<or> c \<in> set bs \<longrightarrow> local_live g c \<subseteq> elems (live_in s' c)"
    using Cons.IH [OF s(1) _ s(2,3)] Cons.prems(2) by (metis (no_types, lifting) insert_subset list.simps(15))
  have "\<forall>c. elems (kill s c) = block_defs (g c) \<or> c \<in> set (b # bs) \<longrightarrow> elems (kill s' c) = block_defs (g c)"
    using s'(6) k by simp
  moreover have "\<forall>c. local_live g c \<subseteq> elems (live_in s c) \<or> c \<in> set (b # bs) \<longrightarrow> local_live g c \<subseteq> elems (live_in s' c)"
    using s'(7) v by simp
  ultimately show ?case using kv(1) s'(1-5) by simp
qed simp

end

section \<open>The fixpoint\<close>

context live_set
begin

lemma live_out_loop:
  assumes "infos_ok s"
  shows "\<exists>v. live_out_loop ops b ss changed s =
      Some (changed \<or> \<not> (\<Union>c \<in> set ss. elems (live_in s c)) \<subseteq> elems (live_out s b), s\<lparr>live_out := (live_out s)(b := v)\<rparr>) \<and>
    ok v \<and> elems v = elems (live_out s b) \<union> (\<Union>c \<in> set ss. elems (live_in s c))"
  using assms
proof (induction ss arbitrary: s changed)
  case Nil
  then have "s\<lparr>live_out := (live_out s)(b := live_out s b)\<rparr> = s" "ok (live_out s b)" by (simp_all add: infos_ok_def)
  then show ?case by (intro exI [of _ "live_out s b"]) simp
next
  case (Cons c ss)
  obtain v where v: "op_union ops (live_out s b) (live_in s c) = Some (\<not> elems (live_in s c) \<subseteq> elems (live_out s b), v)"
    "ok v" "elems v = elems (live_out s b) \<union> elems (live_in s c)"
    using union [of "live_out s b" "live_in s c"] Cons.prems by (auto simp: infos_ok_def)
  let ?s = "s\<lparr>live_out := (live_out s)(b := v)\<rparr>"
  let ?c = "if \<not> elems (live_in s c) \<subseteq> elems (live_out s b) then True else changed"
  have "infos_ok ?s" using Cons.prems v(2) by (simp add: infos_ok_def)
  from Cons.IH [OF this, of ?c] obtain w where
    w: "live_out_loop ops b ss ?c ?s = Some (?c \<or> \<not> (\<Union>c \<in> set ss. elems (live_in ?s c)) \<subseteq> elems (live_out ?s b), ?s\<lparr>live_out := (live_out ?s)(b := w)\<rparr>)"
    "ok w" "elems w = elems (live_out ?s b) \<union> (\<Union>c \<in> set ss. elems (live_in ?s c))" by blast
  have flag: "(?c \<or> \<not> (\<Union>c \<in> set ss. elems (live_in ?s c)) \<subseteq> elems (live_out ?s b)) \<longleftrightarrow>
      (changed \<or> \<not> (\<Union>c \<in> set (c # ss). elems (live_in s c)) \<subseteq> elems (live_out s b))"
    using v(3) by auto
  have "?s\<lparr>live_out := (live_out ?s)(b := w)\<rparr> = s\<lparr>live_out := (live_out s)(b := w)\<rparr>" by simp
  then have "live_out_loop ops b (c # ss) changed s =
      Some (changed \<or> \<not> (\<Union>c \<in> set (c # ss). elems (live_in s c)) \<subseteq> elems (live_out s b), s\<lparr>live_out := (live_out s)(b := w)\<rparr>)"
    using v(1) w(1) unfolding flag by simp
  moreover have "elems w = elems (live_out s b) \<union> (\<Union>c \<in> set (c # ss). elems (live_in s c))"
    using w(3) v(3) by auto
  ultimately show ?case using w(2) by blast
qed

text \<open>The invariant of the iteration.\<close>

definition consistent :: "(nat \<Rightarrow> hblock) \<Rightarrow> nat set \<Rightarrow> 'v block_infos \<Rightarrow> bool" where
  "consistent g blocks s \<longleftrightarrow> infos_ok s \<and> (\<forall>b \<in> blocks. elems (kill s b) = block_defs (g b) \<and>
     elems (live_out s b) - block_defs (g b) \<subseteq> elems (live_in s b) \<and>
     elems (live_out s b) \<subseteq> (\<Union>c \<in> set (successors (g b)). elems (live_in s c))) \<and>
     (\<forall>b. elems (live_in s b) \<subseteq> Collect (live_on_entry g b))"

definition grows :: "'v block_infos \<Rightarrow> 'v block_infos \<Rightarrow> bool" where
  "grows s s' \<longleftrightarrow> (\<forall>b. elems (live_in s b) \<subseteq> elems (live_in s' b) \<and> elems (live_out s b) \<subseteq> elems (live_out s' b))"

definition same_live_in :: "'v block_infos \<Rightarrow> 'v block_infos \<Rightarrow> bool" where
  "same_live_in s s' \<longleftrightarrow> (\<forall>b. elems (live_in s' b) = elems (live_in s b))"

lemma visit_block:
  assumes "consistent g blocks s" "b \<in> blocks"
  shows "\<exists>c s'. (do { (out_changed, s) \<leftarrow> UpdateLiveOut ops g b s;
        if out_changed then UpdateLiveIn ops b s else Some (False, s) }) = Some (c, s') \<and>
      c = (\<not> same_live_in s s') \<and> consistent g blocks s' \<and> grows s s' \<and>
      (\<forall>x. x \<noteq> b \<longrightarrow> live_in s' x = live_in s x) \<and>
      (\<Union>c \<in> set (successors (g b)). elems (live_in s c)) \<subseteq> elems (live_out s' b)"
proof -
  let ?S = "\<Union>c \<in> set (successors (g b)). elems (live_in s c)"
  have inv: "infos_ok s" "elems (kill s b) = block_defs (g b)" "elems (live_out s b) - block_defs (g b) \<subseteq> elems (live_in s b)"
    "elems (live_out s b) \<subseteq> ?S" "elems (live_in s x) \<subseteq> Collect (live_on_entry g x)" for x
    using assms by (auto simp: consistent_def)
  obtain v where v: "UpdateLiveOut ops g b s = Some (\<not> ?S \<subseteq> elems (live_out s b), s\<lparr>live_out := (live_out s)(b := v)\<rparr>)"
    "ok v" "elems v = elems (live_out s b) \<union> ?S"
    using live_out_loop [OF inv(1), of b "successors (g b)" False] unfolding UpdateLiveOut_def by auto
  let ?s1 = "s\<lparr>live_out := (live_out s)(b := v)\<rparr>"
  have vS: "elems v = ?S" using v(3) inv(4) by blast
  obtain w where w: "op_union_if_not_in ops (live_in s b) v (kill s b) =
      Some (\<not> ?S - block_defs (g b) \<subseteq> elems (live_in s b), w)" "ok w" "elems w = elems (live_in s b) \<union> (?S - block_defs (g b))"
    using union_if_not_in [of "live_in s b" v "kill s b"] inv(1,2) v(2) vS by (auto simp: infos_ok_def)
  have live: "x \<in> ?S - block_defs (g b) \<Longrightarrow> live_on_entry g b x" for x
    using inv(5) by (auto intro: live_on_entry.through)
  show ?thesis
  proof (cases "?S \<subseteq> elems (live_out s b)")
    case True
    have "elems v = elems (live_out s b)" using v(3) True by blast
    moreover have "consistent g blocks ?s1"
      using assms(1) v(2) calculation by (auto simp: consistent_def infos_ok_def)
    ultimately show ?thesis
      using True v(1) by (intro exI [of _ False] exI [of _ ?s1]) (auto simp: same_live_in_def grows_def)
  next
    case False
    let ?s2 = "?s1\<lparr>live_in := (live_in s)(b := w)\<rparr>"
    have I: "elems (live_in s x) \<subseteq> elems (live_in ?s2 x)" for x using w(3) by simp
    have "consistent g blocks ?s2"
      unfolding consistent_def
    proof (intro conjI ballI allI)
      show "infos_ok ?s2" using inv(1) v(2) w(2) by (simp add: infos_ok_def)
      show "elems (live_in ?s2 x) \<subseteq> Collect (live_on_entry g x)" for x
        using inv(5) [of x] live w(3) by auto
      fix x assume x: "x \<in> blocks"
      show "elems (kill ?s2 x) = block_defs (g x)" using assms(1) x by (simp add: consistent_def)
      have old: "elems (live_out s x) - block_defs (g x) \<subseteq> elems (live_in s x)"
        "elems (live_out s x) \<subseteq> (\<Union>c \<in> set (successors (g x)). elems (live_in s c))"
        using assms(1) x by (auto simp: consistent_def)
      show "elems (live_out ?s2 x) - block_defs (g x) \<subseteq> elems (live_in ?s2 x)"
        using old(1) w(3) vS by auto
      have "elems (live_out ?s2 x) \<subseteq> (\<Union>c \<in> set (successors (g x)). elems (live_in s c))"
        using old(2) vS by simp
      then show "elems (live_out ?s2 x) \<subseteq> (\<Union>c \<in> set (successors (g x)). elems (live_in ?s2 c))"
        using I by blast
    qed
    moreover have "(\<not> ?S - block_defs (g b) \<subseteq> elems (live_in s b)) = (\<not> same_live_in s ?s2)"
      using w(3) by (auto simp: same_live_in_def)
    ultimately show ?thesis
      using False v(1) w(1) I vS inv(4)
      by (intro exI [of _ "\<not> ?S - block_defs (g b) \<subseteq> elems (live_in s b)"] exI [of _ ?s2])
        (simp add: UpdateLiveIn_def grows_def)
  qed
qed

end

context live_set
begin

lemma liveness_round:
  assumes "consistent g blocks s" "set bs \<subseteq> blocks"
  shows "\<exists>s'. liveness_round ops g bs changed s = Some (changed \<or> \<not> same_live_in s s', s') \<and>
    consistent g blocks s' \<and> grows s s' \<and> (\<forall>x. x \<notin> set bs \<longrightarrow> live_in s' x = live_in s x) \<and>
    (\<forall>b \<in> set bs. (\<Union>c \<in> set (successors (g b)). elems (live_in s c)) \<subseteq> elems (live_out s' b))"
  using assms
proof (induction bs arbitrary: s changed)
  case Nil
  then show ?case by (simp add: same_live_in_def grows_def)
next
  case (Cons b bs)
  then have b: "b \<in> blocks" "set bs \<subseteq> blocks" by auto
  obtain c s1 where s1: "(do { (out_changed, s) \<leftarrow> UpdateLiveOut ops g b s;
        if out_changed then UpdateLiveIn ops b s else Some (False, s) }) = Some (c, s1)"
    "c = (\<not> same_live_in s s1)" "consistent g blocks s1" "grows s s1" "\<forall>x. x \<noteq> b \<longrightarrow> live_in s1 x = live_in s x"
    "(\<Union>c \<in> set (successors (g b)). elems (live_in s c)) \<subseteq> elems (live_out s1 b)"
    using visit_block [OF Cons.prems(1) b(1)] by blast
  let ?changed = "if c then True else changed"
  obtain s' where s': "liveness_round ops g bs ?changed s1 = Some (?changed \<or> \<not> same_live_in s1 s', s')"
    "consistent g blocks s'" "grows s1 s'" "\<forall>x. x \<notin> set bs \<longrightarrow> live_in s' x = live_in s1 x"
    "\<forall>b \<in> set bs. (\<Union>c \<in> set (successors (g b)). elems (live_in s1 c)) \<subseteq> elems (live_out s' b)"
    using Cons.IH [OF s1(3) b(2), of ?changed] by blast
  have "liveness_round ops g (b # bs) changed s = liveness_round ops g bs ?changed s1"
    using s1(1) by (auto simp: bind_eq_Some_conv split: if_splits)
  moreover have "(?changed \<or> \<not> same_live_in s1 s') \<longleftrightarrow> (changed \<or> \<not> same_live_in s s')"
  proof -
    have "same_live_in s s' \<longleftrightarrow> same_live_in s s1 \<and> same_live_in s1 s'"
      using s1(4) s'(3) unfolding same_live_in_def grows_def by (metis subset_antisym)
    then show ?thesis using s1(2) by auto
  qed
  moreover have "grows s s'" using s1(4) s'(3) unfolding grows_def by (meson subset_trans)
  moreover have "(\<Union>c \<in> set (successors (g x)). elems (live_in s c)) \<subseteq> elems (live_out s' x)" if "x \<in> set (b # bs)" for x
  proof (cases "x = b")
    case True
    then show ?thesis using s1(6) s'(3) unfolding grows_def by blast
  next
    case False
    then have "x \<in> set bs" using that by simp
    then show ?thesis using s1(4) s'(5) unfolding grows_def by blast
  qed
  ultimately show ?case using s' s1(5) by auto
qed

text \<open>Each round that changes something adds to the live-in sets, which are bounded.\<close>

definition missing :: "nat set \<Rightarrow> 'v block_infos \<Rightarrow> (nat \<times> nat) set" where
  "missing blocks s = {(b, v). b \<in> blocks \<and> v < limit \<and> v \<notin> elems (live_in s b)}"

lemma missing_decreases:
  assumes "finite blocks" "grows s s'" "\<not> same_live_in s s'" "\<forall>x. x \<notin> blocks \<longrightarrow> live_in s' x = live_in s x"
    and "infos_ok s'"
  shows "card (missing blocks s') < card (missing blocks s)"
proof (rule psubset_card_mono)
  have "missing blocks s \<subseteq> blocks \<times> {..<limit}" by (auto simp: missing_def)
  then show "finite (missing blocks s)" using assms(1) by (meson finite_SigmaI finite_lessThan finite_subset)
  obtain b v where bv: "v \<in> elems (live_in s' b)" "v \<notin> elems (live_in s b)"
    using assms(2,3) unfolding same_live_in_def grows_def by blast
  then have "b \<in> blocks" using assms(4) by metis
  moreover have "v < limit" using bv(1) elems_bound [of "live_in s' b"] assms(5) by (auto simp: infos_ok_def)
  ultimately have "(b, v) \<in> missing blocks s - missing blocks s'" using bv by (simp add: missing_def)
  moreover have "missing blocks s' \<subseteq> missing blocks s"
    using assms(2) unfolding missing_def grows_def by blast
  ultimately show "missing blocks s' \<subset> missing blocks s" by blast
qed

lemma ComputeLiveInAndLiveOutSets:
  assumes "consistent g (set order) s"
  shows "\<exists>s'. ComputeLiveInAndLiveOutSets ops g order s = Some s' \<and> consistent g (set order) s' \<and> grows s s' \<and>
    (\<forall>b \<in> set order. (\<Union>c \<in> set (successors (g b)). elems (live_in s' c)) \<subseteq> elems (live_out s' b))"
  using assms
proof (induction "card (missing (set order) s)" arbitrary: s rule: less_induct)
  case less
  obtain s1 where s1: "liveness_round ops g order False s = Some (\<not> same_live_in s s1, s1)"
    "consistent g (set order) s1" "grows s s1" "\<forall>x. x \<notin> set order \<longrightarrow> live_in s1 x = live_in s x"
    "\<forall>b \<in> set order. (\<Union>c \<in> set (successors (g b)). elems (live_in s c)) \<subseteq> elems (live_out s1 b)"
    using liveness_round [OF less.prems subset_refl, of False] by auto
  show ?case
  proof (cases "same_live_in s s1")
    case True
    then have "ComputeLiveInAndLiveOutSets ops g order s = Some s1"
      using s1(1) by (subst ComputeLiveInAndLiveOutSets.simps) simp
    with True s1(2,3,5) show ?thesis by (simp add: same_live_in_def)
  next
    case False
    have "card (missing (set order) s1) < card (missing (set order) s)"
      using s1(2-4) False by (intro missing_decreases) (auto simp: consistent_def)
    then obtain s' where s': "ComputeLiveInAndLiveOutSets ops g order s1 = Some s'" "consistent g (set order) s'" "grows s1 s'"
      "\<forall>b \<in> set order. (\<Union>c \<in> set (successors (g b)). elems (live_in s' c)) \<subseteq> elems (live_out s' b)"
      using less.hyps [OF _ s1(2)] by blast
    moreover have "ComputeLiveInAndLiveOutSets ops g order s = ComputeLiveInAndLiveOutSets ops g order s1"
      using s1(1) False by (subst ComputeLiveInAndLiveOutSets.simps) simp
    moreover have "grows s s'" using s1(3) s'(3) unfolding grows_def by (meson subset_trans)
    ultimately show ?thesis by metis
  qed
qed

lemma live_sets_exact:
  assumes "consistent g blocks s" "\<forall>b \<in> blocks. set (successors (g b)) \<subseteq> blocks"
    and "\<forall>b \<in> blocks. local_live g b \<subseteq> elems (live_in s b)"
    and "\<forall>b \<in> blocks. (\<Union>c \<in> set (successors (g b)). elems (live_in s c)) \<subseteq> elems (live_out s b)"
  shows "b \<in> blocks \<Longrightarrow> elems (live_in s b) = Collect (live_on_entry g b)"
proof -
  have "live_on_entry g b v \<Longrightarrow> b \<in> blocks \<Longrightarrow> v \<in> elems (live_in s b)" for b v
  proof (induction rule: live_on_entry.induct)
    case (through c b v)
    then have "v \<in> elems (live_in s c)" "c \<in> set (successors (g b))" using assms(2) by auto
    then have "v \<in> elems (live_out s b)" using assms(4) through.prems by auto
    with through.hyps(3) through.prems assms(1) show ?case by (auto simp: consistent_def)
  next
    case (use v b)
    then have "v \<in> local_live g b" by (simp add: local_live_def)
    with use.prems assms(3) show ?case by blast
  next
    case (phi v b)
    then have "v \<in> local_live g b" by (simp add: local_live_def)
    with phi.prems assms(3) show ?case by blast
  qed
  then show "b \<in> blocks \<Longrightarrow> elems (live_in s b) = Collect (live_on_entry g b)"
    using assms(1) by (auto simp: consistent_def)
qed

end

context live_set
begin

theorem analysis_correct:
  assumes "ok cleared" "elems cleared = {}" "graph_ok limit g (set order)" "set linear = set order"
  defines "init \<equiv> \<lparr>live_in = (\<lambda>_. cleared), live_out = (\<lambda>_. cleared), kill = (\<lambda>_. cleared)\<rparr>"
  shows "\<exists>s. Option.bind (ComputeLiveRanges ops g linear init) (ComputeLiveInAndLiveOutSets ops g order) = Some s \<and>
    (\<forall>b \<in> set order. elems (live_in s b) = Collect (live_on_entry g b) \<and>
       elems (live_out s b) = (\<Union>c \<in> set (successors (g b)). Collect (live_on_entry g c)))"
proof -
  have "infos_ok init" using assms(1) by (simp add: infos_ok_def init_def)
  then obtain s1 where s1: "ComputeLiveRanges ops g linear init = Some s1" "infos_ok s1" "live_out s1 = live_out init"
    "\<forall>b. elems (live_in s1 b) \<subseteq> Collect (live_on_entry g b)"
    "\<forall>b \<in> set order. elems (kill s1 b) = block_defs (g b)" "\<forall>b \<in> set order. local_live g b \<subseteq> elems (live_in s1 b)"
    using ComputeLiveRanges [of init g "set order" linear] assms(2-4) by (auto simp: init_def)
  have "consistent g (set order) s1"
    using s1(2-5) assms(2) by (simp add: consistent_def init_def)
  then obtain s where s: "ComputeLiveInAndLiveOutSets ops g order s1 = Some s" "consistent g (set order) s" "grows s1 s"
    "\<forall>b \<in> set order. (\<Union>c \<in> set (successors (g b)). elems (live_in s c)) \<subseteq> elems (live_out s b)"
    using ComputeLiveInAndLiveOutSets by blast
  have succ: "\<forall>b \<in> set order. set (successors (g b)) \<subseteq> set order" using assms(3) by (simp add: graph_ok_def)
  have loc: "\<forall>b \<in> set order. local_live g b \<subseteq> elems (live_in s b)"
    using s1(6) s(3) unfolding grows_def by (meson subset_trans)
  note exact = live_sets_exact [OF s(2) succ loc s(4)]
  have "elems (live_out s b) = (\<Union>c \<in> set (successors (g b)). Collect (live_on_entry g c))" if "b \<in> set order" for b
  proof -
    have "elems (live_out s b) = (\<Union>c \<in> set (successors (g b)). elems (live_in s c))"
      using s(2,4) that unfolding consistent_def by blast
    moreover have "elems (live_in s c) = Collect (live_on_entry g c)" if "c \<in> set (successors (g b))" for c
      using exact succ that \<open>b \<in> set order\<close> by blast
    ultimately show ?thesis by simp
  qed
  with exact s(1) s1(1) show ?thesis by auto
qed

end

section \<open>The analysis on bit vectors\<close>

definition sized :: "nat \<Rightarrow> bit_vector \<Rightarrow> bool" where
  "sized n bv \<longleftrightarrow> length (storage bv) = n \<and> n \<le> 2 ^ 26"

lemma sized_ok:
  assumes "sized n a"
  shows "bv_ok a" "length (storage a) = n" "bits_of a \<subseteq> {..<32 * n}"
  using assms by (auto simp: sized_def bv_ok_def bits_of_def word_set_def)

lemma sized_unions:
  assumes "sized n a" "sized n b"
  shows "\<exists>a'. op_union bv_ops a b = Some (\<not> bits_of b \<subseteq> bits_of a, a') \<and> sized n a' \<and> bits_of a' = bits_of a \<union> bits_of b"
    "\<exists>a'. op_union_if_not_in bv_ops a b c = Some (\<not> bits_of b - bits_of c \<subseteq> bits_of a, a') \<and> sized n a' \<and>
      bits_of a' = bits_of a \<union> (bits_of b - bits_of c)"
proof -
  note a = sized_ok [OF assms(1)] and b = sized_ok [OF assms(2)]
  have f: "fits a b" using a(2) b(3) by (simp add: fits_def)
  show "\<exists>a'. op_union bv_ops a b = Some (\<not> bits_of b \<subseteq> bits_of a, a') \<and> sized n a' \<and> bits_of a' = bits_of a \<union> bits_of b"
    using Union_spec [OF a(1) b(1) f] a(2) b(3) assms(1) by (auto simp: bv_ops_def sized_def)
  show "\<exists>a'. op_union_if_not_in bv_ops a b c = Some (\<not> bits_of b - bits_of c \<subseteq> bits_of a, a') \<and> sized n a' \<and>
      bits_of a' = bits_of a \<union> (bits_of b - bits_of c)"
    using UnionIfNotIn_spec [OF a(1) b(1) f, of c] a(2) b(3) assms(1) by (auto simp: bv_ops_def sized_def)
qed

lemma sized_bits:
  assumes "sized n a"
  shows "unat i < 32 * n \<Longrightarrow>
      \<exists>a'. op_set_bit bv_ops a i = Some a' \<and> sized n a' \<and> bits_of a' = insert (unat i) (bits_of a)"
    "sized n (op_clear_bit bv_ops a i) \<and> bits_of (op_clear_bit bv_ops a i) = bits_of a - {unat i}"
proof -
  note a = sized_ok [OF assms]
  show "sized n (op_clear_bit bv_ops a i) \<and> bits_of (op_clear_bit bv_ops a i) = bits_of a - {unat i}"
    using assms ClearBit_spec [OF a(1), of i] by (simp add: bv_ops_def sized_def)
  assume i: "unat i < 32 * n"
  then have "unat i < 2 ^ 31" "max n (Suc (unat i div 32)) = n" using assms by (auto simp: sized_def)
  with i SetBit_spec [OF a(1), of i] a(2) assms
  show "\<exists>a'. op_set_bit bv_ops a i = Some a' \<and> sized n a' \<and> bits_of a' = insert (unat i) (bits_of a)"
    by (auto simp: bv_ops_def sized_def)
qed

interpretation bv_live: live_set bits_of "sized n" "32 * n" bv_ops for n
  by unfold_locales (rule sized_ok(3) sized_unions sized_bits; assumption)+

text \<open>C25: Liveness analysis is exact. It terminates on every graph whose SSA indices are in range, and
  for every block of the graph the live-in set holds the values that are live on entry to the block,
  that is, the values that some path from there uses before defining them, and the live-out set
  holds the values that are live on entry to a successor.\<close>
theorem liveness_exact:
  assumes "unat n \<le> 2 ^ 31" "graph_ok (unat n) g (set order)" "set linear = set order"
  shows "\<exists>s. ComputeLiveness g linear order n = Some s \<and>
    (\<forall>b \<in> set order. bits_of (live_in s b) = {v. live_on_entry g b v} \<and>
       bits_of (live_out s b) = {v. \<exists>c \<in> set (successors (g b)). live_on_entry g c v})"
proof -
  define cleared where "cleared = ClearAllBits (create_bit_vector n False)"
  let ?m = "(unat n + 31) div 32"
  have e: "sized ?m cleared" "bits_of cleared = {}"
    using assms(1) by (simp_all add: cleared_def ClearAllBits_spec sized_def create_bit_vector_def unat_BitsToWords)
  have "unat n \<le> 32 * ?m" by linarith
  then have "insn_ok (32 * ?m) i" if "insn_ok (unat n) i" for i
    using that unfolding insn_ok_def by (meson lessThan_subset_iff subset_trans)
  then have g: "graph_ok (32 * ?m) g (set (rev order))" using assms(2) unfolding graph_ok_def set_rev by blast
  have "set (rev linear) = set (rev order)" using assms(3) by simp
  note * = bv_live.analysis_correct [OF e g this]
  have "ComputeLiveness g linear order n = Option.bind (ComputeLiveRanges bv_ops g (rev linear)
      \<lparr>live_in = (\<lambda>_. cleared), live_out = (\<lambda>_. cleared), kill = (\<lambda>_. cleared)\<rparr>)
      (ComputeLiveInAndLiveOutSets bv_ops g (rev order))"
    by (simp add: ComputeLiveness_def cleared_def Let_def)
  with * show ?thesis by (simp add: Collect_bex_eq)
qed

text \<open>
  A loop: block 0 defines the value 0; block 1 has the phi 1 of the values 0 and 2, uses the value 0
  and defines 2 from the phi, and goes back to itself or to block 2.
\<close>

definition sample_insn :: "u32 option \<Rightarrow> u32 option list \<Rightarrow> hinst" where
  "sample_insn idx is = \<lparr>ssa_index = idx, inputs = is, environment = []\<rparr>"

definition sample_graph :: "nat \<Rightarrow> hblock" where
  "sample_graph b =
     (if b = 0 then \<lparr>successors = [1], predecessors = [], phis = [], instructions = [sample_insn (Some 0) []]\<rparr>
      else if b = 1 then \<lparr>successors = [1, 2], predecessors = [0, 1], phis = [sample_insn (Some 1) [Some 0, Some 2]],
        instructions = [sample_insn (Some 2) [Some 1, Some 0]]\<rparr>
      else \<lparr>successors = [], predecessors = [1], phis = [], instructions = []\<rparr>)"

lemma sample_graph_ok: "graph_ok (unat (3 :: u32)) sample_graph (set [0, 1, 2])"
  by (auto simp: graph_ok_def sample_graph_def sample_insn_def insn_ok_def defs_def uses_def edge_ok_def)

theorem liveness_exact_witness:
  "\<exists>s. ComputeLiveness sample_graph [0, 1, 2] [0, 1, 2] 3 = Some s \<and>
     bits_of (live_in s 1) = {v. live_on_entry sample_graph 1 v} \<and> 0 \<in> bits_of (live_in s 1) \<and>
     0 \<in> bits_of (live_out s 1)"
proof -
  have "0 \<in> exposed (instructions (sample_graph 1))"
    by (auto simp: exposed_def sample_graph_def sample_insn_def uses_def intro: exI [of _ 0])
  then have "live_on_entry sample_graph 1 0"
    by (rule live_on_entry.use) (simp add: sample_graph_def sample_insn_def defs_def)
  moreover have "1 \<in> set (successors (sample_graph 1))" by (simp add: sample_graph_def)
  ultimately show ?thesis
    using liveness_exact [OF _ sample_graph_ok, of "[0, 1, 2]"] by auto
qed

end
