(* ===== verification/Locations.thy ===== *)
theory Locations
  imports BitVector
begin

text \<open>
  Locations of the optimizing compiler, \<^verbatim>\<open>compiler/optimizing/locations.h\<close>, on the bit fields of
  \<^verbatim>\<open>runtime/base/bit_field.h\<close>: a location is one machine word with a 4-bit kind and a 60-bit payload,
  or the tagged address of a constant. \<^verbatim>\<open>RegisterSet\<close> and \<^verbatim>\<open>LocationSummary\<close> are the tables an
  instruction keeps of its locations. The word size is 64 bits.
\<close>

section \<open>Bit fields\<close>

definition BitField_IsValid :: "nat \<Rightarrow> u64 \<Rightarrow> bool" where
  "BitField_IsValid width v \<longleftrightarrow> v AND NOT (shl 1 width - 1) = 0"

definition BitField_Mask :: "nat \<Rightarrow> u64" where
  "BitField_Mask width = shl 1 width - 1"

definition BitField_MaskInPlace :: "nat \<Rightarrow> nat \<Rightarrow> u64" where
  "BitField_MaskInPlace position width = shl (shl 1 width - 1) position"

definition BitField_Encode :: "nat \<Rightarrow> nat \<Rightarrow> u64 \<Rightarrow> u64" where
  "BitField_Encode position width v = shl v position"

definition BitField_Decode :: "nat \<Rightarrow> nat \<Rightarrow> u64 \<Rightarrow> u64" where
  "BitField_Decode position width v = shr v position AND (shl 1 width - 1)"

definition BitField_Update :: "nat \<Rightarrow> nat \<Rightarrow> u64 \<Rightarrow> u64 \<Rightarrow> u64" where
  "BitField_Update position width v original =
     shl v position OR (NOT (BitField_MaskInPlace position width) AND original)"

lemma shl_1_minus_1: "shl 1 n - 1 = (mask n :: 'a::len word)"
  by (simp add: mask_eq_exp_minus_1 push_bit_eq_mult)

lemma bit_low_mask: "bit (2 ^ n - 1 :: u64) i \<longleftrightarrow> i < n \<and> i < 64"
  using bit_mask_iff [of n i, where ?'a = u64] by (auto simp: mask_eq_exp_minus_1)

lemma bit_u64_less: "bit (v :: u64) i \<Longrightarrow> i < 64"
  using bit_imp_le_length [of v i] by simp

lemma BitField_IsValid_iff: "BitField_IsValid width v \<longleftrightarrow> (\<forall>i. bit v i \<longrightarrow> i < width)"
proof -
  have "BitField_IsValid width v \<longleftrightarrow> (\<forall>i<64. \<not> bit (v AND NOT (mask width)) i)"
    unfolding BitField_IsValid_def shl_1_minus_1 using word_neq_0_bit [of "v AND NOT (mask width)"] by auto
  also have "\<dots> \<longleftrightarrow> (\<forall>i. bit v i \<longrightarrow> i < width)"
    by (auto simp: bit_simps dest: bit_u64_less)
  finally show ?thesis .
qed

lemma bit_BitField_Decode:
  "bit (BitField_Decode position width v) i \<longleftrightarrow> i < width \<and> bit v (position + i)"
  by (auto simp: BitField_Decode_def bit_low_mask bit_simps dest: bit_u64_less)

lemma bit_BitField_Encode:
  "bit (BitField_Encode position width v) i \<longleftrightarrow> position \<le> i \<and> i < 64 \<and> bit v (i - position)"
  by (auto simp: BitField_Encode_def bit_simps)

lemma bit_BitField_Update:
  "bit (BitField_Update position width v original) i \<longleftrightarrow>
     i < 64 \<and> (position \<le> i \<and> bit v (i - position) \<or>
       (i < position \<or> position + width \<le> i) \<and> bit original i)"
  by (auto simp: BitField_Update_def BitField_MaskInPlace_def bit_low_mask bit_simps)

lemmas bit_BitField = bit_BitField_Decode bit_BitField_Encode bit_BitField_Update BitField_IsValid_iff

lemma BitField_Decode_Encode:
  assumes "BitField_IsValid width v" "position + width \<le> 64"
  shows "BitField_Decode position width (BitField_Encode position width v) = v"
  using assms by (intro bit_word_eqI) (fastforce simp: bit_BitField)

lemma BitField_Decode_Update:
  assumes "BitField_IsValid width v" "position + width \<le> 64"
  shows "BitField_Decode position width (BitField_Update position width v w) = v"
  using assms by (intro bit_word_eqI) (fastforce simp: bit_BitField)

lemma BitField_Decode_Update_other:
  assumes "BitField_IsValid width v" "q + n \<le> position \<or> position + width \<le> q" "q + n \<le> 64"
  shows "BitField_Decode q n (BitField_Update position width v w) = BitField_Decode q n w"
  using assms by (intro bit_word_eqI) (auto simp: bit_BitField)

section \<open>Location\<close>

type_synonym Location = u64

datatype Kind = kInvalid | kConstant | kStackSlot | kDoubleStackSlot | kRegister | kDoNotUse5
  | kFpuRegister | kRegisterPair | kFpuRegisterPair | kDoNotUse9 | kQuickParameter | kUnallocated

primrec kind_code :: "Kind \<Rightarrow> u64" where
  "kind_code kInvalid = 0"
| "kind_code kConstant = 1"
| "kind_code kStackSlot = 2"
| "kind_code kDoubleStackSlot = 3"
| "kind_code kRegister = 4"
| "kind_code kDoNotUse5 = 5"
| "kind_code kFpuRegister = 6"
| "kind_code kRegisterPair = 7"
| "kind_code kFpuRegisterPair = 8"
| "kind_code kDoNotUse9 = 9"
| "kind_code kQuickParameter = 10"
| "kind_code kUnallocated = 11"

datatype Policy = kAny | kRequiresRegister | kRequiresFpuRegister | kSameAsFirstInput

primrec policy_code :: "Policy \<Rightarrow> u64" where
  "policy_code kAny = 0"
| "policy_code kRequiresRegister = 1"
| "policy_code kRequiresFpuRegister = 2"
| "policy_code kSameAsFirstInput = 3"

definition kStackIndexBias :: u64 where
  "kStackIndexBias = shl 1 59"

text \<open>The constructor of a kind and a payload.\<close>

definition make_Location :: "Kind \<Rightarrow> u64 \<Rightarrow> Location" where
  "make_Location kind payload = BitField_Encode 0 4 (kind_code kind) OR BitField_Encode 4 60 payload"

definition GetPayload :: "Location \<Rightarrow> u64" where
  "GetPayload l = BitField_Decode 4 60 l"

definition IsConstant :: "Location \<Rightarrow> bool" where
  "IsConstant l \<longleftrightarrow> l AND 3 = kind_code kConstant"

definition ConstantLocation :: "u64 \<Rightarrow> Location" where
  "ConstantLocation constant = kind_code kConstant OR constant"

definition GetConstant :: "Location \<Rightarrow> u64" where
  "GetConstant l = l AND NOT 3"

definition NoLocation :: Location where
  "NoLocation = kind_code kInvalid"

definition IsValid :: "Location \<Rightarrow> bool" where
  "IsValid l \<longleftrightarrow> l \<noteq> kind_code kInvalid"

definition IsInvalid :: "Location \<Rightarrow> bool" where
  "IsInvalid l \<longleftrightarrow> \<not> IsValid l"

definition GetKind :: "Location \<Rightarrow> u64" where
  "GetKind l = (if IsConstant l then kind_code kConstant else BitField_Decode 0 4 l)"

definition RegisterLocation :: "u64 \<Rightarrow> Location" where
  "RegisterLocation reg = make_Location kRegister reg"

definition FpuRegisterLocation :: "u64 \<Rightarrow> Location" where
  "FpuRegisterLocation reg = make_Location kFpuRegister reg"

text \<open>A register number is an \<^verbatim>\<open>int\<close>: the pair is built at 32 bits and then widened.\<close>

definition RegisterPairLocation :: "u32 \<Rightarrow> u32 \<Rightarrow> Location" where
  "RegisterPairLocation low high = make_Location kRegisterPair (scast (shl low 16 OR high))"

definition FpuRegisterPairLocation :: "u32 \<Rightarrow> u32 \<Rightarrow> Location" where
  "FpuRegisterPairLocation low high = make_Location kFpuRegisterPair (scast (shl low 16 OR high))"

definition IsRegister :: "Location \<Rightarrow> bool" where
  "IsRegister l \<longleftrightarrow> GetKind l = kind_code kRegister"

definition IsFpuRegister :: "Location \<Rightarrow> bool" where
  "IsFpuRegister l \<longleftrightarrow> GetKind l = kind_code kFpuRegister"

definition IsRegisterPair :: "Location \<Rightarrow> bool" where
  "IsRegisterPair l \<longleftrightarrow> GetKind l = kind_code kRegisterPair"

definition IsFpuRegisterPair :: "Location \<Rightarrow> bool" where
  "IsFpuRegisterPair l \<longleftrightarrow> GetKind l = kind_code kFpuRegisterPair"

definition reg :: "Location \<Rightarrow> u32" where
  "reg l = ucast (GetPayload l)"

definition AsRegisterPairLow :: "Location \<Rightarrow> u32" where
  "AsRegisterPairLow l = ucast (shr (GetPayload l) 16)"

definition AsRegisterPairHigh :: "Location \<Rightarrow> u32" where
  "AsRegisterPairHigh l = ucast (GetPayload l AND 0xFFFF)"

definition EncodeStackIndex :: "u64 \<Rightarrow> u64" where
  "EncodeStackIndex stack_index = kStackIndexBias + stack_index"

definition StackSlot :: "u64 \<Rightarrow> Location" where
  "StackSlot stack_index = make_Location kStackSlot (EncodeStackIndex stack_index)"

definition IsStackSlot :: "Location \<Rightarrow> bool" where
  "IsStackSlot l \<longleftrightarrow> GetKind l = kind_code kStackSlot"

definition DoubleStackSlot :: "u64 \<Rightarrow> Location" where
  "DoubleStackSlot stack_index = make_Location kDoubleStackSlot (EncodeStackIndex stack_index)"

definition IsDoubleStackSlot :: "Location \<Rightarrow> bool" where
  "IsDoubleStackSlot l \<longleftrightarrow> GetKind l = kind_code kDoubleStackSlot"

definition GetStackIndex :: "Location \<Rightarrow> u64" where
  "GetStackIndex l = GetPayload l - kStackIndexBias"

definition GetHighStackIndex :: "Location \<Rightarrow> u64 \<Rightarrow> u64" where
  "GetHighStackIndex l word_size = GetPayload l - kStackIndexBias + word_size"

definition QuickParameter :: "u16 \<Rightarrow> u16 \<Rightarrow> Location" where
  "QuickParameter register_index stack_index =
     make_Location kQuickParameter (scast (shl (ucast register_index) 16 OR ucast stack_index :: u32))"

definition GetQuickParameterRegisterIndex :: "Location \<Rightarrow> u32" where
  "GetQuickParameterRegisterIndex l = ucast (shr (GetPayload l) 16)"

definition GetQuickParameterStackIndex :: "Location \<Rightarrow> u32" where
  "GetQuickParameterStackIndex l = ucast (GetPayload l AND 0xFFFF)"

definition IsQuickParameter :: "Location \<Rightarrow> bool" where
  "IsQuickParameter l \<longleftrightarrow> GetKind l = kind_code kQuickParameter"

definition IsUnallocated :: "Location \<Rightarrow> bool" where
  "IsUnallocated l \<longleftrightarrow> GetKind l = kind_code kUnallocated"

definition UnallocatedLocation :: "Policy \<Rightarrow> Location" where
  "UnallocatedLocation policy = make_Location kUnallocated (BitField_Encode 0 3 (policy_code policy))"

definition GetPolicy :: "Location \<Rightarrow> u64" where
  "GetPolicy l = BitField_Decode 0 3 (GetPayload l)"

text \<open>\<open>constant\<close> is the address of the instruction when it is a constant.\<close>

definition RegisterOrConstant :: "u64 option \<Rightarrow> Location" where
  "RegisterOrConstant constant =
     (case constant of Some c \<Rightarrow> ConstantLocation c | None \<Rightarrow> UnallocatedLocation kRequiresRegister)"

definition ByteRegisterOrConstant :: "u64 \<Rightarrow> u64 option \<Rightarrow> Location" where
  "ByteRegisterOrConstant r constant =
     (case constant of Some c \<Rightarrow> ConstantLocation c | None \<Rightarrow> RegisterLocation r)"

section \<open>RegisterSet and LocationSummary\<close>

record RegisterSet =
  core_registers :: u32
  floating_point_registers :: u32

definition RegisterSet_Add :: "Location \<Rightarrow> RegisterSet \<Rightarrow> RegisterSet" where
  "RegisterSet_Add loc s =
     (if IsRegister loc then s\<lparr>core_registers := core_registers s OR shl 1 (unat (reg loc))\<rparr>
      else s\<lparr>floating_point_registers := floating_point_registers s OR shl 1 (unat (reg loc))\<rparr>)"

definition RegisterSet_Remove :: "Location \<Rightarrow> RegisterSet \<Rightarrow> RegisterSet" where
  "RegisterSet_Remove loc s =
     (if IsRegister loc then s\<lparr>core_registers := core_registers s AND NOT (shl 1 (unat (reg loc)))\<rparr>
      else s\<lparr>floating_point_registers := floating_point_registers s AND NOT (shl 1 (unat (reg loc)))\<rparr>)"

definition RegisterSet_Contains :: "u32 \<Rightarrow> u32 \<Rightarrow> bool" where
  "RegisterSet_Contains register_set r \<longleftrightarrow> register_set AND shl 1 (unat r) \<noteq> 0"

definition ContainsCoreRegister :: "RegisterSet \<Rightarrow> u32 \<Rightarrow> bool" where
  "ContainsCoreRegister s r = RegisterSet_Contains (core_registers s) r"

definition ContainsFloatingPointRegister :: "RegisterSet \<Rightarrow> u32 \<Rightarrow> bool" where
  "ContainsFloatingPointRegister s r = RegisterSet_Contains (floating_point_registers s) r"

definition GetNumberOfRegisters :: "RegisterSet \<Rightarrow> nat" where
  "GetNumberOfRegisters s = POPCOUNT (core_registers s) + POPCOUNT (floating_point_registers s)"

section \<open>What the encoding keeps\<close>

lemma kind_code_valid: "BitField_IsValid 4 (kind_code k)"
  by (cases k; simp add: BitField_IsValid_def)

lemma bit_kind_code: "bit (kind_code k) i \<Longrightarrow> i < 4"
  using kind_code_valid [of k] by (simp add: BitField_IsValid_iff)

lemma bit_make_Location:
  "bit (make_Location k p) i \<longleftrightarrow> i < 64 \<and> (if i < 4 then bit (kind_code k) i else bit p (i - 4))"
  by (auto simp: make_Location_def bit_simps bit_BitField dest: bit_kind_code)

lemma Decode_kind_make_Location: "BitField_Decode 0 4 (make_Location k p) = kind_code k"
  by (rule bit_word_eqI) (auto simp: bit_BitField bit_make_Location dest: bit_kind_code)

lemma GetPayload_make_Location:
  "BitField_IsValid 60 p \<Longrightarrow> GetPayload (make_Location k p) = p"
  unfolding GetPayload_def
  by (rule bit_word_eqI) (fastforce simp: bit_BitField bit_make_Location)

lemma u64_eq_iff_bits: "(x :: u64) = y \<longleftrightarrow> (\<forall>i<64. bit x i = bit y i)"
  by (auto intro: bit_word_eqI)

lemma bits_and_3: "bit (l AND 3 :: u64) i \<longleftrightarrow> i < 2 \<and> bit l i"
  by (auto simp: bit_simps word_bits)

lemma IsConstant_bits: "IsConstant l \<longleftrightarrow> bit l 0 \<and> \<not> bit l 1"
proof -
  have "IsConstant l \<longleftrightarrow> (\<forall>i<64. (i < 2 \<and> bit l i) = (i = 0))"
    unfolding IsConstant_def u64_eq_iff_bits [of "l AND 3"] bits_and_3 kind_code.simps bit_1_iff
    by simp
  also have "\<dots> \<longleftrightarrow> bit l 0 \<and> \<not> bit l 1"
  proof
    assume a: "\<forall>i<64. (i < 2 \<and> bit l i) = (i = 0)"
    show "bit l 0 \<and> \<not> bit l 1"
      using a [rule_format, of 0] a [rule_format, of 1] by simp
  qed (auto simp: less_2_cases_iff)
  finally show ?thesis .
qed

lemma IsConstant_make_Location:
  "IsConstant (make_Location k p) \<longleftrightarrow> k \<in> {kConstant, kDoNotUse5, kDoNotUse9}"
  by (cases k) (simp_all add: IsConstant_bits bit_make_Location)

lemma GetKind_make_Location:
  "k \<notin> {kConstant, kDoNotUse5, kDoNotUse9} \<Longrightarrow> GetKind (make_Location k p) = kind_code k"
  by (simp add: GetKind_def IsConstant_make_Location Decode_kind_make_Location)

lemma kind_code_inject [simp]: "kind_code k = kind_code k' \<longleftrightarrow> k = k'"
  by (cases k; cases k'; simp)

lemma ConstantLocation_bits:
  "c AND 3 = 0 \<Longrightarrow> bit (ConstantLocation c) i \<longleftrightarrow> i = 0 \<or> bit c i"
  by (auto simp: ConstantLocation_def bit_simps)

lemma aligned_bits: "(c :: u64) AND 3 = 0 \<Longrightarrow> bit c i \<Longrightarrow> 2 \<le> i"
  using bits_and_3 [of c i] by (cases "2 \<le> i") auto

lemma constant_round_trip:
  assumes "c AND 3 = 0"
  shows "IsConstant (ConstantLocation c)" "GetConstant (ConstantLocation c) = c"
proof -
  show "IsConstant (ConstantLocation c)"
    using aligned_bits [OF assms, of 1] by (auto simp: IsConstant_bits ConstantLocation_bits [OF assms])
  show "GetConstant (ConstantLocation c) = c"
    unfolding GetConstant_def
    by (rule bit_word_eqI)
      (auto simp: bit_simps word_bits ConstantLocation_bits [OF assms] dest: aligned_bits [OF assms])
qed

lemma stack_index_valid:
  assumes "- (2 ^ 59) \<le> sint i" "sint i < 2 ^ 59"
  shows "BitField_IsValid 60 (EncodeStackIndex i)"
proof -
  have "kStackIndexBias = word_of_int (2 ^ 59)" by (simp add: kStackIndexBias_def push_bit_eq_mult)
  then have e: "EncodeStackIndex i = word_of_int (2 ^ 59 + sint i)"
    by (simp add: EncodeStackIndex_def)
  have r: "0 \<le> 2 ^ 59 + sint i" "2 ^ 59 + sint i < 2 ^ 60" using assms by simp_all
  have "uint (EncodeStackIndex i) = 2 ^ 59 + sint i"
    unfolding e using r by (subst uint_word_of_int_eq) (simp add: take_bit_int_eq_self)
  then have "uint (EncodeStackIndex i) < 2 ^ 60" using r by simp
  then have "int (unat (EncodeStackIndex i)) < int (2 ^ 60)" by (simp add: of_nat_unat)
  then have "unat (EncodeStackIndex i) < 2 ^ 60" by (simp only: of_nat_less_iff)
  then show ?thesis unfolding less_exp_iff_bits BitField_IsValid_iff by (meson not_less)
qed

text \<open>C28: A location gives back what it was built from. For every kind but the two unused ones and
  the constants, kind and payload of the word are the ones it was made of, as long as the payload
  fits its 60 bits; stack indices in the documented range come back with their sign; the address of
  a constant, aligned to 4 bytes, is told apart from all other kinds and comes back.\<close>

theorem location_round_trip:
  "(k \<notin> {kConstant, kDoNotUse5, kDoNotUse9} \<and> BitField_IsValid 60 p \<longrightarrow>
      GetKind (make_Location k p) = kind_code k \<and> GetPayload (make_Location k p) = p \<and>
      \<not> IsConstant (make_Location k p)) \<and>
   (- (2 ^ 59) \<le> sint i \<and> sint i < 2 ^ 59 \<longrightarrow>
      IsStackSlot (StackSlot i) \<and> GetStackIndex (StackSlot i) = i \<and>
      IsDoubleStackSlot (DoubleStackSlot i) \<and> GetStackIndex (DoubleStackSlot i) = i) \<and>
   (c AND 3 = 0 \<longrightarrow> IsConstant (ConstantLocation c) \<and> GetConstant (ConstantLocation c) = c)"
  using stack_index_valid [of i] constant_round_trip [of c]
  by (simp add: GetKind_make_Location GetPayload_make_Location IsConstant_make_Location
      IsStackSlot_def StackSlot_def IsDoubleStackSlot_def DoubleStackSlot_def GetStackIndex_def
      EncodeStackIndex_def)

theorem location_round_trip_witness:
  "GetKind (make_Location kRegister 5) = 4 \<and> GetStackIndex (StackSlot (- 8)) = - 8 \<and>
   GetConstant (ConstantLocation 0x1000) = 0x1000"
  using location_round_trip [of kRegister 5 "- 8" "0x1000"] by (simp add: BitField_IsValid_def)

lemma reg_of_register:
  assumes "r < 32"
  shows "reg (RegisterLocation (of_nat r)) = of_nat r" "IsRegister (RegisterLocation (of_nat r))"
    "reg (FpuRegisterLocation (of_nat r)) = of_nat r" "\<not> IsRegister (FpuRegisterLocation (of_nat r))"
proof -
  have u: "unat (of_nat r :: u64) = r" by (rule unat_of_nat_small) (use assms in simp)
  have "unat (of_nat r :: u64) < 2 ^ 5" unfolding u using assms by simp
  then have b: "\<forall>i\<ge>5. \<not> bit (of_nat r :: u64) i" by (simp only: less_exp_iff_bits)
  have v: "BitField_IsValid 60 (of_nat r :: u64)"
    unfolding BitField_IsValid_iff
  proof (intro allI impI)
    fix i assume "bit (of_nat r :: u64) i"
    then have "i < 5" using b by (meson not_le)
    then show "i < 60" by simp
  qed
  show "reg (RegisterLocation (of_nat r)) = of_nat r" "reg (FpuRegisterLocation (of_nat r)) = of_nat r"
    using of_nat_unat [of "of_nat r :: u64", where ?'a = u32]
    by (simp_all add: reg_def RegisterLocation_def FpuRegisterLocation_def GetPayload_make_Location v u)
  show "IsRegister (RegisterLocation (of_nat r))" "\<not> IsRegister (FpuRegisterLocation (of_nat r))"
    by (simp_all only: IsRegister_def RegisterLocation_def FpuRegisterLocation_def)
      (simp_all add: GetKind_make_Location)
qed

lemma RegisterSet_Contains_bit:
  "r < 32 \<Longrightarrow> RegisterSet_Contains w (of_nat r) \<longleftrightarrow> bit w r"
proof -
  assume r: "r < 32"
  have u: "unat (of_nat r :: u32) = r" by (rule unat_of_nat_small) (use r in simp)
  have "w AND shl 1 r \<noteq> 0 \<longleftrightarrow> (\<exists>i<32. bit w i \<and> i = r)"
    unfolding word_neq_0_bit by (auto simp: bit_simps)
  with r u show ?thesis by (simp add: RegisterSet_Contains_def)
qed

text \<open>C29: A set of registers is a pair of sets. Adding or removing a core register changes the
  membership of that core register only and leaves the floating point registers alone; adding or
  removing a floating point register changes the membership of that floating point register only and
  leaves the core registers alone. The number of registers is the number of members of both sets.\<close>

theorem register_set_spec:
  assumes "r < 32" "q < 32"
  shows "(ContainsCoreRegister (RegisterSet_Add (RegisterLocation (of_nat r)) s) (of_nat q) \<longleftrightarrow>
           q = r \<or> ContainsCoreRegister s (of_nat q)) \<and>
         (ContainsFloatingPointRegister (RegisterSet_Add (RegisterLocation (of_nat r)) s) (of_nat q) \<longleftrightarrow>
           ContainsFloatingPointRegister s (of_nat q)) \<and>
         (ContainsFloatingPointRegister (RegisterSet_Add (FpuRegisterLocation (of_nat r)) s) (of_nat q) \<longleftrightarrow>
           q = r \<or> ContainsFloatingPointRegister s (of_nat q)) \<and>
         (ContainsCoreRegister (RegisterSet_Add (FpuRegisterLocation (of_nat r)) s) (of_nat q) \<longleftrightarrow>
           ContainsCoreRegister s (of_nat q)) \<and>
         (ContainsCoreRegister (RegisterSet_Remove (RegisterLocation (of_nat r)) s) (of_nat q) \<longleftrightarrow>
           q \<noteq> r \<and> ContainsCoreRegister s (of_nat q)) \<and>
         (ContainsFloatingPointRegister (RegisterSet_Remove (RegisterLocation (of_nat r)) s) (of_nat q) \<longleftrightarrow>
           ContainsFloatingPointRegister s (of_nat q)) \<and>
         (ContainsFloatingPointRegister (RegisterSet_Remove (FpuRegisterLocation (of_nat r)) s) (of_nat q) \<longleftrightarrow>
           q \<noteq> r \<and> ContainsFloatingPointRegister s (of_nat q)) \<and>
         (ContainsCoreRegister (RegisterSet_Remove (FpuRegisterLocation (of_nat r)) s) (of_nat q) \<longleftrightarrow>
           ContainsCoreRegister s (of_nat q)) \<and>
         GetNumberOfRegisters s =
           card {i. i < 32 \<and> ContainsCoreRegister s (of_nat i)} +
           card {i. i < 32 \<and> ContainsFloatingPointRegister s (of_nat i)}"
proof -
  have u: "unat (of_nat r :: u32) = r" by (rule unat_of_nat_small) (use assms in simp)
  have n: "POPCOUNT w = card {i. i < 32 \<and> RegisterSet_Contains w (of_nat i)}" for w :: u32
  proof -
    have "bit w i \<longleftrightarrow> i < 32 \<and> RegisterSet_Contains w (of_nat i)" for i
      using RegisterSet_Contains_bit [of i w] bit_imp_le_length [of w i] by auto
    then show ?thesis by (simp add: POPCOUNT_card)
  qed
  show ?thesis
    using assms reg_of_register [of r]
    by (auto simp: ContainsCoreRegister_def ContainsFloatingPointRegister_def RegisterSet_Add_def
        RegisterSet_Remove_def GetNumberOfRegisters_def RegisterSet_Contains_bit u bit_simps
        simp flip: n)
qed

theorem register_set_spec_witness:
  "ContainsCoreRegister (RegisterSet_Add (RegisterLocation (of_nat 3)) \<lparr>core_registers = 0, floating_point_registers = 1\<rparr>) (of_nat 3)"
  using register_set_spec [of 3 3] by (simp del: of_nat_numeral)

end
