(* ===== verification/ParallelMove.thy ===== *)
theory ParallelMove
  imports Locations "HOL-Library.Monad_Syntax"
begin

text \<open>
  The parallel move resolver of the optimizing compiler,
  \<^verbatim>\<open>compiler/optimizing/parallel_move_resolver.cc\<close>, with \<^verbatim>\<open>MoveOperands\<close> of \<^verbatim>\<open>nodes.h\<close>.
  It turns a set of moves that happen at the same time into a sequence of
  moves and swaps. The moves it emits are recorded as data. A violated \<^verbatim>\<open>DCHECK\<close> is \<^term>\<open>None\<close>,
  those of the tests of \<^verbatim>\<open>MoveOperands\<close> included. The machine the moves run on has locations
  that may overlap: a write to one leaves the others that share a register or a stack byte with it
  undefined.
\<close>

section \<open>The code\<close>

record MoveOperands =
  source :: Location
  destination :: Location

text \<open>The \<^verbatim>\<open>DCHECK\<close> of \<^verbatim>\<open>IsPending\<close> and \<^verbatim>\<open>IsEliminated\<close>.\<close>

definition operands_ok :: "MoveOperands \<Rightarrow> bool" where
  "operands_ok m \<longleftrightarrow> \<not> IsInvalid (source m) \<or> IsInvalid (destination m)"

definition IsPending :: "MoveOperands \<Rightarrow> bool option" where
  "IsPending m = (if operands_ok m then Some (IsInvalid (destination m) \<and> \<not> IsInvalid (source m)) else None)"

definition IsEliminated :: "MoveOperands \<Rightarrow> bool option" where
  "IsEliminated m = (if operands_ok m then Some (IsInvalid (source m)) else None)"

definition Blocks :: "MoveOperands \<Rightarrow> Location \<Rightarrow> bool option" where
  "Blocks m loc = do {
     eliminated \<leftarrow> IsEliminated m;
     Some (\<not> eliminated \<and> source m = loc)
   }"

definition IsRedundant :: "MoveOperands \<Rightarrow> bool option" where
  "IsRedundant m = do {
     eliminated \<leftarrow> IsEliminated m;
     Some (eliminated \<or> IsInvalid (destination m) \<or> source m = destination m)
   }"

definition MarkPending :: "MoveOperands \<Rightarrow> (Location \<times> MoveOperands) option" where
  "MarkPending m = do {
     pending \<leftarrow> IsPending m;
     if pending then None else Some (destination m, m\<lparr>destination := NoLocation\<rparr>)
   }"

definition ClearPending :: "Location \<Rightarrow> MoveOperands \<Rightarrow> MoveOperands option" where
  "ClearPending dest m = do {
     pending \<leftarrow> IsPending m;
     if pending then Some (m\<lparr>destination := dest\<rparr>) else None
   }"

definition Eliminate :: "MoveOperands \<Rightarrow> MoveOperands" where
  "Eliminate m = \<lparr>source = NoLocation, destination = NoLocation\<rparr>"

text \<open>What the subclass of the architecture is asked to emit.\<close>

datatype emitted = Move Location Location | Swap Location Location

record resolver =
  moves :: "MoveOperands list"
  code :: "emitted list"

definition EmitMove :: "nat \<Rightarrow> resolver \<Rightarrow> resolver" where
  "EmitMove index r = r\<lparr>code := code r @ [Move (source (moves r ! index)) (destination (moves r ! index))]\<rparr>"

definition EmitSwap :: "nat \<Rightarrow> resolver \<Rightarrow> resolver" where
  "EmitSwap index r = r\<lparr>code := code r @ [Swap (source (moves r ! index)) (destination (moves r ! index))]\<rparr>"

definition set_move :: "nat \<Rightarrow> MoveOperands \<Rightarrow> resolver \<Rightarrow> resolver" where
  "set_move index m r = r\<lparr>moves := (moves r)[index := m]\<rparr>"

text \<open>Loops over the moves whose body may fail a check.\<close>

primrec for_each :: "('a \<Rightarrow> 's \<Rightarrow> 's option) \<Rightarrow> 'a list \<Rightarrow> 's \<Rightarrow> 's option" where
  "for_each f [] s = Some s"
| "for_each f (x # xs) s = Option.bind (f x s) (for_each f xs)"

primrec BuildInitialMoveList :: "MoveOperands list \<Rightarrow> MoveOperands list option" where
  "BuildInitialMoveList [] = Some []"
| "BuildInitialMoveList (m # parallel_move) = do {
     redundant \<leftarrow> IsRedundant m;
     ms \<leftarrow> BuildInitialMoveList parallel_move;
     Some (if redundant then ms else m # ms)
   }"

text \<open>The update of the sources after a swap.\<close>

definition swap_source :: "Location \<Rightarrow> Location \<Rightarrow> MoveOperands \<Rightarrow> MoveOperands option" where
  "swap_source src swap_destination m = do {
     blocks_source \<leftarrow> Blocks m src;
     if blocks_source then Some (m\<lparr>source := swap_destination\<rparr>)
     else do {
       blocks_destination \<leftarrow> Blocks m swap_destination;
       Some (if blocks_destination then m\<lparr>source := src\<rparr> else m)
     }
   }"

primrec swap_sources :: "Location \<Rightarrow> Location \<Rightarrow> MoveOperands list \<Rightarrow> MoveOperands list option" where
  "swap_sources src swap_destination [] = Some []"
| "swap_sources src swap_destination (m # ms) = do {
     m \<leftarrow> swap_source src swap_destination m;
     ms \<leftarrow> swap_sources src swap_destination ms;
     Some (m # ms)
   }"

text \<open>The search for a move that blocks the destination, which must be pending.\<close>

primrec do_swap :: "Location \<Rightarrow> MoveOperands list \<Rightarrow> bool option" where
  "do_swap dest [] = Some False"
| "do_swap dest (other_move # ms) = do {
     blocks \<leftarrow> Blocks other_move dest;
     if blocks then do {
       pending \<leftarrow> IsPending other_move;
       if pending then Some True else None
     } else do_swap dest ms
   }"

text \<open>The part of \<^verbatim>\<open>PerformMove\<close> behind the recursive calls.\<close>

definition finish_move :: "nat \<Rightarrow> Location \<Rightarrow> resolver \<Rightarrow> resolver option" where
  "finish_move index dest r = do {
     move \<leftarrow> ClearPending dest (moves r ! index);
     let r = set_move index move r;
     if source move = dest then Some (set_move index (Eliminate move) r)
     else do {
       swap \<leftarrow> do_swap dest (moves r);
       if swap then do {
         let r = set_move index (Eliminate move) (EmitSwap index r);
         ms \<leftarrow> swap_sources (source move) (destination move) (moves r);
         Some (r\<lparr>moves := ms\<rparr>)
       } else Some (set_move index (Eliminate move) (EmitMove index r))
     }
   }"

text \<open>
  The recursion marks one more move as pending at each level, so its depth is at most the number of
  moves.
\<close>

primrec PerformMove :: "nat \<Rightarrow> nat \<Rightarrow> resolver \<Rightarrow> resolver option" where
  "PerformMove 0 index r = None"
| "PerformMove (Suc fuel) index r = do {
     pending \<leftarrow> IsPending (moves r ! index);
     redundant \<leftarrow> IsRedundant (moves r ! index);
     if pending \<or> redundant \<or> IsInvalid (source (moves r ! index)) then None
     else do {
       (dest, move) \<leftarrow> MarkPending (moves r ! index);
       let r = set_move index move r;
       r \<leftarrow> for_each (\<lambda>i r. do {
              blocks \<leftarrow> Blocks (moves r ! i) dest;
              if blocks then do {
                pending \<leftarrow> IsPending (moves r ! i);
                if pending then Some r else PerformMove fuel i r
              } else Some r
            }) [0..<length (moves r)] r;
       finish_move index dest r
     }
   }"

definition EmitNativeCode :: "MoveOperands list \<Rightarrow> emitted list option" where
  "EmitNativeCode parallel_move = do {
     ms \<leftarrow> BuildInitialMoveList parallel_move;
     let r = \<lparr>moves = ms, code = []\<rparr>;
     let n = length ms;
     r \<leftarrow> for_each (\<lambda>i r. do {
            eliminated \<leftarrow> IsEliminated (moves r ! i);
            if \<not> eliminated \<and> \<not> IsConstant (source (moves r ! i)) then PerformMove n i r else Some r
          }) [0..<n] r;
     r \<leftarrow> for_each (\<lambda>i r. do {
            eliminated \<leftarrow> IsEliminated (moves r ! i);
            if \<not> eliminated
            then if IsConstant (source (moves r ! i)) then Some (EmitMove i r) else None
            else Some r
          }) [0..<n] r;
     Some (code r)
   }"

text \<open>Scratch registers for the emitted code.\<close>

primrec blocked_by :: "Location \<Rightarrow> MoveOperands list \<Rightarrow> bool option" where
  "blocked_by loc [] = Some False"
| "blocked_by loc (m # ms) = do {
     blocks \<leftarrow> Blocks m loc;
     if blocks then Some True else blocked_by loc ms
   }"

definition IsScratchLocation :: "MoveOperands list \<Rightarrow> Location \<Rightarrow> bool option" where
  "IsScratchLocation ms loc = do {
     blocked \<leftarrow> blocked_by loc ms;
     Some (\<not> blocked \<and> list_ex (\<lambda>m. destination m = loc) ms)
   }"

primrec scratch_search :: "MoveOperands list \<Rightarrow> int \<Rightarrow> nat list \<Rightarrow> nat option option" where
  "scratch_search ms blocked [] = Some None"
| "scratch_search ms blocked (r # rs) =
     (if blocked = int r then scratch_search ms blocked rs
      else do {
        scratch \<leftarrow> IsScratchLocation ms (RegisterLocation (of_nat r));
        if scratch then Some (Some r) else scratch_search ms blocked rs
      })"

definition AllocateScratchRegister :: "MoveOperands list \<Rightarrow> int \<Rightarrow> nat \<Rightarrow> int \<Rightarrow> (int \<times> bool) option" where
  "AllocateScratchRegister ms blocked register_count if_scratch =
     (if blocked = if_scratch then None
      else do {
        scratch \<leftarrow> scratch_search ms blocked [0..<register_count];
        Some (case scratch of None \<Rightarrow> (if_scratch, True) | Some r \<Rightarrow> (int r, False))
      })"

section \<open>The machine\<close>

text \<open>
  What a location occupies: a core or floating point register, two of them, 4 bytes of the stack or
  8. Constants occupy nothing. The places of a quick parameter depend on the calling convention, it
  and the unallocated locations are not places here.
\<close>

datatype cell = CoreCell u32 | FpuCell u32 | StackByte int

definition cells :: "Location \<Rightarrow> cell list" where
  "cells l =
     (if IsRegister l then [CoreCell (reg l)]
      else if IsFpuRegister l then [FpuCell (reg l)]
      else if IsRegisterPair l then [CoreCell (AsRegisterPairLow l), CoreCell (AsRegisterPairHigh l)]
      else if IsFpuRegisterPair l then [FpuCell (AsRegisterPairLow l), FpuCell (AsRegisterPairHigh l)]
      else if IsStackSlot l then map (\<lambda>k. StackByte (sint (GetStackIndex l) + int k)) [0..<4]
      else if IsDoubleStackSlot l then map (\<lambda>k. StackByte (sint (GetStackIndex l) + int k)) [0..<8]
      else [])"

definition overlap :: "Location \<Rightarrow> Location \<Rightarrow> bool" where
  "overlap a b \<longleftrightarrow> a = b \<or> list_ex (\<lambda>c. c \<in> set (cells b)) (cells a)"

text \<open>
  A write to a location gives the locations that overlap it, other than itself, any value: the value
  that the function \<open>havoc\<close> says.
\<close>

type_synonym 'v machine = "Location \<Rightarrow> 'v"

primrec exec_one :: "(emitted \<Rightarrow> 'v machine \<Rightarrow> 'v machine) \<Rightarrow> emitted \<Rightarrow> 'v machine \<Rightarrow> 'v machine" where
  "exec_one havoc (Move s d) \<sigma> =
     (\<lambda>l. if l = d then \<sigma> s else if overlap l d then havoc (Move s d) \<sigma> l else \<sigma> l)"
| "exec_one havoc (Swap s d) \<sigma> =
     (\<lambda>l. if l = d then \<sigma> s else if l = s then \<sigma> d
          else if overlap l d \<or> overlap l s then havoc (Swap s d) \<sigma> l else \<sigma> l)"

definition exec_code :: "(emitted \<Rightarrow> 'v machine \<Rightarrow> 'v machine) \<Rightarrow> emitted list \<Rightarrow> 'v machine \<Rightarrow> 'v machine" where
  "exec_code havoc is \<sigma> = fold (exec_one havoc) is \<sigma>"

text \<open>Different locations among these do not overlap.\<close>

definition separate :: "Location set \<Rightarrow> bool" where
  "separate U \<longleftrightarrow> (\<forall>a\<in>U. \<forall>b\<in>U. overlap a b \<longrightarrow> a = b)"

lemma exec_code_snoc [simp]: "exec_code h (is @ [i]) \<sigma> = exec_one h i (exec_code h is \<sigma>)"
  by (simp add: exec_code_def)

lemma overlap_refl [simp]: "overlap l l"
  by (simp add: overlap_def)

lemma separateD: "separate U \<Longrightarrow> a \<in> U \<Longrightarrow> b \<in> U \<Longrightarrow> overlap a b \<longleftrightarrow> a = b"
  by (auto simp: separate_def)

lemma exec_move_at:
  "separate U \<Longrightarrow> l \<in> U \<Longrightarrow> d \<in> U \<Longrightarrow> exec_one h (Move s d) \<sigma> l = (if l = d then \<sigma> s else \<sigma> l)"
  by (simp add: separateD)

lemma exec_swap_at:
  "separate U \<Longrightarrow> l \<in> U \<Longrightarrow> d \<in> U \<Longrightarrow> s \<in> U \<Longrightarrow>
   exec_one h (Swap s d) \<sigma> l = (if l = d then \<sigma> s else if l = s then \<sigma> d else \<sigma> l)"
  by (simp add: separateD)

lemma exec_one_other:
  "\<not> overlap l d \<Longrightarrow> exec_one h (Move s d) \<sigma> l = \<sigma> l"
  "\<not> overlap l d \<Longrightarrow> \<not> overlap l s \<Longrightarrow> exec_one h (Swap s d) \<sigma> l = \<sigma> l"
  by auto

declare exec_one.simps [simp del]

section \<open>The invariant of the resolver\<close>

text \<open>
  \<open>U\<close> are the locations of the moves, \<open>ds\<close> the destinations, pairwise different, \<open>vs\<close> the values the
  moves have to deliver, \<open>\<sigma>0\<close> the machine at the start, \<open>ps\<close> the pending moves, the innermost call
  first. Each pending move but the outermost reads the destination of the one it was called for.
\<close>

lemma IsInvalid_iff [simp]: "IsInvalid l \<longleftrightarrow> l = NoLocation"
  by (simp add: IsInvalid_def IsValid_def NoLocation_def)

lemma IsValid_iff [simp]: "IsValid l \<longleftrightarrow> l \<noteq> NoLocation"
  by (simp add: IsValid_def NoLocation_def)

text \<open>The tests of \<^verbatim>\<open>MoveOperands\<close> where their check holds.\<close>

definition is_pending :: "MoveOperands \<Rightarrow> bool" where
  "is_pending m \<longleftrightarrow> destination m = NoLocation \<and> source m \<noteq> NoLocation"

definition does_block :: "MoveOperands \<Rightarrow> Location \<Rightarrow> bool" where
  "does_block m loc \<longleftrightarrow> source m \<noteq> NoLocation \<and> source m = loc"

definition is_redundant :: "MoveOperands \<Rightarrow> bool" where
  "is_redundant m \<longleftrightarrow> source m = NoLocation \<or> destination m = NoLocation \<or> source m = destination m"

lemma checked_tests [simp]:
  assumes "operands_ok m"
  shows "IsPending m = Some (is_pending m)" "IsEliminated m = Some (source m = NoLocation)"
    "Blocks m loc = Some (does_block m loc)" "IsRedundant m = Some (is_redundant m)"
  using assms by (auto simp: IsPending_def IsEliminated_def Blocks_def IsRedundant_def is_pending_def
      does_block_def is_redundant_def)

lemma do_swap_checked:
  "\<forall>m\<in>set ms. operands_ok m \<Longrightarrow> do_swap dest ms =
     (case find (\<lambda>m. does_block m dest) ms of None \<Rightarrow> Some False | Some m \<Rightarrow> if is_pending m then Some True else None)"
  by (induction ms) auto

definition swapped :: "Location \<Rightarrow> Location \<Rightarrow> MoveOperands \<Rightarrow> MoveOperands" where
  "swapped s d m = (if does_block m s then m\<lparr>source := d\<rparr> else if does_block m d then m\<lparr>source := s\<rparr> else m)"

lemma swap_sources_checked:
  "\<forall>m\<in>set ms. operands_ok m \<Longrightarrow> swap_sources s d ms = Some (map (swapped s d) ms)"
  by (induction ms) (auto simp: swap_source_def swapped_def)

lemma BuildInitialMoveList_checked:
  "\<forall>m\<in>set ms. operands_ok m \<Longrightarrow> BuildInitialMoveList ms = Some (filter (\<lambda>m. \<not> is_redundant m) ms)"
  by (induction ms) auto

definition move_ok :: "Location set \<Rightarrow> Location list \<Rightarrow> nat list \<Rightarrow> MoveOperands list \<Rightarrow> nat \<Rightarrow> bool" where
  "move_ok U ds ps ms i \<longleftrightarrow> (source (ms ! i) \<noteq> NoLocation \<longrightarrow> source (ms ! i) \<in> U) \<and>
     (if i \<in> set ps then source (ms ! i) \<noteq> NoLocation \<and> destination (ms ! i) = NoLocation
      else if source (ms ! i) = NoLocation then destination (ms ! i) = NoLocation
      else destination (ms ! i) = ds ! i \<and> source (ms ! i) \<noteq> ds ! i)"

definition values_ok ::
  "Location list \<Rightarrow> 'v list \<Rightarrow> 'v machine \<Rightarrow> MoveOperands list \<Rightarrow> 'v machine \<Rightarrow> bool" where
  "values_ok ds vs \<sigma>0 ms \<sigma> \<longleftrightarrow>
     (\<forall>i<length ds. \<sigma> (if source (ms ! i) = NoLocation then ds ! i else source (ms ! i)) = vs ! i) \<and>
     (\<forall>l. (\<forall>d\<in>set ds. \<not> overlap l d) \<longrightarrow> \<sigma> l = \<sigma>0 l)"

definition resolver_inv ::
  "(emitted \<Rightarrow> 'v machine \<Rightarrow> 'v machine) \<Rightarrow> Location set \<Rightarrow> Location list \<Rightarrow> 'v list \<Rightarrow> 'v machine \<Rightarrow>
   nat list \<Rightarrow> resolver \<Rightarrow> bool" where
  "resolver_inv h U ds vs \<sigma>0 ps r \<longleftrightarrow>
     length (moves r) = length ds \<and> distinct ds \<and> NoLocation \<notin> set ds \<and> separate U \<and> set ds \<subseteq> U \<and>
     distinct ps \<and> set ps \<subseteq> {..<length ds} \<and>
     (\<forall>i<length ds. move_ok U ds ps (moves r) i) \<and>
     successively (\<lambda>x y. source (moves r ! x) = ds ! y) ps \<and>
     values_ok ds vs \<sigma>0 (moves r) (exec_code h (code r) \<sigma>0)"

lemma inv_operands_ok:
  "resolver_inv h U ds vs \<sigma>0 ps r \<Longrightarrow> i < length ds \<Longrightarrow> operands_ok (moves r ! i)"
  by (auto simp: resolver_inv_def move_ok_def operands_ok_def split: if_splits)

lemma inv_all_operands_ok:
  "resolver_inv h U ds vs \<sigma>0 ps r \<Longrightarrow> \<forall>m\<in>set (moves r). operands_ok m"
  using inv_operands_ok [of h U ds vs \<sigma>0 ps r]
  by (auto simp: in_set_conv_nth resolver_inv_def)

text \<open>What a call may do to the moves: it eliminates moves, it only changes sources that are
  destinations, and a source of a move that is not pending is not changed to the destination of a
  pending move.\<close>

definition call_post :: "Location list \<Rightarrow> nat list \<Rightarrow> resolver \<Rightarrow> resolver \<Rightarrow> bool" where
  "call_post ds ps r r' \<longleftrightarrow>
     (\<forall>j<length ds. (source (moves r ! j) = NoLocation \<longrightarrow> source (moves r' ! j) = NoLocation) \<and>
        (source (moves r ! j) \<notin> set ds \<longrightarrow>
           source (moves r' ! j) = source (moves r ! j) \<or> source (moves r' ! j) = NoLocation) \<and>
        (j \<notin> set ps \<longrightarrow> source (moves r' ! j) \<noteq> NoLocation \<longrightarrow>
           source (moves r' ! j) = source (moves r ! j) \<or> source (moves r' ! j) \<notin> (!) ds ` set ps))"

lemma call_post_refl [simp]: "call_post ds ps r r"
  by (simp add: call_post_def)

lemma call_post_trans: "call_post ds ps r r' \<Longrightarrow> call_post ds ps r' r'' \<Longrightarrow> call_post ds ps r r''"
  unfolding call_post_def by metis

lemma call_post_pop:
  assumes out: "call_post ds (x # ps) r r1" and last: "call_post ds ps r1 r'"
    and x: "source (moves r' ! x) = NoLocation"
  shows "call_post ds ps r r'"
  unfolding call_post_def
proof (intro allI impI conjI)
  fix j assume j: "j < length ds"
  show "source (moves r' ! j) = NoLocation" if "source (moves r ! j) = NoLocation"
    using out last j that by (simp add: call_post_def)
  show "source (moves r' ! j) = source (moves r ! j) \<or> source (moves r' ! j) = NoLocation"
    if "source (moves r ! j) \<notin> set ds"
    using out last j that unfolding call_post_def by metis
  assume ps: "j \<notin> set ps" and nz: "source (moves r' ! j) \<noteq> NoLocation"
  with x have "j \<notin> set (x # ps)" by auto
  moreover have "source (moves r1 ! j) \<noteq> NoLocation" using last j nz by (auto simp: call_post_def)
  ultimately have "source (moves r1 ! j) = source (moves r ! j) \<or>
      source (moves r1 ! j) \<notin> (!) ds ` set (x # ps)"
    using out j unfolding call_post_def by blast
  moreover have "source (moves r' ! j) = source (moves r1 ! j) \<or> source (moves r' ! j) \<notin> (!) ds ` set ps"
    using last j ps nz unfolding call_post_def by blast
  ultimately show "source (moves r' ! j) = source (moves r ! j) \<or> source (moves r' ! j) \<notin> (!) ds ` set ps"
    by auto
qed

lemma pending_iff:
  "resolver_inv h U ds vs \<sigma>0 ps r \<Longrightarrow> i < length ds \<Longrightarrow> is_pending (moves r ! i) \<longleftrightarrow> i \<in> set ps"
  using nth_mem [of i ds]
  unfolding resolver_inv_def move_ok_def is_pending_def by (metis (full_types))

lemma resolver_inv_length: "resolver_inv h U ds vs \<sigma>0 ps r \<Longrightarrow> length (moves r) = length ds"
  by (simp add: resolver_inv_def)

section \<open>Marking a move\<close>

lemma nth_set_move [simp]:
  "index < length (moves r) \<Longrightarrow> moves (set_move index m r) ! j = (if j = index then m else moves r ! j)"
  by (simp add: set_move_def nth_list_update)

lemma length_set_move [simp]: "length (moves (set_move index m r)) = length (moves r)"
  by (simp add: set_move_def)

lemma code_set_move [simp]: "code (set_move index m r) = code r"
  by (simp add: set_move_def)

lemma successively_cong':
  "successively P xs \<Longrightarrow> (\<And>x y. x \<in> set (butlast xs) \<Longrightarrow> y \<in> set (tl xs) \<Longrightarrow> P x y \<Longrightarrow> Q x y) \<Longrightarrow> successively Q xs"
  by (induction P xs rule: successively.induct) auto

lemma mark_pending_inv:
  assumes "resolver_inv h U ds vs \<sigma>0 ps r" "index < length ds" "index \<notin> set ps"
    "source (moves r ! index) \<noteq> NoLocation" "ps \<noteq> [] \<Longrightarrow> source (moves r ! index) = ds ! hd ps"
  shows "resolver_inv h U ds vs \<sigma>0 (index # ps) (set_move index ((moves r ! index)\<lparr>destination := NoLocation\<rparr>) r)"
proof -
  let ?r = "set_move index ((moves r ! index)\<lparr>destination := NoLocation\<rparr>) r"
  have len: "length (moves r) = length ds" using assms(1) by (simp add: resolver_inv_def)
  have src: "source (moves ?r ! j) = source (moves r ! j)" for j
    using assms(2) len by simp
  have "\<forall>i<length ds. move_ok U ds (index # ps) (moves ?r) i"
    using assms len by (auto simp: resolver_inv_def move_ok_def)
  moreover have "successively (\<lambda>x y. source (moves ?r ! x) = ds ! y) (index # ps)"
    using assms by (cases ps) (simp_all only: src resolver_inv_def successively.simps list.sel simp_thms, simp_all)
  moreover have "values_ok ds vs \<sigma>0 (moves ?r) (exec_code h (code ?r) \<sigma>0)"
    using assms(1) unfolding resolver_inv_def values_ok_def src by simp
  ultimately show ?thesis
    using assms len unfolding resolver_inv_def by simp
qed

section \<open>Resolving a move\<close>

text \<open>
  After the recursive calls, the moves that still read the destination of the move are pending.
  The three ways \<^const>\<open>finish_move\<close> ends all only change sources, so the invariant is re-established
  from the new sources.
\<close>

lemma resolver_inv_popI:
  assumes inv: "resolver_inv h U ds vs \<sigma>0 (index # ps) r"
    and len: "length (moves r') = length ds"
    and elim: "moves r' ! index = Eliminate (moves r ! index)"
    and dest: "\<And>j. j < length ds \<Longrightarrow> j \<noteq> index \<Longrightarrow> destination (moves r' ! j) = destination (moves r ! j)"
    and keep: "\<And>j. j < length ds \<Longrightarrow> j \<noteq> index \<Longrightarrow>
      (source (moves r' ! j) = NoLocation \<longleftrightarrow> source (moves r ! j) = NoLocation)"
    and noself: "\<And>j. j < length ds \<Longrightarrow> j \<notin> set (index # ps) \<Longrightarrow> source (moves r ! j) \<noteq> NoLocation \<Longrightarrow>
      source (moves r' ! j) \<noteq> ds ! j"
    and chain: "\<And>x y. x \<in> set (butlast ps) \<Longrightarrow> y \<in> set (tl ps) \<Longrightarrow> source (moves r ! x) = ds ! y \<Longrightarrow>
      source (moves r' ! x) = ds ! y"
    and within: "\<And>j. j < length ds \<Longrightarrow> j \<noteq> index \<Longrightarrow> source (moves r' ! j) \<noteq> NoLocation \<Longrightarrow>
      source (moves r' ! j) \<in> U"
    and vals: "values_ok ds vs \<sigma>0 (moves r') (exec_code h (code r') \<sigma>0)"
  shows "resolver_inv h U ds vs \<sigma>0 ps r'"
proof -
  have "move_ok U ds ps (moves r') j" if j: "j < length ds" for j
  proof (cases "j = index")
    case True
    then show ?thesis using elim inv by (simp add: move_ok_def Eliminate_def resolver_inv_def)
  next
    case False
    with inv j have "move_ok U ds (index # ps) (moves r) j" by (simp add: resolver_inv_def)
    with False dest [OF j False] keep [OF j False] noself [OF j] within [OF j False]
    show ?thesis by (auto simp: move_ok_def split: if_splits)
  qed
  moreover have "successively (\<lambda>x y. source (moves r ! x) = ds ! y) ps"
    using inv by (cases ps) (simp_all add: resolver_inv_def)
  then have "successively (\<lambda>x y. source (moves r' ! x) = ds ! y) ps"
    by (rule successively_cong') (rule chain)
  ultimately show ?thesis using inv len vals by (simp add: resolver_inv_def)
qed

lemma resolver_inv_dests:
  assumes "resolver_inv h U ds vs \<sigma>0 ps r" "i < length ds" "j < length ds"
  shows "ds ! i = ds ! j \<longleftrightarrow> i = j" and "ds ! i \<noteq> NoLocation"
  using assms nth_mem [of i ds] unfolding resolver_inv_def by (simp add: nth_eq_iff_index_eq, metis)

text \<open>A move that reads the destination of the innermost pending move is the outermost pending
  move: every other one reads the destination of a pending move further out.\<close>

lemma successively_before_last:
  "successively P xs \<Longrightarrow> x \<in> set (butlast xs) \<Longrightarrow> \<exists>y\<in>set (tl xs). P x y"
  by (induction P xs rule: successively.induct) (auto split: if_splits)

lemma pending_source_is_pending_dest:
  assumes inv: "resolver_inv h U ds vs \<sigma>0 (index # ps) r" and "ps \<noteq> []"
  shows "source (moves r ! index) = ds ! hd ps"
  using assms by (cases ps) (simp_all add: resolver_inv_def)

lemma moves_Emit [simp]: "moves (EmitMove i r) = moves r" "moves (EmitSwap i r) = moves r"
  by (simp_all add: EmitMove_def EmitSwap_def)

lemma pop_same_sources:
  assumes inv: "resolver_inv h U ds vs \<sigma>0 (index # ps) r"
    and len: "length (moves r') = length ds"
    and m: "\<And>j. j < length ds \<Longrightarrow>
      moves r' ! j = (if j = index then Eliminate (moves r ! index) else moves r ! j)"
    and vals: "values_ok ds vs \<sigma>0 (moves r') (exec_code h (code r') \<sigma>0)"
  shows "resolver_inv h U ds vs \<sigma>0 ps r' \<and> call_post ds ps r r' \<and> source (moves r' ! index) = NoLocation"
proof (intro conjI)
  have i: "index < length ds" "index \<notin> set ps" "set ps \<subseteq> {..<length ds}"
    using inv by (simp_all add: resolver_inv_def)
  show "resolver_inv h U ds vs \<sigma>0 ps r'"
  proof (rule resolver_inv_popI [OF inv len _ _ _ _ _ _ vals])
    fix x y assume "x \<in> set (butlast ps)" "source (moves r ! x) = ds ! y"
    moreover from calculation(1) i have "x \<noteq> index" "x < length ds" by (auto dest: in_set_butlastD)
    ultimately show "source (moves r' ! x) = ds ! y" by (simp add: m)
  next
    fix j assume "j < length ds" "j \<notin> set (index # ps)" "source (moves r ! j) \<noteq> NoLocation"
    then show "source (moves r' ! j) \<noteq> ds ! j"
      using inv by (auto simp: m resolver_inv_def move_ok_def)
  next
    fix j assume "j < length ds" "j \<noteq> index" "source (moves r' ! j) \<noteq> NoLocation"
    then show "source (moves r' ! j) \<in> U" using inv by (simp add: m resolver_inv_def move_ok_def)
  qed (use i in \<open>simp_all add: m\<close>)
  show "call_post ds ps r r'" using i by (simp add: call_post_def m Eliminate_def)
  show "source (moves r' ! index) = NoLocation" using i by (simp add: m Eliminate_def)
qed

text \<open>The checks that \<^const>\<open>finish_move\<close> makes hold.\<close>

lemma pending_index:
  "resolver_inv h U ds vs \<sigma>0 (index # ps) r \<Longrightarrow> IsPending (moves r ! index) = Some True"
  using inv_operands_ok [of h U ds vs \<sigma>0 "index # ps" r index] pending_iff [of h U ds vs \<sigma>0 "index # ps" r index]
  by (simp add: resolver_inv_def)

lemma cleared_operands_ok:
  assumes inv: "resolver_inv h U ds vs \<sigma>0 (index # ps) r"
  shows "\<forall>m\<in>set (moves (set_move index ((moves r ! index)\<lparr>destination := ds ! index\<rparr>) r)). operands_ok m"
proof -
  have "source (moves r ! index) \<noteq> NoLocation" using inv by (simp add: resolver_inv_def move_ok_def)
  then show ?thesis
    using inv_operands_ok [OF inv] resolver_inv_length [OF inv] inv
    by (auto simp: in_set_conv_nth resolver_inv_def) (simp add: operands_ok_def)
qed

lemma eliminated_operands_ok:
  assumes inv: "resolver_inv h U ds vs \<sigma>0 (index # ps) r"
  shows "\<forall>m\<in>set (moves (set_move index (Eliminate m') (EmitSwap index
      (set_move index ((moves r ! index)\<lparr>destination := ds ! index\<rparr>) r)))). operands_ok m"
  using inv_operands_ok [OF inv] resolver_inv_length [OF inv] inv
  by (auto simp: in_set_conv_nth resolver_inv_def) (simp add: operands_ok_def Eliminate_def)

lemma inv_locations:
  assumes "resolver_inv h U ds vs \<sigma>0 ps r" "i < length ds"
  shows "ds ! i \<in> U" "source (moves r ! i) \<noteq> NoLocation \<Longrightarrow> source (moves r ! i) \<in> U" "separate U"
  using assms nth_mem [of i ds] by (auto simp: resolver_inv_def move_ok_def)

lemma values_ok_move:
  assumes inv: "resolver_inv h U ds vs \<sigma>0 (index # ps) r" and s: "source (moves r ! index) \<noteq> NoLocation"
    and free: "\<And>j. j < length ds \<Longrightarrow> source (moves r ! j) \<noteq> ds ! index"
    and elim: "source (ms ! index) = NoLocation" and ms: "\<And>j. j \<noteq> index \<Longrightarrow> source (ms ! j) = source (moves r ! j)"
  shows "values_ok ds vs \<sigma>0 ms
    (exec_one h (Move (source (moves r ! index)) (ds ! index)) (exec_code h (code r) \<sigma>0))"
  unfolding values_ok_def
proof (intro conjI allI impI)
  have index: "index < length ds" using inv by (simp add: resolver_inv_def)
  have v: "\<And>j. j < length ds \<Longrightarrow> exec_code h (code r) \<sigma>0
      (if source (moves r ! j) = NoLocation then ds ! j else source (moves r ! j)) = vs ! j"
    "\<And>l. \<forall>d\<in>set ds. \<not> overlap l d \<Longrightarrow> exec_code h (code r) \<sigma>0 l = \<sigma>0 l"
    using inv by (simp_all add: resolver_inv_def values_ok_def)
  note locs = inv_locations [OF inv] resolver_inv_dests(1) [OF inv]
  fix j assume j: "j < length ds"
  show "exec_one h (Move (source (moves r ! index)) (ds ! index)) (exec_code h (code r) \<sigma>0)
      (if source (ms ! j) = NoLocation then ds ! j else source (ms ! j)) = vs ! j"
    using v(1) [OF j] v(1) [OF index] j index s free [OF j] elim ms [of j] locs(1,2) [OF j] locs(3) [OF j]
      locs(1) [OF index] locs(4) [OF j index]
    by (cases "j = index") (auto simp: exec_move_at)
next
  fix l assume "\<forall>d\<in>set ds. \<not> overlap l d"
  moreover from this have "\<not> overlap l (ds ! index)" using inv nth_mem [of index ds] by (simp add: resolver_inv_def)
  ultimately show "exec_one h (Move (source (moves r ! index)) (ds ! index)) (exec_code h (code r) \<sigma>0) l = \<sigma>0 l"
    using inv by (simp add: resolver_inv_def values_ok_def exec_one_other)
qed

lemma finish_redundant:
  assumes inv: "resolver_inv h U ds vs \<sigma>0 (index # ps) r" and eq: "source (moves r ! index) = ds ! index"
  shows "\<exists>r'. finish_move index (ds ! index) r = Some r' \<and> resolver_inv h U ds vs \<sigma>0 ps r' \<and>
    call_post ds ps r r' \<and> source (moves r' ! index) = NoLocation"
proof -
  have i: "index < length (moves r)" "length (moves r) = length ds"
    using inv by (simp_all add: resolver_inv_def)
  let ?r = "set_move index (Eliminate (moves r ! index)) (set_move index ((moves r ! index)\<lparr>destination := ds ! index\<rparr>) r)"
  have m: "moves ?r ! j = (if j = index then Eliminate (moves r ! index) else moves r ! j)" for j
    using i by (simp add: Eliminate_def)
  have "values_ok ds vs \<sigma>0 (moves ?r) (exec_code h (code ?r) \<sigma>0)"
    using inv i eq unfolding m values_ok_def resolver_inv_def by (auto simp: Eliminate_def split: if_splits)
  moreover have "finish_move index (ds ! index) r = Some ?r"
    using i eq pending_index [OF inv] by (simp add: finish_move_def ClearPending_def Eliminate_def)
  ultimately show ?thesis using pop_same_sources [OF inv, of ?r] m i by (auto simp: Eliminate_def)
qed

lemma finish_unblocked:
  assumes inv: "resolver_inv h U ds vs \<sigma>0 (index # ps) r"
    and free: "\<And>j. j < length ds \<Longrightarrow> source (moves r ! j) \<noteq> ds ! index"
  shows "\<exists>r'. finish_move index (ds ! index) r = Some r' \<and> resolver_inv h U ds vs \<sigma>0 ps r' \<and>
    call_post ds ps r r' \<and> source (moves r' ! index) = NoLocation"
proof -
  have i: "index < length (moves r)" "length (moves r) = length ds"
    using inv by (simp_all add: resolver_inv_def)
  let ?r1 = "set_move index ((moves r ! index)\<lparr>destination := ds ! index\<rparr>) r"
  let ?r = "set_move index (Eliminate (moves r ! index)) (EmitMove index ?r1)"
  let ?\<sigma> = "exec_code h (code r) \<sigma>0"
  have m: "moves ?r ! j = (if j = index then Eliminate (moves r ! index) else moves r ! j)" for j
    using i by (simp add: Eliminate_def)
  have "find (\<lambda>m. does_block m (ds ! index)) (moves ?r1) = None"
    using free i by (auto simp: find_None_iff does_block_def in_set_conv_nth)
  then have "finish_move index (ds ! index) r = Some ?r"
    using i free [of index] pending_index [OF inv] do_swap_checked [OF cleared_operands_ok [OF inv]]
    by (simp add: finish_move_def ClearPending_def Eliminate_def)
  moreover have c: "exec_code h (code ?r) \<sigma>0 = exec_one h (Move (source (moves r ! index)) (ds ! index)) ?\<sigma>"
    using i by (simp add: EmitMove_def)
  have s: "source (moves r ! index) \<noteq> NoLocation" using inv i by (auto simp: resolver_inv_def move_ok_def)
  have "values_ok ds vs \<sigma>0 (moves ?r) (exec_code h (code ?r) \<sigma>0)"
    unfolding c m by (rule values_ok_move [OF inv s free]) (use i in \<open>simp_all add: Eliminate_def\<close>)
  ultimately show ?thesis using pop_same_sources [OF inv, of ?r] m i by (auto simp: Eliminate_def)
qed

text \<open>The swap: the blocking move is the outermost pending one, and the source of the move is the
  destination of a pending move.\<close>

definition swap_loc :: "Location \<Rightarrow> Location \<Rightarrow> Location \<Rightarrow> Location" where
  "swap_loc s d l = (if l = s then d else if l = d then s else l)"

lemma source_swapped:
  "s \<noteq> NoLocation \<Longrightarrow> d \<noteq> NoLocation \<Longrightarrow> source (swapped s d m) = swap_loc s d (source m)"
  by (auto simp: swapped_def swap_loc_def does_block_def)

lemma destination_swapped [simp]: "destination (swapped s d m) = destination m"
  by (simp add: swapped_def)

lemma exec_swap:
  "separate U \<Longrightarrow> s \<in> U \<Longrightarrow> d \<in> U \<Longrightarrow> l \<in> U \<Longrightarrow> exec_one h (Swap s d) \<sigma> (swap_loc s d l) = \<sigma> l"
  by (simp add: swap_loc_def exec_swap_at)

lemma values_ok_swap:
  assumes ok: "values_ok ds vs \<sigma>0 ms \<sigma>" and index: "index < length ds" "source (ms ! index) = s"
    and ne: "s \<noteq> NoLocation" "ds ! index \<noteq> NoLocation"
    and dist: "\<And>j. j < length ds \<Longrightarrow> ds ! j = ds ! index \<Longrightarrow> j = index"
    and eliminated: "\<And>j. j < length ds \<Longrightarrow> source (ms ! j) = NoLocation \<Longrightarrow> ds ! j \<noteq> s"
    and s: "s \<in> set ds"
    and U: "separate U" "set ds \<subseteq> U" "\<And>j. j < length ds \<Longrightarrow> source (ms ! j) \<noteq> NoLocation \<Longrightarrow> source (ms ! j) \<in> U"
    and elim: "source (ms' ! index) = NoLocation"
    and src: "\<And>j. j < length ds \<Longrightarrow> j \<noteq> index \<Longrightarrow>
      source (ms' ! j) = swap_loc s (ds ! index) (source (ms ! j))"
  shows "values_ok ds vs \<sigma>0 ms' (exec_one h (Swap s (ds ! index)) \<sigma>)"
  unfolding values_ok_def
proof (intro conjI allI impI)
  have v: "\<And>j. j < length ds \<Longrightarrow>
      \<sigma> (if source (ms ! j) = NoLocation then ds ! j else source (ms ! j)) = vs ! j"
    using ok by (simp add: values_ok_def)
  have sU: "s \<in> U" "ds ! index \<in> U" using U(2) s index by auto
  fix j assume j: "j < length ds"
  then have jU: "ds ! j \<in> U" using U(2) by auto
  show "exec_one h (Swap s (ds ! index)) \<sigma>
     (if source (ms' ! j) = NoLocation then ds ! j else source (ms' ! j)) = vs ! j"
  proof (cases "j = index")
    case True
    then show ?thesis using v [OF j] ne index elim by (simp add: exec_swap_at [OF U(1) sU(2,2,1)])
  next
    case other: False
    show ?thesis
    proof (cases "source (ms ! j) = NoLocation")
      case True
      then have "ds ! j \<noteq> s" "ds ! j \<noteq> ds ! index" using eliminated dist other j by auto
      moreover have "source (ms' ! j) = NoLocation"
        using src [OF j other] True ne by (simp add: swap_loc_def)
      ultimately show ?thesis using v [OF j] True by (simp add: exec_swap_at [OF U(1) jU sU(2,1)])
    next
      case False
      then have "source (ms' ! j) \<noteq> NoLocation"
        using src [OF j other] ne by (simp add: swap_loc_def)
      then show ?thesis using v [OF j] False src [OF j other] by (simp add: exec_swap [OF U(1) sU U(3) [OF j False]])
    qed
  qed
next
  fix l assume "\<forall>d\<in>set ds. \<not> overlap l d"
  moreover from this have "\<not> overlap l s" "\<not> overlap l (ds ! index)" using s index by auto
  ultimately show "exec_one h (Swap s (ds ! index)) \<sigma> l = \<sigma>0 l"
    using ok by (simp add: values_ok_def exec_one_other)
qed

lemma pop_swapped_sources:
  assumes inv: "resolver_inv h U ds vs \<sigma>0 (index # ps) r"
    and blocking: "\<And>j. j < length ds \<Longrightarrow> source (moves r ! j) = ds ! index \<Longrightarrow> j \<in> set ps"
    and ps: "ps \<noteq> []"
    and len: "length (moves r') = length ds"
    and elim: "moves r' ! index = Eliminate (moves r ! index)"
    and m: "\<And>j. j < length ds \<Longrightarrow> j \<noteq> index \<Longrightarrow>
      moves r' ! j = swapped (source (moves r ! index)) (ds ! index) (moves r ! j)"
    and code: "exec_code h (code r') \<sigma>0 =
      exec_one h (Swap (source (moves r ! index)) (ds ! index)) (exec_code h (code r) \<sigma>0)"
  shows "resolver_inv h U ds vs \<sigma>0 ps r' \<and> call_post ds ps r r' \<and> source (moves r' ! index) = NoLocation"
proof (intro conjI)
  let ?s = "source (moves r ! index)" and ?d = "ds ! index" and ?p = "hd ps"
  have i: "index < length ds" "index \<notin> set ps" "set ps \<subseteq> {..<length ds}" "distinct ps" "NoLocation \<notin> set ds"
    using inv by (simp_all add: resolver_inv_def)
  have p: "?p \<in> set ps" "?p < length ds" "?p \<noteq> index" using ps i by (auto simp: subset_iff)
  have s: "?s = ds ! ?p" by (rule pending_source_is_pending_dest [OF inv ps])
  have ne: "?s \<noteq> NoLocation" "?d \<noteq> NoLocation"
    unfolding s using i p nth_mem [of _ ds] by metis+
  note ds_eq = resolver_inv_dests(1) [OF inv]
  have src: "source (moves r' ! j) = swap_loc ?s ?d (source (moves r ! j))" if "j < length ds" "j \<noteq> index" for j
    using m [OF that] by (simp add: source_swapped ne)
  have elim_src: "source (moves r ! j) \<noteq> NoLocation" if "j \<in> set ps" for j
    using inv that i by (auto simp: resolver_inv_def move_ok_def)
  show "source (moves r' ! index) = NoLocation" by (simp add: elim Eliminate_def)
  show "call_post ds ps r r'"
    unfolding call_post_def
  proof (intro allI impI)
    fix j assume j: "j < length ds"
    show "(source (moves r ! j) = NoLocation \<longrightarrow> source (moves r' ! j) = NoLocation) \<and>
        (source (moves r ! j) \<notin> set ds \<longrightarrow>
           source (moves r' ! j) = source (moves r ! j) \<or> source (moves r' ! j) = NoLocation) \<and>
        (j \<notin> set ps \<longrightarrow> source (moves r' ! j) \<noteq> NoLocation \<longrightarrow>
           source (moves r' ! j) = source (moves r ! j) \<or> source (moves r' ! j) \<notin> (!) ds ` set ps)"
    proof (cases "j = index")
      case True
      then show ?thesis by (simp add: elim Eliminate_def)
    next
      case False
      have "?d \<notin> (!) ds ` set ps" using i ds_eq by (auto simp: subset_iff)
      moreover have "?s \<in> set ds" "?d \<in> set ds" unfolding s using i p by simp_all
      ultimately show ?thesis
        using src [OF j False] ne blocking [OF j] by (auto simp: swap_loc_def)
    qed
  qed
  show "resolver_inv h U ds vs \<sigma>0 ps r'"
  proof (rule resolver_inv_popI [OF inv len elim])
    show "values_ok ds vs \<sigma>0 (moves r') (exec_code h (code r') \<sigma>0)"
      unfolding code
    proof (rule values_ok_swap [where ms = "moves r" and index = index and U = U])
      show "ds ! j \<noteq> ?s" if "j < length ds" "source (moves r ! j) = NoLocation" for j
        unfolding s using elim_src p that ds_eq by metis
      show "?s \<in> set ds" unfolding s using p by simp
      show "source (moves r ! j) \<in> U" if "j < length ds" "source (moves r ! j) \<noteq> NoLocation" for j
        using inv_locations(2) [OF inv] that by blast
    qed (use inv ne i src elim ds_eq in \<open>auto simp: resolver_inv_def Eliminate_def\<close>)
  next
    fix x y assume x: "x \<in> set (butlast ps)" and y: "y \<in> set (tl ps)" and e: "source (moves r ! x) = ds ! y"
    have "y \<noteq> ?p" using y i(4) ps by (cases ps) auto
    moreover have "y < length ds" "y \<noteq> index" using y i by (auto dest: list.set_sel(2) [OF ps])
    ultimately have "ds ! y \<noteq> ?s" "ds ! y \<noteq> ?d" unfolding s using ds_eq p i by simp_all
    moreover have "x < length ds" "x \<noteq> index" using in_set_butlastD [OF x] i by auto
    ultimately show "source (moves r' ! x) = ds ! y" using src e by (simp add: swap_loc_def)
  next
    fix j assume j: "j < length ds" "j \<notin> set (index # ps)" "source (moves r ! j) \<noteq> NoLocation"
    then have "source (moves r ! j) \<noteq> ds ! j" "source (moves r ! j) \<noteq> ?d"
      using inv blocking by (auto simp: resolver_inv_def move_ok_def)
    moreover have "?d \<noteq> ds ! j" using ds_eq j i by auto
    ultimately show "source (moves r' ! j) \<noteq> ds ! j" using src j by (simp add: swap_loc_def)
  next
    fix j assume j: "j < length ds" "j \<noteq> index" "source (moves r' ! j) \<noteq> NoLocation"
    then show "source (moves r' ! j) \<in> U"
      using src [OF j(1,2)] inv_locations(1,2) [OF inv i(1)] inv_locations(2) [OF inv j(1)] ne by (auto simp: swap_loc_def)
  qed (use ne m src in \<open>simp_all add: swap_loc_def\<close>)
qed

lemma finish_blocked:
  assumes inv: "resolver_inv h U ds vs \<sigma>0 (index # ps) r"
    and blocking: "\<And>j. j < length ds \<Longrightarrow> source (moves r ! j) = ds ! index \<Longrightarrow> j \<in> set ps"
    and k: "k < length ds" "source (moves r ! k) = ds ! index"
  shows "\<exists>r'. finish_move index (ds ! index) r = Some r' \<and> resolver_inv h U ds vs \<sigma>0 ps r' \<and>
    call_post ds ps r r' \<and> source (moves r' ! index) = NoLocation"
proof -
  have i: "index < length ds" "length (moves r) = length ds" "index \<notin> set ps"
    using inv by (simp_all add: resolver_inv_def)
  have ne: "ds ! index \<noteq> NoLocation" using resolver_inv_dests(2) [OF inv, of index index] i by simp
  have ps: "ps \<noteq> []" using blocking [OF k] by auto
  have s: "source (moves r ! index) \<noteq> ds ! index" using blocking [OF i(1)] i by blast
  let ?r1 = "set_move index ((moves r ! index)\<lparr>destination := ds ! index\<rparr>) r"
  let ?s = "source (moves r ! index)"
  have src1: "source (moves ?r1 ! j) = source (moves r ! j)" for j using i by simp
  obtain m where m: "find (\<lambda>m. does_block m (ds ! index)) (moves ?r1) = Some m"
  proof (cases "find (\<lambda>m. does_block m (ds ! index)) (moves ?r1)")
    case None
    then have "\<not> does_block (moves ?r1 ! k) (ds ! index)"
      using k i by (metis find_None_iff length_set_move nth_mem)
    then show ?thesis using k ne src1 [of k] by (simp add: does_block_def)
  qed (rule that)
  then obtain j where j: "j < length ds" "m = moves ?r1 ! j" "source m = ds ! index"
    using i(2) by (auto simp: find_Some_iff does_block_def)
  then have "j \<in> set ps" using blocking [of j] src1 [of j] by simp
  then have pend: "is_pending m"
    using pending_iff [OF inv, of j] j i by auto
  let ?r2 = "set_move index (Eliminate (moves r ! index)) (EmitSwap index ?r1)"
  let ?r = "?r2\<lparr>moves := map (swapped ?s (ds ! index)) (moves ?r2)\<rparr>"
  have "finish_move index (ds ! index) r = Some ?r"
    using m pend i s pending_index [OF inv] do_swap_checked [OF cleared_operands_ok [OF inv]]
      swap_sources_checked [OF eliminated_operands_ok [OF inv]]
    by (simp add: finish_move_def ClearPending_def Eliminate_def Let_def)
  moreover have "resolver_inv h U ds vs \<sigma>0 ps ?r \<and> call_post ds ps r ?r \<and> source (moves ?r ! index) = NoLocation"
  proof (rule pop_swapped_sources [OF inv blocking ps])
    show "moves ?r ! index = Eliminate (moves r ! index)"
      using i by (simp add: swapped_def does_block_def Eliminate_def)
    show "exec_code h (code ?r) \<sigma>0 = exec_one h (Swap ?s (ds ! index)) (exec_code h (code r) \<sigma>0)"
      using i by (simp add: EmitSwap_def)
  qed (use i in simp_all)
  ultimately show ?thesis by blast
qed

lemma finish_move_spec:
  assumes inv: "resolver_inv h U ds vs \<sigma>0 (index # ps) r"
    and blocking: "\<And>j. j < length ds \<Longrightarrow> source (moves r ! j) = ds ! index \<Longrightarrow> j \<in> set (index # ps)"
  shows "\<exists>r'. finish_move index (ds ! index) r = Some r' \<and> resolver_inv h U ds vs \<sigma>0 ps r' \<and>
    call_post ds ps r r' \<and> source (moves r' ! index) = NoLocation"
proof (cases "source (moves r ! index) = ds ! index")
  case True
  then show ?thesis by (rule finish_redundant [OF inv])
next
  case False
  then have b: "j \<in> set ps" if "j < length ds" "source (moves r ! j) = ds ! index" for j
    using blocking [OF that] that by auto
  show ?thesis
  proof (cases "\<exists>k<length ds. source (moves r ! k) = ds ! index")
    case True
    then show ?thesis using finish_blocked [OF inv b] by blast
  next
    case False
    then show ?thesis using finish_unblocked [OF inv] by blast
  qed
qed

section \<open>The recursion\<close>

text \<open>The bodies of the loops, with the calls as arguments.\<close>

definition blocking_step :: "Location \<Rightarrow> (nat \<Rightarrow> resolver \<Rightarrow> resolver option) \<Rightarrow> nat \<Rightarrow> resolver \<Rightarrow> resolver option" where
  "blocking_step dest f = (\<lambda>i r. do {
     does_block \<leftarrow> Blocks (moves r ! i) dest;
     if does_block then do {
       is_pending \<leftarrow> IsPending (moves r ! i);
       if is_pending then Some r else f i r
     } else Some r
   })"

definition first_step :: "(nat \<Rightarrow> resolver \<Rightarrow> resolver option) \<Rightarrow> nat \<Rightarrow> resolver \<Rightarrow> resolver option" where
  "first_step f = (\<lambda>i r. do {
     eliminated \<leftarrow> IsEliminated (moves r ! i);
     if \<not> eliminated \<and> \<not> IsConstant (source (moves r ! i)) then f i r else Some r
   })"

definition second_step :: "nat \<Rightarrow> resolver \<Rightarrow> resolver option" where
  "second_step = (\<lambda>i r. do {
     eliminated \<leftarrow> IsEliminated (moves r ! i);
     if \<not> eliminated
     then if IsConstant (source (moves r ! i)) then Some (EmitMove i r) else None
     else Some r
   })"

lemma for_each_blocking:
  assumes inv: "resolver_inv h U ds vs \<sigma>0 (index # ps) r" and xs: "set xs \<subseteq> {..<length ds}"
    and step: "\<And>i r. resolver_inv h U ds vs \<sigma>0 (index # ps) r \<Longrightarrow> i < length ds \<Longrightarrow> i \<notin> set (index # ps) \<Longrightarrow>
      source (moves r ! i) = ds ! index \<Longrightarrow>
      \<exists>r'. f i r = Some r' \<and> resolver_inv h U ds vs \<sigma>0 (index # ps) r' \<and> call_post ds (index # ps) r r' \<and>
        source (moves r' ! i) = NoLocation"
  shows "\<exists>r'. for_each (blocking_step (ds ! index) f) xs r = Some r' \<and>
           resolver_inv h U ds vs \<sigma>0 (index # ps) r' \<and> call_post ds (index # ps) r r' \<and>
           (\<forall>j\<in>set xs. source (moves r' ! j) = ds ! index \<longrightarrow> j \<in> set (index # ps))"
  using inv xs
proof (induction xs arbitrary: r)
  case (Cons x xs)
  let ?ps = "index # ps"
  have x: "x < length ds" and index: "index < length ds"
    using Cons.prems by (simp_all add: resolver_inv_def)
  have ne: "ds ! index \<noteq> NoLocation" by (rule resolver_inv_dests(2) [OF Cons.prems(1) index index])
  have pend: "is_pending (moves r ! x) \<longleftrightarrow> x \<in> set ?ps" by (rule pending_iff [OF Cons.prems(1) x])
  let ?c = "does_block (moves r ! x) (ds ! index) \<and> \<not> is_pending (moves r ! x)"
  have step_eq: "blocking_step (ds ! index) f x r = (if ?c then f x r else Some r)"
    using inv_operands_ok [OF Cons.prems(1) x] by (simp add: blocking_step_def)
  have "\<exists>r1. (if ?c then f x r else Some r) = Some r1 \<and> resolver_inv h U ds vs \<sigma>0 ?ps r1 \<and> call_post ds ?ps r r1 \<and>
      (source (moves r1 ! x) = ds ! index \<longrightarrow> x \<in> set ?ps)"
  proof (cases ?c)
    case True
    then have "x \<notin> set ?ps" "source (moves r ! x) = ds ! index" using pend by (simp_all add: does_block_def)
    then show ?thesis using step [OF Cons.prems(1) x] True ne by fastforce
  next
    case False
    then have "source (moves r ! x) = ds ! index \<longrightarrow> x \<in> set ?ps"
      using pend ne by (auto simp: does_block_def)
    with False Cons.prems(1) show ?thesis by auto
  qed
  then obtain r1 where r1: "(if ?c then f x r else Some r) = Some r1" "resolver_inv h U ds vs \<sigma>0 ?ps r1"
      "call_post ds ?ps r r1" "source (moves r1 ! x) = ds ! index \<longrightarrow> x \<in> set ?ps" by blast
  obtain r' where r': "for_each (blocking_step (ds ! index) f) xs r1 = Some r'" "resolver_inv h U ds vs \<sigma>0 ?ps r'" "call_post ds ?ps r1 r'"
      "\<forall>j\<in>set xs. source (moves r' ! j) = ds ! index \<longrightarrow> j \<in> set ?ps"
    using Cons.IH [OF r1(2)] Cons.prems(2) by auto
  have "x \<in> set ?ps" if a: "source (moves r' ! x) = ds ! index"
  proof (rule ccontr)
    assume out: "x \<notin> set ?ps"
    have "source (moves r' ! x) = source (moves r1 ! x) \<or> source (moves r' ! x) \<notin> (!) ds ` set ?ps"
      using r'(3) x out a ne unfolding call_post_def by metis
    with a have "source (moves r1 ! x) = ds ! index" by auto
    with r1(4) out show False by blast
  qed
  moreover have "call_post ds ?ps r r'" by (rule call_post_trans [OF r1(3) r'(3)])
  ultimately show ?case using r1(1) r'(1,2,4) by (auto simp: step_eq)
qed simp

lemma PerformMove_spec:
  assumes "resolver_inv h U ds vs \<sigma>0 ps r" "index < length ds" "index \<notin> set ps"
    "source (moves r ! index) \<noteq> NoLocation" "ps \<noteq> [] \<Longrightarrow> source (moves r ! index) = ds ! hd ps"
    "length ds \<le> length ps + fuel"
  shows "\<exists>r'. PerformMove fuel index r = Some r' \<and> resolver_inv h U ds vs \<sigma>0 ps r' \<and>
    call_post ds ps r r' \<and> source (moves r' ! index) = NoLocation"
  using assms
proof (induction fuel arbitrary: ps index r)
  case 0
  have "card (set (index # ps)) \<le> card {..<length ds}"
    using 0 by (intro card_mono) (auto simp: resolver_inv_def)
  moreover have "distinct (index # ps)" using 0 by (simp add: resolver_inv_def)
  ultimately show ?case using 0 distinct_card [of "index # ps"] by simp
next
  case (Suc fuel)
  let ?r = "set_move index ((moves r ! index)\<lparr>destination := NoLocation\<rparr>) r"
  have mk: "resolver_inv h U ds vs \<sigma>0 (index # ps) ?r" by (rule mark_pending_inv) (use Suc.prems in auto)
  have len: "length (moves r) = length ds" using Suc.prems(1) by (rule resolver_inv_length)
  have d: "destination (moves r ! index) = ds ! index" "\<not> is_pending (moves r ! index)"
      "\<not> is_redundant (moves r ! index)" "operands_ok (moves r ! index)"
    using Suc.prems resolver_inv_dests [OF Suc.prems(1), of index index]
      inv_operands_ok [OF Suc.prems(1,2)]
    by (auto simp: resolver_inv_def move_ok_def is_pending_def is_redundant_def)
  obtain r1 where r1: "for_each (blocking_step (ds ! index) (PerformMove fuel)) [0..<length ds] ?r = Some r1"
      "resolver_inv h U ds vs \<sigma>0 (index # ps) r1" "call_post ds (index # ps) ?r r1"
      "\<forall>j\<in>set [0..<length ds]. source (moves r1 ! j) = ds ! index \<longrightarrow> j \<in> set (index # ps)"
  proof (atomize_elim, rule for_each_blocking [OF mk])
    fix i r assume r: "resolver_inv h U ds vs \<sigma>0 (index # ps) r" "i < length ds" "i \<notin> set (index # ps)"
      "source (moves r ! i) = ds ! index"
    show "\<exists>r'. PerformMove fuel i r = Some r' \<and> resolver_inv h U ds vs \<sigma>0 (index # ps) r' \<and>
        call_post ds (index # ps) r r' \<and> source (moves r' ! i) = NoLocation"
      by (rule Suc.IH [OF r(1-3)])
        (use r resolver_inv_dests(2) [OF r(1), of index index] Suc.prems in simp_all)
  qed auto
  obtain r' where r': "finish_move index (ds ! index) r1 = Some r'" "resolver_inv h U ds vs \<sigma>0 ps r'"
      "call_post ds ps r1 r'" "source (moves r' ! index) = NoLocation"
    using finish_move_spec [OF r1(2)] r1(4) by auto
  have "call_post ds ps r r'"
  proof -
    have "call_post ds (index # ps) r ?r"
      using len Suc.prems(2) by (simp add: call_post_def)
    then have "call_post ds (index # ps) r r1" using r1(3) call_post_trans by blast
    then show ?thesis by (rule call_post_pop [OF _ r'(3,4)])
  qed
  then show ?case
    using r' r1(1) d len Suc.prems(4) by (simp add: MarkPending_def blocking_step_def)
qed

section \<open>The whole sequence\<close>

lemma perform_all:
  assumes "resolver_inv h U ds vs \<sigma>0 [] r" "set xs \<subseteq> {..<length ds}" "\<forall>d\<in>set ds. \<not> IsConstant d"
  shows "\<exists>r'. for_each (first_step (PerformMove (length ds))) xs r = Some r' \<and>
           resolver_inv h U ds vs \<sigma>0 [] r' \<and> call_post ds [] r r' \<and>
           (\<forall>j\<in>set xs. source (moves r' ! j) = NoLocation \<or> IsConstant (source (moves r' ! j)))"
  using assms(1,2)
proof (induction xs arbitrary: r)
  case (Cons x xs)
  let ?c = "source (moves r ! x) \<noteq> NoLocation \<and> \<not> IsConstant (source (moves r ! x))"
  have step_eq: "first_step f x r = (if ?c then f x r else Some r)" for f
    using inv_operands_ok [OF Cons.prems(1), of x] Cons.prems(2) by (simp add: first_step_def)
  have "\<exists>r1. (if ?c then PerformMove (length ds) x r else Some r) = Some r1 \<and> resolver_inv h U ds vs \<sigma>0 [] r1 \<and>
      call_post ds [] r r1 \<and> (source (moves r1 ! x) = NoLocation \<or> IsConstant (source (moves r1 ! x)))"
  proof (cases ?c)
    case True
    then show ?thesis
      using PerformMove_spec [OF Cons.prems(1), of x "length ds"] Cons.prems(2) by auto
  next
    case False
    with Cons.prems show ?thesis by auto
  qed
  then obtain r1 where r1: "(if ?c then PerformMove (length ds) x r else Some r) = Some r1"
      "resolver_inv h U ds vs \<sigma>0 [] r1" "call_post ds [] r r1"
      "source (moves r1 ! x) = NoLocation \<or> IsConstant (source (moves r1 ! x))" by blast
  obtain r' where r': "for_each (first_step (PerformMove (length ds))) xs r1 = Some r'"
      "resolver_inv h U ds vs \<sigma>0 [] r'" "call_post ds [] r1 r'"
      "\<forall>j\<in>set xs. source (moves r' ! j) = NoLocation \<or> IsConstant (source (moves r' ! j))"
    using Cons.IH [OF r1(2)] Cons.prems(2) by auto
  have "source (moves r' ! x) = NoLocation \<or> IsConstant (source (moves r' ! x))"
    using r1(4) r'(3) Cons.prems(2) assms(3) unfolding call_post_def by (metis insert_subset lessThan_iff list.simps(15))
  moreover have "call_post ds [] r r'" by (rule call_post_trans [OF r1(3) r'(3)])
  ultimately show ?case using r1(1) r'(1,2,4) by (auto simp: step_eq)
qed simp

lemma emit_constants:
  assumes "set xs \<subseteq> {..<length ds}" "distinct xs" "distinct ds" "separate U" "set ds \<subseteq> U"
    and ms: "\<And>i. i < length ds \<Longrightarrow> source (moves r ! i) = NoLocation \<and> operands_ok (moves r ! i) \<or>
      IsConstant (source (moves r ! i)) \<and> source (moves r ! i) \<noteq> NoLocation \<and> source (moves r ! i) \<in> U - set ds \<and>
      destination (moves r ! i) = ds ! i"
  shows "\<exists>r'. for_each second_step xs r = Some r' \<and> moves r' = moves r \<and>
           (\<forall>i\<in>set xs. source (moves r ! i) \<noteq> NoLocation \<longrightarrow>
              exec_code h (code r') \<sigma> (ds ! i) = exec_code h (code r) \<sigma> (source (moves r ! i))) \<and>
           (\<forall>l. (\<forall>i\<in>set xs. source (moves r ! i) \<noteq> NoLocation \<longrightarrow> \<not> overlap l (ds ! i)) \<longrightarrow>
              exec_code h (code r') \<sigma> l = exec_code h (code r) \<sigma> l)"
  using assms
proof (induction xs arbitrary: r)
  case (Cons x xs)
  have x: "x < length ds" "x \<notin> set xs" "distinct xs" "set xs \<subseteq> {..<length ds}" using Cons.prems by auto
  have dU: "ds ! i \<in> U" if "i < length ds" for i using that Cons.prems(5) by auto
  show ?case
  proof (cases "source (moves r ! x) = NoLocation")
    case True
    then have "second_step x r = Some r" using Cons.prems(6) [OF x(1)] by (auto simp: second_step_def)
    with True show ?thesis using Cons.IH [OF x(4,3) Cons.prems(3-6)] by simp
  next
    case False
    let ?s = "source (moves r ! x)" and ?\<sigma> = "exec_code h (code r) \<sigma>" and ?r = "EmitMove x r"
    have s: "IsConstant ?s" "?s \<in> U - set ds" "destination (moves r ! x) = ds ! x"
      using Cons.prems(6) [OF x(1)] False by auto
    have step: "second_step x r = Some ?r" using s False by (simp add: second_step_def operands_ok_def)
    have c: "exec_code h (code ?r) \<sigma> = exec_one h (Move ?s (ds ! x)) ?\<sigma>" using s by (simp add: EmitMove_def)
    obtain r' where r': "for_each second_step xs ?r = Some r'" "moves r' = moves r"
      "\<forall>i\<in>set xs. source (moves r ! i) \<noteq> NoLocation \<longrightarrow>
         exec_code h (code r') \<sigma> (ds ! i) = exec_code h (code ?r) \<sigma> (source (moves r ! i))"
      "\<forall>l. (\<forall>i\<in>set xs. source (moves r ! i) \<noteq> NoLocation \<longrightarrow> \<not> overlap l (ds ! i)) \<longrightarrow>
         exec_code h (code r') \<sigma> l = exec_code h (code ?r) \<sigma> l"
      using Cons.IH [of ?r, OF x(4,3) Cons.prems(3-5)] Cons.prems(6) by auto
    have i: "source (moves r ! i) \<noteq> NoLocation \<Longrightarrow> source (moves r ! i) \<in> U - set ds" "ds ! x \<noteq> ds ! i" "i < length ds"
      if "i \<in> set xs" for i
      using that x Cons.prems(3,6) by (force simp: nth_eq_iff_index_eq)+
    have at: "exec_code h (code ?r) \<sigma> l = (if l = ds ! x then ?\<sigma> ?s else ?\<sigma> l)" if "l \<in> U" for l
      unfolding c by (rule exec_move_at [OF Cons.prems(4) that dU [OF x(1)]])
    have "\<not> overlap (ds ! x) (ds ! i)" if "i \<in> set xs" for i
      using separateD [OF Cons.prems(4) dU [OF x(1)] dU [OF i(3)]] i(2) that by simp
    then have "exec_code h (code r') \<sigma> (ds ! x) = ?\<sigma> ?s" using r'(4) at [OF dU [OF x(1)]] by simp
    moreover have "exec_code h (code r') \<sigma> (ds ! j) = ?\<sigma> (source (moves r ! j))"
      if j: "j \<in> set xs" "source (moves r ! j) \<noteq> NoLocation" for j
      using r'(3) i(1) [OF j] at [of "source (moves r ! j)"] j x(1) by auto
    moreover have "exec_code h (code r') \<sigma> l = ?\<sigma> l"
      if "\<forall>i\<in>set (x # xs). source (moves r ! i) \<noteq> NoLocation \<longrightarrow> \<not> overlap l (ds ! i)" for l
      using r'(4) that False by (simp add: c exec_one_other)
    ultimately show ?thesis using r'(1,2) False step by simp
  qed
qed simp

text \<open>The locations of the moves that are not redundant.\<close>

definition move_locations :: "MoveOperands list \<Rightarrow> Location set" where
  "move_locations ms = source ` set ms \<union> destination ` set ms"

lemma initial_inv:
  assumes "distinct (map destination js)" "separate (move_locations js)" "\<forall>m\<in>set js. \<not> is_redundant m"
  shows "resolver_inv h (move_locations js) (map destination js) (map (\<lambda>m. \<sigma>0 (source m)) js) \<sigma>0 []
    \<lparr>moves = js, code = []\<rparr>"
proof -
  have "\<not> is_redundant (js ! i)" if "i < length js" for i using that assms(3) by simp
  moreover from assms(3) have "NoLocation \<notin> set (map destination js)" by (auto simp: is_redundant_def)
  ultimately show ?thesis
    using assms(1,2)
    by (auto simp: resolver_inv_def move_ok_def values_ok_def exec_code_def is_redundant_def move_locations_def)
qed

lemma EmitNativeCode_spec:
  assumes ok: "\<forall>m\<in>set ms. operands_ok m"
    and js: "js = filter (\<lambda>m. \<not> is_redundant m) ms"
    and dist: "distinct (map destination js)" and sep: "separate (move_locations js)"
    and con: "\<forall>m\<in>set ms. \<not> IsConstant (destination m)"
  shows "\<exists>is. EmitNativeCode ms = Some is \<and>
    (\<forall>m\<in>set js. exec_code h is \<sigma> (destination m) = \<sigma> (source m)) \<and>
    (\<forall>l. (\<forall>d\<in>set (map destination js). \<not> overlap l d) \<longrightarrow> exec_code h is \<sigma> l = \<sigma> l)"
proof -
  let ?ds = "map destination js" and ?vs = "map (\<lambda>m. \<sigma> (source m)) js" and ?U = "move_locations js"
  let ?r0 = "\<lparr>moves = js, code = []\<rparr>"
  have nc: "\<forall>d\<in>set ?ds. \<not> IsConstant d" using con js by auto
  have inv: "resolver_inv h ?U ?ds ?vs \<sigma> [] ?r0" by (rule initial_inv [OF dist sep]) (simp add: js)
  have up: "set [0..<length ?ds] \<subseteq> {..<length ?ds}" by auto
  obtain r1 where r1: "for_each (first_step (PerformMove (length ?ds))) [0..<length ?ds] ?r0 = Some r1"
    "resolver_inv h ?U ?ds ?vs \<sigma> [] r1"
    "\<forall>j\<in>set [0..<length ?ds]. source (moves r1 ! j) = NoLocation \<or> IsConstant (source (moves r1 ! j))"
    using perform_all [OF inv up nc] by blast
  let ?\<sigma> = "exec_code h (code r1) \<sigma>"
  have m1: "source (moves r1 ! i) = NoLocation \<and> operands_ok (moves r1 ! i) \<or>
      IsConstant (source (moves r1 ! i)) \<and> source (moves r1 ! i) \<noteq> NoLocation \<and>
      source (moves r1 ! i) \<in> ?U - set ?ds \<and> destination (moves r1 ! i) = ?ds ! i" if "i < length ?ds" for i
    using r1(2,3) that nc inv_operands_ok [OF r1(2) that] by (auto simp: resolver_inv_def move_ok_def)
  have U: "set ?ds \<subseteq> ?U" by (auto simp: move_locations_def)
  obtain r2 where r2: "for_each second_step [0..<length ?ds] r1 = Some r2"
      "\<forall>i\<in>set [0..<length ?ds]. source (moves r1 ! i) \<noteq> NoLocation \<longrightarrow>
              exec_code h (code r2) \<sigma> (?ds ! i) = ?\<sigma> (source (moves r1 ! i))"
      "\<forall>l. (\<forall>i\<in>set [0..<length ?ds]. source (moves r1 ! i) \<noteq> NoLocation \<longrightarrow> \<not> overlap l (?ds ! i)) \<longrightarrow>
              exec_code h (code r2) \<sigma> l = ?\<sigma> l"
    using emit_constants [OF up distinct_upt dist sep U m1] by blast
  have v: "\<And>i. i < length ?ds \<Longrightarrow>
      ?\<sigma> (if source (moves r1 ! i) = NoLocation then ?ds ! i else source (moves r1 ! i)) = ?vs ! i"
    "\<And>l. \<forall>d\<in>set ?ds. \<not> overlap l d \<Longrightarrow> ?\<sigma> l = \<sigma> l"
    using r1(2) unfolding resolver_inv_def values_ok_def by blast+
  have "exec_code h (code r2) \<sigma> (?ds ! i) = ?vs ! i" if i: "i < length ?ds" for i
  proof (cases "source (moves r1 ! i) = NoLocation")
    case True
    have "\<not> overlap (?ds ! i) (?ds ! j)" if j: "j < length ?ds" "source (moves r1 ! j) \<noteq> NoLocation" for j
    proof -
      have "?ds ! i \<noteq> ?ds ! j" using True j(2) nth_eq_iff_index_eq [OF dist i j(1)] by auto
      moreover have "?ds ! i \<in> ?U" "?ds ! j \<in> ?U" using U i j(1) nth_mem [of _ ?ds] by blast+
      ultimately show ?thesis using separateD [OF sep] by simp
    qed
    then show ?thesis using r2(3) v(1) [OF i] True by simp
  next
    case False
    then show ?thesis using r2(2) v(1) [OF i] i by simp
  qed
  then have "\<forall>m\<in>set js. exec_code h (code r2) \<sigma> (destination m) = \<sigma> (source m)"
    by (auto simp: in_set_conv_nth)
  moreover have "exec_code h (code r2) \<sigma> l = \<sigma> l" if l: "\<forall>d\<in>set ?ds. \<not> overlap l d" for l
  proof -
    have "\<forall>i\<in>set [0..<length ?ds]. source (moves r1 ! i) \<noteq> NoLocation \<longrightarrow> \<not> overlap l (?ds ! i)"
      using l nth_mem [of _ ?ds] by auto
    then show ?thesis using r2(3) v(2) [OF l] by simp
  qed
  moreover have "EmitNativeCode ms = Some (code r2)"
    using r1(1) r2(1) BuildInitialMoveList_checked [OF ok]
    by (simp add: EmitNativeCode_def js first_step_def second_step_def)
  ultimately show ?thesis by blast
qed

text \<open>
  The parallel moves the resolver is made for: an eliminated move has no destination, no two moves
  have the same destination, no destination is a constant, all other locations are registers, pairs
  of registers or stack slots, and two different ones share no register and no stack byte.
\<close>

definition valid_moves :: "MoveOperands list \<Rightarrow> MoveOperands list" where
  "valid_moves ms = filter (\<lambda>m. IsValid (source m) \<and> IsValid (destination m)) ms"

definition parallel_move_ok :: "MoveOperands list \<Rightarrow> bool" where
  "parallel_move_ok ms \<longleftrightarrow> list_all operands_ok ms \<and> distinct (map destination (valid_moves ms)) \<and>
     list_all (\<lambda>m. \<not> IsConstant (destination m)) ms \<and>
     (let ls = remdups (map source (valid_moves ms) @ map destination (valid_moves ms)) in
      list_all (\<lambda>l. IsConstant l \<or> cells l \<noteq> []) ls \<and>
      list_all (\<lambda>a. list_all (\<lambda>b. overlap a b \<longrightarrow> a = b) ls) ls)"

lemma separate_subset: "separate U \<Longrightarrow> V \<subseteq> U \<Longrightarrow> separate V"
  unfolding separate_def by blast

lemma parallel_move_okD:
  assumes "parallel_move_ok ms"
  shows "\<forall>m\<in>set ms. operands_ok m" "\<forall>m\<in>set ms. \<not> IsConstant (destination m)"
    "distinct (map destination (valid_moves ms))" "separate (move_locations (valid_moves ms))"
proof -
  have "separate (set (map source (valid_moves ms) @ map destination (valid_moves ms)))"
    using assms unfolding parallel_move_ok_def Let_def list_all_iff separate_def set_remdups by blast
  moreover have "set (map source (valid_moves ms) @ map destination (valid_moves ms)) = move_locations (valid_moves ms)"
    by (simp add: move_locations_def)
  ultimately show "separate (move_locations (valid_moves ms))" by simp
qed (use assms in \<open>simp_all add: parallel_move_ok_def list_all_iff\<close>)


definition sample_moves :: "MoveOperands list" where
  "sample_moves = map (\<lambda>(s, d). \<lparr>source = RegisterLocation s, destination = RegisterLocation d\<rparr>)
     [(0, 1), (1, 0), (0, 2)] @ [\<lparr>source = ConstantLocation 0x1000, destination = StackSlot 8\<rparr>]"


text \<open>
  The condition on overlapping locations is needed: the resolver compares locations for equality
  only. Here the pair of registers 0 and 1 is written before register 1 is read.
\<close>

definition overlapping_moves :: "MoveOperands list" where
  "overlapping_moves = [\<lparr>source = RegisterPairLocation 2 3, destination = RegisterPairLocation 0 1\<rparr>,
     \<lparr>source = RegisterLocation 1, destination = RegisterLocation 5\<rparr>]"

theorem overlapping_moves_clobber:
  "EmitNativeCode overlapping_moves = Some
     [Move (RegisterPairLocation 2 3) (RegisterPairLocation 0 1), Move (RegisterLocation 1) (RegisterLocation 5)] \<and>
   exec_code (\<lambda>_ _ _. 7) [Move (RegisterPairLocation 2 3) (RegisterPairLocation 0 1),
     Move (RegisterLocation 1) (RegisterLocation 5)] (\<lambda>l. if l = RegisterLocation 1 then 1 else 0)
     (RegisterLocation 5) = (7 :: int)"
proof -
  have "RegisterLocation 1 \<noteq> RegisterPairLocation 0 1"
    "overlap (RegisterLocation 1) (RegisterPairLocation 0 1)" by code_simp+
  moreover have "EmitNativeCode overlapping_moves = Some
     [Move (RegisterPairLocation 2 3) (RegisterPairLocation 0 1), Move (RegisterLocation 1) (RegisterLocation 5)]"
    by code_simp
  ultimately show ?thesis by (simp add: exec_code_def exec_one.simps)
qed

end
