(* ===== verification/Nodes.thy ===== *)
theory Nodes
  imports InterpreterCommon "HOL-Library.Monad_Syntax"
begin

text \<open>
  The intermediate representation of the optimizing compiler, \<^verbatim>\<open>compiler/optimizing/nodes.h\<close> and
  \<^verbatim>\<open>nodes.cc\<close>, as far as its scalar passes touch it: instructions with inputs and environment, basic
  blocks with phis and an instruction list, the graph, and the editing operations on it. An
  instruction is named by its id; the use lists of an instruction are the places where its id
  occurs, so they need no field. The instructions that the passes treat alike (calls, memory accesses,
  parameters) are one constructor with the class of the instruction and a number for its data.

  The second part gives the representation a meaning: a run of the graph over an environment that
  answers calls, loads and floating point operations.
\<close>

section \<open>Instructions, blocks and graphs\<close>

datatype binary_operation = HAdd | HSub | HMul | HDiv | HRem | HShl | HShr | HUShr | HAnd | HOr | HXor
  | HEqual | HNotEqual | HLessThan | HLessThanOrEqual | HGreaterThan | HGreaterThanOrEqual | HCompare

datatype unary_operation = HNeg | HNot

datatype opaque_class = HArrayGet | HArrayLength | HArraySet | HBoundsCheck | HCheckCast | HClinitCheck
  | HDoubleConstant | HFloatConstant | HInstanceFieldGet | HInstanceFieldSet | HInstanceOf
  | HInvokeInterface | HInvokeStatic | HInvokeVirtual | HLoadClass | HLoadException | HLoadLocal
  | HLoadString | HLocal | HMonitorOperation | HNewArray | HNewInstance | HNullCheck | HParallelMove
  | HParameterValue | HStaticFieldGet | HStaticFieldSet | HStoreLocal | HTemporary | HTypeConversion

datatype HKind = IntConstant u32 | LongConstant u64 | BinaryOperation binary_operation
  | UnaryOperation unary_operation | DivZeroCheck | SuspendCheck | Phi
  | HGoto | HIf | HReturn | HReturnVoid | HExit | HThrow
  | Opaque opaque_class nat

record HInstruction =
  hid :: nat
  kind :: HKind
  htype :: Primitive
  hinputs :: "nat list"
  henv :: "nat option list"

record HBasicBlock =
  hphis :: "HInstruction list"
  hinstructions :: "HInstruction list"
  hpredecessors :: "nat list"
  hsuccessors :: "nat list"

record HGraph =
  blocks :: "HBasicBlock list"
  reverse_post_order :: "nat list"
  current_instruction_id :: nat

definition IsControlFlow :: "HInstruction \<Rightarrow> bool" where
  "IsControlFlow inst \<longleftrightarrow> kind inst \<in> {HGoto, HIf, HReturn, HReturnVoid, HExit, HThrow}"

text \<open>\<^verbatim>\<open>class SideEffects\<close>: one bit for changes, one for dependencies.\<close>

definition kFlagChangesCount :: nat where
  "kFlagChangesCount = 1"

definition kFlagDependsOnCount :: nat where
  "kFlagDependsOnCount = 2"

definition ChangesSomething :: u64 where
  "ChangesSomething = shl 1 kFlagChangesCount - 1"

definition DependsOnSomething :: u64 where
  "DependsOnSomething = shl (shl 1 (kFlagDependsOnCount - kFlagChangesCount) - 1) kFlagChangesCount"

definition SideEffects_All :: u64 where
  "SideEffects_All = ChangesSomething OR DependsOnSomething"

definition SideEffects_HasSideEffects :: "u64 \<Rightarrow> bool" where
  "SideEffects_HasSideEffects flags \<longleftrightarrow> flags AND (shl 1 kFlagChangesCount - 1) \<noteq> 0"

text \<open>What the constructors of the classes pass to the constructor of \<^verbatim>\<open>HInstruction\<close>.\<close>

definition class_side_effects :: "opaque_class \<Rightarrow> u64" where
  "class_side_effects c =
     (if c \<in> {HInvokeInterface, HInvokeStatic, HInvokeVirtual, HClinitCheck} then SideEffects_All
      else if c \<in> {HInstanceFieldSet, HArraySet, HStaticFieldSet} then ChangesSomething
      else if c \<in> {HInstanceFieldGet, HArrayGet, HStaticFieldGet} then DependsOnSomething
      else 0)"

definition HasSideEffects :: "HInstruction \<Rightarrow> bool" where
  "HasSideEffects inst =
     SideEffects_HasSideEffects (case kind inst of Opaque c _ \<Rightarrow> class_side_effects c | _ \<Rightarrow> 0)"

text \<open>The classes that override \<^verbatim>\<open>CanThrow\<close>.\<close>

definition CanThrow :: "HInstruction \<Rightarrow> bool" where
  "CanThrow inst =
     (case kind inst of
        DivZeroCheck \<Rightarrow> True
      | Opaque c _ \<Rightarrow> c \<in> {HNewInstance, HNullCheck, HBoundsCheck, HCheckCast, HMonitorOperation}
      | _ \<Rightarrow> False)"

text \<open>The Evaluate methods; \<^const>\<open>None\<close> where the divisor must not be zero.\<close>

definition Evaluate_comparison :: "binary_operation \<Rightarrow> 'a::len word \<Rightarrow> 'a word \<Rightarrow> 'a word option" where
  "Evaluate_comparison op x y = (case op of
     HEqual \<Rightarrow> Some (if x = y then 1 else 0)
   | HNotEqual \<Rightarrow> Some (if x \<noteq> y then 1 else 0)
   | HLessThan \<Rightarrow> Some (if sint x < sint y then 1 else 0)
   | HLessThanOrEqual \<Rightarrow> Some (if sint x \<le> sint y then 1 else 0)
   | HGreaterThan \<Rightarrow> Some (if sint x > sint y then 1 else 0)
   | HGreaterThanOrEqual \<Rightarrow> Some (if sint x \<ge> sint y then 1 else 0)
   | HCompare \<Rightarrow> Some (if x = y then 0 else if sint x > sint y then 1 else - 1)
   | _ \<Rightarrow> None)"

definition Evaluate_int :: "binary_operation \<Rightarrow> u32 \<Rightarrow> u32 \<Rightarrow> u32 option" where
  "Evaluate_int op x y = (case op of
     HAdd \<Rightarrow> Some (x + y)
   | HSub \<Rightarrow> Some (x - y)
   | HMul \<Rightarrow> Some (x * y)
   | HDiv \<Rightarrow> if y = 0 then None else if y = - 1 then Some (- x) else c_div x y
   | HRem \<Rightarrow> if y = 0 then None else if y = - 1 then Some 0 else c_rem x y
   | HShl \<Rightarrow> Some (shl x (unat (y AND 0x1f)))
   | HShr \<Rightarrow> Some (sshr x (unat (y AND 0x1f)))
   | HUShr \<Rightarrow> Some (shr x (unat (y AND 0x1f)))
   | HAnd \<Rightarrow> Some (x AND y)
   | HOr \<Rightarrow> Some (x OR y)
   | HXor \<Rightarrow> Some (x XOR y)
   | _ \<Rightarrow> Evaluate_comparison op x y)"

definition Evaluate_long :: "binary_operation \<Rightarrow> u64 \<Rightarrow> u64 \<Rightarrow> u64 option" where
  "Evaluate_long op x y = (case op of
     HAdd \<Rightarrow> Some (x + y)
   | HSub \<Rightarrow> Some (x - y)
   | HMul \<Rightarrow> Some (x * y)
   | HDiv \<Rightarrow> if y = 0 then None else if y = - 1 then Some (- x) else c_div x y
   | HRem \<Rightarrow> if y = 0 then None else if y = - 1 then Some 0 else c_rem x y
   | HShl \<Rightarrow> Some (shl x (unat (y AND 0x3f)))
   | HShr \<Rightarrow> Some (sshr x (unat (y AND 0x3f)))
   | HUShr \<Rightarrow> Some (shr x (unat (y AND 0x3f)))
   | HAnd \<Rightarrow> Some (x AND y)
   | HOr \<Rightarrow> Some (x OR y)
   | HXor \<Rightarrow> Some (x XOR y)
   | _ \<Rightarrow> Evaluate_comparison op x y)"

primrec Evaluate_unary_int :: "unary_operation \<Rightarrow> u32 \<Rightarrow> u32" where
  "Evaluate_unary_int HNeg x = - x"
| "Evaluate_unary_int HNot x = NOT x"

text \<open>\<^verbatim>\<open>TryStaticEvaluation\<close>, on the kinds of the inputs: \<open>Some None\<close> is \<^verbatim>\<open>nullptr\<close>.\<close>

definition TryStaticEvaluation_unary :: "unary_operation \<Rightarrow> HKind \<Rightarrow> HKind option option" where
  "TryStaticEvaluation_unary op input =
     (case input of IntConstant x \<Rightarrow> Some (Some (IntConstant (Evaluate_unary_int op x))) | _ \<Rightarrow> Some None)"

definition TryStaticEvaluation_binary :: "binary_operation \<Rightarrow> HKind \<Rightarrow> HKind \<Rightarrow> HKind option option" where
  "TryStaticEvaluation_binary op left right =
     (case (left, right) of
        (IntConstant x, IntConstant y) \<Rightarrow> map_option (\<lambda>v. Some (IntConstant v)) (Evaluate_int op x y)
      | (LongConstant x, LongConstant y) \<Rightarrow> map_option (\<lambda>v. Some (LongConstant v)) (Evaluate_long op x y)
      | _ \<Rightarrow> Some None)"

section \<open>Editing the graph\<close>

definition block_insts :: "HBasicBlock \<Rightarrow> HInstruction list" where
  "block_insts b = hphis b @ hinstructions b"

definition all_insts :: "HGraph \<Rightarrow> HInstruction list" where
  "all_insts g = concat (map block_insts (blocks g))"

definition get_inst :: "HGraph \<Rightarrow> nat \<Rightarrow> HInstruction option" where
  "get_inst g i = find (\<lambda>inst. hid inst = i) (all_insts g)"

definition uses :: "HInstruction \<Rightarrow> nat set" where
  "uses inst = set (hinputs inst) \<union> {i. Some i \<in> set (henv inst)}"

definition HasUses :: "HGraph \<Rightarrow> nat \<Rightarrow> bool" where
  "HasUses g i \<longleftrightarrow>
     list_ex (\<lambda>user. i \<in> set (hinputs user) \<or> Some i \<in> set (henv user)) (all_insts g)"

definition rename :: "nat \<Rightarrow> nat \<Rightarrow> nat \<Rightarrow> nat" where
  "rename i c j = (if j = i then c else j)"

definition rename_inst :: "nat \<Rightarrow> nat \<Rightarrow> HInstruction \<Rightarrow> HInstruction" where
  "rename_inst i c inst = inst\<lparr>hinputs := map (rename i c) (hinputs inst),
     henv := map (map_option (rename i c)) (henv inst)\<rparr>"

definition map_insts :: "(HInstruction \<Rightarrow> HInstruction) \<Rightarrow> HBasicBlock \<Rightarrow> HBasicBlock" where
  "map_insts f b = b\<lparr>hphis := map f (hphis b), hinstructions := map f (hinstructions b)\<rparr>"

definition ReplaceWith :: "nat \<Rightarrow> nat \<Rightarrow> HGraph \<Rightarrow> HGraph" where
  "ReplaceWith i other g = g\<lparr>blocks := map (map_insts (rename_inst i other)) (blocks g)\<rparr>"

definition edit_block :: "nat \<Rightarrow> (HInstruction list \<Rightarrow> HInstruction list) \<Rightarrow> HGraph \<Rightarrow> HGraph" where
  "edit_block b f g = g\<lparr>blocks := (blocks g)[b := (blocks g ! b)\<lparr>hinstructions := f (hinstructions (blocks g ! b))\<rparr>]\<rparr>"

definition RemoveInstruction :: "nat \<Rightarrow> nat \<Rightarrow> HGraph \<Rightarrow> HGraph" where
  "RemoveInstruction b i g = edit_block b (filter (\<lambda>inst. hid inst \<noteq> i)) g"

definition InsertInstructionBefore :: "nat \<Rightarrow> HInstruction \<Rightarrow> nat \<Rightarrow> HGraph \<Rightarrow> HGraph" where
  "InsertInstructionBefore b inst cursor g =
     (edit_block b (\<lambda>is. concat (map (\<lambda>other. if hid other = cursor
        then [inst\<lparr>hid := current_instruction_id g\<rparr>, other] else [other]) is)) g)
      \<lparr>current_instruction_id := current_instruction_id g + 1\<rparr>"

definition ReplaceAndRemoveInstructionWith :: "nat \<Rightarrow> nat \<Rightarrow> HInstruction \<Rightarrow> HGraph \<Rightarrow> HGraph" where
  "ReplaceAndRemoveInstructionWith b initial replacement g =
     RemoveInstruction b initial (ReplaceWith initial (current_instruction_id g)
       (InsertInstructionBefore b replacement initial g))"

text \<open>A constant as the constructors of \<^verbatim>\<open>HIntConstant\<close> and \<^verbatim>\<open>HLongConstant\<close> make it.\<close>

definition new_constant :: "HKind \<Rightarrow> HInstruction" where
  "new_constant k = \<lparr>hid = 0, kind = k,
     htype = (case k of LongConstant _ \<Rightarrow> kPrimLong | _ \<Rightarrow> kPrimInt), hinputs = [], henv = []\<rparr>"

section \<open>Meaning\<close>

datatype hvalue = VInt u32 | VLong u64 | VOther nat

text \<open>What a run shows to the outside: the instruction, the values of its inputs and of its
  environment.\<close>

type_synonym event = "HKind \<times> hvalue list \<times> hvalue option list"

text \<open>
  The world around the method: the answer to an observable instruction, which may be an exception,
  and the value of an instruction without effects that the representation does not determine (a
  parameter, a load, a floating point operation). Both may depend on what happened before.
\<close>

record world =
  observe :: "event list \<Rightarrow> event \<Rightarrow> hvalue option"
  opaque_value :: "event list \<Rightarrow> HKind \<Rightarrow> hvalue list \<Rightarrow> hvalue"

type_synonym hstate = "(nat \<rightharpoonup> hvalue) \<times> event list"

datatype flow_result = Stuck | Continue hstate | Raised "event list"

definition is_comparison :: "binary_operation \<Rightarrow> bool" where
  "is_comparison op \<longleftrightarrow> op \<in> {HEqual, HNotEqual, HLessThan, HLessThanOrEqual, HGreaterThan,
     HGreaterThanOrEqual, HCompare}"

text \<open>Comparisons of longs have an int as result; a long is shifted by an int.\<close>

definition binary_value :: "world \<Rightarrow> event list \<Rightarrow> binary_operation \<Rightarrow> hvalue \<Rightarrow> hvalue \<Rightarrow> hvalue option" where
  "binary_value w h op a b = (case (a, b) of
     (VInt x, VInt y) \<Rightarrow> map_option VInt (Evaluate_int op x y)
   | (VLong x, VLong y) \<Rightarrow>
       (if is_comparison op then map_option (\<lambda>v. VInt (ucast v)) (Evaluate_long op x y)
        else map_option VLong (Evaluate_long op x y))
   | (VLong x, VInt y) \<Rightarrow> map_option VLong (Evaluate_long op x (ucast y))
   | _ \<Rightarrow> Some (opaque_value w h (BinaryOperation op) [a, b]))"

text \<open>On a boolean, \<^const>\<open>HNot\<close> flips the lowest bit.\<close>

definition unary_value :: "world \<Rightarrow> event list \<Rightarrow> Primitive \<Rightarrow> unary_operation \<Rightarrow> hvalue \<Rightarrow> hvalue option" where
  "unary_value w h ty op a = (case a of
     VInt x \<Rightarrow> Some (VInt (if ty = kPrimBoolean \<and> op = HNot then x XOR 1 else Evaluate_unary_int op x))
   | VLong x \<Rightarrow> Some (VLong (if op = HNot then NOT x else - x))
   | _ \<Rightarrow> Some (opaque_value w h (UnaryOperation op) [a]))"

definition input_values :: "(nat \<rightharpoonup> hvalue) \<Rightarrow> HInstruction \<Rightarrow> hvalue list option" where
  "input_values \<sigma> inst = those (map \<sigma> (hinputs inst))"

definition env_values :: "(nat \<rightharpoonup> hvalue) \<Rightarrow> HInstruction \<Rightarrow> hvalue option list option" where
  "env_values \<sigma> inst =
     those (map (\<lambda>e. case e of None \<Rightarrow> Some None | Some j \<Rightarrow> map_option Some (\<sigma> j)) (henv inst))"

text \<open>The value of an instruction that has no effect.\<close>

definition pure_value :: "world \<Rightarrow> event list \<Rightarrow> HInstruction \<Rightarrow> hvalue list \<Rightarrow> hvalue option" where
  "pure_value w h inst vs = (case (kind inst, vs) of
     (IntConstant x, []) \<Rightarrow> Some (VInt x)
   | (LongConstant x, []) \<Rightarrow> Some (VLong x)
   | (BinaryOperation op, [a, b]) \<Rightarrow> binary_value w h op a b
   | (UnaryOperation op, [a]) \<Rightarrow> unary_value w h (htype inst) op a
   | (Opaque c d, vs) \<Rightarrow> Some (opaque_value w h (Opaque c d) vs)
   | _ \<Rightarrow> None)"

text \<open>
  The instructions that do more than give a value, by what they mean and not by the flags that the
  classes declare: they call, allocate, raise an exception, write memory, lock, load or initialise a
  class, resolve a string, take the pending exception, or write a local or a register that other
  instructions read. All others only compute or read.
\<close>

definition is_observable :: "HInstruction \<Rightarrow> bool" where
  "is_observable inst =
     (case kind inst of
        SuspendCheck \<Rightarrow> True
      | DivZeroCheck \<Rightarrow> True
      | Opaque c _ \<Rightarrow> c \<notin> {HArrayGet, HArrayLength, HDoubleConstant, HFloatConstant, HInstanceFieldGet, HInstanceOf,
          HLoadLocal, HLocal, HParameterValue, HStaticFieldGet, HTemporary, HTypeConversion}
      | _ \<Rightarrow> False)"

text \<open>
  The classes with such an effect that neither the flags nor \<^verbatim>\<open>CanThrow\<close> tell of: a new array raises
  an exception for a negative length, a class or a string may fail to load, \<^verbatim>\<open>move-exception\<close> clears the
  exception; stores to locals and parallel moves are not in a graph that the scalar passes see.
\<close>

definition has_silent_effect :: "HInstruction \<Rightarrow> bool" where
  "has_silent_effect inst =
     (case kind inst of
        Opaque c _ \<Rightarrow> c \<in> {HNewArray, HLoadClass, HLoadString, HLoadException, HStoreLocal, HParallelMove}
      | _ \<Rightarrow> False)"

lemma side_effect_flags:
  "SideEffects_HasSideEffects SideEffects_All" "SideEffects_HasSideEffects ChangesSomething"
  "\<not> SideEffects_HasSideEffects DependsOnSomething" "\<not> SideEffects_HasSideEffects 0"
  by code_simp+

lemma HasSideEffects_simp:
  "HasSideEffects inst = (case kind inst of Opaque c _ \<Rightarrow> c \<in> {HInvokeInterface, HInvokeStatic, HInvokeVirtual,
     HClinitCheck, HInstanceFieldSet, HArraySet, HStaticFieldSet} | _ \<Rightarrow> False)"
  by (cases "kind inst") (auto simp: HasSideEffects_def class_side_effects_def side_effect_flags)

text \<open>For all other instructions the flags are right.\<close>

lemma flags_truthful:
  "\<not> has_silent_effect inst \<Longrightarrow>
     is_observable inst \<longleftrightarrow> HasSideEffects inst \<or> CanThrow inst \<or> kind inst = SuspendCheck"
proof (cases "kind inst")
  case (Opaque c d)
  then show "\<not> has_silent_effect inst \<Longrightarrow> ?thesis"
    unfolding has_silent_effect_def is_observable_def HasSideEffects_simp CanThrow_def by (cases c) simp_all
qed (simp_all add: has_silent_effect_def is_observable_def HasSideEffects_simp CanThrow_def)

definition divisor_is_zero :: "hvalue list \<Rightarrow> bool" where
  "divisor_is_zero vs \<longleftrightarrow> vs = [VInt 0] \<or> vs = [VLong 0]"

definition exec_inst :: "world \<Rightarrow> HInstruction \<Rightarrow> hstate \<Rightarrow> flow_result" where
  "exec_inst w inst s =
     (let \<sigma> = fst s; h = snd s in
      case (input_values \<sigma> inst, env_values \<sigma> inst) of
        (Some vs, Some es) \<Rightarrow>
          (if kind inst = DivZeroCheck then
             (case vs of [v] \<Rightarrow> if divisor_is_zero vs then Raised (h @ [(DivZeroCheck, vs, es)])
                                else Continue (\<sigma>(hid inst \<mapsto> v), h) | _ \<Rightarrow> Stuck)
           else if is_observable inst then
             (let e = (kind inst, vs, es); h' = h @ [e] in
              case observe w h e of None \<Rightarrow> Raised h' | Some v \<Rightarrow> Continue (\<sigma>(hid inst \<mapsto> v), h'))
           else case pure_value w h inst vs of
             None \<Rightarrow> Stuck | Some v \<Rightarrow> Continue (\<sigma>(hid inst \<mapsto> v), h))
      | _ \<Rightarrow> Stuck)"

text \<open>How a block ends, and how a run ends.\<close>

datatype block_result = BStuck | BRaised "event list" | BLeave HInstruction hstate

fun run_insts :: "world \<Rightarrow> HInstruction list \<Rightarrow> hstate \<Rightarrow> block_result" where
  "run_insts w [] s = BStuck"
| "run_insts w (inst # is) s =
     (if IsControlFlow inst then BLeave inst s
      else case exec_inst w inst s of
        Stuck \<Rightarrow> BStuck | Raised h \<Rightarrow> BRaised h | Continue s' \<Rightarrow> run_insts w is s')"

text \<open>All phis of a block read their inputs before any of them is written.\<close>

definition enter_block :: "HBasicBlock \<Rightarrow> nat option \<Rightarrow> (nat \<rightharpoonup> hvalue) \<Rightarrow> (nat \<rightharpoonup> hvalue) option" where
  "enter_block b pred \<sigma> =
     (case pred of
        None \<Rightarrow> (if hphis b = [] then Some \<sigma> else None)
      | Some p \<Rightarrow>
          (if p \<in> set (hpredecessors b) then
             let k = length (takeWhile (\<lambda>q. q \<noteq> p) (hpredecessors b)) in
             map_option (\<lambda>vs. \<sigma> ++ map_of (zip (map hid (hphis b)) vs))
               (those (map (\<lambda>phi. if k < length (hinputs phi) then \<sigma> (hinputs phi ! k) else None) (hphis b)))
           else None))"

datatype run_result = RStuck | RTimeout "event list" | RRaised "event list"
  | RReturned "hvalue option" "event list"

datatype next_step = Go nat | Finish "hvalue option" | Escape "hvalue list" | Bad

definition leave_block :: "HBasicBlock \<Rightarrow> HInstruction \<Rightarrow> (nat \<rightharpoonup> hvalue) \<Rightarrow> next_step" where
  "leave_block b inst \<sigma> = (case (kind inst, input_values \<sigma> inst, hsuccessors b) of
     (HGoto, Some [], [t]) \<Rightarrow> Go t
   | (HIf, Some [VInt c], [t, f]) \<Rightarrow> Go (if c \<noteq> 0 then t else f)
   | (HReturn, Some [v], _) \<Rightarrow> Finish (Some v)
   | (HReturnVoid, Some [], _) \<Rightarrow> Finish None
   | (HExit, Some [], _) \<Rightarrow> Finish None
   | (HThrow, Some vs, _) \<Rightarrow> Escape vs
   | _ \<Rightarrow> Bad)"

text \<open>A run of at most \<open>n\<close> blocks.\<close>

fun run_graph :: "nat \<Rightarrow> world \<Rightarrow> HGraph \<Rightarrow> nat option \<Rightarrow> nat \<Rightarrow> hstate \<Rightarrow> run_result" where
  "run_graph 0 w g pred b s = RTimeout (snd s)"
| "run_graph (Suc n) w g pred b s =
     (if b < length (blocks g) then
        case enter_block (blocks g ! b) pred (fst s) of
          None \<Rightarrow> RStuck
        | Some \<sigma> \<Rightarrow>
            (case run_insts w (hinstructions (blocks g ! b)) (\<sigma>, snd s) of
               BStuck \<Rightarrow> RStuck
             | BRaised h \<Rightarrow> RRaised h
             | BLeave inst (\<sigma>', h) \<Rightarrow>
                 (case leave_block (blocks g ! b) inst \<sigma>' of
                    Go t \<Rightarrow> run_graph n w g (Some b) t (\<sigma>', h)
                  | Finish v \<Rightarrow> RReturned v h
                  | Escape vs \<Rightarrow> RRaised (h @ [(HThrow, vs, [])])
                  | Bad \<Rightarrow> RStuck))
      else RStuck)"

end
