(* ===== verification/GraphPasses.thy ===== *)
theory GraphPasses
  imports Nodes
begin

text \<open>
  Dead code elimination of the optimizing compiler, \<^verbatim>\<open>dead_code_elimination.cc\<close>, on the
  representation of \<open>Nodes\<close>, and the simulation argument that it shares with constant folding: a pass
  keeps every run of the graph, that is its result, its exceptions and the sequence of observable
  instructions with the values they see. The order in which the passes visit the blocks is the
  reverse post order kept in the graph.
\<close>

section \<open>The pass\<close>

primrec each :: "('a \<Rightarrow> 'g \<Rightarrow> 'g option) \<Rightarrow> 'a list \<Rightarrow> 'g \<Rightarrow> 'g option" where
  "each f [] g = Some g"
| "each f (x # xs) g = Option.bind (f x g) (each f xs)"

text \<open>Dead code elimination. The last instruction of a block is its branch and is skipped.\<close>

definition eliminate_inst :: "nat \<Rightarrow> nat \<Rightarrow> HGraph \<Rightarrow> HGraph option" where
  "eliminate_inst b i g = do {
     inst \<leftarrow> get_inst g i;
     if IsControlFlow inst then None
     else if \<not> HasSideEffects inst \<and> \<not> CanThrow inst \<and> kind inst \<noteq> SuspendCheck \<and> \<not> HasUses g i
     then Some (RemoveInstruction b i g)
     else Some g
   }"

definition eliminate_block :: "nat \<Rightarrow> HGraph \<Rightarrow> HGraph option" where
  "eliminate_block b g =
     (case rev (hinstructions (blocks g ! b)) of
        [] \<Rightarrow> None
      | final # is \<Rightarrow> if IsControlFlow final then each (eliminate_inst b) (map hid is) g else None)"

definition HDeadCodeElimination_Run :: "HGraph \<Rightarrow> HGraph option" where
  "HDeadCodeElimination_Run g = each eliminate_block (rev (reverse_post_order g)) g"

section \<open>Simulation\<close>

text \<open>
  A pass rewrites phis by a function \<open>f\<close> and each instruction into at most one instruction. If
  every instruction of the old graph is matched by its image, under a relation \<open>rel\<close> between the
  values of the old and of the new run, then the runs agree.
\<close>

definition transform_block ::
  "(HInstruction \<Rightarrow> HInstruction) \<Rightarrow> (HInstruction \<Rightarrow> HInstruction list) \<Rightarrow> HBasicBlock \<Rightarrow> HBasicBlock" where
  "transform_block f tr b = b\<lparr>hphis := map f (hphis b), hinstructions := concat (map tr (hinstructions b))\<rparr>"

type_synonym store_rel = "(nat \<rightharpoonup> hvalue) \<Rightarrow> (nat \<rightharpoonup> hvalue) \<Rightarrow> bool"

definition matches :: "world \<Rightarrow> store_rel \<Rightarrow> HInstruction \<Rightarrow> HInstruction list \<Rightarrow> bool" where
  "matches w rel inst xs \<longleftrightarrow>
     (\<forall>\<sigma> \<sigma>' h. rel \<sigma> \<sigma>' \<longrightarrow>
        (case exec_inst w inst (\<sigma>, h) of
           Stuck \<Rightarrow> True
         | Raised h1 \<Rightarrow> \<exists>x. xs = [x] \<and> \<not> IsControlFlow x \<and> exec_inst w x (\<sigma>', h) = Raised h1
         | Continue (\<sigma>1, h1) \<Rightarrow>
             (xs = [] \<and> h1 = h \<and> rel \<sigma>1 \<sigma>') \<or>
             (\<exists>x \<sigma>1'. xs = [x] \<and> \<not> IsControlFlow x \<and> exec_inst w x (\<sigma>', h) = Continue (\<sigma>1', h1) \<and> rel \<sigma>1 \<sigma>1')))"

definition branch_matches :: "store_rel \<Rightarrow> HInstruction \<Rightarrow> HInstruction list \<Rightarrow> bool" where
  "branch_matches rel inst xs \<longleftrightarrow>
     (\<exists>x. xs = [x] \<and> kind x = kind inst \<and>
        (\<forall>\<sigma> \<sigma>' vs. rel \<sigma> \<sigma>' \<longrightarrow> input_values \<sigma> inst = Some vs \<longrightarrow> input_values \<sigma>' x = Some vs))"

lemma run_insts_sim:
  assumes "\<And>inst. inst \<in> set is \<Longrightarrow> \<not> IsControlFlow inst \<Longrightarrow> matches w rel inst (tr inst)"
    and "\<And>inst. inst \<in> set is \<Longrightarrow> IsControlFlow inst \<Longrightarrow> branch_matches rel inst (tr inst)"
    and "rel \<sigma> \<sigma>'"
  shows "case run_insts w is (\<sigma>, h) of
      BStuck \<Rightarrow> True
    | BRaised h1 \<Rightarrow> run_insts w (concat (map tr is)) (\<sigma>', h) = BRaised h1
    | BLeave inst (\<sigma>1, h1) \<Rightarrow> inst \<in> set is \<and> IsControlFlow inst \<and>
        (\<exists>x \<sigma>1'. tr inst = [x] \<and> run_insts w (concat (map tr is)) (\<sigma>', h) = BLeave x (\<sigma>1', h1) \<and> rel \<sigma>1 \<sigma>1')"
  using assms
proof (induction "is" arbitrary: \<sigma> \<sigma>' h)
  case (Cons inst "is")
  show ?case
  proof (cases "IsControlFlow inst")
    case True
    with Cons.prems(2) [of inst] obtain x where "tr inst = [x]" "kind x = kind inst"
      by (auto simp: branch_matches_def)
    with True Cons.prems(3) show ?thesis by (simp add: IsControlFlow_def)
  next
    case False
    then have "matches w rel inst (tr inst)" using Cons.prems(1) by simp
    note m = this [unfolded matches_def, rule_format, OF Cons.prems(3), of h]
    have IH: "rel s s' \<Longrightarrow> case run_insts w is (s, k) of
      BStuck \<Rightarrow> True
    | BRaised h1 \<Rightarrow> run_insts w (concat (map tr is)) (s', k) = BRaised h1
    | BLeave inst (\<sigma>1, h1) \<Rightarrow> inst \<in> set is \<and> IsControlFlow inst \<and>
        (\<exists>x \<sigma>1'. tr inst = [x] \<and> run_insts w (concat (map tr is)) (s', k) = BLeave x (\<sigma>1', h1) \<and> rel \<sigma>1 \<sigma>1')"
      for s s' k by (rule Cons.IH) (use Cons.prems in auto)
    show ?thesis
    proof (cases "exec_inst w inst (\<sigma>, h)")
      case Stuck
      with False show ?thesis by simp
    next
      case (Raised h1)
      then obtain x where "tr inst = [x]" "\<not> IsControlFlow x" "exec_inst w x (\<sigma>', h) = Raised h1"
        using m by auto
      with Raised False show ?thesis by simp
    next
      case (Continue s1)
      obtain \<sigma>1 h1 where s1: "s1 = (\<sigma>1, h1)" by (cases s1)
      have "(tr inst = [] \<and> h1 = h \<and> rel \<sigma>1 \<sigma>') \<or>
          (\<exists>x \<sigma>1'. tr inst = [x] \<and> \<not> IsControlFlow x \<and> exec_inst w x (\<sigma>', h) = Continue (\<sigma>1', h1) \<and> rel \<sigma>1 \<sigma>1')"
        using m Continue s1 by simp
      then show ?thesis
      proof (elim disjE exE conjE)
        assume "tr inst = []" "h1 = h" "rel \<sigma>1 \<sigma>'"
        with IH [of \<sigma>1 \<sigma>' h] show ?thesis
          using Continue s1 False by (auto split: block_result.splits)
      next
        fix x \<sigma>1' assume "tr inst = [x]" "\<not> IsControlFlow x" "exec_inst w x (\<sigma>', h) = Continue (\<sigma>1', h1)" "rel \<sigma>1 \<sigma>1'"
        with IH [of \<sigma>1 \<sigma>1' h1] show ?thesis
          using Continue s1 False by (auto split: block_result.splits)
      qed
    qed
  qed
qed simp

definition phis_match :: "store_rel \<Rightarrow> (HInstruction \<Rightarrow> HInstruction) \<Rightarrow> (HInstruction \<Rightarrow> HInstruction list) \<Rightarrow> HBasicBlock \<Rightarrow> bool" where
  "phis_match rel f tr b \<longleftrightarrow> (\<forall>\<sigma> \<sigma>' p \<sigma>1. rel \<sigma> \<sigma>' \<longrightarrow> enter_block b p \<sigma> = Some \<sigma>1 \<longrightarrow>
     (\<exists>\<sigma>1'. enter_block (transform_block f tr b) p \<sigma>' = Some \<sigma>1' \<and> rel \<sigma>1 \<sigma>1'))"

lemma leave_block_sim:
  assumes "kind x = kind inst" "\<And>vs. input_values \<sigma> inst = Some vs \<Longrightarrow> input_values \<sigma>' x = Some vs"
    and "leave_block b inst \<sigma> \<noteq> Bad"
  shows "leave_block (transform_block f tr b) x \<sigma>' = leave_block b inst \<sigma>"
proof (cases "input_values \<sigma> inst")
  case None
  then show ?thesis using assms(3) by (auto simp: leave_block_def split: HKind.splits)
next
  case (Some vs)
  then show ?thesis using assms(1,2) by (simp add: leave_block_def transform_block_def)
qed

lemma run_graph_sim:
  assumes blocks: "blocks g' = map (transform_block f tr) (blocks g)"
    and insts: "\<And>b inst. b \<in> set (blocks g) \<Longrightarrow> inst \<in> set (hinstructions b) \<Longrightarrow>
      (if IsControlFlow inst then branch_matches rel inst (tr inst) else matches w rel inst (tr inst))"
    and phis: "\<And>b. b \<in> set (blocks g) \<Longrightarrow> phis_match rel f tr b"
    and "rel \<sigma> \<sigma>'" "run_graph n w g p k (\<sigma>, h) \<noteq> RStuck"
  shows "run_graph n w g' p k (\<sigma>', h) = run_graph n w g p k (\<sigma>, h)"
  using assms(4,5)
proof (induction n arbitrary: \<sigma> \<sigma>' h p k)
  case (Suc n)
  let ?b = "blocks g ! k"
  have k: "k < length (blocks g)" using Suc.prems(2) by (auto split: if_splits)
  then have b: "?b \<in> set (blocks g)" by simp
  have b': "blocks g' ! k = transform_block f tr ?b" "length (blocks g') = length (blocks g)"
    using k by (simp_all add: blocks)
  obtain \<sigma>1 where e: "enter_block ?b p \<sigma> = Some \<sigma>1" using Suc.prems(2) k by (auto split: option.splits)
  then obtain \<sigma>1' where e': "enter_block (blocks g' ! k) p \<sigma>' = Some \<sigma>1'" "rel \<sigma>1 \<sigma>1'"
    using phis [OF b] Suc.prems(1) unfolding phis_match_def b'(1) by blast
  have ins: "hinstructions (blocks g' ! k) = concat (map tr (hinstructions ?b))"
    by (simp add: b'(1) transform_block_def)
  note sim = run_insts_sim [of "hinstructions ?b" w rel tr \<sigma>1 \<sigma>1' h]
  have mm: "\<And>inst. inst \<in> set (hinstructions ?b) \<Longrightarrow> \<not> IsControlFlow inst \<Longrightarrow> matches w rel inst (tr inst)"
    "\<And>inst. inst \<in> set (hinstructions ?b) \<Longrightarrow> IsControlFlow inst \<Longrightarrow> branch_matches rel inst (tr inst)"
    using insts [OF b] by (simp_all split: if_splits)
  show ?case
  proof (cases "run_insts w (hinstructions ?b) (\<sigma>1, h)")
    case BStuck
    then show ?thesis using Suc.prems(2) k e by simp
  next
    case (BRaised h1)
    then have "run_insts w (hinstructions (blocks g' ! k)) (\<sigma>1', h) = BRaised h1"
      using sim [OF mm e'(2)] by (simp add: ins)
    then show ?thesis using BRaised k e e' b' by simp
  next
    case (BLeave inst s)
    obtain \<sigma>2 h2 where s: "s = (\<sigma>2, h2)" by (cases s)
    obtain x \<sigma>2' where x: "inst \<in> set (hinstructions ?b)" "IsControlFlow inst" "tr inst = [x]"
        "run_insts w (hinstructions (blocks g' ! k)) (\<sigma>1', h) = BLeave x (\<sigma>2', h2)" "rel \<sigma>2 \<sigma>2'"
      using sim [OF mm e'(2)] BLeave s by (auto simp: ins)
    have nb: "leave_block ?b inst \<sigma>2 \<noteq> Bad" using Suc.prems(2) k e BLeave s by auto
    have br: "kind x = kind inst" "\<And>vs. input_values \<sigma>2 inst = Some vs \<Longrightarrow> input_values \<sigma>2' x = Some vs"
      using mm(2) [OF x(1,2)] x(3,5) by (auto simp: branch_matches_def)
    have l: "leave_block (blocks g' ! k) x \<sigma>2' = leave_block ?b inst \<sigma>2"
      unfolding b'(1) by (rule leave_block_sim [OF br nb])
    show ?thesis
    proof (cases "leave_block ?b inst \<sigma>2")
      case (Go t)
      have "run_graph n w g (Some k) t (\<sigma>2, h2) \<noteq> RStuck" using Suc.prems(2) k e BLeave s Go by simp
      then have "run_graph n w g' (Some k) t (\<sigma>2', h2) = run_graph n w g (Some k) t (\<sigma>2, h2)"
        by (rule Suc.IH [OF x(5)])
      then show ?thesis using k e e' b'(2) BLeave s x(4) l Go by simp
    qed (use k e e' b'(2) BLeave s x(4) l nb in simp_all)
  qed
qed simp

section \<open>Renamed instructions\<close>

definition agree :: "nat \<Rightarrow> nat \<Rightarrow> nat set \<Rightarrow> store_rel" where
  "agree i c D \<sigma> \<sigma>' \<longleftrightarrow> (\<forall>j x. j \<notin> D \<longrightarrow> \<sigma> j = Some x \<longrightarrow> \<sigma>' (rename i c j) = Some x)"

lemma rename_inst_simps [simp]:
  "hid (rename_inst i c inst) = hid inst" "kind (rename_inst i c inst) = kind inst"
  "htype (rename_inst i c inst) = htype inst" "hinputs (rename_inst i c inst) = map (rename i c) (hinputs inst)"
  "henv (rename_inst i c inst) = map (map_option (rename i c)) (henv inst)"
  "IsControlFlow (rename_inst i c inst) = IsControlFlow inst"
  "HasSideEffects (rename_inst i c inst) = HasSideEffects inst" "CanThrow (rename_inst i c inst) = CanThrow inst"
  "is_observable (rename_inst i c inst) = is_observable inst"
  by (simp_all add: rename_inst_def IsControlFlow_def HasSideEffects_def CanThrow_def is_observable_def)

lemma rename_same: "rename i i = id"
  by (simp add: rename_def fun_eq_iff)

lemma rename_inst_same: "rename_inst i i = id"
  by (rule ext) (simp add: rename_inst_def rename_same option.map_id0)

lemma those_Some_iff: "those (map f xs) = Some vs \<longleftrightarrow> map f xs = map Some vs"
  by (induction xs arbitrary: vs) (auto split: option.splits simp: Cons_eq_map_conv)

lemma those_mono:
  assumes "those (map f xs) = Some vs" "\<And>x v. x \<in> set xs \<Longrightarrow> f x = Some v \<Longrightarrow> g x = Some v"
  shows "those (map g xs) = Some vs"
proof -
  have "map g xs = map f xs"
  proof (rule map_cong [OF refl])
    fix x assume x: "x \<in> set xs"
    then have "f x \<in> set (map Some vs)" using assms(1) unfolding those_Some_iff by (metis imageI list.set_map)
    with assms(2) [OF x] show "g x = f x" by auto
  qed
  with assms(1) show ?thesis by (simp only:)
qed

lemma input_values_agree:
  assumes "agree i c D \<sigma> \<sigma>'" "uses inst \<inter> D = {}" "input_values \<sigma> inst = Some vs"
  shows "input_values \<sigma>' (rename_inst i c inst) = Some vs"
  using assms(3) unfolding input_values_def rename_inst_simps map_map
  by (rule those_mono) (use assms(1,2) in \<open>auto simp: agree_def uses_def\<close>)

lemma env_values_agree:
  assumes "agree i c D \<sigma> \<sigma>'" "uses inst \<inter> D = {}" "env_values \<sigma> inst = Some vs"
  shows "env_values \<sigma>' (rename_inst i c inst) = Some vs"
  using assms(3) unfolding env_values_def rename_inst_simps map_map
  by (rule those_mono)
    (use assms(1,2) in \<open>fastforce simp: agree_def uses_def split: option.splits\<close>)

lemma agree_upd:
  assumes "agree i c D \<sigma> \<sigma>'" "j \<noteq> i" "j \<noteq> c"
  shows "agree i c D (\<sigma>(j \<mapsto> v)) (\<sigma>'(j \<mapsto> v))"
  using assms by (auto simp: agree_def rename_def split: if_splits)

lemma exec_inst_eq:
  assumes "input_values \<sigma> inst = Some vs" "env_values \<sigma> inst = Some es"
  shows "exec_inst w inst (\<sigma>, h) =
     (if kind inst = DivZeroCheck then
        (case vs of [v] \<Rightarrow> if divisor_is_zero vs then Raised (h @ [(DivZeroCheck, vs, es)])
                           else Continue (\<sigma>(hid inst \<mapsto> v), h) | _ \<Rightarrow> Stuck)
      else if is_observable inst then
        (case observe w h (kind inst, vs, es) of
           None \<Rightarrow> Raised (h @ [(kind inst, vs, es)])
         | Some v \<Rightarrow> Continue (\<sigma>(hid inst \<mapsto> v), h @ [(kind inst, vs, es)]))
      else case pure_value w h inst vs of
        None \<Rightarrow> Stuck | Some v \<Rightarrow> Continue (\<sigma>(hid inst \<mapsto> v), h))"
  unfolding exec_inst_def Let_def fst_conv snd_conv assms prod.case option.case ..

lemma exec_inst_rename:
  assumes a: "agree i c D \<sigma> \<sigma>'" and u: "uses inst \<inter> D = {}" and ns: "exec_inst w inst (\<sigma>, h) \<noteq> Stuck"
  shows "(\<exists>h1. exec_inst w inst (\<sigma>, h) = Raised h1 \<and> exec_inst w (rename_inst i c inst) (\<sigma>', h) = Raised h1) \<or>
    (\<exists>v h1. exec_inst w inst (\<sigma>, h) = Continue (\<sigma>(hid inst \<mapsto> v), h1) \<and>
       exec_inst w (rename_inst i c inst) (\<sigma>', h) = Continue (\<sigma>'(hid inst \<mapsto> v), h1))"
proof -
  obtain vs es where v: "input_values \<sigma> inst = Some vs" "env_values \<sigma> inst = Some es"
    using ns by (auto simp: exec_inst_def split: option.splits)
  have p: "pure_value w h (rename_inst i c inst) vs = pure_value w h inst vs"
    unfolding pure_value_def rename_inst_simps ..
  note e = exec_inst_eq [OF v] exec_inst_eq [OF input_values_agree [OF a u v(1)] env_values_agree [OF a u v(2)]]
  show ?thesis
  proof (cases "kind inst = DivZeroCheck")
    case True
    then show ?thesis using ns by (auto simp: e split: list.splits)
  next
    case nd: False
    show ?thesis
    proof (cases "is_observable inst")
      case True
      then show ?thesis using nd by (cases "observe w h (kind inst, vs, es)") (auto simp: e)
    next
      case False
      then show ?thesis using nd ns by (cases "pure_value w h inst vs") (auto simp: e p)
    qed
  qed
qed

lemma agree_phis:
  assumes a: "agree i c D \<sigma> \<sigma>'" and e: "enter_block b p \<sigma> = Some \<sigma>1"
    and ids: "\<And>phi. phi \<in> set (hphis b) \<Longrightarrow> hid phi \<noteq> i \<and> hid phi \<noteq> c \<and> uses phi \<inter> D = {}"
  shows "\<exists>\<sigma>1'. enter_block (transform_block (rename_inst i c) tr b) p \<sigma>' = Some \<sigma>1' \<and> agree i c D \<sigma>1 \<sigma>1'"
proof (cases p)
  case None
  then show ?thesis using assms by (simp add: enter_block_def transform_block_def split: if_splits)
next
  case (Some q)
  let ?k = "length (takeWhile (\<lambda>r. r \<noteq> q) (hpredecessors b))"
  let ?f = "\<lambda>\<sigma> phi. if ?k < length (hinputs phi) then \<sigma> (hinputs phi ! ?k) else None"
  obtain vs where q: "q \<in> set (hpredecessors b)" and vs: "those (map (?f \<sigma>) (hphis b)) = Some vs"
      and s1: "\<sigma>1 = \<sigma> ++ map_of (zip (map hid (hphis b)) vs)"
    using e Some by (auto simp: enter_block_def Let_def split: if_splits)
  have "those (map (\<lambda>phi. ?f \<sigma>' (rename_inst i c phi)) (hphis b)) = Some vs"
    using vs
  proof (rule those_mono)
    fix phi v assume phi: "phi \<in> set (hphis b)" and "?f \<sigma> phi = Some v"
    then have k: "?k < length (hinputs phi)" "\<sigma> (hinputs phi ! ?k) = Some v" by (auto split: if_splits)
    then have "hinputs phi ! ?k \<in> uses phi" by (simp add: uses_def)
    then have "hinputs phi ! ?k \<notin> D" using ids [OF phi] by auto
    then show "?f \<sigma>' (rename_inst i c phi) = Some v" using k a by (simp add: agree_def)
  qed
  then have "enter_block (transform_block (rename_inst i c) tr b) p \<sigma>' =
      Some (\<sigma>' ++ map_of (zip (map hid (hphis b)) vs))"
    using q Some by (simp add: enter_block_def transform_block_def comp_def)
  moreover have "agree i c D \<sigma>1 (\<sigma>' ++ map_of (zip (map hid (hphis b)) vs))"
    unfolding agree_def
  proof (intro allI impI)
    fix j x assume j: "j \<notin> D" and x: "\<sigma>1 j = Some x"
    let ?m = "map_of (zip (map hid (hphis b)) vs)"
    have dom: "j \<in> hid ` set (hphis b)" if "?m j = Some y" for j y
      using map_of_SomeD [OF that] by (auto dest: set_zip_leftD)
    have "\<sigma>' (rename i c j) = Some x" if "\<sigma> j = Some x" using a j that by (auto simp: agree_def)
    moreover have "rename i c j = j" if "?m j = Some y" for y
      using dom [OF that] ids by (auto simp: rename_def)
    moreover have "?m (rename i c j) = None" if "?m j = None"
      using that dom ids by (cases "?m (rename i c j)") (auto simp: rename_def split: if_splits)
    ultimately show "(\<sigma>' ++ ?m) (rename i c j) = Some x"
      using x unfolding s1 by (cases "?m j") (auto simp: map_add_def)
  qed
  ultimately show ?thesis by blast
qed

section \<open>Well-formed graphs\<close>

definition block_wf :: "HBasicBlock \<Rightarrow> bool" where
  "block_wf b \<longleftrightarrow> (\<forall>phi\<in>set (hphis b). kind phi = Phi) \<and> hinstructions b \<noteq> [] \<and>
     IsControlFlow (last (hinstructions b)) \<and>
     (\<forall>inst\<in>set (butlast (hinstructions b)). \<not> IsControlFlow inst)"

definition graph_wf :: "HGraph \<Rightarrow> bool" where
  "graph_wf g \<longleftrightarrow> distinct (map hid (all_insts g)) \<and>
     (\<forall>inst\<in>set (all_insts g). hid inst < current_instruction_id g \<and> uses inst \<subseteq> hid ` set (all_insts g)) \<and>
     (\<forall>b\<in>set (blocks g). block_wf b) \<and>
     set (reverse_post_order g) \<subseteq> {..<length (blocks g)}"

lemma in_all_insts: "inst \<in> set (all_insts g) \<longleftrightarrow> (\<exists>b\<in>set (blocks g). inst \<in> set (block_insts b))"
  by (simp add: all_insts_def)

lemma in_block_insts [simp]: "inst \<in> set (block_insts b) \<longleftrightarrow> inst \<in> set (hphis b) \<or> inst \<in> set (hinstructions b)"
  by (simp add: block_insts_def)

lemma hid_unique:
  assumes "graph_wf g" "x \<in> set (all_insts g)" "y \<in> set (all_insts g)" "hid x = hid y"
  shows "x = y"
  using assms by (auto simp: graph_wf_def distinct_map inj_on_def)

lemma get_inst_iff:
  assumes "graph_wf g"
  shows "get_inst g i = Some inst \<longleftrightarrow> inst \<in> set (all_insts g) \<and> hid inst = i"
proof
  assume "get_inst g i = Some inst"
  then show "inst \<in> set (all_insts g) \<and> hid inst = i"
    unfolding get_inst_def by (metis (mono_tags, lifting) find_Some_iff nth_mem)
next
  assume a: "inst \<in> set (all_insts g) \<and> hid inst = i"
  then obtain x where x: "get_inst g i = Some x"
    unfolding get_inst_def by (cases "find (\<lambda>inst. hid inst = i) (all_insts g)") (auto simp: find_None_iff)
  then have "x \<in> set (all_insts g) \<and> hid x = i"
    unfolding get_inst_def by (metis (mono_tags, lifting) find_Some_iff nth_mem)
  with a x hid_unique [OF assms] show "get_inst g i = Some inst" by blast
qed

lemma distinct_concat_nth:
  "distinct (concat xss) \<Longrightarrow> i < length xss \<Longrightarrow> j < length xss \<Longrightarrow> i \<noteq> j \<Longrightarrow> x \<in> set (xss ! i) \<Longrightarrow> x \<notin> set (xss ! j)"
proof (induction xss arbitrary: i j)
  case (Cons xs xss)
  have d: "distinct (concat xss)" "set xs \<inter> set (concat xss) = {}" using Cons.prems(1) by simp_all
  have sub: "set (xss ! k) \<subseteq> set (concat xss)" if "k < length xss" for k
    using nth_mem [OF that] by auto
  show ?case
  proof (cases i)
    case 0
    then obtain j' where "j = Suc j'" using Cons.prems(4) by (cases j) simp_all
    then show ?thesis using 0 Cons.prems(3,5) d(2) sub [of j'] by auto
  next
    case (Suc i')
    then show ?thesis
    proof (cases j)
      case 0
      then show ?thesis using Suc Cons.prems(2,5) d(2) sub [of i'] by auto
    next
      case (Suc j')
      then show ?thesis using \<open>i = Suc i'\<close> Cons.IH [OF d(1), of i' j'] Cons.prems by simp
    qed
  qed
qed simp

lemma distinct_concat_elem: "distinct (concat xss) \<Longrightarrow> xs \<in> set xss \<Longrightarrow> distinct xs"
  by (induction xss) auto

lemma other_block:
  assumes wf: "graph_wf g" and "x \<in> set (block_insts (blocks g ! b))" "y \<in> set (block_insts (blocks g ! k))"
    "b < length (blocks g)" "k < length (blocks g)" "b \<noteq> k"
  shows "hid x \<noteq> hid y"
proof
  assume eq: "hid x = hid y"
  let ?xss = "map (\<lambda>b. map hid (block_insts b)) (blocks g)"
  have "distinct (concat ?xss)" using wf by (simp add: graph_wf_def all_insts_def map_concat comp_def)
  moreover have "hid x \<in> set (?xss ! b)" "hid y \<in> set (?xss ! k)"
    using assms by (simp_all del: in_block_insts)
  ultimately show False using distinct_concat_nth [of ?xss b k "hid x"] assms(4-6) eq by simp
qed

lemma block_ids_distinct:
  assumes wf: "graph_wf g" and b: "b < length (blocks g)"
  shows "distinct (map hid (block_insts (blocks g ! b)))"
proof -
  have "distinct (concat (map (\<lambda>b. map hid (block_insts b)) (blocks g)))"
    using wf by (simp add: graph_wf_def all_insts_def map_concat comp_def)
  then show ?thesis by (rule distinct_concat_elem) (use b in simp)
qed

lemma phi_not_inst:
  assumes wf: "graph_wf g" and "phi \<in> set (hphis b)" "inst \<in> set (hinstructions b)" "b \<in> set (blocks g)"
  shows "hid phi \<noteq> hid inst"
proof
  assume eq: "hid phi = hid inst"
  have "distinct (map hid (block_insts b))"
    using block_ids_distinct [OF wf] assms(4) by (auto simp: in_set_conv_nth)
  then show False using assms(2,3) eq unfolding block_insts_def by (auto simp: distinct_map)
qed

lemma phi_hid_neq:
  assumes wf: "graph_wf g" and b: "b < length (blocks g)" "inst \<in> set (hinstructions (blocks g ! b))"
    and k: "k \<in> set (blocks g)" "phi \<in> set (hphis k)"
  shows "hid phi \<noteq> hid inst"
proof -
  obtain j where j: "j < length (blocks g)" "k = blocks g ! j" using k(1) by (auto simp: in_set_conv_nth)
  then show ?thesis
    using phi_not_inst [OF wf k(2) _ k(1), of inst] other_block [OF wf, of phi j inst b] b k
    by (cases "j = b") auto
qed

section \<open>Dead code elimination keeps every run\<close>

definition removed :: "nat \<Rightarrow> HInstruction \<Rightarrow> HInstruction list" where
  "removed i inst = (if hid inst = i then [] else [inst])"

lemma concat_map_removed: "concat (map (removed i) is) = filter (\<lambda>inst. hid inst \<noteq> i) is"
  by (induction "is") (auto simp: removed_def)

lemma filter_removed_other:
  assumes wf: "graph_wf g" and b: "b < length (blocks g)" and inst: "inst \<in> set (hinstructions (blocks g ! b))"
    and k: "k < length (blocks g)" "k \<noteq> b"
  shows "filter (\<lambda>x. hid x \<noteq> hid inst) (hinstructions (blocks g ! k)) = hinstructions (blocks g ! k)"
proof (rule filter_True, rule ballI)
  fix x assume "x \<in> set (hinstructions (blocks g ! k))"
  then show "hid x \<noteq> hid inst" using other_block [OF wf, of x k inst b] assms by auto
qed

lemma RemoveInstruction_blocks:
  assumes "graph_wf g" "b < length (blocks g)" "inst \<in> set (hinstructions (blocks g ! b))"
  shows "blocks (RemoveInstruction b (hid inst) g) =
    map (transform_block (rename_inst (hid inst) (hid inst)) (removed (hid inst))) (blocks g)"
proof (rule nth_equalityI)
  fix k assume k: "k < length (blocks (RemoveInstruction b (hid inst) g))"
  then have "k < length (blocks g)" by (simp add: RemoveInstruction_def edit_block_def)
  then show "blocks (RemoveInstruction b (hid inst) g) ! k =
      map (transform_block (rename_inst (hid inst) (hid inst)) (removed (hid inst))) (blocks g) ! k"
    using assms filter_removed_other [OF assms]
    by (simp add: RemoveInstruction_def edit_block_def transform_block_def concat_map_removed rename_inst_same
        nth_list_update)
qed (simp add: RemoveInstruction_def edit_block_def)

lemma RemoveInstruction_insts:
  assumes "graph_wf g" "b < length (blocks g)" "inst \<in> set (hinstructions (blocks g ! b))"
  shows "all_insts (RemoveInstruction b (hid inst) g) = filter (\<lambda>x. hid x \<noteq> hid inst) (all_insts g)"
proof -
  have "\<forall>k\<in>set (blocks g). filter (\<lambda>x. hid x \<noteq> hid inst) (hphis k) = hphis k"
  proof
    fix k assume k: "k \<in> set (blocks g)"
    show "filter (\<lambda>x. hid x \<noteq> hid inst) (hphis k) = hphis k"
      by (rule filter_True, rule ballI) (rule phi_hid_neq [OF assms k])
  qed
  then show ?thesis
    unfolding all_insts_def RemoveInstruction_blocks [OF assms] filter_concat map_map
    by (intro arg_cong [where f = concat] map_cong refl)
      (simp add: block_insts_def transform_block_def concat_map_removed rename_inst_same)
qed

lemma not_HasUses: "\<not> HasUses g i \<Longrightarrow> inst \<in> set (all_insts g) \<Longrightarrow> i \<notin> uses inst"
  by (auto simp: HasUses_def uses_def list_ex_iff)

definition same_runs :: "HGraph \<Rightarrow> HGraph \<Rightarrow> bool" where
  "same_runs g g' \<longleftrightarrow>
     (\<forall>n w k. run_graph n w g None k (Map.empty, []) \<noteq> RStuck \<longrightarrow>
        run_graph n w g' None k (Map.empty, []) = run_graph n w g None k (Map.empty, []))"

lemma same_runs_refl [simp]: "same_runs g g"
  by (simp add: same_runs_def)

lemma same_runs_trans: "same_runs g g' \<Longrightarrow> same_runs g' g'' \<Longrightarrow> same_runs g g''"
  by (simp add: same_runs_def)

lemma RemoveInstruction_same_runs:
  assumes wf: "graph_wf g" and b: "b < length (blocks g)" and inst: "inst \<in> set (hinstructions (blocks g ! b))"
    and pure: "\<not> IsControlFlow inst" "\<not> is_observable inst" and dead: "\<not> HasUses g (hid inst)"
  shows "same_runs g (RemoveInstruction b (hid inst) g)"
  unfolding same_runs_def
proof (intro allI impI)
  fix n w k assume ns: "run_graph n w g None k (Map.empty, []) \<noteq> RStuck"
  let ?i = "hid inst"
  let ?rel = "agree ?i ?i {?i}"
  have mem: "inst \<in> set (all_insts g)" using b inst by (auto simp: in_all_insts)
  have u: "uses x \<inter> {?i} = {}" if "x \<in> set (all_insts g)" for x using not_HasUses [OF dead that] by simp
  show "run_graph n w (RemoveInstruction b ?i g) None k (Map.empty, []) = run_graph n w g None k (Map.empty, [])"
  proof (rule run_graph_sim [OF RemoveInstruction_blocks [OF wf b inst] _ _ _ ns])
    fix bk x assume x: "bk \<in> set (blocks g)" "x \<in> set (hinstructions bk)"
    then have xm: "x \<in> set (all_insts g)" by (auto simp: in_all_insts)
    show "if IsControlFlow x then branch_matches ?rel x (removed ?i x) else matches w ?rel x (removed ?i x)"
    proof (cases "hid x = ?i")
      case True
      then have "x = inst" by (rule hid_unique [OF wf xm mem])
      have "kind inst \<noteq> DivZeroCheck" using pure(2) by (auto simp: is_observable_def)
      then have "matches w ?rel inst []"
        using pure by (auto simp: matches_def exec_inst_def agree_def split: option.splits flow_result.splits)
      then show ?thesis using pure True \<open>x = inst\<close> by (simp add: removed_def)
    next
      case False
      have r: "rename_inst ?i ?i x = x" by (simp add: rename_inst_same)
      have "branch_matches ?rel x [x]"
        using input_values_agree [OF _ u [OF xm], of ?i ?i] unfolding branch_matches_def r by auto
      moreover have "matches w ?rel x [x]" if "\<not> IsControlFlow x"
        unfolding matches_def
      proof (intro allI impI)
        fix \<sigma> \<sigma>' h assume a: "?rel \<sigma> \<sigma>'"
        show "case exec_inst w x (\<sigma>, h) of Stuck \<Rightarrow> True
         | Raised h1 \<Rightarrow> \<exists>y. [x] = [y] \<and> \<not> IsControlFlow y \<and> exec_inst w y (\<sigma>', h) = Raised h1
         | Continue (\<sigma>1, h1) \<Rightarrow> ([x] = [] \<and> h1 = h \<and> ?rel \<sigma>1 \<sigma>') \<or>
             (\<exists>y \<sigma>1'. [x] = [y] \<and> \<not> IsControlFlow y \<and> exec_inst w y (\<sigma>', h) = Continue (\<sigma>1', h1) \<and> ?rel \<sigma>1 \<sigma>1')"
          using exec_inst_rename [OF a u [OF xm], of w h] agree_upd [OF a False False] that
          unfolding r by (cases "exec_inst w x (\<sigma>, h)") auto
      qed
      ultimately show ?thesis using False by (simp add: removed_def)
    qed
  next
    fix bk assume bk: "bk \<in> set (blocks g)"
    have "hid phi \<noteq> ?i \<and> uses phi \<inter> {?i} = {}" if phi: "phi \<in> set (hphis bk)" for phi
    proof
      show "hid phi \<noteq> ?i" by (rule phi_hid_neq [OF wf b inst bk phi])
      show "uses phi \<inter> {?i} = {}" by (rule u) (use phi bk in \<open>auto simp: in_all_insts\<close>)
    qed
    then show "phis_match ?rel (rename_inst ?i ?i) (removed ?i) bk"
      unfolding phis_match_def using agree_phis [of ?i ?i "{?i}"] by blast
  qed (simp add: agree_def)
qed

lemma butlast_filter:
  "xs \<noteq> [] \<Longrightarrow> P (last xs) \<Longrightarrow> filter P xs \<noteq> [] \<and> last (filter P xs) = last xs \<and> butlast (filter P xs) = filter P (butlast xs)"
  by (induction xs rule: rev_induct) auto

lemma RemoveInstruction_wf:
  assumes wf: "graph_wf g" and b: "b < length (blocks g)" and inst: "inst \<in> set (hinstructions (blocks g ! b))"
    and dead: "\<not> HasUses g (hid inst)" and nc: "\<not> IsControlFlow inst"
  shows "graph_wf (RemoveInstruction b (hid inst) g)"
proof -
  let ?g = "RemoveInstruction b (hid inst) g" and ?i = "hid inst"
  note all = RemoveInstruction_insts [OF wf b inst]
  have rest: "reverse_post_order ?g = reverse_post_order g" "current_instruction_id ?g = current_instruction_id g"
      "length (blocks ?g) = length (blocks g)"
    by (simp_all add: RemoveInstruction_def edit_block_def)
  have mem: "inst \<in> set (all_insts g)" using b inst by (auto simp: in_all_insts)
  have "distinct (map hid (all_insts ?g))" using wf unfolding all graph_wf_def by (simp add: distinct_map_filter)
  moreover have "uses x \<subseteq> hid ` set (all_insts ?g)" if "x \<in> set (all_insts ?g)" for x
  proof
    fix j assume j: "j \<in> uses x"
    have x: "x \<in> set (all_insts g)" using that unfolding all by simp
    then obtain y where "y \<in> set (all_insts g)" "j = hid y" using wf j unfolding graph_wf_def by blast
    moreover have "j \<noteq> ?i" using not_HasUses [OF dead x] j by auto
    ultimately show "j \<in> hid ` set (all_insts ?g)" unfolding all by auto
  qed
  moreover have "block_wf (transform_block (rename_inst ?i ?i) (removed ?i) bk)" if bk: "bk \<in> set (blocks g)" for bk
  proof -
    have w: "block_wf bk" using wf bk by (simp add: graph_wf_def)
    let ?P = "\<lambda>x. hid x \<noteq> ?i"
    have "last (hinstructions bk) \<in> set (hinstructions bk)" using w by (simp add: block_wf_def)
    then have "last (hinstructions bk) \<in> set (all_insts g)" using bk by (auto simp: in_all_insts)
    then have l: "?P (last (hinstructions bk))"
      using hid_unique [OF wf _ mem] w nc by (auto simp: block_wf_def)
    have "hinstructions bk \<noteq> []" using w by (simp add: block_wf_def)
    from butlast_filter [OF this, of ?P, OF l] w show ?thesis
      by (simp add: block_wf_def transform_block_def concat_map_removed rename_inst_same)
  qed
  ultimately show ?thesis
    using wf RemoveInstruction_blocks [OF wf b inst] unfolding graph_wf_def rest by (auto simp: all)
qed

lemma each_related:
  assumes "Q xs g" and step: "\<And>x xs g. Q (x # xs) g \<Longrightarrow> \<exists>g'. f x g = Some g' \<and> R g g' \<and> Q xs g'"
    and R: "reflp R" "transp R"
  shows "\<exists>g'. each f xs g = Some g' \<and> R g g' \<and> Q [] g'"
  using assms(1)
proof (induction xs arbitrary: g)
  case (Cons x xs)
  obtain g1 where g1: "f x g = Some g1" "R g g1" "Q xs g1" using step [OF Cons.prems] by blast
  obtain g2 where "each f xs g1 = Some g2" "R g1 g2" "Q [] g2" using Cons.IH [OF g1(3)] by blast
  then show ?case using g1 transpD [OF R(2)] by auto
qed (simp add: reflpD [OF R(1)])

lemma each_sound:
  assumes "Q xs g" "\<And>x xs g. Q (x # xs) g \<Longrightarrow> \<exists>g'. f x g = Some g' \<and> same_runs g g' \<and> Q xs g'"
  shows "\<exists>g'. each f xs g = Some g' \<and> same_runs g g' \<and> Q [] g'"
proof (rule each_related [where R = same_runs])
  show "reflp same_runs" by (rule reflpI) simp
  show "transp same_runs" by (rule transpI) (rule same_runs_trans)
qed (use assms in blast)+

text \<open>
  Elimination only removes instructions, and it keeps the runs when it has removed none whose effect
  the flags do not tell of.
\<close>

definition keeps_silent_effects :: "HGraph \<Rightarrow> HGraph \<Rightarrow> bool" where
  "keeps_silent_effects g g' \<longleftrightarrow>
     (\<forall>inst\<in>set (all_insts g). has_silent_effect inst \<longrightarrow> hid inst \<in> hid ` set (all_insts g'))"

definition eliminated :: "HGraph \<Rightarrow> HGraph \<Rightarrow> bool" where
  "eliminated g g' \<longleftrightarrow> set (all_insts g') \<subseteq> set (all_insts g) \<and> (keeps_silent_effects g g' \<longrightarrow> same_runs g g')"

lemma eliminated_refl: "eliminated g g"
  by (simp add: eliminated_def)

lemma eliminated_trans:
  assumes "eliminated g g'" "eliminated g' g''"
  shows "eliminated g g''"
proof -
  have sub: "set (all_insts g'') \<subseteq> set (all_insts g')" "set (all_insts g') \<subseteq> set (all_insts g)"
    using assms by (simp_all add: eliminated_def)
  have "same_runs g g''" if k: "keeps_silent_effects g g''"
  proof (rule same_runs_trans)
    have "keeps_silent_effects g g'" using k sub(1) unfolding keeps_silent_effects_def by (meson image_mono subsetD)
    then show "same_runs g g'" using assms(1) by (simp add: eliminated_def)
    have "keeps_silent_effects g' g''" using k sub(2) unfolding keeps_silent_effects_def by blast
    then show "same_runs g' g''" using assms(2) by (simp add: eliminated_def)
  qed
  with sub show ?thesis by (auto simp: eliminated_def)
qed

lemma each_eliminates:
  assumes "Q xs g" "\<And>x xs g. Q (x # xs) g \<Longrightarrow> \<exists>g'. f x g = Some g' \<and> eliminated g g' \<and> Q xs g'"
  shows "\<exists>g'. each f xs g = Some g' \<and> eliminated g g' \<and> Q [] g'"
proof (rule each_related [where R = eliminated])
  show "reflp eliminated" by (rule reflpI) (rule eliminated_refl)
  show "transp eliminated" by (rule transpI) (rule eliminated_trans)
qed (use assms in blast)+

lemma eliminated_RemoveInstruction:
  assumes wf: "graph_wf g" and b: "b < length (blocks g)" and inst: "inst \<in> set (hinstructions (blocks g ! b))"
    and nc: "\<not> IsControlFlow inst" and flags: "\<not> (HasSideEffects inst \<or> CanThrow inst \<or> kind inst = SuspendCheck)"
    and dead: "\<not> HasUses g (hid inst)"
  shows "eliminated g (RemoveInstruction b (hid inst) g)"
proof -
  note all = RemoveInstruction_insts [OF wf b inst]
  have mem: "inst \<in> set (all_insts g)" using b inst by (auto simp: in_all_insts)
  have "same_runs g (RemoveInstruction b (hid inst) g)"
    if k: "keeps_silent_effects g (RemoveInstruction b (hid inst) g)"
  proof (rule RemoveInstruction_same_runs [OF wf b inst nc _ dead])
    have "\<not> has_silent_effect inst" using k mem by (auto simp: keeps_silent_effects_def all)
    then show "\<not> is_observable inst" using flags_truthful flags by blast
  qed
  then show ?thesis by (auto simp: eliminated_def all)
qed

definition eliminate_todo :: "nat \<Rightarrow> nat list \<Rightarrow> HGraph \<Rightarrow> bool" where
  "eliminate_todo b ids g \<longleftrightarrow> graph_wf g \<and> b < length (blocks g) \<and> distinct ids \<and>
     set ids \<subseteq> hid ` set (butlast (hinstructions (blocks g ! b)))"

lemma eliminate_inst_step:
  assumes "eliminate_todo b (i # ids) g"
  shows "\<exists>g'. eliminate_inst b i g = Some g' \<and> eliminated g g' \<and>
    (eliminate_todo b ids g' \<and> length (blocks g') = length (blocks g))"
proof -
  have wf: "graph_wf g" and b: "b < length (blocks g)" using assms by (simp_all add: eliminate_todo_def)
  obtain inst where inst: "inst \<in> set (butlast (hinstructions (blocks g ! b)))" "hid inst = i"
    using assms by (auto simp: eliminate_todo_def)
  then have mem: "inst \<in> set (hinstructions (blocks g ! b))" by (auto dest: in_set_butlastD)
  have bwf: "block_wf (blocks g ! b)" using wf b by (simp add: graph_wf_def)
  then have nc: "\<not> IsControlFlow inst" using inst by (simp add: block_wf_def)
  have "inst \<in> set (all_insts g)" using b mem by (auto simp: in_all_insts)
  then have get: "get_inst g i = Some inst" using inst(2) get_inst_iff [OF wf] by simp
  show ?thesis
  proof (cases "HasSideEffects inst \<or> CanThrow inst \<or> kind inst = SuspendCheck \<or> HasUses g i")
    case True
    then have "eliminate_inst b i g = Some g" using get nc by (auto simp: eliminate_inst_def)
    then show ?thesis using assms eliminated_refl by (auto simp: eliminate_todo_def)
  next
    case False
    let ?g = "RemoveInstruction b i g"
    have dead: "\<not> HasUses g (hid inst)" using False inst by simp
    have "eliminate_inst b i g = Some ?g" using False get nc by (auto simp: eliminate_inst_def)
    moreover have "eliminated g ?g"
      using eliminated_RemoveInstruction [OF wf b mem nc _ dead] False inst by simp
    moreover have "graph_wf ?g" using RemoveInstruction_wf [OF wf b mem dead nc] inst by simp
    moreover have len: "length (blocks ?g) = length (blocks g)"
      by (simp add: RemoveInstruction_def edit_block_def)
    moreover have "set ids \<subseteq> hid ` set (butlast (hinstructions (blocks ?g ! b)))"
    proof
      fix j assume j: "j \<in> set ids"
      have "j \<in> hid ` set (butlast (hinstructions (blocks g ! b)))" "j \<noteq> i"
        using assms j by (auto simp: eliminate_todo_def)
      then obtain x where x: "x \<in> set (butlast (hinstructions (blocks g ! b)))" "hid x = j" "j \<noteq> i" by blast
      have ne: "hinstructions (blocks g ! b) \<noteq> []" using bwf by (simp add: block_wf_def)
      have "last (hinstructions (blocks g ! b)) \<in> set (all_insts g)"
        using b last_in_set [OF ne] by (auto simp: in_all_insts)
      then have "hid (last (hinstructions (blocks g ! b))) \<noteq> i"
        using hid_unique [OF wf _ \<open>inst \<in> set (all_insts g)\<close>] inst(2) nc bwf by (auto simp: block_wf_def)
      then have "butlast (hinstructions (blocks ?g ! b)) =
          filter (\<lambda>x. hid x \<noteq> i) (butlast (hinstructions (blocks g ! b)))"
        using butlast_filter [OF ne, of "\<lambda>x. hid x \<noteq> i"] b by (simp add: RemoveInstruction_def edit_block_def)
      then show "j \<in> hid ` set (butlast (hinstructions (blocks ?g ! b)))" using x by auto
    qed
    ultimately show ?thesis using assms b by (auto simp: eliminate_todo_def)
  qed
qed

lemma eliminate_block_step:
  assumes "graph_wf g \<and> set (b # bs) \<subseteq> {..<length (blocks g)}"
  shows "\<exists>g'. eliminate_block b g = Some g' \<and> eliminated g g' \<and> (graph_wf g' \<and> set bs \<subseteq> {..<length (blocks g')})"
proof -
  have wf: "graph_wf g" and b: "b < length (blocks g)" using assms by simp_all
  let ?is = "hinstructions (blocks g ! b)"
  have bwf: "block_wf (blocks g ! b)" using wf b by (simp add: graph_wf_def)
  then have rev: "rev ?is = last ?is # rev (butlast ?is)"
    by (simp add: block_wf_def)
  have "distinct (map hid (butlast ?is))"
    using block_ids_distinct [OF wf b] by (simp add: block_insts_def distinct_butlast map_butlast)
  then have "eliminate_todo b (map hid (rev (butlast ?is))) g \<and> length (blocks g) = length (blocks g)"
    using wf b by (simp add: eliminate_todo_def rev_map [symmetric])
  from each_eliminates [where Q = "\<lambda>ids g'. eliminate_todo b ids g' \<and> length (blocks g') = length (blocks g)", OF this]
  obtain g' where "each (eliminate_inst b) (map hid (rev (butlast ?is))) g = Some g'" "eliminated g g'"
      "eliminate_todo b [] g'" "length (blocks g') = length (blocks g)"
    using eliminate_inst_step by metis
  moreover have "eliminate_block b g = each (eliminate_inst b) (map hid (rev (butlast ?is))) g"
    unfolding eliminate_block_def rev list.case using bwf by (simp add: block_wf_def)
  ultimately show ?thesis
    using assms by (auto simp: eliminate_todo_def)
qed

lemma dead_code_elimination_spec:
  assumes "graph_wf g"
  shows "\<exists>g'. HDeadCodeElimination_Run g = Some g' \<and> eliminated g g' \<and> graph_wf g'"
proof -
  have "graph_wf g \<and> set (rev (reverse_post_order g)) \<subseteq> {..<length (blocks g)}"
    using assms by (simp add: graph_wf_def)
  from each_eliminates [where Q = "\<lambda>bs g. graph_wf g \<and> set bs \<subseteq> {..<length (blocks g)}", OF this]
  show ?thesis using eliminate_block_step unfolding HDeadCodeElimination_Run_def by blast
qed


definition dead_sample :: HGraph where
  "dead_sample = \<lparr>blocks = [\<lparr>hphis = [], hinstructions =
       [\<lparr>hid = 0, kind = IntConstant 3, htype = kPrimInt, hinputs = [], henv = []\<rparr>,
        \<lparr>hid = 1, kind = BinaryOperation HAdd, htype = kPrimInt, hinputs = [0, 0], henv = []\<rparr>,
        \<lparr>hid = 2, kind = UnaryOperation HNeg, htype = kPrimInt, hinputs = [1], henv = []\<rparr>,
        \<lparr>hid = 3, kind = Opaque HNewArray 7, htype = kPrimNot, hinputs = [0], henv = [Some 0, None]\<rparr>,
        \<lparr>hid = 5, kind = Opaque HInvokeStatic 1, htype = kPrimVoid, hinputs = [3], henv = [None]\<rparr>,
        \<lparr>hid = 4, kind = HReturnVoid, htype = kPrimVoid, hinputs = [], henv = []\<rparr>],
      hpredecessors = [], hsuccessors = []\<rparr>],
   reverse_post_order = [0], current_instruction_id = 6\<rparr>"


text \<open>
  The condition on the removed instructions is needed: an unused new array is removed, and with it
  the exception that a negative length raises.
\<close>

definition unused_array_sample :: HGraph where
  "unused_array_sample = \<lparr>blocks = [\<lparr>hphis = [], hinstructions =
       [\<lparr>hid = 0, kind = IntConstant (- 1), htype = kPrimInt, hinputs = [], henv = []\<rparr>,
        \<lparr>hid = 1, kind = Opaque HNewArray 7, htype = kPrimNot, hinputs = [0], henv = []\<rparr>,
        \<lparr>hid = 2, kind = HReturnVoid, htype = kPrimVoid, hinputs = [], henv = []\<rparr>],
      hpredecessors = [], hsuccessors = []\<rparr>],
   reverse_post_order = [0], current_instruction_id = 3\<rparr>"

lemma unused_new_array_is_removed:
  "HDeadCodeElimination_Run unused_array_sample = Some (unused_array_sample\<lparr>blocks := [\<lparr>hphis = [], hinstructions =
      [\<lparr>hid = 2, kind = HReturnVoid, htype = kPrimVoid, hinputs = [], henv = []\<rparr>],
      hpredecessors = [], hsuccessors = []\<rparr>]\<rparr>) \<and>
   run_graph 1 \<lparr>observe = \<lambda>h e. None, opaque_value = \<lambda>h k vs. VOther 0\<rparr> unused_array_sample None 0 (Map.empty, []) =
     RRaised [(Opaque HNewArray 7, [VInt (- 1)], [])]"
proof
  show "run_graph 1 \<lparr>observe = \<lambda>h e. None, opaque_value = \<lambda>h k vs. VOther 0\<rparr> unused_array_sample None 0 (Map.empty, []) =
     RRaised [(Opaque HNewArray 7, [VInt (- 1)], [])]"
    by (simp add: unused_array_sample_def enter_block_def exec_inst_def input_values_def env_values_def pure_value_def
        IsControlFlow_def is_observable_def)
qed code_simp

end
