(* ===== verification/ConstantFolding.thy ===== *)
theory ConstantFolding
  imports GraphPasses
begin

text \<open>
  Constant folding of the optimizing compiler, \<^verbatim>\<open>constant_folding.cc\<close>, and the proof that it keeps
  every run of a graph that has the types the builder gives it and in which no comparison of two longs
  is folded.
\<close>

section \<open>The pass\<close>

text \<open>The body of the inner loop of \<^verbatim>\<open>HConstantFolding::Run\<close>, for the instruction \<open>i\<close> of block \<open>b\<close>.\<close>

definition static_evaluation :: "HGraph \<Rightarrow> HInstruction \<Rightarrow> HKind option option" where
  "static_evaluation g inst =
     (case (kind inst, hinputs inst) of
        (BinaryOperation op, [l, r]) \<Rightarrow> do {
          left \<leftarrow> get_inst g l;
          right \<leftarrow> get_inst g r;
          TryStaticEvaluation_binary op (kind left) (kind right)
        }
      | (UnaryOperation op, [l]) \<Rightarrow> do {
          input \<leftarrow> get_inst g l;
          TryStaticEvaluation_unary op (kind input)
        }
      | (BinaryOperation op, _) \<Rightarrow> None
      | (UnaryOperation op, _) \<Rightarrow> None
      | _ \<Rightarrow> Some None)"

definition fold_inst :: "nat \<Rightarrow> nat \<Rightarrow> HGraph \<Rightarrow> HGraph option" where
  "fold_inst b i g = do {
     inst \<leftarrow> get_inst g i;
     constant \<leftarrow> static_evaluation g inst;
     (case constant of
        None \<Rightarrow> Some g
      | Some k \<Rightarrow> Some (ReplaceAndRemoveInstructionWith b i (new_constant k) g))
   }"

definition fold_block :: "nat \<Rightarrow> HGraph \<Rightarrow> HGraph option" where
  "fold_block b g = each (fold_inst b) (map hid (hinstructions (blocks g ! b))) g"

definition HConstantFolding_Run :: "HGraph \<Rightarrow> HGraph option" where
  "HConstantFolding_Run g = each fold_block (reverse_post_order g) g"

section \<open>Constant folding keeps every run\<close>

definition constant_inst :: "nat \<Rightarrow> HKind \<Rightarrow> HInstruction" where
  "constant_inst c k = (new_constant k)\<lparr>hid := c\<rparr>"

definition folded :: "nat \<Rightarrow> nat \<Rightarrow> HKind \<Rightarrow> HInstruction \<Rightarrow> HInstruction list" where
  "folded i c k inst = (if hid inst = i then [constant_inst c k] else [rename_inst i c inst])"

lemma constant_inst_simps [simp]:
  "hid (constant_inst c k) = c" "kind (constant_inst c k) = k" "hinputs (constant_inst c k) = []"
  "henv (constant_inst c k) = []" "rename_inst i j (constant_inst c k) = constant_inst c k" "uses (constant_inst c k) = {}"
  by (simp_all add: constant_inst_def new_constant_def rename_inst_def uses_def)

lemma replace_in_list:
  assumes "c \<noteq> i"
  shows "filter (\<lambda>x. hid x \<noteq> i) (map (rename_inst i c) (concat (map (\<lambda>x. if hid x = i
      then [(new_constant k)\<lparr>hid := c\<rparr>, x] else [x]) is))) = concat (map (folded i c k) is)"
  using assms unfolding constant_inst_def [symmetric] by (induction "is") (simp_all add: folded_def)

lemma folded_none: "\<forall>x\<in>set is. hid x \<noteq> i \<Longrightarrow> concat (map (folded i c k) is) = map (rename_inst i c) is"
  by (induction "is") (simp_all add: folded_def)

definition replaced_by_constant :: "nat \<Rightarrow> nat \<Rightarrow> HKind \<Rightarrow> HGraph \<Rightarrow> HGraph" where
  "replaced_by_constant b i k g = ReplaceAndRemoveInstructionWith b i (new_constant k) g"

lemma replaced_blocks:
  assumes wf: "graph_wf g" and b: "b < length (blocks g)" and inst: "inst \<in> set (hinstructions (blocks g ! b))"
  shows "blocks (replaced_by_constant b (hid inst) k g) = map (transform_block
    (rename_inst (hid inst) (current_instruction_id g)) (folded (hid inst) (current_instruction_id g) k)) (blocks g)"
proof (rule nth_equalityI)
  let ?g = "replaced_by_constant b (hid inst) k g" and ?i = "hid inst" and ?c = "current_instruction_id g"
  let ?is = "concat (map (\<lambda>x. if hid x = ?i then [(new_constant k)\<lparr>hid := ?c\<rparr>, x] else [x]) (hinstructions (blocks g ! b)))"
  have "inst \<in> set (all_insts g)" using b inst by (auto simp: in_all_insts)
  then have ci: "?c \<noteq> ?i" using wf by (auto simp: graph_wf_def)
  have blk: "blocks ?g = (map (map_insts (rename_inst ?i ?c)) ((blocks g)[b := (blocks g ! b)\<lparr>hinstructions := ?is\<rparr>]))
      [b := (map_insts (rename_inst ?i ?c) ((blocks g ! b)\<lparr>hinstructions := ?is\<rparr>))
      \<lparr>hinstructions := concat (map (folded ?i ?c k) (hinstructions (blocks g ! b)))\<rparr>]"
    using b by (simp add: replaced_by_constant_def ReplaceAndRemoveInstructionWith_def RemoveInstruction_def
        edit_block_def ReplaceWith_def InsertInstructionBefore_def map_insts_def replace_in_list [OF ci])
  show "length (blocks ?g) = length (map (transform_block (rename_inst ?i ?c) (folded ?i ?c k)) (blocks g))"
    by (simp add: blk)
  fix j assume "j < length (blocks ?g)"
  then have j: "j < length (blocks g)" by (simp add: blk)
  show "blocks ?g ! j = map (transform_block (rename_inst ?i ?c) (folded ?i ?c k)) (blocks g) ! j"
  proof (cases "j = b")
    case True
    then show ?thesis using b by (simp add: blk transform_block_def map_insts_def)
  next
    case False
    have "\<forall>x\<in>set (hinstructions (blocks g ! j)). hid x \<noteq> ?i"
    proof
      fix x assume "x \<in> set (hinstructions (blocks g ! j))"
      then show "hid x \<noteq> ?i" using other_block [OF wf, of x j inst b] False j b inst by auto
    qed
    then show ?thesis using False j by (simp add: blk transform_block_def map_insts_def folded_none)
  qed
qed

lemma replaced_insts:
  assumes wf: "graph_wf g" and b: "b < length (blocks g)" and inst: "inst \<in> set (hinstructions (blocks g ! b))"
  shows "all_insts (replaced_by_constant b (hid inst) k g) =
    concat (map (folded (hid inst) (current_instruction_id g) k) (all_insts g))"
proof -
  let ?c = "current_instruction_id g"
  have ph: "map (rename_inst (hid inst) ?c) (hphis bk) = concat (map (folded (hid inst) ?c k) (hphis bk))"
    if "bk \<in> set (blocks g)" for bk
    using phi_hid_neq [OF wf b inst that] by (simp add: folded_none)
  have eq: "map (\<lambda>bk. block_insts (transform_block (rename_inst (hid inst) ?c) (folded (hid inst) ?c k) bk)) (blocks g) =
      map (\<lambda>bk. concat (map (folded (hid inst) ?c k) (block_insts bk))) (blocks g)"
    by (rule map_cong [OF refl]) (simp add: block_insts_def transform_block_def ph)
  have "concat (map f (concat (map h xs))) = concat (map (\<lambda>x. concat (map f (h x))) xs)"
    for f :: "HInstruction \<Rightarrow> HInstruction list" and h :: "HBasicBlock \<Rightarrow> HInstruction list" and xs
    by (induction xs) simp_all
  then show ?thesis
    unfolding all_insts_def replaced_blocks [OF assms] map_map comp_def eq by simp
qed

lemma in_replaced_insts:
  assumes "graph_wf g" "b < length (blocks g)" "inst \<in> set (hinstructions (blocks g ! b))"
  shows "x \<in> set (all_insts (replaced_by_constant b (hid inst) k g)) \<longleftrightarrow>
    x = constant_inst (current_instruction_id g) k \<or>
    (\<exists>y\<in>set (all_insts g). y \<noteq> inst \<and> x = rename_inst (hid inst) (current_instruction_id g) y)"
proof -
  have mem: "inst \<in> set (all_insts g)" using assms by (auto simp: in_all_insts)
  have u: "hid y = hid inst \<longleftrightarrow> y = inst" if "y \<in> set (all_insts g)" for y
    using hid_unique [OF assms(1) that mem] by auto
  have "x \<in> set (all_insts (replaced_by_constant b (hid inst) k g)) \<longleftrightarrow>
      (\<exists>y\<in>set (all_insts g). x \<in> set (folded (hid inst) (current_instruction_id g) k y))"
    unfolding replaced_insts [OF assms] by simp
  also have "\<dots> \<longleftrightarrow> (\<exists>y\<in>set (all_insts g). if y = inst then x = constant_inst (current_instruction_id g) k
      else x = rename_inst (hid inst) (current_instruction_id g) y)"
    by (rule bex_cong [OF refl]) (simp add: folded_def u)
  also have "\<dots> \<longleftrightarrow> x = constant_inst (current_instruction_id g) k \<or>
    (\<exists>y\<in>set (all_insts g). y \<noteq> inst \<and> x = rename_inst (hid inst) (current_instruction_id g) y)"
    using mem by auto
  finally show ?thesis .
qed

lemma replaced_ids:
  assumes "graph_wf g" "b < length (blocks g)" "inst \<in> set (hinstructions (blocks g ! b))"
  shows "map hid (all_insts (replaced_by_constant b (hid inst) k g)) =
    map (rename (hid inst) (current_instruction_id g)) (map hid (all_insts g))"
proof -
  have "map hid (concat (map (folded i c k) xs)) = map (rename i c) (map hid xs)" for i c xs
    by (induction xs) (simp_all add: folded_def rename_def)
  then show ?thesis unfolding replaced_insts [OF assms] .
qed

text \<open>
  What the pass needs of types. The builder guarantees most of it: the first operand of an
  arithmetic operation is of the class of its result, comparisons give ints, \<^const>\<open>HNot\<close> and
  \<^const>\<open>HNeg\<close> are not applied to booleans, and an integer division has a non-zero constant or a zero
  check as divisor. One condition is a restriction: a comparison of longs must have an operand that
  is neither a long constant nor the result of a binary operation on longs. The builder makes such
  comparisons (\<^verbatim>\<open>cmp-long\<close> of two constants, say), and folding them is wrong, as the last section
  shows.
\<close>

datatype value_class = IntClass | LongClass | OtherClass

primrec class_of_type :: "Primitive \<Rightarrow> value_class" where
  "class_of_type kPrimNot = OtherClass"
| "class_of_type kPrimBoolean = IntClass"
| "class_of_type kPrimByte = IntClass"
| "class_of_type kPrimChar = IntClass"
| "class_of_type kPrimShort = IntClass"
| "class_of_type kPrimInt = IntClass"
| "class_of_type kPrimLong = LongClass"
| "class_of_type kPrimFloat = OtherClass"
| "class_of_type kPrimDouble = OtherClass"
| "class_of_type kPrimVoid = OtherClass"

definition has_class :: "HGraph \<Rightarrow> nat \<Rightarrow> value_class \<Rightarrow> bool" where
  "has_class g i cl \<longleftrightarrow> list_ex (\<lambda>inst. hid inst = i \<and> class_of_type (htype inst) = cl) (all_insts g)"

definition foldable_long :: "HGraph \<Rightarrow> nat \<Rightarrow> bool" where
  "foldable_long g i \<longleftrightarrow> list_ex (\<lambda>d. hid d = i \<and> class_of_type (htype d) = LongClass \<and> (case kind d of
     LongConstant _ \<Rightarrow> True | BinaryOperation _ \<Rightarrow> True | _ \<Rightarrow> False)) (all_insts g)"

definition safe_divisor :: "HGraph \<Rightarrow> nat \<Rightarrow> bool" where
  "safe_divisor g i \<longleftrightarrow> list_ex (\<lambda>d. hid d = i \<and> (case kind d of
     DivZeroCheck \<Rightarrow> True | IntConstant x \<Rightarrow> x \<noteq> 0 | LongConstant x \<Rightarrow> x \<noteq> 0 | _ \<Rightarrow> False)) (all_insts g)"

definition inst_typed :: "HGraph \<Rightarrow> HInstruction \<Rightarrow> bool" where
  "inst_typed g inst = (case kind inst of
     IntConstant _ \<Rightarrow> class_of_type (htype inst) = IntClass
   | LongConstant _ \<Rightarrow> class_of_type (htype inst) = LongClass
   | BinaryOperation op \<Rightarrow>
       (case hinputs inst of
          [l, r] \<Rightarrow>
            if is_comparison op
            then class_of_type (htype inst) = IntClass \<and> \<not> (foldable_long g l \<and> foldable_long g r)
            else has_class g l (class_of_type (htype inst)) \<and>
              (op \<in> {HDiv, HRem} \<and> class_of_type (htype inst) \<noteq> OtherClass \<longrightarrow> safe_divisor g r)
        | _ \<Rightarrow> False)
   | UnaryOperation op \<Rightarrow>
       (case hinputs inst of
          [l] \<Rightarrow> has_class g l (class_of_type (htype inst)) \<and> htype inst \<noteq> kPrimBoolean
        | _ \<Rightarrow> False)
   | _ \<Rightarrow> True)"

definition graph_typed :: "HGraph \<Rightarrow> bool" where
  "graph_typed g \<longleftrightarrow> list_all (inst_typed g) (all_insts g)"

definition constant_value :: "HKind \<Rightarrow> hvalue option" where
  "constant_value k = (case k of IntConstant x \<Rightarrow> Some (VInt x) | LongConstant x \<Rightarrow> Some (VLong x) | _ \<Rightarrow> None)"

definition constants_hold :: "HGraph \<Rightarrow> (nat \<rightharpoonup> hvalue) \<Rightarrow> bool" where
  "constants_hold g \<sigma> \<longleftrightarrow> (\<forall>inst\<in>set (all_insts g). \<forall>v x.
     constant_value (kind inst) = Some v \<longrightarrow> \<sigma> (hid inst) = Some x \<longrightarrow> x = v)"

lemma has_class_iff:
  assumes "graph_wf g" "inst \<in> set (all_insts g)"
  shows "has_class g (hid inst) cl \<longleftrightarrow> class_of_type (htype inst) = cl"
  using assms hid_unique [OF assms(1) _ assms(2)] by (auto simp: has_class_def list_ex_iff)

lemma foldable_long_iff:
  assumes "graph_wf g" "d \<in> set (all_insts g)"
  shows "foldable_long g (hid d) \<longleftrightarrow> class_of_type (htype d) = LongClass \<and>
    (case kind d of LongConstant _ \<Rightarrow> True | BinaryOperation _ \<Rightarrow> True | _ \<Rightarrow> False)"
proof -
  have "hid x = hid d \<longleftrightarrow> x = d" if "x \<in> set (all_insts g)" for x
    using hid_unique [OF assms(1) that assms(2)] by auto
  then show ?thesis using assms(2) unfolding foldable_long_def list_ex_iff by blast
qed

lemma safe_divisor_iff:
  assumes "graph_wf g" "d \<in> set (all_insts g)"
  shows "safe_divisor g (hid d) \<longleftrightarrow> (case kind d of
     DivZeroCheck \<Rightarrow> True | IntConstant x \<Rightarrow> x \<noteq> 0 | LongConstant x \<Rightarrow> x \<noteq> 0 | _ \<Rightarrow> False)"
proof -
  have "hid x = hid d \<longleftrightarrow> x = d" if "x \<in> set (all_insts g)" for x
    using hid_unique [OF assms(1) that assms(2)] by auto
  then show ?thesis using assms(2) unfolding safe_divisor_def list_ex_iff by blast
qed

text \<open>Every input of an instruction is an instruction of the graph.\<close>

lemma input_inst:
  assumes "graph_wf g" "inst \<in> set (all_insts g)" "i \<in> set (hinputs inst)"
  obtains x where "x \<in> set (all_insts g)" "hid x = i" "get_inst g i = Some x"
proof -
  have "i \<in> hid ` set (all_insts g)" using assms by (auto simp: graph_wf_def uses_def)
  then show ?thesis using that get_inst_iff [OF assms(1)] by auto
qed

lemma Evaluate_int_None: "Evaluate_int op x y = None \<longleftrightarrow> op \<in> {HDiv, HRem} \<and> y = 0"
  by (cases op) (auto simp: Evaluate_int_def Evaluate_comparison_def c_div_def c_rem_def)

lemma Evaluate_long_None: "Evaluate_long op x y = None \<longleftrightarrow> op \<in> {HDiv, HRem} \<and> y = 0"
  by (cases op) (auto simp: Evaluate_long_def Evaluate_comparison_def c_div_def c_rem_def)

lemma binary_constant:
  assumes "TryStaticEvaluation_binary op k1 k2 = Some (Some k)"
  obtains x y v where "k1 = IntConstant x" "k2 = IntConstant y" "Evaluate_int op x y = Some v" "k = IntConstant v"
  | x y v where "k1 = LongConstant x" "k2 = LongConstant y" "Evaluate_long op x y = Some v" "k = LongConstant v"
  using assms that by (cases k1; cases k2) (auto simp: TryStaticEvaluation_binary_def)

lemma unary_constant:
  assumes "TryStaticEvaluation_unary op k1 = Some (Some k)"
  obtains x where "k1 = IntConstant x" "k = IntConstant (Evaluate_unary_int op x)"
  using assms that by (cases k1) (auto simp: TryStaticEvaluation_unary_def)

lemma static_evaluation_cases:
  assumes "static_evaluation g inst = Some (Some k)"
  obtains op l r a b where "kind inst = BinaryOperation op" "hinputs inst = [l, r]"
      "get_inst g l = Some a" "get_inst g r = Some b" "TryStaticEvaluation_binary op (kind a) (kind b) = Some (Some k)"
  | op l a where "kind inst = UnaryOperation op" "hinputs inst = [l]"
      "get_inst g l = Some a" "TryStaticEvaluation_unary op (kind a) = Some (Some k)"
  using assms that
  by (cases "kind inst") (auto simp: static_evaluation_def bind_eq_Some_conv split: list.splits)

lemma long_constant_foldable:
  assumes wf: "graph_wf g" and ty: "graph_typed g" and a: "get_inst g l = Some a" "kind a = LongConstant x"
  shows "foldable_long g l"
proof -
  have m: "a \<in> set (all_insts g)" "hid a = l" using a(1) get_inst_iff [OF wf] by auto
  then have "inst_typed g a" using ty by (simp add: graph_typed_def list_all_iff)
  with m a(2) show ?thesis using foldable_long_iff [OF wf m(1)] by (simp add: inst_typed_def)
qed

lemma exec_folded:
  assumes wf: "graph_wf g" and ty: "graph_typed g" and inst: "inst \<in> set (all_insts g)"
    and k: "static_evaluation g inst = Some (Some k)" and c: "constants_hold g \<sigma>"
  shows "exec_inst w inst (\<sigma>, h) = Stuck \<or>
    (\<exists>v. constant_value k = Some v \<and> exec_inst w inst (\<sigma>, h) = Continue (\<sigma>(hid inst \<mapsto> v), h))"
proof (cases "exec_inst w inst (\<sigma>, h) = Stuck")
  case False
  have it: "inst_typed g inst" using ty inst by (simp add: graph_typed_def list_all_iff)
  obtain vs es where v: "input_values \<sigma> inst = Some vs" "env_values \<sigma> inst = Some es"
    using False by (auto simp: exec_inst_def split: option.splits)
  have con: "x = v" if "get_inst g j = Some a" "constant_value (kind a) = Some v" "\<sigma> j = Some x" for j a v x
    using c that get_inst_iff [OF wf] by (auto simp: constants_hold_def)
  have "\<exists>y. constant_value k = Some y \<and> pure_value w h inst vs = Some y"
    using k
  proof (cases rule: static_evaluation_cases)
    case (1 op l r a b)
    obtain x y where xy: "vs = [x, y]" "\<sigma> l = Some x" "\<sigma> r = Some y"
      using v(1) 1 unfolding input_values_def those_Some_iff by (auto simp: map_eq_Cons_conv Cons_eq_map_conv)
    from 1(5) show ?thesis
    proof (cases rule: binary_constant)
      case (1 x' y' u)
      then have "x = VInt x'" "y = VInt y'"
        using con [OF _ _ xy(2)] con [OF _ _ xy(3)] \<open>get_inst g l = Some a\<close> \<open>get_inst g r = Some b\<close>
        by (auto simp: constant_value_def)
      then show ?thesis
        using 1 xy \<open>kind inst = BinaryOperation op\<close> by (simp add: pure_value_def binary_value_def constant_value_def)
    next
      case (2 x' y' u)
      then have x: "x = VLong x'" "y = VLong y'"
        using con [OF _ _ xy(2)] con [OF _ _ xy(3)] \<open>get_inst g l = Some a\<close> \<open>get_inst g r = Some b\<close>
        by (auto simp: constant_value_def)
      have "foldable_long g l" "foldable_long g r"
        using long_constant_foldable [OF wf ty] \<open>get_inst g l = Some a\<close> \<open>get_inst g r = Some b\<close> 2 by blast+
      then have "\<not> is_comparison op"
        using it \<open>kind inst = BinaryOperation op\<close> \<open>hinputs inst = [l, r]\<close> by (auto simp: inst_typed_def)
      then show ?thesis
        using 2 x xy \<open>kind inst = BinaryOperation op\<close> by (simp add: pure_value_def binary_value_def constant_value_def)
    qed
  next
    case (2 op l a)
    obtain x where x: "vs = [x]" "\<sigma> l = Some x"
      using v(1) 2 unfolding input_values_def those_Some_iff by (auto simp: map_eq_Cons_conv Cons_eq_map_conv)
    from 2(4) obtain x' where k': "kind a = IntConstant x'" "k = IntConstant (Evaluate_unary_int op x')"
      by (rule unary_constant)
    then have "x = VInt x'" using con [OF 2(3) _ x(2)] by (simp add: constant_value_def)
    moreover have "htype inst \<noteq> kPrimBoolean" using it 2 by (simp add: inst_typed_def)
    ultimately show ?thesis
      using k' x 2 by (simp add: pure_value_def unary_value_def constant_value_def)
  qed
  moreover have "kind inst \<noteq> DivZeroCheck" "\<not> is_observable inst"
    using k by (auto elim!: static_evaluation_cases simp: is_observable_def)
  ultimately show ?thesis using exec_inst_eq [OF v, of w h] by auto
qed simp

lemma constants_hold_upd:
  assumes wf: "graph_wf g" and inst: "inst \<in> set (all_insts g)" and c: "constants_hold g \<sigma>"
    and v: "\<And>y. constant_value (kind inst) = Some y \<Longrightarrow> v = y"
  shows "constants_hold g (\<sigma>(hid inst \<mapsto> v))"
  unfolding constants_hold_def
proof (intro ballI allI impI)
  fix x y z assume x: "x \<in> set (all_insts g)" and y: "constant_value (kind x) = Some y"
    and z: "(\<sigma>(hid inst \<mapsto> v)) (hid x) = Some z"
  show "z = y"
  proof (cases "hid x = hid inst")
    case True
    then have "x = inst" by (rule hid_unique [OF wf x inst])
    with v y z show ?thesis by simp
  next
    case False
    with c x y z show ?thesis by (simp add: constants_hold_def)
  qed
qed

lemma exec_constant_value:
  assumes "exec_inst w inst (\<sigma>, h) = Continue (\<sigma>(hid inst \<mapsto> v), h1)" "constant_value (kind inst) = Some y"
  shows "v = y"
proof -
  have n: "kind inst \<noteq> DivZeroCheck" "\<not> is_observable inst"
    using assms(2) by (auto simp: constant_value_def is_observable_def split: HKind.splits)
  obtain vs es where v: "input_values \<sigma> inst = Some vs" "env_values \<sigma> inst = Some es"
    using assms(1) by (auto simp: exec_inst_def split: option.splits)
  obtain u where u: "pure_value w h inst vs = Some u" "\<sigma>(hid inst \<mapsto> v) = \<sigma>(hid inst \<mapsto> u)"
    using assms(1) exec_inst_eq [OF v, of w h] n by (auto split: option.splits)
  then have "v = u" by (metis fun_upd_same option.inject)
  with u assms(2) show ?thesis by (cases vs) (auto simp: pure_value_def constant_value_def split: HKind.splits)
qed

definition fold_rel :: "HGraph \<Rightarrow> nat \<Rightarrow> nat \<Rightarrow> store_rel" where
  "fold_rel g i c \<sigma> \<sigma>' \<longleftrightarrow> agree i c {} \<sigma> \<sigma>' \<and> constants_hold g \<sigma> \<and> \<sigma> c = None"

lemma fold_matches_constant:
  assumes "graph_wf g" "graph_typed g" "inst \<in> set (all_insts g)" "static_evaluation g inst = Some (Some k)"
    and new: "c = current_instruction_id g"
  shows "matches w (fold_rel g (hid inst) c) inst [constant_inst c k]"
  unfolding matches_def
proof (intro allI impI)
  let ?rel = "fold_rel g (hid inst) c"
  fix \<sigma> \<sigma>' h assume r: "?rel \<sigma> \<sigma>'"
  have c: "hid inst \<noteq> c" using assms(1,3) new by (auto simp: graph_wf_def)
  have kc: "\<not> IsControlFlow (constant_inst c k)" "kind inst \<noteq> k" and
    nk: "constant_value k = Some v \<Longrightarrow> exec_inst w (constant_inst c k) (\<sigma>', h) = Continue (\<sigma>'(c \<mapsto> v), h)" for v
    using assms(4)
    by (auto elim!: static_evaluation_cases binary_constant unary_constant
        simp: IsControlFlow_def exec_inst_def input_values_def env_values_def is_observable_def
        pure_value_def constant_value_def)
  have nc: "constant_value (kind inst) = None"
    using assms(4) by (auto elim!: static_evaluation_cases simp: constant_value_def)
  show "case exec_inst w inst (\<sigma>, h) of Stuck \<Rightarrow> True
      | Raised h1 \<Rightarrow> \<exists>x. [constant_inst c k] = [x] \<and> \<not> IsControlFlow x \<and> exec_inst w x (\<sigma>', h) = Raised h1
      | Continue (\<sigma>1, h1) \<Rightarrow> ([constant_inst c k] = [] \<and> h1 = h \<and> ?rel \<sigma>1 \<sigma>') \<or>
          (\<exists>x \<sigma>1'. [constant_inst c k] = [x] \<and> \<not> IsControlFlow x \<and> exec_inst w x (\<sigma>', h) = Continue (\<sigma>1', h1) \<and> ?rel \<sigma>1 \<sigma>1')"
  proof (cases "exec_inst w inst (\<sigma>, h) = Stuck")
    case False
    then obtain v where v: "constant_value k = Some v" "exec_inst w inst (\<sigma>, h) = Continue (\<sigma>(hid inst \<mapsto> v), h)"
      using exec_folded [OF assms(1-4)] r unfolding fold_rel_def by blast
    have "?rel (\<sigma>(hid inst \<mapsto> v)) (\<sigma>'(c \<mapsto> v))"
      unfolding fold_rel_def
    proof (intro conjI)
      show "agree (hid inst) c {} (\<sigma>(hid inst \<mapsto> v)) (\<sigma>'(c \<mapsto> v))"
        unfolding agree_def
      proof (intro allI impI)
        fix j x assume j: "(\<sigma>(hid inst \<mapsto> v)) j = Some x"
        show "(\<sigma>'(c \<mapsto> v)) (rename (hid inst) c j) = Some x"
        proof (cases "j = hid inst")
          case False
          then have "\<sigma>' (rename (hid inst) c j) = Some x" using r j by (auto simp: fold_rel_def agree_def)
          moreover have "j \<noteq> c" using False r j by (auto simp: fold_rel_def)
          ultimately show ?thesis using False by (simp add: rename_def)
        qed (use j in \<open>simp add: rename_def\<close>)
      qed
      show "constants_hold g (\<sigma>(hid inst \<mapsto> v))"
        by (rule constants_hold_upd [OF assms(1,3)]) (use r nc in \<open>simp_all add: fold_rel_def\<close>)
      show "(\<sigma>(hid inst \<mapsto> v)) c = None" using r c by (simp add: fold_rel_def)
    qed
    with v kc(1) nk [OF v(1)] show ?thesis by simp
  qed simp
qed

lemma fold_matches_other:
  assumes wf: "graph_wf g" and x: "x \<in> set (all_insts g)" "hid x \<noteq> i" "\<not> IsControlFlow x"
    and new: "c = current_instruction_id g"
  shows "matches w (fold_rel g i c) x [rename_inst i c x]"
  unfolding matches_def
proof (intro allI impI)
  fix \<sigma> \<sigma>' h assume r: "fold_rel g i c \<sigma> \<sigma>'"
  then have a: "agree i c {} \<sigma> \<sigma>'" by (simp add: fold_rel_def)
  have c: "hid x \<noteq> c" using wf x new by (auto simp: graph_wf_def)
  have keep: "fold_rel g i c (\<sigma>(hid x \<mapsto> v)) (\<sigma>'(hid x \<mapsto> v))"
    if "exec_inst w x (\<sigma>, h) = Continue (\<sigma>(hid x \<mapsto> v), h1)" for v h1
    using agree_upd [OF a x(2) c] constants_hold_upd [OF wf x(1)] exec_constant_value [OF that] r c
    by (simp add: fold_rel_def)
  show "case exec_inst w x (\<sigma>, h) of Stuck \<Rightarrow> True
      | Raised h1 \<Rightarrow> \<exists>y. [rename_inst i c x] = [y] \<and> \<not> IsControlFlow y \<and> exec_inst w y (\<sigma>', h) = Raised h1
      | Continue (\<sigma>1, h1) \<Rightarrow> ([rename_inst i c x] = [] \<and> h1 = h \<and> fold_rel g i c \<sigma>1 \<sigma>') \<or>
          (\<exists>y \<sigma>1'. [rename_inst i c x] = [y] \<and> \<not> IsControlFlow y \<and> exec_inst w y (\<sigma>', h) = Continue (\<sigma>1', h1) \<and>
             fold_rel g i c \<sigma>1 \<sigma>1')"
  proof (cases "exec_inst w x (\<sigma>, h) = Stuck")
    case False
    then show ?thesis using exec_inst_rename [OF a _ False] keep x(3) by auto
  qed simp
qed

lemma fold_phis_match:
  assumes wf: "graph_wf g" and b: "b < length (blocks g)" "inst \<in> set (hinstructions (blocks g ! b))"
    and bk: "bk \<in> set (blocks g)" and new: "c = current_instruction_id g"
  shows "phis_match (fold_rel g (hid inst) c) (rename_inst (hid inst) c) tr bk"
  unfolding phis_match_def
proof (intro allI impI)
  fix \<sigma> \<sigma>' p \<sigma>1 assume r: "fold_rel g (hid inst) c \<sigma> \<sigma>'" and e: "enter_block bk p \<sigma> = Some \<sigma>1"
  have ids: "hid phi \<noteq> hid inst \<and> hid phi \<noteq> c \<and> uses phi \<inter> {} = {}" if phi: "phi \<in> set (hphis bk)" for phi
  proof -
    have "phi \<in> set (all_insts g)" using phi bk by (auto simp: in_all_insts)
    then show ?thesis using wf phi_hid_neq [OF wf b bk phi] new by (auto simp: graph_wf_def)
  qed
  obtain \<sigma>1' where s: "enter_block (transform_block (rename_inst (hid inst) c) tr bk) p \<sigma>' = Some \<sigma>1'"
      "agree (hid inst) c {} \<sigma>1 \<sigma>1'"
    using agree_phis [OF _ e ids] r unfolding fold_rel_def by blast
  have out: "\<sigma>1 j = \<sigma> j" if "j \<notin> hid ` set (hphis bk)" for j
  proof (cases p)
    case None
    then show ?thesis using e by (auto simp: enter_block_def split: if_splits)
  next
    case (Some q)
    obtain vs where "\<sigma>1 = \<sigma> ++ map_of (zip (map hid (hphis bk)) vs)"
      using e Some by (auto simp: enter_block_def Let_def split: if_splits)
    moreover have "map_of (zip (map hid (hphis bk)) vs) j = None"
      using that by (auto simp: map_of_eq_None_iff dest!: set_zip_leftD)
    ultimately show ?thesis by (simp add: map_add_def)
  qed
  have "constants_hold g \<sigma>1"
    unfolding constants_hold_def
  proof (intro ballI allI impI)
    fix x v y assume x: "x \<in> set (all_insts g)" "constant_value (kind x) = Some v" "\<sigma>1 (hid x) = Some y"
    have "hid x \<notin> hid ` set (hphis bk)"
    proof
      assume "hid x \<in> hid ` set (hphis bk)"
      then obtain phi where phi: "phi \<in> set (hphis bk)" "hid x = hid phi" by auto
      then have "phi \<in> set (all_insts g)" using bk by (auto simp: in_all_insts)
      then have "x = phi" using hid_unique [OF wf x(1)] phi by simp
      moreover have "kind phi = Phi" using wf bk phi by (auto simp: graph_wf_def block_wf_def)
      ultimately show False using x(2) by (simp add: constant_value_def)
    qed
    then show "y = v" using r x out by (simp add: fold_rel_def constants_hold_def)
  qed
  moreover have "\<sigma>1 c = None" using r out [of c] ids by (auto simp: fold_rel_def)
  ultimately show "\<exists>\<sigma>1'. enter_block (transform_block (rename_inst (hid inst) c) tr bk) p \<sigma>' = Some \<sigma>1' \<and>
      fold_rel g (hid inst) c \<sigma>1 \<sigma>1'"
    using s by (auto simp: fold_rel_def)
qed

section \<open>One replacement\<close>

lemma folded_class:
  assumes wf: "graph_wf g" and ty: "graph_typed g" and inst: "inst \<in> set (all_insts g)"
    and k: "static_evaluation g inst = Some (Some k)"
  shows "class_of_type (htype (constant_inst c k)) = class_of_type (htype inst)"
proof -
  have it: "inst_typed g x" if "x \<in> set (all_insts g)" for x
    using ty that by (simp add: graph_typed_def list_all_iff)
  have cl: "has_class g j cl \<longleftrightarrow> class_of_type (htype a) = cl" "inst_typed g a" if "get_inst g j = Some a" for j a cl
    using that get_inst_iff [OF wf] has_class_iff [OF wf] it by auto
  show ?thesis
    using k
  proof (cases rule: static_evaluation_cases)
    case (1 op l r a b)
    note i = it [OF inst] cl [OF 1(3)]
    from 1(5) show ?thesis
    proof (cases rule: binary_constant)
      case (1 x y v)
      then show ?thesis
        using i \<open>kind inst = BinaryOperation op\<close> \<open>hinputs inst = [l, r]\<close>
        by (simp add: inst_typed_def constant_inst_def new_constant_def split: if_splits)
    next
      case (2 x y v)
      then have "foldable_long g l" "foldable_long g r"
        using long_constant_foldable [OF wf ty] \<open>get_inst g l = Some a\<close> \<open>get_inst g r = Some b\<close> by blast+
      with 2 show ?thesis
        using i \<open>kind inst = BinaryOperation op\<close> \<open>hinputs inst = [l, r]\<close>
        by (simp add: inst_typed_def constant_inst_def new_constant_def split: if_splits)
    qed
  next
    case (2 op l a)
    from 2(4) obtain x where "kind a = IntConstant x" "k = IntConstant (Evaluate_unary_int op x)"
      by (rule unary_constant)
    then show ?thesis
      using it [OF inst] cl [OF 2(3)] 2 by (simp add: inst_typed_def constant_inst_def new_constant_def)
  qed
qed

lemma static_evaluation_kinds:
  assumes "static_evaluation g inst = Some (Some k)"
  shows "\<not> IsControlFlow inst" "\<not> IsControlFlow (constant_inst c k)" "constant_value (kind inst) = None"
    "kind inst \<noteq> DivZeroCheck" "(\<exists>x. k = IntConstant x) \<or> (\<exists>x. k = LongConstant x)"
  using assms
  by (auto elim!: static_evaluation_cases binary_constant unary_constant simp: IsControlFlow_def constant_value_def)

lemma static_evaluation_total:
  assumes wf: "graph_wf g" and ty: "graph_typed g" and inst: "inst \<in> set (all_insts g)"
  shows "\<exists>k. static_evaluation g inst = Some k"
proof -
  have it: "inst_typed g x" if "x \<in> set (all_insts g)" for x
    using ty that by (simp add: graph_typed_def list_all_iff)
  consider (bin) op where "kind inst = BinaryOperation op" | (un) op where "kind inst = UnaryOperation op"
    | (other) "\<forall>op. kind inst \<noteq> BinaryOperation op" "\<forall>op. kind inst \<noteq> UnaryOperation op" by blast
  then show ?thesis
  proof cases
    case bin
    then obtain l r where lr: "hinputs inst = [l, r]"
      using it [OF inst] by (auto simp: inst_typed_def split: list.splits)
    obtain a where a: "a \<in> set (all_insts g)" "hid a = l" "get_inst g l = Some a"
      by (rule input_inst [OF wf inst, of l]) (simp_all add: lr)
    obtain b where b: "b \<in> set (all_insts g)" "hid b = r" "get_inst g r = Some b"
      by (rule input_inst [OF wf inst, of r]) (simp_all add: lr)
    have "TryStaticEvaluation_binary op (kind a) (kind b) \<noteq> None"
    proof
      assume none: "TryStaticEvaluation_binary op (kind a) (kind b) = None"
      have "op \<in> {HDiv, HRem} \<and> (kind a, kind b) \<in> range (\<lambda>x. (IntConstant x, IntConstant 0)) \<union> range (\<lambda>x. (LongConstant x, LongConstant 0))"
        using none by (auto simp: TryStaticEvaluation_binary_def Evaluate_int_None Evaluate_long_None split: HKind.splits)
      then have op: "op \<in> {HDiv, HRem}" and k: "kind b = IntConstant 0 \<or> kind b = LongConstant 0"
          and ka: "(\<exists>x. kind a = IntConstant x) \<or> (\<exists>x. kind a = LongConstant x)" by auto
      have "class_of_type (htype a) \<noteq> OtherClass" using it [OF a(1)] ka by (auto simp: inst_typed_def)
      moreover have "has_class g l (class_of_type (htype inst))" "\<not> is_comparison op"
        using it [OF inst] bin lr op by (auto simp: inst_typed_def is_comparison_def)
      ultimately have "class_of_type (htype inst) \<noteq> OtherClass" using has_class_iff [OF wf a(1)] a(2) by auto
      then have "safe_divisor g r" using it [OF inst] bin lr op by (auto simp: inst_typed_def is_comparison_def)
      then show False using safe_divisor_iff [OF wf b(1)] b(2) k by auto
    qed
    then show ?thesis using bin lr a(3) b(3) by (auto simp: static_evaluation_def)
  next
    case un
    then obtain l where l: "hinputs inst = [l]"
      using it [OF inst] by (auto simp: inst_typed_def split: list.splits)
    obtain a where "get_inst g l = Some a"
      by (rule input_inst [OF wf inst, of l]) (simp_all add: l)
    then show ?thesis
      using un l by (cases "kind a") (auto simp: static_evaluation_def TryStaticEvaluation_unary_def)
  next
    case other
    then show ?thesis by (cases "kind inst") (auto simp: static_evaluation_def)
  qed
qed

lemma replaced_same_runs:
  assumes wf: "graph_wf g" and ty: "graph_typed g" and b: "b < length (blocks g)"
    and inst: "inst \<in> set (hinstructions (blocks g ! b))" and k: "static_evaluation g inst = Some (Some k)"
  shows "same_runs g (replaced_by_constant b (hid inst) k g)"
  unfolding same_runs_def
proof (intro allI impI)
  let ?i = "hid inst" and ?c = "current_instruction_id g"
  fix n w j assume ns: "run_graph n w g None j (Map.empty, []) \<noteq> RStuck"
  have mem: "inst \<in> set (all_insts g)" using b inst by (auto simp: in_all_insts)
  show "run_graph n w (replaced_by_constant b ?i k g) None j (Map.empty, []) = run_graph n w g None j (Map.empty, [])"
  proof (rule run_graph_sim [where rel = "fold_rel g ?i ?c", OF replaced_blocks [OF wf b inst] _ _ _ ns])
    fix bk x assume x: "bk \<in> set (blocks g)" "x \<in> set (hinstructions bk)"
    then have xm: "x \<in> set (all_insts g)" by (auto simp: in_all_insts)
    show "if IsControlFlow x then branch_matches (fold_rel g ?i ?c) x (folded ?i ?c k x)
        else matches w (fold_rel g ?i ?c) x (folded ?i ?c k x)"
    proof (cases "hid x = ?i")
      case True
      then have "x = inst" by (rule hid_unique [OF wf xm mem])
      then show ?thesis
        using fold_matches_constant [OF wf ty mem k refl] static_evaluation_kinds(1) [OF k] by (simp add: folded_def)
    next
      case False
      have "branch_matches (fold_rel g ?i ?c) x [rename_inst ?i ?c x]"
        using input_values_agree [of ?i ?c "{}"] by (auto simp: branch_matches_def fold_rel_def)
      then show ?thesis using fold_matches_other [OF wf xm False _ refl] False by (simp add: folded_def)
    qed
  next
    show "phis_match (fold_rel g ?i ?c) (rename_inst ?i ?c) (folded ?i ?c k) bk" if "bk \<in> set (blocks g)" for bk
      by (rule fold_phis_match [OF wf b inst that refl])
  qed (simp add: fold_rel_def agree_def constants_hold_def)
qed

lemma uses_rename: "uses (rename_inst i c inst) = rename i c ` uses inst"
proof -
  have "{j. Some j \<in> map_option (rename i c) ` set (henv inst)} = rename i c ` {j. Some j \<in> set (henv inst)}"
  proof (rule set_eqI)
    fix j
    show "j \<in> {j. Some j \<in> map_option (rename i c) ` set (henv inst)} \<longleftrightarrow>
        j \<in> rename i c ` {j. Some j \<in> set (henv inst)}"
      unfolding mem_Collect_eq image_iff bex_simps by (metis map_option_eq_Some mem_Collect_eq)
  qed
  then show ?thesis by (simp add: uses_def image_Un)
qed

lemma replaced_fields:
  "reverse_post_order (replaced_by_constant b i k g) = reverse_post_order g"
  "current_instruction_id (replaced_by_constant b i k g) = Suc (current_instruction_id g)"
  "length (blocks (replaced_by_constant b i k g)) = length (blocks g)"
  by (simp_all add: replaced_by_constant_def ReplaceAndRemoveInstructionWith_def RemoveInstruction_def
      edit_block_def ReplaceWith_def InsertInstructionBefore_def)

lemma folded_block_wf:
  assumes "block_wf bk" and k: "\<not> IsControlFlow (constant_inst c k)"
    and i: "\<And>x. x \<in> set (hinstructions bk) \<Longrightarrow> hid x = i \<Longrightarrow> \<not> IsControlFlow x"
  shows "block_wf (transform_block (rename_inst i c) (folded i c k) bk)"
proof -
  let ?f = "\<lambda>x. if hid x = i then constant_inst c k else rename_inst i c x"
  let ?is = "hinstructions bk"
  have m: "concat (map (folded i c k) xs) = map ?f xs" for xs
    by (induction xs) (simp_all add: folded_def)
  have cf: "IsControlFlow (?f x) = IsControlFlow x" if "x \<in> set ?is" for x using k i [OF that] by simp
  have ne: "?is \<noteq> []" "IsControlFlow (last ?is)" using assms(1) by (simp_all add: block_wf_def)
  then have "IsControlFlow (last (map ?f ?is))" using cf [OF last_in_set] by (simp add: last_map)
  moreover have "\<forall>x\<in>set (butlast (map ?f ?is)). \<not> IsControlFlow x"
    unfolding map_butlast [symmetric] using assms(1) cf k by (auto simp: block_wf_def dest: in_set_butlastD)
  ultimately show ?thesis
    using assms(1) ne unfolding block_wf_def transform_block_def m by simp
qed

lemma replaced_wf:
  assumes wf: "graph_wf g" and b: "b < length (blocks g)" and inst: "inst \<in> set (hinstructions (blocks g ! b))"
    and k: "static_evaluation g inst = Some (Some k)"
  shows "graph_wf (replaced_by_constant b (hid inst) k g)"
proof -
  let ?g = "replaced_by_constant b (hid inst) k g" and ?i = "hid inst" and ?c = "current_instruction_id g"
  have mem: "inst \<in> set (all_insts g)" using b inst by (auto simp: in_all_insts)
  have fresh: "?c \<notin> hid ` set (all_insts g)" using wf by (auto simp: graph_wf_def)
  have ids: "hid ` set (all_insts ?g) = rename ?i ?c ` hid ` set (all_insts g)"
    using arg_cong [OF replaced_ids [OF wf b inst, of k], of set] by (simp add: image_image)
  have "inj_on (rename ?i ?c) S" if "?c \<notin> S" for S
    using that by (auto simp: inj_on_def rename_def split: if_splits)
  from this [OF fresh] have "inj_on (rename ?i ?c) (hid ` set (all_insts g))" .
  then have "distinct (map hid (all_insts ?g))"
    unfolding replaced_ids [OF wf b inst] using wf by (simp add: graph_wf_def distinct_map comp_inj_on)
  moreover have "hid x < Suc ?c \<and> uses x \<subseteq> hid ` set (all_insts ?g)" if x: "x \<in> set (all_insts ?g)" for x
  proof (cases "x = constant_inst ?c k")
    case False
    then obtain y where y: "y \<in> set (all_insts g)" "x = rename_inst ?i ?c y"
      using x in_replaced_insts [OF wf b inst] by blast
    then have "hid y < ?c" "uses y \<subseteq> hid ` set (all_insts g)" using wf by (auto simp: graph_wf_def)
    then show ?thesis unfolding ids y(2) uses_rename by auto
  qed simp
  moreover have "block_wf bk'" if bk': "bk' \<in> set (blocks ?g)" for bk'
  proof -
    obtain bk where bk: "bk \<in> set (blocks g)" "bk' = transform_block (rename_inst ?i ?c) (folded ?i ?c k) bk"
      using bk' unfolding replaced_blocks [OF wf b inst] by auto
    have "\<not> IsControlFlow x" if "x \<in> set (hinstructions bk)" "hid x = ?i" for x
    proof -
      have "x \<in> set (all_insts g)" using that bk by (auto simp: in_all_insts)
      then have "x = inst" using hid_unique [OF wf _ mem that(2)] by simp
      then show ?thesis using static_evaluation_kinds(1) [OF k] by simp
    qed
    then show ?thesis
      unfolding bk(2) using folded_block_wf [OF _ static_evaluation_kinds(2) [OF k]] wf bk(1)
      by (simp add: graph_wf_def)
  qed
  ultimately show ?thesis using wf unfolding graph_wf_def replaced_fields by blast
qed

lemma replaced_typed:
  assumes wf: "graph_wf g" and ty: "graph_typed g" and b: "b < length (blocks g)"
    and inst: "inst \<in> set (hinstructions (blocks g ! b))" and k: "static_evaluation g inst = Some (Some k)"
  shows "graph_typed (replaced_by_constant b (hid inst) k g)"
proof -
  let ?g = "replaced_by_constant b (hid inst) k g" and ?i = "hid inst" and ?c = "current_instruction_id g"
  have mem: "inst \<in> set (all_insts g)" using b inst by (auto simp: in_all_insts)
  note wf' = replaced_wf [OF wf b inst k] and mem' = in_replaced_insts [OF wf b inst]
  have it: "inst_typed g x" if "x \<in> set (all_insts g)" for x
    using ty that by (simp add: graph_typed_def list_all_iff)
  have cl: "has_class ?g (rename ?i ?c (hid z)) cl \<longleftrightarrow> has_class g (hid z) cl" if z: "z \<in> set (all_insts g)" for z cl
  proof (cases "z = inst")
    case True
    have "constant_inst ?c k \<in> set (all_insts ?g)" by (simp add: mem')
    from has_class_iff [OF wf' this] show ?thesis
      using True has_class_iff [OF wf mem] folded_class [OF wf ty mem k] by (simp add: rename_def)
  next
    case False
    then have "rename_inst ?i ?c z \<in> set (all_insts ?g)" using z mem' by blast
    moreover have "hid z \<noteq> ?i" using False hid_unique [OF wf z mem] by auto
    ultimately show ?thesis
      using has_class_iff [OF wf' , of "rename_inst ?i ?c z"] has_class_iff [OF wf z] by (simp add: rename_def)
  qed
  have sd: "safe_divisor ?g (rename ?i ?c (hid z))" if z: "z \<in> set (all_insts g)" "safe_divisor g (hid z)" for z
  proof -
    have kz: "case kind z of DivZeroCheck \<Rightarrow> True | IntConstant x \<Rightarrow> x \<noteq> 0 | LongConstant x \<Rightarrow> x \<noteq> 0 | _ \<Rightarrow> False"
      using safe_divisor_iff [OF wf z(1)] z(2) by simp
    then have "z \<noteq> inst"
      using static_evaluation_kinds(3,4) [OF k] by (auto simp: constant_value_def split: HKind.splits)
    then have "rename_inst ?i ?c z \<in> set (all_insts ?g)" using z mem' by blast
    moreover have "hid z \<noteq> ?i" using \<open>z \<noteq> inst\<close> hid_unique [OF wf z(1) mem] by auto
    ultimately show ?thesis using safe_divisor_iff [OF wf', of "rename_inst ?i ?c z"] kz by (simp add: rename_def)
  qed
  have fl: "foldable_long g (hid z)" if z: "z \<in> set (all_insts g)" "foldable_long ?g (rename ?i ?c (hid z))" for z
  proof (cases "z = inst")
    case True
    have "constant_inst ?c k \<in> set (all_insts ?g)" by (simp add: mem')
    from foldable_long_iff [OF wf' this] z(2) True obtain y where y: "k = LongConstant y"
      using static_evaluation_kinds(5) [OF k]
      by (auto simp: rename_def constant_inst_def new_constant_def)
    then have "class_of_type (htype inst) = LongClass"
      using folded_class [OF wf ty mem k, of ?c] by (simp add: constant_inst_def new_constant_def)
    moreover obtain op where "kind inst = BinaryOperation op"
      using k y by (auto elim!: static_evaluation_cases unary_constant)
    ultimately show ?thesis using foldable_long_iff [OF wf mem] True by simp
  next
    case False
    then have "rename_inst ?i ?c z \<in> set (all_insts ?g)" using z mem' by blast
    moreover have "hid z \<noteq> ?i" using False hid_unique [OF wf z(1) mem] by auto
    ultimately show ?thesis
      using foldable_long_iff [OF wf', of "rename_inst ?i ?c z"] foldable_long_iff [OF wf z(1)] z(2)
      by (simp add: rename_def)
  qed
  have "inst_typed ?g x" if x: "x \<in> set (all_insts ?g)" for x
  proof (cases "x = constant_inst ?c k")
    case True
    then show ?thesis
      using static_evaluation_kinds(5) [OF k] by (auto simp: inst_typed_def constant_inst_def new_constant_def)
  next
    case False
    then obtain y where y: "y \<in> set (all_insts g)" "x = rename_inst ?i ?c y" using x mem' by blast
    have inp: "has_class ?g (rename ?i ?c j) cl \<longleftrightarrow> has_class g j cl"
        "safe_divisor g j \<Longrightarrow> safe_divisor ?g (rename ?i ?c j)"
        "foldable_long ?g (rename ?i ?c j) \<Longrightarrow> foldable_long g j" if "j \<in> set (hinputs y)" for j cl
      using input_inst [OF wf y(1) that] cl sd fl by metis+
    show ?thesis
      using it [OF y(1)] inp unfolding y(2)
      by (cases "kind y") (auto simp: inst_typed_def split: list.splits if_splits)
  qed
  then show ?thesis by (simp add: graph_typed_def list_all_iff)
qed

section \<open>The whole pass\<close>

definition fold_todo :: "nat \<Rightarrow> nat list \<Rightarrow> HGraph \<Rightarrow> bool" where
  "fold_todo b ids g \<longleftrightarrow> graph_wf g \<and> graph_typed g \<and> b < length (blocks g) \<and> distinct ids \<and>
     set ids \<subseteq> hid ` set (hinstructions (blocks g ! b))"

lemma fold_inst_step:
  assumes "fold_todo b (i # ids) g"
  shows "\<exists>g'. fold_inst b i g = Some g' \<and> same_runs g g' \<and> (fold_todo b ids g' \<and> length (blocks g') = length (blocks g))"
proof -
  have wf: "graph_wf g" and ty: "graph_typed g" and b: "b < length (blocks g)"
    using assms by (simp_all add: fold_todo_def)
  obtain inst where inst: "inst \<in> set (hinstructions (blocks g ! b))" "hid inst = i"
    using assms by (auto simp: fold_todo_def)
  then have mem: "inst \<in> set (all_insts g)" using b by (auto simp: in_all_insts)
  then have get: "get_inst g i = Some inst" using inst(2) get_inst_iff [OF wf] by simp
  obtain k where k: "static_evaluation g inst = Some k" using static_evaluation_total [OF wf ty mem] by blast
  show ?thesis
  proof (cases k)
    case None
    then have "fold_inst b i g = Some g" using get k by (simp add: fold_inst_def)
    then show ?thesis using assms by (auto simp: fold_todo_def)
  next
    case (Some c)
    let ?g = "replaced_by_constant b i c g"
    have k': "static_evaluation g inst = Some (Some c)" using k Some by simp
    have "fold_inst b i g = Some ?g" using get k' by (simp add: fold_inst_def replaced_by_constant_def)
    moreover have "same_runs g ?g" "graph_wf ?g" "graph_typed ?g"
      using replaced_same_runs [OF wf ty b inst(1) k'] replaced_wf [OF wf b inst(1) k']
        replaced_typed [OF wf ty b inst(1) k'] inst(2) by simp_all
    moreover have "set ids \<subseteq> hid ` set (hinstructions (blocks ?g ! b))"
    proof
      fix j assume j: "j \<in> set ids"
      then have "j \<in> hid ` set (hinstructions (blocks g ! b))" "j \<noteq> i"
        using assms by (auto simp: fold_todo_def)
      then obtain x where x: "x \<in> set (hinstructions (blocks g ! b))" "hid x = j" "j \<noteq> i" by blast
      have "blocks ?g ! b = transform_block (rename_inst i (current_instruction_id g))
          (folded i (current_instruction_id g) c) (blocks g ! b)"
        using replaced_blocks [OF wf b inst(1)] inst(2) b by simp
      then show "j \<in> hid ` set (hinstructions (blocks ?g ! b))"
        using x by (auto simp: transform_block_def folded_def image_iff intro!: bexI [of _ x])
    qed
    ultimately show ?thesis using assms b by (auto simp: fold_todo_def replaced_fields)
  qed
qed

lemma fold_block_step:
  assumes "(graph_wf g \<and> graph_typed g) \<and> set (b # bs) \<subseteq> {..<length (blocks g)}"
  shows "\<exists>g'. fold_block b g = Some g' \<and> same_runs g g' \<and>
    ((graph_wf g' \<and> graph_typed g') \<and> set bs \<subseteq> {..<length (blocks g')})"
proof -
  have wf: "graph_wf g" and b: "b < length (blocks g)" using assms by simp_all
  have "distinct (map hid (hinstructions (blocks g ! b)))"
    using block_ids_distinct [OF wf b] by (simp add: block_insts_def)
  then have "fold_todo b (map hid (hinstructions (blocks g ! b))) g \<and> length (blocks g) = length (blocks g)"
    using assms by (simp add: fold_todo_def)
  from each_sound [where Q = "\<lambda>ids g'. fold_todo b ids g' \<and> length (blocks g') = length (blocks g)", OF this]
  obtain g' where "each (fold_inst b) (map hid (hinstructions (blocks g ! b))) g = Some g'" "same_runs g g'"
      "fold_todo b [] g'" "length (blocks g') = length (blocks g)"
    using fold_inst_step by metis
  then show ?thesis using assms by (auto simp: fold_block_def fold_todo_def)
qed

lemma constant_folding_spec:
  assumes "graph_wf g" "graph_typed g"
  shows "\<exists>g'. HConstantFolding_Run g = Some g' \<and> same_runs g g' \<and> graph_wf g' \<and> graph_typed g'"
proof -
  have "(graph_wf g \<and> graph_typed g) \<and> set (reverse_post_order g) \<subseteq> {..<length (blocks g)}"
    using assms by (simp add: graph_wf_def)
  from each_sound [where Q = "\<lambda>bs g. (graph_wf g \<and> graph_typed g) \<and> set bs \<subseteq> {..<length (blocks g)}", OF this]
  show ?thesis using fold_block_step unfolding HConstantFolding_Run_def by blast
qed


definition sample_inst :: "nat \<Rightarrow> HKind \<Rightarrow> Primitive \<Rightarrow> nat list \<Rightarrow> HInstruction" where
  "sample_inst i k ty ins = \<lparr>hid = i, kind = k, htype = ty, hinputs = ins, henv = []\<rparr>"

definition sample_hgraph :: HGraph where
  "sample_hgraph = \<lparr>blocks = [\<lparr>hphis = [], hinstructions =
       [sample_inst 0 (IntConstant 3) kPrimInt [], sample_inst 1 (IntConstant 4) kPrimInt [],
        sample_inst 2 (BinaryOperation HAdd) kPrimInt [0, 1],
        sample_inst 3 (BinaryOperation HMul) kPrimInt [2, 1],
        sample_inst 4 (BinaryOperation HLessThan) kPrimBoolean [2, 3],
        sample_inst 5 HIf kPrimVoid [4]],
      hpredecessors = [], hsuccessors = [1, 2]\<rparr>,
     \<lparr>hphis = [], hinstructions = [sample_inst 6 HReturn kPrimVoid [3]], hpredecessors = [0], hsuccessors = []\<rparr>,
     \<lparr>hphis = [], hinstructions = [sample_inst 7 HReturnVoid kPrimVoid []], hpredecessors = [0], hsuccessors = []\<rparr>],
   reverse_post_order = [0, 1, 2], current_instruction_id = 8\<rparr>"


section \<open>The comparison of longs\<close>

text \<open>
  The restriction on comparisons is needed. \<^verbatim>\<open>HCompare\<close> of two long constants is of type int, but
  \<^verbatim>\<open>HBinaryOperation::TryStaticEvaluation\<close> makes a long constant of it, which changes what an
  instruction that uses it computes.
\<close>

definition compare_sample :: HGraph where
  "compare_sample = \<lparr>blocks = [\<lparr>hphis = [], hinstructions =
       [sample_inst 0 (LongConstant 1) kPrimLong [], sample_inst 1 (LongConstant 2) kPrimLong [],
        sample_inst 2 (BinaryOperation HCompare) kPrimInt [0, 1],
        sample_inst 3 HReturn kPrimVoid [2]],
      hpredecessors = [], hsuccessors = []\<rparr>],
   reverse_post_order = [0], current_instruction_id = 4\<rparr>"

lemma compare_of_longs_changes_type:
  "map_option (\<lambda>g. map (\<lambda>i. (kind i, htype i)) (hinstructions (hd (blocks g)))) (HConstantFolding_Run compare_sample) =
     Some [(LongConstant 1, kPrimLong), (LongConstant 2, kPrimLong), (LongConstant (- 1), kPrimLong), (HReturn, kPrimVoid)] \<and>
   run_graph 1 w compare_sample None 0 (Map.empty, []) = RReturned (Some (VInt (- 1))) []"
proof
  show "map_option (\<lambda>g. map (\<lambda>i. (kind i, htype i)) (hinstructions (hd (blocks g)))) (HConstantFolding_Run compare_sample) =
     Some [(LongConstant 1, kPrimLong), (LongConstant 2, kPrimLong), (LongConstant (- 1), kPrimLong), (HReturn, kPrimVoid)]"
    by code_simp
  have u: "ucast (- 1 :: u64) = (- 1 :: u32)" by code_simp
  show "run_graph 1 w compare_sample None 0 (Map.empty, []) = RReturned (Some (VInt (- 1))) []"
    by (simp add: compare_sample_def sample_inst_def enter_block_def exec_inst_def input_values_def
        env_values_def pure_value_def binary_value_def Evaluate_long_def Evaluate_comparison_def is_comparison_def leave_block_def IsControlFlow_def
        is_observable_def u)
qed

end
