(* ===== verification/FoldingAgreement.thy ===== *)
theory FoldingAgreement
  imports InterpreterSemantics ConstantFolding
begin

text \<open>
  Constant folding against the interpreter: for every integer instruction that
  \<^verbatim>\<open>compiler/optimizing/builder.cc\<close> turns into a binary operation, the value that folding computes is
  the value that the interpreter stores.
\<close>

text \<open>The operation the graph builder makes of an instruction.\<close>

definition builder_int_op :: "nat \<Rightarrow> binary_operation option" where
  "builder_int_op op =
     (if op = ADD_INT then Some HAdd else if op = SUB_INT then Some HSub else if op = MUL_INT then Some HMul
      else if op = DIV_INT then Some HDiv else if op = REM_INT then Some HRem
      else if op = AND_INT then Some HAnd else if op = SHL_INT then Some HShl else if op = SHR_INT then Some HShr
      else if op = USHR_INT then Some HUShr else if op = OR_INT then Some HOr else if op = XOR_INT then Some HXor
      else None)"

definition builder_long_op :: "nat \<Rightarrow> binary_operation option" where
  "builder_long_op op =
     (if op = ADD_LONG then Some HAdd else if op = SUB_LONG then Some HSub else if op = MUL_LONG then Some HMul
      else if op = DIV_LONG then Some HDiv else if op = REM_LONG then Some HRem
      else if op = AND_LONG then Some HAnd else if op = OR_LONG then Some HOr else if op = XOR_LONG then Some HXor
      else None)"

lemma truncated_div_minus_1: "truncated_div x (- 1 :: 'a::len word) = - x"
  by (cases "sint x = 0") (simp_all add: truncated_div_def signed_divide_int_def sgn_mult_abs)

lemma truncated_mod_minus_1: "truncated_mod x (- 1 :: 'a::len word) = 0"
  by (simp add: truncated_mod_def signed_modulo_int_def)

lemma c_operators_defined:
  "b \<noteq> 0 \<Longrightarrow> b \<noteq> - 1 \<Longrightarrow> c_div a b = Some (truncated_div a b)"
  "b \<noteq> 0 \<Longrightarrow> b \<noteq> - 1 \<Longrightarrow> c_rem a b = Some (truncated_mod a b)"
  by (simp_all add: c_div_def c_rem_def truncated_div_def truncated_mod_def)

lemma Evaluate_int_division:
  "Evaluate_int HDiv x y = (if y = 0 then None else Some (truncated_div x y))"
  "Evaluate_int HRem x y = (if y = 0 then None else Some (truncated_mod x y))"
  "Evaluate_long HDiv u v = (if v = 0 then None else Some (truncated_div u v))"
  "Evaluate_long HRem u v = (if v = 0 then None else Some (truncated_mod u v))"
  by (simp_all add: Evaluate_int_def Evaluate_comparison_def Evaluate_long_def c_operators_defined
      truncated_div_minus_1 truncated_mod_minus_1)

lemma Evaluate_int_simps:
  "Evaluate_int HAdd x y = Some (x + y)" "Evaluate_int HSub x y = Some (x - y)" "Evaluate_int HMul x y = Some (x * y)"
  "Evaluate_int HShl x y = Some (shl x (unat (y AND 0x1f)))" "Evaluate_int HShr x y = Some (sshr x (unat (y AND 0x1f)))"
  "Evaluate_int HUShr x y = Some (shr x (unat (y AND 0x1f)))" "Evaluate_int HAnd x y = Some (x AND y)"
  "Evaluate_int HOr x y = Some (x OR y)" "Evaluate_int HXor x y = Some (x XOR y)"
  by (simp_all add: Evaluate_int_def Evaluate_comparison_def)

lemma on_success_division:
  "on_success Next_2xx (map_option (Pair True) r) = proceed Next_2xx r"
  "on_success Next_2xx (Some (False, s)) = Some (s, HandlePending)"
  by (cases r) (simp_all add: exec_defs)

text \<open>C23: The compiler and the interpreter agree on integer arithmetic. For every binary \<^verbatim>\<open>int\<close>
  instruction, executing it in the interpreter on registers that hold \<open>x\<close> and \<open>y\<close> stores the value
  that constant folding computes from \<open>x\<close> and \<open>y\<close>; folding has no value exactly where the
  interpreter raises the arithmetic exception.\<close>

theorem folding_agrees_with_interpreter:
  assumes "builder_int_op op = Some hop"
    and "GetVReg (frame s) (unat (VRegB_23x inst)) = Some x" "GetVReg (frame s) (unat (VRegC_23x inst)) = Some y"
  shows "exec_int op rt inst inst_data s =
    (case Evaluate_int hop x y of
       Some v \<Rightarrow> proceed Next_2xx (set_vreg s (unat (VRegA_23x inst_data)) v)
     | None \<Rightarrow> Some (rt_do rt (Throw ArithmeticException) s, HandlePending))"
  using assms
  by (auto simp: builder_int_op_def exec_int_def Let_def binary_def int_division_def divide_cases
      Evaluate_int_division Evaluate_int_simps SafeAdd_def SafeSub_def SafeMul_def on_success_division
      split: if_split_asm)

definition sample_int_state :: "unit istate" where
  "sample_int_state = (initial_state 3)\<lparr>frame := \<lparr>vregs = [0, 17, -5], references = [0, 0, 0], frame_dex_pc = 0\<rparr>\<rparr>"

theorem folding_agrees_with_interpreter_witness:
  "Evaluate_int HDiv 17 (- 5) = Some (- 3) \<and>
   exec_int DIV_INT idle_runtime (code_units [0x0093, 0x0201]) 0x0093 sample_int_state =
     proceed Next_2xx (set_vreg sample_int_state 0 (- 3))"
proof -
  let ?inst = "code_units [0x0093, 0x0201]"
  have op: "builder_int_op DIV_INT = Some HDiv" by (simp add: builder_int_op_def)
  have regs: "GetVReg (frame sample_int_state) (unat (VRegB_23x ?inst)) = Some 17"
    "GetVReg (frame sample_int_state) (unat (VRegC_23x ?inst)) = Some (- 5)" "VRegA_23x 0x0093 = 0" by code_simp+
  have e: "Evaluate_int HDiv 17 (- 5) = Some (- 3)" by code_simp
  from folding_agrees_with_interpreter [OF op regs(1,2), of idle_runtime "0x0093"] e regs(3) show ?thesis by simp
qed

lemma Evaluate_long_simps:
  "Evaluate_long HAdd x y = Some (x + y)" "Evaluate_long HSub x y = Some (x - y)" "Evaluate_long HMul x y = Some (x * y)"
  "Evaluate_long HAnd x y = Some (x AND y)" "Evaluate_long HOr x y = Some (x OR y)" "Evaluate_long HXor x y = Some (x XOR y)"
  by (simp_all add: Evaluate_long_def Evaluate_comparison_def)

lemma long_division_success:
  assumes "\<not> IsExceptionPending s"
  shows "Option.bind (map_option (Pair True) (set_vreg_long s r v))
      (\<lambda>(_, s'). POSSIBLY_HANDLE_PENDING_EXCEPTION (IsExceptionPending s') Next_2xx s') =
    proceed Next_2xx (set_vreg_long s r v)"
  using assms by (cases "SetVRegLong (frame s) r v") (simp_all add: set_vreg_long_def exec_defs IsExceptionPending_def)

text \<open>C24: The same for \<^verbatim>\<open>long\<close> arithmetic and the comparison of longs. When no exception is pending
  and folding has a value, the interpreter stores it; the int that \<^verbatim>\<open>cmp-long\<close> stores is the value of
  the folded comparison cut to 32 bits.\<close>

theorem folding_agrees_with_interpreter_long:
  assumes "GetVRegLong (frame s) (unat (VRegB_23x inst)) = Some x" "GetVRegLong (frame s) (unat (VRegC_23x inst)) = Some y"
    and "\<not> IsExceptionPending s"
  shows "(builder_long_op op = Some hop \<and> Evaluate_long hop x y = Some v \<longrightarrow>
      exec_long op rt inst inst_data s = proceed Next_2xx (set_vreg_long s (unat (VRegA_23x inst_data)) v)) \<and>
    (Evaluate_long HCompare x y = Some v \<longrightarrow>
      exec_cmp CMP_LONG fp inst inst_data s = proceed Next_2xx (set_vreg s (unat (VRegA_23x inst_data)) (ucast v)))"
proof (intro conjI impI)
  assume "builder_long_op op = Some hop \<and> Evaluate_long hop x y = Some v"
  then show "exec_long op rt inst inst_data s = proceed Next_2xx (set_vreg_long s (unat (VRegA_23x inst_data)) v)"
    using assms
    by (auto simp: builder_long_op_def exec_long_def Let_def binary_def long_division_def divide_cases
        Evaluate_int_division Evaluate_long_simps SafeAdd_def SafeSub_def SafeMul_def long_division_success
        split: if_split_asm)
next
  assume v: "Evaluate_long HCompare x y = Some v"
  have u: "ucast (- 1 :: u64) = (- 1 :: u32)" by code_simp
  have "ucast v = cmpl (\<lambda>x y. sint x > sint y) (=) x y"
    using v by (auto simp: Evaluate_long_def Evaluate_comparison_def cmpl_def u split: if_splits)
  then show "exec_cmp CMP_LONG fp inst inst_data s =
      proceed Next_2xx (set_vreg s (unat (VRegA_23x inst_data)) (ucast v))"
    using assms by (simp add: exec_cmp_def compare_vregs_def)
qed

definition sample_long_state :: "unit istate" where
  "sample_long_state = (initial_state 6)\<lparr>frame := \<lparr>vregs = [0, 0, 7, 1, -1, -1], references = [0, 0, 0, 0, 0, 0],
     frame_dex_pc = 0\<rparr>\<rparr>"

theorem folding_agrees_with_interpreter_long_witness:
  "Evaluate_long HDiv 0x100000007 (- 1) = Some (- 0x100000007) \<and>
   exec_long DIV_LONG idle_runtime (code_units [0x009e, 0x0402]) 0x009e sample_long_state =
     proceed Next_2xx (set_vreg_long sample_long_state 0 (- 0x100000007))"
proof -
  let ?inst = "code_units [0x009e, 0x0402]"
  have op: "builder_long_op DIV_LONG = Some HDiv" by (simp add: builder_long_op_def)
  have regs: "GetVRegLong (frame sample_long_state) (unat (VRegB_23x ?inst)) = Some 0x100000007"
    "GetVRegLong (frame sample_long_state) (unat (VRegC_23x ?inst)) = Some (- 1)" "VRegA_23x 0x009e = 0"
    "\<not> IsExceptionPending sample_long_state" by code_simp+
  have e: "Evaluate_long HDiv 0x100000007 (- 1) = Some (- 0x100000007)" by code_simp
  from folding_agrees_with_interpreter_long [OF regs(1,2,4), of DIV_LONG HDiv "- 0x100000007" idle_runtime "0x009e"] op e regs(3)
  show ?thesis by simp
qed

end
