(* ===== verification/ClassHierarchy.thy ===== *)
theory ClassHierarchy
  imports InterpreterState
begin

text \<open>
  The class hierarchy as \<^verbatim>\<open>mirror::Class\<close> answers about it (\<^verbatim>\<open>runtime/mirror/class.h\<close>, \<^verbatim>\<open>class-inl.h\<close>), and the
  join of two classes of the method verifier (\<^verbatim>\<open>runtime/verifier/reg_type.cc\<close>).

  A class that is not an array and not primitive is a row of the class table; there is one array class
  per component class. The loops along the superclasses are partial: they end if the table has no
  cycle.
\<close>

datatype klass = Plain nat | PrimitiveClass Primitive | ArrayClass klass

record class_table =
  super_class :: "nat \<Rightarrow> nat option"
  acc_interface :: "nat \<Rightarrow> bool"
  acc_final :: "nat \<Rightarrow> bool"
  acc_abstract :: "nat \<Rightarrow> bool"
  iftable :: "nat \<Rightarrow> nat list"
  array_iftable :: "nat list"
  object_class :: nat
  type_descriptor :: "nat \<Rightarrow> u8 list"
  erroneous :: "nat \<Rightarrow> bool"

section \<open>Queries\<close>

fun GetSuperClass :: "class_table \<Rightarrow> klass \<Rightarrow> klass option" where
  "GetSuperClass ct (Plain n) = map_option Plain (super_class ct n)"
| "GetSuperClass ct (PrimitiveClass p) = None"
| "GetSuperClass ct (ArrayClass k) = Some (Plain (object_class ct))"

fun IsPrimitiveClass :: "klass \<Rightarrow> bool" where
  "IsPrimitiveClass (PrimitiveClass p) = True"
| "IsPrimitiveClass _ = False"

fun GetComponentType :: "klass \<Rightarrow> klass option" where
  "GetComponentType (ArrayClass k) = Some k"
| "GetComponentType _ = None"

definition IsArrayClass :: "klass \<Rightarrow> bool" where
  "IsArrayClass k \<longleftrightarrow> GetComponentType k \<noteq> None"

fun IsInterface :: "class_table \<Rightarrow> klass \<Rightarrow> bool" where
  "IsInterface ct (Plain n) = acc_interface ct n"
| "IsInterface ct _ = False"

definition IsObjectClass :: "class_table \<Rightarrow> klass \<Rightarrow> bool" where
  "IsObjectClass ct k \<longleftrightarrow> \<not> IsPrimitiveClass k \<and> GetSuperClass ct k = None"

fun CannotBeAssignedFromOtherTypes :: "class_table \<Rightarrow> klass \<Rightarrow> bool" where
  "CannotBeAssignedFromOtherTypes ct (Plain n) = acc_final ct n"
| "CannotBeAssignedFromOtherTypes ct (PrimitiveClass p) = True"
| "CannotBeAssignedFromOtherTypes ct (ArrayClass k) =
     (if IsPrimitiveClass k then True else CannotBeAssignedFromOtherTypes ct k)"

fun IsInstantiable :: "class_table \<Rightarrow> klass \<Rightarrow> bool" where
  "IsInstantiable ct (Plain n) = (\<not> acc_interface ct n \<and> \<not> acc_abstract ct n)"
| "IsInstantiable ct (PrimitiveClass p) = False"
| "IsInstantiable ct (ArrayClass k) = True"

fun IsFinal :: "class_table \<Rightarrow> klass \<Rightarrow> bool" where
  "IsFinal ct (Plain n) = acc_final ct n"
| "IsFinal ct (PrimitiveClass p) = True"
| "IsFinal ct (ArrayClass k) = True"

fun IsErroneous :: "class_table \<Rightarrow> klass \<Rightarrow> bool" where
  "IsErroneous ct (Plain n) = erroneous ct n"
| "IsErroneous ct _ = False"

fun GetIfTable :: "class_table \<Rightarrow> klass \<Rightarrow> nat list" where
  "GetIfTable ct (Plain n) = iftable ct n"
| "GetIfTable ct (PrimitiveClass p) = []"
| "GetIfTable ct (ArrayClass k) = array_iftable ct"

definition Implements :: "class_table \<Rightarrow> klass \<Rightarrow> klass \<Rightarrow> bool" where
  "Implements ct k i \<longleftrightarrow> i \<in> Plain ` set (GetIfTable ct k)"

partial_function (option) depth_loop :: "class_table \<Rightarrow> klass \<Rightarrow> nat \<Rightarrow> nat option" where
  [code]: "depth_loop ct k depth =
     (case GetSuperClass ct k of None \<Rightarrow> Some depth | Some super \<Rightarrow> depth_loop ct super (depth + 1))"

definition Depth :: "class_table \<Rightarrow> klass \<Rightarrow> nat option" where
  "Depth ct k = depth_loop ct k 0"

partial_function (option) IsSubClass :: "class_table \<Rightarrow> klass \<Rightarrow> klass \<Rightarrow> bool option" where
  [code]: "IsSubClass ct current k =
     (if current = k then Some True
      else case GetSuperClass ct current of None \<Rightarrow> Some False | Some super \<Rightarrow> IsSubClass ct super k)"

fun IsAssignableFrom :: "class_table \<Rightarrow> klass \<Rightarrow> klass \<Rightarrow> bool option" where
  "IsAssignableFrom ct this src =
     (if this = src then Some True
      else if IsObjectClass ct this then Some (\<not> IsPrimitiveClass src)
      else if IsInterface ct this then Some (Implements ct src this)
      else case src of
        ArrayClass src_component \<Rightarrow>
          (case this of
             ArrayClass this_component \<Rightarrow> IsAssignableFrom ct this_component src_component
           | _ \<Rightarrow> Some (GetSuperClass ct src = Some this))
      | _ \<Rightarrow> if IsInterface ct src then Some False else IsSubClass ct src this)"

declare IsAssignableFrom.simps [simp del]

section \<open>Join\<close>

text \<open>\<open>climb\<close> is a loop that follows the superclass a number of times.\<close>

primrec climb :: "class_table \<Rightarrow> nat \<Rightarrow> klass \<Rightarrow> klass option" where
  "climb ct 0 k = Some k"
| "climb ct (Suc n) k = do { super \<leftarrow> GetSuperClass ct k; climb ct n super }"

partial_function (option) meet :: "class_table \<Rightarrow> klass \<Rightarrow> klass \<Rightarrow> klass option" where
  [code]: "meet ct s t =
     (if s = t then Some s
      else do { s \<leftarrow> GetSuperClass ct s; t \<leftarrow> GetSuperClass ct t; meet ct s t })"

definition common_parent :: "class_table \<Rightarrow> klass \<Rightarrow> klass \<Rightarrow> klass option" where
  "common_parent ct s t = do {
     s_depth \<leftarrow> Depth ct s;
     t_depth \<leftarrow> Depth ct t;
     s \<leftarrow> climb ct (s_depth - t_depth) s;
     t \<leftarrow> climb ct (t_depth - s_depth) t;
     meet ct s t
   }"

fun ClassJoin :: "class_table \<Rightarrow> klass \<Rightarrow> klass \<Rightarrow> klass option" where
  "ClassJoin ct s t =
     (if s = t then Some s
      else do {
        s_from_t \<leftarrow> IsAssignableFrom ct s t;
        if s_from_t then Some s
        else do {
          t_from_s \<leftarrow> IsAssignableFrom ct t s;
          if t_from_s then Some t
          else case (s, t) of
            (ArrayClass s_ct, ArrayClass t_ct) \<Rightarrow>
              if IsPrimitiveClass s_ct \<or> IsPrimitiveClass t_ct then GetSuperClass ct s
              else do { common_elem \<leftarrow> ClassJoin ct s_ct t_ct; Some (ArrayClass common_elem) }
          | _ \<Rightarrow> common_parent ct s t
        }
      })"

declare ClassJoin.simps [simp del]

section \<open>Well-formed tables\<close>

definition supers :: "class_table \<Rightarrow> (nat \<times> nat) set" where
  "supers ct = {(n, m). super_class ct n = Some m}"

text \<open>
  What the class linker guarantees: no class is its own ancestor, only \<^verbatim>\<open>java.lang.Object\<close> has no superclass,
  and it is not final and implements nothing,
  superclasses are neither interfaces nor final, an interface has \<^verbatim>\<open>java.lang.Object\<close> as its superclass, and the interface table of a class lists the
  interfaces of its superclass and of its interfaces.
\<close>

definition class_ok :: "class_table \<Rightarrow> bool" where
  "class_ok ct \<longleftrightarrow> wf ((supers ct)\<inverse>) \<and>
     (\<forall>n. super_class ct n = None \<longleftrightarrow> n = object_class ct) \<and> \<not> acc_interface ct (object_class ct) \<and>
     \<not> acc_final ct (object_class ct) \<and> iftable ct (object_class ct) = [] \<and>
     (\<forall>n m. super_class ct n = Some m \<longrightarrow> \<not> acc_interface ct m \<and> \<not> acc_final ct m) \<and>
     (\<forall>n. acc_interface ct n \<longrightarrow> \<not> acc_final ct n \<and> super_class ct n = Some (object_class ct)) \<and>
     (\<forall>n i. i \<in> set (iftable ct n) \<longrightarrow> acc_interface ct i \<and> set (iftable ct i) \<subseteq> set (iftable ct n)) \<and>
     (\<forall>n m. super_class ct n = Some m \<longrightarrow> set (iftable ct m) \<subseteq> set (iftable ct n)) \<and>
     (\<forall>i \<in> set (array_iftable ct). acc_interface ct i \<and> set (iftable ct i) \<subseteq> set (array_iftable ct))"

lemma class_okD:
  assumes "class_ok ct"
  shows "wf ((supers ct)\<inverse>)" "super_class ct n = None \<longleftrightarrow> n = object_class ct"
    "\<not> acc_interface ct (object_class ct)"
    "super_class ct n = Some m \<Longrightarrow> \<not> acc_interface ct m" "super_class ct n = Some m \<Longrightarrow> \<not> acc_final ct m"
    "acc_interface ct n \<Longrightarrow> \<not> acc_final ct n"
    "i \<in> set (iftable ct n) \<Longrightarrow> acc_interface ct i"
    "i \<in> set (iftable ct n) \<Longrightarrow> j \<in> set (iftable ct i) \<Longrightarrow> j \<in> set (iftable ct n)"
    "super_class ct n = Some m \<Longrightarrow> i \<in> set (iftable ct m) \<Longrightarrow> i \<in> set (iftable ct n)"
    "i \<in> set (array_iftable ct) \<Longrightarrow> acc_interface ct i"
    "i \<in> set (array_iftable ct) \<Longrightarrow> j \<in> set (iftable ct i) \<Longrightarrow> j \<in> set (array_iftable ct)"
    "\<not> acc_final ct (object_class ct)" "iftable ct (object_class ct) = []"
    "acc_interface ct n \<Longrightarrow> super_class ct n = Some (object_class ct)"
  using assms by (auto simp: class_ok_def) (meson subsetD)+

lemma super_induct:
  assumes "class_ok ct" "\<And>n. (\<And>m. super_class ct n = Some m \<Longrightarrow> P m) \<Longrightarrow> P n"
  shows "P n"
  using class_okD(1) [OF assms(1)]
proof (induction n rule: wf_induct_rule)
  case (less n)
  then show ?case using assms(2) by (auto simp: supers_def)
qed

lemma object_class_iff: "class_ok ct \<Longrightarrow> IsObjectClass ct k \<longleftrightarrow> k = Plain (object_class ct)"
  using class_okD(2) by (cases k) (auto simp: IsObjectClass_def)

lemma to_object:
  assumes ok: "class_ok ct"
  shows "(n, object_class ct) \<in> (supers ct)\<^sup>*"
proof (induction n rule: super_induct [OF ok])
  case (1 n)
  show ?case
  proof (cases "super_class ct n")
    case None
    then show ?thesis using class_okD(2) [OF ok] by simp
  next
    case (Some m)
    then show ?thesis using 1 [OF Some] by (auto simp: supers_def intro: converse_rtrancl_into_rtrancl)
  qed
qed

section \<open>Subclasses\<close>

lemma IsSubClass_Plain:
  assumes ok: "class_ok ct"
  shows "IsSubClass ct (Plain n) k = Some (\<exists>m. k = Plain m \<and> (n, m) \<in> (supers ct)\<^sup>*)"
proof (induction n rule: super_induct [OF ok])
  case (1 n)
  show ?case
  proof (cases "super_class ct n")
    case None
    have "m = n" if "(n, m) \<in> (supers ct)\<^sup>*" for m
      using that None by (auto simp: supers_def elim: converse_rtranclE)
    then show ?thesis using None by (subst IsSubClass.simps) auto
  next
    case (Some s)
    have "(n, m) \<in> (supers ct)\<^sup>* \<longleftrightarrow> m = n \<or> (s, m) \<in> (supers ct)\<^sup>*" for m
      using Some by (auto simp: supers_def elim: converse_rtranclE intro: converse_rtrancl_into_rtrancl)
    then show ?thesis using Some 1 [OF Some] by (subst IsSubClass.simps) auto
  qed
qed

lemma supers_not_interface:
  assumes "class_ok ct" "(n, m) \<in> (supers ct)\<^sup>*" "n \<noteq> m"
  shows "\<not> acc_interface ct m" "\<not> acc_final ct m"
  using assms(2,3) class_okD(4,5) [OF assms(1)] by (auto simp: supers_def elim: rtranclE)

lemma supers_iftable:
  assumes "class_ok ct" "(n, m) \<in> (supers ct)\<^sup>*" "i \<in> set (iftable ct m)"
  shows "i \<in> set (iftable ct n)"
  using assms(2,3) by (induction rule: converse_rtrancl_induct) (auto simp: supers_def intro: class_okD(9) [OF assms(1)])

section \<open>Assignability\<close>

fun assignable :: "class_table \<Rightarrow> klass \<Rightarrow> klass \<Rightarrow> bool" where
  "assignable ct (Plain m) (Plain n) =
     (m = n \<or> m = object_class ct \<or>
      (if acc_interface ct m then m \<in> set (iftable ct n)
       else \<not> acc_interface ct n \<and> (n, m) \<in> (supers ct)\<^sup>*))"
| "assignable ct (Plain m) (ArrayClass b) = (m = object_class ct \<or> acc_interface ct m \<and> m \<in> set (array_iftable ct))"
| "assignable ct (ArrayClass a) (ArrayClass b) = assignable ct a b"
| "assignable ct (ArrayClass a) _ = False"
| "assignable ct (PrimitiveClass p) k = (k = PrimitiveClass p)"
| "assignable ct (Plain m) (PrimitiveClass p) = False"

lemma assignable_refl [simp]: "assignable ct k k"
  by (induction k) auto

lemma IsAssignableFrom_assignable:
  assumes ok: "class_ok ct"
  shows "IsAssignableFrom ct this src = Some (assignable ct this src)"
proof (induction src arbitrary: this)
  case (Plain n)
  show ?case
    using IsSubClass_Plain [OF ok] object_class_iff [OF ok] class_okD(3) [OF ok]
    by (subst IsAssignableFrom.simps, cases this) (auto simp: Implements_def)
next
  case (PrimitiveClass p)
  have "IsSubClass ct (PrimitiveClass p) k = Some (k = PrimitiveClass p)" for k
    by (subst IsSubClass.simps) auto
  then show ?case
    using object_class_iff [OF ok] class_okD(3) [OF ok]
    by (subst IsAssignableFrom.simps, cases this) (auto simp: Implements_def)
next
  case (ArrayClass b)
  then show ?case
    using object_class_iff [OF ok] class_okD(3) [OF ok]
    by (subst IsAssignableFrom.simps, cases this) (auto simp: Implements_def)
qed

lemma assignable_trans:
  assumes ok: "class_ok ct" and ab: "assignable ct a b" and bc: "assignable ct b c"
  shows "assignable ct a c"
  using ab bc
proof (induction c arbitrary: a b)
  case (Plain n)
  obtain m where [simp]: "b = Plain m" using Plain(2) by (cases b) simp_all
  obtain l where [simp]: "a = Plain l" using Plain(1) by (cases a) simp_all
  have ml: "l = m \<or> l = object_class ct \<or> (if acc_interface ct l then l \<in> set (iftable ct m)
      else \<not> acc_interface ct m \<and> (m, l) \<in> (supers ct)\<^sup>*)" using Plain(1) by simp
  have nm: "m = n \<or> m = object_class ct \<or> (if acc_interface ct m then m \<in> set (iftable ct n)
      else \<not> acc_interface ct n \<and> (n, m) \<in> (supers ct)\<^sup>*)" using Plain(2) by simp
  consider "l = m" | "l = object_class ct" | "m = n" | "acc_interface ct l" "l \<in> set (iftable ct m)" "m \<noteq> n"
    | "\<not> acc_interface ct l" "\<not> acc_interface ct m" "(m, l) \<in> (supers ct)\<^sup>*" "m \<noteq> n"
    using ml by (auto split: if_splits)
  then show ?case
  proof cases
    case 1
    then show ?thesis using Plain(2) by simp
  next
    case 3
    then show ?thesis using Plain(1) by simp
  next
    case 4
    have "l \<in> set (iftable ct n)"
    proof (cases "acc_interface ct m")
      case True
      then have "m \<in> set (iftable ct n)" using nm 4(3) class_okD(3) [OF ok] by auto
      then show ?thesis using class_okD(8) [OF ok] 4(2) by blast
    next
      case False
      then have "(n, m) \<in> (supers ct)\<^sup>*" using nm 4(3) to_object [OF ok, of n] by auto
      then show ?thesis using supers_iftable [OF ok] 4(2) by blast
    qed
    then show ?thesis using 4(1) by simp
  next
    case 5
    show ?thesis
    proof (cases "m = object_class ct")
      case True
      then have "super_class ct m = None" using class_okD(2) [OF ok] by simp
      then have "l = m" using 5(3) by (auto simp: supers_def elim: converse_rtranclE)
      then show ?thesis using Plain(2) by simp
    next
      case False
      then have "\<not> acc_interface ct n \<and> (n, m) \<in> (supers ct)\<^sup>*" using nm 5(2,4) by auto
      then show ?thesis using 5 by (auto intro: rtrancl_trans)
    qed
  qed simp
next
  case (PrimitiveClass p)
  then show ?case by (cases b; cases a) auto
next
  case (ArrayClass d)
  show ?case
  proof (cases b)
    case (Plain m)
    obtain l where l: "a = Plain l" using ArrayClass(2) Plain by (cases a) simp_all
    have m: "m = object_class ct \<or> acc_interface ct m \<and> m \<in> set (array_iftable ct)"
      using ArrayClass(3) Plain by simp
    have obj: "k = object_class ct" if "(object_class ct, k) \<in> (supers ct)\<^sup>*" for k
      using that class_okD(2) [OF ok, of "object_class ct"] by (auto simp: supers_def elim: converse_rtranclE)
    show ?thesis
      using ArrayClass(2) m l Plain obj [of l] class_okD(11) [OF ok, of m l] class_okD(3) [OF ok] class_okD(13) [OF ok]
      by (auto split: if_splits)
  next
    case (ArrayClass e)
    then show ?thesis using ArrayClass.IH ArrayClass.prems by (cases a) auto
  qed (use ArrayClass.prems in auto)
qed

lemma final_class:
  assumes ok: "class_ok ct" and f: "CannotBeAssignedFromOtherTypes ct a" and ab: "assignable ct a b"
  shows "b = a"
  using f ab
proof (induction a arbitrary: b)
  case (Plain m)
  then show ?case
    using class_okD(6) [OF ok] supers_not_interface(2) [OF ok] class_okD(12) [OF ok] by (cases b) (auto split: if_splits)
next
  case (PrimitiveClass p)
  then show ?case by simp
next
  case (ArrayClass a)
  then show ?case by (cases b; cases a) (auto split: if_splits)
qed

section \<open>The join\<close>

definition ksupers :: "class_table \<Rightarrow> (klass \<times> klass) set" where
  "ksupers ct = {(k, l). GetSuperClass ct k = Some l}"

abbreviation Object :: "class_table \<Rightarrow> klass" where
  "Object ct \<equiv> Plain (object_class ct)"

lemma ksupersI: "GetSuperClass ct k = Some l \<Longrightarrow> (l, u) \<in> (ksupers ct)\<^sup>* \<Longrightarrow> (k, u) \<in> (ksupers ct)\<^sup>*"
  by (rule converse_rtrancl_into_rtrancl) (simp_all add: ksupers_def)

lemma ksupersE:
  assumes "(k, u) \<in> (ksupers ct)\<^sup>*"
  obtains "u = k" | l where "GetSuperClass ct k = Some l" "(l, u) \<in> (ksupers ct)\<^sup>*"
  using assms by (auto simp: ksupers_def elim: converse_rtranclE)

lemma climb_ksupers: "climb ct n k = Some l \<Longrightarrow> (k, l) \<in> (ksupers ct)\<^sup>*"
  by (induction n arbitrary: k) (auto simp: bind_eq_Some_conv intro: ksupersI)

lemma super_object: "class_ok ct \<Longrightarrow> super_class ct (object_class ct) = None"
  by (simp add: class_okD(2))

lemma climb_object:
  assumes "class_ok ct" "climb ct n (Object ct) = Some k"
  shows "n = 0"
  using assms class_okD(2) [OF assms(1), of "object_class ct"] by (cases n) simp_all

lemma climb_add: "climb ct (m + n) k = do { l \<leftarrow> climb ct m k; climb ct n l }"
  by (induction m arbitrary: k) (auto split: bind_splits)

lemma climb_unique:
  assumes ok: "class_ok ct" and "climb ct m k = Some (Object ct)" "climb ct n k = Some (Object ct)"
  shows "m = n"
proof -
  have le: "j \<le> i" if i: "climb ct i k = Some (Object ct)" and j: "climb ct j k = Some (Object ct)" for i j
  proof (rule ccontr)
    assume "\<not> j \<le> i"
    then have "climb ct (i + (j - i)) k = Some (Object ct)" using j by simp
    then have "climb ct (j - i) (Object ct) = Some (Object ct)" using i by (simp add: climb_add del: climb.simps)
    then show False using climb_object [OF ok] \<open>\<not> j \<le> i\<close> by fastforce
  qed
  show ?thesis using le assms(2,3) by (meson le_antisym)
qed

lemma depth_loop_climb:
  assumes ok: "class_ok ct" and k: "\<not> IsPrimitiveClass k"
  shows "\<exists>n. climb ct n k = Some (Object ct) \<and> (\<forall>d. depth_loop ct k d = Some (d + n))"
proof -
  have object: "depth_loop ct (Object ct) d = Some d" for d
    using super_object [OF ok] by (subst depth_loop.simps) simp
  have plain: "\<exists>n. climb ct n (Plain m) = Some (Object ct) \<and> (\<forall>d. depth_loop ct (Plain m) d = Some (d + n))" for m
  proof (induction m rule: super_induct [OF ok])
    case (1 m)
    show ?case
    proof (cases "super_class ct m")
      case None
      then show ?thesis using class_okD(2) [OF ok] object by (intro exI [of _ 0]) simp
    next
      case (Some s)
      obtain n where n: "climb ct n (Plain s) = Some (Object ct)" "\<And>d. depth_loop ct (Plain s) d = Some (d + n)"
        using 1 [OF Some] by blast
      have "depth_loop ct (Plain m) d = Some (d + Suc n)" for d
        using Some n(2) [of "d + 1"] by (subst depth_loop.simps) simp
      then show ?thesis using Some n(1) by (intro exI [of _ "Suc n"]) simp
    qed
  qed
  have array: "depth_loop ct (ArrayClass a) d = Some (Suc d)" for a d
    using object [of "d + 1"] by (subst depth_loop.simps) simp
  show ?thesis
  proof (cases k)
    case (ArrayClass a)
    then show ?thesis using array by (intro exI [of _ 1]) simp
  qed (use plain k in auto)
qed

lemma ksupers_climb:
  assumes ok: "class_ok ct" and "(k, u) \<in> (ksupers ct)\<^sup>*" "climb ct n k = Some (Object ct)"
  shows "\<exists>i \<le> n. climb ct i k = Some u \<and> climb ct (n - i) u = Some (Object ct)"
  using assms(2,3)
proof (induction n arbitrary: k)
  case 0
  then have "u = k" using super_object [OF ok] by (auto elim: ksupersE)
  then show ?case using 0 by simp
next
  case (Suc n)
  show ?case using Suc.prems(1)
  proof (cases rule: ksupersE)
    case 1
    then show ?thesis using Suc.prems by (intro exI [of _ 0]) simp
  next
    case (2 l)
    then obtain i where "i \<le> n" "climb ct i l = Some u" "climb ct (n - i) u = Some (Object ct)"
      using Suc.IH [of l] Suc.prems by auto
    then show ?thesis using 2 by (intro exI [of _ "Suc i"]) simp
  qed
qed

lemma meet_least:
  assumes ok: "class_ok ct" and "climb ct n s = Some (Object ct)" "climb ct n t = Some (Object ct)"
  shows "\<exists>j. meet ct s t = Some j \<and> (s, j) \<in> (ksupers ct)\<^sup>* \<and> (t, j) \<in> (ksupers ct)\<^sup>* \<and>
     (\<forall>u. (s, u) \<in> (ksupers ct)\<^sup>* \<longrightarrow> (t, u) \<in> (ksupers ct)\<^sup>* \<longrightarrow> (j, u) \<in> (ksupers ct)\<^sup>*)"
  using assms(2,3)
proof (induction n arbitrary: s t)
  case 0
  then show ?case by (subst meet.simps) auto
next
  case (Suc n)
  show ?case
  proof (cases "s = t")
    case True
    then show ?thesis by (subst meet.simps) auto
  next
    case False
    obtain s' t' where s': "GetSuperClass ct s = Some s'" "climb ct n s' = Some (Object ct)"
      and t': "GetSuperClass ct t = Some t'" "climb ct n t' = Some (Object ct)"
      using Suc.prems by (auto simp: bind_eq_Some_conv)
    obtain j where j: "meet ct s' t' = Some j" "(s', j) \<in> (ksupers ct)\<^sup>*" "(t', j) \<in> (ksupers ct)\<^sup>*"
      "\<And>u. (s', u) \<in> (ksupers ct)\<^sup>* \<Longrightarrow> (t', u) \<in> (ksupers ct)\<^sup>* \<Longrightarrow> (j, u) \<in> (ksupers ct)\<^sup>*"
      using Suc.IH [OF s'(2) t'(2)] by blast
    have apart: "False" if "(a', b) \<in> (ksupers ct)\<^sup>*" "climb ct n a' = Some (Object ct)"
      "climb ct (Suc n) b = Some (Object ct)" for a' b
      using ksupers_climb [OF ok that(1,2)] climb_unique [OF ok that(3)] by fastforce
    have "(j, u) \<in> (ksupers ct)\<^sup>*" if u: "(s, u) \<in> (ksupers ct)\<^sup>*" "(t, u) \<in> (ksupers ct)\<^sup>*" for u
      using u(1)
    proof (cases rule: ksupersE)
      case 1
      then show ?thesis using u(2) False t' Suc.prems(1) apart [of t' s] by (auto elim: ksupersE)
    next
      case (2 l)
      then have "(s', u) \<in> (ksupers ct)\<^sup>*" using s' by simp
      moreover have "u \<noteq> t" using apart [of s' t] s'(2) Suc.prems(2) calculation by auto
      then have "(t', u) \<in> (ksupers ct)\<^sup>*" using u(2) t' by (auto elim: ksupersE)
      ultimately show ?thesis by (rule j(4))
    qed
    then show ?thesis
      using False s'(1) t'(1) j(1) ksupersI [OF s'(1) j(2)] ksupersI [OF t'(1) j(3)]
      by (intro exI [of _ j]) (subst meet.simps, simp)
  qed
qed

fun interface_element :: "class_table \<Rightarrow> klass \<Rightarrow> bool" where
  "interface_element ct (ArrayClass k) = interface_element ct k"
| "interface_element ct k = IsInterface ct k"

lemma common_parent_least:
  assumes ok: "class_ok ct" and "\<not> IsPrimitiveClass s" "\<not> IsPrimitiveClass t"
  shows "\<exists>j. common_parent ct s t = Some j \<and> (s, j) \<in> (ksupers ct)\<^sup>* \<and> (t, j) \<in> (ksupers ct)\<^sup>* \<and>
     (\<forall>u. (s, u) \<in> (ksupers ct)\<^sup>* \<longrightarrow> (t, u) \<in> (ksupers ct)\<^sup>* \<longrightarrow> (j, u) \<in> (ksupers ct)\<^sup>*)"
proof -
  obtain m where m: "climb ct m s = Some (Object ct)" "Depth ct s = Some m"
    using depth_loop_climb [OF ok assms(2)] by (auto simp: Depth_def)
  obtain n where n: "climb ct n t = Some (Object ct)" "Depth ct t = Some n"
    using depth_loop_climb [OF ok assms(3)] by (auto simp: Depth_def)
  have level: "\<exists>k'. climb ct (i - j) k = Some k' \<and> climb ct (min i j) k' = Some (Object ct) \<and> (k, k') \<in> (ksupers ct)\<^sup>* \<and>
      (\<forall>u l. (k, u) \<in> (ksupers ct)\<^sup>* \<longrightarrow> (l, u) \<in> (ksupers ct)\<^sup>* \<longrightarrow> climb ct j l = Some (Object ct)
        \<longrightarrow> (k', u) \<in> (ksupers ct)\<^sup>*)"
    if k: "climb ct i k = Some (Object ct)" for i j k
  proof -
    have "climb ct ((i - j) + min i j) k = Some (Object ct)" using k by (simp add: min_def)
    then obtain k' where k': "climb ct (i - j) k = Some k'" "climb ct (min i j) k' = Some (Object ct)"
      by (auto simp: climb_add bind_eq_Some_conv)
    have "(k', u) \<in> (ksupers ct)\<^sup>*"
      if u: "(k, u) \<in> (ksupers ct)\<^sup>*" "(l, u) \<in> (ksupers ct)\<^sup>*" "climb ct j l = Some (Object ct)" for u l
    proof -
      obtain a where a: "a \<le> i" "climb ct a k = Some u" "climb ct (i - a) u = Some (Object ct)"
        using ksupers_climb [OF ok u(1) k] by blast
      obtain b where b: "b \<le> j" "climb ct (j - b) u = Some (Object ct)"
        using ksupers_climb [OF ok u(2,3)] by blast
      have "i - a = j - b" by (rule climb_unique [OF ok a(3) b(2)])
      then have "climb ct ((i - j) + (a - (i - j))) k = Some u" using a(1,2) b(1) by simp
      then have "climb ct (a - (i - j)) k' = Some u" using k'(1) by (simp add: climb_add del: climb.simps)
      then show ?thesis by (rule climb_ksupers)
    qed
    then show ?thesis using k' climb_ksupers [OF k'(1)] by blast
  qed
  obtain s' where s': "climb ct (m - n) s = Some s'" "climb ct (min m n) s' = Some (Object ct)" "(s, s') \<in> (ksupers ct)\<^sup>*"
      "\<And>u. (s, u) \<in> (ksupers ct)\<^sup>* \<Longrightarrow> (t, u) \<in> (ksupers ct)\<^sup>* \<Longrightarrow> (s', u) \<in> (ksupers ct)\<^sup>*"
    using level [OF m(1), of n] n(1) by blast
  obtain t' where t': "climb ct (n - m) t = Some t'" "climb ct (min n m) t' = Some (Object ct)" "(t, t') \<in> (ksupers ct)\<^sup>*"
      "\<And>u. (t, u) \<in> (ksupers ct)\<^sup>* \<Longrightarrow> (s, u) \<in> (ksupers ct)\<^sup>* \<Longrightarrow> (t', u) \<in> (ksupers ct)\<^sup>*"
    using level [OF n(1), of m] m(1) by blast
  obtain j where j: "meet ct s' t' = Some j" "(s', j) \<in> (ksupers ct)\<^sup>*" "(t', j) \<in> (ksupers ct)\<^sup>*"
      "\<And>u. (s', u) \<in> (ksupers ct)\<^sup>* \<Longrightarrow> (t', u) \<in> (ksupers ct)\<^sup>* \<Longrightarrow> (j, u) \<in> (ksupers ct)\<^sup>*"
    using meet_least [OF ok s'(2) t'(2) [unfolded min.commute [of n]]] by blast
  have "common_parent ct s t = Some j" using m n s'(1) t'(1) j(1) by (simp add: common_parent_def)
  moreover have "(s, j) \<in> (ksupers ct)\<^sup>*" by (rule rtrancl_trans [OF s'(3) j(2)])
  moreover have "(t, j) \<in> (ksupers ct)\<^sup>*" by (rule rtrancl_trans [OF t'(3) j(3)])
  ultimately show ?thesis using j(4) s'(4) t'(4) by (intro exI [of _ j]) simp
qed

lemma supers_iff: "(n, m) \<in> supers ct \<longleftrightarrow> super_class ct n = Some m"
  by (simp add: supers_def)

lemma ksupers_iff: "(k, l) \<in> ksupers ct \<longleftrightarrow> GetSuperClass ct k = Some l"
  by (simp add: ksupers_def)

lemma supers_step: "(n, m) \<in> (supers ct)\<^sup>* \<Longrightarrow> super_class ct m = Some l \<Longrightarrow> (n, l) \<in> (supers ct)\<^sup>*"
  by (rule rtrancl_into_rtrancl) (simp_all add: supers_iff)

lemma ksupers_step: "(k, m) \<in> (ksupers ct)\<^sup>* \<Longrightarrow> GetSuperClass ct m = Some l \<Longrightarrow> (k, l) \<in> (ksupers ct)\<^sup>*"
  by (rule rtrancl_into_rtrancl) (simp_all add: ksupers_iff)

lemma ksupers_Plain: "(Plain n, u) \<in> (ksupers ct)\<^sup>* \<longleftrightarrow> (\<exists>m. u = Plain m \<and> (n, m) \<in> (supers ct)\<^sup>*)"
proof
  assume "(Plain n, u) \<in> (ksupers ct)\<^sup>*"
  then show "\<exists>m. u = Plain m \<and> (n, m) \<in> (supers ct)\<^sup>*"
  proof (induction rule: rtrancl_induct)
    case (step k l)
    then obtain m where m: "k = Plain m" "(n, m) \<in> (supers ct)\<^sup>*" by blast
    then obtain j where "l = Plain j" "super_class ct m = Some j" using step(2) by (auto simp: ksupers_iff)
    then show ?case using supers_step [OF m(2)] by simp
  qed simp
next
  have "(Plain n, Plain m) \<in> (ksupers ct)\<^sup>*" if "(n, m) \<in> (supers ct)\<^sup>*" for m
    using that
  proof (induction rule: rtrancl_induct)
    case (step k l)
    then show ?case using ksupers_step [OF step(3)] by (simp add: supers_iff)
  qed simp
  then show "\<exists>m. u = Plain m \<and> (n, m) \<in> (supers ct)\<^sup>* \<Longrightarrow> (Plain n, u) \<in> (ksupers ct)\<^sup>*" by blast
qed

lemma supers_object: "class_ok ct \<Longrightarrow> (object_class ct, m) \<in> (supers ct)\<^sup>* \<Longrightarrow> m = object_class ct"
  by (auto simp: supers_iff super_object elim: converse_rtranclE)

lemma ksupers_ArrayClass:
  assumes "class_ok ct"
  shows "(ArrayClass k, u) \<in> (ksupers ct)\<^sup>* \<longleftrightarrow> u = ArrayClass k \<or> u = Object ct"
proof -
  have "(Object ct, u) \<in> (ksupers ct)\<^sup>* \<longleftrightarrow> u = Object ct"
    using supers_object [OF assms] by (auto simp: ksupers_Plain)
  moreover have "(ArrayClass k, u) \<in> (ksupers ct)\<^sup>* \<longleftrightarrow> u = ArrayClass k \<or> (Object ct, u) \<in> (ksupers ct)\<^sup>*"
    using ksupersI [of ct "ArrayClass k" "Object ct" u] by (auto elim: ksupersE [of "ArrayClass k" u ct])
  ultimately show ?thesis by simp
qed

lemma supers_interface:
  assumes ok: "class_ok ct" and "acc_interface ct n" "(n, m) \<in> (supers ct)\<^sup>*"
  shows "m = n \<or> m = object_class ct"
  using assms(3) class_okD(14) [OF ok assms(2)] supers_object [OF ok]
  by (auto simp: supers_iff elim: converse_rtranclE)

lemma superclass_assignable:
  assumes ok: "class_ok ct" and "(k, u) \<in> (ksupers ct)\<^sup>*" "\<not> IsPrimitiveClass k"
  shows "assignable ct u k" "\<not> IsPrimitiveClass u"
proof -
  have "assignable ct u k \<and> \<not> IsPrimitiveClass u"
  proof (cases k)
    case (Plain n)
    then obtain m where m: "u = Plain m" "(n, m) \<in> (supers ct)\<^sup>*" using assms(2) by (auto simp: ksupers_Plain)
    then show ?thesis
      using Plain supers_interface [OF ok] supers_not_interface [OF ok] by auto
  qed (use assms ksupers_ArrayClass [OF ok] in auto)
  then show "assignable ct u k" "\<not> IsPrimitiveClass u" by simp_all
qed

lemma assignable_superclass:
  assumes ok: "class_ok ct" and "assignable ct (Plain m) k" "\<not> acc_interface ct m"
  shows "(k, Plain m) \<in> (ksupers ct)\<^sup>*"
  using assms to_object [OF ok] by (cases k) (auto simp: ksupers_Plain ksupers_ArrayClass)

lemma assignable_primitive [simp]: "assignable ct k (PrimitiveClass p) \<longleftrightarrow> k = PrimitiveClass p"
  by (cases k) auto

lemma join_plain:
  assumes ok: "class_ok ct" and "\<not> IsPrimitiveClass s" "\<not> IsPrimitiveClass t" "s = Plain n \<or> t = Plain n"
  shows "\<exists>j. common_parent ct s t = Some j \<and> \<not> IsPrimitiveClass j \<and> assignable ct j s \<and> assignable ct j t \<and>
     (\<forall>u. \<not> interface_element ct u \<longrightarrow> assignable ct u s \<longrightarrow> assignable ct u t \<longrightarrow> assignable ct u j)"
proof -
  obtain j where j: "common_parent ct s t = Some j" "(s, j) \<in> (ksupers ct)\<^sup>*" "(t, j) \<in> (ksupers ct)\<^sup>*"
    "\<And>u. (s, u) \<in> (ksupers ct)\<^sup>* \<Longrightarrow> (t, u) \<in> (ksupers ct)\<^sup>* \<Longrightarrow> (j, u) \<in> (ksupers ct)\<^sup>*"
    using common_parent_least [OF ok assms(2,3)] by blast
  note [simp] = superclass_assignable [OF ok j(2) assms(2)] superclass_assignable [OF ok j(3) assms(3)]
  have "assignable ct u j" if u: "\<not> interface_element ct u" "assignable ct u s" "assignable ct u t" for u
  proof (cases u)
    case (Plain m)
    then have "(s, u) \<in> (ksupers ct)\<^sup>*" "(t, u) \<in> (ksupers ct)\<^sup>*" using u assignable_superclass [OF ok] by auto
    then show ?thesis by (intro superclass_assignable(1) [OF ok] j(4)) simp_all
  qed (use u assms in auto)
  then show ?thesis using j(1) by auto
qed

lemma join_least:
  assumes ok: "class_ok ct" and "\<not> IsPrimitiveClass s" "\<not> IsPrimitiveClass t"
  shows "\<exists>j. ClassJoin ct s t = Some j \<and> \<not> IsPrimitiveClass j \<and> assignable ct j s \<and> assignable ct j t \<and>
     (\<forall>u. \<not> interface_element ct u \<longrightarrow> assignable ct u s \<longrightarrow> assignable ct u t \<longrightarrow> assignable ct u j)"
  using assms(2,3)
proof (induction s arbitrary: t)
  case (ArrayClass s)
  note [simp] = IsAssignableFrom_assignable [OF ok]
  show ?case
  proof (cases t)
    case (ArrayClass t')
    consider "s = t'" | "s \<noteq> t'" "assignable ct s t'" | "s \<noteq> t'" "assignable ct t' s" "\<not> assignable ct s t'"
      | "s \<noteq> t'" "\<not> assignable ct s t'" "\<not> assignable ct t' s" "IsPrimitiveClass s \<or> IsPrimitiveClass t'"
      | "s \<noteq> t'" "\<not> assignable ct s t'" "\<not> assignable ct t' s" "\<not> IsPrimitiveClass s" "\<not> IsPrimitiveClass t'" by blast
    then show ?thesis
    proof cases
      case 4
      have "u = Object ct" if "\<not> interface_element ct u" "assignable ct u (ArrayClass s)" "assignable ct u (ArrayClass t')" for u
        using that 4 by (cases u; cases s; cases t') auto
      then show ?thesis using 4 ArrayClass by (subst ClassJoin.simps) auto
    next
      case 5
      obtain j where "ClassJoin ct s t' = Some j" "assignable ct j s" "assignable ct j t'"
        "\<And>u. \<not> interface_element ct u \<Longrightarrow> assignable ct u s \<Longrightarrow> assignable ct u t' \<Longrightarrow> assignable ct u j"
        using ArrayClass.IH [OF 5(4,5)] by blast
      moreover have "assignable ct u (ArrayClass j)"
        if "\<not> interface_element ct u" "assignable ct u (ArrayClass s)" "assignable ct u (ArrayClass t')" for u
        using that calculation(4) by (cases u) auto
      ultimately show ?thesis using 5 ArrayClass by (subst ClassJoin.simps) auto
    qed (use ArrayClass in \<open>(subst ClassJoin.simps, auto)+\<close>)
  next
    case (Plain n)
    then show ?thesis using join_plain [OF ok ArrayClass.prems, of n] by (subst ClassJoin.simps) auto
  qed (use ArrayClass.prems in simp)
next
  case (Plain n)
  note [simp] = IsAssignableFrom_assignable [OF ok]
  show ?case using join_plain [OF ok Plain, of n] Plain(2) by (subst ClassJoin.simps) auto
qed simp

text \<open>C5: The join of two classes exists, both are assignable to it, and it is the least such class among
  those whose element class is not an interface. The class table has to be well formed: the superclass relation ends in
  \<^verbatim>\<open>java.lang.Object\<close>, which is also the superclass of every interface.\<close>
theorem class_join_is_least_upper_bound:
  assumes "class_ok ct" "\<not> IsPrimitiveClass s" "\<not> IsPrimitiveClass t"
  shows "\<exists>j. ClassJoin ct s t = Some j \<and>
     IsAssignableFrom ct j s = Some True \<and> IsAssignableFrom ct j t = Some True \<and>
     (\<forall>u. \<not> interface_element ct u \<longrightarrow> IsAssignableFrom ct u s = Some True \<longrightarrow> IsAssignableFrom ct u t = Some True
        \<longrightarrow> IsAssignableFrom ct u j = Some True)"
  using join_least [OF assms] by (simp add: IsAssignableFrom_assignable [OF assms(1)]) blast

definition sample_classes :: "nat \<Rightarrow> class_table" where
  "sample_classes super = \<lparr> super_class = (\<lambda>n. if n = 0 then None else if n = 2 \<or> n = 3 then Some 1 else if n = 4 then Some super else Some 0),
     acc_interface = (\<lambda>n. n = 4), acc_final = (\<lambda>n. n = 3), acc_abstract = (\<lambda>n. n = 4),
     iftable = (\<lambda>n. if n = 2 then [4] else []), array_iftable = [], object_class = 0, 
     type_descriptor = (\<lambda>n. []), erroneous = (\<lambda>n. False) \<rparr>"

lemma sample_classes_ok: "class_ok (sample_classes 0)"
proof -
  have "(supers (sample_classes 0))\<inverse> \<subseteq> less_than" by (auto simp: supers_def sample_classes_def split: if_splits)
  then have "wf ((supers (sample_classes 0))\<inverse>)" by (rule wf_subset [OF wf_less_than])
  then show ?thesis by (simp add: class_ok_def sample_classes_def)
qed

theorem class_join_is_least_upper_bound_witness:
  "\<exists>j. ClassJoin (sample_classes 0) (ArrayClass (Plain 2)) (ArrayClass (Plain 3)) = Some j \<and>
     IsAssignableFrom (sample_classes 0) j (ArrayClass (Plain 2)) = Some True \<and>
     IsAssignableFrom (sample_classes 0) (ArrayClass (Plain 1)) j = Some True"
proof -
  have "IsAssignableFrom (sample_classes 0) (ArrayClass (Plain 1)) (ArrayClass (Plain 2)) = Some True"
    "IsAssignableFrom (sample_classes 0) (ArrayClass (Plain 1)) (ArrayClass (Plain 3)) = Some True"
    by code_simp+
  moreover have "\<not> interface_element (sample_classes 0) (ArrayClass (Plain 1))" by code_simp
  moreover have "\<not> IsPrimitiveClass (ArrayClass k)" for k by simp
  ultimately show ?thesis
    using class_join_is_least_upper_bound [OF sample_classes_ok, of "ArrayClass (Plain 2)" "ArrayClass (Plain 3)"]
    by blast
qed

text \<open>
  An interface whose superclass is not \<^verbatim>\<open>java.lang.Object\<close>, which \<^verbatim>\<open>ClassLinker::LinkSuperClass\<close> does not
  refuse, has joins that are not above it.
\<close>

lemma interface_with_superclass_join:
  "ClassJoin (sample_classes 1) (Plain 4) (Plain 3) = Some (Plain 1) \<and>
   IsAssignableFrom (sample_classes 1) (Plain 1) (Plain 4) = Some False"
  by code_simp

end
