(* ===== verification/RegTypes.thy ===== *)
theory RegTypes
  imports ClassHierarchy Names
begin

text \<open>
  The type lattice of the method verifier: \<^verbatim>\<open>RegType\<close> and its subclasses (\<^verbatim>\<open>runtime/verifier/reg_type.h\<close>,
  \<^verbatim>\<open>reg_type-inl.h\<close>, \<^verbatim>\<open>reg_type.cc\<close>) and the cache that hands them out (\<^verbatim>\<open>reg_type_cache.h\<close>,
  \<^verbatim>\<open>reg_type_cache-inl.h\<close>, \<^verbatim>\<open>reg_type_cache.cc\<close>).

  A \<^verbatim>\<open>const RegType&\<close> is the value of the object it refers to: the 16 bit \<^verbatim>\<open>cache_id_\<close>, by which types
  are compared, and the subclass with its fields. A cache is its vector \<^verbatim>\<open>entries_\<close>; an operation that
  may add an entry returns the new cache. A descriptor is a list of bytes without its terminator.
  \<^verbatim>\<open>ResolveClass\<close>, which asks the class linker, is an argument.
\<close>

section \<open>Types\<close>

datatype RegType = UndefinedType | ConflictType | BooleanType | ByteType | ShortType | CharType
  | IntegerType | LongLoType | LongHiType | FloatType | DoubleLoType | DoubleHiType
  | PreciseConstType u32 | PreciseConstLoType u32 | PreciseConstHiType u32
  | ImpreciseConstType u32 | ImpreciseConstLoType u32 | ImpreciseConstHiType u32
  | UninitializedReferenceType klass "u8 list" u32 | UnresolvedUninitializedRefType "u8 list" u32
  | UninitializedThisReferenceType klass "u8 list" | UnresolvedUninitializedThisRefType "u8 list"
  | ReferenceType klass "u8 list" | PreciseReferenceType klass "u8 list"
  | UnresolvedReferenceType "u8 list" | UnresolvedSuperClassType u16 | UnresolvedMergedType u16 u16

record reg_type =
  cache_id :: u16
  kind :: RegType

type_synonym cache = "reg_type list"

definition Equals :: "reg_type \<Rightarrow> reg_type \<Rightarrow> bool" where
  "Equals a b \<longleftrightarrow> cache_id a = cache_id b"

text \<open>\<^verbatim>\<open>klass_\<close>, null for \<^term>\<open>None\<close>, and \<^verbatim>\<open>descriptor_\<close>.\<close>

fun klass_of :: "RegType \<Rightarrow> klass option" where
  "klass_of BooleanType = Some (PrimitiveClass kPrimBoolean)"
| "klass_of ByteType = Some (PrimitiveClass kPrimByte)"
| "klass_of ShortType = Some (PrimitiveClass kPrimShort)"
| "klass_of CharType = Some (PrimitiveClass kPrimChar)"
| "klass_of IntegerType = Some (PrimitiveClass kPrimInt)"
| "klass_of LongLoType = Some (PrimitiveClass kPrimLong)"
| "klass_of LongHiType = Some (PrimitiveClass kPrimLong)"
| "klass_of FloatType = Some (PrimitiveClass kPrimFloat)"
| "klass_of DoubleLoType = Some (PrimitiveClass kPrimDouble)"
| "klass_of DoubleHiType = Some (PrimitiveClass kPrimDouble)"
| "klass_of (UninitializedReferenceType k d pc) = Some k"
| "klass_of (UninitializedThisReferenceType k d) = Some k"
| "klass_of (ReferenceType k d) = Some k"
| "klass_of (PreciseReferenceType k d) = Some k"
| "klass_of _ = None"

fun descriptor_of :: "RegType \<Rightarrow> u8 list" where
  "descriptor_of BooleanType = [ascii CHR ''Z'']"
| "descriptor_of ByteType = [ascii CHR ''B'']"
| "descriptor_of ShortType = [ascii CHR ''S'']"
| "descriptor_of CharType = [ascii CHR ''C'']"
| "descriptor_of IntegerType = [ascii CHR ''I'']"
| "descriptor_of LongLoType = [ascii CHR ''J'']"
| "descriptor_of LongHiType = [ascii CHR ''J'']"
| "descriptor_of FloatType = [ascii CHR ''F'']"
| "descriptor_of DoubleLoType = [ascii CHR ''D'']"
| "descriptor_of DoubleHiType = [ascii CHR ''D'']"
| "descriptor_of (UninitializedReferenceType k d pc) = d"
| "descriptor_of (UnresolvedUninitializedRefType d pc) = d"
| "descriptor_of (UninitializedThisReferenceType k d) = d"
| "descriptor_of (UnresolvedUninitializedThisRefType d) = d"
| "descriptor_of (ReferenceType k d) = d"
| "descriptor_of (PreciseReferenceType k d) = d"
| "descriptor_of (UnresolvedReferenceType d) = d"
| "descriptor_of _ = []"

fun const_value :: "RegType \<Rightarrow> u32" where
  "const_value (PreciseConstType c) = c"
| "const_value (PreciseConstLoType c) = c"
| "const_value (PreciseConstHiType c) = c"
| "const_value (ImpreciseConstType c) = c"
| "const_value (ImpreciseConstLoType c) = c"
| "const_value (ImpreciseConstHiType c) = c"
| "const_value _ = 0"

fun GetAllocationPc :: "RegType \<Rightarrow> u32" where
  "GetAllocationPc (UninitializedReferenceType k d pc) = pc"
| "GetAllocationPc (UnresolvedUninitializedRefType d pc) = pc"
| "GetAllocationPc _ = 0"

section \<open>Predicates\<close>

named_theorems kind_defs \<open>definitions of the predicates on types\<close>

definition IsPreciseConstant :: "RegType \<Rightarrow> bool" where [kind_defs]:
  "IsPreciseConstant t \<longleftrightarrow> (case t of PreciseConstType _ \<Rightarrow> True | _ \<Rightarrow> False)"

definition IsPreciseConstantLo :: "RegType \<Rightarrow> bool" where [kind_defs]:
  "IsPreciseConstantLo t \<longleftrightarrow> (case t of PreciseConstLoType _ \<Rightarrow> True | _ \<Rightarrow> False)"

definition IsPreciseConstantHi :: "RegType \<Rightarrow> bool" where [kind_defs]:
  "IsPreciseConstantHi t \<longleftrightarrow> (case t of PreciseConstHiType _ \<Rightarrow> True | _ \<Rightarrow> False)"

definition IsImpreciseConstant :: "RegType \<Rightarrow> bool" where [kind_defs]:
  "IsImpreciseConstant t \<longleftrightarrow> (case t of ImpreciseConstType _ \<Rightarrow> True | _ \<Rightarrow> False)"

definition IsImpreciseConstantLo :: "RegType \<Rightarrow> bool" where [kind_defs]:
  "IsImpreciseConstantLo t \<longleftrightarrow> (case t of ImpreciseConstLoType _ \<Rightarrow> True | _ \<Rightarrow> False)"

definition IsImpreciseConstantHi :: "RegType \<Rightarrow> bool" where [kind_defs]:
  "IsImpreciseConstantHi t \<longleftrightarrow> (case t of ImpreciseConstHiType _ \<Rightarrow> True | _ \<Rightarrow> False)"

definition IsConstant :: "RegType \<Rightarrow> bool" where [kind_defs]:
  "IsConstant t \<longleftrightarrow> IsImpreciseConstant t \<or> IsPreciseConstant t"

definition IsConstantLo :: "RegType \<Rightarrow> bool" where [kind_defs]:
  "IsConstantLo t \<longleftrightarrow> IsImpreciseConstantLo t \<or> IsPreciseConstantLo t"

definition IsConstantHi :: "RegType \<Rightarrow> bool" where [kind_defs]:
  "IsConstantHi t \<longleftrightarrow> IsPreciseConstantHi t \<or> IsImpreciseConstantHi t"

definition IsPrecise :: "RegType \<Rightarrow> bool" where [kind_defs]:
  "IsPrecise t \<longleftrightarrow> IsPreciseConstantLo t \<or> IsPreciseConstant t \<or> IsPreciseConstantHi t"

definition IsConstantTypes :: "RegType \<Rightarrow> bool" where [kind_defs]:
  "IsConstantTypes t \<longleftrightarrow> IsConstant t \<or> IsConstantLo t \<or> IsConstantHi t"

definition IsUninitializedReference :: "RegType \<Rightarrow> bool" where [kind_defs]:
  "IsUninitializedReference t \<longleftrightarrow> (case t of UninitializedReferenceType _ _ _ \<Rightarrow> True | _ \<Rightarrow> False)"

definition IsUninitializedThisReference :: "RegType \<Rightarrow> bool" where [kind_defs]:
  "IsUninitializedThisReference t \<longleftrightarrow> (case t of UninitializedThisReferenceType _ _ \<Rightarrow> True | _ \<Rightarrow> False)"

definition IsUnresolvedAndUninitializedReference :: "RegType \<Rightarrow> bool" where [kind_defs]:
  "IsUnresolvedAndUninitializedReference t \<longleftrightarrow>
     (case t of UnresolvedUninitializedRefType _ _ \<Rightarrow> True | _ \<Rightarrow> False)"

definition IsUnresolvedAndUninitializedThisReference :: "RegType \<Rightarrow> bool" where [kind_defs]:
  "IsUnresolvedAndUninitializedThisReference t \<longleftrightarrow>
     (case t of UnresolvedUninitializedThisRefType _ \<Rightarrow> True | _ \<Rightarrow> False)"

definition IsUnresolvedReference :: "RegType \<Rightarrow> bool" where [kind_defs]:
  "IsUnresolvedReference t \<longleftrightarrow> (case t of UnresolvedReferenceType _ \<Rightarrow> True | _ \<Rightarrow> False)"

definition IsUnresolvedSuperClass :: "RegType \<Rightarrow> bool" where [kind_defs]:
  "IsUnresolvedSuperClass t \<longleftrightarrow> (case t of UnresolvedSuperClassType _ \<Rightarrow> True | _ \<Rightarrow> False)"

definition IsUnresolvedMergedReference :: "RegType \<Rightarrow> bool" where [kind_defs]:
  "IsUnresolvedMergedReference t \<longleftrightarrow> (case t of UnresolvedMergedType _ _ \<Rightarrow> True | _ \<Rightarrow> False)"

definition IsReference :: "RegType \<Rightarrow> bool" where [kind_defs]:
  "IsReference t \<longleftrightarrow> (case t of ReferenceType _ _ \<Rightarrow> True | _ \<Rightarrow> False)"

definition IsPreciseReference :: "RegType \<Rightarrow> bool" where [kind_defs]:
  "IsPreciseReference t \<longleftrightarrow> (case t of PreciseReferenceType _ _ \<Rightarrow> True | _ \<Rightarrow> False)"

definition IsUninitializedTypes :: "RegType \<Rightarrow> bool" where [kind_defs]:
  "IsUninitializedTypes t \<longleftrightarrow> IsUninitializedReference t \<or> IsUninitializedThisReference t \<or>
     IsUnresolvedAndUninitializedReference t \<or> IsUnresolvedAndUninitializedThisReference t"

definition IsUnresolvedTypes :: "RegType \<Rightarrow> bool" where [kind_defs]:
  "IsUnresolvedTypes t \<longleftrightarrow> IsUnresolvedReference t \<or> IsUnresolvedSuperClass t \<or> IsUnresolvedMergedReference t \<or>
     IsUnresolvedAndUninitializedReference t \<or> IsUnresolvedAndUninitializedThisReference t"

definition IsLowHalf :: "RegType \<Rightarrow> bool" where [kind_defs]:
  "IsLowHalf t \<longleftrightarrow> t = LongLoType \<or> t = DoubleLoType \<or> IsPreciseConstantLo t \<or> IsImpreciseConstantLo t"

definition IsHighHalf :: "RegType \<Rightarrow> bool" where [kind_defs]:
  "IsHighHalf t \<longleftrightarrow> t = LongHiType \<or> t = DoubleHiType \<or> IsPreciseConstantHi t \<or> IsImpreciseConstantHi t"

definition CheckWidePair :: "RegType \<Rightarrow> RegType \<Rightarrow> bool" where [kind_defs]:
  "CheckWidePair t type_h \<longleftrightarrow>
     (if IsLowHalf t then
        (IsImpreciseConstantLo t \<and> IsPreciseConstantHi type_h) \<or>
        (IsImpreciseConstantLo t \<and> IsImpreciseConstantHi type_h) \<or>
        (IsPreciseConstantLo t \<and> IsPreciseConstantHi type_h) \<or>
        (IsPreciseConstantLo t \<and> IsImpreciseConstantHi type_h) \<or>
        (t = DoubleLoType \<and> type_h = DoubleHiType) \<or>
        (t = LongLoType \<and> type_h = LongHiType)
      else False)"

definition ConstantValue :: "RegType \<Rightarrow> int" where
  "ConstantValue t = sint (const_value t)"

definition IsConstantBoolean :: "RegType \<Rightarrow> bool" where [kind_defs]:
  "IsConstantBoolean t \<longleftrightarrow> IsConstant t \<and> 0 \<le> ConstantValue t \<and> ConstantValue t \<le> 1"

definition IsConstantChar :: "RegType \<Rightarrow> bool" where [kind_defs]:
  "IsConstantChar t \<longleftrightarrow> IsConstant t \<and> 0 \<le> ConstantValue t \<and> ConstantValue t \<le> 65535"

definition IsConstantByte :: "RegType \<Rightarrow> bool" where [kind_defs]:
  "IsConstantByte t \<longleftrightarrow> IsConstant t \<and> -128 \<le> ConstantValue t \<and> ConstantValue t \<le> 127"

definition IsConstantShort :: "RegType \<Rightarrow> bool" where [kind_defs]:
  "IsConstantShort t \<longleftrightarrow> IsConstant t \<and> -32768 \<le> ConstantValue t \<and> ConstantValue t \<le> 32767"

definition IsZero :: "RegType \<Rightarrow> bool" where [kind_defs]:
  "IsZero t \<longleftrightarrow> IsPreciseConstant t \<and> ConstantValue t = 0"

definition IsOne :: "RegType \<Rightarrow> bool" where [kind_defs]:
  "IsOne t \<longleftrightarrow> IsPreciseConstant t \<and> ConstantValue t = 1"

definition IsNonZeroReferenceTypes :: "RegType \<Rightarrow> bool" where [kind_defs]:
  "IsNonZeroReferenceTypes t \<longleftrightarrow> IsUninitializedTypes t \<or> IsUnresolvedTypes t \<or> IsReference t \<or> IsPreciseReference t"

definition IsReferenceTypes :: "RegType \<Rightarrow> bool" where [kind_defs]:
  "IsReferenceTypes t \<longleftrightarrow> IsNonZeroReferenceTypes t \<or> IsZero t"

definition IsCategory1Types :: "RegType \<Rightarrow> bool" where [kind_defs]:
  "IsCategory1Types t \<longleftrightarrow> t = CharType \<or> t = IntegerType \<or> t = FloatType \<or> IsConstant t \<or> t = ByteType \<or>
     t = ShortType \<or> t = BooleanType"

definition IsCategory2Types :: "RegType \<Rightarrow> bool" where [kind_defs]:
  "IsCategory2Types t \<longleftrightarrow> IsLowHalf t"

definition IsBooleanTypes :: "RegType \<Rightarrow> bool" where [kind_defs]:
  "IsBooleanTypes t \<longleftrightarrow> t = BooleanType \<or> IsConstantBoolean t"

definition IsByteTypes :: "RegType \<Rightarrow> bool" where [kind_defs]:
  "IsByteTypes t \<longleftrightarrow> IsConstantByte t \<or> t = ByteType \<or> t = BooleanType"

definition IsShortTypes :: "RegType \<Rightarrow> bool" where [kind_defs]:
  "IsShortTypes t \<longleftrightarrow> t = ShortType \<or> t = ByteType \<or> t = BooleanType \<or> IsConstantShort t"

definition IsCharTypes :: "RegType \<Rightarrow> bool" where [kind_defs]:
  "IsCharTypes t \<longleftrightarrow> t = CharType \<or> IsBooleanTypes t \<or> IsConstantChar t"

definition IsIntegralTypes :: "RegType \<Rightarrow> bool" where [kind_defs]:
  "IsIntegralTypes t \<longleftrightarrow> t = IntegerType \<or> IsConstant t \<or> t = ByteType \<or> t = ShortType \<or> t = CharType \<or>
     t = BooleanType"

definition IsFloatTypes :: "RegType \<Rightarrow> bool" where [kind_defs]:
  "IsFloatTypes t \<longleftrightarrow> t = FloatType \<or> IsConstant t"

definition IsLongTypes :: "RegType \<Rightarrow> bool" where [kind_defs]:
  "IsLongTypes t \<longleftrightarrow> t = LongLoType \<or> IsConstantLo t"

definition IsLongHighTypes :: "RegType \<Rightarrow> bool" where [kind_defs]:
  "IsLongHighTypes t \<longleftrightarrow> t = LongHiType \<or> IsPreciseConstantHi t \<or> IsImpreciseConstantHi t"

definition IsDoubleTypes :: "RegType \<Rightarrow> bool" where [kind_defs]:
  "IsDoubleTypes t \<longleftrightarrow> t = DoubleLoType \<or> IsConstantLo t"

definition IsDoubleHighTypes :: "RegType \<Rightarrow> bool" where [kind_defs]:
  "IsDoubleHighTypes t \<longleftrightarrow> t = DoubleHiType \<or> IsPreciseConstantHi t \<or> IsImpreciseConstantHi t"

definition HasClass :: "RegType \<Rightarrow> bool" where [kind_defs]:
  "HasClass t \<longleftrightarrow> klass_of t \<noteq> None"

definition IsJavaLangObject :: "class_table \<Rightarrow> RegType \<Rightarrow> bool" where
  "IsJavaLangObject ct t \<longleftrightarrow> (case t of ReferenceType k d \<Rightarrow> IsObjectClass ct k | _ \<Rightarrow> False)"

definition IsArrayTypes :: "RegType \<Rightarrow> bool" where
  "IsArrayTypes t =
     (if IsUnresolvedTypes t \<and> \<not> IsUnresolvedMergedReference t \<and> \<not> IsUnresolvedSuperClass t then
        descriptor_of t \<noteq> [] \<and> hd (descriptor_of t) = ascii CHR ''[''
      else case klass_of t of Some k \<Rightarrow> IsArrayClass k | None \<Rightarrow> False)"

definition IsObjectArrayTypes :: "RegType \<Rightarrow> bool" where
  "IsObjectArrayTypes t =
     (if IsUnresolvedTypes t \<and> \<not> IsUnresolvedMergedReference t \<and> \<not> IsUnresolvedSuperClass t then
        descriptor_of t \<noteq> [] \<and> hd (descriptor_of t) = ascii CHR ''[''
      else case klass_of t of Some (ArrayClass k) \<Rightarrow> \<not> IsPrimitiveClass k | _ \<Rightarrow> False)"

definition IsJavaLangObjectArray :: "class_table \<Rightarrow> RegType \<Rightarrow> bool" where
  "IsJavaLangObjectArray ct t \<longleftrightarrow> (case klass_of t of Some (ArrayClass k) \<Rightarrow> IsObjectClass ct k | _ \<Rightarrow> False)"

definition IsInstantiableTypes :: "class_table \<Rightarrow> RegType \<Rightarrow> bool" where
  "IsInstantiableTypes ct t \<longleftrightarrow> IsUnresolvedTypes t \<or>
     (IsNonZeroReferenceTypes t \<and> (case klass_of t of Some k \<Rightarrow> IsInstantiable ct k | None \<Rightarrow> False))"

definition GetPrimitiveType :: "RegType \<Rightarrow> Primitive" where
  "GetPrimitiveType t =
     (if IsNonZeroReferenceTypes t then kPrimNot
      else if IsBooleanTypes t then kPrimBoolean
      else if IsByteTypes t then kPrimByte
      else if IsShortTypes t then kPrimShort
      else if IsCharTypes t then kPrimChar
      else if t = FloatType then kPrimFloat
      else if IsIntegralTypes t then kPrimInt
      else if t = DoubleLoType then kPrimDouble
      else kPrimLong)"

section \<open>Descriptors\<close>

text \<open>There is no primitive class for \<^const>\<open>kPrimNot\<close>; the source aborts on it.\<close>

primrec PrimitiveDescriptor :: "Primitive \<Rightarrow> u8 list" where
  "PrimitiveDescriptor kPrimNot = []"
| "PrimitiveDescriptor kPrimBoolean = [ascii CHR ''Z'']"
| "PrimitiveDescriptor kPrimByte = [ascii CHR ''B'']"
| "PrimitiveDescriptor kPrimChar = [ascii CHR ''C'']"
| "PrimitiveDescriptor kPrimShort = [ascii CHR ''S'']"
| "PrimitiveDescriptor kPrimInt = [ascii CHR ''I'']"
| "PrimitiveDescriptor kPrimLong = [ascii CHR ''J'']"
| "PrimitiveDescriptor kPrimFloat = [ascii CHR ''F'']"
| "PrimitiveDescriptor kPrimDouble = [ascii CHR ''D'']"
| "PrimitiveDescriptor kPrimVoid = [ascii CHR ''V'']"

fun GetDescriptor :: "class_table \<Rightarrow> klass \<Rightarrow> u8 list" where
  "GetDescriptor ct (Plain n) = type_descriptor ct n"
| "GetDescriptor ct (PrimitiveClass p) = PrimitiveDescriptor p"
| "GetDescriptor ct (ArrayClass k) = ascii CHR ''['' # GetDescriptor ct k"


section \<open>The cache\<close>

definition Undefined :: reg_type where "Undefined = \<lparr>cache_id = 0, kind = UndefinedType\<rparr>"
definition Conflict :: reg_type where "Conflict = \<lparr>cache_id = 1, kind = ConflictType\<rparr>"
definition BooleanReg :: reg_type where "BooleanReg = \<lparr>cache_id = 2, kind = BooleanType\<rparr>"
definition ByteReg :: reg_type where "ByteReg = \<lparr>cache_id = 3, kind = ByteType\<rparr>"
definition ShortReg :: reg_type where "ShortReg = \<lparr>cache_id = 4, kind = ShortType\<rparr>"
definition CharReg :: reg_type where "CharReg = \<lparr>cache_id = 5, kind = CharType\<rparr>"
definition IntegerReg :: reg_type where "IntegerReg = \<lparr>cache_id = 6, kind = IntegerType\<rparr>"
definition LongLoReg :: reg_type where "LongLoReg = \<lparr>cache_id = 7, kind = LongLoType\<rparr>"
definition LongHiReg :: reg_type where "LongHiReg = \<lparr>cache_id = 8, kind = LongHiType\<rparr>"
definition FloatReg :: reg_type where "FloatReg = \<lparr>cache_id = 9, kind = FloatType\<rparr>"
definition DoubleLoReg :: reg_type where "DoubleLoReg = \<lparr>cache_id = 10, kind = DoubleLoType\<rparr>"
definition DoubleHiReg :: reg_type where "DoubleHiReg = \<lparr>cache_id = 11, kind = DoubleHiType\<rparr>"

lemmas primitive_regs = Undefined_def Conflict_def BooleanReg_def ByteReg_def ShortReg_def CharReg_def
  IntegerReg_def LongLoReg_def LongHiReg_def FloatReg_def DoubleLoReg_def DoubleHiReg_def

definition kMinSmallConstant :: int where "kMinSmallConstant = -1"
definition kMaxSmallConstant :: int where "kMaxSmallConstant = 4"

definition small_precise_constant :: "int \<Rightarrow> reg_type" where
  "small_precise_constant value =
     \<lparr>cache_id = word_of_int (12 + (value - kMinSmallConstant)), kind = PreciseConstType (word_of_int value)\<rparr>"

definition FillPrimitiveAndSmallConstantTypes :: cache where
  "FillPrimitiveAndSmallConstantTypes =
     [Undefined, Conflict, BooleanReg, ByteReg, ShortReg, CharReg, IntegerReg, LongLoReg, LongHiReg,
      FloatReg, DoubleLoReg, DoubleHiReg] @
     map small_precise_constant [kMinSmallConstant..kMaxSmallConstant]"

definition primitive_count :: nat where
  "primitive_count = 18"

definition GetFromId :: "cache \<Rightarrow> u16 \<Rightarrow> reg_type option" where
  "GetFromId entries i = (if unat i < length entries then Some (entries ! unat i) else None)"

definition AddEntry :: "cache \<Rightarrow> RegType \<Rightarrow> reg_type \<times> cache" where
  "AddEntry entries t =
     (let entry = \<lparr>cache_id = of_nat (length entries), kind = t\<rparr> in (entry, entries @ [entry]))"

text \<open>The first entry behind the primitive ones with a property, or a new one.\<close>

definition find_entry :: "cache \<Rightarrow> (RegType \<Rightarrow> bool) \<Rightarrow> reg_type option" where
  "find_entry entries P = List.find (\<lambda>e. P (kind e)) (drop primitive_count entries)"

definition find_or_add :: "cache \<Rightarrow> (RegType \<Rightarrow> bool) \<Rightarrow> RegType \<Rightarrow> reg_type \<times> cache" where
  "find_or_add entries P t =
     (case find_entry entries P of Some cur_entry \<Rightarrow> (cur_entry, entries) | None \<Rightarrow> AddEntry entries t)"

definition MatchingPrecisionForClass :: "class_table \<Rightarrow> RegType \<Rightarrow> bool \<Rightarrow> bool" where
  "MatchingPrecisionForClass ct entry precise =
     (if IsPreciseReference entry = precise then True
      else \<not> precise \<and> (case klass_of entry of Some k \<Rightarrow> CannotBeAssignedFromOtherTypes ct k | None \<Rightarrow> False))"

fun RegTypeFromPrimitiveType :: "Primitive \<Rightarrow> reg_type" where
  "RegTypeFromPrimitiveType kPrimBoolean = BooleanReg"
| "RegTypeFromPrimitiveType kPrimByte = ByteReg"
| "RegTypeFromPrimitiveType kPrimShort = ShortReg"
| "RegTypeFromPrimitiveType kPrimChar = CharReg"
| "RegTypeFromPrimitiveType kPrimInt = IntegerReg"
| "RegTypeFromPrimitiveType kPrimLong = LongLoReg"
| "RegTypeFromPrimitiveType kPrimFloat = FloatReg"
| "RegTypeFromPrimitiveType kPrimDouble = DoubleLoReg"
| "RegTypeFromPrimitiveType _ = Conflict"

definition FromClass :: "class_table \<Rightarrow> cache \<Rightarrow> u8 list \<Rightarrow> klass \<Rightarrow> bool \<Rightarrow> reg_type \<times> cache" where
  "FromClass ct entries desc k precise =
     (case k of
        PrimitiveClass p \<Rightarrow> (RegTypeFromPrimitiveType p, entries)
      | _ \<Rightarrow> find_or_add entries (\<lambda>t. klass_of t = Some k \<and> MatchingPrecisionForClass ct t precise)
               (if precise then PreciseReferenceType k desc else ReferenceType k desc))"

definition MatchDescriptor :: "class_table \<Rightarrow> u8 list \<Rightarrow> bool \<Rightarrow> RegType \<Rightarrow> bool" where
  "MatchDescriptor ct desc precise entry =
     (if desc \<noteq> descriptor_of entry then False
      else if HasClass entry then MatchingPrecisionForClass ct entry precise
      else True)"

definition From ::
  "(u8 list \<Rightarrow> klass option) \<Rightarrow> class_table \<Rightarrow> cache \<Rightarrow> u8 list \<Rightarrow> bool \<Rightarrow> (reg_type \<times> cache) option" where
  "From ResolveClass ct entries desc precise =
     (case find_entry entries (MatchDescriptor ct desc precise) of
        Some entry \<Rightarrow> Some (entry, entries)
      | None \<Rightarrow>
          (case ResolveClass desc of
             Some k \<Rightarrow>
               Some (AddEntry entries
                 (if CannotBeAssignedFromOtherTypes ct k \<or> precise then PreciseReferenceType k desc
                  else ReferenceType k desc))
           | None \<Rightarrow> do {
               valid \<leftarrow> IsValidDescriptor (desc @ [0]);
               Some (if valid then AddEntry entries (UnresolvedReferenceType desc) else (Conflict, entries))
             }))"

definition FromDescriptor ::
  "(u8 list \<Rightarrow> klass option) \<Rightarrow> class_table \<Rightarrow> cache \<Rightarrow> u8 list \<Rightarrow> bool \<Rightarrow> (reg_type \<times> cache) option" where
  "FromDescriptor ResolveClass ct entries desc precise =
     (case desc of
        [] \<Rightarrow> None
      | [c] \<Rightarrow>
          Some (if c = ascii CHR ''Z'' then BooleanReg
                else if c = ascii CHR ''B'' then ByteReg
                else if c = ascii CHR ''S'' then ShortReg
                else if c = ascii CHR ''C'' then CharReg
                else if c = ascii CHR ''I'' then IntegerReg
                else if c = ascii CHR ''J'' then LongLoReg
                else if c = ascii CHR ''F'' then FloatReg
                else if c = ascii CHR ''D'' then DoubleLoReg
                else Conflict, entries)
      | c # _ \<Rightarrow>
          if c = ascii CHR ''L'' \<or> c = ascii CHR ''['' then From ResolveClass ct entries desc precise
          else Some (Conflict, entries))"

definition FromCat1NonSmallConstant :: "cache \<Rightarrow> u32 \<Rightarrow> bool \<Rightarrow> reg_type \<times> cache" where
  "FromCat1NonSmallConstant entries value precise =
     find_or_add entries
       (\<lambda>t. klass_of t = None \<and> IsConstant t \<and> IsPreciseConstant t = precise \<and> const_value t = value)
       (if precise then PreciseConstType value else ImpreciseConstType value)"

definition FromCat1Const :: "cache \<Rightarrow> u32 \<Rightarrow> bool \<Rightarrow> reg_type \<times> cache" where
  "FromCat1Const entries value precise =
     (if precise \<and> kMinSmallConstant \<le> sint value \<and> sint value \<le> kMaxSmallConstant
      then (small_precise_constant (sint value), entries)
      else FromCat1NonSmallConstant entries value precise)"

definition FromCat2ConstLo :: "cache \<Rightarrow> u32 \<Rightarrow> bool \<Rightarrow> reg_type \<times> cache" where
  "FromCat2ConstLo entries value precise =
     find_or_add entries (\<lambda>t. IsConstantLo t \<and> IsPrecise t = precise \<and> const_value t = value)
       (if precise then PreciseConstLoType value else ImpreciseConstLoType value)"

definition FromCat2ConstHi :: "cache \<Rightarrow> u32 \<Rightarrow> bool \<Rightarrow> reg_type \<times> cache" where
  "FromCat2ConstHi entries value precise =
     find_or_add entries (\<lambda>t. IsConstantHi t \<and> IsPrecise t = precise \<and> const_value t = value)
       (if precise then PreciseConstHiType value else ImpreciseConstHiType value)"

definition Zero :: "cache \<Rightarrow> reg_type \<times> cache" where "Zero entries = FromCat1Const entries 0 True"
definition One :: "cache \<Rightarrow> reg_type \<times> cache" where "One entries = FromCat1Const entries 1 True"

definition ByteConstant :: "cache \<Rightarrow> reg_type \<times> cache" where
  "ByteConstant entries = FromCat1Const entries (- 128) False"

definition CharConstant :: "cache \<Rightarrow> reg_type \<times> cache" where
  "CharConstant entries = FromCat1Const entries 65535 False"

definition ShortConstant :: "cache \<Rightarrow> reg_type \<times> cache" where
  "ShortConstant entries = FromCat1Const entries (- 32768) False"

definition IntConstant :: "cache \<Rightarrow> reg_type \<times> cache" where
  "IntConstant entries = FromCat1Const entries 0x7fffffff False"

definition PosByteConstant :: "cache \<Rightarrow> reg_type \<times> cache" where
  "PosByteConstant entries = FromCat1Const entries 127 False"

definition PosShortConstant :: "cache \<Rightarrow> reg_type \<times> cache" where
  "PosShortConstant entries = FromCat1Const entries 32767 False"

definition JavaLangObject :: "class_table \<Rightarrow> cache \<Rightarrow> bool \<Rightarrow> reg_type \<times> cache" where
  "JavaLangObject ct entries precise =
     FromClass ct entries (map of_char ''Ljava/lang/Object;'') (Object ct) precise"

section \<open>Unresolved and uninitialized types\<close>

partial_function (option) merged_types :: "cache \<Rightarrow> u16 \<Rightarrow> u16 set option" where
  [code]: "merged_types entries i = do {
     t \<leftarrow> GetFromId entries i;
     case kind t of
       UnresolvedMergedType left_id right_id \<Rightarrow> do {
         left \<leftarrow> merged_types entries left_id;
         right \<leftarrow> merged_types entries right_id;
         Some (left \<union> right)
       }
     | _ \<Rightarrow> Some {i}
   }"

text \<open>
  \<^verbatim>\<open>GetMergedTypes\<close> of a merged type; \<^const>\<open>merged_types\<close> is the branch both callers write for a type
  that may be a merged one.
\<close>

definition GetMergedTypes :: "cache \<Rightarrow> RegType \<Rightarrow> u16 set option" where
  "GetMergedTypes entries t =
     (case t of
        UnresolvedMergedType left_id right_id \<Rightarrow> do {
          left \<leftarrow> merged_types entries left_id;
          right \<leftarrow> merged_types entries right_id;
          Some (left \<union> right)
        }
      | _ \<Rightarrow> None)"

definition merged_or_self :: "cache \<Rightarrow> reg_type \<Rightarrow> u16 set option" where
  "merged_or_self entries t =
     (if IsUnresolvedMergedReference (kind t) then GetMergedTypes entries (kind t) else Some {cache_id t})"

primrec find_merged :: "cache \<Rightarrow> u16 set \<Rightarrow> reg_type list \<Rightarrow> reg_type option option" where
  "find_merged entries types [] = Some None"
| "find_merged entries types (cur_entry # rest) =
     (if IsUnresolvedMergedReference (kind cur_entry) then do {
        cur_entry_types \<leftarrow> GetMergedTypes entries (kind cur_entry);
        if cur_entry_types = types then Some (Some cur_entry) else find_merged entries types rest
      } else find_merged entries types rest)"

definition FromUnresolvedMerge :: "cache \<Rightarrow> reg_type \<Rightarrow> reg_type \<Rightarrow> (reg_type \<times> cache) option" where
  "FromUnresolvedMerge entries left right = do {
     left_types \<leftarrow> merged_or_self entries left;
     right_types \<leftarrow> merged_or_self entries right;
     found \<leftarrow> find_merged entries (left_types \<union> right_types) (drop primitive_count entries);
     Some (case found of
             Some cur_entry \<Rightarrow> (cur_entry, entries)
           | None \<Rightarrow> AddEntry entries (UnresolvedMergedType (cache_id left) (cache_id right)))
   }"

definition FromUnresolvedSuperClass :: "cache \<Rightarrow> reg_type \<Rightarrow> reg_type \<times> cache" where
  "FromUnresolvedSuperClass entries child =
     find_or_add entries (\<lambda>t. t = UnresolvedSuperClassType (cache_id child))
       (UnresolvedSuperClassType (cache_id child))"

definition Uninitialized :: "cache \<Rightarrow> reg_type \<Rightarrow> u32 \<Rightarrow> (reg_type \<times> cache) option" where
  "Uninitialized entries t allocation_pc =
     (if IsUnresolvedTypes (kind t) then
        Some (find_or_add entries (\<lambda>e. e = UnresolvedUninitializedRefType (descriptor_of (kind t)) allocation_pc)
                (UnresolvedUninitializedRefType (descriptor_of (kind t)) allocation_pc))
      else do {
        k \<leftarrow> klass_of (kind t);
        Some (find_or_add entries (\<lambda>e. IsUninitializedReference e \<and> GetAllocationPc e = allocation_pc \<and> klass_of e = Some k)
                (UninitializedReferenceType k (descriptor_of (kind t)) allocation_pc))
      })"

definition UninitializedThisArgument :: "cache \<Rightarrow> reg_type \<Rightarrow> (reg_type \<times> cache) option" where
  "UninitializedThisArgument entries t =
     (if IsUnresolvedTypes (kind t) then
        Some (find_or_add entries (\<lambda>e. e = UnresolvedUninitializedThisRefType (descriptor_of (kind t)))
                (UnresolvedUninitializedThisRefType (descriptor_of (kind t))))
      else do {
        k \<leftarrow> klass_of (kind t);
        Some (find_or_add entries (\<lambda>e. IsUninitializedThisReference e \<and> klass_of e = Some k)
                (UninitializedThisReferenceType k (descriptor_of (kind t))))
      })"

definition FromUninitialized :: "class_table \<Rightarrow> cache \<Rightarrow> reg_type \<Rightarrow> (reg_type \<times> cache) option" where
  "FromUninitialized ct entries uninit_type =
     (if IsUnresolvedTypes (kind uninit_type) then
        Some (find_or_add entries (\<lambda>e. e = UnresolvedReferenceType (descriptor_of (kind uninit_type)))
                (UnresolvedReferenceType (descriptor_of (kind uninit_type))))
      else do {
        k \<leftarrow> klass_of (kind uninit_type);
        Some (if IsUninitializedThisReference (kind uninit_type) \<and> \<not> IsFinal ct k then
                find_or_add entries (\<lambda>e. IsReference e \<and> klass_of e = Some k) (ReferenceType k [])
              else if IsInstantiable ct k then
                find_or_add entries (\<lambda>e. IsPreciseReference e \<and> klass_of e = Some k)
                  (PreciseReferenceType k (descriptor_of (kind uninit_type)))
              else (Conflict, entries))
      })"

definition HighHalf :: "cache \<Rightarrow> reg_type \<Rightarrow> reg_type \<times> cache" where
  "HighHalf entries t =
     (if kind t = LongLoType then (LongHiReg, entries)
      else if kind t = DoubleLoType then (DoubleHiReg, entries)
      else FromCat2ConstHi entries (const_value (kind t)) False)"

text \<open>\<^verbatim>\<open>RegType::GetSuperClass\<close> and \<^verbatim>\<open>RegTypeCache::GetComponentType\<close>.\<close>

definition GetSuperType :: "class_table \<Rightarrow> cache \<Rightarrow> reg_type \<Rightarrow> (reg_type \<times> cache) option" where
  "GetSuperType ct entries t =
     (if \<not> IsUnresolvedTypes (kind t) then do {
        k \<leftarrow> klass_of (kind t);
        Some (case GetSuperClass ct k of
                Some super_klass \<Rightarrow> FromClass ct entries (GetDescriptor ct super_klass) super_klass False
              | None \<Rightarrow> Zero entries)
      }
      else if \<not> IsUnresolvedMergedReference (kind t) \<and> \<not> IsUnresolvedSuperClass (kind t) \<and>
              descriptor_of (kind t) \<noteq> [] \<and> hd (descriptor_of (kind t)) = ascii CHR ''['' then
        Some (JavaLangObject ct entries True)
      else Some (FromUnresolvedSuperClass entries t))"

definition GetComponentRegType ::
  "(u8 list \<Rightarrow> klass option) \<Rightarrow> class_table \<Rightarrow> cache \<Rightarrow> reg_type \<Rightarrow> (reg_type \<times> cache) option" where
  "GetComponentRegType ResolveClass ct entries array =
     (if \<not> IsArrayTypes (kind array) then Some (Conflict, entries)
      else if IsUnresolvedTypes (kind array) then
        FromDescriptor ResolveClass ct entries (tl (descriptor_of (kind array))) False
      else do {
        array_class \<leftarrow> klass_of (kind array);
        k \<leftarrow> ClassHierarchy.GetComponentType array_class;
        if IsErroneous ct k then FromDescriptor ResolveClass ct entries (GetDescriptor ct k) False
        else Some (FromClass ct entries (GetDescriptor ct k) k (CannotBeAssignedFromOtherTypes ct k))
      })"

text \<open>\<^verbatim>\<open>MethodVerifier::DetermineCat1Constant\<close>.\<close>

definition DetermineCat1Constant :: "cache \<Rightarrow> u32 \<Rightarrow> bool \<Rightarrow> reg_type \<times> cache" where
  "DetermineCat1Constant entries value precise =
     (if precise then FromCat1Const entries value True
      else if sint value < -32768 then IntConstant entries
      else if sint value < -128 then ShortConstant entries
      else if sint value < 0 then ByteConstant entries
      else if sint value = 0 then Zero entries
      else if sint value = 1 then One entries
      else if sint value < 128 then PosByteConstant entries
      else if sint value < 32768 then PosShortConstant entries
      else if sint value < 65536 then CharConstant entries
      else IntConstant entries)"

section \<open>Merge\<close>

definition SelectNonConstant :: "reg_type \<Rightarrow> reg_type \<Rightarrow> reg_type" where
  "SelectNonConstant a b = (if IsConstantTypes (kind a) then b else a)"

text \<open>The branch of two constants, of two integral types and of two reference types.\<close>

definition merge_constants :: "cache \<Rightarrow> reg_type \<Rightarrow> reg_type \<Rightarrow> reg_type \<times> cache" where
  "merge_constants entries type1 type2 =
     (let val1 = ConstantValue (kind type1); val2 = ConstantValue (kind type2) in
      if 0 \<le> val1 \<and> 0 \<le> val2 then
        if val2 \<le> val1 then
          if \<not> IsPreciseConstant (kind type1) then (type1, entries)
          else FromCat1Const entries (const_value (kind type1)) False
        else
          if \<not> IsPreciseConstant (kind type2) then (type2, entries)
          else FromCat1Const entries (const_value (kind type2)) False
      else if val1 < 0 \<and> val2 < 0 then
        if val1 \<le> val2 then
          if \<not> IsPreciseConstant (kind type1) then (type1, entries)
          else FromCat1Const entries (const_value (kind type1)) False
        else
          if \<not> IsPreciseConstant (kind type2) then (type2, entries)
          else FromCat1Const entries (const_value (kind type2)) False
      else if IsConstantByte (kind type1) then
        if IsConstantByte (kind type2) then ByteConstant entries
        else if IsConstantShort (kind type2) then ShortConstant entries
        else IntConstant entries
      else if IsConstantShort (kind type1) then
        if IsConstantShort (kind type2) then ShortConstant entries
        else IntConstant entries
      else IntConstant entries)"

definition merge_integral :: "RegType \<Rightarrow> RegType \<Rightarrow> reg_type" where
  "merge_integral t incoming =
     (if IsBooleanTypes t \<and> IsBooleanTypes incoming then BooleanReg
      else if IsByteTypes t \<and> IsByteTypes incoming then ByteReg
      else if IsShortTypes t \<and> IsShortTypes incoming then ShortReg
      else if IsCharTypes t \<and> IsCharTypes incoming then CharReg
      else IntegerReg)"

definition merge_references ::
  "class_table \<Rightarrow> cache \<Rightarrow> reg_type \<Rightarrow> reg_type \<Rightarrow> (reg_type \<times> cache) option" where
  "merge_references ct entries this incoming =
     (if IsZero (kind this) \<or> IsZero (kind incoming) then Some (SelectNonConstant this incoming, entries)
      else if IsJavaLangObject ct (kind this) \<or> IsJavaLangObject ct (kind incoming) then
        Some (JavaLangObject ct entries False)
      else if IsUnresolvedTypes (kind this) \<or> IsUnresolvedTypes (kind incoming) then
        FromUnresolvedMerge entries this incoming
      else if IsUninitializedTypes (kind this) \<or> IsUninitializedTypes (kind incoming) then
        Some (Conflict, entries)
      else do {
        c1 \<leftarrow> klass_of (kind this);
        c2 \<leftarrow> klass_of (kind incoming);
        join_class \<leftarrow> ClassJoin ct c1 c2;
        Some (if c1 = join_class \<and> \<not> IsPreciseReference (kind this) then (this, entries)
              else if c2 = join_class \<and> \<not> IsPreciseReference (kind incoming) then (incoming, entries)
              else FromClass ct entries (GetDescriptor ct join_class) join_class False)
      })"

definition Merge :: "class_table \<Rightarrow> cache \<Rightarrow> reg_type \<Rightarrow> reg_type \<Rightarrow> (reg_type \<times> cache) option" where
  "Merge ct entries this incoming =
     (let t = kind this; t' = kind incoming in
      if t = ConflictType then Some (this, entries)
      else if t' = ConflictType then Some (incoming, entries)
      else if t = UndefinedType \<or> t' = UndefinedType then Some (Conflict, entries)
      else if IsConstant t \<and> IsConstant t' then Some (merge_constants entries this incoming)
      else if IsConstantLo t \<and> IsConstantLo t' then
        Some (FromCat2ConstLo entries (const_value t OR const_value t') False)
      else if IsConstantHi t \<and> IsConstantHi t' then
        Some (FromCat2ConstHi entries (const_value t OR const_value t') False)
      else if IsIntegralTypes t \<and> IsIntegralTypes t' then Some (merge_integral t t', entries)
      else if (IsFloatTypes t \<and> IsFloatTypes t') \<or> (IsLongTypes t \<and> IsLongTypes t') \<or>
              (IsLongHighTypes t \<and> IsLongHighTypes t') \<or> (IsDoubleTypes t \<and> IsDoubleTypes t') \<or>
              (IsDoubleHighTypes t \<and> IsDoubleHighTypes t') then
        Some (SelectNonConstant this incoming, entries)
      else if IsReferenceTypes t \<and> IsReferenceTypes t' then merge_references ct entries this incoming
      else Some (Conflict, entries))"

section \<open>Assignability of types\<close>

text \<open>
  \<^term>\<open>None\<close> is the failed \<^verbatim>\<open>CHECK\<close> of a left hand side that is neither a primitive nor a reference type,
  and the use of the null class of the constant zero.
\<close>

definition AssignableFrom :: "class_table \<Rightarrow> reg_type \<Rightarrow> reg_type \<Rightarrow> bool \<Rightarrow> bool option" where
  "AssignableFrom ct lhs rhs strict =
     (let l = kind lhs; r = kind rhs in
      if Equals lhs rhs then Some True
      else if l = BooleanType then Some (IsBooleanTypes r)
      else if l = ByteType then Some (IsByteTypes r)
      else if l = ShortType then Some (IsShortTypes r)
      else if l = CharType then Some (IsCharTypes r)
      else if l = IntegerType then Some (IsIntegralTypes r)
      else if l = FloatType then Some (IsFloatTypes r)
      else if l = LongLoType then Some (IsLongTypes r)
      else if l = DoubleLoType then Some (IsDoubleTypes r)
      else if l = ConflictType then Some False
      else if \<not> IsReferenceTypes l then None
      else if IsZero r then Some True
      else if \<not> IsReferenceTypes r then Some False
      else if IsJavaLangObject ct l then Some True
      else do {
        to_interface \<leftarrow>
          if \<not> strict \<and> \<not> IsUnresolvedTypes l then map_option (IsInterface ct) (klass_of l) else Some False;
        if to_interface then Some True
        else if IsJavaLangObjectArray ct l then Some (IsObjectArrayTypes r)
        else case (klass_of l, klass_of r) of
            (Some lhs_class, Some rhs_class) \<Rightarrow> IsAssignableFrom ct lhs_class rhs_class
          | _ \<Rightarrow> Some False
      })"

end
