(* ===== verification/RegisterLine.thy ===== *)
theory RegisterLine
  imports RegTypes
begin

text \<open>
  \<^verbatim>\<open>class RegisterLine\<close> of \<^verbatim>\<open>runtime/verifier/register_line.h\<close>, \<^verbatim>\<open>register_line-inl.h\<close> and \<^verbatim>\<open>register_line.cc\<close>: the
  types of all registers at one instruction and the stack of monitors held there, together with the
  state of the \<^verbatim>\<open>MethodVerifier\<close> its operations change, the type cache and the failures.

  An operation takes the verifier and the line and returns both; \<^term>\<open>None\<close> is a failed \<^verbatim>\<open>DCHECK\<close> or \<^verbatim>\<open>CHECK\<close>
  on a register number or a type identifier.
\<close>

section \<open>Failures\<close>

datatype VerifyError = VERIFY_ERROR_BAD_CLASS_HARD | VERIFY_ERROR_BAD_CLASS_SOFT | VERIFY_ERROR_NO_CLASS
  | VERIFY_ERROR_NO_FIELD | VERIFY_ERROR_NO_METHOD | VERIFY_ERROR_ACCESS_CLASS | VERIFY_ERROR_ACCESS_FIELD
  | VERIFY_ERROR_ACCESS_METHOD | VERIFY_ERROR_CLASS_CHANGE | VERIFY_ERROR_INSTANTIATION

text \<open>What a verifier is created with.\<close>

record verifier_config =
  classes :: class_table
  is_compiler :: bool
  can_load_classes :: bool
  allow_soft_failures :: bool
  need_precise_constants :: bool
  dex_file_version :: nat

record verifier =
  reg_types :: cache
  failures :: "VerifyError list"
  have_pending_hard_failure :: bool
  have_pending_runtime_throw_failure :: bool

definition Fail :: "verifier_config \<Rightarrow> VerifyError \<Rightarrow> verifier \<Rightarrow> verifier" where
  "Fail cfg error v =
     (case error of
        VERIFY_ERROR_BAD_CLASS_HARD \<Rightarrow>
          v\<lparr>have_pending_hard_failure := True, failures := failures v @ [error]\<rparr>
      | VERIFY_ERROR_BAD_CLASS_SOFT \<Rightarrow>
          v\<lparr>have_pending_hard_failure := have_pending_hard_failure v \<or> \<not> allow_soft_failures cfg,
            failures := failures v @ [error]\<rparr>
      | _ \<Rightarrow>
          if is_compiler cfg \<or> \<not> can_load_classes cfg
          then v\<lparr>failures := failures v @ [VERIFY_ERROR_BAD_CLASS_SOFT]\<rparr>
          else v\<lparr>have_pending_runtime_throw_failure := True, failures := failures v @ [error]\<rparr>)"

section \<open>Lines\<close>

record register_line =
  line :: "u16 list"
  result0 :: u16
  result1 :: u16
  monitors :: "u32 list"
  reg_to_lock_depths :: "nat \<rightharpoonup> u32"

definition Create :: "nat \<Rightarrow> register_line" where
  "Create num_regs = \<lparr>line = replicate num_regs 0, result0 = cache_id Undefined, result1 = cache_id Undefined,
     monitors = [], reg_to_lock_depths = Map.empty\<rparr>"

definition CopyFromLine :: "register_line \<Rightarrow> register_line \<Rightarrow> register_line" where
  "CopyFromLine l src = l\<lparr>line := line src, monitors := monitors src, reg_to_lock_depths := reg_to_lock_depths src\<rparr>"

definition MonitorStackDepth :: "register_line \<Rightarrow> nat" where
  "MonitorStackDepth l = length (monitors l)"

section \<open>Lock depths\<close>

definition CopyRegToLockDepth :: "nat \<Rightarrow> nat \<Rightarrow> register_line \<Rightarrow> register_line" where
  "CopyRegToLockDepth dst src l =
     (case reg_to_lock_depths l src of
        Some depths \<Rightarrow> l\<lparr>reg_to_lock_depths := (reg_to_lock_depths l)(dst \<mapsto> depths)\<rparr>
      | None \<Rightarrow> l)"

definition IsSetLockDepth :: "nat \<Rightarrow> nat \<Rightarrow> register_line \<Rightarrow> bool" where
  "IsSetLockDepth reg depth l =
     (case reg_to_lock_depths l reg of Some depths \<Rightarrow> depths AND shl 1 depth \<noteq> 0 | None \<Rightarrow> False)"

definition SetRegToLockDepth :: "nat \<Rightarrow> nat \<Rightarrow> register_line \<Rightarrow> (bool \<times> register_line) option" where
  "SetRegToLockDepth reg depth l =
     (if \<not> depth < 32 then None
      else if IsSetLockDepth reg depth l then Some (False, l)
      else Some (True, l\<lparr>reg_to_lock_depths := (reg_to_lock_depths l)
        (reg \<mapsto> (case reg_to_lock_depths l reg of
                  None \<Rightarrow> shl 1 depth
                | Some depths \<Rightarrow> depths OR shl 1 depth))\<rparr>))"

definition ClearRegToLockDepth :: "nat \<Rightarrow> nat \<Rightarrow> register_line \<Rightarrow> register_line option" where
  "ClearRegToLockDepth reg depth l =
     (if \<not> depth < 32 then None
      else do {
        old \<leftarrow> reg_to_lock_depths l reg;
        let depths = old XOR shl 1 depth;
        Some (l\<lparr>reg_to_lock_depths := (reg_to_lock_depths l)(reg := if depths \<noteq> 0 then Some depths else None)\<rparr>)
      })"

definition ClearAllRegToLockDepths :: "nat \<Rightarrow> register_line \<Rightarrow> register_line" where
  "ClearAllRegToLockDepths reg l = l\<lparr>reg_to_lock_depths := (reg_to_lock_depths l)(reg := None)\<rparr>"

section \<open>Reading and writing types\<close>

type_synonym 'a checked = "('a \<times> verifier \<times> register_line) option"

definition GetRegisterType :: "verifier \<Rightarrow> register_line \<Rightarrow> nat \<Rightarrow> reg_type option" where
  "GetRegisterType v l vsrc = (if vsrc < length (line l) then GetFromId (reg_types v) (line l ! vsrc) else None)"

definition SetRegisterType ::
  "verifier_config \<Rightarrow> nat \<Rightarrow> reg_type \<Rightarrow> verifier \<Rightarrow> register_line \<Rightarrow> bool checked" where
  "SetRegisterType cfg vdst new_type v l =
     (if \<not> vdst < length (line l) then None
      else if IsLowHalf (kind new_type) \<or> IsHighHalf (kind new_type) then
        Some (False, Fail cfg VERIFY_ERROR_BAD_CLASS_HARD v, l)
      else if kind new_type = ConflictType then
        Some (False, Fail cfg VERIFY_ERROR_BAD_CLASS_SOFT v, l)
      else Some (True, v, ClearAllRegToLockDepths vdst (l\<lparr>line := (line l)[vdst := cache_id new_type]\<rparr>)))"

definition SetRegisterTypeWide ::
  "verifier_config \<Rightarrow> nat \<Rightarrow> reg_type \<Rightarrow> reg_type \<Rightarrow> verifier \<Rightarrow> register_line \<Rightarrow> bool checked" where
  "SetRegisterTypeWide cfg vdst new_type1 new_type2 v l =
     (if \<not> Suc vdst < length (line l) then None
      else if \<not> CheckWidePair (kind new_type1) (kind new_type2) then
        Some (False, Fail cfg VERIFY_ERROR_BAD_CLASS_SOFT v, l)
      else Some (True, v,
        ClearAllRegToLockDepths (Suc vdst) (ClearAllRegToLockDepths vdst
          (l\<lparr>line := (line l)[vdst := cache_id new_type1, Suc vdst := cache_id new_type2]\<rparr>))))"

definition SetResultTypeToUnknown :: "register_line \<Rightarrow> register_line" where
  "SetResultTypeToUnknown l = l\<lparr>result0 := cache_id Undefined, result1 := cache_id Undefined\<rparr>"

definition SetResultRegisterType :: "reg_type \<Rightarrow> register_line \<Rightarrow> register_line" where
  "SetResultRegisterType new_type l = l\<lparr>result0 := cache_id new_type, result1 := cache_id Undefined\<rparr>"

definition SetResultRegisterTypeWide :: "reg_type \<Rightarrow> reg_type \<Rightarrow> register_line \<Rightarrow> register_line" where
  "SetResultRegisterTypeWide new_type1 new_type2 l =
     l\<lparr>result0 := cache_id new_type1, result1 := cache_id new_type2\<rparr>"

section \<open>Checking types\<close>

definition VerifyRegisterType ::
  "verifier_config \<Rightarrow> nat \<Rightarrow> reg_type \<Rightarrow> verifier \<Rightarrow> register_line \<Rightarrow> bool checked" where
  "VerifyRegisterType cfg vsrc check_type v l = do {
     src_type \<leftarrow> GetRegisterType v l vsrc;
     ok \<leftarrow> AssignableFrom (classes cfg) check_type src_type False;
     if \<not> ok then
       Some (False,
         Fail cfg
           (if \<not> IsNonZeroReferenceTypes (kind check_type) \<or> \<not> IsNonZeroReferenceTypes (kind src_type)
            then VERIFY_ERROR_BAD_CLASS_HARD
            else if IsUnresolvedTypes (kind check_type) \<or> IsUnresolvedTypes (kind src_type)
            then VERIFY_ERROR_NO_CLASS
            else VERIFY_ERROR_BAD_CLASS_SOFT) v, l)
     else if IsLowHalf (kind check_type) then do {
       src_type_h \<leftarrow> GetRegisterType v l (Suc vsrc);
       if \<not> CheckWidePair (kind src_type) (kind src_type_h)
       then Some (False, Fail cfg VERIFY_ERROR_BAD_CLASS_HARD v, l)
       else Some (True, v, l)
     }
     else Some (True, v, l)
   }"

definition VerifyRegisterTypeWide ::
  "verifier_config \<Rightarrow> nat \<Rightarrow> reg_type \<Rightarrow> reg_type \<Rightarrow> verifier \<Rightarrow> register_line \<Rightarrow> bool checked" where
  "VerifyRegisterTypeWide cfg vsrc check_type1 check_type2 v l = do {
     src_type \<leftarrow> GetRegisterType v l vsrc;
     ok \<leftarrow> AssignableFrom (classes cfg) check_type1 src_type False;
     if \<not> ok then Some (False, Fail cfg VERIFY_ERROR_BAD_CLASS_HARD v, l)
     else do {
       src_type_h \<leftarrow> GetRegisterType v l (Suc vsrc);
       if \<not> CheckWidePair (kind src_type) (kind src_type_h)
       then Some (False, Fail cfg VERIFY_ERROR_BAD_CLASS_HARD v, l)
       else Some (True, v, l)
     }
   }"

definition VerifyMonitorStackEmpty :: "verifier_config \<Rightarrow> verifier \<Rightarrow> register_line \<Rightarrow> bool \<times> verifier" where
  "VerifyMonitorStackEmpty cfg v l =
     (if MonitorStackDepth l \<noteq> 0 then (False, Fail cfg VERIFY_ERROR_BAD_CLASS_HARD v) else (True, v))"

primrec CheckConstructorReturn_loop :: "verifier_config \<Rightarrow> nat list \<Rightarrow> verifier \<Rightarrow> register_line \<Rightarrow> bool checked" where
  "CheckConstructorReturn_loop cfg [] v l = Some (True, v, l)"
| "CheckConstructorReturn_loop cfg (i # is) v l = do {
     t \<leftarrow> GetRegisterType v l i;
     if IsUninitializedThisReference (kind t) \<or> IsUnresolvedAndUninitializedThisReference (kind t)
     then Some (False, Fail cfg VERIFY_ERROR_BAD_CLASS_SOFT v, l)
     else CheckConstructorReturn_loop cfg is v l
   }"

definition CheckConstructorReturn :: "verifier_config \<Rightarrow> verifier \<Rightarrow> register_line \<Rightarrow> bool checked" where
  "CheckConstructorReturn cfg v l = CheckConstructorReturn_loop cfg [0..<length (line l)] v l"

section \<open>Moves\<close>

datatype TypeCategory = kTypeCategoryUnknown | kTypeCategory1nr | kTypeCategory2 | kTypeCategoryRef

type_synonym checks = "(verifier \<times> register_line) option"

definition CopyRegister1 ::
  "verifier_config \<Rightarrow> nat \<Rightarrow> nat \<Rightarrow> TypeCategory \<Rightarrow> verifier \<Rightarrow> register_line \<Rightarrow> checks" where
  "CopyRegister1 cfg vdst vsrc cat v l = do {
     t \<leftarrow> GetRegisterType v l vsrc;
     (ok, v, l) \<leftarrow> SetRegisterType cfg vdst t v l;
     if \<not> ok then Some (v, l)
     else if (cat = kTypeCategory1nr \<and> \<not> IsCategory1Types (kind t)) \<or>
             (cat = kTypeCategoryRef \<and> \<not> IsReferenceTypes (kind t))
     then Some (Fail cfg VERIFY_ERROR_BAD_CLASS_HARD v, l)
     else if cat = kTypeCategoryRef then Some (v, CopyRegToLockDepth vdst vsrc l)
     else Some (v, l)
   }"

definition CopyRegister2 :: "verifier_config \<Rightarrow> nat \<Rightarrow> nat \<Rightarrow> verifier \<Rightarrow> register_line \<Rightarrow> checks" where
  "CopyRegister2 cfg vdst vsrc v l = do {
     type_l \<leftarrow> GetRegisterType v l vsrc;
     type_h \<leftarrow> GetRegisterType v l (Suc vsrc);
     if \<not> CheckWidePair (kind type_l) (kind type_h) then Some (Fail cfg VERIFY_ERROR_BAD_CLASS_HARD v, l)
     else map_option snd (SetRegisterTypeWide cfg vdst type_l type_h v l)
   }"

definition CopyResultRegister1 :: "verifier_config \<Rightarrow> nat \<Rightarrow> bool \<Rightarrow> verifier \<Rightarrow> register_line \<Rightarrow> checks" where
  "CopyResultRegister1 cfg vdst is_reference v l = do {
     t \<leftarrow> GetFromId (reg_types v) (result0 l);
     if (\<not> is_reference \<and> \<not> IsCategory1Types (kind t)) \<or> (is_reference \<and> \<not> IsReferenceTypes (kind t))
     then Some (Fail cfg VERIFY_ERROR_BAD_CLASS_HARD v, l)
     else do {
       (_, v, l) \<leftarrow> SetRegisterType cfg vdst t v l;
       Some (v, l\<lparr>result0 := cache_id Undefined\<rparr>)
     }
   }"

definition CopyResultRegister2 :: "verifier_config \<Rightarrow> nat \<Rightarrow> verifier \<Rightarrow> register_line \<Rightarrow> checks" where
  "CopyResultRegister2 cfg vdst v l = do {
     type_l \<leftarrow> GetFromId (reg_types v) (result0 l);
     type_h \<leftarrow> GetFromId (reg_types v) (result1 l);
     if \<not> IsCategory2Types (kind type_l) then Some (Fail cfg VERIFY_ERROR_BAD_CLASS_HARD v, l)
     else do {
       (_, v, l) \<leftarrow> SetRegisterTypeWide cfg vdst type_l type_h v l;
       Some (v, l\<lparr>result0 := cache_id Undefined, result1 := cache_id Undefined\<rparr>)
     }
   }"

section \<open>Operators\<close>

text \<open>\<open>and_then\<close> is the second operand of a \<^verbatim>\<open>&&\<close> and the body of an \<^verbatim>\<open>if\<close> whose condition is a check.\<close>

definition and_then :: "bool checked \<Rightarrow> (verifier \<Rightarrow> register_line \<Rightarrow> bool checked) \<Rightarrow> bool checked" where
  "and_then c k = do { (ok, v, l) \<leftarrow> c; if ok then k v l else Some (False, v, l) }"

definition when_ok :: "bool checked \<Rightarrow> (verifier \<Rightarrow> register_line \<Rightarrow> bool checked) \<Rightarrow> checks" where
  "when_ok c k = map_option snd (and_then c k)"

definition CheckUnaryOp ::
  "verifier_config \<Rightarrow> u16 \<Rightarrow> reg_type \<Rightarrow> reg_type \<Rightarrow> verifier \<Rightarrow> register_line \<Rightarrow> checks" where
  "CheckUnaryOp cfg inst_data dst_type src_type v l =
     when_ok (VerifyRegisterType cfg (unat (VRegB_12x inst_data)) src_type v l)
       (SetRegisterType cfg (unat (VRegA_12x inst_data)) dst_type)"

definition CheckUnaryOpWide ::
  "verifier_config \<Rightarrow> u16 \<Rightarrow> reg_type \<Rightarrow> reg_type \<Rightarrow> reg_type \<Rightarrow> reg_type \<Rightarrow> verifier \<Rightarrow> register_line \<Rightarrow> checks" where
  "CheckUnaryOpWide cfg inst_data dst_type1 dst_type2 src_type1 src_type2 v l =
     when_ok (VerifyRegisterTypeWide cfg (unat (VRegB_12x inst_data)) src_type1 src_type2 v l)
       (SetRegisterTypeWide cfg (unat (VRegA_12x inst_data)) dst_type1 dst_type2)"

definition CheckUnaryOpToWide ::
  "verifier_config \<Rightarrow> u16 \<Rightarrow> reg_type \<Rightarrow> reg_type \<Rightarrow> reg_type \<Rightarrow> verifier \<Rightarrow> register_line \<Rightarrow> checks" where
  "CheckUnaryOpToWide cfg inst_data dst_type1 dst_type2 src_type v l =
     when_ok (VerifyRegisterType cfg (unat (VRegB_12x inst_data)) src_type v l)
       (SetRegisterTypeWide cfg (unat (VRegA_12x inst_data)) dst_type1 dst_type2)"

definition CheckUnaryOpFromWide ::
  "verifier_config \<Rightarrow> u16 \<Rightarrow> reg_type \<Rightarrow> reg_type \<Rightarrow> reg_type \<Rightarrow> verifier \<Rightarrow> register_line \<Rightarrow> checks" where
  "CheckUnaryOpFromWide cfg inst_data dst_type src_type1 src_type2 v l =
     when_ok (VerifyRegisterTypeWide cfg (unat (VRegB_12x inst_data)) src_type1 src_type2 v l)
       (SetRegisterType cfg (unat (VRegA_12x inst_data)) dst_type)"

text \<open>The end of the int operators: two booleans give a boolean.\<close>

definition set_int_or_boolean ::
  "verifier_config \<Rightarrow> nat \<Rightarrow> reg_type \<Rightarrow> bool \<Rightarrow> (verifier \<Rightarrow> register_line \<Rightarrow> bool option) \<Rightarrow>
   verifier \<Rightarrow> register_line \<Rightarrow> bool checked" where
  "set_int_or_boolean cfg vdst dst_type check_boolean_op both_boolean v l =
     (if check_boolean_op then do {
        boolean \<leftarrow> both_boolean v l;
        SetRegisterType cfg vdst (if boolean then BooleanReg else dst_type) v l
      } else SetRegisterType cfg vdst dst_type v l)"

definition are_boolean :: "nat \<Rightarrow> nat \<Rightarrow> verifier \<Rightarrow> register_line \<Rightarrow> bool option" where
  "are_boolean vregB vregC v l = do {
     b \<leftarrow> GetRegisterType v l vregB;
     if \<not> IsBooleanTypes (kind b) then Some False
     else do {
       c \<leftarrow> GetRegisterType v l vregC;
       Some (IsBooleanTypes (kind c))
     }
   }"

definition CheckBinaryOp ::
  "verifier_config \<Rightarrow> insn \<Rightarrow> u16 \<Rightarrow> reg_type \<Rightarrow> reg_type \<Rightarrow> reg_type \<Rightarrow> bool \<Rightarrow> verifier \<Rightarrow> register_line \<Rightarrow> checks" where
  "CheckBinaryOp cfg inst inst_data dst_type src_type1 src_type2 check_boolean_op v l =
     (let vregB = unat (VRegB_23x inst); vregC = unat (VRegC_23x inst) in
      when_ok (and_then (VerifyRegisterType cfg vregB src_type1 v l) (VerifyRegisterType cfg vregC src_type2))
        (set_int_or_boolean cfg (unat (VRegA_23x inst_data)) dst_type check_boolean_op (are_boolean vregB vregC)))"

definition CheckBinaryOpWide ::
  "verifier_config \<Rightarrow> insn \<Rightarrow> u16 \<Rightarrow> reg_type \<Rightarrow> reg_type \<Rightarrow> reg_type \<Rightarrow> reg_type \<Rightarrow> reg_type \<Rightarrow> reg_type \<Rightarrow>
   verifier \<Rightarrow> register_line \<Rightarrow> checks" where
  "CheckBinaryOpWide cfg inst inst_data dst_type1 dst_type2 src_type1_1 src_type1_2 src_type2_1 src_type2_2 v l =
     when_ok (and_then (VerifyRegisterTypeWide cfg (unat (VRegB_23x inst)) src_type1_1 src_type1_2 v l)
         (VerifyRegisterTypeWide cfg (unat (VRegC_23x inst)) src_type2_1 src_type2_2))
       (SetRegisterTypeWide cfg (unat (VRegA_23x inst_data)) dst_type1 dst_type2)"

definition CheckBinaryOpWideShift ::
  "verifier_config \<Rightarrow> insn \<Rightarrow> u16 \<Rightarrow> reg_type \<Rightarrow> reg_type \<Rightarrow> reg_type \<Rightarrow> verifier \<Rightarrow> register_line \<Rightarrow> checks" where
  "CheckBinaryOpWideShift cfg inst inst_data long_lo_type long_hi_type int_type v l =
     when_ok (and_then (VerifyRegisterTypeWide cfg (unat (VRegB_23x inst)) long_lo_type long_hi_type v l)
         (VerifyRegisterType cfg (unat (VRegC_23x inst)) int_type))
       (SetRegisterTypeWide cfg (unat (VRegA_23x inst_data)) long_lo_type long_hi_type)"

definition CheckBinaryOp2addr ::
  "verifier_config \<Rightarrow> u16 \<Rightarrow> reg_type \<Rightarrow> reg_type \<Rightarrow> reg_type \<Rightarrow> bool \<Rightarrow> verifier \<Rightarrow> register_line \<Rightarrow> checks" where
  "CheckBinaryOp2addr cfg inst_data dst_type src_type1 src_type2 check_boolean_op v l =
     (let vregA = unat (VRegA_12x inst_data); vregB = unat (VRegB_12x inst_data) in
      when_ok (and_then (VerifyRegisterType cfg vregA src_type1 v l) (VerifyRegisterType cfg vregB src_type2))
        (set_int_or_boolean cfg vregA dst_type check_boolean_op (are_boolean vregA vregB)))"

definition CheckBinaryOp2addrWide ::
  "verifier_config \<Rightarrow> u16 \<Rightarrow> reg_type \<Rightarrow> reg_type \<Rightarrow> reg_type \<Rightarrow> reg_type \<Rightarrow> reg_type \<Rightarrow> reg_type \<Rightarrow>
   verifier \<Rightarrow> register_line \<Rightarrow> checks" where
  "CheckBinaryOp2addrWide cfg inst_data dst_type1 dst_type2 src_type1_1 src_type1_2 src_type2_1 src_type2_2 v l =
     (let vregA = unat (VRegA_12x inst_data); vregB = unat (VRegB_12x inst_data) in
      when_ok (and_then (VerifyRegisterTypeWide cfg vregA src_type1_1 src_type1_2 v l)
          (VerifyRegisterTypeWide cfg vregB src_type2_1 src_type2_2))
        (SetRegisterTypeWide cfg vregA dst_type1 dst_type2))"

definition CheckBinaryOp2addrWideShift ::
  "verifier_config \<Rightarrow> u16 \<Rightarrow> reg_type \<Rightarrow> reg_type \<Rightarrow> reg_type \<Rightarrow> verifier \<Rightarrow> register_line \<Rightarrow> checks" where
  "CheckBinaryOp2addrWideShift cfg inst_data long_lo_type long_hi_type int_type v l =
     (let vregA = unat (VRegA_12x inst_data); vregB = unat (VRegB_12x inst_data) in
      when_ok (and_then (VerifyRegisterTypeWide cfg vregA long_lo_type long_hi_type v l)
          (VerifyRegisterType cfg vregB int_type))
        (SetRegisterTypeWide cfg vregA long_lo_type long_hi_type))"

definition CheckLiteralOp ::
  "verifier_config \<Rightarrow> insn \<Rightarrow> u16 \<Rightarrow> reg_type \<Rightarrow> reg_type \<Rightarrow> bool \<Rightarrow> bool \<Rightarrow> verifier \<Rightarrow> register_line \<Rightarrow> checks" where
  "CheckLiteralOp cfg inst inst_data dst_type src_type check_boolean_op is_lit16 v l =
     (let vregA = (if is_lit16 then unat (VRegA_22s inst_data) else unat (VRegA_22b inst_data));
          vregB = (if is_lit16 then unat (VRegB_22s inst_data) else unat (VRegB_22b inst));
          val = (if is_lit16 then scast (VRegC_22s inst) else scast (VRegC_22b inst)) :: u32 in
      when_ok (VerifyRegisterType cfg vregB src_type v l)
        (set_int_or_boolean cfg vregA dst_type check_boolean_op
          (\<lambda>v l. do { b \<leftarrow> GetRegisterType v l vregB; Some (IsBooleanTypes (kind b) \<and> (val = 0 \<or> val = 1)) })))"

section \<open>Monitors\<close>

definition PushMonitor :: "verifier_config \<Rightarrow> nat \<Rightarrow> u32 \<Rightarrow> verifier \<Rightarrow> register_line \<Rightarrow> checks" where
  "PushMonitor cfg reg_idx insn_idx v l = do {
     t \<leftarrow> GetRegisterType v l reg_idx;
     if \<not> IsReferenceTypes (kind t) then Some (Fail cfg VERIFY_ERROR_BAD_CLASS_HARD v, l)
     else if length (monitors l) \<ge> 32 then Some (Fail cfg VERIFY_ERROR_BAD_CLASS_HARD v, l)
     else do {
       (set, l) \<leftarrow> SetRegToLockDepth reg_idx (length (monitors l)) l;
       if set then Some (v, l\<lparr>monitors := monitors l @ [insn_idx]\<rparr>)
       else Some (Fail cfg VERIFY_ERROR_BAD_CLASS_HARD v, l)
     }
   }"

definition PopMonitor :: "verifier_config \<Rightarrow> nat \<Rightarrow> verifier \<Rightarrow> register_line \<Rightarrow> checks" where
  "PopMonitor cfg reg_idx v l = do {
     t \<leftarrow> GetRegisterType v l reg_idx;
     if \<not> IsReferenceTypes (kind t) then Some (Fail cfg VERIFY_ERROR_BAD_CLASS_HARD v, l)
     else if monitors l = [] then Some (Fail cfg VERIFY_ERROR_BAD_CLASS_HARD v, l)
     else do {
       let l = l\<lparr>monitors := butlast (monitors l)\<rparr>;
       if \<not> IsSetLockDepth reg_idx (length (monitors l)) l then
         Some (if dex_file_version cfg \<ge> 36 then Fail cfg VERIFY_ERROR_BAD_CLASS_SOFT v else v, l)
       else do {
         l \<leftarrow> ClearRegToLockDepth reg_idx (length (monitors l)) l;
         Some (v, l)
       }
     }
   }"

section \<open>Whole lines\<close>

definition MarkAllRegistersAsConflicts :: "register_line \<Rightarrow> register_line" where
  "MarkAllRegistersAsConflicts l = l\<lparr>line := map (\<lambda>_. cache_id Conflict) (line l)\<rparr>"

definition MarkAllRegistersAsConflictsExcept :: "nat \<Rightarrow> register_line \<Rightarrow> register_line" where
  "MarkAllRegistersAsConflictsExcept vsrc l =
     l\<lparr>line := map (\<lambda>i. if i \<noteq> vsrc then cache_id Conflict else line l ! i) [0..<length (line l)]\<rparr>"

definition MarkAllRegistersAsConflictsExceptWide :: "nat \<Rightarrow> register_line \<Rightarrow> register_line" where
  "MarkAllRegistersAsConflictsExceptWide vsrc l =
     l\<lparr>line := map (\<lambda>i. if i \<noteq> vsrc \<and> i \<noteq> vsrc + 1 then cache_id Conflict else line l ! i) [0..<length (line l)]\<rparr>"

definition MarkUninitRefsAsInvalid :: "reg_type \<Rightarrow> register_line \<Rightarrow> register_line" where
  "MarkUninitRefsAsInvalid uninit_type l =
     fold (\<lambda>i l. if line l ! i = cache_id uninit_type
                 then ClearAllRegToLockDepths i (l\<lparr>line := (line l)[i := cache_id Conflict]\<rparr>) else l)
       [0..<length (line l)] l"

definition MarkRefsAsInitialized :: "verifier_config \<Rightarrow> reg_type \<Rightarrow> verifier \<Rightarrow> register_line \<Rightarrow> checks" where
  "MarkRefsAsInitialized cfg uninit_type v l = do {
     (init_type, entries) \<leftarrow> FromUninitialized (classes cfg) (reg_types v) uninit_type;
     Some (v\<lparr>reg_types := entries\<rparr>,
       l\<lparr>line := map (\<lambda>i. if i = cache_id uninit_type then cache_id init_type else i) (line l)\<rparr>)
   }"

definition merge_register ::
  "verifier_config \<Rightarrow> register_line \<Rightarrow> nat \<Rightarrow> bool \<times> verifier \<times> register_line \<Rightarrow> bool checked" where
  "merge_register cfg incoming_line idx st =
     (case st of (changed, v, l) \<Rightarrow>
        if line l ! idx \<noteq> line incoming_line ! idx then do {
          incoming_reg_type \<leftarrow> GetRegisterType v incoming_line idx;
          cur_type \<leftarrow> GetRegisterType v l idx;
          (new_type, entries) \<leftarrow> Merge (classes cfg) (reg_types v) cur_type incoming_reg_type;
          Some (changed \<or> \<not> Equals cur_type new_type, v\<lparr>reg_types := entries\<rparr>,
            l\<lparr>line := (line l)[idx := cache_id new_type]\<rparr>)
        } else Some (changed, v, l))"

primrec merge_registers ::
  "verifier_config \<Rightarrow> register_line \<Rightarrow> nat list \<Rightarrow> bool \<times> verifier \<times> register_line \<Rightarrow> bool checked" where
  "merge_registers cfg incoming_line [] st = Some st"
| "merge_registers cfg incoming_line (idx # idxs) st = do {
     st \<leftarrow> merge_register cfg incoming_line idx st;
     merge_registers cfg incoming_line idxs st
   }"

text \<open>
  \<^verbatim>\<open>count\<close> of a map is 0 or 1, so two counts that differ include a zero and the last branch of the loop, a
  warning, is never taken. For equal maps, which the source tests first, the loop does nothing.
\<close>

definition merge_lock_depths :: "register_line \<Rightarrow> register_line \<Rightarrow> register_line" where
  "merge_lock_depths incoming_line l =
     (if (monitors l \<noteq> [] \<or> monitors incoming_line \<noteq> []) \<and>
         length (monitors l) = length (monitors incoming_line)
      then fold (\<lambda>idx l.
             let depths = (reg_to_lock_depths l idx \<noteq> None);
                 incoming_depths = (reg_to_lock_depths incoming_line idx \<noteq> None)
             in if depths \<noteq> incoming_depths then ClearAllRegToLockDepths idx l else l)
           [0..<length (line l)] l
      else l)"

definition MergeRegisters :: "verifier_config \<Rightarrow> register_line \<Rightarrow> verifier \<Rightarrow> register_line \<Rightarrow> bool checked" where
  "MergeRegisters cfg incoming_line v l = do {
     (changed, v, l) \<leftarrow> merge_registers cfg incoming_line [0..<length (line l)] (False, v, l);
     Some (changed, v, merge_lock_depths incoming_line l)
   }"

primrec max_reference_loop :: "verifier \<Rightarrow> register_line \<Rightarrow> nat list \<Rightarrow> u64 \<Rightarrow> u64 option" where
  "max_reference_loop v l [] max_ref_reg = Some max_ref_reg"
| "max_reference_loop v l (i # is) max_ref_reg = do {
     t \<leftarrow> GetRegisterType v l i;
     max_reference_loop v l is (if IsNonZeroReferenceTypes (kind t) then of_nat i else max_ref_reg)
   }"

definition GetMaxNonZeroReferenceReg :: "verifier \<Rightarrow> u64 \<Rightarrow> register_line \<Rightarrow> u64 option" where
  "GetMaxNonZeroReferenceReg v max_ref_reg l =
     (let i = (if sint (ucast max_ref_reg :: u32) < 0 then 0 else unat max_ref_reg) in
      max_reference_loop v l [i..<length (line l)] max_ref_reg)"

primrec reference_byte :: "verifier \<Rightarrow> register_line \<Rightarrow> nat \<Rightarrow> nat list \<Rightarrow> u8 \<Rightarrow> u8 option" where
  "reference_byte v l i [] val = Some val"
| "reference_byte v l i (j # js) val =
     (if i + j < length (line l) then do {
        t \<leftarrow> GetRegisterType v l (i + j);
        reference_byte v l i js (if IsNonZeroReferenceTypes (kind t) then val OR shl 1 j else val)
      } else Some val)"

primrec reference_bytes :: "verifier \<Rightarrow> register_line \<Rightarrow> nat \<Rightarrow> nat list \<Rightarrow> u8 list \<Rightarrow> u8 list option" where
  "reference_bytes v l max_bytes [] data = Some data"
| "reference_bytes v l max_bytes (k # ks) data = do {
     val \<leftarrow> reference_byte v l (8 * k) [0..<8] 0;
     reference_bytes v l max_bytes ks (if k \<ge> max_bytes then data else data @ [val])
   }"

definition WriteReferenceBitMap :: "verifier \<Rightarrow> nat \<Rightarrow> register_line \<Rightarrow> u8 list \<Rightarrow> u8 list option" where
  "WriteReferenceBitMap v max_bytes l data =
     reference_bytes v l max_bytes [0..<(length (line l) + 7) div 8] data"

end
