(* ===== verification/MethodVerifier.thy ===== *)
theory MethodVerifier
  imports RegisterLine
begin

text \<open>
  The cases of \<^verbatim>\<open>MethodVerifier::CodeFlowVerifyInstruction\<close> (\<^verbatim>\<open>runtime/verifier/method_verifier.cc\<close>) for the
  instructions that work on registers alone: moves, constants, comparisons, conversions, arithmetic and the
  tests of the conditional branches. The cases are grouped as in the interpreter model. A group is
  \<^term>\<open>None\<close> for an opcode that does not belong to it.
\<close>

section \<open>Moves and constants\<close>

definition verify_move ::
  "nat \<Rightarrow> verifier_config \<Rightarrow> insn \<Rightarrow> u16 \<Rightarrow> verifier \<Rightarrow> register_line \<Rightarrow> checks" where
  "verify_move op cfg inst inst_data v l =
     (if op = NOP then
        Some (if VRegA_10x inst_data \<noteq> 0 then Fail cfg VERIFY_ERROR_BAD_CLASS_HARD v else v, l)
      else if op = MOVE then
        CopyRegister1 cfg (unat (VRegA_12x inst_data)) (unat (VRegB_12x inst_data)) kTypeCategory1nr v l
      else if op = MOVE_FROM16 then
        CopyRegister1 cfg (unat (VRegA_22x inst_data)) (unat (VRegB_22x inst)) kTypeCategory1nr v l
      else if op = MOVE_16 then
        CopyRegister1 cfg (unat (VRegA_32x inst)) (unat (VRegB_32x inst)) kTypeCategory1nr v l
      else if op = MOVE_WIDE then
        CopyRegister2 cfg (unat (VRegA_12x inst_data)) (unat (VRegB_12x inst_data)) v l
      else if op = MOVE_WIDE_FROM16 then
        CopyRegister2 cfg (unat (VRegA_22x inst_data)) (unat (VRegB_22x inst)) v l
      else if op = MOVE_WIDE_16 then
        CopyRegister2 cfg (unat (VRegA_32x inst)) (unat (VRegB_32x inst)) v l
      else if op = MOVE_OBJECT then
        CopyRegister1 cfg (unat (VRegA_12x inst_data)) (unat (VRegB_12x inst_data)) kTypeCategoryRef v l
      else if op = MOVE_OBJECT_FROM16 then
        CopyRegister1 cfg (unat (VRegA_22x inst_data)) (unat (VRegB_22x inst)) kTypeCategoryRef v l
      else if op = MOVE_OBJECT_16 then
        CopyRegister1 cfg (unat (VRegA_32x inst)) (unat (VRegB_32x inst)) kTypeCategoryRef v l
      else if op = MOVE_RESULT then
        CopyResultRegister1 cfg (unat (VRegA_11x inst_data)) False v l
      else if op = MOVE_RESULT_WIDE then
        CopyResultRegister2 cfg (unat (VRegA_11x inst_data)) v l
      else if op = MOVE_RESULT_OBJECT then
        CopyResultRegister1 cfg (unat (VRegA_11x inst_data)) True v l
      else None)"

definition set_constant :: "verifier_config \<Rightarrow> nat \<Rightarrow> u32 \<Rightarrow> verifier \<Rightarrow> register_line \<Rightarrow> checks" where
  "set_constant cfg vdst val v l =
     (let (t, entries) = DetermineCat1Constant (reg_types v) val (need_precise_constants cfg) in
      map_option snd (SetRegisterType cfg vdst t (v\<lparr>reg_types := entries\<rparr>) l))"

definition set_wide_constant :: "verifier_config \<Rightarrow> nat \<Rightarrow> u64 \<Rightarrow> verifier \<Rightarrow> register_line \<Rightarrow> checks" where
  "set_wide_constant cfg vdst val v l =
     (let (lo, entries) = FromCat2ConstLo (reg_types v) (ucast val) True;
          (hi, entries) = FromCat2ConstHi entries (ucast (sshr val 32)) True in
      map_option snd (SetRegisterTypeWide cfg vdst lo hi (v\<lparr>reg_types := entries\<rparr>) l))"

definition verify_const ::
  "nat \<Rightarrow> verifier_config \<Rightarrow> insn \<Rightarrow> u16 \<Rightarrow> verifier \<Rightarrow> register_line \<Rightarrow> checks" where
  "verify_const op cfg inst inst_data v l =
     (if op = CONST_4 then
        set_constant cfg (unat (VRegA_11n inst_data)) (sshr (shl (scast (VRegB_11n inst_data)) 28) 28) v l
      else if op = CONST_16 then
        set_constant cfg (unat (VRegA_21s inst_data)) (scast (VRegB_21s inst)) v l
      else if op = CONST_32 then
        set_constant cfg (unat (VRegA_31i inst_data)) (VRegB_31i inst) v l
      else if op = CONST_HIGH16 then
        set_constant cfg (unat (VRegA_21h inst_data)) (shl (ucast (VRegB_21h inst)) 16) v l
      else if op = CONST_WIDE_16 then
        set_wide_constant cfg (unat (VRegA_21s inst_data)) (scast (VRegB_21s inst)) v l
      else if op = CONST_WIDE_32 then
        set_wide_constant cfg (unat (VRegA_31i inst_data)) (scast (VRegB_31i inst)) v l
      else if op = CONST_WIDE then
        set_wide_constant cfg (unat (VRegA_51l inst_data)) (VRegB_51l inst) v l
      else if op = CONST_WIDE_HIGH16 then
        set_wide_constant cfg (unat (VRegA_21h inst_data)) (shl (ucast (VRegB_21h inst)) 48) v l
      else None)"

section \<open>Comparisons and tests\<close>

definition verify_cmp ::
  "nat \<Rightarrow> verifier_config \<Rightarrow> insn \<Rightarrow> u16 \<Rightarrow> verifier \<Rightarrow> register_line \<Rightarrow> checks" where
  "verify_cmp op cfg inst inst_data v l =
     (let a = unat (VRegA_23x inst_data); b = unat (VRegB_23x inst); c = unat (VRegC_23x inst) in
      if op = CMPL_FLOAT \<or> op = CMPG_FLOAT then
        when_ok (and_then (VerifyRegisterType cfg b FloatReg v l) (VerifyRegisterType cfg c FloatReg))
          (SetRegisterType cfg a IntegerReg)
      else if op = CMPL_DOUBLE \<or> op = CMPG_DOUBLE then
        when_ok (and_then (VerifyRegisterTypeWide cfg b DoubleLoReg DoubleHiReg v l)
            (VerifyRegisterTypeWide cfg c DoubleLoReg DoubleHiReg))
          (SetRegisterType cfg a IntegerReg)
      else if op = CMP_LONG then
        when_ok (and_then (VerifyRegisterTypeWide cfg b LongLoReg LongHiReg v l)
            (VerifyRegisterTypeWide cfg c LongLoReg LongHiReg))
          (SetRegisterType cfg a IntegerReg)
      else None)"

definition if_mismatch :: "RegType \<Rightarrow> RegType \<Rightarrow> bool" where
  "if_mismatch reg_type1 reg_type2 =
     (if IsZero reg_type1 then \<not> IsReferenceTypes reg_type2 \<and> \<not> IsIntegralTypes reg_type2
      else if IsReferenceTypes reg_type1 then \<not> IsReferenceTypes reg_type2
      else \<not> IsIntegralTypes reg_type1 \<or> \<not> IsIntegralTypes reg_type2)"

definition verify_if ::
  "nat \<Rightarrow> verifier_config \<Rightarrow> u16 \<Rightarrow> verifier \<Rightarrow> register_line \<Rightarrow> checks" where
  "verify_if op cfg inst_data v l =
     (if op = IF_EQ \<or> op = IF_NE then do {
        reg_type1 \<leftarrow> GetRegisterType v l (unat (VRegA_22t inst_data));
        reg_type2 \<leftarrow> GetRegisterType v l (unat (VRegB_22t inst_data));
        Some (if if_mismatch (kind reg_type1) (kind reg_type2) then Fail cfg VERIFY_ERROR_BAD_CLASS_HARD v else v, l)
      }
      else if op = IF_LT \<or> op = IF_GE \<or> op = IF_GT \<or> op = IF_LE then do {
        reg_type1 \<leftarrow> GetRegisterType v l (unat (VRegA_22t inst_data));
        reg_type2 \<leftarrow> GetRegisterType v l (unat (VRegB_22t inst_data));
        Some (if \<not> IsIntegralTypes (kind reg_type1) \<or> \<not> IsIntegralTypes (kind reg_type2)
              then Fail cfg VERIFY_ERROR_BAD_CLASS_HARD v else v, l)
      }
      else if op = IF_LTZ \<or> op = IF_GEZ \<or> op = IF_GTZ \<or> op = IF_LEZ then do {
        reg_type \<leftarrow> GetRegisterType v l (unat (VRegA_21t inst_data));
        Some (if \<not> IsIntegralTypes (kind reg_type) then Fail cfg VERIFY_ERROR_BAD_CLASS_HARD v else v, l)
      }
      else None)"

section \<open>Sharpening behind instance-of\<close>

text \<open>
  \<^verbatim>\<open>IF_EQZ\<close> and \<^verbatim>\<open>IF_NEZ\<close> look back for an \<^verbatim>\<open>instance-of\<close>, and further back for a \<^verbatim>\<open>move-object\<close> in front of
  it, and give the tested registers the type of the test on the branch where it succeeded. The flags are
  \<^verbatim>\<open>insn_flags_\<close>, \<open>resolve\<close> is \<^verbatim>\<open>ResolveClassAndCheckAccess\<close>, which asks the class linker.
\<close>

record code_flags =
  is_opcode :: "nat \<Rightarrow> bool"
  is_branch_target :: "nat \<Rightarrow> bool"

primrec back_to_opcode :: "code_flags \<Rightarrow> nat \<Rightarrow> nat" where
  "back_to_opcode flags 0 = 0"
| "back_to_opcode flags (Suc idx) = (if \<not> is_opcode flags (Suc idx) then back_to_opcode flags idx else Suc idx)"

definition may_sharpen :: "verifier_config \<Rightarrow> reg_type \<Rightarrow> reg_type \<Rightarrow> verifier \<Rightarrow> (bool \<times> verifier) option" where
  "may_sharpen cfg orig_type cast_type v =
     (if \<not> Equals orig_type cast_type \<and> \<not> IsUnresolvedTypes (kind cast_type) \<and> \<not> IsUnresolvedTypes (kind orig_type) \<and>
         HasClass (kind cast_type) then do {
        k \<leftarrow> klass_of (kind cast_type);
        if IsInterface (classes cfg) k then Some (False, v)
        else if IsZero (kind orig_type) then Some (True, v)
        else do {
          (merged, entries) \<leftarrow> Merge (classes cfg) (reg_types v) cast_type orig_type;
          ok \<leftarrow> AssignableFrom (classes cfg) orig_type merged True;
          Some (ok, v\<lparr>reg_types := entries\<rparr>)
        }
      } else Some (False, v))"

definition sharpen_move_source ::
  "verifier_config \<Rightarrow> insn \<Rightarrow> nat \<Rightarrow> reg_type \<Rightarrow> verifier \<Rightarrow> register_line \<Rightarrow> checks" where
  "sharpen_move_source cfg move_inst vregB cast_type v update_line =
     (let inst_data = Fetch16 move_inst 0; op = Opcode inst_data in
      if op = MOVE_OBJECT \<and> unat (VRegA_12x inst_data) = vregB then
        map_option snd (SetRegisterType cfg (unat (VRegB_12x inst_data)) cast_type v update_line)
      else if op = MOVE_OBJECT_FROM16 \<and> unat (VRegA_22x inst_data) = vregB then
        map_option snd (SetRegisterType cfg (unat (VRegB_22x move_inst)) cast_type v update_line)
      else if op = MOVE_OBJECT_16 \<and> unat (VRegA_32x move_inst) = vregB then
        map_option snd (SetRegisterType cfg (unat (VRegB_32x move_inst)) cast_type v update_line)
      else Some (v, update_line))"

definition update_line_for ::
  "verifier_config \<Rightarrow> code_flags \<Rightarrow> insn \<Rightarrow> nat \<Rightarrow> nat \<Rightarrow> reg_type \<Rightarrow> verifier \<Rightarrow> register_line \<Rightarrow> checks" where
  "update_line_for cfg flags insns instance_of_idx vregB cast_type v l = do {
     (_, v, update_line) \<leftarrow> SetRegisterType cfg vregB cast_type v (CopyFromLine (Create (length (line l))) l);
     if \<not> is_branch_target flags instance_of_idx \<and> instance_of_idx \<noteq> 0 then
       (let move_idx = back_to_opcode flags (instance_of_idx - 1) in
        if \<not> is_opcode flags move_idx then Some (Fail cfg VERIFY_ERROR_BAD_CLASS_HARD v, update_line)
        else sharpen_move_source cfg (RelativeAt insns (int move_idx)) vregB cast_type v update_line)
     else Some (v, update_line)
   }"

definition sharpen_instance_of ::
  "verifier_config \<Rightarrow> code_flags \<Rightarrow> insn \<Rightarrow> nat \<Rightarrow> (u16 \<Rightarrow> verifier \<Rightarrow> (reg_type \<times> verifier) option) \<Rightarrow>
   u16 \<Rightarrow> verifier \<Rightarrow> register_line \<Rightarrow> (verifier \<times> register_line option) option" where
  "sharpen_instance_of cfg flags insns work_insn_idx resolve inst_data v l =
     (if work_insn_idx = 0 then Some (v, None)
      else
        let instance_of_idx = back_to_opcode flags (work_insn_idx - 1) in
        if \<not> is_opcode flags instance_of_idx then Some (Fail cfg VERIFY_ERROR_BAD_CLASS_HARD v, None)
        else
          let instance_of_inst = RelativeAt insns (int instance_of_idx); instance_of_data = Fetch16 instance_of_inst 0 in
          if \<not> is_branch_target flags work_insn_idx \<and> Opcode instance_of_data = INSTANCE_OF \<and>
             unat (VRegA_21t inst_data) = unat (VRegA_22c instance_of_data) \<and>
             VRegA_22c instance_of_data \<noteq> VRegB_22c instance_of_data then do {
            orig_type \<leftarrow> GetRegisterType v l (unat (VRegB_22c instance_of_data));
            (cast_type, v) \<leftarrow> resolve (VRegC_22c instance_of_inst) v;
            (ok, v) \<leftarrow> may_sharpen cfg orig_type cast_type v;
            if ok then do {
              (v, update_line) \<leftarrow>
                update_line_for cfg flags insns instance_of_idx (unat (VRegB_22c instance_of_data)) cast_type v l;
              Some (v, Some update_line)
            } else Some (v, None)
          } else Some (v, None))"

text \<open>The lines are the work line, the line of the branch target and that of the next instruction, if they differ.\<close>

definition verify_ifz ::
  "nat \<Rightarrow> verifier_config \<Rightarrow> code_flags \<Rightarrow> insn \<Rightarrow> nat \<Rightarrow> (u16 \<Rightarrow> verifier \<Rightarrow> (reg_type \<times> verifier) option) \<Rightarrow>
   u16 \<Rightarrow> verifier \<Rightarrow> register_line \<Rightarrow>
   (verifier \<times> register_line \<times> register_line option \<times> register_line option) option" where
  "verify_ifz op cfg flags insns work_insn_idx resolve inst_data v l = do {
     reg_type \<leftarrow> GetRegisterType v l (unat (VRegA_21t inst_data));
     let v = (if \<not> IsReferenceTypes (kind reg_type) \<and> \<not> IsIntegralTypes (kind reg_type)
              then Fail cfg VERIFY_ERROR_BAD_CLASS_HARD v else v);
     (v, update_line) \<leftarrow> sharpen_instance_of cfg flags insns work_insn_idx resolve inst_data v l;
     Some (if op = IF_EQZ then (v, l, None, update_line) else (v, l, update_line, None))
   }"

section \<open>Conversions and arithmetic\<close>

definition verify_unop :: "nat \<Rightarrow> verifier_config \<Rightarrow> u16 \<Rightarrow> verifier \<Rightarrow> register_line \<Rightarrow> checks" where
  "verify_unop op cfg inst_data v l =
     (if op = NEG_INT \<or> op = NOT_INT then
        CheckUnaryOp cfg inst_data IntegerReg IntegerReg v l
      else if op = NEG_LONG \<or> op = NOT_LONG then
        CheckUnaryOpWide cfg inst_data LongLoReg LongHiReg LongLoReg LongHiReg v l
      else if op = NEG_FLOAT then
        CheckUnaryOp cfg inst_data FloatReg FloatReg v l
      else if op = NEG_DOUBLE then
        CheckUnaryOpWide cfg inst_data DoubleLoReg DoubleHiReg DoubleLoReg DoubleHiReg v l
      else if op = INT_TO_LONG then
        CheckUnaryOpToWide cfg inst_data LongLoReg LongHiReg IntegerReg v l
      else if op = INT_TO_FLOAT then
        CheckUnaryOp cfg inst_data FloatReg IntegerReg v l
      else if op = INT_TO_DOUBLE then
        CheckUnaryOpToWide cfg inst_data DoubleLoReg DoubleHiReg IntegerReg v l
      else if op = LONG_TO_INT then
        CheckUnaryOpFromWide cfg inst_data IntegerReg LongLoReg LongHiReg v l
      else if op = LONG_TO_FLOAT then
        CheckUnaryOpFromWide cfg inst_data FloatReg LongLoReg LongHiReg v l
      else if op = LONG_TO_DOUBLE then
        CheckUnaryOpWide cfg inst_data DoubleLoReg DoubleHiReg LongLoReg LongHiReg v l
      else if op = FLOAT_TO_INT then
        CheckUnaryOp cfg inst_data IntegerReg FloatReg v l
      else if op = FLOAT_TO_LONG then
        CheckUnaryOpToWide cfg inst_data LongLoReg LongHiReg FloatReg v l
      else if op = FLOAT_TO_DOUBLE then
        CheckUnaryOpToWide cfg inst_data DoubleLoReg DoubleHiReg FloatReg v l
      else if op = DOUBLE_TO_INT then
        CheckUnaryOpFromWide cfg inst_data IntegerReg DoubleLoReg DoubleHiReg v l
      else if op = DOUBLE_TO_LONG then
        CheckUnaryOpWide cfg inst_data LongLoReg LongHiReg DoubleLoReg DoubleHiReg v l
      else if op = DOUBLE_TO_FLOAT then
        CheckUnaryOpFromWide cfg inst_data FloatReg DoubleLoReg DoubleHiReg v l
      else if op = INT_TO_BYTE then
        CheckUnaryOp cfg inst_data ByteReg IntegerReg v l
      else if op = INT_TO_CHAR then
        CheckUnaryOp cfg inst_data CharReg IntegerReg v l
      else if op = INT_TO_SHORT then
        CheckUnaryOp cfg inst_data ShortReg IntegerReg v l
      else None)"

definition verify_int :: "nat \<Rightarrow> verifier_config \<Rightarrow> insn \<Rightarrow> u16 \<Rightarrow> verifier \<Rightarrow> register_line \<Rightarrow> checks" where
  "verify_int op cfg inst inst_data v l =
     (if op \<in> {ADD_INT, SUB_INT, MUL_INT, REM_INT, DIV_INT, SHL_INT, SHR_INT, USHR_INT} then
        CheckBinaryOp cfg inst inst_data IntegerReg IntegerReg IntegerReg False v l
      else if op \<in> {AND_INT, OR_INT, XOR_INT} then
        CheckBinaryOp cfg inst inst_data IntegerReg IntegerReg IntegerReg True v l
      else None)"

definition verify_long :: "nat \<Rightarrow> verifier_config \<Rightarrow> insn \<Rightarrow> u16 \<Rightarrow> verifier \<Rightarrow> register_line \<Rightarrow> checks" where
  "verify_long op cfg inst inst_data v l =
     (if op \<in> {ADD_LONG, SUB_LONG, MUL_LONG, DIV_LONG, REM_LONG, AND_LONG, OR_LONG, XOR_LONG} then
        CheckBinaryOpWide cfg inst inst_data LongLoReg LongHiReg LongLoReg LongHiReg LongLoReg LongHiReg v l
      else if op \<in> {SHL_LONG, SHR_LONG, USHR_LONG} then
        CheckBinaryOpWideShift cfg inst inst_data LongLoReg LongHiReg IntegerReg v l
      else None)"

definition verify_float :: "nat \<Rightarrow> verifier_config \<Rightarrow> insn \<Rightarrow> u16 \<Rightarrow> verifier \<Rightarrow> register_line \<Rightarrow> checks" where
  "verify_float op cfg inst inst_data v l =
     (if op \<in> {ADD_FLOAT, SUB_FLOAT, MUL_FLOAT, DIV_FLOAT, REM_FLOAT} then
        CheckBinaryOp cfg inst inst_data FloatReg FloatReg FloatReg False v l
      else if op \<in> {ADD_DOUBLE, SUB_DOUBLE, MUL_DOUBLE, DIV_DOUBLE, REM_DOUBLE} then
        CheckBinaryOpWide cfg inst inst_data DoubleLoReg DoubleHiReg DoubleLoReg DoubleHiReg DoubleLoReg DoubleHiReg v l
      else None)"

definition verify_int_2addr :: "nat \<Rightarrow> verifier_config \<Rightarrow> u16 \<Rightarrow> verifier \<Rightarrow> register_line \<Rightarrow> checks" where
  "verify_int_2addr op cfg inst_data v l =
     (if op \<in> {ADD_INT_2ADDR, SUB_INT_2ADDR, MUL_INT_2ADDR, REM_INT_2ADDR, SHL_INT_2ADDR, SHR_INT_2ADDR, USHR_INT_2ADDR} then
        CheckBinaryOp2addr cfg inst_data IntegerReg IntegerReg IntegerReg False v l
      else if op \<in> {AND_INT_2ADDR, OR_INT_2ADDR, XOR_INT_2ADDR} then
        CheckBinaryOp2addr cfg inst_data IntegerReg IntegerReg IntegerReg True v l
      else if op = DIV_INT_2ADDR then
        CheckBinaryOp2addr cfg inst_data IntegerReg IntegerReg IntegerReg False v l
      else None)"

definition verify_long_2addr :: "nat \<Rightarrow> verifier_config \<Rightarrow> u16 \<Rightarrow> verifier \<Rightarrow> register_line \<Rightarrow> checks" where
  "verify_long_2addr op cfg inst_data v l =
     (if op \<in> {ADD_LONG_2ADDR, SUB_LONG_2ADDR, MUL_LONG_2ADDR, DIV_LONG_2ADDR, REM_LONG_2ADDR, AND_LONG_2ADDR,
          OR_LONG_2ADDR, XOR_LONG_2ADDR} then
        CheckBinaryOp2addrWide cfg inst_data LongLoReg LongHiReg LongLoReg LongHiReg LongLoReg LongHiReg v l
      else if op \<in> {SHL_LONG_2ADDR, SHR_LONG_2ADDR, USHR_LONG_2ADDR} then
        CheckBinaryOp2addrWideShift cfg inst_data LongLoReg LongHiReg IntegerReg v l
      else None)"

definition verify_float_2addr :: "nat \<Rightarrow> verifier_config \<Rightarrow> u16 \<Rightarrow> verifier \<Rightarrow> register_line \<Rightarrow> checks" where
  "verify_float_2addr op cfg inst_data v l =
     (if op \<in> {ADD_FLOAT_2ADDR, SUB_FLOAT_2ADDR, MUL_FLOAT_2ADDR, DIV_FLOAT_2ADDR, REM_FLOAT_2ADDR} then
        CheckBinaryOp2addr cfg inst_data FloatReg FloatReg FloatReg False v l
      else if op \<in> {ADD_DOUBLE_2ADDR, SUB_DOUBLE_2ADDR, MUL_DOUBLE_2ADDR, DIV_DOUBLE_2ADDR, REM_DOUBLE_2ADDR} then
        CheckBinaryOp2addrWide cfg inst_data DoubleLoReg DoubleHiReg DoubleLoReg DoubleHiReg DoubleLoReg DoubleHiReg v l
      else None)"

definition verify_lit16 :: "nat \<Rightarrow> verifier_config \<Rightarrow> insn \<Rightarrow> u16 \<Rightarrow> verifier \<Rightarrow> register_line \<Rightarrow> checks" where
  "verify_lit16 op cfg inst inst_data v l =
     (if op \<in> {ADD_INT_LIT16, RSUB_INT, MUL_INT_LIT16, DIV_INT_LIT16, REM_INT_LIT16} then
        CheckLiteralOp cfg inst inst_data IntegerReg IntegerReg False True v l
      else if op \<in> {AND_INT_LIT16, OR_INT_LIT16, XOR_INT_LIT16} then
        CheckLiteralOp cfg inst inst_data IntegerReg IntegerReg True True v l
      else None)"

definition verify_lit8 :: "nat \<Rightarrow> verifier_config \<Rightarrow> insn \<Rightarrow> u16 \<Rightarrow> verifier \<Rightarrow> register_line \<Rightarrow> checks" where
  "verify_lit8 op cfg inst inst_data v l =
     (if op \<in> {ADD_INT_LIT8, RSUB_INT_LIT8, MUL_INT_LIT8, DIV_INT_LIT8, REM_INT_LIT8, SHL_INT_LIT8, SHR_INT_LIT8,
          USHR_INT_LIT8} then
        CheckLiteralOp cfg inst inst_data IntegerReg IntegerReg False False v l
      else if op \<in> {AND_INT_LIT8, OR_INT_LIT8, XOR_INT_LIT8} then
        CheckLiteralOp cfg inst inst_data IntegerReg IntegerReg True False v l
      else None)"

section \<open>Register instructions\<close>

definition verify_registers ::
  "nat \<Rightarrow> verifier_config \<Rightarrow> insn \<Rightarrow> u16 \<Rightarrow> verifier \<Rightarrow> register_line \<Rightarrow> checks" where
  "verify_registers op cfg inst inst_data v l =
     (if op \<le> MOVE_RESULT_OBJECT then verify_move op cfg inst inst_data v l
      else if CONST_4 \<le> op \<and> op \<le> CONST_WIDE_HIGH16 then verify_const op cfg inst inst_data v l
      else if CMPL_FLOAT \<le> op \<and> op \<le> CMP_LONG then verify_cmp op cfg inst inst_data v l
      else if NEG_INT \<le> op \<and> op \<le> INT_TO_SHORT then verify_unop op cfg inst_data v l
      else if ADD_INT \<le> op \<and> op \<le> USHR_INT then verify_int op cfg inst inst_data v l
      else if ADD_LONG \<le> op \<and> op \<le> USHR_LONG then verify_long op cfg inst inst_data v l
      else if ADD_FLOAT \<le> op \<and> op \<le> REM_DOUBLE then verify_float op cfg inst inst_data v l
      else if ADD_INT_2ADDR \<le> op \<and> op \<le> USHR_INT_2ADDR then verify_int_2addr op cfg inst_data v l
      else if ADD_LONG_2ADDR \<le> op \<and> op \<le> USHR_LONG_2ADDR then verify_long_2addr op cfg inst_data v l
      else if ADD_FLOAT_2ADDR \<le> op \<and> op \<le> REM_DOUBLE_2ADDR then verify_float_2addr op cfg inst_data v l
      else if ADD_INT_LIT16 \<le> op \<and> op \<le> XOR_INT_LIT16 then verify_lit16 op cfg inst inst_data v l
      else if ADD_INT_LIT8 \<le> op \<and> op \<le> USHR_INT_LIT8 then verify_lit8 op cfg inst inst_data v l
      else None)"

end
