(* ===== verification/RegTypeSafety.thy ===== *)
theory RegTypeSafety
  imports RegTypes
begin

text \<open>
  What a type of the verifier says about the contents of a register, the well-formedness of the type
  cache, and the soundness of \<^const>\<open>Merge\<close> and \<^const>\<open>AssignableFrom\<close> for that meaning.
\<close>

section \<open>The meaning of a type\<close>

text \<open>
  A register of the interpreter is its 32 bit value and its reference slot. \<open>cls\<close> gives the class of
  the object at an address. A value of an interface type may be any object: the verifier leaves the
  check to the invocation (comment of \<^verbatim>\<open>ClassJoin\<close>).
\<close>

definition in_range :: "int \<Rightarrow> int \<Rightarrow> u32 \<Rightarrow> bool" where
  "in_range lo hi v \<longleftrightarrow> lo \<le> sint v \<and> sint v \<le> hi"

definition alike :: "u32 \<Rightarrow> u32 \<Rightarrow> bool" where
  "alike c v \<longleftrightarrow> (in_range 0 1 c \<longrightarrow> in_range 0 1 v) \<and> (in_range (-128) 127 c \<longrightarrow> in_range (-128) 127 v) \<and>
     (in_range (-32768) 32767 c \<longrightarrow> in_range (-32768) 32767 v) \<and> (in_range 0 65535 c \<longrightarrow> in_range 0 65535 v)"

definition points :: "(u32 \<Rightarrow> klass option) \<Rightarrow> (klass \<Rightarrow> bool) \<Rightarrow> u32 \<Rightarrow> u32 \<Rightarrow> bool" where
  "points cls P v r \<longleftrightarrow> v = r \<and> (r = 0 \<or> (\<exists>c. cls r = Some c \<and> \<not> IsPrimitiveClass c \<and> P c))"

definition conforms :: "class_table \<Rightarrow> klass \<Rightarrow> klass \<Rightarrow> bool" where
  "conforms ct k c \<longleftrightarrow> IsInterface ct k \<or> IsAssignableFrom ct k c = Some True"

definition unresolved_class :: "u8 list \<Rightarrow> klass \<Rightarrow> bool" where
  "unresolved_class d c \<longleftrightarrow>
     (d \<noteq> [] \<and> hd d = ascii CHR ''['' \<longrightarrow> (\<exists>k. c = ArrayClass k \<and> \<not> IsPrimitiveClass k))"

fun holds :: "class_table \<Rightarrow> (u32 \<Rightarrow> klass option) \<Rightarrow> RegType \<Rightarrow> u32 \<Rightarrow> u32 \<Rightarrow> bool" where
  "holds ct cls UndefinedType v r = True"
| "holds ct cls ConflictType v r = True"
| "holds ct cls BooleanType v r = (r = 0 \<and> in_range 0 1 v)"
| "holds ct cls ByteType v r = (r = 0 \<and> in_range (-128) 127 v)"
| "holds ct cls ShortType v r = (r = 0 \<and> in_range (-32768) 32767 v)"
| "holds ct cls CharType v r = (r = 0 \<and> in_range 0 65535 v)"
| "holds ct cls IntegerType v r = (r = 0)"
| "holds ct cls LongLoType v r = (r = 0)"
| "holds ct cls LongHiType v r = (r = 0)"
| "holds ct cls FloatType v r = (r = 0)"
| "holds ct cls DoubleLoType v r = (r = 0)"
| "holds ct cls DoubleHiType v r = (r = 0)"
| "holds ct cls (PreciseConstType c) v r = (r = 0 \<and> v = c)"
| "holds ct cls (PreciseConstLoType c) v r = (r = 0 \<and> v = c)"
| "holds ct cls (PreciseConstHiType c) v r = (r = 0 \<and> v = c)"
| "holds ct cls (ImpreciseConstType c) v r = (r = 0 \<and> alike c v)"
| "holds ct cls (ImpreciseConstLoType c) v r = (r = 0)"
| "holds ct cls (ImpreciseConstHiType c) v r = (r = 0)"
| "holds ct cls (UninitializedReferenceType k d pc) v r = points cls (\<lambda>c. c = k) v r"
| "holds ct cls (UnresolvedUninitializedRefType d pc) v r = points cls (unresolved_class d) v r"
| "holds ct cls (UninitializedThisReferenceType k d) v r = points cls (conforms ct k) v r"
| "holds ct cls (UnresolvedUninitializedThisRefType d) v r = points cls (unresolved_class d) v r"
| "holds ct cls (ReferenceType k d) v r = points cls (conforms ct k) v r"
| "holds ct cls (PreciseReferenceType k d) v r = points cls (\<lambda>c. c = k) v r"
| "holds ct cls (UnresolvedReferenceType d) v r = points cls (unresolved_class d) v r"
| "holds ct cls (UnresolvedSuperClassType i) v r = points cls (\<lambda>c. True) v r"
| "holds ct cls (UnresolvedMergedType i j) v r = points cls (\<lambda>c. True) v r"

lemma points_mono: "points cls P v r \<Longrightarrow> (\<And>c. \<not> IsPrimitiveClass c \<Longrightarrow> P c \<Longrightarrow> Q c) \<Longrightarrow> points cls Q v r"
  by (auto simp: points_def)

lemma points_null [simp]: "points cls P 0 0"
  by (simp add: points_def)

lemma in_range_mono: "in_range a b v \<Longrightarrow> c \<le> a \<Longrightarrow> b \<le> d \<Longrightarrow> in_range c d v"
  by (simp add: in_range_def)

section \<open>Well-formed caches\<close>

definition resolved_entry :: "class_table \<Rightarrow> klass \<Rightarrow> RegType \<Rightarrow> bool" where
  "resolved_entry ct k t \<longleftrightarrow>
     (case t of ReferenceType l d \<Rightarrow> l = k
      | PreciseReferenceType l d \<Rightarrow> l = k \<and> CannotBeAssignedFromOtherTypes ct k
      | _ \<Rightarrow> False)"

text \<open>
  The uninitialized types of a class come behind an entry that a search for the class finds first, and
  a merged type behind its parts.
\<close>

definition entry_ok :: "class_table \<Rightarrow> cache \<Rightarrow> nat \<Rightarrow> RegType \<Rightarrow> bool" where
  "entry_ok ct entries i t \<longleftrightarrow>
     (case t of
        UninitializedReferenceType k d pc \<Rightarrow> \<not> IsPrimitiveClass k \<and>
          (\<exists>j < i. primitive_count \<le> j \<and> resolved_entry ct k (kind (entries ! j)))
      | UninitializedThisReferenceType k d \<Rightarrow> \<not> IsPrimitiveClass k \<and>
          (\<exists>j < i. primitive_count \<le> j \<and> resolved_entry ct k (kind (entries ! j)))
      | ReferenceType k d \<Rightarrow> \<not> IsPrimitiveClass k
      | PreciseReferenceType k d \<Rightarrow> \<not> IsPrimitiveClass k
      | UnresolvedMergedType l r \<Rightarrow> unat l < i \<and> unat r < i
      | _ \<Rightarrow> True)"

definition cache_ok :: "class_table \<Rightarrow> cache \<Rightarrow> bool" where
  "cache_ok ct entries \<longleftrightarrow> take primitive_count entries = FillPrimitiveAndSmallConstantTypes \<and>
     length entries \<le> 2 ^ 16 \<and>
     (\<forall>i < length entries. cache_id (entries ! i) = of_nat i \<and> entry_ok ct entries i (kind (entries ! i)))"

text \<open>An operation hands out an entry of the cache, which it may have extended.\<close>

definition keeps_cache :: "class_table \<Rightarrow> cache \<Rightarrow> reg_type \<times> cache \<Rightarrow> bool" where
  "keeps_cache ct entries result \<longleftrightarrow>
     cache_ok ct (snd result) \<and> fst result \<in> set (snd result) \<and> take (length entries) (snd result) = entries"

lemma small_constants: "[kMinSmallConstant..kMaxSmallConstant] = [-1, 0, 1, 2, 3, 4]"
  by (simp add: kMinSmallConstant_def kMaxSmallConstant_def upto.simps)

lemma Fill_length: "length FillPrimitiveAndSmallConstantTypes = primitive_count"
  by (simp add: FillPrimitiveAndSmallConstantTypes_def small_constants primitive_count_def)

lemma Fill_list:
  "FillPrimitiveAndSmallConstantTypes =
     [Undefined, Conflict, BooleanReg, ByteReg, ShortReg, CharReg, IntegerReg, LongLoReg, LongHiReg, FloatReg,
      DoubleLoReg, DoubleHiReg, small_precise_constant (-1), small_precise_constant 0, small_precise_constant 1,
      small_precise_constant 2, small_precise_constant 3, small_precise_constant 4]"
  by (simp add: FillPrimitiveAndSmallConstantTypes_def small_constants)

lemma initial_cache_ok: "cache_ok ct FillPrimitiveAndSmallConstantTypes"
proof -
  have "map cache_id FillPrimitiveAndSmallConstantTypes = map of_nat [0..<18]"
    by (simp add: Fill_list primitive_regs small_precise_constant_def kMinSmallConstant_def upt_rec)
  then have ids: "cache_id (FillPrimitiveAndSmallConstantTypes ! i) = of_nat i" if "i < 18" for i
    using that Fill_length
    by (metis (no_types, lifting) add_0 diff_zero length_upt nth_map nth_upt primitive_count_def)
  have "\<forall>e \<in> set FillPrimitiveAndSmallConstantTypes. entry_ok ct es i (kind e)" for es i
    by (simp add: Fill_list primitive_regs small_precise_constant_def entry_ok_def)
  then show ?thesis using ids by (simp add: cache_ok_def Fill_length primitive_count_def)
qed

lemma cache_ok_length: "cache_ok ct es \<Longrightarrow> primitive_count \<le> length es"
  using Fill_length by (auto simp: cache_ok_def dest!: arg_cong [where f = length])

lemma cache_ok_primitive:
  "cache_ok ct es \<Longrightarrow> set FillPrimitiveAndSmallConstantTypes \<subseteq> set es"
  by (metis cache_ok_def set_take_subset)

lemma keeps_refl: "cache_ok ct es \<Longrightarrow> t \<in> set es \<Longrightarrow> keeps_cache ct es (t, es)"
  by (simp add: keeps_cache_def)

lemma keeps_AddEntry:
  assumes ok: "cache_ok ct es" and "length es < 2 ^ 16" "entry_ok ct es (length es) t"
  shows "keeps_cache ct es (AddEntry es t)"
proof -
  have "entry_ok ct (es @ [e]) i t'" if "entry_ok ct es i t'" "i \<le> length es" for e i t'
    using that by (force simp: entry_ok_def nth_append split: RegType.splits)
  then have "entry_ok ct (es @ [e]) i (kind (es ! i))" if "i < length es" for e i
    using that ok by (simp add: cache_ok_def)
  moreover have "entry_ok ct (es @ [e]) (length es) t" for e
    using assms(3) \<open>\<And>e i t'. entry_ok ct es i t' \<Longrightarrow> i \<le> length es \<Longrightarrow> entry_ok ct (es @ [e]) i t'\<close> by simp
  ultimately show ?thesis
    using assms cache_ok_length [OF ok]
    by (auto simp: keeps_cache_def AddEntry_def cache_ok_def nth_append Let_def less_Suc_eq)
qed

lemma find_entry_Some:
  assumes "find_entry es P = Some e"
  obtains i where "primitive_count \<le> i" "i < length es" "es ! i = e" "P (kind e)"
    "\<And>j. primitive_count \<le> j \<Longrightarrow> j < i \<Longrightarrow> \<not> P (kind (es ! j))"
proof -
  obtain i where i: "i < length (drop primitive_count es)" "P (kind (drop primitive_count es ! i))"
    "e = drop primitive_count es ! i" "\<And>j. j < i \<Longrightarrow> \<not> P (kind (drop primitive_count es ! j))"
    using assms by (auto simp: find_entry_def find_Some_iff)
  have "\<not> P (kind (es ! j))" if "primitive_count \<le> j" "j < primitive_count + i" for j
    using i(4) [of "j - primitive_count"] that i(1) by simp
  then show thesis using i by (intro that [of "primitive_count + i"]) auto
qed

lemma keeps_find_or_add:
  assumes "cache_ok ct es" "length es < 2 ^ 16" "entry_ok ct es (length es) t"
  shows "keeps_cache ct es (find_or_add es P t)"
proof (cases "find_entry es P")
  case None
  then show ?thesis using keeps_AddEntry [OF assms] by (simp add: find_or_add_def)
next
  case (Some e)
  then show ?thesis using assms by (auto simp: find_or_add_def elim!: find_entry_Some intro!: keeps_refl)
qed

lemma find_or_add_kind:
  "P t \<Longrightarrow> P (kind (fst (find_or_add es P t)))"
  by (auto simp: find_or_add_def AddEntry_def Let_def split: option.split elim: find_entry_Some)

section \<open>Constants\<close>

lemma kind_small [simp]: "kind (small_precise_constant c) = PreciseConstType (word_of_int c)"
  by (simp add: small_precise_constant_def)

lemma find_or_add_unique:
  assumes "P t" "\<And>s. P s \<Longrightarrow> s = t"
  shows "kind (fst (find_or_add es P t)) = t"
  using find_or_add_kind [of P t es] assms by blast

lemma kind_FromCat1Const:
  "kind (fst (FromCat1Const es c precise)) = (if precise then PreciseConstType c else ImpreciseConstType c)"
proof (cases "precise \<and> kMinSmallConstant \<le> sint c \<and> sint c \<le> kMaxSmallConstant")
  case True
  then show ?thesis by (simp add: FromCat1Const_def)
next
  case False
  have "s = (if precise then PreciseConstType c else ImpreciseConstType c)"
    if "klass_of s = None \<and> IsConstant s \<and> IsPreciseConstant s = precise \<and> const_value s = c" for s
    using that by (cases s) (auto simp: kind_defs)
  then have "kind (fst (FromCat1NonSmallConstant es c precise)) = (if precise then PreciseConstType c else ImpreciseConstType c)"
    unfolding FromCat1NonSmallConstant_def by (intro find_or_add_unique) (simp add: kind_defs, blast)
  then show ?thesis unfolding FromCat1Const_def if_not_P [OF False] .
qed

lemma kind_FromCat2ConstLo:
  "kind (fst (FromCat2ConstLo es c precise)) = (if precise then PreciseConstLoType c else ImpreciseConstLoType c)"
proof -
  have "s = (if precise then PreciseConstLoType c else ImpreciseConstLoType c)"
    if "IsConstantLo s \<and> IsPrecise s = precise \<and> const_value s = c" for s
    using that by (cases s) (auto simp: kind_defs)
  then show ?thesis unfolding FromCat2ConstLo_def by (intro find_or_add_unique) (simp add: kind_defs, blast)
qed

lemma kind_FromCat2ConstHi:
  "kind (fst (FromCat2ConstHi es c precise)) = (if precise then PreciseConstHiType c else ImpreciseConstHiType c)"
proof -
  have "s = (if precise then PreciseConstHiType c else ImpreciseConstHiType c)"
    if "IsConstantHi s \<and> IsPrecise s = precise \<and> const_value s = c" for s
    using that by (cases s) (auto simp: kind_defs)
  then show ?thesis unfolding FromCat2ConstHi_def by (intro find_or_add_unique) (simp add: kind_defs, blast)
qed

lemmas kind_constants = kind_FromCat1Const kind_FromCat2ConstLo kind_FromCat2ConstHi

lemma small_in_cache:
  assumes "cache_ok ct es" "kMinSmallConstant \<le> c" "c \<le> kMaxSmallConstant"
  shows "small_precise_constant c \<in> set es"
  using assms cache_ok_primitive [OF assms(1)] by (auto simp: FillPrimitiveAndSmallConstantTypes_def)

lemma keeps_constants:
  assumes "cache_ok ct es" "length es < 2 ^ 16"
  shows "keeps_cache ct es (FromCat1Const es c p)" "keeps_cache ct es (FromCat2ConstLo es c p)"
    "keeps_cache ct es (FromCat2ConstHi es c p)"
  using assms
  by (auto simp: FromCat1Const_def FromCat1NonSmallConstant_def FromCat2ConstLo_def FromCat2ConstHi_def
      entry_ok_def intro!: keeps_find_or_add keeps_refl small_in_cache)

lemmas constant_kinds = ByteConstant_def CharConstant_def ShortConstant_def IntConstant_def PosByteConstant_def
  PosShortConstant_def Zero_def One_def

lemma holds_constant:
  assumes "IsConstant t" "holds ct cls t v r"
  shows "r = 0" "alike (const_value t) v"
  using assms by (cases t; simp add: kind_defs alike_def)+

lemma sint_constants [simp]:
  "sint (0x7fffffff :: u32) = 0x7fffffff" "sint (- 128 :: u32) = - 128" "sint (- 32768 :: u32) = - 32768"
  "sint (127 :: u32) = 127" "sint (32767 :: u32) = 32767" "sint (65535 :: u32) = 65535"
  by (simp_all add: sint_uint signed_take_bit_eq_take_bit_minus)

lemma alike_mono:
  "alike c v \<Longrightarrow> 0 \<le> sint c \<Longrightarrow> sint c \<le> sint d \<Longrightarrow> alike d v"
  "alike c v \<Longrightarrow> sint c < 0 \<Longrightarrow> sint d \<le> sint c \<Longrightarrow> alike d v"
  by (auto simp: alike_def in_range_def)

lemma IsConstant_cases: "IsConstant t \<longleftrightarrow> (\<exists>c. t = PreciseConstType c \<or> t = ImpreciseConstType c)"
  by (cases t) (auto simp: kind_defs)

lemma merge_constants_sound:
  assumes "IsConstant (kind a)" "IsConstant (kind b)" "holds ct cls (kind a) v r \<or> holds ct cls (kind b) v r"
  shows "holds ct cls (kind (fst (merge_constants es a b))) v r"
proof -
  have v: "r = 0" "alike (const_value (kind a)) v \<or> alike (const_value (kind b)) v"
    using assms holds_constant by blast+
  obtain c where c: "kind a = PreciseConstType c \<or> kind a = ImpreciseConstType c" using assms IsConstant_cases by blast
  obtain d where d: "kind b = PreciseConstType d \<or> kind b = ImpreciseConstType d" using assms IsConstant_cases by blast
  have [simp]: "const_value (kind a) = c" "const_value (kind b) = d" using c d by auto
  consider "0 \<le> sint c" "0 \<le> sint d" "sint d \<le> sint c" | "0 \<le> sint c" "0 \<le> sint d" "sint c < sint d"
    | "sint c < 0" "sint d < 0" "sint c \<le> sint d" | "sint c < 0" "sint d < 0" "sint d < sint c"
    | "sint c < 0" "0 \<le> sint d" | "0 \<le> sint c" "sint d < 0" by linarith
  then show ?thesis
  proof cases
    case 1
    then have "alike c v" using v alike_mono(1) [of d v c] by auto
    then show ?thesis using 1 c v(1) by (auto simp: merge_constants_def ConstantValue_def kind_constants Let_def kind_defs)
  next
    case 2
    then have "alike d v" using v alike_mono(1) [of c v d] by auto
    then show ?thesis using 2 d v(1) by (auto simp: merge_constants_def ConstantValue_def kind_constants Let_def kind_defs)
  next
    case 3
    then have "alike c v" using v alike_mono(2) [of d v c] by auto
    then show ?thesis using 3 c v(1) by (auto simp: merge_constants_def ConstantValue_def kind_constants Let_def kind_defs)
  next
    case 4
    then have "alike d v" using v alike_mono(2) [of c v d] by auto
    then show ?thesis using 4 d v(1) by (auto simp: merge_constants_def ConstantValue_def kind_constants Let_def kind_defs)
  next
    case 5
    then show ?thesis
      using v c d by (auto simp: merge_constants_def ConstantValue_def kind_constants constant_kinds Let_def kind_defs alike_def in_range_def)
  next
    case 6
    then show ?thesis
      using v c d by (auto simp: merge_constants_def ConstantValue_def kind_constants constant_kinds Let_def kind_defs alike_def in_range_def)
  qed
qed

section \<open>Integral types\<close>

lemma integral_holds:
  assumes "holds ct cls t v r"
  shows "IsIntegralTypes t \<Longrightarrow> r = 0" "IsFloatTypes t \<Longrightarrow> r = 0" "IsBooleanTypes t \<Longrightarrow> in_range 0 1 v"
    "IsByteTypes t \<Longrightarrow> in_range (-128) 127 v" "IsShortTypes t \<Longrightarrow> in_range (-32768) 32767 v"
    "IsCharTypes t \<Longrightarrow> in_range 0 65535 v"
  using assms by (cases t; auto simp: kind_defs alike_def in_range_def ConstantValue_def)+

lemma kind_primitive [simp]:
  "kind Undefined = UndefinedType" "kind Conflict = ConflictType" "kind BooleanReg = BooleanType"
  "kind ByteReg = ByteType" "kind ShortReg = ShortType" "kind CharReg = CharType" "kind IntegerReg = IntegerType"
  "kind LongLoReg = LongLoType" "kind LongHiReg = LongHiType" "kind FloatReg = FloatType"
  "kind DoubleLoReg = DoubleLoType" "kind DoubleHiReg = DoubleHiType"
  by (simp_all add: primitive_regs)

lemma merge_integral_sound:
  assumes "IsIntegralTypes t" "IsIntegralTypes t'" "holds ct cls t v r \<or> holds ct cls t' v r"
  shows "holds ct cls (kind (merge_integral t t')) v r"
proof -
  have "r = 0" using assms integral_holds(1) by blast
  then show ?thesis using assms(3) integral_holds(3-6) [of ct cls _ v r] by (simp add: merge_integral_def) blast
qed

lemma wide_holds:
  assumes "holds ct cls t v r" "IsLongTypes t \<or> IsLongHighTypes t \<or> IsDoubleTypes t \<or> IsDoubleHighTypes t"
  shows "r = 0"
  using assms by (cases t) (auto simp: kind_defs)

lemma primitives_in_cache:
  assumes "cache_ok ct es"
  shows "Undefined \<in> set es" "Conflict \<in> set es" "BooleanReg \<in> set es" "ByteReg \<in> set es" "ShortReg \<in> set es"
    "CharReg \<in> set es" "IntegerReg \<in> set es" "LongLoReg \<in> set es" "LongHiReg \<in> set es" "FloatReg \<in> set es"
    "DoubleLoReg \<in> set es" "DoubleHiReg \<in> set es"
  using cache_ok_primitive [OF assms] by (auto simp: FillPrimitiveAndSmallConstantTypes_def)

section \<open>References\<close>

lemma conforms_self: "conforms ct k k"
  by (simp add: conforms_def IsAssignableFrom.simps)

lemma conforms_final:
  assumes "class_ok ct" "CannotBeAssignedFromOtherTypes ct k" "conforms ct k c"
  shows "c = k"
proof -
  have "\<not> IsInterface ct k" using assms class_okD(6) by (cases k) auto
  then show ?thesis
    using assms final_class [OF assms(1,2)] IsAssignableFrom_assignable [OF assms(1)] by (simp add: conforms_def)
qed

lemma conforms_trans:
  assumes "class_ok ct" "IsAssignableFrom ct j k = Some True" "conforms ct k c" "\<not> IsPrimitiveClass c" "\<not> IsPrimitiveClass j"
  shows "conforms ct j c"
proof (cases "IsInterface ct k \<and> \<not> IsInterface ct j")
  case True
  note assignable = IsAssignableFrom_assignable [OF assms(1)]
  obtain i where i: "k = Plain i" "acc_interface ct i" using True by (cases k) auto
  have "j = Object ct"
    using assms(2,5) True i by (cases j) (auto simp: assignable)
  then show ?thesis using assms(4) by (cases c) (auto simp: conforms_def assignable)
next
  case False
  then show ?thesis
    using assms assignable_trans [OF assms(1), of j k c] IsAssignableFrom_assignable [OF assms(1)] by (auto simp: conforms_def)
qed

lemma holds_class:
  assumes "holds ct cls t v r" "klass_of t = Some k" "\<not> IsPrimitiveClass k"
  shows "points cls (conforms ct k) v r"
  using assms by (cases t) (auto intro: points_mono simp: conforms_self)

lemma holds_reference:
  assumes "holds ct cls t v r" "IsReferenceTypes t"
  shows "points cls (\<lambda>c. True) v r"
  using assms by (cases t) (auto simp: kind_defs ConstantValue_def signed_eq_0_iff intro: points_mono)

lemma resolved_entry_holds:
  assumes "class_ok ct" "resolved_entry ct k t" "points cls (conforms ct k) v r"
  shows "holds ct cls t v r"
  using assms conforms_final [OF assms(1)]
  by (cases t) (auto simp: resolved_entry_def intro: points_mono)

lemma entry_of_class:
  assumes ok: "cache_ok ct es" and i: "i < length es" and k: "klass_of (kind (es ! i)) = Some k" "\<not> IsPrimitiveClass k"
    and match: "MatchingPrecisionForClass ct (kind (es ! i)) False"
    and first: "\<And>j. primitive_count \<le> j \<Longrightarrow> j < i \<Longrightarrow>
      \<not> (klass_of (kind (es ! j)) = Some k \<and> MatchingPrecisionForClass ct (kind (es ! j)) False)"
  shows "resolved_entry ct k (kind (es ! i))"
proof -
  have entry: "entry_ok ct es i (kind (es ! i))" using ok i by (simp add: cache_ok_def)
  have found: "False" if ex: "\<exists>j < i. primitive_count \<le> j \<and> resolved_entry ct k (kind (es ! j))"
  proof -
    obtain j where j: "j < i" "primitive_count \<le> j" "resolved_entry ct k (kind (es ! j))" using ex by blast
    then have "klass_of (kind (es ! j)) = Some k \<and> MatchingPrecisionForClass ct (kind (es ! j)) False"
      by (auto simp: resolved_entry_def MatchingPrecisionForClass_def kind_defs split: RegType.splits)
    then show False using first [OF j(2,1)] by blast
  qed
  show ?thesis
    using entry found k match
    by (cases "kind (es ! i)") (auto simp: entry_ok_def resolved_entry_def MatchingPrecisionForClass_def kind_defs)
qed

lemma FromClass_imprecise:
  assumes "cache_ok ct es" "\<not> IsPrimitiveClass k"
  shows "resolved_entry ct k (kind (fst (FromClass ct es d k False)))"
proof -
  let ?P = "\<lambda>t. klass_of t = Some k \<and> MatchingPrecisionForClass ct t False"
  have "FromClass ct es d k False = find_or_add es ?P (ReferenceType k d)"
    using assms(2) by (cases k) (simp_all add: FromClass_def)
  moreover have "resolved_entry ct k (kind (fst (find_or_add es ?P (ReferenceType k d))))"
  proof (cases "find_entry es ?P")
    case None
    then show ?thesis by (simp add: find_or_add_def AddEntry_def resolved_entry_def Let_def)
  next
    case (Some e)
    obtain i where "i < length es" "es ! i = e" "?P (kind e)"
      "\<And>j. primitive_count \<le> j \<Longrightarrow> j < i \<Longrightarrow> \<not> ?P (kind (es ! j))"
      by (rule find_entry_Some [OF Some]) blast
    then show ?thesis using Some entry_of_class [OF assms(1), of i k] assms(2) by (simp add: find_or_add_def)
  qed
  ultimately show ?thesis by simp
qed

lemma keeps_FromClass:
  assumes "cache_ok ct es" "length es < 2 ^ 16" "\<not> IsPrimitiveClass k"
  shows "keeps_cache ct es (FromClass ct es d k p)"
  using assms by (cases k) (auto simp: FromClass_def entry_ok_def intro!: keeps_find_or_add)

section \<open>Merged unresolved types\<close>

lemma in_cache:
  assumes "cache_ok ct es" "t \<in> set es"
  shows "unat (cache_id t) < length es" "es ! unat (cache_id t) = t" "entry_ok ct es (unat (cache_id t)) (kind t)"
proof -
  obtain i where i: "i < length es" "es ! i = t" using assms(2) by (auto simp: in_set_conv_nth)
  then have "cache_id t = of_nat i" "length es \<le> 2 ^ 16" "entry_ok ct es i (kind t)"
    using assms(1) by (auto simp: cache_ok_def)
  then have "unat (cache_id t) = i" using i(1) by (simp add: unat_of_nat)
  then show "unat (cache_id t) < length es" "es ! unat (cache_id t) = t" "entry_ok ct es (unat (cache_id t)) (kind t)"
    using i \<open>entry_ok ct es i (kind t)\<close> by auto
qed

lemma merged_types_total:
  assumes ok: "cache_ok ct es" and "unat i < length es"
  shows "merged_types es i \<noteq> None"
  using assms(2)
proof (induction "unat i" arbitrary: i rule: less_induct)
  case less
  have entry: "entry_ok ct es (unat i) (kind (es ! unat i))" using ok less.prems by (simp add: cache_ok_def)
  show ?case
  proof (cases "\<exists>l r. kind (es ! unat i) = UnresolvedMergedType l r")
    case True
    then obtain l r where lr: "kind (es ! unat i) = UnresolvedMergedType l r" by blast
    then have "unat l < unat i" "unat r < unat i" using entry by (auto simp: entry_ok_def)
    then have "merged_types es l \<noteq> None" "merged_types es r \<noteq> None"
      using less.hyps less.prems by auto
    then show ?thesis using lr less.prems by (subst merged_types.simps) (auto simp: GetFromId_def)
  next
    case False
    then show ?thesis
      using less.prems by (subst merged_types.simps) (auto simp: GetFromId_def split: RegType.split)
  qed
qed

lemma merged_or_self_total:
  assumes "cache_ok ct es" "t \<in> set es"
  shows "\<exists>types. merged_or_self es t = Some types"
proof (cases "kind t")
  case (UnresolvedMergedType l r)
  then have "unat l < length es" "unat r < length es" using in_cache [OF assms] by (auto simp: entry_ok_def)
  then obtain left right where "merged_types es l = Some left" "merged_types es r = Some right"
    using merged_types_total [OF assms(1)] by blast
  then show ?thesis using UnresolvedMergedType by (simp add: merged_or_self_def GetMergedTypes_def kind_defs)
qed (simp_all add: merged_or_self_def kind_defs)

lemma find_merged_total:
  assumes ok: "cache_ok ct es" and "set ts \<subseteq> set es"
  shows "\<exists>found. find_merged es types ts = Some found \<and>
     (\<forall>e. found = Some e \<longrightarrow> e \<in> set ts \<and> IsUnresolvedMergedReference (kind e))"
  using assms(2)
proof (induction ts)
  case (Cons t ts)
  obtain found where found: "find_merged es types ts = Some found"
    "\<And>e. found = Some e \<Longrightarrow> e \<in> set ts \<and> IsUnresolvedMergedReference (kind e)" using Cons by auto
  obtain cur where "merged_or_self es t = Some cur" using merged_or_self_total [OF ok] Cons.prems by auto
  then show ?case using found by (auto simp: merged_or_self_def)
qed simp

lemma FromUnresolvedMerge_total:
  assumes ok: "cache_ok ct es" and "length es < 2 ^ 16" "a \<in> set es" "b \<in> set es"
  shows "\<exists>t es'. FromUnresolvedMerge es a b = Some (t, es') \<and> keeps_cache ct es (t, es') \<and>
     IsUnresolvedMergedReference (kind t)"
proof -
  obtain left right where types: "merged_or_self es a = Some left" "merged_or_self es b = Some right"
    using merged_or_self_total [OF ok] assms by blast
  have "set (drop primitive_count es) \<subseteq> set es" by (simp add: set_drop_subset)
  then obtain found where found: "find_merged es (left \<union> right) (drop primitive_count es) = Some found"
    "\<And>e. found = Some e \<Longrightarrow> e \<in> set es \<and> IsUnresolvedMergedReference (kind e)"
    using find_merged_total [OF ok, of "drop primitive_count es" "left \<union> right"] by blast
  let ?t = "UnresolvedMergedType (cache_id a) (cache_id b)"
  have "keeps_cache ct es (AddEntry es ?t)"
    using in_cache [OF ok] assms by (intro keeps_AddEntry) (simp_all add: entry_ok_def)
  then show ?thesis
    using types found ok
    by (cases found) (auto simp: FromUnresolvedMerge_def AddEntry_def Let_def kind_defs intro: keeps_refl)
qed

section \<open>Merging\<close>

lemma holds_null: "IsReferenceTypes t \<Longrightarrow> holds ct cls t 0 0"
  by (cases t) (auto simp: kind_defs ConstantValue_def signed_eq_0_iff)

lemma holds_zero: "IsZero t \<Longrightarrow> holds ct cls t v r \<Longrightarrow> v = 0 \<and> r = 0"
  by (cases t) (auto simp: kind_defs ConstantValue_def signed_eq_0_iff)

lemma conforms_object:
  assumes "class_ok ct" "\<not> IsPrimitiveClass c"
  shows "conforms ct (Object ct) c"
  using assms by (cases c) (simp_all add: conforms_def IsAssignableFrom_assignable)

lemma resolved_reference:
  assumes "IsReferenceTypes t" "\<not> IsZero t" "\<not> IsUnresolvedTypes t" "\<not> IsUninitializedTypes t" "entry_ok ct es i t"
  obtains k d where "t = ReferenceType k d \<or> t = PreciseReferenceType k d" "\<not> IsPrimitiveClass k"
  using assms by (cases t) (auto simp: kind_defs entry_ok_def)

lemma merge_classes_sound:
  assumes ct: "class_ok ct" and ok: "cache_ok ct es" "length es < 2 ^ 16" and ab: "a \<in> set es" "b \<in> set es"
    and a: "kind a = ReferenceType c1 d1 \<or> kind a = PreciseReferenceType c1 d1" "\<not> IsPrimitiveClass c1"
    and b: "kind b = ReferenceType c2 d2 \<or> kind b = PreciseReferenceType c2 d2" "\<not> IsPrimitiveClass c2"
    and j: "ClassJoin ct c1 c2 = Some j"
    and res: "res = (if c1 = j \<and> \<not> IsPreciseReference (kind a) then (a, es)
      else if c2 = j \<and> \<not> IsPreciseReference (kind b) then (b, es) else FromClass ct es (GetDescriptor ct j) j False)"
  shows "keeps_cache ct es res"
    "holds ct cls (kind a) v r \<or> holds ct cls (kind b) v r \<Longrightarrow> holds ct cls (kind (fst res)) v r"
proof -
  have up: "\<not> IsPrimitiveClass j" "IsAssignableFrom ct j c1 = Some True" "IsAssignableFrom ct j c2 = Some True"
    using join_least [OF ct a(2) b(2)] j by (auto simp: IsAssignableFrom_assignable [OF ct])
  show "keeps_cache ct es res" using res ok ab keeps_FromClass [OF ok up(1)] by (auto intro: keeps_refl)
  assume h: "holds ct cls (kind a) v r \<or> holds ct cls (kind b) v r"
  have ka: "klass_of (kind a) = Some c1" and kb: "klass_of (kind b) = Some c2" using a(1) b(1) by auto
  have "points cls (conforms ct c1) v r \<or> points cls (conforms ct c2) v r"
    using h holds_class [OF _ ka a(2)] holds_class [OF _ kb b(2)] by blast
  then have p: "points cls (conforms ct j) v r"
    using conforms_trans [OF ct up(2)] conforms_trans [OF ct up(3)] up(1) by (auto intro: points_mono)
  show "holds ct cls (kind (fst res)) v r"
    using p a(1) b(1) resolved_entry_holds [OF ct FromClass_imprecise [OF ok(1) up(1)] p]
    by (auto simp: res kind_defs)
qed

lemma merge_references_sound:
  assumes ct: "class_ok ct" and ok: "cache_ok ct es" "length es < 2 ^ 16" and ab: "a \<in> set es" "b \<in> set es"
    and refs: "IsReferenceTypes (kind a)" "IsReferenceTypes (kind b)" "\<not> (IsConstant (kind a) \<and> IsConstant (kind b))"
  shows "\<exists>res. merge_references ct es a b = Some res \<and> keeps_cache ct es res \<and>
     (\<forall>cls v r. holds ct cls (kind a) v r \<or> holds ct cls (kind b) v r \<longrightarrow> holds ct cls (kind (fst res)) v r)"
proof -
  consider (zero) "IsZero (kind a) \<or> IsZero (kind b)"
    | (object) "\<not> (IsZero (kind a) \<or> IsZero (kind b))" "IsJavaLangObject ct (kind a) \<or> IsJavaLangObject ct (kind b)"
    | (unresolved) "\<not> (IsZero (kind a) \<or> IsZero (kind b))" "\<not> (IsJavaLangObject ct (kind a) \<or> IsJavaLangObject ct (kind b))"
      "IsUnresolvedTypes (kind a) \<or> IsUnresolvedTypes (kind b)"
    | (uninit) "\<not> (IsZero (kind a) \<or> IsZero (kind b))" "\<not> (IsJavaLangObject ct (kind a) \<or> IsJavaLangObject ct (kind b))"
      "\<not> (IsUnresolvedTypes (kind a) \<or> IsUnresolvedTypes (kind b))"
      "IsUninitializedTypes (kind a) \<or> IsUninitializedTypes (kind b)"
    | (classes) "\<not> (IsZero (kind a) \<or> IsZero (kind b))" "\<not> (IsJavaLangObject ct (kind a) \<or> IsJavaLangObject ct (kind b))"
      "\<not> (IsUnresolvedTypes (kind a) \<or> IsUnresolvedTypes (kind b))"
      "\<not> (IsUninitializedTypes (kind a) \<or> IsUninitializedTypes (kind b))" by blast
  then show ?thesis
  proof cases
    case zero
    have select: "SelectNonConstant a b = (if IsZero (kind a) then b else a)"
      using refs(1) by (cases "kind a") (auto simp: SelectNonConstant_def kind_defs)
    have "holds ct cls (kind (SelectNonConstant a b)) v r"
      if "holds ct cls (kind a) v r \<or> holds ct cls (kind b) v r" for cls v r
      using that zero holds_zero [of _ ct cls v r] holds_null [OF refs(1), of ct cls] holds_null [OF refs(2), of ct cls]
      by (auto simp: select)
    moreover have "keeps_cache ct es (SelectNonConstant a b, es)" using ok(1) ab by (simp add: select keeps_refl)
    ultimately show ?thesis using zero by (simp add: merge_references_def)
  next
    case object
    have "\<not> IsPrimitiveClass (Object ct)" by simp
    note entry = FromClass_imprecise [OF ok(1) this]
    have "points cls (conforms ct (Object ct)) v r"
      if "holds ct cls (kind a) v r \<or> holds ct cls (kind b) v r" for cls v r
      using that holds_reference refs(1,2) conforms_object [OF ct] by (blast intro: points_mono)
    then have "holds ct cls (kind (fst (JavaLangObject ct es False))) v r"
      if "holds ct cls (kind a) v r \<or> holds ct cls (kind b) v r" for cls v r
      using that unfolding JavaLangObject_def by (intro resolved_entry_holds [OF ct entry])
    moreover have "keeps_cache ct es (JavaLangObject ct es False)"
      unfolding JavaLangObject_def by (rule keeps_FromClass [OF ok]) simp
    ultimately show ?thesis using object by (simp add: merge_references_def)
  next
    case unresolved
    obtain t es' where t: "FromUnresolvedMerge es a b = Some (t, es')" "keeps_cache ct es (t, es')"
      "IsUnresolvedMergedReference (kind t)" using FromUnresolvedMerge_total [OF ok ab] by blast
    then obtain l r where "kind t = UnresolvedMergedType l r" by (cases "kind t") (auto simp: kind_defs)
    then show ?thesis using t unresolved holds_reference refs(1,2) by (simp add: merge_references_def)
  next
    case uninit
    then show ?thesis using ok by (auto simp: merge_references_def intro!: keeps_refl primitives_in_cache)
  next
    case classes
    obtain c1 d1 where a: "kind a = ReferenceType c1 d1 \<or> kind a = PreciseReferenceType c1 d1" "\<not> IsPrimitiveClass c1"
      using resolved_reference [OF refs(1) _ _ _ in_cache(3) [OF ok(1) ab(1)]] classes by blast
    obtain c2 d2 where b: "kind b = ReferenceType c2 d2 \<or> kind b = PreciseReferenceType c2 d2" "\<not> IsPrimitiveClass c2"
      using resolved_reference [OF refs(2) _ _ _ in_cache(3) [OF ok(1) ab(2)]] classes by blast
    obtain j where j: "ClassJoin ct c1 c2 = Some j" using join_least [OF ct a(2) b(2)] by blast
    note sound = merge_classes_sound [OF ct ok ab a b j refl]
    have "klass_of (kind a) = Some c1" "klass_of (kind b) = Some c2" using a b by auto
    then show ?thesis using classes j sound by (simp add: merge_references_def)
  qed
qed

lemma keeps_merge_constants:
  assumes "cache_ok ct es" "length es < 2 ^ 16" "a \<in> set es" "b \<in> set es"
  shows "keeps_cache ct es (merge_constants es a b)"
  using assms keeps_constants(1) [OF assms(1,2)]
  by (auto simp: merge_constants_def constant_kinds Let_def intro: keeps_refl)

lemma integral_in_cache: "cache_ok ct es \<Longrightarrow> merge_integral t t' \<in> set es"
  by (simp add: merge_integral_def primitives_in_cache)

lemma select_wide:
  assumes "\<not> (IsConstant (kind a) \<and> IsConstant (kind b))" "\<not> (IsConstantLo (kind a) \<and> IsConstantLo (kind b))"
    "\<not> (IsConstantHi (kind a) \<and> IsConstantHi (kind b))"
    "(IsFloatTypes (kind a) \<and> IsFloatTypes (kind b)) \<or> (IsLongTypes (kind a) \<and> IsLongTypes (kind b)) \<or>
     (IsLongHighTypes (kind a) \<and> IsLongHighTypes (kind b)) \<or> (IsDoubleTypes (kind a) \<and> IsDoubleTypes (kind b)) \<or>
     (IsDoubleHighTypes (kind a) \<and> IsDoubleHighTypes (kind b))"
  shows "kind (SelectNonConstant a b) \<in> {FloatType, LongLoType, LongHiType, DoubleLoType, DoubleHiType}"
proof (cases "IsConstantTypes (kind a)")
  case True
  then have "\<not> IsConstantTypes (kind b)" using assms by (cases "kind a") (auto simp: kind_defs)
  then show ?thesis using True assms(4) by (cases "kind b") (simp_all add: SelectNonConstant_def kind_defs)
next
  case False
  then show ?thesis using assms(4) by (cases "kind a") (simp_all add: SelectNonConstant_def kind_defs)
qed

lemma Merge_sound:
  assumes ct: "class_ok ct" and ok: "cache_ok ct es" "length es < 2 ^ 16" and ab: "a \<in> set es" "b \<in> set es"
  shows "\<exists>res. Merge ct es a b = Some res \<and> keeps_cache ct es res \<and>
     (\<forall>cls v r. holds ct cls (kind a) v r \<or> holds ct cls (kind b) v r \<longrightarrow> holds ct cls (kind (fst res)) v r)"
proof -
  let ?t = "kind a" and ?t' = "kind b"
  define is_conflict where "is_conflict \<longleftrightarrow> ?t = ConflictType \<or> ?t' = ConflictType \<or> ?t = UndefinedType \<or> ?t' = UndefinedType"
  define is_const where "is_const \<longleftrightarrow> IsConstant ?t \<and> IsConstant ?t'"
  define is_lo where "is_lo \<longleftrightarrow> IsConstantLo ?t \<and> IsConstantLo ?t'"
  define is_hi where "is_hi \<longleftrightarrow> IsConstantHi ?t \<and> IsConstantHi ?t'"
  define is_integral where "is_integral \<longleftrightarrow> IsIntegralTypes ?t \<and> IsIntegralTypes ?t'"
  define is_wide where "is_wide \<longleftrightarrow> (IsFloatTypes ?t \<and> IsFloatTypes ?t') \<or> (IsLongTypes ?t \<and> IsLongTypes ?t') \<or>
    (IsLongHighTypes ?t \<and> IsLongHighTypes ?t') \<or> (IsDoubleTypes ?t \<and> IsDoubleTypes ?t') \<or>
    (IsDoubleHighTypes ?t \<and> IsDoubleHighTypes ?t')"
  note kinds = is_conflict_def is_const_def is_lo_def is_hi_def is_integral_def is_wide_def
  have merge: "Merge ct es a b =
      (if ?t = ConflictType then Some (a, es) else if ?t' = ConflictType then Some (b, es)
       else if ?t = UndefinedType \<or> ?t' = UndefinedType then Some (Conflict, es)
       else if is_const then Some (merge_constants es a b)
       else if is_lo then Some (FromCat2ConstLo es (const_value ?t OR const_value ?t') False)
       else if is_hi then Some (FromCat2ConstHi es (const_value ?t OR const_value ?t') False)
       else if is_integral then Some (merge_integral ?t ?t', es)
       else if is_wide then Some (SelectNonConstant a b, es)
       else if IsReferenceTypes ?t \<and> IsReferenceTypes ?t' then merge_references ct es a b
       else Some (Conflict, es))"
    unfolding Merge_def Let_def kinds ..
  consider (conflict) is_conflict | (constants) "\<not> is_conflict" is_const | (lo) "\<not> is_conflict" "\<not> is_const" is_lo
    | (hi) "\<not> is_conflict" "\<not> is_const" "\<not> is_lo" is_hi
    | (integral) "\<not> is_conflict" "\<not> is_const" "\<not> is_lo" "\<not> is_hi" is_integral
    | (wide) "\<not> is_conflict" "\<not> is_const" "\<not> is_lo" "\<not> is_hi" "\<not> is_integral" is_wide
    | (other) "\<not> is_conflict" "\<not> is_const" "\<not> is_lo" "\<not> is_hi" "\<not> is_integral" "\<not> is_wide" by blast
  then show ?thesis
  proof cases
    case conflict
    have "Merge ct es a b = Some (if ?t = ConflictType then a else if ?t' = ConflictType then b else Conflict, es)"
      using conflict by (auto simp: merge is_conflict_def)
    moreover have "keeps_cache ct es (if ?t = ConflictType then a else if ?t' = ConflictType then b else Conflict, es)"
      using ok(1) ab by (simp add: keeps_refl primitives_in_cache)
    ultimately show ?thesis by simp
  next
    case constants
    then have "Merge ct es a b = Some (merge_constants es a b)" by (simp add: merge is_conflict_def)
    then show ?thesis
      using constants(2) merge_constants_sound keeps_merge_constants [OF ok ab] by (simp add: is_const_def)
  next
    case lo
    then have "Merge ct es a b = Some (FromCat2ConstLo es (const_value ?t OR const_value ?t') False)"
      by (simp add: merge is_conflict_def)
    moreover have "r = 0" if "holds ct cls ?t v r \<or> holds ct cls ?t' v r" for cls v r
      using that lo wide_holds by (auto simp: is_lo_def IsLongTypes_def)
    ultimately show ?thesis using keeps_constants(2) [OF ok] by (auto simp: kind_constants)
  next
    case hi
    then have "Merge ct es a b = Some (FromCat2ConstHi es (const_value ?t OR const_value ?t') False)"
      by (simp add: merge is_conflict_def)
    moreover have "r = 0" if "holds ct cls ?t v r \<or> holds ct cls ?t' v r" for cls v r
      using that hi(4) wide_holds by (auto simp: is_hi_def IsLongHighTypes_def IsConstantHi_def)
    ultimately show ?thesis using keeps_constants(3) [OF ok] by (auto simp: kind_constants)
  next
    case integral
    then have "Merge ct es a b = Some (merge_integral ?t ?t', es)" by (simp add: merge is_conflict_def)
    then show ?thesis
      using integral(5) merge_integral_sound keeps_refl [OF ok(1) integral_in_cache [OF ok(1)]]
      by (simp add: is_integral_def)
  next
    case wide
    have "Merge ct es a b = Some (SelectNonConstant a b, es)"
      using wide by (simp add: merge is_conflict_def)
    moreover have "holds ct cls (kind (SelectNonConstant a b)) v r"
      if h: "holds ct cls ?t v r \<or> holds ct cls ?t' v r" for cls v r
    proof -
      have "kind (SelectNonConstant a b) \<in> {FloatType, LongLoType, LongHiType, DoubleLoType, DoubleHiType}"
        using wide(2-4,6) unfolding kinds by (rule select_wide)
      moreover have "r = 0"
        using h wide(6) wide_holds [of ct cls _ v r] integral_holds(2) [of ct cls _ v r] unfolding is_wide_def by blast
      ultimately show ?thesis by auto
    qed
    moreover have "keeps_cache ct es (SelectNonConstant a b, es)" using ok(1) ab by (simp add: SelectNonConstant_def keeps_refl)
    ultimately show ?thesis by simp
  next
    case other
    then have other_merge: "Merge ct es a b =
        (if IsReferenceTypes ?t \<and> IsReferenceTypes ?t' then merge_references ct es a b else Some (Conflict, es))"
      by (simp add: merge is_conflict_def)
    have const: "\<not> (IsConstant ?t \<and> IsConstant ?t')" using other(2) by (simp add: is_const_def)
    show ?thesis
    proof (cases "IsReferenceTypes ?t \<and> IsReferenceTypes ?t'")
      case True
      then show ?thesis using merge_references_sound [OF ct ok ab _ _ const] other_merge by simp
    next
      case False
      then show ?thesis using other_merge ok by (auto intro!: keeps_refl primitives_in_cache)
    qed
  qed
qed

section \<open>Assignability\<close>

text \<open>
  The types an operand is checked against: primitive types, types of descriptors, and precise types of
  classes without subclasses.
\<close>

definition check_type :: "class_table \<Rightarrow> RegType \<Rightarrow> bool" where
  "check_type ct t \<longleftrightarrow>
     (case t of ReferenceType k d \<Rightarrow> True | PreciseReferenceType k d \<Rightarrow> CannotBeAssignedFromOtherTypes ct k
      | UnresolvedReferenceType d \<Rightarrow> True
      | _ \<Rightarrow> t \<in> {BooleanType, ByteType, ShortType, CharType, IntegerType, FloatType, LongLoType, DoubleLoType})"

lemma IsPrimitiveClass_iff: "IsPrimitiveClass k \<longleftrightarrow> (\<exists>p. k = PrimitiveClass p)"
  by (cases k) simp_all

lemma class_type_holds:
  assumes "class_ok ct" "check_type ct t" "klass_of t = Some k" "\<not> IsPrimitiveClass k" "points cls (conforms ct k) v r"
  shows "holds ct cls t v r"
proof -
  have "resolved_entry ct k t" using assms(2-4) by (cases t) (auto simp: check_type_def resolved_entry_def)
  then show ?thesis using resolved_entry_holds assms(1,5) by blast
qed

lemma object_array_holds:
  assumes "IsObjectArrayTypes t" "holds ct cls t v r" "IsReferenceTypes t" "class_ok ct" "k = Object ct"
  shows "points cls (conforms ct (ArrayClass k)) v r"
proof -
  have array: "conforms ct (ArrayClass k) (ArrayClass c)" if "\<not> IsPrimitiveClass c" for c
    using that assms(4,5) by (cases c) (simp_all add: conforms_def IsAssignableFrom_assignable)
  have points: "points cls (\<lambda>c. \<exists>e. c = ArrayClass e \<and> \<not> IsPrimitiveClass e) v r"
  proof (cases "klass_of t")
    case None
    then show ?thesis using assms(1-3)
      by (cases t) (auto simp: IsObjectArrayTypes_def kind_defs unresolved_class_def intro: points_mono)
  next
    case (Some c)
    then obtain e where e: "c = ArrayClass e" "\<not> IsPrimitiveClass e"
      using assms(1,3) by (cases t; cases c) (auto simp: IsObjectArrayTypes_def kind_defs)
    have "\<exists>e. d = ArrayClass e \<and> \<not> IsPrimitiveClass e" if "conforms ct (ArrayClass e) d" for d
      using that e(2) assms(4) by (cases d) (auto simp: conforms_def IsAssignableFrom_assignable IsPrimitiveClass_iff)
    then show ?thesis using holds_class [OF assms(2) Some] e by (auto intro: points_mono)
  qed
  show ?thesis by (rule points_mono [OF points]) (auto intro: array)
qed

lemma same_entry:
  assumes ok: "cache_ok ct es" "a \<in> set es" "b \<in> set es" and "Equals a b"
  shows "a = b"
proof -
  have "a = es ! unat (cache_id a)" by (rule in_cache(2) [OF ok(1,2), symmetric])
  also have "cache_id a = cache_id b" using assms(4) by (simp add: Equals_def)
  also have "es ! unat (cache_id b) = b" by (rule in_cache(2) [OF ok(1,3)])
  finally show ?thesis .
qed

lemma reference_assignable_sound:
  assumes ct: "class_ok ct" and check: "check_type ct l" and h: "holds ct cls r' v r"
    and refs: "IsReferenceTypes l" "IsReferenceTypes r'" and prim: "\<And>k. klass_of l = Some k \<Longrightarrow> \<not> IsPrimitiveClass k"
    "\<And>k. klass_of r' = Some k \<Longrightarrow> \<not> IsPrimitiveClass k"
    and how: "IsZero r' \<or> IsJavaLangObject ct l \<or> (\<exists>k. klass_of l = Some k \<and> IsInterface ct k) \<or>
      IsJavaLangObjectArray ct l \<and> IsObjectArrayTypes r' \<or>
      (\<exists>k k'. klass_of l = Some k \<and> klass_of r' = Some k' \<and> IsAssignableFrom ct k k' = Some True)"
  shows "holds ct cls l v r"
proof -
  consider "IsZero r'" | k where "klass_of l = Some k" "points cls (conforms ct k) v r"
  proof -
    have any: "points cls (\<lambda>c. True) v r" by (rule holds_reference [OF h refs(2)])
    from how show thesis
    proof (elim disjE exE conjE)
      assume "IsZero r'"
      then show thesis by (rule that(1))
    next
      assume "IsJavaLangObject ct l"
      then have "klass_of l = Some (Object ct)"
        using object_class_iff [OF ct] by (cases l) (auto simp: IsJavaLangObject_def)
      then show thesis using points_mono [OF any conforms_object [OF ct]] by (intro that(2)) simp_all
    next
      fix k assume "klass_of l = Some k" "IsInterface ct k"
      moreover from this have "points cls (conforms ct k) v r" by (intro points_mono [OF any]) (simp add: conforms_def)
      ultimately show thesis by (intro that(2))
    next
      assume "IsJavaLangObjectArray ct l" "IsObjectArrayTypes r'"
      then show thesis
        using object_array_holds [OF _ h refs(2) ct] object_class_iff [OF ct]
        by (intro that(2)) (auto simp: IsJavaLangObjectArray_def split: option.splits klass.splits)
    next
      fix k k' assume kk: "klass_of l = Some k" "klass_of r' = Some k'" "IsAssignableFrom ct k k' = Some True"
      have "points cls (conforms ct k') v r" by (rule holds_class [OF h kk(2) prim(2) [OF kk(2)]])
      then have "points cls (conforms ct k) v r"
        by (rule points_mono) (rule conforms_trans [OF ct kk(3)], simp_all add: prim(1) [OF kk(1)])
      then show thesis by (rule that(2) [OF kk(1)])
    qed
  qed
  then show ?thesis
  proof cases
    case 1
    then show ?thesis using holds_zero h holds_null [OF refs(1)] by metis
  next
    case 2
    then show ?thesis using class_type_holds [OF ct check] prim(1) by blast
  qed
qed

lemma reference_class_in_cache:
  assumes "cache_ok ct es" "t \<in> set es" "IsReferenceTypes (kind t)" "klass_of (kind t) = Some k"
  shows "\<not> IsPrimitiveClass k"
  using in_cache(3) [OF assms(1,2)] assms(3,4) by (cases "kind t") (auto simp: entry_ok_def kind_defs)

lemma AssignableFrom_reference:
  assumes "AssignableFrom ct lhs rhs strict = Some True" "\<not> Equals lhs rhs" "IsReferenceTypes (kind lhs)"
  shows "IsReferenceTypes (kind rhs) \<and>
     (IsZero (kind rhs) \<or> IsJavaLangObject ct (kind lhs) \<or> (\<exists>k. klass_of (kind lhs) = Some k \<and> IsInterface ct k) \<or>
      IsJavaLangObjectArray ct (kind lhs) \<and> IsObjectArrayTypes (kind rhs) \<or>
      (\<exists>k k'. klass_of (kind lhs) = Some k \<and> klass_of (kind rhs) = Some k' \<and> IsAssignableFrom ct k k' = Some True))"
proof -
  have zero: "IsZero t \<Longrightarrow> IsReferenceTypes t" for t by (simp add: kind_defs)
  have "\<not> (kind lhs \<in> {BooleanType, ByteType, ShortType, CharType, IntegerType, FloatType, LongLoType, DoubleLoType, ConflictType})"
    using assms(3) by (auto simp: kind_defs)
  then show ?thesis
    using assms zero [of "kind rhs"]
    by (auto simp: AssignableFrom_def Let_def bind_eq_Some_conv split: if_splits option.splits)
qed

lemma AssignableFrom_sound:
  assumes ct: "class_ok ct" and ok: "cache_ok ct es" "lhs \<in> set es" "rhs \<in> set es"
    and check: "check_type ct (kind lhs)" and asg: "AssignableFrom ct lhs rhs strict = Some True"
    and h: "holds ct cls (kind rhs) v r"
  shows "holds ct cls (kind lhs) v r"
proof (cases "Equals lhs rhs")
  case True
  then show ?thesis using same_entry [OF ok] h by simp
next
  case False
  show ?thesis
  proof (cases "IsReferenceTypes (kind lhs)")
    case True
    show ?thesis
      using AssignableFrom_reference [OF asg False True] reference_class_in_cache [OF ok(1,2) True]
        reference_class_in_cache [OF ok(1,3)]
      by (intro reference_assignable_sound [OF ct check h True]) blast+
  next
    case prim: False
    then have "kind lhs \<in> {BooleanType, ByteType, ShortType, CharType, IntegerType, FloatType, LongLoType, DoubleLoType}"
      using check by (cases "kind lhs") (auto simp: check_type_def kind_defs)
    then show ?thesis
      using asg False integral_holds [OF h] wide_holds [OF h]
      by (auto simp: AssignableFrom_def Let_def)
        (auto simp: kind_defs)
  qed
qed

section \<open>The other operations on the cache\<close>

lemma keeps_primitive:
  assumes "cache_ok ct es"
  shows "keeps_cache ct es (RegTypeFromPrimitiveType p, es)" "keeps_cache ct es (Conflict, es)"
    "keeps_cache ct es (LongHiReg, es)" "keeps_cache ct es (DoubleHiReg, es)"
  using primitives_in_cache [OF assms] assms by (cases p; simp add: keeps_refl)+

lemma keeps_FromClass_any:
  assumes "cache_ok ct es" "length es < 2 ^ 16"
  shows "keeps_cache ct es (FromClass ct es d k p)"
proof (cases "IsPrimitiveClass k")
  case True
  then show ?thesis using keeps_primitive(1) [OF assms(1)] by (cases k) (simp_all add: FromClass_def)
next
  case False
  then show ?thesis by (rule keeps_FromClass [OF assms])
qed

lemma keeps_From:
  assumes "cache_ok ct es" "length es < 2 ^ 16" "\<And>k. ResolveClass d = Some k \<Longrightarrow> \<not> IsPrimitiveClass k"
    "From ResolveClass ct es d p = Some res"
  shows "keeps_cache ct es res"
proof (cases "find_entry es (MatchDescriptor ct d p)")
  case None
  then show ?thesis
    using assms keeps_primitive(2) [OF assms(1)]
    by (auto simp: From_def entry_ok_def bind_eq_Some_conv split: option.splits intro!: keeps_AddEntry)
next
  case (Some e)
  then show ?thesis using assms by (auto simp: From_def elim!: find_entry_Some intro!: keeps_refl)
qed

lemma keeps_FromDescriptor:
  assumes "cache_ok ct es" "length es < 2 ^ 16" "\<And>k. ResolveClass d = Some k \<Longrightarrow> \<not> IsPrimitiveClass k"
    "FromDescriptor ResolveClass ct es d p = Some res"
  shows "keeps_cache ct es res"
  using assms(4) keeps_From [OF assms(1-3)] primitives_in_cache [OF assms(1)] assms(1)
  by (auto simp: FromDescriptor_def keeps_refl split: list.splits if_splits)

lemma resolved_index:
  assumes "cache_ok ct es" "t \<in> set es" "resolved_entry ct k (kind t)"
  shows "\<exists>j < length es. primitive_count \<le> j \<and> resolved_entry ct k (kind (es ! j))"
proof -
  have "\<not> unat (cache_id t) < primitive_count"
  proof
    assume "unat (cache_id t) < primitive_count"
    then have "es ! unat (cache_id t) = FillPrimitiveAndSmallConstantTypes ! unat (cache_id t)"
      using assms(1) by (metis cache_ok_def nth_take)
    then have "t \<in> set FillPrimitiveAndSmallConstantTypes"
      using in_cache(2) [OF assms(1,2)] \<open>unat (cache_id t) < primitive_count\<close> by (metis Fill_length nth_mem)
    then show False using assms(3) by (auto simp: Fill_list primitive_regs resolved_entry_def)
  qed
  then show ?thesis using in_cache [OF assms(1,2)] assms(3) by (intro exI [of _ "unat (cache_id t)"]) auto
qed

lemma keeps_Uninitialized:
  assumes ok: "cache_ok ct es" "length es < 2 ^ 16" "t \<in> set es"
    and t: "IsUnresolvedTypes (kind t) \<or> (\<exists>k. resolved_entry ct k (kind t))"
  shows "\<exists>res. Uninitialized es t pc = Some res \<and> keeps_cache ct es res"
    "\<exists>res. UninitializedThisArgument es t = Some res \<and> keeps_cache ct es res"
proof -
  have unresolved: "entry_ok ct es (length es) (UnresolvedUninitializedRefType d pc)"
    "entry_ok ct es (length es) (UnresolvedUninitializedThisRefType d)" for d by (simp_all add: entry_ok_def)
  have resolved: "klass_of (kind t) = Some k \<and> entry_ok ct es (length es) (UninitializedReferenceType k d pc) \<and>
      entry_ok ct es (length es) (UninitializedThisReferenceType k d)" if k: "resolved_entry ct k (kind t)" for k d
  proof -
    have "klass_of (kind t) = Some k \<and> \<not> IsPrimitiveClass k"
      using k in_cache(3) [OF ok(1,3)] by (cases "kind t") (auto simp: resolved_entry_def entry_ok_def)
    then show ?thesis using resolved_index [OF ok(1,3) k] by (simp add: entry_ok_def)
  qed
  have "(\<exists>res. Uninitialized es t pc = Some res \<and> keeps_cache ct es res) \<and>
      (\<exists>res. UninitializedThisArgument es t = Some res \<and> keeps_cache ct es res)"
  proof (cases "IsUnresolvedTypes (kind t)")
    case True
    then show ?thesis
      using unresolved ok(1,2) by (simp add: Uninitialized_def UninitializedThisArgument_def keeps_find_or_add)
  next
    case False
    then obtain k where k: "resolved_entry ct k (kind t)" using t by blast
    show ?thesis
      using False resolved [OF k] ok(1,2)
      by (simp add: Uninitialized_def UninitializedThisArgument_def keeps_find_or_add)
  qed
  then show "\<exists>res. Uninitialized es t pc = Some res \<and> keeps_cache ct es res"
    "\<exists>res. UninitializedThisArgument es t = Some res \<and> keeps_cache ct es res" by simp_all
qed

lemma keeps_FromUninitialized:
  assumes ok: "cache_ok ct es" "length es < 2 ^ 16" "t \<in> set es" and t: "IsUninitializedTypes (kind t)"
  shows "\<exists>res. FromUninitialized ct es t = Some res \<and> keeps_cache ct es res \<and> \<not> IsUninitializedTypes (kind (fst res))"
proof -
  have initialized: "IsReference e \<Longrightarrow> \<not> IsUninitializedTypes e" "IsPreciseReference e \<Longrightarrow> \<not> IsUninitializedTypes e" for e
    by (cases e; simp add: kind_defs)+
  have unresolved: "\<not> IsUninitializedTypes (kind (fst (find_or_add es (\<lambda>e. e = UnresolvedReferenceType d) (UnresolvedReferenceType d))))" for d
    using find_or_add_kind [of "\<lambda>e. e = UnresolvedReferenceType d" "UnresolvedReferenceType d" es] by (simp add: kind_defs)
  have ref: "\<not> IsUninitializedTypes (kind (fst (find_or_add es (\<lambda>e. IsReference e \<and> klass_of e = Some k) (ReferenceType k d))))" for k d
    using find_or_add_kind [of "\<lambda>e. IsReference e \<and> klass_of e = Some k" "ReferenceType k d" es] initialized
    by (simp add: IsReference_def)
  have precise: "\<not> IsUninitializedTypes (kind (fst (find_or_add es (\<lambda>e. IsPreciseReference e \<and> klass_of e = Some k) (PreciseReferenceType k d))))" for k d
    using find_or_add_kind [of "\<lambda>e. IsPreciseReference e \<and> klass_of e = Some k" "PreciseReferenceType k d" es] initialized
    by (simp add: IsPreciseReference_def)
  have conflict: "\<not> IsUninitializedTypes (kind Conflict)" by (simp add: kind_defs)
  show ?thesis
  proof (cases "IsUnresolvedTypes (kind t)")
    case True
    then show ?thesis using ok unresolved by (simp add: FromUninitialized_def keeps_find_or_add entry_ok_def)
  next
    case False
    then obtain k where k: "klass_of (kind t) = Some k" "\<not> IsPrimitiveClass k"
      using t in_cache(3) [OF ok(1,3)] by (cases "kind t") (auto simp: kind_defs entry_ok_def)
    then show ?thesis
      using False ok ref precise conflict keeps_primitive(2) [OF ok(1)]
      by (simp add: FromUninitialized_def keeps_find_or_add entry_ok_def)
  qed
qed

lemma keeps_HighHalf: "cache_ok ct es \<Longrightarrow> length es < 2 ^ 16 \<Longrightarrow> keeps_cache ct es (HighHalf es t)"
  by (simp add: HighHalf_def keeps_primitive keeps_constants)

lemma keeps_GetSuperType:
  assumes "cache_ok ct es" "length es < 2 ^ 16" "GetSuperType ct es t = Some res"
  shows "keeps_cache ct es res"
  using assms keeps_FromClass_any [OF assms(1,2)] keeps_constants(1) [OF assms(1,2)]
  by (auto simp: GetSuperType_def JavaLangObject_def FromUnresolvedSuperClass_def Zero_def entry_ok_def
      bind_eq_Some_conv split: option.splits if_splits intro!: keeps_find_or_add)

lemma keeps_GetComponentRegType:
  assumes "cache_ok ct es" "length es < 2 ^ 16" "\<And>d k. ResolveClass d = Some k \<Longrightarrow> \<not> IsPrimitiveClass k"
    "GetComponentRegType ResolveClass ct es t = Some res"
  shows "keeps_cache ct es res"
proof -
  have "keeps_cache ct es res" if "FromDescriptor ResolveClass ct es d p = Some res" for d p
    by (rule keeps_FromDescriptor [OF assms(1,2) _ that]) (rule assms(3))
  moreover have "keeps_cache ct es res" if "FromClass ct es d k p = res" for d k p
    using keeps_FromClass_any [OF assms(1,2)] that by blast
  ultimately show ?thesis
    using assms(4) keeps_primitive(2) [OF assms(1)]
    by (auto simp: GetComponentRegType_def bind_eq_Some_conv split: if_splits)
qed

lemma keeps_DetermineCat1Constant:
  "cache_ok ct es \<Longrightarrow> length es < 2 ^ 16 \<Longrightarrow> keeps_cache ct es (DetermineCat1Constant es v p)"
  by (simp add: DetermineCat1Constant_def constant_kinds keeps_constants)

lemma DetermineCat1Constant_holds: "holds ct cls (kind (fst (DetermineCat1Constant es v p))) v 0"
proof -
  have "v = 0" if "sint v = 0" using that by (simp add: signed_eq_0_iff)
  moreover have "v = 1" if "sint v = 1" using arg_cong [OF that, of "word_of_int :: int \<Rightarrow> u32"] by simp
  ultimately show ?thesis
    by (simp add: DetermineCat1Constant_def constant_kinds kind_constants) (auto simp: alike_def in_range_def)
qed

text \<open>
  The merge of \<^verbatim>\<open>java.lang.Object\<close> and an object whose constructor has not been called is the initialized
  \<^verbatim>\<open>java.lang.Object\<close>.
\<close>

lemma merge_uninitialized_with_object:
  assumes "class_ok ct" "cache_ok ct es" "kind a = ReferenceType (Object ct) d" "kind b = UninitializedReferenceType k d' pc"
  shows "\<exists>res. Merge ct es a b = Some res \<and> resolved_entry ct (Object ct) (kind (fst res))"
proof -
  have "Merge ct es a b = Some (JavaLangObject ct es False)"
    using assms(3,4) object_class_iff [OF assms(1)]
    by (simp add: Merge_def merge_references_def kind_defs IsJavaLangObject_def)
  then show ?thesis using FromClass_imprecise [OF assms(2)] by (simp add: JavaLangObject_def)
qed

text \<open>The identifier of the 65537th type is that of \<^const>\<open>Undefined\<close>.\<close>

lemma cache_id_wraps: "length es = 2 ^ 16 \<Longrightarrow> Equals (fst (AddEntry es t)) Undefined"
  by (simp add: AddEntry_def Equals_def Undefined_def Let_def of_nat_eq_0_iff word_of_nat_eq_0_iff)

section \<open>An example\<close>

definition sample_cache :: cache where
  "sample_cache = FillPrimitiveAndSmallConstantTypes @
     [\<lparr>cache_id = 18, kind = ReferenceType (Plain 2) []\<rparr>, \<lparr>cache_id = 19, kind = PreciseReferenceType (Plain 3) []\<rparr>]"

lemma sample_cache_ok: "cache_ok (sample_classes 0) sample_cache"
proof -
  let ?a = "ReferenceType (Plain 2) []" and ?b = "PreciseReferenceType (Plain 3) []"
  have "keeps_cache (sample_classes 0) FillPrimitiveAndSmallConstantTypes (AddEntry FillPrimitiveAndSmallConstantTypes ?a)"
    using initial_cache_ok by (intro keeps_AddEntry) (simp_all add: entry_ok_def Fill_length primitive_count_def)
  then have "cache_ok (sample_classes 0) (snd (AddEntry FillPrimitiveAndSmallConstantTypes ?a))" by (simp add: keeps_cache_def)
  then have "keeps_cache (sample_classes 0) (snd (AddEntry FillPrimitiveAndSmallConstantTypes ?a))
      (AddEntry (snd (AddEntry FillPrimitiveAndSmallConstantTypes ?a)) ?b)"
    by (intro keeps_AddEntry) (simp_all add: entry_ok_def Fill_length primitive_count_def AddEntry_def Let_def)
  then show ?thesis
    by (simp add: keeps_cache_def AddEntry_def Let_def sample_cache_def Fill_length primitive_count_def)
qed

end
