(* ===== verification/VerifierSafety.thy ===== *)
theory VerifierSafety
  imports MethodVerifier RegTypeSafety Interpreter
begin

text \<open>
  The types the verifier gives the registers describe what the interpreter writes to them: if the
  line of an instruction describes the frame and the verifier accepts the instruction without a failure,
  then the new line describes the frame after the instruction.
\<close>

section \<open>Typed frames\<close>

definition registers_typed ::
  "class_table \<Rightarrow> (u32 \<Rightarrow> klass option) \<Rightarrow> cache \<Rightarrow> u16 list \<Rightarrow> shadow_frame \<Rightarrow> bool" where
  "registers_typed ct cls entries ids sf \<longleftrightarrow> cache_ok ct entries \<and>
     length (vregs sf) = length ids \<and> length (references sf) = length ids \<and>
     (\<forall>i < length ids. unat (ids ! i) < length entries \<and>
        holds ct cls (kind (entries ! unat (ids ! i))) (vregs sf ! i) (references sf ! i))"

text \<open>The result register: the value of an object is its reference.\<close>

definition result_typed ::
  "class_table \<Rightarrow> (u32 \<Rightarrow> klass option) \<Rightarrow> cache \<Rightarrow> u16 \<Rightarrow> u16 \<Rightarrow> u64 \<Rightarrow> bool" where
  "result_typed ct cls entries id0 id1 res \<longleftrightarrow>
     unat id0 < length entries \<and> unat id1 < length entries \<and>
     holds ct cls (kind (entries ! unat id0)) (ucast res)
       (if IsReferenceTypes (kind (entries ! unat id0)) then ucast res else 0) \<and>
     holds ct cls (kind (entries ! unat id1)) (ucast (shr res 32)) 0"

definition state_typed ::
  "verifier_config \<Rightarrow> (u32 \<Rightarrow> klass option) \<Rightarrow> verifier \<Rightarrow> register_line \<Rightarrow> 'h istate \<Rightarrow> bool" where
  "state_typed cfg cls v l s \<longleftrightarrow> registers_typed (classes cfg) cls (reg_types v) (line l) (frame s) \<and>
     result_typed (classes cfg) cls (reg_types v) (result0 l) (result1 l) (result_register s)"

lemma failures_Fail [simp]: "failures (Fail cfg e v) \<noteq> failures v" "failures (Fail cfg e v) = failures v \<longleftrightarrow> False"
  by (cases e; simp add: Fail_def)+

lemma GetRegisterType_typed:
  assumes "state_typed cfg cls v l s" "GetRegisterType v l i = Some t"
  shows "i < length (line l)" "t \<in> set (reg_types v)" "holds (classes cfg) cls (kind t) (vregs (frame s) ! i) (references (frame s) ! i)"
  using assms by (auto simp: state_typed_def registers_typed_def GetRegisterType_def GetFromId_def split: if_splits)

lemma registers_typed_update:
  assumes typed: "registers_typed ct cls es ids sf" and t: "t \<in> set es" "holds ct cls (kind t) x r" and i: "i < length ids"
    and sf': "vregs sf' = (vregs sf)[i := x]" "references sf' = (references sf)[i := r]"
  shows "registers_typed ct cls es (ids[i := cache_id t]) sf'"
proof -
  have "cache_ok ct es" using typed by (simp add: registers_typed_def)
  then show ?thesis using assms in_cache [OF _ t(1)] by (simp add: registers_typed_def nth_list_update)
qed

lemma SetRegisterType_ok:
  assumes "SetRegisterType cfg i t v l = Some (ok, v', l')" "failures v' = failures v"
  shows "v' = v" "line l' = (line l)[i := cache_id t]" "result0 l' = result0 l" "result1 l' = result1 l" "ok" "i < length (line l)"
  using assms by (auto simp: SetRegisterType_def ClearAllRegToLockDepths_def split: if_splits)

lemma SetRegisterTypeWide_ok:
  assumes "SetRegisterTypeWide cfg i t t' v l = Some (ok, v', l')" "failures v' = failures v"
  shows "v' = v" "line l' = (line l)[i := cache_id t, Suc i := cache_id t']" "result0 l' = result0 l" "result1 l' = result1 l"
    "CheckWidePair (kind t) (kind t')" "ok" "Suc i < length (line l)"
  using assms by (auto simp: SetRegisterTypeWide_def ClearAllRegToLockDepths_def split: if_splits)

lemma set_float_vreg: "set_vreg_float = set_vreg" "set_vreg_double = set_vreg_long" "GetVRegFloat = GetVReg"
  "GetVRegDouble = GetVRegLong"
  by (intro ext; simp add: set_vreg_float_def set_vreg_def SetVReg_def SetVRegFloat_def set_vreg_double_def
      set_vreg_long_def SetVRegLong_def SetVRegDouble_def frame_reads)+

lemma set_typed:
  assumes typed: "state_typed cfg cls v l s" and set: "SetRegisterType cfg i t v l = Some (ok, v', l')" "failures v' = failures v"
    and t: "t \<in> set (reg_types v)"
  shows "set_vreg s i x = Some s' \<Longrightarrow> holds (classes cfg) cls (kind t) x 0 \<Longrightarrow> state_typed cfg cls v' l' s'"
    "set_vreg_ref s i x = Some s' \<Longrightarrow> holds (classes cfg) cls (kind t) x x \<Longrightarrow> state_typed cfg cls v' l' s'"
  using typed SetRegisterType_ok [OF set] t
  by (auto simp: state_typed_def set_vreg_def set_vreg_ref_def SetVReg_def SetVRegReference_def split: if_splits
      intro!: registers_typed_update)

lemma set_wide_typed:
  assumes typed: "state_typed cfg cls v l s" and set: "SetRegisterTypeWide cfg i t t' v l = Some (ok, v', l')" "failures v' = failures v"
    and t: "t \<in> set (reg_types v)" "t' \<in> set (reg_types v)"
    and put: "set_vreg_long s i x = Some s'" "holds (classes cfg) cls (kind t) (ucast x) 0"
      "holds (classes cfg) cls (kind t') (ucast (shr x 32)) 0"
  shows "state_typed cfg cls v' l' s'"
proof -
  note wide = SetRegisterTypeWide_ok [OF set]
  let ?mid = "(frame s)\<lparr>vregs := (vregs (frame s))[i := ucast x], references := (references (frame s))[i := 0]\<rparr>"
  have "registers_typed (classes cfg) cls (reg_types v) ((line l)[i := cache_id t]) ?mid"
    by (rule registers_typed_update [of _ _ _ _ "frame s" t "ucast x" 0]) (use typed wide t put in \<open>auto simp: state_typed_def\<close>)
  then have "registers_typed (classes cfg) cls (reg_types v) ((line l)[i := cache_id t, Suc i := cache_id t']) (frame s')"
    by (rule registers_typed_update [of _ _ _ _ ?mid t' "ucast (shr x 32)" 0])
      (use wide t put in \<open>auto simp: set_vreg_long_def SetVRegLong_def split: if_splits\<close>)
  moreover have "result_register s' = result_register s"
    using put(1) by (auto simp: set_vreg_long_def SetVRegLong_def split: if_splits)
  ultimately show ?thesis using typed wide by (simp add: state_typed_def)
qed

section \<open>Moves\<close>

lemma halves:
  "ucast (ucast (a :: u32) OR shl (ucast (b :: u32)) 32 :: u64) = a" "ucast (shr (ucast (a :: u32) OR shl (ucast b) 32 :: u64) 32) = (b :: u32)"
  by (rule bit_word_eqI; auto simp: bit_simps dest: bit_imp_le_length)+

lemma category1_holds: "holds ct cls t x r \<Longrightarrow> IsCategory1Types t \<Longrightarrow> r = 0"
  by (cases t) (auto simp: kind_defs)

lemma reference_holds: "holds ct cls t x r \<Longrightarrow> IsReferenceTypes t \<Longrightarrow> x = r"
  using holds_reference by (auto simp: points_def)

lemma wide_pair_holds:
  assumes "CheckWidePair t t'" "holds ct cls t x r" "holds ct cls t' x' r'"
  shows "r = 0" "r' = 0"
proof -
  have "IsLowHalf t" using assms(1) by (simp add: CheckWidePair_def split: if_splits)
  then show "r = 0" using assms(2) by (cases t) (simp_all add: kind_defs)
  have "IsHighHalf t'" using assms(1) by (auto simp: CheckWidePair_def IsHighHalf_def split: if_splits)
  then show "r' = 0" using assms(3) by (cases t') (simp_all add: kind_defs)
qed

lemma state_typed_line:
  "state_typed cfg cls v l s \<Longrightarrow> line l' = line l \<Longrightarrow> result0 l' = result0 l \<Longrightarrow> result1 l' = result1 l \<Longrightarrow>
   state_typed cfg cls v l' s"
  by (simp add: state_typed_def)

lemma CopyRegister1_ok:
  assumes "CopyRegister1 cfg a b cat v l = Some (v', l')" "failures v' = failures v"
  obtains t l1 where "GetRegisterType v l b = Some t" "SetRegisterType cfg a t v l = Some (True, v', l1)"
    "line l' = line l1" "result0 l' = result0 l1" "result1 l' = result1 l1"
    "cat = kTypeCategory1nr \<longrightarrow> IsCategory1Types (kind t)" "cat = kTypeCategoryRef \<longrightarrow> IsReferenceTypes (kind t)"
proof -
  obtain t ok v1 l1 where t: "GetRegisterType v l b = Some t" and set: "SetRegisterType cfg a t v l = Some (ok, v1, l1)"
    using assms(1) by (auto simp: CopyRegister1_def bind_eq_Some_conv)
  have fail: "ok" if "failures v1 = failures v" using SetRegisterType_ok(5) [OF set that] .
  have grow: "failures v1 = failures v \<or> (\<exists>e. failures v1 = failures v @ [e])"
    using set by (auto simp: SetRegisterType_def Fail_def split: if_splits)
  have "v' = v1 \<and> ok \<and> (cat = kTypeCategory1nr \<longrightarrow> IsCategory1Types (kind t)) \<and>
      (cat = kTypeCategoryRef \<longrightarrow> IsReferenceTypes (kind t)) \<and> (l' = l1 \<or> l' = CopyRegToLockDepth a b l1)"
    using assms t set fail grow by (auto simp: CopyRegister1_def Fail_def split: if_splits)
  then show thesis
    using that [OF t, of l1] set by (auto simp: CopyRegToLockDepth_def split: option.splits)
qed

lemma CopyRegister1_typed:
  assumes typed: "state_typed cfg cls v l s" and copy: "CopyRegister1 cfg a b cat v l = Some (v', l')" "failures v' = failures v"
    and move: "cat = kTypeCategory1nr \<and> move_vreg s a b = Some s' \<or> cat = kTypeCategoryRef \<and> move_vreg_ref s a b = Some s'"
  shows "state_typed cfg cls v' l' s'"
proof -
  obtain t l1 where t: "GetRegisterType v l b = Some t" "SetRegisterType cfg a t v l = Some (True, v', l1)"
    and l1: "line l' = line l1" "result0 l' = result0 l1" "result1 l' = result1 l1"
    and cat: "cat = kTypeCategory1nr \<longrightarrow> IsCategory1Types (kind t)" "cat = kTypeCategoryRef \<longrightarrow> IsReferenceTypes (kind t)"
    by (rule CopyRegister1_ok [OF copy])
  note src = GetRegisterType_typed [OF typed t(1)]
  have "state_typed cfg cls v' l1 s'"
    using move
  proof
    assume m: "cat = kTypeCategory1nr \<and> move_vreg s a b = Some s'"
    then have "set_vreg s a (vregs (frame s) ! b) = Some s'"
      by (auto simp: move_vreg_def GetVReg_def split: if_splits)
    moreover have "references (frame s) ! b = 0" using category1_holds [OF src(3)] cat m by blast
    ultimately show ?thesis using set_typed(1) [OF typed t(2) copy(2) src(2)] src(3) by simp
  next
    assume m: "cat = kTypeCategoryRef \<and> move_vreg_ref s a b = Some s'"
    then have "set_vreg_ref s a (references (frame s) ! b) = Some s'"
      by (auto simp: move_vreg_ref_def GetVRegReference_def split: if_splits)
    moreover have "vregs (frame s) ! b = references (frame s) ! b" using reference_holds [OF src(3)] cat m by blast
    ultimately show ?thesis using set_typed(2) [OF typed t(2) copy(2) src(2)] src(3) by simp
  qed
  then show ?thesis using l1 by (rule state_typed_line)
qed

lemma CopyRegister2_typed:
  assumes typed: "state_typed cfg cls v l s" and copy: "CopyRegister2 cfg a b v l = Some (v', l')" "failures v' = failures v"
    and move: "move_vreg_long s a b = Some s'"
  shows "state_typed cfg cls v' l' s'"
proof -
  obtain t t' ok where t: "GetRegisterType v l b = Some t" "GetRegisterType v l (Suc b) = Some t'"
    and set: "CheckWidePair (kind t) (kind t')" "SetRegisterTypeWide cfg a t t' v l = Some (ok, v', l')"
    using copy by (auto simp: CopyRegister2_def bind_eq_Some_conv split: if_splits)
  note lo = GetRegisterType_typed [OF typed t(1)] and hi = GetRegisterType_typed [OF typed t(2)]
  note zero = wide_pair_holds [OF set(1) lo(3) hi(3)]
  let ?x = "ucast (vregs (frame s) ! b) OR shl (ucast (vregs (frame s) ! Suc b)) 32 :: u64"
  have put: "set_vreg_long s a ?x = Some s'"
    using move by (auto simp: move_vreg_long_def GetVRegLong_def split: if_splits)
  have "holds (classes cfg) cls (kind t) (ucast ?x) 0" "holds (classes cfg) cls (kind t') (ucast (shr ?x 32)) 0"
    using lo(3) hi(3) unfolding zero halves .
  then show ?thesis by (rule set_wide_typed [OF typed set(2) copy(2) lo(2) hi(2) put])
qed

lemma undefined_entry:
  assumes "cache_ok ct es"
  shows "0 < length es" "es ! 0 = Undefined"
proof -
  have "length es \<ge> 18" using cache_ok_length [OF assms] by (simp add: primitive_count_def)
  then show "0 < length es" by linarith
  have "Undefined \<in> set es" by (rule primitives_in_cache(1) [OF assms])
  then show "es ! 0 = Undefined" using in_cache(2) [OF assms, of Undefined] by (simp add: Undefined_def)
qed

lemma result_undefined: "cache_ok ct es \<Longrightarrow> result_typed ct cls es (cache_id Undefined) (cache_id Undefined) res"
  using undefined_entry by (simp add: result_typed_def primitive_regs)

lemma state_cache_ok: "state_typed cfg cls v l s \<Longrightarrow> cache_ok (classes cfg) (reg_types v)"
  by (simp add: state_typed_def registers_typed_def)

lemma CopyResultRegister1_typed:
  assumes typed: "state_typed cfg cls v l s" and copy: "CopyResultRegister1 cfg a ref v l = Some (v', l')" "failures v' = failures v"
    and move: "\<not> ref \<and> set_vreg s a (ucast (result_register s)) = Some s' \<or> ref \<and> set_vreg_ref s a (ucast (result_register s)) = Some s'"
  shows "state_typed cfg cls v' l' s'"
proof -
  note ok = state_cache_ok [OF typed]
  let ?t = "reg_types v ! unat (result0 l)" and ?x = "ucast (result_register s) :: u32"
  have res: "unat (result0 l) < length (reg_types v)" "unat (result1 l) < length (reg_types v)"
    "holds (classes cfg) cls (kind ?t) ?x (if IsReferenceTypes (kind ?t) then ?x else 0)"
    "holds (classes cfg) cls (kind (reg_types v ! unat (result1 l))) (ucast (shr (result_register s) 32)) 0"
    using typed by (auto simp: state_typed_def result_typed_def)
  obtain ok1 l1 where set: "SetRegisterType cfg a ?t v l = Some (ok1, v', l1)" and l': "l' = l1\<lparr>result0 := cache_id Undefined\<rparr>"
    and kinds: "ref \<longrightarrow> IsReferenceTypes (kind ?t)" "\<not> ref \<longrightarrow> IsCategory1Types (kind ?t)"
    using copy res(1) by (auto simp: CopyResultRegister1_def GetFromId_def bind_eq_Some_conv split: if_splits)
  have t: "?t \<in> set (reg_types v)" using res(1) by simp
  have "state_typed cfg cls v' l1 s'"
    using move
  proof
    assume m: "\<not> ref \<and> set_vreg s a ?x = Some s'"
    then have "(if IsReferenceTypes (kind ?t) then ?x else 0) = 0" using category1_holds [OF res(3)] kinds(2) by blast
    then show ?thesis using set_typed(1) [OF typed set copy(2) t] res(3) m by auto
  next
    assume m: "ref \<and> set_vreg_ref s a ?x = Some s'"
    then show ?thesis using set_typed(2) [OF typed set copy(2) t] res(3) kinds(1) by auto
  qed
  then show ?thesis
    using l' undefined_entry [OF ok] SetRegisterType_ok [OF set copy(2)]
    by (simp add: state_typed_def result_typed_def primitive_regs)
qed

lemma CopyResultRegister2_typed:
  assumes typed: "state_typed cfg cls v l s" and copy: "CopyResultRegister2 cfg a v l = Some (v', l')" "failures v' = failures v"
    and move: "set_vreg_long s a (result_register s) = Some s'"
  shows "state_typed cfg cls v' l' s'"
proof -
  note ok = state_cache_ok [OF typed]
  let ?t = "reg_types v ! unat (result0 l)" and ?t' = "reg_types v ! unat (result1 l)" and ?x = "result_register s"
  have res: "unat (result0 l) < length (reg_types v)" "unat (result1 l) < length (reg_types v)"
    "holds (classes cfg) cls (kind ?t) (ucast ?x) (if IsReferenceTypes (kind ?t) then ucast ?x else 0)"
    "holds (classes cfg) cls (kind ?t') (ucast (shr ?x 32)) 0"
    using typed by (auto simp: state_typed_def result_typed_def)
  obtain ok1 l1 where set: "SetRegisterTypeWide cfg a ?t ?t' v l = Some (ok1, v', l1)"
    and l': "l' = l1\<lparr>result0 := cache_id Undefined, result1 := cache_id Undefined\<rparr>" and low: "IsLowHalf (kind ?t)"
    using copy res(1,2) by (auto simp: CopyResultRegister2_def GetFromId_def bind_eq_Some_conv IsCategory2Types_def split: if_splits)
  have "\<not> IsReferenceTypes (kind ?t)" using low by (cases "kind ?t") (simp_all add: kind_defs)
  then have "state_typed cfg cls v' l1 s'"
    using res by (intro set_wide_typed [OF typed set copy(2) _ _ move]) simp_all
  then show ?thesis
    using l' result_undefined [OF ok] SetRegisterTypeWide_ok [OF set copy(2)] by (simp add: state_typed_def)
qed

section \<open>Constants\<close>

lemma cache_extends:
  assumes "keeps_cache ct es (t, es')"
  shows "cache_ok ct es'" "t \<in> set es'" "length es \<le> length es'" "i < length es \<Longrightarrow> es' ! i = es ! i"
proof -
  have take: "take (length es) es' = es" using assms by (simp add: keeps_cache_def)
  show "cache_ok ct es'" "t \<in> set es'" using assms by (simp_all add: keeps_cache_def)
  show "length es \<le> length es'" using arg_cong [OF take, of length] by simp
  show "es' ! i = es ! i" if "i < length es" using take that by (metis nth_take)
qed

lemma state_typed_extend:
  assumes "state_typed cfg cls v l s" "keeps_cache (classes cfg) (reg_types v) (t, es')"
  shows "state_typed cfg cls (v\<lparr>reg_types := es'\<rparr>) l s"
  using assms(1) cache_extends [OF assms(2)]
  by (auto simp: state_typed_def registers_typed_def result_typed_def intro: less_le_trans)

lemma set_const_vreg: "set_const s dst val = set_vreg s dst val"
  by (auto simp: set_const_def set_vreg_def set_vreg_ref_def SetVReg_def SetVRegReference_def NumberOfVRegs_def)

lemma set_constant_typed:
  assumes typed: "state_typed cfg cls v l s" and room: "length (reg_types v) < 2 ^ 16"
    and check: "set_constant cfg a x v l = Some (v', l')" "failures v' = failures v" and put: "set_vreg s a x = Some s'"
  shows "state_typed cfg cls v' l' s'"
proof -
  obtain t es' where t: "DetermineCat1Constant (reg_types v) x (need_precise_constants cfg) = (t, es')" by fastforce
  have keeps: "keeps_cache (classes cfg) (reg_types v) (t, es')"
    using keeps_DetermineCat1Constant [OF state_cache_ok [OF typed] room] t by metis
  obtain ok1 where set: "SetRegisterType cfg a t (v\<lparr>reg_types := es'\<rparr>) l = Some (ok1, v', l')"
    using check t by (auto simp: set_constant_def)
  have "holds (classes cfg) cls (kind t) x 0"
    using DetermineCat1Constant_holds [of "classes cfg" cls "reg_types v" x "need_precise_constants cfg"] t by simp
  then show ?thesis
    using cache_extends(2) [OF keeps] check(2) put
    by (intro set_typed(1) [OF state_typed_extend [OF typed keeps] set]) simp_all
qed

lemma set_wide_constant_typed:
  assumes typed: "state_typed cfg cls v l s" and room: "length (reg_types v) + 2 \<le> 2 ^ 16"
    and check: "set_wide_constant cfg a x v l = Some (v', l')" "failures v' = failures v" and put: "set_vreg_long s a x = Some s'"
  shows "state_typed cfg cls v' l' s'"
proof -
  obtain t es1 where t: "FromCat2ConstLo (reg_types v) (ucast x) True = (t, es1)" by fastforce
  obtain t' es2 where t': "FromCat2ConstHi es1 (ucast (sshr x 32)) True = (t', es2)" by fastforce
  have "length (reg_types v) < 2 ^ 16" using room by simp
  then have keeps: "keeps_cache (classes cfg) (reg_types v) (t, es1)"
    using keeps_constants(2) [OF state_cache_ok [OF typed]] t by metis
  have "length es1 \<le> length (reg_types v) + 1"
    using t by (auto simp: FromCat2ConstLo_def find_or_add_def AddEntry_def Let_def split: option.splits)
  then have keeps': "keeps_cache (classes cfg) es1 (t', es2)"
    using keeps_constants(3) [OF cache_extends(1) [OF keeps]] t' room by (metis Suc_eq_plus1 add_2_eq_Suc' less_eq_Suc_le order.trans Suc_le_mono)
  obtain ok1 where set: "SetRegisterTypeWide cfg a t t' (v\<lparr>reg_types := es2\<rparr>) l = Some (ok1, v', l')"
    using check t t' by (auto simp: set_wide_constant_def)
  have ext: "state_typed cfg cls (v\<lparr>reg_types := es2\<rparr>) l s"
    using state_typed_extend [OF state_typed_extend [OF typed keeps], of t' es2] keeps' by simp
  have "t \<in> set es2" using cache_extends(2) [OF keeps] cache_extends(3,4) [OF keeps']
    by (metis in_set_conv_nth less_le_trans)
  moreover have "kind t = PreciseConstLoType (ucast x)" "kind t' = PreciseConstHiType (ucast (sshr x 32))"
    using kind_FromCat2ConstLo [of "reg_types v" "ucast x" True] kind_FromCat2ConstHi [of es1 "ucast (sshr x 32)" True] t t' by simp_all
  moreover have "ucast (sshr x 32) = (ucast (shr x 32) :: u32)"
    by (rule bit_word_eqI) (auto simp: bit_simps)
  ultimately show ?thesis
    using cache_extends(2) [OF keeps'] check(2) by (intro set_wide_typed [OF ext set _ _ _ put]) simp_all
qed

lemma const_4_value: "sshr (shl (scast (VRegB_11n d)) 28) 28 = (scast (VRegB_11n d) :: u32)"
  by (rule bit_word_eqI) (auto simp: VRegB_11n_def InstB_def bit_simps)

section \<open>Operators\<close>

text \<open>A check leaves the verifier and the line alone or records a failure.\<close>

definition pure_check :: "verifier \<Rightarrow> register_line \<Rightarrow> bool checked \<Rightarrow> bool" where
  "pure_check v l c \<longleftrightarrow>
     (\<forall>ok v' l'. c = Some (ok, v', l') \<longrightarrow> (if ok then v' = v \<and> l' = l else \<exists>e. failures v' = failures v @ [e]))"

lemma failures_Fail_grow: "\<exists>e'. failures (Fail cfg e v) = failures v @ [e']"
  by (cases e) (simp_all add: Fail_def)

lemma pure_check_basic [simp]:
  "pure_check v l None" "pure_check v l (Some (True, v, l))" "pure_check v l (Some (False, Fail cfg e v, l'))"
  using failures_Fail_grow by (simp_all add: pure_check_def)

lemma pure_check_if [simp]: "pure_check v l c \<Longrightarrow> pure_check v l d \<Longrightarrow> pure_check v l (if b then c else d)"
  by simp

lemma pure_check_bind [simp]: "(\<And>x. pure_check v l (k x)) \<Longrightarrow> pure_check v l (m \<bind> k)"
  by (cases m) simp_all

lemma pure_VerifyRegisterType: "pure_check v l (VerifyRegisterType cfg i t v l)"
  unfolding VerifyRegisterType_def by (intro pure_check_bind pure_check_if pure_check_basic)

lemma pure_VerifyRegisterTypeWide: "pure_check v l (VerifyRegisterTypeWide cfg i t t' v l)"
  unfolding VerifyRegisterTypeWide_def by (intro pure_check_bind pure_check_if pure_check_basic)

lemma pure_and_then: "pure_check v l c \<Longrightarrow> pure_check v l (k v l) \<Longrightarrow> pure_check v l (and_then c k)"
  by (cases c) (auto simp: pure_check_def and_then_def split: if_splits)

lemmas pure_checks = pure_VerifyRegisterType pure_VerifyRegisterTypeWide pure_and_then

lemma when_ok_continues:
  assumes "pure_check v l c" "when_ok c k = Some (v', l')" "failures v' = failures v"
  obtains ok where "k v l = Some (ok, v', l')"
proof -
  obtain ok0 v0 l0 where c: "c = Some (ok0, v0, l0)"
    using assms(2) by (auto simp: when_ok_def and_then_def bind_eq_Some_conv)
  then have "if ok0 then v0 = v \<and> l0 = l else \<exists>e. failures v0 = failures v @ [e]"
    using assms(1) by (auto simp: pure_check_def)
  then show thesis
    using assms(2,3) c that by (cases ok0) (auto simp: when_ok_def and_then_def)
qed

lemma checked_typed:
  assumes "state_typed cfg cls v l s" "pure_check v l c" "when_ok c (SetRegisterType cfg a t) = Some (v', l')"
    "failures v' = failures v" "t \<in> set (reg_types v)" "set_vreg s a x = Some s'" "holds (classes cfg) cls (kind t) x 0"
  shows "state_typed cfg cls v' l' s'"
  using assms(2-4) by (rule when_ok_continues) (rule set_typed(1) [OF assms(1) _ assms(4-7)])

lemma checked_wide_typed:
  assumes typed: "state_typed cfg cls v l s" and c: "pure_check v l c" "when_ok c (SetRegisterTypeWide cfg a t t') = Some (v', l')"
    "failures v' = failures v" and t: "t = LongLoReg \<and> t' = LongHiReg \<or> t = DoubleLoReg \<and> t' = DoubleHiReg"
    and put: "set_vreg_long s a x = Some s'"
  shows "state_typed cfg cls v' l' s'"
proof -
  note prim = primitives_in_cache [OF state_cache_ok [OF typed]]
  have in_set: "t \<in> set (reg_types v)" "t' \<in> set (reg_types v)" using t prim by auto
  have halves_hold: "holds (classes cfg) cls (kind t) (ucast x) 0" "holds (classes cfg) cls (kind t') (ucast (shr x 32)) 0"
    using t by (auto simp: primitive_regs)
  show ?thesis
    by (rule when_ok_continues [OF c]) (rule set_wide_typed [OF typed _ c(3) in_set put halves_hold])
qed

text \<open>The interpreter writes something to the destination of an operator.\<close>

definition writes :: "'h istate \<Rightarrow> nat \<Rightarrow> 'h istate \<Rightarrow> bool" where
  "writes s a s' \<longleftrightarrow> (\<exists>x. set_vreg s a x = Some s')"

definition writes_long :: "'h istate \<Rightarrow> nat \<Rightarrow> 'h istate \<Rightarrow> bool" where
  "writes_long s a s' \<longleftrightarrow> (\<exists>x. set_vreg_long s a x = Some s')"

lemma unary_writes:
  "unary get set_vreg f d s = Some (s', fl) \<Longrightarrow> writes s (unat (VRegA_12x d)) s'"
  "unary get set_vreg_long g d s = Some (s', fl) \<Longrightarrow> writes_long s (unat (VRegA_12x d)) s'"
  by (auto simp: unary_def exec_defs writes_def writes_long_def bind_eq_Some_conv)

lemma binary_writes:
  "binary get1 get2 set_vreg f nx a b c s = Some (s', fl) \<Longrightarrow> writes s a s'"
  "binary get1 get2 set_vreg_long g nx a b c s = Some (s', fl) \<Longrightarrow> writes_long s a s'"
  by (auto simp: binary_def exec_defs writes_def writes_long_def bind_eq_Some_conv)

lemma compare_writes: "compare_vregs get f i d s = Some (s', fl) \<Longrightarrow> writes s (unat (VRegA_23x d)) s'"
  by (auto simp: compare_vregs_def exec_defs writes_def bind_eq_Some_conv)

lemma literal_writes: "literal f a b s = Some (s', fl) \<Longrightarrow> writes s a s'"
  by (auto simp: literal_def exec_defs writes_def bind_eq_Some_conv)

lemma int_division_writes:
  "int_division (DoIntDivide rt) nx a b c s = Some (s', NextUnits n) \<Longrightarrow> writes s a s'"
  "int_division (DoIntRemainder rt) nx a b c s = Some (s', NextUnits n) \<Longrightarrow> writes s a s'"
  "literal_division (DoIntDivide rt) a b lit s = Some (s', NextUnits n) \<Longrightarrow> writes s a s'"
  "literal_division (DoIntRemainder rt) a b lit s = Some (s', NextUnits n) \<Longrightarrow> writes s a s'"
  by (auto simp: int_division_def literal_division_def DoIntDivide_def DoIntRemainder_def exec_defs writes_def bind_eq_Some_conv
      split: if_splits)

text \<open>The runtime leaves the exception it is asked to throw pending.\<close>

definition throws_pend :: "'h runtime \<Rightarrow> bool" where
  "throws_pend rt \<longleftrightarrow> (\<forall>s. IsExceptionPending (rt_do rt (Throw ArithmeticException) s))"

lemma long_division_writes:
  assumes "throws_pend rt"
  shows "long_division (DoLongDivide rt) nx a b c s = Some (s', NextUnits n) \<Longrightarrow> writes_long s a s'"
    "long_division (DoLongRemainder rt) nx a b c s = Some (s', NextUnits n) \<Longrightarrow> writes_long s a s'"
  using assms by (auto simp: long_division_def DoLongDivide_def DoLongRemainder_def exec_defs writes_long_def bind_eq_Some_conv
      throws_pend_def split: if_splits)

lemmas all_writes = unary_writes binary_writes compare_writes literal_writes int_division_writes

text \<open>A bit of two booleans is a boolean.\<close>

lemma in_range_boolean: "in_range 0 1 x \<longleftrightarrow> x = 0 \<or> x = 1"
proof
  assume "in_range 0 1 x"
  then have "sint x = sint (0 :: u32) \<or> sint x = sint (1 :: u32)" by (auto simp: in_range_def)
  then show "x = 0 \<or> x = 1" using signed_word_eqI by blast
qed (auto simp: in_range_def)

lemma boolean_bits: "x \<in> {0, 1} \<Longrightarrow> y \<in> {0, 1} \<Longrightarrow> z \<in> {x AND y, x OR y, x XOR y} \<Longrightarrow> z = 0 \<or> z = (1 :: u32)"
  by auto

lemma IsBooleanTypes_holds: "holds ct cls t x r \<Longrightarrow> IsBooleanTypes t \<Longrightarrow> x \<in> {0, 1}"
proof -
  assume "holds ct cls t x r" "IsBooleanTypes t"
  then have "in_range 0 1 x" by (cases t) (auto simp: kind_defs ConstantValue_def alike_def in_range_def)
  then show "x \<in> {0, 1}" by (simp add: in_range_boolean)
qed

text \<open>The outcome of an operator's checks, when they succeed, is a type for the destination.\<close>

definition sets :: "verifier_config \<Rightarrow> verifier \<Rightarrow> register_line \<Rightarrow> nat \<Rightarrow> reg_type \<Rightarrow> checks \<Rightarrow> bool" where
  "sets cfg v l a t r \<longleftrightarrow> (\<exists>c. pure_check v l c \<and> r = when_ok c (SetRegisterType cfg a t))"

definition sets_boolean ::
  "verifier_config \<Rightarrow> verifier \<Rightarrow> register_line \<Rightarrow> nat \<Rightarrow> (verifier \<Rightarrow> register_line \<Rightarrow> bool option) \<Rightarrow> checks \<Rightarrow> bool" where
  "sets_boolean cfg v l a both r \<longleftrightarrow>
     (\<exists>c. pure_check v l c \<and> r = when_ok c (set_int_or_boolean cfg a IntegerReg True both))"

definition sets_wide :: "verifier_config \<Rightarrow> verifier \<Rightarrow> register_line \<Rightarrow> nat \<Rightarrow> checks \<Rightarrow> bool" where
  "sets_wide cfg v l a r \<longleftrightarrow> (\<exists>c t t'. pure_check v l c \<and>
     (t = LongLoReg \<and> t' = LongHiReg \<or> t = DoubleLoReg \<and> t' = DoubleHiReg) \<and>
     r = when_ok c (SetRegisterTypeWide cfg a t t'))"

lemma setsI:
  "pure_check v l c \<Longrightarrow> sets cfg v l a t (when_ok c (SetRegisterType cfg a t))"
  "pure_check v l c \<Longrightarrow> sets_boolean cfg v l a both (when_ok c (set_int_or_boolean cfg a IntegerReg True both))"
  "pure_check v l c \<Longrightarrow> sets_wide cfg v l a (when_ok c (SetRegisterTypeWide cfg a LongLoReg LongHiReg))"
  "pure_check v l c \<Longrightarrow> sets_wide cfg v l a (when_ok c (SetRegisterTypeWide cfg a DoubleLoReg DoubleHiReg))"
  by (auto simp: sets_def sets_boolean_def sets_wide_def)

lemma unary_sets:
  "sets cfg v l (unat (VRegA_12x d)) t (CheckUnaryOp cfg d t t1 v l)"
  "sets cfg v l (unat (VRegA_12x d)) t (CheckUnaryOpFromWide cfg d t t1 t2 v l)"
  "sets_wide cfg v l (unat (VRegA_12x d)) (CheckUnaryOpWide cfg d LongLoReg LongHiReg t1 t2 v l)"
  "sets_wide cfg v l (unat (VRegA_12x d)) (CheckUnaryOpWide cfg d DoubleLoReg DoubleHiReg t1 t2 v l)"
  "sets_wide cfg v l (unat (VRegA_12x d)) (CheckUnaryOpToWide cfg d LongLoReg LongHiReg t1 v l)"
  "sets_wide cfg v l (unat (VRegA_12x d)) (CheckUnaryOpToWide cfg d DoubleLoReg DoubleHiReg t1 v l)"
  unfolding CheckUnaryOp_def CheckUnaryOpFromWide_def CheckUnaryOpWide_def CheckUnaryOpToWide_def
  by (intro setsI pure_checks)+

lemma no_boolean_check: "set_int_or_boolean cfg a t False both = SetRegisterType cfg a t"
  by (intro ext) (simp add: set_int_or_boolean_def)

lemma binary_sets:
  "sets cfg v l (unat (VRegA_23x d)) t (CheckBinaryOp cfg i d t t1 t2 False v l)"
  "sets cfg v l (unat (VRegA_12x d)) t (CheckBinaryOp2addr cfg d t t1 t2 False v l)"
  "sets_boolean cfg v l (unat (VRegA_23x d)) (are_boolean (unat (VRegB_23x i)) (unat (VRegC_23x i)))
     (CheckBinaryOp cfg i d IntegerReg t1 t2 True v l)"
  "sets_boolean cfg v l (unat (VRegA_12x d)) (are_boolean (unat (VRegA_12x d)) (unat (VRegB_12x d)))
     (CheckBinaryOp2addr cfg d IntegerReg t1 t2 True v l)"
  unfolding CheckBinaryOp_def CheckBinaryOp2addr_def Let_def no_boolean_check
  by (intro setsI pure_checks)+

lemma binary_sets_wide:
  "sets_wide cfg v l (unat (VRegA_23x d)) (CheckBinaryOpWide cfg i d LongLoReg LongHiReg t1 t2 t3 t4 v l)"
  "sets_wide cfg v l (unat (VRegA_23x d)) (CheckBinaryOpWide cfg i d DoubleLoReg DoubleHiReg t1 t2 t3 t4 v l)"
  "sets_wide cfg v l (unat (VRegA_12x d)) (CheckBinaryOp2addrWide cfg d LongLoReg LongHiReg t1 t2 t3 t4 v l)"
  "sets_wide cfg v l (unat (VRegA_12x d)) (CheckBinaryOp2addrWide cfg d DoubleLoReg DoubleHiReg t1 t2 t3 t4 v l)"
  unfolding CheckBinaryOpWide_def CheckBinaryOp2addrWide_def Let_def
  by (intro setsI pure_checks)+

lemma shift_sets_wide:
  "sets_wide cfg v l (unat (VRegA_23x d)) (CheckBinaryOpWideShift cfg i d LongLoReg LongHiReg t v l)"
  "sets_wide cfg v l (unat (VRegA_12x d)) (CheckBinaryOp2addrWideShift cfg d LongLoReg LongHiReg t v l)"
  unfolding CheckBinaryOpWideShift_def CheckBinaryOp2addrWideShift_def Let_def
  by (intro setsI pure_checks)+

definition literal_boolean :: "nat \<Rightarrow> u32 \<Rightarrow> verifier \<Rightarrow> register_line \<Rightarrow> bool option" where
  "literal_boolean b lit v l = do { t \<leftarrow> GetRegisterType v l b; Some (IsBooleanTypes (kind t) \<and> (lit = 0 \<or> lit = 1)) }"

lemma literal_sets:
  "sets cfg v l (unat (VRegA_22s d)) t (CheckLiteralOp cfg i d t t1 False True v l)"
  "sets cfg v l (unat (VRegA_22b d)) t (CheckLiteralOp cfg i d t t1 False False v l)"
  "sets_boolean cfg v l (unat (VRegA_22s d)) (literal_boolean (unat (VRegB_22s d)) (scast (VRegC_22s i)))
     (CheckLiteralOp cfg i d IntegerReg t1 True True v l)"
  "sets_boolean cfg v l (unat (VRegA_22b d)) (literal_boolean (unat (VRegB_22b i)) (scast (VRegC_22b i)))
     (CheckLiteralOp cfg i d IntegerReg t1 True False v l)"
  unfolding CheckLiteralOp_def Let_def no_boolean_check if_True if_False literal_boolean_def
  by (intro setsI pure_checks)+

lemma sets_typed:
  assumes typed: "state_typed cfg cls v l s" and sets: "sets cfg v l a t (Some (v', l'))" "failures v' = failures v"
    and t: "t \<in> {IntegerReg, FloatReg, ByteReg, CharReg, ShortReg}"
    and put: "set_vreg s a x = Some s'" "holds (classes cfg) cls (kind t) x 0"
  shows "state_typed cfg cls v' l' s'"
proof -
  obtain c where c: "pure_check v l c" "when_ok c (SetRegisterType cfg a t) = Some (v', l')"
    using sets(1) by (auto simp: sets_def)
  have "t \<in> set (reg_types v)" using primitives_in_cache [OF state_cache_ok [OF typed]] t by auto
  then show ?thesis using put by (rule checked_typed [OF typed c sets(2)])
qed

lemma sets_number_typed:
  assumes "state_typed cfg cls v l s" "sets cfg v l a t (Some (v', l'))" "failures v' = failures v"
    "t = IntegerReg \<or> t = FloatReg" "writes s a s'"
  shows "state_typed cfg cls v' l' s'"
proof -
  obtain x where "set_vreg s a x = Some s'" using assms(5) by (auto simp: writes_def)
  then show ?thesis
    by (rule sets_typed [OF assms(1-3), rotated]) (use assms(4) in \<open>auto simp: primitive_regs\<close>)
qed

lemma sets_wide_typed:
  assumes "state_typed cfg cls v l s" "sets_wide cfg v l a (Some (v', l'))" "failures v' = failures v" "writes_long s a s'"
  shows "state_typed cfg cls v' l' s'"
proof -
  obtain x where put: "set_vreg_long s a x = Some s'" using assms(4) by (auto simp: writes_long_def)
  obtain c t t' where "pure_check v l c" "when_ok c (SetRegisterTypeWide cfg a t t') = Some (v', l')"
    "t = LongLoReg \<and> t' = LongHiReg \<or> t = DoubleLoReg \<and> t' = DoubleHiReg"
    using assms(2) by (auto simp: sets_wide_def)
  then show ?thesis using checked_wide_typed [OF assms(1) _ _ assms(3) _ put] by blast
qed

lemma sets_boolean_typed:
  assumes typed: "state_typed cfg cls v l s" and sets: "sets_boolean cfg v l a both (Some (v', l'))" "failures v' = failures v"
    and put: "set_vreg s a x = Some s'" and bool: "both v l = Some True \<Longrightarrow> x = 0 \<or> x = 1"
  shows "state_typed cfg cls v' l' s'"
proof -
  obtain c where c: "pure_check v l c" "when_ok c (set_int_or_boolean cfg a IntegerReg True both) = Some (v', l')"
    using sets(1) by (auto simp: sets_boolean_def)
  obtain ok1 where "set_int_or_boolean cfg a IntegerReg True both v l = Some (ok1, v', l')"
    by (rule when_ok_continues [OF c sets(2)])
  then obtain b where b: "both v l = Some b"
    and set: "SetRegisterType cfg a (if b then BooleanReg else IntegerReg) v l = Some (ok1, v', l')"
    by (auto simp: set_int_or_boolean_def bind_eq_Some_conv)
  have "holds (classes cfg) cls (kind (if b then BooleanReg else IntegerReg)) x 0"
    using b bool by (auto simp: primitive_regs in_range_boolean)
  moreover have "(if b then BooleanReg else IntegerReg) \<in> set (reg_types v)"
    using primitives_in_cache [OF state_cache_ok [OF typed]] by auto
  ultimately show ?thesis using set_typed(1) [OF typed set sets(2)] put by blast
qed

section \<open>The groups of instructions\<close>

lemma exec_cmp_typed:
  assumes "state_typed cfg cls v l s" "verify_cmp op cfg i d v l = Some (v', l')" "failures v' = failures v"
    "exec_cmp op fp i d s = Some (s', NextUnits n)"
  shows "state_typed cfg cls v' l' s'"
proof -
  have w: "writes s (unat (VRegA_23x d)) s'"
    using assms(4) by (auto simp: exec_cmp_def split: if_splits elim: compare_writes)
  have "verify_cmp op cfg i d v l = None \<or> sets cfg v l (unat (VRegA_23x d)) IntegerReg (verify_cmp op cfg i d v l)"
    by (simp add: verify_cmp_def Let_def setsI pure_checks)
  then show ?thesis using sets_number_typed [OF assms(1) _ assms(3)] w assms(2) by simp
qed

lemma narrow_ranges:
  "in_range (-128) 127 (scast (b :: u8))" "in_range (-32768) 32767 (scast (h :: u16))" "in_range 0 65535 (ucast (h :: u16))"
proof -
  have "sint (scast b :: u32) = sint b" "sint (scast h :: u32) = sint h" by (simp_all add: sint_up_scast is_up)
  moreover have "sint (ucast h :: u32) = uint h"
  proof -
    have "- (2 ^ 31) \<le> uint h" by (rule order_trans [OF _ uint_ge_0]) simp
    then have "signed_take_bit 31 (uint h) = uint h"
      using uint_lt2p [of h] by (intro signed_take_bit_int_eq_self) simp_all
    then show ?thesis using uint_lt2p [of h] by (simp add: sint_uint unsigned_ucast_eq take_bit_int_eq_self)
  qed
  ultimately show "in_range (-128) 127 (scast b)" "in_range (-32768) 32767 (scast h)" "in_range 0 65535 (ucast h)"
    using sint_range_size [of b] sint_range_size [of h] uint_lt2p [of h] by (simp_all add: in_range_def word_size)
qed

lemma narrow_typed:
  assumes "state_typed cfg cls v l s" "CheckUnaryOp cfg d t t1 v l = Some (v', l')" "failures v' = failures v"
    "t \<in> {ByteReg, CharReg, ShortReg}" "unary GetVReg set_vreg f d s = Some (s', fl)"
    "\<And>x. holds (classes cfg) cls (kind t) (f x) 0"
  shows "state_typed cfg cls v' l' s'"
proof -
  obtain x where "set_vreg s (unat (VRegA_12x d)) (f x) = Some s'"
    using assms(5) by (auto simp: unary_def exec_defs bind_eq_Some_conv)
  then show ?thesis
    using sets_typed [OF assms(1) _ assms(3)] unary_sets(1) [of cfg v l d t t1] assms(2,4,6) by auto
qed

lemma exec_unop_typed:
  assumes typed: "state_typed cfg cls v l s" and verify: "verify_unop op cfg d v l = Some (v', l')" "failures v' = failures v"
    and exec: "exec_unop op fp d s = Some (s', NextUnits n)"
  shows "state_typed cfg cls v' l' s'"
proof -
  let ?a = "unat (VRegA_12x d)" and ?r = "verify_unop op cfg d v l"
  consider (byte) "op = INT_TO_BYTE" | (char) "op = INT_TO_CHAR" | (short) "op = INT_TO_SHORT"
    | (number) "sets cfg v l ?a IntegerReg ?r \<or> sets cfg v l ?a FloatReg ?r" "writes s ?a s'"
    | (wide) "sets_wide cfg v l ?a ?r" "writes_long s ?a s'"
    using exec unfolding exec_unop_def set_float_vreg
    by (simp add: verify_unop_def unary_sets unary_writes split: if_splits)
  then show ?thesis
  proof cases
    case byte
    then show ?thesis using narrow_typed [OF typed _ verify(2)] exec verify(1)
      by (simp add: exec_unop_def verify_unop_def primitive_regs narrow_ranges)
  next
    case char
    then show ?thesis using narrow_typed [OF typed _ verify(2)] exec verify(1)
      by (simp add: exec_unop_def verify_unop_def primitive_regs narrow_ranges)
  next
    case short
    then show ?thesis using narrow_typed [OF typed _ verify(2)] exec verify(1)
      by (simp add: exec_unop_def verify_unop_def primitive_regs narrow_ranges)
  next
    case number
    then show ?thesis using sets_number_typed [OF typed _ verify(2)] verify(1) by auto
  next
    case wide
    then show ?thesis using sets_wide_typed [OF typed _ verify(2)] verify(1) by simp
  qed
qed

text \<open>The bitwise operators, which keep booleans boolean.\<close>

lemma bitwise_typed:
  assumes typed: "state_typed cfg cls v l s" and sets: "sets_boolean cfg v l a (are_boolean b c) (Some (v', l'))"
    "failures v' = failures v"
    and exec: "int_binary (AND) nx a b c s = Some (s', fl) \<or> int_binary (OR) nx a b c s = Some (s', fl) \<or>
      int_binary (XOR) nx a b c s = Some (s', fl)"
  shows "state_typed cfg cls v' l' s'"
proof -
  obtain x y z where xy: "GetVReg (frame s) b = Some x" "GetVReg (frame s) c = Some y" and put: "set_vreg s a z = Some s'"
    and z: "z \<in> {x AND y, x OR y, x XOR y}"
    using exec by (auto simp: binary_def exec_defs bind_eq_Some_conv)
  show ?thesis
  proof (rule sets_boolean_typed [OF typed sets put])
    assume "are_boolean b c v l = Some True"
    then obtain t u where t: "GetRegisterType v l b = Some t" "IsBooleanTypes (kind t)"
      and u: "GetRegisterType v l c = Some u" "IsBooleanTypes (kind u)"
      by (auto simp: are_boolean_def bind_eq_Some_conv split: if_splits)
    have "x \<in> {0, 1}" "y \<in> {0, 1}"
      using IsBooleanTypes_holds [OF GetRegisterType_typed(3) [OF typed t(1)] t(2)]
        IsBooleanTypes_holds [OF GetRegisterType_typed(3) [OF typed u(1)] u(2)] xy
      by (simp_all add: GetVReg_def split: if_splits)
    then show "z = 0 \<or> z = 1" using z by (rule boolean_bits)
  qed
qed

lemma bitwise_literal_typed:
  assumes typed: "state_typed cfg cls v l s" and sets: "sets_boolean cfg v l a (literal_boolean b lit) (Some (v', l'))"
    "failures v' = failures v"
    and exec: "literal (\<lambda>u. u AND lit) a b s = Some (s', fl) \<or> literal (\<lambda>u. u OR lit) a b s = Some (s', fl) \<or>
      literal (\<lambda>u. u XOR lit) a b s = Some (s', fl)"
  shows "state_typed cfg cls v' l' s'"
proof -
  obtain x z where x: "GetVReg (frame s) b = Some x" and put: "set_vreg s a z = Some s'"
    and z: "z \<in> {x AND lit, x OR lit, x XOR lit}"
    using exec by (auto simp: literal_def exec_defs bind_eq_Some_conv)
  show ?thesis
  proof (rule sets_boolean_typed [OF typed sets put])
    assume "literal_boolean b lit v l = Some True"
    then obtain t where t: "GetRegisterType v l b = Some t" "IsBooleanTypes (kind t)" and lit: "lit \<in> {0, 1}"
      by (auto simp: literal_boolean_def bind_eq_Some_conv)
    have "x \<in> {0, 1}"
      using IsBooleanTypes_holds [OF GetRegisterType_typed(3) [OF typed t(1)] t(2)] x by (simp add: GetVReg_def split: if_splits)
    then show "z = 0 \<or> z = 1" using lit z by (rule boolean_bits)
  qed
qed

lemma exec_int_typed:
  assumes typed: "state_typed cfg cls v l s" and verify: "verify_int op cfg i d v l = Some (v', l')" "failures v' = failures v"
    and exec: "exec_int op rt i d s = Some (s', NextUnits n)"
  shows "state_typed cfg cls v' l' s'"
proof (cases "op \<in> {AND_INT, OR_INT, XOR_INT}")
  case True
  have "int_binary (AND) Next_2xx (unat (VRegA_23x d)) (unat (VRegB_23x i)) (unat (VRegC_23x i)) s = Some (s', NextUnits n) \<or>
      int_binary (OR) Next_2xx (unat (VRegA_23x d)) (unat (VRegB_23x i)) (unat (VRegC_23x i)) s = Some (s', NextUnits n) \<or>
      int_binary (XOR) Next_2xx (unat (VRegA_23x d)) (unat (VRegB_23x i)) (unat (VRegC_23x i)) s = Some (s', NextUnits n)"
    using exec True by (auto simp: exec_int_def Let_def)
  moreover have "sets_boolean cfg v l (unat (VRegA_23x d)) (are_boolean (unat (VRegB_23x i)) (unat (VRegC_23x i))) (Some (v', l'))" using binary_sets(3) [of cfg v l d i IntegerReg IntegerReg] verify(1) True by (auto simp: verify_int_def)
  ultimately show ?thesis using bitwise_typed [OF typed _ verify(2)] by blast
next
  case False
  then have "writes s (unat (VRegA_23x d)) s'"
    using exec by (simp add: exec_int_def Let_def all_writes split: if_splits)
  moreover have "sets cfg v l (unat (VRegA_23x d)) IntegerReg (Some (v', l'))"
    using binary_sets(1) [of cfg v l d IntegerReg i IntegerReg IntegerReg] verify(1) False by (auto simp: verify_int_def split: if_splits)
  ultimately show ?thesis using sets_number_typed [OF typed _ verify(2)] by blast
qed

lemma exec_int_2addr_typed:
  assumes typed: "state_typed cfg cls v l s" and verify: "verify_int_2addr op cfg d v l = Some (v', l')" "failures v' = failures v"
    and exec: "exec_int_2addr op rt d s = Some (s', NextUnits n)"
  shows "state_typed cfg cls v' l' s'"
proof (cases "op \<in> {AND_INT_2ADDR, OR_INT_2ADDR, XOR_INT_2ADDR}")
  case True
  have "int_binary (AND) Next_1xx (unat (VRegA_12x d)) (unat (VRegA_12x d)) (unat (VRegB_12x d)) s = Some (s', NextUnits n) \<or>
      int_binary (OR) Next_1xx (unat (VRegA_12x d)) (unat (VRegA_12x d)) (unat (VRegB_12x d)) s = Some (s', NextUnits n) \<or>
      int_binary (XOR) Next_1xx (unat (VRegA_12x d)) (unat (VRegA_12x d)) (unat (VRegB_12x d)) s = Some (s', NextUnits n)"
    using exec True by (auto simp: exec_int_2addr_def Let_def)
  moreover have "sets_boolean cfg v l (unat (VRegA_12x d)) (are_boolean (unat (VRegA_12x d)) (unat (VRegB_12x d))) (Some (v', l'))" using binary_sets(4) [of cfg v l d IntegerReg IntegerReg] verify(1) True by (auto simp: verify_int_2addr_def)
  ultimately show ?thesis using bitwise_typed [OF typed _ verify(2)] by blast
next
  case False
  then have "writes s (unat (VRegA_12x d)) s'"
    using exec by (simp add: exec_int_2addr_def Let_def all_writes split: if_splits)
  moreover have "sets cfg v l (unat (VRegA_12x d)) IntegerReg (Some (v', l'))"
    using binary_sets(2) [of cfg v l d IntegerReg IntegerReg IntegerReg] verify(1) False by (auto simp: verify_int_2addr_def split: if_splits)
  ultimately show ?thesis using sets_number_typed [OF typed _ verify(2)] by blast
qed

lemma exec_long_typed:
  assumes typed: "state_typed cfg cls v l s" "throws_pend rt"
    and verify: "verify_long op cfg i d v l = Some (v', l')" "failures v' = failures v"
    and exec: "exec_long op rt i d s = Some (s', NextUnits n)"
  shows "state_typed cfg cls v' l' s'"
proof -
  have "writes_long s (unat (VRegA_23x d)) s'"
    using exec by (simp add: exec_long_def Let_def all_writes long_division_writes [OF typed(2)] split: if_splits)
  moreover have "verify_long op cfg i d v l = None \<or> sets_wide cfg v l (unat (VRegA_23x d)) (verify_long op cfg i d v l)"
    by (simp add: verify_long_def binary_sets_wide shift_sets_wide)
  ultimately show ?thesis using sets_wide_typed [OF typed(1) _ verify(2)] verify(1) by auto
qed

lemma exec_long_2addr_typed:
  assumes typed: "state_typed cfg cls v l s" "throws_pend rt"
    and verify: "verify_long_2addr op cfg d v l = Some (v', l')" "failures v' = failures v"
    and exec: "exec_long_2addr op rt d s = Some (s', NextUnits n)"
  shows "state_typed cfg cls v' l' s'"
proof -
  have "writes_long s (unat (VRegA_12x d)) s'"
    using exec by (simp add: exec_long_2addr_def Let_def all_writes long_division_writes [OF typed(2)] split: if_splits)
  moreover have "verify_long_2addr op cfg d v l = None \<or> sets_wide cfg v l (unat (VRegA_12x d)) (verify_long_2addr op cfg d v l)"
    by (simp add: verify_long_2addr_def binary_sets_wide shift_sets_wide)
  ultimately show ?thesis using sets_wide_typed [OF typed(1) _ verify(2)] verify(1) by auto
qed

lemma exec_float_typed:
  assumes typed: "state_typed cfg cls v l s" and verify: "verify_float op cfg i d v l = Some (v', l')" "failures v' = failures v"
    and exec: "exec_float op fp i d s = Some (s', NextUnits n)"
  shows "state_typed cfg cls v' l' s'"
proof -
  let ?a = "unat (VRegA_23x d)" and ?r = "verify_float op cfg i d v l"
  have "sets cfg v l ?a FloatReg ?r \<and> writes s ?a s' \<or> sets_wide cfg v l ?a ?r \<and> writes_long s ?a s'"
    using exec unfolding exec_float_def set_float_vreg
    by (simp add: Let_def verify_float_def binary_sets binary_sets_wide binary_writes split: if_splits)
  then show ?thesis
    using sets_wide_typed [OF typed _ verify(2)] sets_number_typed [OF typed _ verify(2)] verify(1) by auto
qed

lemma exec_float_2addr_typed:
  assumes typed: "state_typed cfg cls v l s" and verify: "verify_float_2addr op cfg d v l = Some (v', l')" "failures v' = failures v"
    and exec: "exec_float_2addr op fp d s = Some (s', NextUnits n)"
  shows "state_typed cfg cls v' l' s'"
proof -
  let ?a = "unat (VRegA_12x d)" and ?r = "verify_float_2addr op cfg d v l"
  have "sets cfg v l ?a FloatReg ?r \<and> writes s ?a s' \<or> sets_wide cfg v l ?a ?r \<and> writes_long s ?a s'"
    using exec unfolding exec_float_2addr_def set_float_vreg
    by (simp add: Let_def verify_float_2addr_def binary_sets binary_sets_wide binary_writes split: if_splits)
  then show ?thesis
    using sets_wide_typed [OF typed _ verify(2)] sets_number_typed [OF typed _ verify(2)] verify(1) by auto
qed

lemma exec_lit16_typed:
  assumes typed: "state_typed cfg cls v l s" and verify: "verify_lit16 op cfg i d v l = Some (v', l')" "failures v' = failures v"
    and exec: "exec_lit16 op rt i d s = Some (s', NextUnits n)"
  shows "state_typed cfg cls v' l' s'"
proof (cases "op \<in> {AND_INT_LIT16, OR_INT_LIT16, XOR_INT_LIT16}")
  case True
  have "literal (\<lambda>u. u AND (scast (VRegC_22s i))) (unat (VRegA_22s d)) (unat (VRegB_22s d)) s = Some (s', NextUnits n) \<or>
      literal (\<lambda>u. u OR (scast (VRegC_22s i))) (unat (VRegA_22s d)) (unat (VRegB_22s d)) s = Some (s', NextUnits n) \<or>
      literal (\<lambda>u. u XOR (scast (VRegC_22s i))) (unat (VRegA_22s d)) (unat (VRegB_22s d)) s = Some (s', NextUnits n)"
    using exec True by (auto simp: exec_lit16_def Let_def)
  moreover have "sets_boolean cfg v l (unat (VRegA_22s d)) (literal_boolean (unat (VRegB_22s d)) (scast (VRegC_22s i))) (Some (v', l'))" using literal_sets(3) [of cfg v l d i IntegerReg] verify(1) True by (auto simp: verify_lit16_def)
  ultimately show ?thesis using bitwise_literal_typed [OF typed _ verify(2)] by blast
next
  case False
  then have "writes s (unat (VRegA_22s d)) s'"
    using exec by (simp add: exec_lit16_def Let_def all_writes split: if_splits)
  moreover have "sets cfg v l (unat (VRegA_22s d)) IntegerReg (Some (v', l'))"
    using literal_sets(1) [of cfg v l d IntegerReg i IntegerReg] verify(1) False by (auto simp: verify_lit16_def split: if_splits)
  ultimately show ?thesis using sets_number_typed [OF typed _ verify(2)] by blast
qed

lemma exec_lit8_typed:
  assumes typed: "state_typed cfg cls v l s" and verify: "verify_lit8 op cfg i d v l = Some (v', l')" "failures v' = failures v"
    and exec: "exec_lit8 op rt i d s = Some (s', NextUnits n)"
  shows "state_typed cfg cls v' l' s'"
proof (cases "op \<in> {AND_INT_LIT8, OR_INT_LIT8, XOR_INT_LIT8}")
  case True
  have "literal (\<lambda>u. u AND (scast (VRegC_22b i))) (unat (VRegA_22b d)) (unat (VRegB_22b i)) s = Some (s', NextUnits n) \<or>
      literal (\<lambda>u. u OR (scast (VRegC_22b i))) (unat (VRegA_22b d)) (unat (VRegB_22b i)) s = Some (s', NextUnits n) \<or>
      literal (\<lambda>u. u XOR (scast (VRegC_22b i))) (unat (VRegA_22b d)) (unat (VRegB_22b i)) s = Some (s', NextUnits n)"
    using exec True by (auto simp: exec_lit8_def Let_def)
  moreover have "sets_boolean cfg v l (unat (VRegA_22b d)) (literal_boolean (unat (VRegB_22b i)) (scast (VRegC_22b i))) (Some (v', l'))" using literal_sets(4) [of cfg v l d i IntegerReg] verify(1) True by (auto simp: verify_lit8_def)
  ultimately show ?thesis using bitwise_literal_typed [OF typed _ verify(2)] by blast
next
  case False
  then have "writes s (unat (VRegA_22b d)) s'"
    using exec by (simp add: exec_lit8_def Let_def all_writes split: if_splits)
  moreover have "sets cfg v l (unat (VRegA_22b d)) IntegerReg (Some (v', l'))"
    using literal_sets(2) [of cfg v l d IntegerReg i IntegerReg] verify(1) False by (auto simp: verify_lit8_def split: if_splits)
  ultimately show ?thesis using sets_number_typed [OF typed _ verify(2)] by blast
qed

lemma exec_move_typed:
  assumes typed: "state_typed cfg cls v l s" and verify: "verify_move op cfg i d v l = Some (v', l')" "failures v' = failures v"
    and exec: "exec_move op i d s = Some (s', NextUnits n)"
  shows "state_typed cfg cls v' l' s'"
proof -
  note copies = CopyRegister1_typed [OF typed _ verify(2)] CopyRegister2_typed [OF typed _ verify(2)]
    CopyResultRegister1_typed [OF typed _ verify(2)] CopyResultRegister2_typed [OF typed _ verify(2)]
  have moves: "move_vreg s a b = Some s' \<Longrightarrow> CopyRegister1 cfg a b kTypeCategory1nr v l = Some (v', l') \<Longrightarrow> state_typed cfg cls v' l' s'"
    "move_vreg_ref s a b = Some s' \<Longrightarrow> CopyRegister1 cfg a b kTypeCategoryRef v l = Some (v', l') \<Longrightarrow> state_typed cfg cls v' l' s'"
    "set_vreg s a (ucast (result_register s)) = Some s' \<Longrightarrow> CopyResultRegister1 cfg a False v l = Some (v', l') \<Longrightarrow> state_typed cfg cls v' l' s'"
    "set_vreg_ref s a (ucast (result_register s)) = Some s' \<Longrightarrow> CopyResultRegister1 cfg a True v l = Some (v', l') \<Longrightarrow> state_typed cfg cls v' l' s'"
    for a b using copies by blast+
  show ?thesis
    using exec verify typed
    by (auto simp: exec_move_def verify_move_def exec_defs split: if_splits intro: moves copies(2,4))
qed

lemma exec_const_typed:
  assumes typed: "state_typed cfg cls v l s" "length (reg_types v) + 2 \<le> 2 ^ 16"
    and verify: "verify_const op cfg i d v l = Some (v', l')" "failures v' = failures v"
    and exec: "exec_const op rt i d s = Some (s', NextUnits n)"
  shows "state_typed cfg cls v' l' s'"
proof -
  have room: "length (reg_types v) < 2 ^ 16" using typed(2) by simp
  show ?thesis
    using exec verify(1) unfolding exec_const_def verify_const_def const_4_value set_const_vreg
    by (simp add: exec_defs set_constant_typed [OF typed(1) room _ verify(2)] set_wide_constant_typed [OF typed(1,2) _ verify(2)]
        split: if_splits)
qed

lemma verified_step_typed:
  assumes typed: "state_typed cfg cls v l s" "throws_pend rt" "length (reg_types v) + 2 \<le> 2 ^ 16"
    and verify: "verify_registers op cfg i d v l = Some (v', l')" "failures v' = failures v"
    and exec: "execute op ecfg rt fp i d s = Some (s', NextUnits n)"
  shows "state_typed cfg cls v' l' s'"
  using exec verify(1) unfolding execute_def verify_registers_def
  by (auto split: if_splits simp del: not_le
      intro: exec_move_typed [OF typed(1) _ verify(2)] exec_const_typed [OF typed(1,3) _ verify(2)]
        exec_cmp_typed [OF typed(1) _ verify(2)] exec_unop_typed [OF typed(1) _ verify(2)]
        exec_int_typed [OF typed(1) _ verify(2)] exec_long_typed [OF typed(1,2) _ verify(2)]
        exec_float_typed [OF typed(1) _ verify(2)] exec_int_2addr_typed [OF typed(1) _ verify(2)]
        exec_long_2addr_typed [OF typed(1,2) _ verify(2)] exec_float_2addr_typed [OF typed(1) _ verify(2)]
        exec_lit16_typed [OF typed(1) _ verify(2)] exec_lit8_typed [OF typed(1) _ verify(2)])

section \<open>Accepted instructions do not get stuck\<close>

text \<open>The interpreter has no value (\<^term>\<open>None\<close>) where it would leave the frame. An accepted instruction has one, and it
  goes on or to a handler.\<close>

definition proceeds :: "'h exec \<Rightarrow> bool" where
  "proceeds r \<longleftrightarrow> (\<exists>s fl. r = Some (s, fl) \<and> (fl = HandlePending \<or> (\<exists>n. fl = NextUnits n)))"

lemma proceeds_proceed: "proceeds (proceed (NextUnits n) r) \<longleftrightarrow> r \<noteq> None"
  by (cases r) (auto simp: proceeds_def proceed_def)

lemma when_ok_accepts:
  assumes "pure_check v l c" "when_ok c k = Some (v', l')" "failures v' = failures v"
  shows "c = Some (True, v, l)" "k v l \<noteq> None"
proof -
  obtain ok0 v0 l0 where c: "c = Some (ok0, v0, l0)"
    using assms(2) by (auto simp: when_ok_def and_then_def bind_eq_Some_conv)
  then have "if ok0 then v0 = v \<and> l0 = l else \<exists>e. failures v0 = failures v @ [e]"
    using assms(1) by (auto simp: pure_check_def)
  then show "c = Some (True, v, l)" "k v l \<noteq> None"
    using assms(2,3) c by (cases ok0; auto simp: when_ok_def and_then_def)+
qed

lemma and_then_accepts:
  "pure_check v l c \<Longrightarrow> and_then c k = Some (True, v, l) \<longleftrightarrow> c = Some (True, v, l) \<and> k v l = Some (True, v, l)"
  by (cases c) (auto simp: pure_check_def and_then_def split: if_splits)

lemma VerifyRegisterType_bound: "VerifyRegisterType cfg i t v l = Some (True, v, l) \<Longrightarrow> i < length (line l)"
  by (auto simp: VerifyRegisterType_def GetRegisterType_def bind_eq_Some_conv split: if_splits)

lemma VerifyRegisterTypeWide_bound: "VerifyRegisterTypeWide cfg i t t' v l = Some (True, v, l) \<Longrightarrow> Suc i < length (line l)"
  by (auto simp: VerifyRegisterTypeWide_def GetRegisterType_def bind_eq_Some_conv split: if_splits)

lemma destination_bounds:
  "SetRegisterType cfg a t v l \<noteq> None \<Longrightarrow> a < length (line l)"
  "SetRegisterTypeWide cfg a t t' v l \<noteq> None \<Longrightarrow> Suc a < length (line l)"
  "set_int_or_boolean cfg a t b both v l \<noteq> None \<Longrightarrow> a < length (line l)"
  by (auto simp: SetRegisterType_def SetRegisterTypeWide_def set_int_or_boolean_def bind_eq_Some_conv split: if_splits)

lemma frame_bounds:
  assumes "state_typed cfg cls v l s"
  shows "length (vregs (frame s)) = length (line l)" "length (references (frame s)) = length (line l)"
  using assms by (simp_all add: state_typed_def registers_typed_def)

lemma frame_total:
  assumes "state_typed cfg cls v l s"
  shows "i < length (line l) \<Longrightarrow> GetVReg (frame s) i \<noteq> None" "Suc i < length (line l) \<Longrightarrow> GetVRegLong (frame s) i \<noteq> None"
    "i < length (line l) \<Longrightarrow> GetVRegReference (frame s) i \<noteq> None"
    "i < length (line l) \<Longrightarrow> set_vreg s i x \<noteq> None" "Suc i < length (line l) \<Longrightarrow> set_vreg_long s i y \<noteq> None"
    "i < length (line l) \<Longrightarrow> set_vreg_ref s i x \<noteq> None"
  using frame_bounds [OF assms]
  by (simp_all add: GetVReg_def GetVRegLong_def GetVRegReference_def set_vreg_def set_vreg_long_def set_vreg_ref_def SetVReg_def
      SetVRegLong_def SetVRegReference_def NumberOfVRegs_def)

lemma proceeds_bind: "m \<noteq> None \<Longrightarrow> (\<And>x. proceeds (k x)) \<Longrightarrow> proceeds (m \<bind> k)"
  by (cases m) simp_all

lemma exec_total:
  assumes "state_typed cfg cls v l s"
  shows "unat (VRegA_12x d) < length (line l) \<Longrightarrow> unat (VRegB_12x d) < length (line l) \<Longrightarrow> proceeds (unary GetVReg set_vreg f d s)"
    "Suc (unat (VRegA_12x d)) < length (line l) \<Longrightarrow> unat (VRegB_12x d) < length (line l) \<Longrightarrow> proceeds (unary GetVReg set_vreg_long g d s)"
    "unat (VRegA_12x d) < length (line l) \<Longrightarrow> Suc (unat (VRegB_12x d)) < length (line l) \<Longrightarrow> proceeds (unary GetVRegLong set_vreg h d s)"
    "Suc (unat (VRegA_12x d)) < length (line l) \<Longrightarrow> Suc (unat (VRegB_12x d)) < length (line l) \<Longrightarrow> proceeds (unary GetVRegLong set_vreg_long k d s)"
  unfolding unary_def by (intro proceeds_bind; simp add: proceeds_proceed frame_total [OF assms])+

lemma binary_total:
  assumes "state_typed cfg cls v l s"
  shows "a < length (line l) \<Longrightarrow> b < length (line l) \<Longrightarrow> c < length (line l) \<Longrightarrow> proceeds (int_binary f (NextUnits n) a b c s)"
    "Suc a < length (line l) \<Longrightarrow> Suc b < length (line l) \<Longrightarrow> Suc c < length (line l) \<Longrightarrow> proceeds (long_binary g (NextUnits n) a b c s)"
    "Suc a < length (line l) \<Longrightarrow> Suc b < length (line l) \<Longrightarrow> c < length (line l) \<Longrightarrow> proceeds (long_shift h (NextUnits n) a b c s)"
    "a < length (line l) \<Longrightarrow> b < length (line l) \<Longrightarrow> proceeds (literal k a b s)"
  unfolding binary_def literal_def by (intro proceeds_bind; simp add: proceeds_proceed frame_total [OF assms])+

lemma compare_total:
  assumes "state_typed cfg cls v l s" "unat (VRegA_23x d) < length (line l)"
  shows "unat (VRegB_23x i) < length (line l) \<Longrightarrow> unat (VRegC_23x i) < length (line l) \<Longrightarrow> proceeds (compare_vregs GetVReg f i d s)"
    "Suc (unat (VRegB_23x i)) < length (line l) \<Longrightarrow> Suc (unat (VRegC_23x i)) < length (line l) \<Longrightarrow> proceeds (compare_vregs GetVRegLong g i d s)"
  using assms(2) unfolding compare_vregs_def by (intro proceeds_bind; simp add: proceeds_proceed frame_total [OF assms(1)])+

lemma quotients_total:
  assumes "state_typed cfg cls v l s"
  shows "a < length (line l) \<Longrightarrow> DoIntDivide rt s a x y \<noteq> None" "a < length (line l) \<Longrightarrow> DoIntRemainder rt s a x y \<noteq> None"
    "Suc a < length (line l) \<Longrightarrow> DoLongDivide rt s a p q \<noteq> None" "Suc a < length (line l) \<Longrightarrow> DoLongRemainder rt s a p q \<noteq> None"
  by (simp_all add: DoIntDivide_def DoIntRemainder_def DoLongDivide_def DoLongRemainder_def c_div_def c_rem_def
      frame_total [OF assms] del: not_None_eq)

lemma proceeds_on_success: "r \<noteq> None \<Longrightarrow> proceeds (on_success (NextUnits n) r)"
  by (auto simp: proceeds_def exec_defs)

lemma division_total:
  assumes "state_typed cfg cls v l s"
  shows "a < length (line l) \<Longrightarrow> b < length (line l) \<Longrightarrow> c < length (line l) \<Longrightarrow> proceeds (int_division (DoIntDivide rt) (NextUnits n) a b c s)"
    "a < length (line l) \<Longrightarrow> b < length (line l) \<Longrightarrow> c < length (line l) \<Longrightarrow> proceeds (int_division (DoIntRemainder rt) (NextUnits n) a b c s)"
    "a < length (line l) \<Longrightarrow> b < length (line l) \<Longrightarrow> proceeds (literal_division (DoIntDivide rt) a b lit s)"
    "a < length (line l) \<Longrightarrow> b < length (line l) \<Longrightarrow> proceeds (literal_division (DoIntRemainder rt) a b lit s)"
  unfolding int_division_def literal_division_def
  by (intro proceeds_bind; simp add: proceeds_on_success frame_total [OF assms] quotients_total [OF assms])+

lemma long_division_total:
  assumes "state_typed cfg cls v l s" "Suc a < length (line l)" "Suc b < length (line l)" "Suc c < length (line l)"
  shows "proceeds (long_division (DoLongDivide rt) (NextUnits n) a b c s)" "proceeds (long_division (DoLongRemainder rt) (NextUnits n) a b c s)"
proof -
  obtain x y where "GetVRegLong (frame s) b = Some x" "GetVRegLong (frame s) c = Some y"
    using frame_total(2) [OF assms(1)] assms(3,4) by blast
  moreover obtain p q where "DoLongDivide rt s a x y = Some p" "DoLongRemainder rt s a x y = Some q"
    using quotients_total [OF assms(1)] assms(2) by blast
  ultimately show "proceeds (long_division (DoLongDivide rt) (NextUnits n) a b c s)"
    "proceeds (long_division (DoLongRemainder rt) (NextUnits n) a b c s)"
    by (cases p; cases q; simp add: long_division_def proceeds_def exec_defs)+
qed

lemmas totals = exec_total binary_total division_total long_division_total

text \<open>The operands of an accepted operator are registers of the line.\<close>

lemma unary_bounds:
  assumes "failures v' = failures v"
  shows "CheckUnaryOp cfg d t t1 v l = Some (v', l') \<Longrightarrow> unat (VRegA_12x d) < length (line l) \<and> unat (VRegB_12x d) < length (line l)"
    "CheckUnaryOpWide cfg d t t' t1 t2 v l = Some (v', l') \<Longrightarrow> Suc (unat (VRegA_12x d)) < length (line l) \<and> Suc (unat (VRegB_12x d)) < length (line l)"
    "CheckUnaryOpToWide cfg d t t' t1 v l = Some (v', l') \<Longrightarrow> Suc (unat (VRegA_12x d)) < length (line l) \<and> unat (VRegB_12x d) < length (line l)"
    "CheckUnaryOpFromWide cfg d t t1 t2 v l = Some (v', l') \<Longrightarrow> unat (VRegA_12x d) < length (line l) \<and> Suc (unat (VRegB_12x d)) < length (line l)"
  unfolding CheckUnaryOp_def CheckUnaryOpWide_def CheckUnaryOpToWide_def CheckUnaryOpFromWide_def
  by (intro conjI destination_bounds(1,2) VerifyRegisterType_bound VerifyRegisterTypeWide_bound;
      erule when_ok_accepts [OF pure_VerifyRegisterType _ assms] when_ok_accepts [OF pure_VerifyRegisterTypeWide _ assms])+

lemma pair_bounds:
  "and_then (VerifyRegisterType cfg b t v l) (VerifyRegisterType cfg c t1) = Some (True, v, l) \<Longrightarrow>
    b < length (line l) \<and> c < length (line l)"
  "and_then (VerifyRegisterTypeWide cfg b t t' v l) (VerifyRegisterTypeWide cfg c t1 t2) = Some (True, v, l) \<Longrightarrow>
    Suc b < length (line l) \<and> Suc c < length (line l)"
  "and_then (VerifyRegisterTypeWide cfg b t t' v l) (VerifyRegisterType cfg c t1) = Some (True, v, l) \<Longrightarrow>
    Suc b < length (line l) \<and> c < length (line l)"
  by (auto simp: and_then_accepts pure_checks intro: VerifyRegisterType_bound VerifyRegisterTypeWide_bound)

lemma when_ok_bounds:
  assumes "when_ok c k = Some (v', l')" "failures v' = failures v" "pure_check v l c"
    "c = Some (True, v, l) \<Longrightarrow> P" "k v l \<noteq> None \<Longrightarrow> Q"
  shows "Q \<and> P"
  using when_ok_accepts [OF assms(3,1,2)] assms(4,5) by blast

lemma binary_bounds:
  assumes "failures v' = failures v"
  shows "CheckBinaryOp cfg i d t t1 t2 b v l = Some (v', l') \<Longrightarrow> unat (VRegA_23x d) < length (line l) \<and>
      unat (VRegB_23x i) < length (line l) \<and> unat (VRegC_23x i) < length (line l)"
    "CheckBinaryOpWide cfg i d t t' t1 t2 t3 t4 v l = Some (v', l') \<Longrightarrow> Suc (unat (VRegA_23x d)) < length (line l) \<and>
      Suc (unat (VRegB_23x i)) < length (line l) \<and> Suc (unat (VRegC_23x i)) < length (line l)"
    "CheckBinaryOpWideShift cfg i d t t' t1 v l = Some (v', l') \<Longrightarrow> Suc (unat (VRegA_23x d)) < length (line l) \<and>
      Suc (unat (VRegB_23x i)) < length (line l) \<and> unat (VRegC_23x i) < length (line l)"
  unfolding CheckBinaryOp_def CheckBinaryOpWide_def CheckBinaryOpWideShift_def Let_def
  by (erule when_ok_bounds [OF _ assms]; (erule destination_bounds pair_bounds | intro pure_checks))+

lemma binary_2addr_bounds:
  assumes "failures v' = failures v"
  shows "CheckBinaryOp2addr cfg d t t1 t2 b v l = Some (v', l') \<Longrightarrow> unat (VRegA_12x d) < length (line l) \<and>
      unat (VRegA_12x d) < length (line l) \<and> unat (VRegB_12x d) < length (line l)"
    "CheckBinaryOp2addrWide cfg d t t' t1 t2 t3 t4 v l = Some (v', l') \<Longrightarrow> Suc (unat (VRegA_12x d)) < length (line l) \<and>
      Suc (unat (VRegA_12x d)) < length (line l) \<and> Suc (unat (VRegB_12x d)) < length (line l)"
    "CheckBinaryOp2addrWideShift cfg d t t' t1 v l = Some (v', l') \<Longrightarrow> Suc (unat (VRegA_12x d)) < length (line l) \<and>
      Suc (unat (VRegA_12x d)) < length (line l) \<and> unat (VRegB_12x d) < length (line l)"
  unfolding CheckBinaryOp2addr_def CheckBinaryOp2addrWide_def CheckBinaryOp2addrWideShift_def Let_def
  by (erule when_ok_bounds [OF _ assms]; (erule destination_bounds pair_bounds | intro pure_checks))+

lemma literal_bounds:
  assumes "failures v' = failures v"
  shows "CheckLiteralOp cfg i d t t1 b True v l = Some (v', l') \<Longrightarrow>
      unat (VRegA_22s d) < length (line l) \<and> unat (VRegB_22s d) < length (line l)"
    "CheckLiteralOp cfg i d t t1 b False v l = Some (v', l') \<Longrightarrow>
      unat (VRegA_22b d) < length (line l) \<and> unat (VRegB_22b i) < length (line l)"
  unfolding CheckLiteralOp_def Let_def if_True if_False
  by (erule when_ok_bounds [OF _ assms]; (rule pure_VerifyRegisterType | erule destination_bounds | erule VerifyRegisterType_bound))+

lemmas operand_bounds = unary_bounds binary_bounds binary_2addr_bounds literal_bounds

lemma exec_cmp_total:
  assumes "state_typed cfg cls v l s" "verify_cmp op cfg i d v l = Some (v', l')" "failures v' = failures v"
  shows "proceeds (exec_cmp op fp i d s)"
proof -
  let ?a = "unat (VRegA_23x d)" and ?b = "unat (VRegB_23x i)" and ?c = "unat (VRegC_23x i)" and ?n = "length (line l)"
  have narrow: "?a < ?n \<and> ?b < ?n \<and> ?c < ?n"
    if "when_ok (and_then (VerifyRegisterType cfg ?b t v l) (VerifyRegisterType cfg ?c t1)) (SetRegisterType cfg ?a t2) = Some (v', l')" for t t1 t2
    using that by (rule when_ok_bounds [OF _ assms(3), of _ _ _ l]) (erule destination_bounds pair_bounds | intro pure_checks)+
  have wide: "?a < ?n \<and> Suc ?b < ?n \<and> Suc ?c < ?n"
    if "when_ok (and_then (VerifyRegisterTypeWide cfg ?b t t' v l) (VerifyRegisterTypeWide cfg ?c t1 t1')) (SetRegisterType cfg ?a t2) = Some (v', l')"
    for t t' t1 t1' t2
    using that by (rule when_ok_bounds [OF _ assms(3), of _ _ _ l]) (erule destination_bounds pair_bounds | intro pure_checks)+
  show ?thesis
    using assms(2) unfolding verify_cmp_def exec_cmp_def set_float_vreg Let_def
    by (auto split: if_splits intro!: compare_total [OF assms(1)] dest: narrow wide)
qed

lemma exec_unop_total:
  assumes "state_typed cfg cls v l s" "verify_unop op cfg d v l = Some (v', l')" "failures v' = failures v"
  shows "proceeds (exec_unop op fp d s)"
  using assms(2) unfolding verify_unop_def exec_unop_def set_float_vreg
  by (auto split: if_splits intro!: exec_total [OF assms(1)] dest: unary_bounds [OF assms(3)])

lemma exec_int_total:
  assumes "state_typed cfg cls v l s" "failures v' = failures v"
  shows "verify_int op cfg i d v l = Some (v', l') \<Longrightarrow> proceeds (exec_int op rt i d s)"
    "verify_int_2addr op cfg d v l = Some (v', l') \<Longrightarrow> proceeds (exec_int_2addr op rt d s)"
  unfolding verify_int_def exec_int_def verify_int_2addr_def exec_int_2addr_def Let_def
  by (auto split: if_splits intro!: totals [OF assms(1)] dest: operand_bounds [OF assms(2)])

lemma exec_long_total:
  assumes "state_typed cfg cls v l s" "failures v' = failures v"
  shows "verify_long op cfg i d v l = Some (v', l') \<Longrightarrow> proceeds (exec_long op rt i d s)"
    "verify_long_2addr op cfg d v l = Some (v', l') \<Longrightarrow> proceeds (exec_long_2addr op rt d s)"
  unfolding verify_long_def exec_long_def verify_long_2addr_def exec_long_2addr_def Let_def
  by (auto split: if_splits intro!: totals [OF assms(1)] dest: operand_bounds [OF assms(2)])

lemma exec_float_total:
  assumes "state_typed cfg cls v l s" "failures v' = failures v"
  shows "verify_float op cfg i d v l = Some (v', l') \<Longrightarrow> proceeds (exec_float op fp i d s)"
    "verify_float_2addr op cfg d v l = Some (v', l') \<Longrightarrow> proceeds (exec_float_2addr op fp d s)"
  unfolding verify_float_def exec_float_def verify_float_2addr_def exec_float_2addr_def Let_def set_float_vreg
  by (auto split: if_splits intro!: totals [OF assms(1)] dest: operand_bounds [OF assms(2)])

lemma exec_literal_total:
  assumes "state_typed cfg cls v l s" "failures v' = failures v"
  shows "verify_lit16 op cfg i d v l = Some (v', l') \<Longrightarrow> proceeds (exec_lit16 op rt i d s)"
    "verify_lit8 op cfg i d v l = Some (v', l') \<Longrightarrow> proceeds (exec_lit8 op rt i d s)"
  unfolding verify_lit16_def exec_lit16_def verify_lit8_def exec_lit8_def Let_def
  by (auto split: if_splits intro!: totals [OF assms(1)] dest: operand_bounds [OF assms(2)])

lemma move_bounds:
  "CopyRegister1 cfg a b cat v l = Some r \<Longrightarrow> a < length (line l) \<and> b < length (line l)"
  "CopyRegister2 cfg a b v l = Some (v', l') \<Longrightarrow> failures v' = failures v \<Longrightarrow> Suc a < length (line l) \<and> Suc b < length (line l)"
  "CopyResultRegister1 cfg a ref v l = Some (v', l') \<Longrightarrow> failures v' = failures v \<Longrightarrow> a < length (line l)"
  "CopyResultRegister2 cfg a v l = Some (v', l') \<Longrightarrow> failures v' = failures v \<Longrightarrow> Suc a < length (line l)"
  by (auto simp: CopyRegister1_def CopyRegister2_def CopyResultRegister1_def CopyResultRegister2_def GetRegisterType_def
      SetRegisterType_def SetRegisterTypeWide_def bind_eq_Some_conv split: if_splits)

lemma bind_total: "m \<noteq> None \<Longrightarrow> (\<And>x. k x \<noteq> None) \<Longrightarrow> m \<bind> k \<noteq> None"
  by (cases m) simp_all

lemma move_total:
  assumes "state_typed cfg cls v l s"
  shows "a < length (line l) \<Longrightarrow> b < length (line l) \<Longrightarrow> proceeds (proceed (NextUnits n) (move_vreg s a b))"
    "Suc a < length (line l) \<Longrightarrow> Suc b < length (line l) \<Longrightarrow> proceeds (proceed (NextUnits n) (move_vreg_long s a b))"
    "a < length (line l) \<Longrightarrow> b < length (line l) \<Longrightarrow> proceeds (proceed (NextUnits n) (move_vreg_ref s a b))"
    "a < length (line l) \<Longrightarrow> proceeds (proceed (NextUnits n) (set_vreg s a x))"
    "Suc a < length (line l) \<Longrightarrow> proceeds (proceed (NextUnits n) (set_vreg_long s a y))"
    "a < length (line l) \<Longrightarrow> proceeds (proceed (NextUnits n) (set_vreg_ref s a x))"
  unfolding move_vreg_def move_vreg_long_def move_vreg_ref_def proceeds_proceed
  by (intro bind_total frame_total [OF assms]; assumption)+

lemma exec_move_total:
  assumes "state_typed cfg cls v l s" "failures v' = failures v" "verify_move op cfg i d v l = Some (v', l')"
  shows "proceeds (exec_move op i d s)"
proof -
  have "proceeds (Some (s, NextUnits 1))" by (simp add: proceeds_def)
  then show ?thesis
    using assms(3) unfolding verify_move_def exec_move_def
    by (auto split: if_splits intro!: move_total [OF assms(1)] dest: move_bounds(1) move_bounds(2-4) [OF _ assms(2)])
qed

lemma exec_const_total:
  assumes "state_typed cfg cls v l s" "verify_const op cfg i d v l = Some (v', l')" "failures v' = failures v"
  shows "proceeds (exec_const op rt i d s)"
proof -
  have "set_constant cfg a x v l = Some (v', l') \<Longrightarrow> a < length (line l)"
    "set_wide_constant cfg a y v l = Some (v', l') \<Longrightarrow> Suc a < length (line l)" for a x y
    by (auto simp: set_constant_def set_wide_constant_def Let_def split: prod.splits dest!: destination_bounds(1,2) [OF option.discI])
  then show ?thesis
    using assms(2) unfolding verify_const_def exec_const_def set_const_vreg
    by (auto split: if_splits intro!: move_total [OF assms(1)])
qed

lemma verified_step_total:
  assumes "state_typed cfg cls v l s" "failures v' = failures v" "verify_registers op cfg i d v l = Some (v', l')"
  shows "proceeds (execute op ecfg rt fp i d s)"
  using assms(3) unfolding execute_def verify_registers_def
  by (auto split: if_splits intro: exec_move_total [OF assms(1,2)] exec_const_total [OF assms(1) _ assms(2)]
      exec_cmp_total [OF assms(1) _ assms(2)] exec_unop_total [OF assms(1) _ assms(2)] exec_int_total [OF assms(1,2)]
      exec_long_total [OF assms(1,2)] exec_float_total [OF assms(1,2)] exec_literal_total [OF assms(1,2)])

section \<open>Merging lines\<close>

lemma length_AddEntry: "length (snd (AddEntry es t)) = Suc (length es)"
  by (simp add: AddEntry_def Let_def)

lemma length_find_or_add: "length (snd (find_or_add es p t)) \<le> Suc (length es)"
  by (simp add: find_or_add_def AddEntry_def Let_def split: option.splits)

lemma length_FromCat1Const: "length (snd (FromCat1Const es x p)) \<le> Suc (length es)"
  by (simp add: FromCat1Const_def FromCat1NonSmallConstant_def length_find_or_add split: if_splits)

lemma length_FromClass: "length (snd (FromClass ct es d k p)) \<le> Suc (length es)"
  by (cases k) (simp_all add: FromClass_def length_find_or_add)

lemma length_merge_constants: "length (snd (merge_constants es a b)) \<le> Suc (length es)"
  by (simp add: merge_constants_def Let_def length_FromCat1Const ByteConstant_def ShortConstant_def IntConstant_def)

lemma length_FromUnresolvedMerge: "FromUnresolvedMerge es a b = Some res \<Longrightarrow> length (snd res) \<le> Suc (length es)"
  by (auto simp: FromUnresolvedMerge_def bind_eq_Some_conv length_AddEntry split: option.splits if_splits)

lemma length_merge_references: "merge_references ct es a b = Some res \<Longrightarrow> length (snd res) \<le> Suc (length es)"
  by (auto simp: merge_references_def JavaLangObject_def length_FromClass length_FromUnresolvedMerge bind_eq_Some_conv split: if_splits)

lemma length_Merge:
  assumes "Merge ct es a b = Some res"
  shows "length (snd res) \<le> Suc (length es)"
proof -
  let ?P = "\<lambda>r. r = Some res \<longrightarrow> length (snd res) \<le> Suc (length es)"
  have step: "?P x \<Longrightarrow> ?P y \<Longrightarrow> ?P (if c then x else y)" for x y c by simp
  have leaves: "?P (Some (t, es))" "?P (Some (merge_constants es a b))" "?P (merge_references ct es a b)"
    "?P (Some (FromCat2ConstLo es x p))" "?P (Some (FromCat2ConstHi es x p))" for t x p
    using length_merge_constants [of es a b] length_merge_references [of ct es a b res]
    by (auto simp: FromCat2ConstLo_def FromCat2ConstHi_def length_find_or_add)
  have "?P (Merge ct es a b)" unfolding Merge_def Let_def by (intro step leaves)
  then show ?thesis using assms by blast
qed

text \<open>The type of a register in a line.\<close>

abbreviation type_at :: "verifier \<Rightarrow> register_line \<Rightarrow> nat \<Rightarrow> RegType" where
  "type_at v l i \<equiv> kind (reg_types v ! unat (line l ! i))"

definition ids_ok :: "verifier \<Rightarrow> register_line \<Rightarrow> bool" where
  "ids_ok v l \<longleftrightarrow> (\<forall>i < length (line l). unat (line l ! i) < length (reg_types v))"

text \<open>The cache of a verifier only grows, and merging records no failure.\<close>

definition cache_grows :: "class_table \<Rightarrow> verifier \<Rightarrow> verifier \<Rightarrow> bool" where
  "cache_grows ct v v' \<longleftrightarrow> cache_ok ct (reg_types v') \<and> take (length (reg_types v)) (reg_types v') = reg_types v \<and> failures v' = failures v"

lemma cache_grows_nth:
  assumes "cache_grows ct v v'"
  shows "length (reg_types v) \<le> length (reg_types v')" "i < length (reg_types v) \<Longrightarrow> reg_types v' ! i = reg_types v ! i"
proof -
  have take: "take (length (reg_types v)) (reg_types v') = reg_types v" using assms by (simp add: cache_grows_def)
  show "length (reg_types v) \<le> length (reg_types v')" using arg_cong [OF take, of length] by simp
  show "reg_types v' ! i = reg_types v ! i" if "i < length (reg_types v)" using take that by (metis nth_take)
qed

lemma cache_grows_trans:
  assumes "cache_grows ct u v" "cache_grows ct v w"
  shows "cache_grows ct u w"
proof -
  have v: "take (length (reg_types v)) (reg_types w) = reg_types v" using assms(2) by (simp add: cache_grows_def)
  have "take (length (reg_types u)) (reg_types w) = take (length (reg_types u)) (take (length (reg_types v)) (reg_types w))"
    using cache_grows_nth(1) [OF assms(1)] by (simp add: min_absorb1)
  also have "\<dots> = reg_types u" unfolding v using assms(1) by (simp add: cache_grows_def)
  finally show ?thesis using assms by (simp add: cache_grows_def)
qed

lemma cache_grows_ids: "cache_grows ct v v' \<Longrightarrow> ids_ok v l \<Longrightarrow> ids_ok v' l"
  using cache_grows_nth(1) by (fastforce simp: ids_ok_def)

lemma merge_register_sound:
  assumes ct: "class_ok (classes cfg)" and ok: "cache_ok (classes cfg) (reg_types v)" "length (reg_types v) < 2 ^ 16"
    and ids: "ids_ok v l" "ids_ok v inc" and i: "i < length (line l)" "i < length (line inc)"
  shows "\<exists>ch' v' l'. merge_register cfg inc i (ch, v, l) = Some (ch', v', l') \<and> cache_grows (classes cfg) v v' \<and>
    length (reg_types v') \<le> Suc (length (reg_types v)) \<and> (\<exists>t \<in> set (reg_types v'). line l' = (line l)[i := cache_id t] \<and>
     (\<forall>cls x r. holds (classes cfg) cls (type_at v l i) x r \<or> holds (classes cfg) cls (type_at v inc i) x r \<longrightarrow>
        holds (classes cfg) cls (kind t) x r)) \<and> (\<not> ch' \<longrightarrow> \<not> ch \<and> line l' = line l)"
proof -
  let ?a = "reg_types v ! unat (line l ! i)" and ?b = "reg_types v ! unat (line inc ! i)"
  have in_set: "?a \<in> set (reg_types v)" "?b \<in> set (reg_types v)" using ids i by (simp_all add: ids_ok_def)
  have bounds: "unat (line l ! i) < length (reg_types v)" "unat (line inc ! i) < length (reg_types v)"
    using ids i by (simp_all add: ids_ok_def)
  have id: "cache_id ?a = line l ! i"
    using ok(1) bounds(1) by (simp add: cache_ok_def)
  show ?thesis
  proof (cases "line l ! i = line inc ! i")
    case True
    have "(line l)[i := line inc ! i] = line l" unfolding True [symmetric] by simp
    then show ?thesis
      using True ok(1) in_set id by (intro exI [of _ ch] exI [of _ v] exI [of _ l]) (auto simp: merge_register_def cache_grows_def intro!: bexI [of _ ?a])
  next
    case False
    obtain t es where m: "Merge (classes cfg) (reg_types v) ?a ?b = Some (t, es)" "keeps_cache (classes cfg) (reg_types v) (t, es)"
      "\<forall>cls x r. holds (classes cfg) cls (kind ?a) x r \<or> holds (classes cfg) cls (kind ?b) x r \<longrightarrow> holds (classes cfg) cls (kind t) x r"
      using Merge_sound [OF ct ok in_set] by auto
    have "cache_grows (classes cfg) v (v\<lparr>reg_types := es\<rparr>)" "t \<in> set es" using m(2) by (simp_all add: cache_grows_def keeps_cache_def)
    moreover have "length es \<le> Suc (length (reg_types v))" using length_Merge [OF m(1)] by simp
    moreover have "merge_register cfg inc i (ch, v, l) =
        Some (ch \<or> \<not> Equals ?a t, v\<lparr>reg_types := es\<rparr>, l\<lparr>line := (line l)[i := cache_id t]\<rparr>)"
      using False i bounds m(1) by (simp add: merge_register_def GetRegisterType_def GetFromId_def)
    moreover have "Equals ?a t \<Longrightarrow> (line l)[i := cache_id t] = line l"
      using id list_update_id [of "line l" i] by (simp add: Equals_def)
    ultimately show ?thesis using m(3) by auto
  qed
qed

lemma merge_registers_sound:
  assumes ct: "class_ok (classes cfg)"
  shows "cache_ok (classes cfg) (reg_types v) \<Longrightarrow> length (reg_types v) + length is \<le> 2 ^ 16 \<Longrightarrow> ids_ok v l \<Longrightarrow> ids_ok v inc \<Longrightarrow>
    length (line inc) = length (line l) \<Longrightarrow> set is \<subseteq> {..<length (line l)} \<Longrightarrow> distinct is \<Longrightarrow>
    \<exists>ch' v' l'. merge_registers cfg inc is (ch, v, l) = Some (ch', v', l') \<and> cache_grows (classes cfg) v v' \<and> ids_ok v' l' \<and>
      length (line l') = length (line l) \<and> (\<forall>i. i \<notin> set is \<longrightarrow> line l' ! i = line l ! i) \<and>
      (\<forall>i \<in> set is. \<forall>cls x r. holds (classes cfg) cls (type_at v l i) x r \<or> holds (classes cfg) cls (type_at v inc i) x r \<longrightarrow>
        holds (classes cfg) cls (type_at v' l' i) x r) \<and> (\<not> ch' \<longrightarrow> \<not> ch \<and> line l' = line l)"
proof (induction "is" arbitrary: ch v l)
  case Nil
  then show ?case by (auto simp: cache_grows_def)
next
  case (Cons i "is")
  have i: "i < length (line l)" "i < length (line inc)" and room: "length (reg_types v) < 2 ^ 16" using Cons.prems by auto
  obtain ch1 v1 l1 t where one: "merge_register cfg inc i (ch, v, l) = Some (ch1, v1, l1)" "cache_grows (classes cfg) v v1"
      "length (reg_types v1) \<le> Suc (length (reg_types v))" "t \<in> set (reg_types v1)" "line l1 = (line l)[i := cache_id t]"
      "\<forall>cls x r. holds (classes cfg) cls (type_at v l i) x r \<or> holds (classes cfg) cls (type_at v inc i) x r \<longrightarrow> holds (classes cfg) cls (kind t) x r"
      "\<not> ch1 \<longrightarrow> \<not> ch \<and> line l1 = line l"
    using merge_register_sound [OF ct Cons.prems(1) room Cons.prems(3,4) i, of ch] by blast
  have cache1: "cache_ok (classes cfg) (reg_types v1)" using one(2) by (simp add: cache_grows_def)
  have t: "unat (cache_id t) < length (reg_types v1)" "reg_types v1 ! unat (cache_id t) = t" using in_cache [OF cache1 one(4)] by simp_all
  have ids1: "ids_ok v1 l1" "ids_ok v1 inc"
    using cache_grows_ids [OF one(2)] Cons.prems(3,4) t(1) one(5) by (auto simp: ids_ok_def nth_list_update [OF i(1)])
  obtain ch' v' l' where rest: "merge_registers cfg inc is (ch1, v1, l1) = Some (ch', v', l')" "cache_grows (classes cfg) v1 v'" "ids_ok v' l'"
      "length (line l') = length (line l1)" "\<forall>j. j \<notin> set is \<longrightarrow> line l' ! j = line l1 ! j"
      "\<forall>j \<in> set is. \<forall>cls x r. holds (classes cfg) cls (type_at v1 l1 j) x r \<or> holds (classes cfg) cls (type_at v1 inc j) x r \<longrightarrow>
         holds (classes cfg) cls (type_at v' l' j) x r"
      "\<not> ch' \<longrightarrow> \<not> ch1 \<and> line l' = line l1"
    using Cons.IH [OF cache1 _ ids1, of ch1] Cons.prems(2,5,6,7) one(3,5) by auto
  have here: "type_at v' l' i = kind t"
    using rest(5) Cons.prems(7) one(5) i t cache_grows_nth(2) [OF rest(2) t(1)] by simp
  have there: "type_at v1 l1 j = type_at v l j" "type_at v1 inc j = type_at v inc j" if "j \<in> set is" for j
    using that Cons.prems(3-7) one(5) cache_grows_nth(2) [OF one(2)] by (auto simp: ids_ok_def nth_list_update [OF i(1)] subset_eq)
  show ?case
    using one rest here there cache_grows_trans [OF one(2) rest(2)]
    by (intro exI [of _ ch'] exI [of _ v'] exI [of _ l']) (auto simp: nth_list_update [OF i(1)])
qed

lemma line_merge_lock_depths [simp]: "line (merge_lock_depths inc l) = line l"
proof -
  have "line (fold (\<lambda>idx l. let depths = (reg_to_lock_depths l idx \<noteq> None); incoming_depths = (reg_to_lock_depths inc idx \<noteq> None)
      in if depths \<noteq> incoming_depths then ClearAllRegToLockDepths idx l else l) is m) = line m" for "is" m
    by (induction "is" arbitrary: m) (simp_all add: Let_def ClearAllRegToLockDepths_def)
  then show ?thesis by (simp add: merge_lock_depths_def)
qed

lemma MergeRegisters_sound:
  assumes "class_ok (classes cfg)" "cache_ok (classes cfg) (reg_types v)" "length (reg_types v) + length (line l) \<le> 2 ^ 16"
    "ids_ok v l" "ids_ok v inc" "length (line inc) = length (line l)"
  shows "\<exists>changed v' l'. MergeRegisters cfg inc v l = Some (changed, v', l') \<and> failures v' = failures v \<and>
     (\<not> changed \<longrightarrow> line l' = line l) \<and>
     (\<forall>cls sf. registers_typed (classes cfg) cls (reg_types v) (line l) sf \<or> registers_typed (classes cfg) cls (reg_types v) (line inc) sf \<longrightarrow>
        registers_typed (classes cfg) cls (reg_types v') (line l') sf)"
proof -
  have range: "length (reg_types v) + length [0..<length (line l)] \<le> 2 ^ 16" "set [0..<length (line l)] \<subseteq> {..<length (line l)}"
    using assms(3) by auto
  obtain ch v' l' where m: "merge_registers cfg inc [0..<length (line l)] (False, v, l) = Some (ch, v', l')"
      "cache_grows (classes cfg) v v'" "ids_ok v' l'" "length (line l') = length (line l)" "\<not> ch \<longrightarrow> line l' = line l"
    and h: "\<forall>i < length (line l). \<forall>cls x r. holds (classes cfg) cls (type_at v l i) x r \<or> holds (classes cfg) cls (type_at v inc i) x r \<longrightarrow>
        holds (classes cfg) cls (type_at v' l' i) x r"
    using merge_registers_sound [OF assms(1,2) range(1) assms(4-6) range(2) distinct_upt, of False] by auto
  have "registers_typed (classes cfg) cls (reg_types v') (line l') sf"
    if "registers_typed (classes cfg) cls (reg_types v) (line l) sf \<or> registers_typed (classes cfg) cls (reg_types v) (line inc) sf" for cls sf
    using that m(2-4) h assms(6) by (auto simp: registers_typed_def cache_grows_def ids_ok_def)
  then show ?thesis using m by (simp add: MergeRegisters_def cache_grows_def)
qed

end
