(* ===== verification/TypeSafety.thy ===== *)
theory TypeSafety
  imports VerifierSafety InterpreterSafety
begin

text \<open>
  Type safety of the instructions that work on registers, from the lemmas of \<^verbatim>\<open>VerifierSafety\<close>, and an
  instruction that the verifier accepts.
\<close>

text \<open>C3: An instruction on registers that the verifier accepts is type safe. If the line of the verifier describes the
  registers and the result register of the interpreter, and the verifier passes the instruction without recording a
  failure, then the interpreter executes it without leaving the frame, and either an exception is raised or the next
  instruction follows and the line that the verifier computed describes the new registers: references stay references
  to objects of their class, numbers stay within the range of their type and no number lies in a reference slot. The
  runtime has to leave the exception it throws pending, and the type cache needs room for the constants.\<close>
theorem verified_instruction_type_safe:
  assumes "state_typed vcfg cls v l s" "throws_pend rt" "length (reg_types v) + 2 \<le> 2 ^ 16"
    and "verify_registers op vcfg inst inst_data v l = Some (v', l')" "failures v' = failures v"
  shows "\<exists>s' fl. execute op cfg rt fp inst inst_data s = Some (s', fl) \<and>
     (fl = HandlePending \<or> (\<exists>n. fl = NextUnits n \<and> state_typed vcfg cls v' l' s'))"
proof -
  obtain s' fl where exec: "execute op cfg rt fp inst inst_data s = Some (s', fl)"
    and fl: "fl = HandlePending \<or> (\<exists>n. fl = NextUnits n)"
    using verified_step_total [OF assms(1,5,4), of cfg rt fp] by (auto simp: proceeds_def)
  show ?thesis using exec fl verified_step_typed [OF assms(1-5)] by blast
qed

text \<open>The code of \<^verbatim>\<open>and-int v0, v1, v1\<close>, with a boolean in the second register and nothing known of the first.\<close>

definition raising_runtime :: "unit runtime" where
  "raising_runtime = idle_runtime\<lparr>rt_do := (\<lambda>a s. case a of Throw _ \<Rightarrow> SetException 1 s | _ \<Rightarrow> s)\<rparr>"

definition and_code :: insn where
  "and_code = code_units [0x0095, 0x0101]"

definition sample_verifier_config :: verifier_config where
  "sample_verifier_config = \<lparr>classes = sample_classes 0, is_compiler = False, can_load_classes = True, allow_soft_failures = True,
     need_precise_constants = False, dex_file_version = 35\<rparr>"

definition sample_verifier :: verifier where
  "sample_verifier = \<lparr>reg_types = FillPrimitiveAndSmallConstantTypes, failures = [], have_pending_hard_failure = False,
     have_pending_runtime_throw_failure = False\<rparr>"

definition sample_line :: register_line where
  "sample_line = (Create 2)\<lparr>line := [cache_id Undefined, cache_id BooleanReg]\<rparr>"

definition sample_typed_state :: "unit istate" where
  "sample_typed_state = (initial_state 2)\<lparr>frame := \<lparr>vregs = [7, 1], references = [0, 0], frame_dex_pc = 0\<rparr>\<rparr>"

lemma sample_typed: "state_typed sample_verifier_config cls sample_verifier sample_line sample_typed_state"
  using initial_cache_ok [of "sample_classes 0"]
  by (simp add: state_typed_def registers_typed_def result_typed_def sample_verifier_config_def sample_verifier_def sample_line_def
      sample_typed_state_def initial_state_def Create_def Fill_list primitive_regs less_Suc_eq in_range_def)

theorem verified_instruction_type_safe_witness:
  "\<exists>v' l' s' fl. verify_registers AND_INT sample_verifier_config and_code 0x0095 sample_verifier sample_line = Some (v', l') \<and>
     line l' = [cache_id BooleanReg, cache_id BooleanReg] \<and>
     execute AND_INT sample_config raising_runtime idle_fpu and_code 0x0095 sample_typed_state = Some (s', fl) \<and>
     (fl = HandlePending \<or> (\<exists>n. fl = NextUnits n \<and> state_typed sample_verifier_config (\<lambda>_. None) v' l' s'))"
proof -
  have "map_option (\<lambda>(v', l'). (failures v', line l'))
      (verify_registers AND_INT sample_verifier_config and_code 0x0095 sample_verifier sample_line) =
    Some ([], [cache_id BooleanReg, cache_id BooleanReg])" by code_simp
  then obtain v' l' where verify: "verify_registers AND_INT sample_verifier_config and_code 0x0095 sample_verifier sample_line = Some (v', l')"
    and l': "failures v' = []" "line l' = [cache_id BooleanReg, cache_id BooleanReg]" by auto
  have "throws_pend raising_runtime" by (simp add: throws_pend_def raising_runtime_def SetException_def IsExceptionPending_def)
  moreover have "length (reg_types sample_verifier) + 2 \<le> 2 ^ 16" "failures v' = failures sample_verifier"
    by (simp_all add: sample_verifier_def Fill_length primitive_count_def l')
  ultimately show ?thesis
    using verified_instruction_type_safe [OF sample_typed _ _ verify, of raising_runtime sample_config idle_fpu] verify l'(2) by blast
qed

section \<open>Merging lines\<close>



section \<open>A move-object into the tested register\<close>

text \<open>
  The code \<^verbatim>\<open>move-object v1, v0; instance-of v0, v1, T; if-eqz v0\<close>: the result of the test overwrites the source of the
  move, and the sharpening of the source gives the boolean in \<^verbatim>\<open>v0\<close> the type \<^verbatim>\<open>T\<close> behind the branch.
\<close>

definition instance_of_code :: insn where
  "instance_of_code = code_units [0x0107, 0x1020, 0, 0x0038, 3]"

definition instance_of_flags :: code_flags where
  "instance_of_flags = \<lparr>is_opcode = (\<lambda>i. i = 0 \<or> i = 1 \<or> i = 3), is_branch_target = (\<lambda>_. False)\<rparr>"

definition instance_of_cache :: cache where
  "instance_of_cache = FillPrimitiveAndSmallConstantTypes @
     [\<lparr>cache_id = 18, kind = ReferenceType (Plain 1) []\<rparr>, \<lparr>cache_id = 19, kind = PreciseReferenceType (Plain 3) []\<rparr>]"

lemma sharpening_mistypes_boolean:
  "map_option (\<lambda>(v, l, branch_line, fallthrough_line). (failures v, line l, Option.is_none branch_line, map_option line fallthrough_line))
     (verify_ifz IF_EQZ sample_verifier_config instance_of_flags instance_of_code 3 (\<lambda>_ v. Some (instance_of_cache ! 19, v)) 0x0038
       (sample_verifier\<lparr>reg_types := instance_of_cache\<rparr>) (sample_line\<lparr>line := [cache_id BooleanReg, 18]\<rparr>)) =
   Some ([], [cache_id BooleanReg, 18], True, Some [19, 19])"
  "holds ct cls (kind BooleanReg) 1 0" "\<not> holds ct cls (kind (instance_of_cache ! 19)) 1 0"
    apply code_simp
   apply (simp add: primitive_regs in_range_def)
  apply (simp add: instance_of_cache_def Fill_list points_def)
  done

end
