(* ===== verification/Spec2Isabelle.thy ===== *)
theory Spec2Isabelle
  imports Names HashSet MonitorRefinement IdentityHash InterpreterSemantics SsaLiveness ParallelMove FoldingAgreement TypeSafety
begin

text \<open>
  Verification of parts of the Android runtime, ART. ART runs programs in the dex format: dex files are
  read and checked, methods are interpreted or compiled ahead of time by the optimizing compiler, and
  the runtime supplies objects, locks and strings to both. The development models the interpreter and the
  parts of the file format it reads, the part of the bytecode verifier that types registers, the middle of the
  optimizing compiler, the object lock, and data structures of the runtime. C++ sources are named relative to \<^verbatim>\<open>src/\<close>.

  \<^bold>\<open>Conventions.\<close> Machine integers are words of their width, \<open>u8\<close> to \<open>u64\<close>; a signed C++ integer is the
  same word read by \<^const>\<open>sint\<close>. A failed \<^verbatim>\<open>CHECK\<close>, a fatal log message and a read outside a buffer are
  the value \<^const>\<open>None\<close>; errors that the code reports are values of a type of their own. Loops that may
  not end are partial functions into \<open>option\<close>, and a statement that one of them returns is a statement of
  its own. A \<^verbatim>\<open>DCHECK\<close> is not executed in release builds and is not part of the model. Services that the
  model does not contain are arguments of the definitions that use them.

  \<^bold>\<open>Dex instructions and the interpreter.\<close>
  \<^item> \<open>DexOpcodes\<close> is the table of \<^verbatim>\<open>runtime/dex_instruction_list.h\<close>, row by row, and \<open>DexInstruction\<close> the
    decoders of \<^verbatim>\<open>runtime/dex_instruction.h\<close> and \<^verbatim>\<open>dex_instruction-inl.h\<close>. They show that sizes, formats and
    branch targets agree with the table, and that rewriting an instruction changes only what it should.
  \<^item> \<open>ShadowFrame\<close> (\<^verbatim>\<open>runtime/stack.h\<close>) is the register file of a method, a value and a reference per
    register. \<open>InterpreterState\<close> adds result register, pending exception and arrays, and collects the
    calls into the rest of the runtime in one record of functions.
  \<^item> \<open>InterpreterCommon\<close> and \<open>Interpreter\<close> are \<^verbatim>\<open>runtime/interpreter/interpreter_common.cc\<close> and
    \<^verbatim>\<open>interpreter_switch_impl.cc\<close>: every opcode, one function per group of cases. The main loop takes fuel, one
    unit per instruction, because a method may run forever.
  \<^item> \<open>InterpreterSafety\<close>: every case keeps the registers and their references in step, and continues only
    where the opcode table says. \<open>InterpreterSemantics\<close>: what division, switches, array accesses and calls
    compute.

  \<^bold>\<open>Encodings and names.\<close>
  \<^item> \<open>Leb128\<close> (\<^verbatim>\<open>runtime/leb128.h\<close>): encoders, decoders and sizes, with the round trip of streams through the
    locale \<open>self_delimiting\<close>, which the string encoding uses again.
  \<^item> \<open>ModifiedUtf8\<close> (\<^verbatim>\<open>runtime/utf.cc\<close>, \<^verbatim>\<open>utf-inl.h\<close>): conversion, order and hashes of strings, the string check
    of \<^verbatim>\<open>runtime/dex_file_verifier.cc\<close> and the one of \<^verbatim>\<open>runtime/check_jni.cc\<close>. The checks accept exactly the
    encodings of strings, or are safe to decode.
  \<^item> \<open>Names\<close> (\<^verbatim>\<open>runtime/utils.cc\<close>): the checks of member names and descriptors decide their grammars; dotted
    names and names for native methods can be told apart.

  \<^bold>\<open>Optimizing compiler\<close>, \<^verbatim>\<open>compiler/optimizing\<close>.
  \<^item> \<open>Nodes\<close> is the graph of \<^verbatim>\<open>nodes.h\<close> with the editing operations the passes use, and its meaning as runs
    in an arbitrary environment. \<open>GraphPasses\<close> (\<^verbatim>\<open>dead_code_elimination.cc\<close>) and \<open>ConstantFolding\<close>
    (\<^verbatim>\<open>constant_folding.cc\<close>) keep all runs; \<open>FoldingAgreement\<close> compares folded values with the interpreter.
  \<^item> \<open>BitVector\<close> (\<^verbatim>\<open>runtime/base/bit_vector.cc\<close>) implements sets. \<open>SsaLiveness\<close>
    (\<^verbatim>\<open>ssa_liveness_analysis.cc\<close>) is stated over the locale \<open>live_set\<close>, which bit vectors satisfy: the analysis
    terminates and computes the values that are live on some path.
  \<^item> \<open>Locations\<close> (\<^verbatim>\<open>locations.h\<close>, \<^verbatim>\<open>runtime/base/bit_field.h\<close>) are tagged words; \<open>ParallelMove\<close>
    (\<^verbatim>\<open>parallel_move_resolver.cc\<close>) shows that the moves and swaps the resolver emits do all moves at once.

  \<^bold>\<open>Runtime.\<close>
  \<^item> \<open>HashSet\<close> (\<^verbatim>\<open>runtime/base/hash_set.h\<close>): open addressing with removal. Every history of operations ends, and
    the set is the multiset of what was inserted and not removed, by the laws of the locale \<open>bag\<close>.
  \<^item> \<open>LockWord\<close> (\<^verbatim>\<open>runtime/lock_word.h\<close>) and \<open>MonitorModel\<close> (\<^verbatim>\<open>runtime/monitor.cc\<close>,
    \<^verbatim>\<open>IdentityHashCode\<close> of \<^verbatim>\<open>runtime/mirror/object.cc\<close>): entering, leaving, waiting on and hashing one object by
    any number of threads, with one rule per step between two accesses to shared memory.
    \<open>MonitorSafety\<close> proves the invariant with a rely-guarantee argument, and \<open>MonitorRefinement\<close> that the
    events of every run are those of an abstract recursive lock, through the locale
    \<open>forward_simulation\<close>. \<open>IdentityHash\<close> says when the generator of hash codes returns.

  \<^bold>\<open>Method verifier\<close>, \<^verbatim>\<open>runtime/verifier\<close>.
  \<^item> \<open>ClassHierarchy\<close> (\<^verbatim>\<open>runtime/mirror/class.h\<close>, \<^verbatim>\<open>class-inl.h\<close>, \<^verbatim>\<open>ClassJoin\<close> of \<^verbatim>\<open>reg_type.cc\<close>): a table of
    classes with superclasses, interfaces and arrays. The join of two classes is their least upper bound for
    assignability.
  \<^item> \<open>RegTypes\<close> (\<^verbatim>\<open>reg_type.h\<close>, \<^verbatim>\<open>reg_type.cc\<close>, \<^verbatim>\<open>reg_type_cache.cc\<close>): the types of registers with their
    predicates, the cache that numbers them with 16 bits, merging and assignability. \<open>RegTypeSafety\<close> says which
    contents of a register a type describes, and shows that the cache stays well formed and that merging
    and assignability are sound for that meaning.
  \<^item> \<open>RegisterLine\<close> (\<^verbatim>\<open>register_line.cc\<close>, \<^verbatim>\<open>register_line-inl.h\<close>): the types of all registers at an
    instruction, with the lock depths. \<open>MethodVerifier\<close> (\<^verbatim>\<open>CodeFlowVerifyInstruction\<close> of
    \<^verbatim>\<open>method_verifier.cc\<close>): the cases for moves, constants, comparisons, conditional branches, conversions and arithmetic.
  \<^item> \<open>VerifierSafety\<close> connects verifier and interpreter, one lemma per group of cases, and \<open>TypeSafety\<close> has the
    theorems: an accepted instruction on registers executes, and the line computed for it describes the
    registers afterwards; merging lines is sound and reports every change.
  \<^bold>\<open>Bounds.\<close> The theorems hold for all inputs of the types; where a theorem needs a bound, such as
  a table shorter than \<open>2 ^ 31\<close> entries or room in the type cache, it is a hypothesis. The fuel of the interpreter loop is arbitrary and the
  theorems hold for every amount.

  \<^bold>\<open>Not modelled.\<close> Of the verifier, the cases that resolve classes, fields and methods, the static
  checks of the code and the work list are left out: they walk the dex file and the class linker. The code generators, assemblers and the older compilers emit machine code or LLVM code, whose
  meaning is not in the sources. Garbage collectors and allocators work on raw memory. Class linker,
  debugger, JNI tables and the tools are calls into the operating system and into each other; the
  interpreter model takes what it needs of them as parameters. Memory ordering is not modelled: the
  steps of the lock model are sequentially consistent. Floating point is not interpreted: a float is its
  bit pattern and its arithmetic is a parameter.
\<close>

end
